(* ===== verification/Prelude.thy ===== *)
theory Prelude
  imports Main "HOL-Library.Char_ord" "HOL-Library.List_Lexorder"
begin

text \<open>
  Shared ground of the development: the collections of rules the component proofs use, the
  sequencing of fallible steps, and generic facts on lists that more than one component needs.
  A Go string or byte slice is a \<open>string\<close>, that is a list of bytes (\<open>char\<close> is the type of the
  256 bytes); the order on strings is Go's byte-wise lexicographic order.
\<close>

named_theorems go_simps \<open>defining equations that evaluate the model of the code\<close>
named_theorems inv_intros \<open>invariant preservation rules\<close>

type_synonym gostring = string

abbreviation byte :: "char \<Rightarrow> nat" where
  "byte c \<equiv> of_char c"

text \<open>
  A Go call returning \<open>(value, error)\<close> is a sum: \<open>Inl\<close> for the error, \<open>Inr\<close> for the value.
  \<open>and_then\<close> is the idiom \<open>if err != nil { return ..., err }\<close>.
\<close>

fun and_then :: "'e + 'a \<Rightarrow> ('a \<Rightarrow> 'e + 'b) \<Rightarrow> 'e + 'b" where
  "and_then (Inl e) f = Inl e"
| "and_then (Inr x) f = f x"

lemma and_then_Inr_iff [simp]:
  "and_then m f = Inr y \<longleftrightarrow> (\<exists>x. m = Inr x \<and> f x = Inr y)"
  by (cases m) auto

lemma and_then_Inl_iff:
  "and_then m f = Inl e \<longleftrightarrow> m = Inl e \<or> (\<exists>x. m = Inr x \<and> f x = Inl e)"
  by (cases m) auto

text \<open>Go's \<open>int\<close> and \<open>int64\<close> are 64-bit two's complement; \<open>wrap64\<close> is the wrap-around of
  their additions.\<close>

definition max_int64 :: int where
  "max_int64 = 9223372036854775807"

definition min_int64 :: int where
  "min_int64 = - 9223372036854775808"

definition wrap64 :: "int \<Rightarrow> int" where
  "wrap64 x = (x + 9223372036854775808) mod 18446744073709551616 - 9223372036854775808"

lemma wrap64_id: "min_int64 \<le> x \<Longrightarrow> x \<le> max_int64 \<Longrightarrow> wrap64 x = x"
  by (simp add: wrap64_def min_int64_def max_int64_def)

lemma wrap64_range: "min_int64 \<le> wrap64 x \<and> wrap64 x \<le> max_int64"
proof -
  have "0 \<le> (x + 9223372036854775808) mod 18446744073709551616"
    and "(x + 9223372036854775808) mod 18446744073709551616 < 18446744073709551616"
    by (rule pos_mod_sign, simp) (rule pos_mod_bound, simp)
  then show ?thesis unfolding wrap64_def min_int64_def max_int64_def by linarith
qed

text \<open>The half-open slice \<open>s[a:b]\<close> of a Go slice whose bounds are in range.\<close>

definition slice :: "nat \<Rightarrow> nat \<Rightarrow> 'a list \<Rightarrow> 'a list" where
  "slice a b s = take (b - a) (drop a s)"

lemma length_slice [simp]: "b \<le> length s \<Longrightarrow> length (slice a b s) = b - a"
  by (simp add: slice_def)

lemma slice_same [simp]: "slice a a s = []"
  by (simp add: slice_def)

lemma slice_all [simp]: "slice 0 (length s) s = s"
  by (simp add: slice_def)

lemma slice_append:
  "a \<le> b \<Longrightarrow> b \<le> c \<Longrightarrow> slice a b s @ slice b c s = slice a c s"
proof -
  assume ab: "a \<le> b" and bc: "b \<le> c"
  have "drop b s = drop (b - a) (drop a s)" using ab by simp
  moreover have "c - a = (b - a) + (c - b)" using ab bc by simp
  ultimately show ?thesis by (simp only: slice_def take_add)
qed

lemma slice_to_end: "slice a (length s) s = drop a s"
  by (simp add: slice_def)

lemma slice_Cons_shift [simp]: "slice (Suc a) (Suc b) (x # s) = slice a b s"
  by (simp add: slice_def)

lemma slice_append_left: "b \<le> length s \<Longrightarrow> slice a b (s @ t) = slice a b s"
  by (simp add: slice_def)

lemma slice_shift: "length p \<le> a \<Longrightarrow> slice a b (p @ s) = slice (a - length p) (b - length p) s"
  by (simp add: slice_def)

lemma slice_shift_add: "slice (length p + a) (length p + b) (p @ s) = slice a b s"
  by (simp add: slice_def)

text \<open>Loops that scan a slice and stop at the first bad element.\<close>

lemma list_all_filter_id: "list_all P xs \<Longrightarrow> filter P xs = xs"
  by (induction xs) auto

lemma distinct_map_unique:
  "distinct (map f xs) \<Longrightarrow> x \<in> set xs \<Longrightarrow> y \<in> set xs \<Longrightarrow> f x = f y \<Longrightarrow> x = y"
  by (auto simp: distinct_map inj_on_def)

lemma sorted_distinct_sorted_wrt:
  fixes xs :: "'a::linorder list"
  shows "sorted xs \<Longrightarrow> distinct xs \<Longrightarrow> sorted_wrt (<) xs"
  by (simp add: strict_sorted_iff)

lemma update_by_key:
  "distinct (map f xs) \<Longrightarrow> i < length xs \<Longrightarrow>
     xs[i := g (xs ! i)] = map (\<lambda>x. if f x = f (xs ! i) then g x else x) xs"
  by (rule nth_equalityI) (use nth_eq_iff_index_eq [of "map f xs"] in \<open>auto simp: nth_list_update\<close>)

lemma remove_by_key:
  "distinct (map f xs) \<Longrightarrow> i < length xs \<Longrightarrow>
     take i xs @ drop (Suc i) xs = filter (\<lambda>x. f x \<noteq> f (xs ! i)) xs"
proof (induction xs arbitrary: i)
  case (Cons x xs)
  show ?case
  proof (cases i)
    case 0
    with Cons.prems show ?thesis by (auto simp: filter_id_conv image_iff intro!: sym [OF filter_True])
  next
    case (Suc j)
    with Cons.prems have "f x \<noteq> f (xs ! j)" by (auto simp: image_iff)
    with Suc Cons show ?thesis by simp
  qed
qed simp

lemma filter_by_key:
  "distinct (map f xs) \<Longrightarrow> p \<in> f ` set xs \<Longrightarrow> map f (filter (\<lambda>x. f x = p) xs) = [p]"
  by (induction xs) (auto simp: filter_empty_conv image_iff)

section \<open>Chains of revisions\<close>

text \<open>An object that evolves by steps, each of which keeps an invariant, advances a counter by one and
  carries something over (a preorder): so does every chain of steps.\<close>

locale revision_chain =
  fixes step :: "'s \<Rightarrow> 's \<Rightarrow> bool"
    and inv :: "'s \<Rightarrow> bool"
    and counter :: "'s \<Rightarrow> int"
    and carries :: "'s \<Rightarrow> 's \<Rightarrow> bool"
  assumes carries_refl: "carries s s"
    and carries_trans: "carries s t \<Longrightarrow> carries t u \<Longrightarrow> carries s u"
    and step_revises: "step s t \<Longrightarrow> inv t \<and> counter t = counter s + 1 \<and> carries s t"
begin

lemma chain_revises: "(step ^^ n) s t \<Longrightarrow> inv s \<Longrightarrow> inv t \<and> counter t = counter s + int n \<and> carries s t"
proof (induction n arbitrary: t)
  case (Suc n)
  then obtain u where u: "(step ^^ n) s u" "step u t" by auto
  with Suc.IH [OF u(1) Suc.prems(2)] step_revises [OF u(2)] carries_trans show ?case by fastforce
qed (simp add: carries_refl)

end

text \<open>The same without a counter: steps that keep an invariant move forward in a preorder.\<close>

locale evolution =
  fixes step :: "'s \<Rightarrow> 's \<Rightarrow> bool"
    and inv :: "'s \<Rightarrow> bool"
    and later :: "'s \<Rightarrow> 's \<Rightarrow> bool"
  assumes later_refl: "later s s"
    and later_trans: "later s t \<Longrightarrow> later t u \<Longrightarrow> later s u"
    and step_evolves: "step s t \<Longrightarrow> inv s \<Longrightarrow> inv t \<and> later s t"
begin

lemma steps_evolve:
  assumes "step\<^sup>*\<^sup>* s t" "inv s"
  shows "inv t \<and> later s t"
  using assms
proof (induction rule: rtranclp_induct)
  case (step t u)
  with step_evolves later_trans show ?case by blast
qed (simp add: later_refl)

end

text \<open>Two lists related element by element.\<close>

lemma list_all2_left: "list_all2 P xs ys \<Longrightarrow> x \<in> set xs \<Longrightarrow> \<exists>y\<in>set ys. P x y"
  by (induction rule: list_all2_induct) auto

lemma list_all2_right: "list_all2 P xs ys \<Longrightarrow> y \<in> set ys \<Longrightarrow> \<exists>x\<in>set xs. P x y"
  by (induction rule: list_all2_induct) auto

end
