(* ===== verification/Go_Strings.thy ===== *)
theory Go_Strings
  imports Prelude
begin

text \<open>
  The part of Go's standard library the components call on strings and byte slices:
  package \<open>unicode/utf8\<close> (\<open>DecodeRune\<close>, \<open>RuneStart\<close>, \<open>Valid\<close>, \<open>RuneCount\<close>), the range loop
  over a string, package \<open>strings\<close> (\<open>HasPrefix\<close>, \<open>HasSuffix\<close>, \<open>Contains\<close>, \<open>Split\<close>,
  \<open>Cut\<close>, \<open>TrimSpace\<close>), \<open>unicode.IsSpace\<close>, \<open>unicode.IsControl\<close> and \<open>strconv.Itoa\<close> and
  \<open>Atoi\<close>. Strings are byte lists, so every length is a byte count, as in Go.
\<close>

section \<open>UTF-8\<close>

definition rune_error :: nat where
  "rune_error = 0xFFFD"

definition is_cont :: "char \<Rightarrow> bool" where
  "is_cont c \<longleftrightarrow> 0x80 \<le> byte c \<and> byte c \<le> 0xBF"

text \<open>\<open>utf8.RuneStart\<close>\<close>

definition rune_start :: "char \<Rightarrow> bool" where
  "rune_start c \<longleftrightarrow> \<not> is_cont c"

definition cont_bits :: "char \<Rightarrow> nat" where
  "cont_bits c = byte c - 0x80"

text \<open>\<open>utf8.DecodeRune\<close>: the rune and its width; width 1 with \<open>rune_error\<close> is an invalid
  encoding, width 0 the empty input. The second byte's range excludes overlong forms,
  surrogates and values past \<open>0x10FFFF\<close>.\<close>

definition decode2 :: "nat \<Rightarrow> string \<Rightarrow> nat \<times> nat" where
  "decode2 x s =
    (case s of
       b # _ \<Rightarrow> if is_cont b then ((x - 0xC0) * 64 + cont_bits b, 2) else (rune_error, 1)
     | [] \<Rightarrow> (rune_error, 1))"

definition decode3 :: "nat \<Rightarrow> string \<Rightarrow> nat \<times> nat" where
  "decode3 x s =
    (case s of
       b # c # _ \<Rightarrow>
         if is_cont b \<and> (x = 0xE0 \<longrightarrow> 0xA0 \<le> byte b) \<and> (x = 0xED \<longrightarrow> byte b \<le> 0x9F) \<and> is_cont c
         then ((x - 0xE0) * 4096 + cont_bits b * 64 + cont_bits c, 3) else (rune_error, 1)
     | _ \<Rightarrow> (rune_error, 1))"

definition decode4 :: "nat \<Rightarrow> string \<Rightarrow> nat \<times> nat" where
  "decode4 x s =
    (case s of
       b # c # d # _ \<Rightarrow>
         if is_cont b \<and> (x = 0xF0 \<longrightarrow> 0x90 \<le> byte b) \<and> (x = 0xF4 \<longrightarrow> byte b \<le> 0x8F)
            \<and> is_cont c \<and> is_cont d
         then ((x - 0xF0) * 262144 + cont_bits b * 4096 + cont_bits c * 64 + cont_bits d, 4)
         else (rune_error, 1)
     | _ \<Rightarrow> (rune_error, 1))"

fun decode_rune :: "string \<Rightarrow> nat \<times> nat" where
  "decode_rune [] = (rune_error, 0)"
| "decode_rune (a # s) =
    (if byte a < 0x80 then (byte a, 1)
     else if 0xC2 \<le> byte a \<and> byte a \<le> 0xDF then decode2 (byte a) s
     else if 0xE0 \<le> byte a \<and> byte a \<le> 0xEF then decode3 (byte a) s
     else if 0xF0 \<le> byte a \<and> byte a \<le> 0xF4 then decode4 (byte a) s
     else (rune_error, 1))"

lemma decode2_width:
  "snd (decode2 x s) = 1 \<or> (snd (decode2 x s) = 2 \<and> 1 \<le> length s \<and> is_cont (s ! 0))"
  by (simp add: decode2_def split: list.split)

lemma decode3_width:
  "snd (decode3 x s) = 1
   \<or> (snd (decode3 x s) = 3 \<and> 2 \<le> length s \<and> is_cont (s ! 0) \<and> is_cont (s ! 1))"
  by (simp add: decode3_def split: list.split)

lemma decode4_width:
  "snd (decode4 x s) = 1
   \<or> (snd (decode4 x s) = 4 \<and> 3 \<le> length s \<and> is_cont (s ! 0) \<and> is_cont (s ! 1) \<and> is_cont (s ! 2))"
  by (simp add: decode4_def split: list.split)

text \<open>The width of the rune at the front, with what its other bytes are.\<close>

lemma decode_rune_shape:
  "snd (decode_rune (a # s)) = 1
   \<or> (snd (decode_rune (a # s)) = 2 \<and> 1 \<le> length s \<and> is_cont (s ! 0))
   \<or> (snd (decode_rune (a # s)) = 3 \<and> 2 \<le> length s \<and> is_cont (s ! 0) \<and> is_cont (s ! 1))
   \<or> (snd (decode_rune (a # s)) = 4 \<and> 3 \<le> length s
        \<and> is_cont (s ! 0) \<and> is_cont (s ! 1) \<and> is_cont (s ! 2))"
proof -
  have "decode_rune (a # s) = (byte a, 1) \<or> decode_rune (a # s) = (rune_error, 1)
      \<or> decode_rune (a # s) = decode2 (byte a) s \<or> decode_rune (a # s) = decode3 (byte a) s
      \<or> decode_rune (a # s) = decode4 (byte a) s"
    by simp
  then show ?thesis
    using decode2_width [of "byte a" s] decode3_width [of "byte a" s] decode4_width [of "byte a" s]
    by (elim disjE) (simp_all only: snd_conv, blast+)
qed

lemma decode_rune_width:
  "s \<noteq> [] \<Longrightarrow> 1 \<le> snd (decode_rune s) \<and> snd (decode_rune s) \<le> 4 \<and> snd (decode_rune s) \<le> length s"
proof (cases s)
  case (Cons a t)
  then show ?thesis using decode_rune_shape [of a t] by (simp del: decode_rune.simps) linarith
qed simp

lemma decode_rune_pos [simp]: "s \<noteq> [] \<Longrightarrow> 0 < snd (decode_rune s)"
  using decode_rune_width [of s] by simp

lemma decode_rune_le_length [simp]: "snd (decode_rune s) \<le> length s"
  by (cases "s = []") (use decode_rune_width [of s] in auto)

text \<open>Every byte of a rune but the first is a continuation byte.\<close>

lemma decode_rune_tail_cont:
  assumes "0 < i" "i < snd (decode_rune s)"
  shows "is_cont (s ! i)"
proof (cases s)
  case Nil
  with assms show ?thesis by simp
next
  case (Cons a t)
  from assms Cons obtain j where j: "i = Suc j" "Suc j < snd (decode_rune (a # t))"
    by (cases i) (simp_all del: decode_rune.simps)
  then have "j = 0 \<or> j = 1 \<or> j = 2" and "is_cont (t ! j)"
    using decode_rune_shape [of a t]
    by (auto simp del: decode_rune.simps simp: numeral_eq_Suc less_Suc_eq)
  then show ?thesis using Cons j by simp
qed

declare decode_rune.simps(2) [simp del]

text \<open>The pieces a range loop over a string visits, one rune (or one bad byte) each.\<close>

function chunks :: "string \<Rightarrow> string list" where
  "chunks s = (if s = [] then []
     else take (snd (decode_rune s)) s # chunks (drop (snd (decode_rune s)) s))"
  by pat_completeness auto
termination
  by (relation "measure length") (auto simp: Suc_le_eq)

function runes :: "string \<Rightarrow> nat list" where
  "runes s = (if s = [] then []
     else fst (decode_rune s) # runes (drop (snd (decode_rune s)) s))"
  by pat_completeness auto
termination
  by (relation "measure length") (auto simp: Suc_le_eq)

function valid_utf8 :: "string \<Rightarrow> bool" where
  "valid_utf8 s = (if s = [] then True
     else decode_rune s \<noteq> (rune_error, 1) \<and> valid_utf8 (drop (snd (decode_rune s)) s))"
  by pat_completeness auto
termination
  by (relation "measure length") (auto simp: Suc_le_eq)

declare chunks.simps [simp del] runes.simps [simp del] valid_utf8.simps [simp del]

lemma chunks_Nil [simp]: "chunks [] = []"
  by (simp add: chunks.simps)

lemma runes_Nil [simp]: "runes [] = []"
  by (simp add: runes.simps)

lemma valid_utf8_Nil [simp]: "valid_utf8 []"
  by (simp add: valid_utf8.simps)

lemma chunks_Cons:
  "chunks (a # s) = take (snd (decode_rune (a # s))) (a # s)
     # chunks (drop (snd (decode_rune (a # s))) (a # s))"
  by (subst chunks.simps) simp

lemma runes_Cons:
  "runes (a # s) = fst (decode_rune (a # s)) # runes (drop (snd (decode_rune (a # s))) (a # s))"
  by (subst runes.simps) simp

lemma valid_utf8_Cons:
  "valid_utf8 (a # s) \<longleftrightarrow> decode_rune (a # s) \<noteq> (rune_error, 1)
     \<and> valid_utf8 (drop (snd (decode_rune (a # s))) (a # s))"
  by (subst valid_utf8.simps) simp

lemmas utf8_eval = chunks_Cons runes_Cons valid_utf8_Cons

lemma concat_chunks: "concat (chunks s) = s"
proof (induction s rule: chunks.induct)
  case (1 s)
  show ?case
  proof (cases "s = []")
    case False
    with 1 show ?thesis by (subst chunks.simps) simp
  qed simp
qed

lemma chunks_nonempty: "c \<in> set (chunks s) \<Longrightarrow> c \<noteq> []"
proof (induction s rule: chunks.induct)
  case (1 s)
  show ?case
  proof (cases "s = []")
    case False
    from 1(2) False consider "c = take (snd (decode_rune s)) s"
      | "c \<in> set (chunks (drop (snd (decode_rune s)) s))"
      by (subst (asm) chunks.simps) auto
    then show ?thesis using 1(1) False decode_rune_pos [of s] by cases auto
  qed (use 1(2) in simp)
qed

text \<open>A well-formed rune is decoded from its own bytes, whatever follows them.\<close>

lemma decode_rune_unfold: "decode_rune (a # s) =
    (if byte a < 0x80 then (byte a, 1)
     else if 0xC2 \<le> byte a \<and> byte a \<le> 0xDF then decode2 (byte a) s
     else if 0xE0 \<le> byte a \<and> byte a \<le> 0xEF then decode3 (byte a) s
     else if 0xF0 \<le> byte a \<and> byte a \<le> 0xF4 then decode4 (byte a) s
     else (rune_error, 1))"
  by (rule decode_rune.simps(2))

lemma decode2_take: "decode2 x s \<noteq> (rune_error, 1) \<Longrightarrow> decode2 x (take (snd (decode2 x s) - 1) s @ t) = decode2 x s"
  by (cases s) (auto simp: decode2_def)

lemma decode3_take: "decode3 x s \<noteq> (rune_error, 1) \<Longrightarrow> decode3 x (take (snd (decode3 x s) - 1) s @ t) = decode3 x s"
proof (cases "\<exists>b c u. s = b # c # u")
  case True
  assume "decode3 x s \<noteq> (rune_error, 1)"
  with True show ?thesis by (auto simp: decode3_def split: if_splits)
next
  case False
  assume "decode3 x s \<noteq> (rune_error, 1)"
  with False show ?thesis by (cases s; cases "tl s") (auto simp: decode3_def)
qed

lemma decode4_take: "decode4 x s \<noteq> (rune_error, 1) \<Longrightarrow> decode4 x (take (snd (decode4 x s) - 1) s @ t) = decode4 x s"
proof (cases "\<exists>b c d u. s = b # c # d # u")
  case True
  assume "decode4 x s \<noteq> (rune_error, 1)"
  with True show ?thesis by (auto simp: decode4_def split: if_splits)
next
  case False
  assume "decode4 x s \<noteq> (rune_error, 1)"
  with False show ?thesis by (cases s; cases "tl s"; cases "tl (tl s)") (auto simp: decode4_def)
qed

lemma decode_rune_take:
  assumes "s \<noteq> []" "decode_rune s \<noteq> (rune_error, 1)"
  shows "decode_rune (take (snd (decode_rune s)) s @ t) = decode_rune s"
proof -
  obtain a u where s: "s = a # u" using assms(1) by (cases s) auto
  have "take (snd (decode_rune s)) s @ t = a # take (snd (decode_rune s) - 1) u @ t"
    using decode_rune_pos [OF assms(1)] unfolding s by (cases "snd (decode_rune (a # u))") auto
  then show ?thesis
    using assms(2) decode2_take [of "byte a" u t] decode3_take [of "byte a" u t] decode4_take [of "byte a" u t]
    unfolding s by (auto simp: decode_rune_unfold split: if_splits)
qed

lemma valid_utf8_step:
  "s \<noteq> [] \<Longrightarrow> valid_utf8 s \<longleftrightarrow> decode_rune s \<noteq> (rune_error, 1) \<and> valid_utf8 (drop (snd (decode_rune s)) s)"
  by (subst valid_utf8.simps) simp

lemma valid_utf8_append: "valid_utf8 a \<Longrightarrow> valid_utf8 b \<Longrightarrow> valid_utf8 (a @ b)"
proof (induction a rule: valid_utf8.induct)
  case (1 a)
  show ?case
  proof (cases "a = []")
    case False
    let ?n = "snd (decode_rune a)"
    have v: "decode_rune a \<noteq> (rune_error, 1)" "valid_utf8 (drop ?n a)"
      using 1(2) False by (simp_all add: valid_utf8_step)
    have "decode_rune (a @ b) = decode_rune a"
      using decode_rune_take [OF False v(1), of "drop ?n a @ b"] by (metis append.assoc append_take_drop_id)
    moreover have "valid_utf8 (drop ?n a @ b)" using 1 False v by simp
    ultimately show ?thesis using v False by (simp add: valid_utf8_step)
  qed (use 1 in simp)
qed

text \<open>A valid text splits into valid texts at any boundary that starts a rune.\<close>

lemma decode_rune_boundary:
  assumes "a \<noteq> []" "b = [] \<or> rune_start (hd b)"
  shows "snd (decode_rune (a @ b)) \<le> length a"
proof (rule ccontr)
  assume "\<not> ?thesis"
  then have n: "length a < snd (decode_rune (a @ b))" by simp
  have "b \<noteq> []"
  proof
    assume "b = []"
    with n decode_rune_le_length [of a] show False by simp
  qed
  moreover have "is_cont ((a @ b) ! length a)"
    by (rule decode_rune_tail_cont [OF _ n]) (use assms in simp)
  ultimately show False using assms(2) by (simp add: rune_start_def hd_conv_nth nth_append)
qed

lemma valid_utf8_split:
  "valid_utf8 (a @ b) \<Longrightarrow> b = [] \<or> rune_start (hd b) \<Longrightarrow> valid_utf8 a \<and> valid_utf8 b"
proof (induction "length a" arbitrary: a rule: less_induct)
  case less
  show ?case
  proof (cases "a = []")
    case False
    let ?n = "snd (decode_rune (a @ b))"
    have v: "decode_rune (a @ b) \<noteq> (rune_error, 1)" "valid_utf8 (drop ?n (a @ b))"
      using less(2) False by (simp_all add: valid_utf8_step)
    have n: "?n \<le> length a" "0 < ?n" using decode_rune_boundary [OF False less(3)] False by auto
    have "valid_utf8 (drop ?n a @ b)" using v(2) n by simp
    then have IH: "valid_utf8 (drop ?n a) \<and> valid_utf8 b"
      using less(1) [of "drop ?n a"] less(3) n False by simp
    have "decode_rune (take ?n (a @ b) @ drop ?n a) = decode_rune (a @ b)"
      by (rule decode_rune_take) (use False v in simp_all)
    then have "decode_rune a = decode_rune (a @ b)" using n by simp
    then show ?thesis using IH v False by (simp add: valid_utf8_step)
  qed (use less in simp)
qed

lemma ascii_rune_start: "byte c < 0x80 \<Longrightarrow> rune_start c"
  by (simp add: rune_start_def is_cont_def)

lemma decode_rune_ascii: "fst (decode_rune (a # s)) < 0x80 \<Longrightarrow> byte a < 0x80"
proof (rule ccontr)
  assume r: "fst (decode_rune (a # s)) < 0x80" and a: "\<not> byte a < 0x80"
  have "0x80 \<le> fst (decode2 x s)" if "0xC2 \<le> x" for x
    using that by (auto simp: decode2_def rune_error_def split: list.split)
  moreover have "0x80 \<le> fst (decode3 x s)" if "0xE0 \<le> x" for x
    using that by (auto simp: decode3_def rune_error_def cont_bits_def is_cont_def split: list.split)
  moreover have "0x80 \<le> fst (decode4 x s)" if "0xF0 \<le> x" for x
    using that by (auto simp: decode4_def rune_error_def cont_bits_def is_cont_def split: list.split)
  ultimately show False using r a
    by (auto simp: decode_rune_unfold rune_error_def not_le [symmetric] split: if_splits)
qed

lemma runes_all_ascii:
  "list_all (\<lambda>r. P r \<and> r < 0x80) (runes s) \<longleftrightarrow> list_all (\<lambda>c. P (byte c) \<and> byte c < 0x80) s"
proof (induction s)
  case (Cons a s)
  show ?case
  proof (cases "byte a < 0x80")
    case True
    then have "runes (a # s) = byte a # runes s" by (simp add: runes_Cons decode_rune_unfold)
    with Cons True show ?thesis by simp
  next
    case False
    then show ?thesis using decode_rune_ascii [of a s] by (auto simp: runes_Cons)
  qed
qed simp

text \<open>\<open>utf8.RuneCountInString\<close>: a bad byte counts as one rune.\<close>

definition rune_count :: "string \<Rightarrow> nat" where
  "rune_count s = length (runes s)"

lemma rune_count_chunks: "rune_count s = length (chunks s)"
proof (induction s rule: chunks.induct)
  case (1 s)
  show ?case
  proof (cases "s = []")
    case False
    have "length (runes s) = Suc (length (runes (drop (snd (decode_rune s)) s)))"
      using False by (subst runes.simps) simp
    moreover have "length (chunks s) = Suc (length (chunks (drop (snd (decode_rune s)) s)))"
      using False by (subst chunks.simps) simp
    ultimately show ?thesis using 1 False by (simp add: rune_count_def)
  qed (simp add: rune_count_def)
qed

lemma length_le_concat:
  "\<forall>c\<in>set cs. c \<noteq> [] \<Longrightarrow> length cs \<le> length (concat cs)"
proof (induction cs)
  case (Cons c cs)
  then have "1 \<le> length c" by (simp add: Suc_le_eq)
  with Cons show ?case by simp
qed simp

lemma rune_count_le_length: "rune_count s \<le> length s"
proof -
  note length_le_concat
  from this [of "chunks s"] show ?thesis
    using chunks_nonempty by (auto simp: rune_count_chunks concat_chunks)
qed

lemma rune_count_Nil_iff [simp]: "rune_count s = 0 \<longleftrightarrow> s = []"
  by (cases s) (simp_all add: rune_count_def runes_Cons)

text \<open>\<open>unicode.IsSpace\<close> and \<open>unicode.IsControl\<close>\<close>

definition is_space :: "nat \<Rightarrow> bool" where
  "is_space r \<longleftrightarrow> (0x09 \<le> r \<and> r \<le> 0x0D) \<or> r = 0x20 \<or> r = 0x85 \<or> r = 0xA0 \<or> r = 0x1680
     \<or> (0x2000 \<le> r \<and> r \<le> 0x200A) \<or> r = 0x2028 \<or> r = 0x2029 \<or> r = 0x202F \<or> r = 0x205F \<or> r = 0x3000"

definition is_control :: "nat \<Rightarrow> bool" where
  "is_control r \<longleftrightarrow> r < 0x20 \<or> (0x7F \<le> r \<and> r \<le> 0x9F)"

definition space_chunk :: "string \<Rightarrow> bool" where
  "space_chunk c \<longleftrightarrow> is_space (fst (decode_rune c))"

text \<open>\<open>strings.TrimRightFunc(s, unicode.IsSpace)\<close> and \<open>strings.TrimSpace\<close>\<close>

definition trim_right_space :: "string \<Rightarrow> string" where
  "trim_right_space s = concat (rev (dropWhile space_chunk (rev (chunks s))))"

definition trim_space :: "string \<Rightarrow> string" where
  "trim_space s = concat (rev (dropWhile space_chunk (rev (dropWhile space_chunk (chunks s)))))"

section \<open>Package strings\<close>

text \<open>\<open>strings.FieldsFunc\<close> of an ASCII string: the maximal runs of the bytes that are no separators.\<close>

function fields_func :: "(char \<Rightarrow> bool) \<Rightarrow> string \<Rightarrow> string list" where
  "fields_func P [] = []"
| "fields_func P (c # s) =
    (if P c then takeWhile P (c # s) # fields_func P (dropWhile P (c # s)) else fields_func P s)"
  by pat_completeness auto
termination by (relation "measure (\<lambda>(P, s). length s)") (auto simp: le_imp_less_Suc length_dropWhile_le)

text \<open>\<open>strings.Fields\<close> of the standard library: the maximal runs of non-space runes.\<close>

fun fields_loop :: "string \<Rightarrow> string list \<Rightarrow> string list" where
  "fields_loop acc [] = (if acc = [] then [] else [acc])"
| "fields_loop acc (c # cs) =
    (if space_chunk c then (if acc = [] then fields_loop [] cs else acc # fields_loop [] cs)
     else fields_loop (acc @ c) cs)"

definition fields_of :: "string \<Rightarrow> string list" where
  "fields_of s = fields_loop [] (chunks s)"

fun has_prefix :: "string \<Rightarrow> string \<Rightarrow> bool" where
  "has_prefix [] s = True"
| "has_prefix (p # ps) [] = False"
| "has_prefix (p # ps) (c # s) = (p = c \<and> has_prefix ps s)"

lemma has_prefix_iff: "has_prefix p s \<longleftrightarrow> (\<exists>t. s = p @ t)"
  by (induction p s rule: has_prefix.induct) auto

lemma has_prefix_append [simp]: "has_prefix p (p @ s)"
  by (auto simp: has_prefix_iff)

definition has_suffix :: "string \<Rightarrow> string \<Rightarrow> bool" where
  "has_suffix p s \<longleftrightarrow> has_prefix (rev p) (rev s)"

lemma has_suffix_iff: "has_suffix p s \<longleftrightarrow> (\<exists>t. s = t @ p)"
proof -
  have "(\<exists>t. rev s = rev p @ t) \<longleftrightarrow> (\<exists>t. s = t @ p)"
    by (metis rev_append rev_rev_ident)
  then show ?thesis by (simp add: has_suffix_def has_prefix_iff)
qed

text \<open>\<open>strings.TrimPrefix\<close>\<close>

definition trim_prefix :: "string \<Rightarrow> string \<Rightarrow> string" where
  "trim_prefix p s = (if has_prefix p s then drop (length p) s else s)"

fun contains_str :: "string \<Rightarrow> string \<Rightarrow> bool" where
  "contains_str p [] \<longleftrightarrow> p = []"
| "contains_str p (c # s) \<longleftrightarrow> has_prefix p (c # s) \<or> contains_str p s"

text \<open>\<open>strings.Split\<close> with a one-byte separator, and its inverse \<open>strings.Join\<close>\<close>

definition contains_any :: "string \<Rightarrow> string \<Rightarrow> bool" where
  "contains_any s forbidden \<longleftrightarrow> list_ex (\<lambda>c. c \<in> set forbidden) s"

fun split_on :: "char \<Rightarrow> string \<Rightarrow> string list" where
  "split_on c [] = [[]]"
| "split_on c (x # xs) =
    (if x = c then [] # split_on c xs
     else (case split_on c xs of [] \<Rightarrow> [[x]] | p # ps \<Rightarrow> (x # p) # ps))"

fun join_with :: "string \<Rightarrow> string list \<Rightarrow> string" where
  "join_with sep [] = []"
| "join_with sep [p] = p"
| "join_with sep (p # q # ps) = p @ sep @ join_with sep (q # ps)"

lemma split_on_nonempty [simp]: "split_on c s \<noteq> []"
  by (induction s) (auto split: list.splits)

lemma split_on_pieces: "p \<in> set (split_on c s) \<Longrightarrow> c \<notin> set p"
  by (induction s arbitrary: p) (auto split: list.splits if_splits)

lemma join_with_Cons: "ps \<noteq> [] \<Longrightarrow> join_with sep (p # ps) = p @ sep @ join_with sep ps"
  by (cases ps) auto

lemma join_split_on: "join_with [c] (split_on c s) = s"
proof (induction s)
  case Nil
  then show ?case by simp
next
  case (Cons x xs)
  obtain p ps where *: "split_on c xs = p # ps" by (cases "split_on c xs") auto
  with Cons.IH show ?case by (cases ps) auto
qed

lemma split_on_no_sep: "c \<notin> set s \<Longrightarrow> split_on c s = [s]"
  by (induction s) auto

lemma split_on_append_sep:
  "c \<notin> set p \<Longrightarrow> split_on c (p @ c # s) = p # split_on c s"
  by (induction p) auto

lemma split_join_with:
  "ps \<noteq> [] \<Longrightarrow> \<forall>p\<in>set ps. c \<notin> set p \<Longrightarrow> split_on c (join_with [c] ps) = ps"
  by (induction ps rule: induct_list012) (auto simp: split_on_no_sep split_on_append_sep)

text \<open>\<open>strings.Cut\<close> with a one-byte separator: before, after, found\<close>

definition cut_on :: "char \<Rightarrow> string \<Rightarrow> string \<times> string \<times> bool" where
  "cut_on c s = (takeWhile (\<lambda>x. x \<noteq> c) s, drop 1 (dropWhile (\<lambda>x. x \<noteq> c) s), c \<in> set s)"

lemma takeWhile_append_stop: "c \<notin> set p \<Longrightarrow> takeWhile (\<lambda>x. x \<noteq> c) (p @ c # s) = p"
  by (induction p) auto

lemma dropWhile_append_stop: "c \<notin> set p \<Longrightarrow> dropWhile (\<lambda>x. x \<noteq> c) (p @ c # s) = c # s"
  by (induction p) auto

lemma cut_on_append: "c \<notin> set p \<Longrightarrow> cut_on c (p @ c # s) = (p, s, True)"
  by (simp add: cut_on_def takeWhile_append_stop dropWhile_append_stop)

lemma cut_on_found: "cut_on c s = (p, q, True) \<Longrightarrow> s = p @ c # q \<and> c \<notin> set p"
proof -
  assume "cut_on c s = (p, q, True)"
  then have p: "p = takeWhile (\<lambda>x. x \<noteq> c) s" and q: "q = drop 1 (dropWhile (\<lambda>x. x \<noteq> c) s)"
    and c: "c \<in> set s" by (auto simp: cut_on_def)
  have "\<exists>r. dropWhile (\<lambda>x. x \<noteq> c) s = c # r" using c by (induction s) auto
  then obtain r where r: "dropWhile (\<lambda>x. x \<noteq> c) s = c # r" ..
  have "s = p @ dropWhile (\<lambda>x. x \<noteq> c) s" by (simp add: p)
  moreover have "c \<notin> set p" unfolding p by (auto dest: set_takeWhileD)
  ultimately show ?thesis using r q by simp
qed

section \<open>Package strconv\<close>

definition digit_char :: "nat \<Rightarrow> char" where
  "digit_char d = char_of (48 + d)"

definition is_digit :: "char \<Rightarrow> bool" where
  "is_digit c \<longleftrightarrow> 48 \<le> byte c \<and> byte c \<le> 57"

definition digit_val :: "char \<Rightarrow> nat" where
  "digit_val c = byte c - 48"

fun nat_digits :: "nat \<Rightarrow> string" where
  "nat_digits n = (if n < 10 then [digit_char n] else nat_digits (n div 10) @ [digit_char (n mod 10)])"

declare nat_digits.simps [simp del]

definition itoa :: "int \<Rightarrow> string" where
  "itoa i = (if i < 0 then CHR ''-'' # nat_digits (nat (- i)) else nat_digits (nat i))"

definition digits_val :: "string \<Rightarrow> nat" where
  "digits_val s = foldl (\<lambda>acc c. acc * 10 + digit_val c) 0 s"

definition parse_digits :: "string \<Rightarrow> nat option" where
  "parse_digits s = (if s \<noteq> [] \<and> list_all is_digit s then Some (digits_val s) else None)"

text \<open>\<open>strconv.Atoi\<close>: an optional sign, at least one digit, in the range of a 64-bit int\<close>

definition atoi :: "string \<Rightarrow> int option" where
  "atoi s =
    (case s of
       [] \<Rightarrow> None
     | c # t \<Rightarrow>
         (case parse_digits (if c = CHR ''-'' \<or> c = CHR ''+'' then t else s) of
            None \<Rightarrow> None
          | Some n \<Rightarrow>
              (let v = (if c = CHR ''-'' then - int n else int n) in
               if min_int64 \<le> v \<and> v \<le> max_int64 then Some v else None)))"

lemma of_char_digit_char [simp]: "d < 10 \<Longrightarrow> byte (digit_char d) = 48 + d"
  by (simp add: digit_char_def of_char_of)

lemma is_digit_digit_char [simp]: "d < 10 \<Longrightarrow> is_digit (digit_char d)"
  by (simp add: is_digit_def)

lemma digit_val_digit_char [simp]: "d < 10 \<Longrightarrow> digit_val (digit_char d) = d"
  by (simp add: digit_val_def)

lemma nat_digits_nonempty [simp]: "nat_digits n \<noteq> []"
  by (subst nat_digits.simps) simp

lemma nat_digits_all_digits: "list_all is_digit (nat_digits n)"
proof (induction n rule: nat_digits.induct)
  case (1 n)
  then show ?case by (subst nat_digits.simps) simp
qed

lemma digits_val_snoc: "digits_val (s @ [c]) = digits_val s * 10 + digit_val c"
  by (simp add: digits_val_def)

lemma digits_val_nat_digits [simp]: "digits_val (nat_digits n) = n"
proof (induction n rule: nat_digits.induct)
  case (1 n)
  show ?case
  proof (cases "n < 10")
    case True
    then show ?thesis by (subst nat_digits.simps) (simp add: digits_val_def)
  next
    case False
    with 1 show ?thesis by (subst nat_digits.simps) (simp add: digits_val_snoc)
  qed
qed

lemma parse_digits_nat_digits [simp]: "parse_digits (nat_digits n) = Some n"
  by (simp add: parse_digits_def nat_digits_all_digits)

lemma nat_digits_hd: "\<exists>c t. nat_digits n = c # t \<and> is_digit c"
  using nat_digits_all_digits [of n] nat_digits_nonempty [of n]
  by (cases "nat_digits n") auto

lemma is_digit_sign [simp]: "\<not> is_digit (CHR ''-'')" "\<not> is_digit (CHR ''+'')"
  by (simp_all add: is_digit_def)

lemma is_digit_not_sign: "is_digit c \<Longrightarrow> c \<noteq> CHR ''-'' \<and> c \<noteq> CHR ''+''"
  by auto

lemma atoi_itoa: "min_int64 \<le> i \<Longrightarrow> i \<le> max_int64 \<Longrightarrow> atoi (itoa i) = Some i"
proof (cases "i < 0")
  case True
  assume "min_int64 \<le> i" "i \<le> max_int64"
  with True show ?thesis by (simp add: atoi_def itoa_def)
next
  case False
  assume r: "min_int64 \<le> i" "i \<le> max_int64"
  obtain c t where ct: "nat_digits (nat i) = c # t" "is_digit c" using nat_digits_hd by blast
  then have "parse_digits (c # t) = Some (nat i)" by (metis parse_digits_nat_digits)
  with False ct r is_digit_not_sign [OF ct(2)] show ?thesis by (simp add: atoi_def itoa_def)
qed

lemma itoa_nonempty [simp]: "itoa i \<noteq> []"
  by (simp add: itoa_def)

lemma itoa_nonneg_digits: "0 \<le> i \<Longrightarrow> list_all is_digit (itoa i)"
  by (simp add: itoa_def nat_digits_all_digits)

lemma itoa_inj: "itoa i = itoa j \<Longrightarrow> i = j"
proof -
  have neg: "itoa i = CHR ''-'' # nat_digits (nat (- i))" if "i < 0" for i using that by (simp add: itoa_def)
  have pos: "itoa i = nat_digits (nat i)" if "\<not> i < 0" for i using that by (simp add: itoa_def)
  have inj: "nat_digits m = nat_digits n \<Longrightarrow> m = n" for m n by (metis digits_val_nat_digits)
  have ne: "nat_digits m \<noteq> CHR ''-'' # t" for m t
    using nat_digits_hd [of m] is_digit_not_sign by auto
  assume eq: "itoa i = itoa j"
  consider "i < 0" "j < 0" | "i < 0" "\<not> j < 0" | "\<not> i < 0" "j < 0" | "\<not> i < 0" "\<not> j < 0"
    by blast
  then show "i = j"
  proof cases
    case 1
    with eq neg have "nat (- i) = nat (- j)" by (auto dest: inj)
    with 1 show ?thesis by simp
  next
    case 2
    with eq neg pos ne show ?thesis by metis
  next
    case 3
    with eq neg pos ne show ?thesis by metis
  next
    case 4
    with eq pos have "nat i = nat j" by (auto dest: inj)
    with 4 show ?thesis by simp
  qed
qed

text \<open>A number ends where its digits end.\<close>

definition ends :: "gostring \<Rightarrow> bool" where
  "ends r \<longleftrightarrow> (case r of [] \<Rightarrow> True | c # _ \<Rightarrow> \<not> is_digit c)"

lemma ends_simps [simp]: "ends []" "ends (c # r) \<longleftrightarrow> \<not> is_digit c"
  by (simp_all add: ends_def)

lemma digits_prefix:
  "list_all is_digit u \<Longrightarrow> list_all is_digit v \<Longrightarrow> ends r \<Longrightarrow> ends s \<Longrightarrow> u @ r = v @ s \<Longrightarrow> u = v \<and> r = s"
proof -
  assume a: "list_all is_digit u" "list_all is_digit v" "ends r" "ends s" "u @ r = v @ s"
  have t: "takeWhile is_digit (w @ x) = w" if "list_all is_digit w" "ends x" for w x
    using that by (induction w) (auto simp: ends_def split: list.splits)
  show ?thesis using t [OF a(1,3)] t [OF a(2,4)] a(5) by auto
qed

lemma itoa_prefix:
  assumes e: "itoa i @ r = itoa j @ s" and ends: "ends r" "ends s"
  shows "i = j \<and> r = s"
proof -
  have neg: "itoa i = CHR ''-'' # nat_digits (nat (- i))" if "i < 0" for i using that by (simp add: itoa_def)
  have pos: "itoa i = nat_digits (nat i)" if "\<not> i < 0" for i using that by (simp add: itoa_def)
  have hd: "\<exists>c t. nat_digits n = c # t \<and> c \<noteq> CHR ''-''" for n
    using nat_digits_hd [of n] is_digit_not_sign by blast
  have sign: "(i < 0) = (j < 0)"
    using e neg [of i] neg [of j] pos [of i] pos [of j] hd [of "nat i"] hd [of "nat j"] by (cases "i < 0"; cases "j < 0") auto
  have "itoa i = itoa j \<and> r = s"
  proof (cases "i < 0")
    case True
    then show ?thesis using e sign neg [of i] neg [of j] ends nat_digits_all_digits
      digits_prefix [of "nat_digits (nat (- i))" "nat_digits (nat (- j))" r s] by simp
  next
    case False
    then show ?thesis using e sign pos [of i] pos [of j] ends nat_digits_all_digits
      digits_prefix [of "nat_digits (nat i)" "nat_digits (nat j)" r s] by simp
  qed
  then show ?thesis using itoa_inj by blast
qed

section \<open>Package encoding/hex\<close>

definition hex_char :: "nat \<Rightarrow> char" where
  "hex_char n = char_of (if n < 10 then 48 + n else 87 + n)"

definition hex_encode :: "string \<Rightarrow> string" where
  "hex_encode s = concat (map (\<lambda>c. [hex_char (byte c div 16), hex_char (byte c mod 16)]) s)"

definition is_hex :: "char \<Rightarrow> bool" where
  "is_hex c \<longleftrightarrow> 48 \<le> byte c \<and> byte c \<le> 57 \<or> 97 \<le> byte c \<and> byte c \<le> 102"

lemma is_hex_hex_char: "n < 16 \<Longrightarrow> is_hex (hex_char n)"
  by (auto simp: is_hex_def hex_char_def of_char_of)

lemma hex_encode_simps [simp]: "hex_encode [] = []"
  "hex_encode (c # s) = hex_char (byte c div 16) # hex_char (byte c mod 16) # hex_encode s"
  by (simp_all add: hex_encode_def)

lemma length_hex_encode [simp]: "length (hex_encode s) = 2 * length s"
  by (induction s) auto

lemma hex_encode_is_hex: "list_all is_hex (hex_encode s)"
proof (induction s)
  case (Cons c s)
  have "byte c div 16 < 16" using nat_of_char_less_256 [of c] by (simp add: less_mult_imp_div_less)
  with Cons show ?case by (simp add: is_hex_hex_char)
qed simp

lemma hex_char_inj: "m < 16 \<Longrightarrow> n < 16 \<Longrightarrow> hex_char m = hex_char n \<Longrightarrow> m = n"
proof -
  assume b: "m < 16" "n < 16" and "hex_char m = hex_char n"
  then have "byte (hex_char m) = byte (hex_char n)" by simp
  with b show "m = n" by (auto simp: hex_char_def of_char_of split: if_splits)
qed

lemma hex_encode_inj: "hex_encode s = hex_encode t \<Longrightarrow> s = t"
proof (induction s arbitrary: t)
  case Nil
  then show ?case by (cases t) simp_all
next
  case (Cons c s)
  from Cons.prems obtain d u where t: "t = d # u" by (cases t) auto
  have small: "byte b div 16 < 16" for b using nat_of_char_less_256 [of b] by (simp add: less_mult_imp_div_less)
  have "hex_char (byte c div 16) = hex_char (byte d div 16)" "hex_char (byte c mod 16) = hex_char (byte d mod 16)"
    using Cons.prems t by simp_all
  then have "byte c div 16 = byte d div 16" "byte c mod 16 = byte d mod 16"
    using hex_char_inj small by (metis, metis mod_less_divisor zero_less_numeral)
  then have "byte c = byte d" by (metis div_mult_mod_eq)
  with Cons t show ?case by simp
qed

section \<open>Evaluation\<close>

text \<open>The code equations of the UTF-8 operations look at the high bit first, so that evaluating them on
  ASCII input needs no large natural number.\<close>

primrec high_bit :: "char \<Rightarrow> bool" where
  "high_bit (Char b0 b1 b2 b3 b4 b5 b6 b7) = b7"

lemma high_bit_iff: "high_bit c \<longleftrightarrow> 0x80 \<le> byte c"
proof (cases c)
  case (Char b0 b1 b2 b3 b4 b5 b6 b7)
  then show ?thesis
    by (cases b0; cases b1; cases b2; cases b3; cases b4; cases b5; cases b6; cases b7) simp_all
qed

lemma utf8_all_ascii:
  "list_all (\<lambda>c. \<not> high_bit c) s \<Longrightarrow> valid_utf8 s \<and> runes s = map of_char s \<and> chunks s = map (\<lambda>c. [c]) s"
  by (induction s) (simp_all add: utf8_eval decode_rune_unfold high_bit_iff not_le rune_error_def)

lemma utf8_code [code]:
  "valid_utf8 s = (if list_all (\<lambda>c. \<not> high_bit c) s then True else
     decode_rune s \<noteq> (rune_error, 1) \<and> valid_utf8 (drop (snd (decode_rune s)) s))"
  "runes s = (if list_all (\<lambda>c. \<not> high_bit c) s then map of_char s else
     fst (decode_rune s) # runes (drop (snd (decode_rune s)) s))"
  "chunks s = (if list_all (\<lambda>c. \<not> high_bit c) s then map (\<lambda>c. [c]) s else
     take (snd (decode_rune s)) s # chunks (drop (snd (decode_rune s)) s))"
  using utf8_all_ascii [of s] by (cases s; simp add: utf8_eval)+

lemma space_chunk_code [code]:
  "space_chunk c = (case c of
     a # _ \<Rightarrow> if \<not> high_bit a then List.member [CHR 0x09, CHR 0x0A, CHR 0x0B, CHR 0x0C, CHR 0x0D, CHR '' ''] a
       else is_space (fst (decode_rune c))
   | [] \<Rightarrow> False)"
proof (cases c)
  case (Cons a s)
  have low: "is_space (byte a) \<longleftrightarrow> List.member [CHR 0x09, CHR 0x0A, CHR 0x0B, CHR 0x0C, CHR 0x0D, CHR '' ''] a"
    if "\<not> high_bit a" for a
    using that
  proof (cases a)
    case (Char b0 b1 b2 b3 b4 b5 b6 b7)
    with that show ?thesis
      by (cases b0; cases b1; cases b2; cases b3; cases b4; cases b5; cases b6; cases b7)
        (simp_all add: is_space_def)
  qed
  show ?thesis using Cons low [of a] by (simp add: space_chunk_def decode_rune_unfold high_bit_iff not_le)
qed (simp add: space_chunk_def is_space_def rune_error_def)

text \<open>Character classes compare at the width of a binary integer.\<close>

lemma class_code [code]:
  "is_digit c = (let n = (of_char c :: int) in 48 \<le> n \<and> n \<le> 57)"
  "is_hex c = (let n = (of_char c :: int) in 48 \<le> n \<and> n \<le> 57 \<or> 97 \<le> n \<and> n \<le> 102)"
proof -
  have e: "(of_char c :: int) = int (byte c)" by (cases c) simp
  show "is_digit c = (let n = (of_char c :: int) in 48 \<le> n \<and> n \<le> 57)"
    and "is_hex c = (let n = (of_char c :: int) in 48 \<le> n \<and> n \<le> 57 \<or> 97 \<le> n \<and> n \<le> 102)"
    by (simp_all add: e is_digit_def is_hex_def Let_def)
qed

end
