(* ===== verification/Policy.thy ===== *)
theory Policy
  imports Go_Strings
begin

text \<open>
  \<open>internal/policy/decision.go\<close>: the default-deny decision point. The Go string types with
  declared constants are datatypes whose last constructor is any other string value, so that an
  undeclared operation, status or role is an input the model accepts. \<open>EvaluateOrganization\<close> and
  \<open>EvaluateWorkspace\<close> follow the code's checks in their order. The lemmas state the access matrix
  the code implements, the reason it gives, and that a cross-tenant request learns nothing about
  the workspace it names.
\<close>

section \<open>Operations, reasons, statuses and roles\<close>

datatype operation =
    OperationWorkspaceCreate | OperationWorkspaceViewMetadata | OperationWorkspaceReadContent
  | OperationWorkspaceAsk | OperationWorkspaceManage | OperationWorkspaceManageSources
  | OperationAuditReadMetadata | OperationSourceRegister | OperationSourceActivate
  | OperationSourceVerifyTrust | OperationOther gostring

datatype reason_code =
    ReasonAllowed | ReasonInvalidContext | ReasonOrganizationMismatch
  | ReasonOrganizationUnavailable | ReasonOrganizationRoleInsufficient | ReasonPrincipalInactive
  | ReasonWorkspaceUnavailable | ReasonWorkspaceMembershipAbsent | ReasonWorkspaceRoleInsufficient
  | ReasonOperationUnknown

datatype principal_status =
    PrincipalActive | PrincipalDisabled | PrincipalDeprovisioned | PrincipalStatusOther gostring

datatype workspace_status =
    WorkspaceActive | WorkspaceReadOnly | WorkspaceArchived | WorkspaceDeleting | WorkspaceDeleted
  | WorkspaceStatusOther gostring

datatype workspace_role =
    WorkspaceOwner | WorkspaceManager | WorkspaceMember | WorkspaceViewer | WorkspaceAuditor
  | WorkspaceRoleOther gostring

datatype organization_role =
    OrganizationOwner | OrganizationAdmin | OrganizationConnectorAdmin
  | OrganizationSecurityAuditor | OrganizationMember | OrganizationRoleOther gostring

datatype organization_status =
    OrganizationActive | OrganizationSuspended | OrganizationDeleting | OrganizationDeleted
  | OrganizationStatusOther gostring

record organization =
  org_ID :: gostring
  org_Status :: organization_status

record subject =
  sub_OrganizationID :: gostring
  sub_PrincipalID :: gostring
  sub_Status :: principal_status
  sub_SessionRevision :: int
  sub_OrganizationRoles :: "organization_role list"

record organization_request =
  oreq_Operation :: operation
  oreq_Subject :: subject
  oreq_Organization :: organization

record workspace =
  wsp_OrganizationID :: gostring
  wsp_ID :: gostring
  wsp_Status :: workspace_status

record membership =
  mem_Present :: bool
  mem_Role :: workspace_role

record request =
  req_Operation :: operation
  req_Subject :: subject
  req_Workspace :: workspace
  req_Membership :: membership

record decision =
  Allowed :: bool
  ReasonCodes :: "reason_code list"

section \<open>Decisions\<close>

definition allow :: decision where
  "allow = \<lparr>Allowed = True, ReasonCodes = [ReasonAllowed]\<rparr>"

definition deny :: "reason_code \<Rightarrow> decision" where
  "deny reason = \<lparr>Allowed = False, ReasonCodes = [reason]\<rparr>"

definition validID :: "gostring \<Rightarrow> bool" where
  "validID value \<longleftrightarrow> value \<noteq> [] \<and> length value \<le> 256 \<and> valid_utf8 value \<and> trim_space value = value
     \<and> \<not> list_ex (\<lambda>r. r < 0x20 \<or> (0x7F \<le> r \<and> r \<le> 0x9F)) (runes value)"

fun validWorkspaceRole :: "workspace_role \<Rightarrow> bool" where
  "validWorkspaceRole (WorkspaceRoleOther _) = False"
| "validWorkspaceRole _ = True"

fun readableWorkspace :: "workspace_status \<Rightarrow> bool" where
  "readableWorkspace WorkspaceActive = True"
| "readableWorkspace WorkspaceReadOnly = True"
| "readableWorkspace WorkspaceArchived = True"
| "readableWorkspace _ = False"

fun hasOrganizationRole :: "organization_role list \<Rightarrow> organization_role \<Rightarrow> bool" where
  "hasOrganizationRole [] wanted = False"
| "hasOrganizationRole (role # roles) wanted = (role = wanted \<or> hasOrganizationRole roles wanted)"

definition RoleCanAsk :: "workspace_status \<Rightarrow> workspace_role \<Rightarrow> bool" where
  "RoleCanAsk status role \<longleftrightarrow> status = WorkspaceActive
     \<and> (role = WorkspaceOwner \<or> role = WorkspaceManager \<or> role = WorkspaceMember)"

definition EvaluateOrganization :: "organization_request \<Rightarrow> decision" where
  "EvaluateOrganization request =
    (let sub = oreq_Subject request; org = oreq_Organization request;
         roles = sub_OrganizationRoles sub;
         insufficient = deny ReasonOrganizationRoleInsufficient in
     if \<not> validID (sub_OrganizationID sub) \<or> \<not> validID (sub_PrincipalID sub)
        \<or> sub_SessionRevision sub < 1 \<or> \<not> validID (org_ID org)
     then deny ReasonInvalidContext
     else if sub_OrganizationID sub \<noteq> org_ID org then deny ReasonOrganizationMismatch
     else if sub_Status sub \<noteq> PrincipalActive then deny ReasonPrincipalInactive
     else if org_Status org \<noteq> OrganizationActive then deny ReasonOrganizationUnavailable
     else case oreq_Operation request of
            OperationWorkspaceCreate \<Rightarrow>
              if hasOrganizationRole roles OrganizationOwner
                 \<or> hasOrganizationRole roles OrganizationAdmin then allow else insufficient
          | OperationSourceRegister \<Rightarrow>
              if hasOrganizationRole roles OrganizationOwner then allow else insufficient
          | OperationSourceActivate \<Rightarrow>
              if hasOrganizationRole roles OrganizationOwner then allow else insufficient
          | OperationSourceVerifyTrust \<Rightarrow>
              if hasOrganizationRole roles OrganizationConnectorAdmin then allow else insufficient
          | _ \<Rightarrow> deny ReasonOperationUnknown)"

text \<open>The second part of \<open>EvaluateWorkspace\<close>: the workspace operations past the audit case.\<close>

definition EvaluateWorkspaceMember :: "request \<Rightarrow> decision" where
  "EvaluateWorkspaceMember request =
    (let status = wsp_Status (req_Workspace request); role = mem_Role (req_Membership request);
         insufficient = deny ReasonWorkspaceRoleInsufficient in
     if \<not> readableWorkspace status then deny ReasonWorkspaceUnavailable
     else if \<not> mem_Present (req_Membership request) then deny ReasonWorkspaceMembershipAbsent
     else case req_Operation request of
            OperationWorkspaceViewMetadata \<Rightarrow>
              if validWorkspaceRole role then allow else insufficient
          | OperationWorkspaceReadContent \<Rightarrow>
              if role \<noteq> WorkspaceAuditor \<and> validWorkspaceRole role then allow else insufficient
          | OperationWorkspaceAsk \<Rightarrow>
              if RoleCanAsk status role then allow else insufficient
          | OperationWorkspaceManage \<Rightarrow>
              if status = WorkspaceActive \<and> (role = WorkspaceOwner \<or> role = WorkspaceManager)
              then allow else insufficient
          | OperationWorkspaceManageSources \<Rightarrow>
              if status = WorkspaceActive \<and> (role = WorkspaceOwner \<or> role = WorkspaceManager)
              then allow else insufficient
          | _ \<Rightarrow> insufficient)"

definition EvaluateWorkspace :: "request \<Rightarrow> decision" where
  "EvaluateWorkspace request =
    (let sub = req_Subject request; ws = req_Workspace request; mem = req_Membership request in
     if \<not> validID (sub_OrganizationID sub) \<or> \<not> validID (sub_PrincipalID sub)
        \<or> sub_SessionRevision sub < 1 \<or> \<not> validID (wsp_OrganizationID ws) \<or> \<not> validID (wsp_ID ws)
     then deny ReasonInvalidContext
     else if sub_OrganizationID sub \<noteq> wsp_OrganizationID ws then deny ReasonOrganizationMismatch
     else if sub_Status sub \<noteq> PrincipalActive then deny ReasonPrincipalInactive
     else case req_Operation request of
            OperationAuditReadMetadata \<Rightarrow>
              if hasOrganizationRole (sub_OrganizationRoles sub) OrganizationSecurityAuditor
                 \<or> (mem_Present mem \<and> mem_Role mem = WorkspaceAuditor)
              then allow else deny ReasonWorkspaceRoleInsufficient
          | OperationWorkspaceViewMetadata \<Rightarrow> EvaluateWorkspaceMember request
          | OperationWorkspaceReadContent \<Rightarrow> EvaluateWorkspaceMember request
          | OperationWorkspaceAsk \<Rightarrow> EvaluateWorkspaceMember request
          | OperationWorkspaceManage \<Rightarrow> EvaluateWorkspaceMember request
          | OperationWorkspaceManageSources \<Rightarrow> EvaluateWorkspaceMember request
          | _ \<Rightarrow> deny ReasonOperationUnknown)"

section \<open>The access matrix\<close>

text \<open>The abstract contract: which roles an operation admits in a workspace status, and which
  organization roles admit an organization operation.\<close>

fun permitted_roles :: "operation \<Rightarrow> workspace_status \<Rightarrow> workspace_role set" where
  "permitted_roles OperationWorkspaceViewMetadata st =
     (if st \<in> {WorkspaceActive, WorkspaceReadOnly, WorkspaceArchived}
      then {WorkspaceOwner, WorkspaceManager, WorkspaceMember, WorkspaceViewer, WorkspaceAuditor}
      else {})"
| "permitted_roles OperationWorkspaceReadContent st =
     (if st \<in> {WorkspaceActive, WorkspaceReadOnly, WorkspaceArchived}
      then {WorkspaceOwner, WorkspaceManager, WorkspaceMember, WorkspaceViewer} else {})"
| "permitted_roles OperationWorkspaceAsk st =
     (if st = WorkspaceActive then {WorkspaceOwner, WorkspaceManager, WorkspaceMember} else {})"
| "permitted_roles OperationWorkspaceManage st =
     (if st = WorkspaceActive then {WorkspaceOwner, WorkspaceManager} else {})"
| "permitted_roles OperationWorkspaceManageSources st =
     (if st = WorkspaceActive then {WorkspaceOwner, WorkspaceManager} else {})"
| "permitted_roles _ st = {}"

fun permitted_organization_roles :: "operation \<Rightarrow> organization_role set" where
  "permitted_organization_roles OperationWorkspaceCreate = {OrganizationOwner, OrganizationAdmin}"
| "permitted_organization_roles OperationSourceRegister = {OrganizationOwner}"
| "permitted_organization_roles OperationSourceActivate = {OrganizationOwner}"
| "permitted_organization_roles OperationSourceVerifyTrust = {OrganizationConnectorAdmin}"
| "permitted_organization_roles _ = {}"

definition sound_context :: "request \<Rightarrow> bool" where
  "sound_context r \<longleftrightarrow> validID (sub_OrganizationID (req_Subject r)) \<and> validID (sub_PrincipalID (req_Subject r))
     \<and> 1 \<le> sub_SessionRevision (req_Subject r) \<and> validID (wsp_ID (req_Workspace r))
     \<and> sub_OrganizationID (req_Subject r) = wsp_OrganizationID (req_Workspace r)
     \<and> sub_Status (req_Subject r) = PrincipalActive"

definition sound_organization_context :: "organization_request \<Rightarrow> bool" where
  "sound_organization_context r \<longleftrightarrow>
     validID (sub_OrganizationID (oreq_Subject r)) \<and> validID (sub_PrincipalID (oreq_Subject r))
     \<and> 1 \<le> sub_SessionRevision (oreq_Subject r)
     \<and> sub_OrganizationID (oreq_Subject r) = org_ID (oreq_Organization r)
     \<and> sub_Status (oreq_Subject r) = PrincipalActive
     \<and> org_Status (oreq_Organization r) = OrganizationActive"

lemma decision_simps [simp]:
  "Allowed allow" "\<not> Allowed (deny c)" "ReasonCodes allow = [ReasonAllowed]" "ReasonCodes (deny c) = [c]"
  by (simp_all add: allow_def deny_def)

text \<open>A decision that allows, or denies for a reason of its own.\<close>

definition answered :: "decision \<Rightarrow> bool" where
  "answered d \<longleftrightarrow> d = allow \<or> (\<exists>c. d = deny c \<and> c \<noteq> ReasonAllowed)"

lemma answered_intros:
  "answered allow" "c \<noteq> ReasonAllowed \<Longrightarrow> answered (deny c)" "answered a \<Longrightarrow> answered b \<Longrightarrow> answered (if P then a else b)"
  by (auto simp: answered_def)

lemma hasOrganizationRole_iff [simp]: "hasOrganizationRole roles r \<longleftrightarrow> r \<in> set roles"
  by (induction roles) auto

lemma readableWorkspace_iff:
  "readableWorkspace st \<longleftrightarrow> st \<in> {WorkspaceActive, WorkspaceReadOnly, WorkspaceArchived}"
  by (cases st) auto

lemma validWorkspaceRole_iff:
  "validWorkspaceRole r \<longleftrightarrow>
     r \<in> {WorkspaceOwner, WorkspaceManager, WorkspaceMember, WorkspaceViewer, WorkspaceAuditor}"
  by (cases r) auto

lemma EvaluateWorkspaceMember_allowed:
  "Allowed (EvaluateWorkspaceMember r) \<longleftrightarrow> mem_Present (req_Membership r)
     \<and> mem_Role (req_Membership r) \<in> permitted_roles (req_Operation r) (wsp_Status (req_Workspace r))"
  by (cases "req_Operation r")
     (auto simp: EvaluateWorkspaceMember_def Let_def readableWorkspace_iff validWorkspaceRole_iff
        RoleCanAsk_def)

lemma EvaluateWorkspace_allowed:
  "Allowed (EvaluateWorkspace r) \<longleftrightarrow> sound_context r
     \<and> (if req_Operation r = OperationAuditReadMetadata
        then OrganizationSecurityAuditor \<in> set (sub_OrganizationRoles (req_Subject r))
             \<or> (mem_Present (req_Membership r) \<and> mem_Role (req_Membership r) = WorkspaceAuditor)
        else mem_Present (req_Membership r)
             \<and> mem_Role (req_Membership r)
                 \<in> permitted_roles (req_Operation r) (wsp_Status (req_Workspace r)))"
  by (cases "req_Operation r")
     (auto simp: EvaluateWorkspace_def Let_def sound_context_def EvaluateWorkspaceMember_allowed)

text \<open>
  C1. Workspace access is exactly the access matrix: a request is allowed iff its context is sound
  (well-formed identifiers, a live session revision, same organization, active principal) and the
  membership's role is one the operation permits in the workspace's status, except that audit
  metadata is open to the organization's security auditors and the workspace's auditors. The
  answer carries one reason, \<open>ReasonAllowed\<close> exactly when the request is allowed.
\<close>

theorem workspace_access_matrix:
  "(Allowed (EvaluateWorkspace r) \<longleftrightarrow> sound_context r
     \<and> (if req_Operation r = OperationAuditReadMetadata
        then OrganizationSecurityAuditor \<in> set (sub_OrganizationRoles (req_Subject r))
             \<or> (mem_Present (req_Membership r) \<and> mem_Role (req_Membership r) = WorkspaceAuditor)
        else mem_Present (req_Membership r)
             \<and> mem_Role (req_Membership r)
                 \<in> permitted_roles (req_Operation r) (wsp_Status (req_Workspace r))))
   \<and> length (ReasonCodes (EvaluateWorkspace r)) = 1
   \<and> (ReasonCodes (EvaluateWorkspace r) = [ReasonAllowed] \<longleftrightarrow> Allowed (EvaluateWorkspace r))"
proof -
  have "answered (EvaluateWorkspaceMember r)" unfolding EvaluateWorkspaceMember_def Let_def
    by (cases "req_Operation r"; simp only: operation.case; intro answered_intros; simp)
  then have "answered (EvaluateWorkspace r)" unfolding EvaluateWorkspace_def Let_def
    by (cases "req_Operation r"; simp only: operation.case; intro answered_intros; simp)
  then show ?thesis using EvaluateWorkspace_allowed [of r] by (auto simp: answered_def)
qed

text \<open>
  C2. Tenant isolation as non-interference: when the subject's organization is not the
  workspace's, the decision is a denial that depends on neither the workspace's status nor the
  membership nor the operation, so a cross-tenant probe learns nothing about the workspace.
\<close>

theorem cross_tenant_noninterference:
  assumes "sub_OrganizationID s \<noteq> wsp_OrganizationID w"
  shows "EvaluateWorkspace \<lparr>req_Operation = op1, req_Subject = s, req_Workspace = w, req_Membership = m1\<rparr>
       = EvaluateWorkspace \<lparr>req_Operation = op2, req_Subject = s,
           req_Workspace = w\<lparr>wsp_Status := st\<rparr>, req_Membership = m2\<rparr>
     \<and> \<not> Allowed (EvaluateWorkspace
           \<lparr>req_Operation = op1, req_Subject = s, req_Workspace = w, req_Membership = m1\<rparr>)"
  using assms by (simp add: EvaluateWorkspace_def Let_def)

definition example_subject :: subject where
  "example_subject = \<lparr>sub_OrganizationID = ''org_a'', sub_PrincipalID = ''prn_1'',
     sub_Status = PrincipalActive, sub_SessionRevision = 1, sub_OrganizationRoles = [OrganizationOwner]\<rparr>"

theorem cross_tenant_noninterference_witness:
  "EvaluateWorkspace \<lparr>req_Operation = OperationWorkspaceAsk, req_Subject = example_subject,
      req_Workspace = \<lparr>wsp_OrganizationID = ''org_b'', wsp_ID = ''wsp_1'', wsp_Status = WorkspaceActive\<rparr>,
      req_Membership = \<lparr>mem_Present = True, mem_Role = WorkspaceOwner\<rparr>\<rparr>
   = EvaluateWorkspace \<lparr>req_Operation = OperationAuditReadMetadata, req_Subject = example_subject,
      req_Workspace = \<lparr>wsp_OrganizationID = ''org_b'', wsp_ID = ''wsp_1'', wsp_Status = WorkspaceDeleted\<rparr>,
      req_Membership = \<lparr>mem_Present = False, mem_Role = WorkspaceAuditor\<rparr>\<rparr>"
  using cross_tenant_noninterference [of example_subject
      "\<lparr>wsp_OrganizationID = ''org_b'', wsp_ID = ''wsp_1'', wsp_Status = WorkspaceActive\<rparr>"
      OperationWorkspaceAsk "\<lparr>mem_Present = True, mem_Role = WorkspaceOwner\<rparr>"
      OperationAuditReadMetadata WorkspaceDeleted "\<lparr>mem_Present = False, mem_Role = WorkspaceAuditor\<rparr>"]
  by (simp add: example_subject_def)

lemma EvaluateOrganization_reasons:
  "answered (EvaluateOrganization r)"
  unfolding EvaluateOrganization_def Let_def
  by (cases "oreq_Operation r"; simp only: operation.case; intro answered_intros; simp)

text \<open>Organization operations need an active organization that is the subject's own, an active
  principal, well-formed identifiers and one of the roles the operation names; nothing else is
  ever allowed. The answer carries one reason, \<open>ReasonAllowed\<close> exactly when it is allowed, and a
  request refused for its role alone is told \<open>ReasonOrganizationRoleInsufficient\<close>.
\<close>

theorem organization_access_matrix:
  "(Allowed (EvaluateOrganization r) \<longleftrightarrow> sound_organization_context r
     \<and> set (sub_OrganizationRoles (oreq_Subject r)) \<inter> permitted_organization_roles (oreq_Operation r) \<noteq> {})
   \<and> length (ReasonCodes (EvaluateOrganization r)) = 1
   \<and> (ReasonCodes (EvaluateOrganization r) = [ReasonAllowed] \<longleftrightarrow> Allowed (EvaluateOrganization r))
   \<and> (ReasonCodes (EvaluateOrganization r) = [ReasonOrganizationRoleInsufficient] \<longleftrightarrow>
        sound_organization_context r \<and> permitted_organization_roles (oreq_Operation r) \<noteq> {}
        \<and> set (sub_OrganizationRoles (oreq_Subject r)) \<inter> permitted_organization_roles (oreq_Operation r) = {})"
proof -
  have "(Allowed (EvaluateOrganization r) \<longleftrightarrow> sound_organization_context r
     \<and> set (sub_OrganizationRoles (oreq_Subject r)) \<inter> permitted_organization_roles (oreq_Operation r) \<noteq> {})
   \<and> (ReasonCodes (EvaluateOrganization r) = [ReasonOrganizationRoleInsufficient] \<longleftrightarrow>
        sound_organization_context r \<and> permitted_organization_roles (oreq_Operation r) \<noteq> {}
        \<and> set (sub_OrganizationRoles (oreq_Subject r)) \<inter> permitted_organization_roles (oreq_Operation r) = {})"
    by (cases "oreq_Operation r")
      (auto simp: EvaluateOrganization_def Let_def sound_organization_context_def)
  then show ?thesis using EvaluateOrganization_reasons [of r] by (auto simp: answered_def)
qed

text \<open>Privileges form a chain: whoever may manage may ask, whoever may ask may read, whoever may
  read may see metadata.\<close>

lemma permitted_roles_chain:
  "permitted_roles OperationWorkspaceManage st \<subseteq> permitted_roles OperationWorkspaceAsk st"
  "permitted_roles OperationWorkspaceAsk st \<subseteq> permitted_roles OperationWorkspaceReadContent st"
  "permitted_roles OperationWorkspaceReadContent st \<subseteq> permitted_roles OperationWorkspaceViewMetadata st"
  by auto

text \<open>The nesting on requests, and the interface hint: a present member in a sound context may ask
  exactly when \<open>RoleCanAsk\<close> says so.\<close>

lemma privilege_chain:
  "(Allowed (EvaluateWorkspace (r\<lparr>req_Operation := OperationWorkspaceManage\<rparr>))
      \<longrightarrow> Allowed (EvaluateWorkspace (r\<lparr>req_Operation := OperationWorkspaceAsk\<rparr>)))
   \<and> (Allowed (EvaluateWorkspace (r\<lparr>req_Operation := OperationWorkspaceAsk\<rparr>))
      \<longrightarrow> Allowed (EvaluateWorkspace (r\<lparr>req_Operation := OperationWorkspaceReadContent\<rparr>)))
   \<and> (Allowed (EvaluateWorkspace (r\<lparr>req_Operation := OperationWorkspaceReadContent\<rparr>))
      \<longrightarrow> Allowed (EvaluateWorkspace (r\<lparr>req_Operation := OperationWorkspaceViewMetadata\<rparr>)))
   \<and> (Allowed (EvaluateWorkspace (r\<lparr>req_Operation := OperationWorkspaceAsk\<rparr>))
      \<longleftrightarrow> sound_context r \<and> mem_Present (req_Membership r)
          \<and> RoleCanAsk (wsp_Status (req_Workspace r)) (mem_Role (req_Membership r)))"
proof -
  have "sound_context (r\<lparr>req_Operation := op\<rparr>) = sound_context r" for op
    by (simp add: sound_context_def)
  then show ?thesis
    by (auto simp: EvaluateWorkspace_allowed RoleCanAsk_def)
qed

end
