(* ===== verification/Go_Base64.thy ===== *)
theory Go_Base64
  imports Go_Strings
begin

text \<open>
  Go's \<open>base64.StdEncoding\<close>: \<open>EncodeToString\<close>, and \<open>DecodeString\<close> of the strict variant, which
  skips CR and LF, takes padding in the last group only and refuses non-zero padding bits.
\<close>

definition b64_char :: "nat \<Rightarrow> char" where
  "b64_char i = (if i < 26 then char_of (65 + i) else if i < 52 then char_of (71 + i)
     else if i < 62 then char_of (i - 4) else if i = 62 then CHR ''+'' else CHR ''/'')"

definition b64_index :: "char \<Rightarrow> nat option" where
  "b64_index c = (if 65 \<le> byte c \<and> byte c \<le> 90 then Some (byte c - 65)
     else if 97 \<le> byte c \<and> byte c \<le> 122 then Some (byte c - 71)
     else if 48 \<le> byte c \<and> byte c \<le> 57 then Some (byte c + 4)
     else if c = CHR ''+'' then Some 62 else if c = CHR ''/'' then Some 63 else None)"

fun b64_encode :: "string \<Rightarrow> string" where
  "b64_encode [] = []"
| "b64_encode [a] = [b64_char (byte a div 4), b64_char (byte a mod 4 * 16), CHR ''='', CHR ''='']"
| "b64_encode [a, b] =
     [b64_char (byte a div 4), b64_char (byte a mod 4 * 16 + byte b div 16),
      b64_char (byte b mod 16 * 4), CHR ''='']"
| "b64_encode (a # b # c # s) =
     b64_char (byte a div 4) # b64_char (byte a mod 4 * 16 + byte b div 16)
     # b64_char (byte b mod 16 * 4 + byte c div 64) # b64_char (byte c mod 64) # b64_encode s"

fun b64_full :: "char \<Rightarrow> char \<Rightarrow> char \<Rightarrow> char \<Rightarrow> string option" where
  "b64_full p q r t =
    (case (b64_index p, b64_index q, b64_index r, b64_index t) of
       (Some i, Some j, Some k, Some l) \<Rightarrow>
         Some [char_of (i * 4 + j div 16), char_of (j mod 16 * 16 + k div 4), char_of (k mod 4 * 64 + l)]
     | _ \<Rightarrow> None)"

fun b64_last :: "char \<Rightarrow> char \<Rightarrow> char \<Rightarrow> char \<Rightarrow> string option" where
  "b64_last p q r t =
    (if t \<noteq> CHR ''='' then b64_full p q r t
     else if r = CHR ''='' then
       (case (b64_index p, b64_index q) of
          (Some i, Some j) \<Rightarrow> if j mod 16 = 0 then Some [char_of (i * 4 + j div 16)] else None
        | _ \<Rightarrow> None)
     else
       (case (b64_index p, b64_index q, b64_index r) of
          (Some i, Some j, Some k) \<Rightarrow>
            if k mod 4 = 0 then Some [char_of (i * 4 + j div 16), char_of (j mod 16 * 16 + k div 4)] else None
        | _ \<Rightarrow> None))"

fun b64_groups :: "string \<Rightarrow> string option" where
  "b64_groups [] = Some []"
| "b64_groups [p, q, r, t] = b64_last p q r t"
| "b64_groups (p # q # r # t # s) =
     (case (b64_full p q r t, b64_groups s) of (Some x, Some y) \<Rightarrow> Some (x @ y) | _ \<Rightarrow> None)"
| "b64_groups _ = None"

definition b64_decode :: "string \<Rightarrow> string option" where
  "b64_decode s = b64_groups (filter (\<lambda>c. c \<noteq> CHR 0x0A \<and> c \<noteq> CHR 0x0D) s)"

lemma byte_b64_char: "i < 64 \<Longrightarrow> byte (b64_char i) =
    (if i < 26 then 65 + i else if i < 52 then 71 + i else if i < 62 then i - 4 else if i = 62 then 43 else 47)"
  by (simp add: b64_char_def of_char_of)

lemma b64_index_char [simp]: "i < 64 \<Longrightarrow> b64_index (b64_char i) = Some i"
proof -
  assume i: "i < 64"
  consider "i < 26" | "26 \<le> i" "i < 52" | "52 \<le> i" "i < 62" | "i = 62" | "i = 63" using i by linarith
  then show ?thesis
  proof cases
    case 3
    then have "48 \<le> i - 4" "i - 4 \<le> 57" by linarith+
    with 3 show ?thesis by (simp add: b64_index_def byte_b64_char)
  qed (simp_all add: b64_index_def byte_b64_char, simp_all add: b64_char_def)
qed

lemma b64_char_neq [simp]:
  "i < 64 \<Longrightarrow> b64_char i \<noteq> CHR ''=''" "i < 64 \<Longrightarrow> b64_char i \<noteq> CHR 0x0A" "i < 64 \<Longrightarrow> b64_char i \<noteq> CHR 0x0D"
proof -
  assume i: "i < 64"
  have "byte (b64_char i) \<noteq> byte (CHR ''='')" "byte (b64_char i) \<noteq> byte (CHR 0x0A)"
    "byte (b64_char i) \<noteq> byte (CHR 0x0D)"
    using i by (auto simp: byte_b64_char)
  then show "b64_char i \<noteq> CHR ''=''" "b64_char i \<noteq> CHR 0x0A" "b64_char i \<noteq> CHR 0x0D" by metis+
qed

lemma b64_parts [simp]:
  fixes a b c :: char
  shows "byte a div 4 < 64" "byte a mod 4 * 16 < 64" "byte a mod 4 * 16 + byte b div 16 < 64"
    "byte b mod 16 * 4 < 64" "byte b mod 16 * 4 + byte c div 64 < 64" "byte c mod 64 < 64"
proof -
  have h: "byte a < 256" "byte b < 256" "byte c < 256" by (rule nat_of_char_less_256)+
  then show "byte a div 4 < 64" "byte a mod 4 * 16 < 64" "byte b mod 16 * 4 < 64" "byte c mod 64 < 64"
    by (simp_all add: less_mult_imp_div_less)
  have "byte a mod 4 \<le> 3" "byte b mod 16 \<le> 15" by (simp_all add: less_Suc_eq_le [symmetric])
  moreover have "byte b div 16 < 16" "byte c div 64 < 4" using h by (simp_all add: less_mult_imp_div_less)
  ultimately show "byte a mod 4 * 16 + byte b div 16 < 64" "byte b mod 16 * 4 + byte c div 64 < 64"
    by linarith+
qed

lemma char_of_byte [simp]:
  "n = byte c \<Longrightarrow> char_of n = c"
  by simp

lemma b64_recombine:
  fixes a b c :: char
  shows "byte a div 4 * 4 + (byte a mod 4 * 16 + byte b div 16) div 16 = byte a"
    "byte a div 4 * 4 + byte a mod 4 * 16 div 16 = byte a"
    "(byte a mod 4 * 16 + byte b div 16) mod 16 * 16 + (byte b mod 16 * 4 + byte c div 64) div 4 = byte b"
    "(byte a mod 4 * 16 + byte b div 16) mod 16 * 16 + byte b mod 16 * 4 div 4 = byte b"
    "(byte b mod 16 * 4 + byte c div 64) mod 4 * 64 + byte c mod 64 = byte c"
    "byte a mod 4 * 16 mod 16 = 0" "byte b mod 16 * 4 mod 4 = 0"
proof -
  have h: "byte b div 16 < 16" "byte c div 64 < 4"
    using nat_of_char_less_256 [of b] nat_of_char_less_256 [of c] by (simp_all add: less_mult_imp_div_less)
  then show "byte a div 4 * 4 + (byte a mod 4 * 16 + byte b div 16) div 16 = byte a"
    "(byte a mod 4 * 16 + byte b div 16) mod 16 * 16 + (byte b mod 16 * 4 + byte c div 64) div 4 = byte b"
    "(byte a mod 4 * 16 + byte b div 16) mod 16 * 16 + byte b mod 16 * 4 div 4 = byte b"
    "(byte b mod 16 * 4 + byte c div 64) mod 4 * 64 + byte c mod 64 = byte c"
    by simp_all
qed simp_all

lemma b64_groups_encode: "b64_groups (b64_encode s) = Some s"
proof (induction s rule: b64_encode.induct)
  case (4 a b c s)
  have full: "b64_full (b64_char (byte a div 4)) (b64_char (byte a mod 4 * 16 + byte b div 16))
      (b64_char (byte b mod 16 * 4 + byte c div 64)) (b64_char (byte c mod 64)) = Some [a, b, c]"
    by (simp only: b64_full.simps b64_index_char b64_parts option.case prod.case b64_recombine char_of_char)
  show ?case
  proof (cases s)
    case Nil
    with full show ?thesis by (simp del: b64_full.simps)
  next
    case (Cons d s')
    then obtain v vs where "b64_encode s = v # vs" by (cases s rule: b64_encode.cases) auto
    with 4 full show ?thesis by (simp del: b64_full.simps)
  qed
qed (simp_all only: b64_encode.simps b64_groups.simps b64_last.simps b64_index_char b64_parts
      b64_char_neq option.case prod.case b64_recombine char_of_char if_True if_False not_not, simp_all)

lemma b64_encode_clean: "c \<in> set (b64_encode s) \<Longrightarrow> c \<noteq> CHR 0x0A \<and> c \<noteq> CHR 0x0D"
  by (induction s rule: b64_encode.induct) auto

lemma b64_decode_encode [simp]: "b64_decode (b64_encode s) = Some s"
proof -
  have "filter (\<lambda>c. c \<noteq> CHR 0x0A \<and> c \<noteq> CHR 0x0D) (b64_encode s) = b64_encode s"
    using b64_encode_clean by (simp add: filter_id_conv)
  then show ?thesis by (simp add: b64_decode_def b64_groups_encode)
qed

end
