(* ===== verification/Canon_Text.thy ===== *)
theory Canon_Text
  imports Go_Strings
begin

text \<open>
  \<open>internal/source/canon/text.go\<close>: the text-v1 canonicalization, the mapping of lines to byte
  ranges that the extractor and the anchor resolver share, and the segmentation of a canonical
  text into line-range fragments. Unicode NFC (\<open>golang.org/x/text/unicode/norm\<close>) is not source
  of the repository: it is the argument \<open>nfc\<close>. The clients of the line mapping rely on the
  contract of the locale \<open>line_authority\<close>, which \<open>Lines\<close> is shown to meet.
\<close>

definition LF :: char where
  "LF = CHR 0x0A"

definition CR :: char where
  "CR = CHR 0x0D"

definition BOM :: gostring where
  "BOM = [CHR 0xEF, CHR 0xBB, CHR 0xBF]"

lemma LF_neq_CR [simp]: "LF \<noteq> CR" "CR \<noteq> LF"
  by (simp_all add: LF_def CR_def)

datatype canon_error = ErrInvalidUTF8 | ErrTextFragmentLayout | ErrStructuralFragmentLayout

section \<open>Canonicalization\<close>

text \<open>The loop of \<open>foldNewlines\<close>: after a CR, a directly following LF is skipped.\<close>

fun foldNewlines :: "gostring \<Rightarrow> gostring" where
  "foldNewlines [] = []"
| "foldNewlines [c] = [if c = CR then LF else c]"
| "foldNewlines (c # d # s) =
    (if c = CR then (if d = LF then LF # foldNewlines s else LF # foldNewlines (d # s))
     else c # foldNewlines (d # s))"

definition Canonicalize :: "(gostring \<Rightarrow> gostring) \<Rightarrow> gostring \<Rightarrow> canon_error + gostring" where
  "Canonicalize nfc raw =
    (if \<not> valid_utf8 raw then Inl ErrInvalidUTF8
     else (let s = (if 3 \<le> length raw \<and> raw ! 0 = CHR 0xEF \<and> raw ! 1 = CHR 0xBB \<and> raw ! 2 = CHR 0xBF
                    then drop 3 raw else raw)
           in Inr (nfc (foldNewlines s))))"

lemma foldNewlines_no_CR: "CR \<notin> set (foldNewlines s)"
  by (induction s rule: foldNewlines.induct) auto

lemma foldNewlines_id: "CR \<notin> set s \<Longrightarrow> foldNewlines s = s"
  by (induction s rule: foldNewlines.induct) auto

lemma foldNewlines_length: "length (foldNewlines s) \<le> length s"
  by (induction s rule: foldNewlines.induct) auto

section \<open>Lines\<close>

record line =
  Number :: nat
  ByteStart :: nat
  ByteEnd :: nat

text \<open>The loop of \<open>Lines\<close>, with its variables \<open>number\<close>, \<open>start\<close> and \<open>i\<close>.\<close>

fun lines_from :: "nat \<Rightarrow> nat \<Rightarrow> nat \<Rightarrow> gostring \<Rightarrow> line list" where
  "lines_from number start i [] = [\<lparr>Number = number, ByteStart = start, ByteEnd = i\<rparr>]"
| "lines_from number start i (c # s) =
    (if c = LF
     then \<lparr>Number = number, ByteStart = start, ByteEnd = i\<rparr> # lines_from (number + 1) (i + 1) (i + 1) s
     else lines_from number start (i + 1) s)"

definition Lines :: "gostring \<Rightarrow> line list" where
  "Lines canonical = lines_from 1 0 0 canonical"

definition LineRangeBytes :: "gostring \<Rightarrow> int \<Rightarrow> int \<Rightarrow> (nat \<times> nat) option" where
  "LineRangeBytes canonical lineStart lineEnd =
    (let lines = Lines canonical in
     if lineStart < 1 \<or> lineEnd < lineStart \<or> lineEnd > int (length lines) then None
     else Some (ByteStart (lines ! nat (lineStart - 1)), ByteEnd (lines ! nat (lineEnd - 1))))"

text \<open>\<open>Slice\<close> of the Go code; \<open>slice\<close> is the slice expression it evaluates.\<close>

definition SliceLines :: "gostring \<Rightarrow> int \<Rightarrow> int \<Rightarrow> gostring option" where
  "SliceLines canonical lineStart lineEnd =
    (case LineRangeBytes canonical lineStart lineEnd of
       None \<Rightarrow> None
     | Some (start, stop) \<Rightarrow> Some (slice start stop canonical))"

subsection \<open>The contract of the line mapping\<close>

text \<open>A chain of line records covers a text from byte \<open>st\<close>: consecutive lines are separated by
  exactly one LF, and the last one ends where the text ends.\<close>

fun line_chain :: "gostring \<Rightarrow> nat \<Rightarrow> line list \<Rightarrow> bool" where
  "line_chain s st [] = False"
| "line_chain s st [l] \<longleftrightarrow> ByteStart l = st \<and> st \<le> ByteEnd l \<and> ByteEnd l = length s"
| "line_chain s st (l # m # ls) \<longleftrightarrow> ByteStart l = st \<and> st \<le> ByteEnd l \<and> ByteEnd l < length s
     \<and> s ! ByteEnd l = LF \<and> line_chain s (ByteEnd l + 1) (m # ls)"

lemma line_chain_nth:
  "line_chain s st ls \<Longrightarrow> i < length ls \<Longrightarrow>
     st \<le> ByteStart (ls ! i) \<and> ByteStart (ls ! i) \<le> ByteEnd (ls ! i) \<and> ByteEnd (ls ! i) \<le> length s
     \<and> (Suc i < length ls \<longrightarrow> ByteStart (ls ! Suc i) = Suc (ByteEnd (ls ! i))
          \<and> ByteEnd (ls ! i) < length s \<and> s ! ByteEnd (ls ! i) = LF)
     \<and> (Suc i = length ls \<longrightarrow> ByteEnd (ls ! i) = length s)"
proof (induction s st ls arbitrary: i rule: line_chain.induct)
  case (3 s st l m ls)
  show ?case
  proof (cases i)
    case 0
    with 3(2) have "ByteStart m = Suc (ByteEnd l)" by (cases ls) auto
    with 0 3(2) show ?thesis by simp
  next
    case (Suc j)
    with 3(1) [of j] 3(2,3) show ?thesis by auto
  qed
qed auto

lemma line_chain_start: "line_chain s st ls \<Longrightarrow> ByteStart (ls ! 0) = st"
  by (induction s st ls rule: line_chain.induct) auto

lemma line_chain_join:
  "line_chain s st ls \<Longrightarrow> join_with [LF] (map (\<lambda>l. slice (ByteStart l) (ByteEnd l) s) ls) = drop st s"
proof (induction s st ls rule: line_chain.induct)
  case (2 s st l)
  then show ?case by (simp add: slice_def)
next
  case (3 s st l m ls)
  then have le: "st \<le> ByteEnd l" "ByteEnd l < length s" "s ! ByteEnd l = LF" by auto
  have "drop st s = slice st (ByteEnd l) s @ drop (ByteEnd l) s"
    using le slice_append [of st "ByteEnd l" "length s" s] by (simp add: slice_to_end)
  also have "drop (ByteEnd l) s = LF # drop (Suc (ByteEnd l)) s"
    using le Cons_nth_drop_Suc by metis
  finally show ?case using 3 by simp
qed auto

locale line_authority =
  fixes lines :: "gostring \<Rightarrow> line list"
  assumes chain: "line_chain s 0 (lines s)"
    and numbers: "i < length (lines s) \<Longrightarrow> Number (lines s ! i) = Suc i"
    and no_LF: "l \<in> set (lines s) \<Longrightarrow> LF \<notin> set (slice (ByteStart l) (ByteEnd l) s)"
begin

lemma nonempty: "lines s \<noteq> []"
  using chain [of s] by auto

lemma pieces: "map (\<lambda>l. slice (ByteStart l) (ByteEnd l) s) (lines s) = split_on LF s"
proof -
  let ?ps = "map (\<lambda>l. slice (ByteStart l) (ByteEnd l) s) (lines s)"
  have "join_with [LF] ?ps = s" using line_chain_join [OF chain, of s] by simp
  moreover have "split_on LF (join_with [LF] ?ps) = ?ps"
    by (rule split_join_with) (use nonempty no_LF in auto)
  ultimately show ?thesis by simp
qed

lemma count: "length (lines s) = length (split_on LF s)"
  using arg_cong [OF pieces [of s], of length] by simp

lemma piece: "i < length (lines s) \<Longrightarrow>
    slice (ByteStart (lines s ! i)) (ByteEnd (lines s ! i)) s = split_on LF s ! i"
  by (subst pieces [symmetric]) simp

lemmas bounds = line_chain_nth [OF chain]

lemma ends_mono: "i \<le> j \<Longrightarrow> j < length (lines s) \<Longrightarrow>
    ByteStart (lines s ! i) \<le> ByteStart (lines s ! j) \<and> ByteEnd (lines s ! i) \<le> ByteEnd (lines s ! j)"
proof (induction j)
  case (Suc j)
  show ?case
  proof (cases "i = Suc j")
    case False
    with Suc have "ByteStart (lines s ! i) \<le> ByteStart (lines s ! j)
        \<and> ByteEnd (lines s ! i) \<le> ByteEnd (lines s ! j)" by simp
    moreover have "ByteStart (lines s ! Suc j) = Suc (ByteEnd (lines s ! j))"
      and "ByteStart (lines s ! j) \<le> ByteEnd (lines s ! j)"
      and "ByteStart (lines s ! Suc j) \<le> ByteEnd (lines s ! Suc j)"
      using bounds [of j s] bounds [of "Suc j" s] Suc.prems by auto
    ultimately show ?thesis by linarith
  qed simp
qed simp

text \<open>The bytes of a line range are the lines it names, joined by LF.\<close>

lemma range_text: "i \<le> j \<Longrightarrow> j < length (lines s) \<Longrightarrow>
    slice (ByteStart (lines s ! i)) (ByteEnd (lines s ! j)) s
      = join_with [LF] (slice i (Suc j) (split_on LF s))"
proof (induction "j - i" arbitrary: i)
  case 0
  then have "i = j" by simp
  moreover have "slice j (Suc j) (split_on LF s) = [split_on LF s ! j]"
    using 0 by (simp add: slice_def count take_Suc_conv_app_nth hd_drop_conv_nth take_Suc)
  ultimately show ?case using piece 0 by simp
next
  case (Suc n)
  then have ij: "Suc i \<le> j" "i < length (lines s)" by simp_all
  let ?L = "lines s" and ?P = "split_on LF s"
  have IH: "slice (ByteStart (?L ! Suc i)) (ByteEnd (?L ! j)) s = join_with [LF] (slice (Suc i) (Suc j) ?P)"
    using Suc ij by simp
  have b: "ByteStart (?L ! Suc i) = Suc (ByteEnd (?L ! i))" "ByteEnd (?L ! i) < length s"
    "s ! ByteEnd (?L ! i) = LF" "ByteStart (?L ! i) \<le> ByteEnd (?L ! i)"
    using bounds [of i s] ij Suc.prems by auto
  have e: "Suc (ByteEnd (?L ! i)) \<le> ByteEnd (?L ! j)"
    using b(1) ends_mono [of "Suc i" j s] bounds [of "Suc i" s] ij Suc.prems by auto
  have LFs: "slice (ByteEnd (?L ! i)) (Suc (ByteEnd (?L ! i))) s = [LF]"
    using b by (simp add: slice_def take_Suc hd_drop_conv_nth)
  have "slice (ByteStart (?L ! i)) (ByteEnd (?L ! j)) s
      = slice (ByteStart (?L ! i)) (ByteEnd (?L ! i)) s
        @ slice (ByteEnd (?L ! i)) (Suc (ByteEnd (?L ! i))) s
        @ slice (Suc (ByteEnd (?L ! i))) (ByteEnd (?L ! j)) s"
    using b e by (simp add: slice_append)
  also have "\<dots> = ?P ! i @ [LF] @ join_with [LF] (slice (Suc i) (Suc j) ?P)"
    using IH b LFs piece [of i s] ij by simp
  also have "\<dots> = join_with [LF] (?P ! i # slice (Suc i) (Suc j) ?P)"
    using ij Suc.prems by (subst join_with_Cons) (auto simp: slice_def count)
  also have "?P ! i # slice (Suc i) (Suc j) ?P = slice i (Suc j) ?P"
    using ij Suc.prems
    by (simp add: slice_def count Cons_nth_drop_Suc [symmetric] Suc_diff_le)
  finally show ?case .
qed

end

lemma lines_from_chain:
  "s = p @ t \<Longrightarrow> st \<le> length p \<Longrightarrow> line_chain s st (lines_from n st (length p) t)"
proof (induction t arbitrary: p n st)
  case Nil
  then show ?case by simp
next
  case (Cons c t)
  show ?case
  proof (cases "c = LF")
    case True
    have "line_chain s (length p + 1) (lines_from (n + 1) (length p + 1) (length p + 1) t)"
      using Cons.IH [of "p @ [c]" "length p + 1" "n + 1"] Cons.prems by simp
    then show ?thesis using True Cons.prems
      by (cases "lines_from (n + 1) (length p + 1) (length p + 1) t") (auto simp: nth_append)
  next
    case False
    then show ?thesis using Cons.IH [of "p @ [c]" st n] Cons.prems by simp
  qed
qed

lemma lines_from_numbers: "i < length (lines_from n st k t) \<Longrightarrow> Number (lines_from n st k t ! i) = n + i"
proof (induction t arbitrary: n st k i)
  case (Cons c t)
  show ?case
  proof (cases "c = LF")
    case True
    with Cons show ?thesis by (cases i) auto
  next
    case False
    with Cons show ?thesis by simp
  qed
qed simp

lemma lines_from_no_LF:
  "s = p @ t \<Longrightarrow> st \<le> length p \<Longrightarrow> LF \<notin> set (drop st p) \<Longrightarrow> l \<in> set (lines_from n st (length p) t)
    \<Longrightarrow> LF \<notin> set (slice (ByteStart l) (ByteEnd l) s)"
proof (induction t arbitrary: p n st)
  case Nil
  then show ?case by (simp add: slice_def)
next
  case (Cons c t)
  show ?case
  proof (cases "c = LF")
    case True
    consider "l = \<lparr>Number = n, ByteStart = st, ByteEnd = length p\<rparr>"
      | "l \<in> set (lines_from (n + 1) (length (p @ [c])) (length (p @ [c])) t)"
      using Cons.prems(4) True by auto
    then show ?thesis
    proof cases
      case 1
      then show ?thesis using Cons.prems by (simp add: slice_def)
    next
      case 2
      show ?thesis by (rule Cons.IH [OF _ _ _ 2]) (use Cons.prems in simp_all)
    qed
  next
    case False
    have "l \<in> set (lines_from n st (length (p @ [c])) t)" using Cons.prems(4) False by simp
    then show ?thesis by (rule Cons.IH [rotated 3]) (use Cons.prems False in auto)
  qed
qed

interpretation ln: line_authority Lines
proof unfold_locales
  fix s
  show "line_chain s 0 (Lines s)"
    using lines_from_chain [of s "[]" s 0 1] by (simp add: Lines_def)
next
  fix i s
  assume "i < length (Lines s)"
  then show "Number (Lines s ! i) = Suc i"
    using lines_from_numbers [of i 1 0 0 s] by (simp add: Lines_def)
next
  fix l s
  assume "l \<in> set (Lines s)"
  then show "LF \<notin> set (slice (ByteStart l) (ByteEnd l) s)"
    using lines_from_no_LF [of s "[]" s 0 l 1] by (simp add: Lines_def)
qed

lemma LineRangeBytes_text:
  "map_option (\<lambda>(x, y). slice x y s) (LineRangeBytes s a b) =
     (if 1 \<le> a \<and> a \<le> b \<and> b \<le> int (length (split_on LF s))
      then Some (join_with [LF] (slice (nat (a - 1)) (nat b) (split_on LF s))) else None)"
proof (cases "1 \<le> a \<and> a \<le> b \<and> b \<le> int (length (split_on LF s))")
  case True
  then have j: "nat (b - 1) < length (Lines s)" "nat (a - 1) \<le> nat (b - 1)" "Suc (nat (b - 1)) = nat b"
    by (auto simp: ln.count)
  have "\<not> (a < 1 \<or> b < a \<or> b > int (length (Lines s)))"
    using True by (simp add: ln.count)
  then have "LineRangeBytes s a b
      = Some (ByteStart (Lines s ! nat (a - 1)), ByteEnd (Lines s ! nat (b - 1)))"
    by (simp add: LineRangeBytes_def Let_def)
  then show ?thesis using True ln.range_text [OF j(2) j(1)] j(3) by simp
next
  case False
  then show ?thesis by (auto simp: LineRangeBytes_def Let_def ln.count)
qed

text \<open>A line range resolves to exactly the lines it names: for any range inside the text, the
  bytes \<open>Slice\<close> returns are the lines from the first to the last, as separated by LF, joined by
  LF again; a range outside the text, empty or reversed resolves to nothing.
\<close>

theorem line_range_exact:
  "SliceLines s a b =
     (if 1 \<le> a \<and> a \<le> b \<and> b \<le> int (length (split_on LF s))
      then Some (join_with [LF] (slice (nat (a - 1)) (nat b) (split_on LF s))) else None)"
proof -
  have "SliceLines s a b = map_option (\<lambda>(x, y). slice x y s) (LineRangeBytes s a b)"
    by (auto simp: SliceLines_def split: option.splits)
  then show ?thesis by (simp only: LineRangeBytes_text)
qed

end
