(* ===== verification/Canon_Segment.thy ===== *)
theory Canon_Segment
  imports Canon_Text
begin

text \<open>
  \<open>Segment\<close> of \<open>internal/source/canon/text.go\<close>: a canonical text cut into line-range fragments of
  at most \<open>maxBytes\<close> bytes where a line allows it. The two nested loops are \<open>segment_inner\<close> (how
  many lines the next fragment takes) and \<open>segment_outer\<close>. The lemmas show that the fragments are
  in order, hold exactly the lines they name, leave out nothing but LF, and respect the bound.
\<close>

record fragment =
  frag_Ordinal :: int
  frag_LineStart :: int
  frag_LineEnd :: int
  frag_ByteStart :: int
  frag_ByteEnd :: int
  frag_Text :: gostring

function segment_inner :: "int \<Rightarrow> line list \<Rightarrow> nat \<Rightarrow> nat \<Rightarrow> nat" where
  "segment_inner maxBytes lines startLine j =
    (if j < length lines then
       (let span = int (ByteEnd (lines ! j)) - int (ByteStart (lines ! startLine)) in
        if span > maxBytes \<and> j > startLine then j
        else segment_inner maxBytes lines startLine (j + 1))
     else j)"
  by pat_completeness auto
termination
  by (relation "measure (\<lambda>(m, ls, st, j). length ls - j)") auto

declare segment_inner.simps [simp del]

lemma segment_inner_ge: "j \<le> segment_inner m ls st j"
proof (induction m ls st j rule: segment_inner.induct)
  case (1 m ls st j)
  then show ?case by (subst segment_inner.simps) (auto simp: Let_def)
qed

lemma segment_inner_le: "j \<le> length ls \<Longrightarrow> segment_inner m ls st j \<le> length ls"
proof (induction m ls st j rule: segment_inner.induct)
  case (1 m ls st j)
  then show ?case by (subst segment_inner.simps) (auto simp: Let_def)
qed

lemma segment_inner_gt: "st < length ls \<Longrightarrow> st < segment_inner m ls st st"
  using segment_inner_ge [of "st + 1" m ls st]
  by (subst segment_inner.simps) (simp add: Let_def)

text \<open>What the inner loop stops at: every line it took after the first keeps the span within bounds.\<close>

lemma segment_inner_span:
  "st < k \<Longrightarrow> j \<le> k \<Longrightarrow> k < segment_inner m ls st j
     \<Longrightarrow> int (ByteEnd (ls ! k)) - int (ByteStart (ls ! st)) \<le> m"
proof (induction m ls st j rule: segment_inner.induct)
  case (1 m ls st j)
  show ?case
  proof (cases "j < length ls \<and> \<not> (int (ByteEnd (ls ! j)) - int (ByteStart (ls ! st)) > m \<and> j > st)")
    case True
    then have eq: "segment_inner m ls st j = segment_inner m ls st (j + 1)"
      by (subst segment_inner.simps) (auto simp: Let_def)
    show ?thesis
    proof (cases "j = k")
      case True
      with \<open>j < length ls \<and> _\<close> 1 show ?thesis by auto
    next
      case False
      with 1 True eq show ?thesis by (auto simp: Let_def)
    qed
  next
    case False
    then have "segment_inner m ls st j = j" by (subst segment_inner.simps) (auto simp: Let_def)
    with 1 show ?thesis by simp
  qed
qed

function segment_outer :: "gostring \<Rightarrow> int \<Rightarrow> line list \<Rightarrow> int \<Rightarrow> nat \<Rightarrow> fragment list" where
  "segment_outer canonical maxBytes lines ordinal i =
    (if i < length lines then
       (let j = segment_inner maxBytes lines i i;
            start = ByteStart (lines ! i);
            stop = ByteEnd (lines ! (j - 1)) in
        if stop > start then
          \<lparr>frag_Ordinal = ordinal, frag_LineStart = int (Number (lines ! i)),
           frag_LineEnd = int (Number (lines ! (j - 1))), frag_ByteStart = int start,
           frag_ByteEnd = int stop, frag_Text = slice start stop canonical\<rparr>
          # segment_outer canonical maxBytes lines (ordinal + 1) j
        else segment_outer canonical maxBytes lines ordinal j)
     else [])"
  by pat_completeness auto
termination
  by (relation "measure (\<lambda>(c, m, ls, n, i). length ls - i)") (auto simp: segment_inner_gt diff_less_mono2)

declare segment_outer.simps [simp del]

text \<open>The lines \<open>Segment\<close> works on: a final empty line is folded away.\<close>

definition segment_lines :: "gostring \<Rightarrow> line list" where
  "segment_lines canonical =
    (let lines = Lines canonical in
     if length lines > 1 \<and> ByteStart (lines ! (length lines - 1)) = ByteEnd (lines ! (length lines - 1))
     then take (length lines - 1) lines else lines)"

definition Segment :: "gostring \<Rightarrow> int \<Rightarrow> fragment list" where
  "Segment canonical maxBytes =
    (if canonical = [] \<or> maxBytes < 1 then []
     else segment_outer canonical maxBytes (segment_lines canonical) 1 0)"

section \<open>What the fragments cover\<close>

definition all_LF :: "gostring \<Rightarrow> bool" where
  "all_LF s \<longleftrightarrow> list_all (\<lambda>c. c = LF) s"

lemma all_LF_simps [simp]:
  "all_LF []" "all_LF (c # s) \<longleftrightarrow> c = LF \<and> all_LF s" "all_LF (s @ t) \<longleftrightarrow> all_LF s \<and> all_LF t"
  by (auto simp: all_LF_def)

text \<open>\<open>frags_ok s m n pos prevLine fs\<close>: the fragments \<open>fs\<close> carry the ordinals from \<open>n\<close>, follow line
  \<open>prevLine\<close> and byte \<open>pos\<close>, hold the bytes of the lines they name, are within the bound \<open>m\<close>
  unless they are a single line, and everything between and after them is LF.\<close>

fun frags_ok :: "gostring \<Rightarrow> int \<Rightarrow> int \<Rightarrow> nat \<Rightarrow> int \<Rightarrow> fragment list \<Rightarrow> bool" where
  "frags_ok s m n pos prevLine [] = all_LF (slice pos (length s) s)"
| "frags_ok s m n pos prevLine (f # fs) \<longleftrightarrow>
     frag_Ordinal f = n \<and> prevLine < frag_LineStart f \<and> frag_LineStart f \<le> frag_LineEnd f
     \<and> frag_LineEnd f \<le> int (length (Lines s))
     \<and> frag_ByteStart f = int (ByteStart (Lines s ! nat (frag_LineStart f - 1)))
     \<and> frag_ByteEnd f = int (ByteEnd (Lines s ! nat (frag_LineEnd f - 1)))
     \<and> int pos \<le> frag_ByteStart f \<and> frag_ByteStart f < frag_ByteEnd f \<and> frag_ByteEnd f \<le> int (length s)
     \<and> all_LF (slice pos (nat (frag_ByteStart f)) s)
     \<and> frag_Text f = slice (nat (frag_ByteStart f)) (nat (frag_ByteEnd f)) s
     \<and> (frag_ByteEnd f - frag_ByteStart f \<le> m \<or> frag_LineStart f = frag_LineEnd f)
     \<and> frags_ok s m (n + 1) (nat (frag_ByteEnd f)) (frag_LineEnd f) fs"

text \<open>Where line \<open>i\<close> starts, or the end of the text past the last line.\<close>

definition line_pos :: "gostring \<Rightarrow> nat \<Rightarrow> nat" where
  "line_pos s i = (if i < length (Lines s) then ByteStart (Lines s ! i) else length s)"

lemma line_pos_after:
  assumes "i < length (Lines s)"
  shows "ByteEnd (Lines s ! i) \<le> line_pos s (Suc i)
    \<and> all_LF (slice (ByteEnd (Lines s ! i)) (line_pos s (Suc i)) s) \<and> line_pos s (Suc i) \<le> length s"
proof (cases "Suc i < length (Lines s)")
  case True
  with ln.bounds [of i s] assms ln.bounds [of "Suc i" s] show ?thesis
    by (auto simp: line_pos_def slice_def take_Suc hd_drop_conv_nth)
next
  case False
  with assms ln.bounds [of i s] show ?thesis by (auto simp: line_pos_def)
qed

text \<open>The lines the loops run over: a prefix of all the lines that reaches the end but for LFs.\<close>

lemma segment_lines_prefix:
  "\<exists>k. segment_lines s = take k (Lines s) \<and> 1 \<le> k \<and> k \<le> length (Lines s) \<and> line_pos s k = length s"
proof -
  let ?L = "Lines s"
  have ne: "Suc 0 \<le> length ?L" using ln.nonempty [of s] by (cases ?L) auto
  show ?thesis
  proof (cases "length ?L > 1 \<and> ByteStart (?L ! (length ?L - 1)) = ByteEnd (?L ! (length ?L - 1))")
    case True
    then have "ByteEnd (?L ! (length ?L - 1)) = length s"
      using ln.bounds [of "length ?L - 1" s] by auto
    with True have "line_pos s (length ?L - 1) = length s" by (simp add: line_pos_def)
    with True show ?thesis by (intro exI [of _ "length ?L - 1"]) (auto simp: segment_lines_def Let_def)
  next
    case False
    with ne show ?thesis
      by (intro exI [of _ "length ?L"]) (auto simp: segment_lines_def Let_def line_pos_def)
  qed
qed

lemma all_LF_slice_trans:
  "a \<le> b \<Longrightarrow> b \<le> c \<Longrightarrow> all_LF (slice a b s) \<Longrightarrow> all_LF (slice b c s) \<Longrightarrow> all_LF (slice a c s)"
  using slice_append [of a b c s] by (metis all_LF_simps(3))

text \<open>A fragment of no bytes is a single empty line.\<close>

lemma empty_group:
  assumes "i \<le> j" "j < length (Lines s)" "ByteEnd (Lines s ! j) \<le> ByteStart (Lines s ! i)"
  shows "i = j \<and> ByteEnd (Lines s ! i) = ByteStart (Lines s ! i)"
proof (cases "i = j")
  case True
  with assms ln.bounds [of i s] show ?thesis by auto
next
  case False
  with assms have "Suc i \<le> j" by simp
  then have "ByteStart (Lines s ! Suc i) \<le> ByteEnd (Lines s ! j)"
    using ln.ends_mono [of "Suc i" j s] ln.bounds [of "Suc i" s] assms by auto
  moreover have "ByteStart (Lines s ! Suc i) = Suc (ByteEnd (Lines s ! i))"
    using ln.bounds [of i s] \<open>Suc i \<le> j\<close> assms by auto
  moreover have "ByteStart (Lines s ! i) \<le> ByteEnd (Lines s ! i)"
    using ln.bounds [of i s] assms by auto
  ultimately show ?thesis using assms by linarith
qed

lemma segment_outer_ok:
  assumes "ls = take k (Lines s)" "k \<le> length (Lines s)" "line_pos s k = length s"
    and "i \<le> k" "pos \<le> line_pos s i" "all_LF (slice pos (line_pos s i) s)" "prevLine \<le> int i"
  shows "frags_ok s m n pos prevLine (segment_outer s m ls n i)"
  using assms
proof (induction s m ls n i arbitrary: pos prevLine rule: segment_outer.induct)
  case (1 s m ls n i)
  let ?L = "Lines s"
  have len: "length ls = k" using 1(3,4) by simp
  show ?case
  proof (cases "i < k")
    case False
    then have "i = k" using 1(6) by simp
    then show ?thesis using 1 len by (subst segment_outer.simps) simp
  next
    case True
    define j where "j = segment_inner m ls i i"
    have j: "i < j" "j \<le> k"
      using segment_inner_gt [of i ls m] segment_inner_le [of i ls m i] True len by (auto simp: j_def)
    then have jL: "j - 1 < length ?L" "i < length ?L" "i \<le> j - 1" using 1(4) by auto
    have nth: "ls ! i = ?L ! i" "ls ! (j - 1) = ?L ! (j - 1)" using 1(3) j by auto
    have num: "Number (?L ! i) = Suc i" "Number (?L ! (j - 1)) = j"
      using ln.numbers [of i s] ln.numbers [of "j - 1" s] jL j by auto
    have after: "ByteEnd (?L ! (j - 1)) \<le> line_pos s j"
        "all_LF (slice (ByteEnd (?L ! (j - 1))) (line_pos s j) s)"
      using line_pos_after [of "j - 1" s] jL j by auto
    have start: "line_pos s i = ByteStart (?L ! i)" using jL by (simp add: line_pos_def)
    show ?thesis
    proof (cases "ByteEnd (?L ! (j - 1)) > ByteStart (?L ! i)")
      case True
      let ?f = "\<lparr>frag_Ordinal = n, frag_LineStart = int (Suc i), frag_LineEnd = int j,
          frag_ByteStart = int (ByteStart (?L ! i)), frag_ByteEnd = int (ByteEnd (?L ! (j - 1))),
          frag_Text = slice (ByteStart (?L ! i)) (ByteEnd (?L ! (j - 1))) s\<rparr>"
      have unf: "segment_outer s m ls n i = ?f # segment_outer s m ls (n + 1) j"
        using True \<open>i < k\<close> len nth num by (subst segment_outer.simps) (simp add: Let_def j_def [symmetric])
      have rest: "frags_ok s m (n + 1) (ByteEnd (?L ! (j - 1))) (int j) (segment_outer s m ls (n + 1) j)"
        by (rule 1(1) [of j]) (use 1(3-5) True \<open>i < k\<close> len nth j after in \<open>simp_all add: j_def\<close>)
      have span: "int (ByteEnd (?L ! (j - 1))) - int (ByteStart (?L ! i)) \<le> m \<or> int (Suc i) = int j"
        using segment_inner_span [of i "j - 1" i m ls] j nth by (cases "Suc i = j") (auto simp: j_def)
      have "ByteEnd (?L ! (j - 1)) \<le> length s" using ln.bounds [of "j - 1" s] jL by auto
      with unf rest span True 1 start jL j show ?thesis by (auto simp: nat_diff_distrib)
    next
      case False
      then have e: "i = j - 1" "ByteEnd (?L ! i) = ByteStart (?L ! i)"
        using empty_group [of i "j - 1" s] jL by auto
      have unf: "segment_outer s m ls n i = segment_outer s m ls n j"
        using False \<open>i < k\<close> len nth by (subst segment_outer.simps) (simp add: Let_def j_def [symmetric])
      have "all_LF (slice pos (line_pos s j) s)" "pos \<le> line_pos s j"
        using all_LF_slice_trans [of pos "line_pos s i" "line_pos s j" s] after e 1(7,8) start j by auto
      then have "frags_ok s m n pos prevLine (segment_outer s m ls n j)"
        by (intro 1(2) [of j]) (use 1(3-5,9) False \<open>i < k\<close> len nth j in \<open>simp_all add: j_def\<close>)
      with unf show ?thesis by simp
    qed
  qed
qed

lemma Segment_ok:
  assumes "1 \<le> m"
  shows "frags_ok s m 1 0 0 (Segment s m)"
proof (cases "s = []")
  case False
  obtain k where k: "segment_lines s = take k (Lines s)" "1 \<le> k" "k \<le> length (Lines s)"
    "line_pos s k = length s" using segment_lines_prefix by blast
  have "line_pos s 0 = 0" using line_chain_start [OF ln.chain, of s] ln.nonempty [of s]
    by (simp add: line_pos_def)
  with segment_outer_ok [OF k(1,3,4), of 0 0 0 m 1] k assms False show ?thesis by (simp add: Segment_def)
qed (simp add: Segment_def)

text \<open>The text rebuilt from a fragment list by filling the gaps from the canonical text.\<close>

fun gaps_from :: "gostring \<Rightarrow> nat \<Rightarrow> fragment list \<Rightarrow> gostring list" where
  "gaps_from s pos [] = [slice pos (length s) s]"
| "gaps_from s pos (f # fs) = slice pos (nat (frag_ByteStart f)) s # gaps_from s (nat (frag_ByteEnd f)) fs"

fun interleave :: "gostring list \<Rightarrow> gostring list \<Rightarrow> gostring" where
  "interleave (g # gs) (t # ts) = g @ t @ interleave gs ts"
| "interleave gs _ = concat gs"

lemma frags_ok_interleave:
  "frags_ok s m n pos pl fs \<Longrightarrow> pos \<le> length s \<Longrightarrow>
     interleave (gaps_from s pos fs) (map frag_Text fs) = slice pos (length s) s
     \<and> list_all all_LF (gaps_from s pos fs)"
proof (induction fs arbitrary: n pos pl)
  case (Cons f fs)
  define a b where "a = nat (frag_ByteStart f)" and "b = nat (frag_ByteEnd f)"
  have o: "pos \<le> a" "a \<le> b" "b \<le> length s" "all_LF (slice pos a s)" "frag_Text f = slice a b s"
    using Cons.prems by (auto simp: a_def b_def)
  have IH: "interleave (gaps_from s b fs) (map frag_Text fs) = slice b (length s) s"
    "list_all all_LF (gaps_from s b fs)"
    using Cons.IH [of "n + 1" b "frag_LineEnd f"] Cons.prems o by (auto simp: b_def)
  have "slice pos a s @ slice a b s @ slice b (length s) s = slice pos (length s) s"
    using o by (simp add: slice_append)
  with IH o show ?case by (simp add: a_def [symmetric] b_def [symmetric])
qed simp

text \<open>A fragment is sound when it holds the bytes of its line range and respects the bound.\<close>

definition frag_sound :: "gostring \<Rightarrow> int \<Rightarrow> fragment \<Rightarrow> bool" where
  "frag_sound s m f \<longleftrightarrow> SliceLines s (frag_LineStart f) (frag_LineEnd f) = Some (frag_Text f)
     \<and> frag_Text f \<noteq> []
     \<and> (int (length (frag_Text f)) \<le> m \<or> frag_LineStart f = frag_LineEnd f)"

lemma frag_sound_head:
  assumes "frags_ok s m n pos pl (f # fs)" "0 \<le> pl"
  shows "frag_sound s m f"
proof -
  from assms have l: "1 \<le> frag_LineStart f" "frag_LineStart f \<le> frag_LineEnd f"
      "frag_LineEnd f \<le> int (length (Lines s))"
    and b: "frag_ByteStart f = int (ByteStart (Lines s ! nat (frag_LineStart f - 1)))"
      "frag_ByteEnd f = int (ByteEnd (Lines s ! nat (frag_LineEnd f - 1)))"
    and o: "frag_ByteStart f < frag_ByteEnd f" "frag_ByteEnd f \<le> int (length s)"
      "frag_Text f = slice (nat (frag_ByteStart f)) (nat (frag_ByteEnd f)) s"
    and m: "frag_ByteEnd f - frag_ByteStart f \<le> m \<or> frag_LineStart f = frag_LineEnd f"
    by auto
  have "SliceLines s (frag_LineStart f) (frag_LineEnd f) = Some (frag_Text f)"
    using l b o by (simp add: SliceLines_def LineRangeBytes_def Let_def)
  moreover have "int (length (frag_Text f)) = frag_ByteEnd f - frag_ByteStart f"
    using b o by simp
  moreover from this have "frag_Text f \<noteq> []" using o(1) by auto
  ultimately show ?thesis using m unfolding frag_sound_def by (intro conjI) linarith+
qed

text \<open>
  C11. Segmentation partitions the text: for a positive bound, the fragments carry the ordinals
  1, 2, ... in order, each holds exactly the bytes of the line range it names (as the resolver
  \<open>Slice\<close> returns them), each is within the bound unless it is a single line, and interleaving
  them with gaps that consist of line feeds only gives the canonical text back.
\<close>

theorem segment_partition:
  assumes "1 \<le> m"
  shows "interleave (gaps_from s 0 (Segment s m)) (map frag_Text (Segment s m)) = s
    \<and> list_all all_LF (gaps_from s 0 (Segment s m))
    \<and> map frag_Ordinal (Segment s m) = map int [1..<Suc (length (Segment s m))]
    \<and> list_all (frag_sound s m) (Segment s m)"
proof -
  have ords: "frags_ok s m (int n) pos pl fs \<Longrightarrow> map frag_Ordinal fs = map int [n..<n + length fs]"
    for n pos pl fs
  proof (induction fs arbitrary: n pos pl)
    case (Cons f fs)
    have "frag_Ordinal f = int n"
      and "frags_ok s m (int n + 1) (nat (frag_ByteEnd f)) (frag_LineEnd f) fs"
      using Cons.prems unfolding frags_ok.simps by blast+
    moreover have "int n + 1 = int (Suc n)" by simp
    ultimately have "frag_Ordinal f = int n"
      and "frags_ok s m (int (Suc n)) (nat (frag_ByteEnd f)) (frag_LineEnd f) fs"
      by metis+
    then have "frag_Ordinal f = int n" "map frag_Ordinal fs = map int [Suc n..<Suc n + length fs]"
      using Cons.IH by blast+
    then show ?case by (simp add: upt_conv_Cons del: upt_Suc)
  qed simp
  have each: "frags_ok s m n pos pl fs \<Longrightarrow> 0 \<le> pl \<Longrightarrow> list_all (frag_sound s m) fs" for n pos pl fs
  proof (induction fs arbitrary: n pos pl)
    case (Cons f fs)
    have "list_all (frag_sound s m) fs"
      by (rule Cons.IH [of "n + 1" "nat (frag_ByteEnd f)" "frag_LineEnd f"]) (use Cons.prems in auto)
    with frag_sound_head [OF Cons.prems] show ?case by simp
  qed simp
  note ok = Segment_ok [OF assms, of s]
  from frags_ok_interleave [OF ok] ords [of 1 0 0 "Segment s m"] each [OF ok] ok
  show ?thesis by simp
qed

theorem segment_partition_witness:
  "interleave (gaps_from ''aa\<newline>b\<newline>'' 0 (Segment ''aa\<newline>b\<newline>'' 2)) (map frag_Text (Segment ''aa\<newline>b\<newline>'' 2))
     = ''aa\<newline>b\<newline>''"
  using segment_partition [of 2 "''aa\<newline>b\<newline>''"] by simp

end
