(* ===== verification/Canon_Layout.thy ===== *)
theory Canon_Layout
  imports Go_Base64 Canon_Segment
begin

text \<open>
  \<open>internal/source/canon/text_layout.go\<close> and \<open>structural_layout.go\<close>: the records that place a
  fragment in the full canonical text, and the checks that build them. The SHA-256 digest
  (\<open>canon.Hash\<close>) is the argument \<open>hash\<close> and the NFC test of \<open>golang.org/x/text\<close> the argument
  \<open>is_nfc\<close>. The lemmas show that accepted layouts determine the text, which segmentations of
  \<open>Segment\<close> are accepted, and which are not.
\<close>

section \<open>Parser profile revisions\<close>

definition TextFragmentLayoutSchema :: gostring where
  "TextFragmentLayoutSchema = ''text-fragment-layout-v2''"

definition NormalizationVersion :: gostring where
  "NormalizationVersion = ''text-v1''"

definition textLayoutRevisionSuffix :: gostring where
  "textLayoutRevisionSuffix = ''-layout-v2''"

definition StructuralFragmentLayoutSchema :: gostring where
  "StructuralFragmentLayoutSchema = ''structural-fragment-layout-v1''"

definition structuralLayoutRevisionSuffix :: gostring where
  "structuralLayoutRevisionSuffix = ''-struct-layout-v1''"

definition validParserProfileRevision :: "gostring \<Rightarrow> bool" where
  "validParserProfileRevision revision \<longleftrightarrow>
     revision \<noteq> [] \<and> valid_utf8 revision \<and> rune_count revision \<le> 64"

definition IsTextLayoutParserRevision :: "gostring \<Rightarrow> bool" where
  "IsTextLayoutParserRevision revision =
    (if \<not> validParserProfileRevision revision \<or> length revision \<le> length textLayoutRevisionSuffix then False
     else (let base = take (length revision - length textLayoutRevisionSuffix) revision in
           drop (length base) revision = textLayoutRevisionSuffix \<and> validParserProfileRevision base))"

definition TextLayoutParserRevision :: "gostring \<Rightarrow> gostring" where
  "TextLayoutParserRevision revision =
    (if IsTextLayoutParserRevision revision then revision
     else if \<not> validParserProfileRevision revision \<or> revision = textLayoutRevisionSuffix then []
     else (let layoutRevision = revision @ textLayoutRevisionSuffix in
           if \<not> validParserProfileRevision layoutRevision then [] else layoutRevision))"

definition IsStructuralLayoutParserRevision :: "gostring \<Rightarrow> bool" where
  "IsStructuralLayoutParserRevision revision =
    (if \<not> validParserProfileRevision revision \<or> length revision \<le> length structuralLayoutRevisionSuffix
     then False
     else (let base = take (length revision - length structuralLayoutRevisionSuffix) revision in
           drop (length base) revision = structuralLayoutRevisionSuffix \<and> validParserProfileRevision base))"

definition StructuralLayoutParserRevision :: "gostring \<Rightarrow> gostring" where
  "StructuralLayoutParserRevision revision =
    (if IsStructuralLayoutParserRevision revision then revision
     else if \<not> validParserProfileRevision revision \<or> revision = structuralLayoutRevisionSuffix then []
     else (let result = revision @ structuralLayoutRevisionSuffix in
           if \<not> validParserProfileRevision result then [] else result))"

definition IsStructuralLayoutFormat :: "gostring \<Rightarrow> bool" where
  "IsStructuralLayoutFormat format \<longleftrightarrow>
     format = ''DOCX'' \<or> format = ''PPTX'' \<or> format = ''XLSX'' \<or> format = ''PDF''"

text \<open>A revision the profile functions produce is accepted by their tests, and producing it twice
  changes nothing.\<close>

lemma TextLayoutParserRevision_closed:
  "TextLayoutParserRevision r = [] \<or> IsTextLayoutParserRevision (TextLayoutParserRevision r)"
  by (auto simp: TextLayoutParserRevision_def IsTextLayoutParserRevision_def Let_def
      validParserProfileRevision_def)

lemma StructuralLayoutParserRevision_closed:
  "StructuralLayoutParserRevision r = [] \<or> IsStructuralLayoutParserRevision (StructuralLayoutParserRevision r)"
  by (auto simp: StructuralLayoutParserRevision_def IsStructuralLayoutParserRevision_def Let_def
      validParserProfileRevision_def)

lemma TextLayoutParserRevision_idem:
  "TextLayoutParserRevision r \<noteq> [] \<Longrightarrow> TextLayoutParserRevision (TextLayoutParserRevision r) = TextLayoutParserRevision r"
  using TextLayoutParserRevision_closed [of r] by (simp add: TextLayoutParserRevision_def [of "TextLayoutParserRevision r"])

section \<open>Text fragment layouts\<close>

record text_layout =
  tl_Schema :: gostring
  tl_NormalizationVersion :: gostring
  tl_ParserProfileRevision :: gostring
  tl_Ordinal :: int
  tl_LineStart :: int
  tl_LineEnd :: int
  tl_CanonicalByteStart :: int
  tl_CanonicalByteEnd :: int
  tl_GapAfterBase64 :: gostring
  tl_CanonicalTotalBytes :: int
  tl_CanonicalSHA256 :: gostring

definition canonicalTextBufferIsValid :: "(gostring \<Rightarrow> bool) \<Rightarrow> gostring \<Rightarrow> bool" where
  "canonicalTextBufferIsValid is_nfc canonical \<longleftrightarrow>
     valid_utf8 canonical \<and> CR \<notin> set canonical \<and> \<not> has_prefix BOM canonical \<and> is_nfc canonical"

text \<open>The loop over the segments, with its variables \<open>i\<close>, \<open>previousEnd\<close> and \<open>previousLineEnd\<close>.
  The checks bound every slice before it is taken.\<close>

fun text_layout_loop :: "gostring \<Rightarrow> gostring \<Rightarrow> line list \<Rightarrow> gostring \<Rightarrow> int \<Rightarrow> int \<Rightarrow> int
    \<Rightarrow> fragment list \<Rightarrow> canon_error + text_layout list" where
  "text_layout_loop canonical canonicalHash lines profile i previousEnd previousLineEnd [] = Inr []"
| "text_layout_loop canonical canonicalHash lines profile i previousEnd previousLineEnd (segment # rest) =
    (if frag_Ordinal segment \<noteq> i + 1 \<or> frag_LineStart segment < 1
        \<or> frag_LineEnd segment < frag_LineStart segment \<or> frag_LineStart segment \<le> previousLineEnd
        \<or> frag_ByteStart segment < previousEnd \<or> frag_LineEnd segment > int (length lines)
        \<or> frag_ByteEnd segment \<le> frag_ByteStart segment
        \<or> frag_ByteEnd segment > int (length canonical)
     then Inl ErrTextFragmentLayout
     else
       (let start = int (ByteStart (lines ! nat (frag_LineStart segment - 1)));
            stop = int (ByteEnd (lines ! nat (frag_LineEnd segment - 1))) in
        if start \<noteq> frag_ByteStart segment \<or> stop \<noteq> frag_ByteEnd segment
           \<or> frag_Text segment
               \<noteq> slice (nat (frag_ByteStart segment)) (nat (frag_ByteEnd segment)) canonical
        then Inl ErrTextFragmentLayout
        else
          (let nextStart = (case rest of [] \<Rightarrow> int (length canonical) | next # _ \<Rightarrow> frag_ByteStart next) in
           if nextStart < frag_ByteEnd segment \<or> nextStart > int (length canonical)
           then Inl ErrTextFragmentLayout
           else
             (let gap = slice (nat (frag_ByteEnd segment)) (nat nextStart) canonical in
              if \<not> list_all (\<lambda>value. value = LF) gap then Inl ErrTextFragmentLayout
              else
                and_then
                  (text_layout_loop canonical canonicalHash lines profile (i + 1)
                     (frag_ByteEnd segment) (frag_LineEnd segment) rest)
                  (\<lambda>layouts. Inr
                     (\<lparr>tl_Schema = TextFragmentLayoutSchema,
                       tl_NormalizationVersion = NormalizationVersion,
                       tl_ParserProfileRevision = profile, tl_Ordinal = frag_Ordinal segment,
                       tl_LineStart = frag_LineStart segment, tl_LineEnd = frag_LineEnd segment,
                       tl_CanonicalByteStart = frag_ByteStart segment,
                       tl_CanonicalByteEnd = frag_ByteEnd segment,
                       tl_GapAfterBase64 = b64_encode gap,
                       tl_CanonicalTotalBytes = int (length canonical),
                       tl_CanonicalSHA256 = canonicalHash\<rparr> # layouts))))))"

definition NewTextFragmentLayouts :: "(gostring \<Rightarrow> gostring) \<Rightarrow> (gostring \<Rightarrow> bool) \<Rightarrow> gostring
    \<Rightarrow> fragment list \<Rightarrow> gostring \<Rightarrow> canon_error + text_layout list" where
  "NewTextFragmentLayouts hash is_nfc canonical segments profile =
    (if \<not> IsTextLayoutParserRevision profile \<or> \<not> canonicalTextBufferIsValid is_nfc canonical
     then Inl ErrTextFragmentLayout
     else if canonical = [] then (if segments = [] then Inr [] else Inl ErrTextFragmentLayout)
     else case segments of
            [] \<Rightarrow> Inl ErrTextFragmentLayout
          | first # _ \<Rightarrow>
              if frag_ByteStart first \<noteq> 0 then Inl ErrTextFragmentLayout
              else text_layout_loop canonical (hash canonical) (Lines canonical) profile 0 0 0 segments)"

subsection \<open>Accepted layouts determine the text\<close>

definition decoded_gap :: "text_layout \<Rightarrow> gostring" where
  "decoded_gap l = (case b64_decode (tl_GapAfterBase64 l) of None \<Rightarrow> [] | Some g \<Rightarrow> g)"

fun rebuild :: "fragment list \<Rightarrow> text_layout list \<Rightarrow> gostring" where
  "rebuild (f # fs) (l # ls) = frag_Text f @ decoded_gap l @ rebuild fs ls"
| "rebuild _ _ = []"

lemma text_layout_loop_Cons:
  assumes "text_layout_loop canonical h lines profile i pe pl (f # fs) = Inr ls"
  shows "\<exists>l ls'. ls = l # ls'
    \<and> text_layout_loop canonical h lines profile (i + 1) (frag_ByteEnd f) (frag_LineEnd f) fs = Inr ls'
    \<and> tl_CanonicalByteStart l = frag_ByteStart f \<and> tl_CanonicalByteEnd l = frag_ByteEnd f
    \<and> tl_LineStart l = frag_LineStart f \<and> tl_LineEnd l = frag_LineEnd f \<and> tl_Ordinal l = i + 1
    \<and> tl_CanonicalTotalBytes l = int (length canonical) \<and> tl_CanonicalSHA256 l = h
    \<and> tl_Schema l = TextFragmentLayoutSchema \<and> tl_NormalizationVersion l = NormalizationVersion
    \<and> tl_ParserProfileRevision l = profile
    \<and> (let nextStart = (case fs of [] \<Rightarrow> int (length canonical) | next # _ \<Rightarrow> frag_ByteStart next) in
        tl_GapAfterBase64 l = b64_encode (slice (nat (frag_ByteEnd f)) (nat nextStart) canonical)
        \<and> all_LF (slice (nat (frag_ByteEnd f)) (nat nextStart) canonical)
        \<and> frag_ByteEnd f \<le> nextStart \<and> nextStart \<le> int (length canonical))
    \<and> pe \<le> frag_ByteStart f \<and> frag_ByteStart f < frag_ByteEnd f
    \<and> frag_ByteEnd f \<le> int (length canonical)
    \<and> pl < frag_LineStart f \<and> 1 \<le> frag_LineStart f \<and> frag_LineStart f \<le> frag_LineEnd f
    \<and> frag_LineEnd f \<le> int (length lines)
    \<and> frag_ByteStart f = int (ByteStart (lines ! nat (frag_LineStart f - 1)))
    \<and> frag_ByteEnd f = int (ByteEnd (lines ! nat (frag_LineEnd f - 1)))
    \<and> frag_Text f = slice (nat (frag_ByteStart f)) (nat (frag_ByteEnd f)) canonical"
  using assms by (auto simp: Let_def all_LF_def split: if_splits)

lemma text_layout_loop_length:
  "text_layout_loop canonical h lines profile i pe pl fs = Inr ls \<Longrightarrow> length ls = length fs"
proof (induction fs arbitrary: i pe pl ls)
  case (Cons f fs)
  then show ?case using text_layout_loop_Cons [OF Cons.prems] by auto
qed simp

text \<open>Where the text after the segments seen so far continues.\<close>

definition next_start :: "gostring \<Rightarrow> fragment list \<Rightarrow> int" where
  "next_start canonical fs = (case fs of [] \<Rightarrow> int (length canonical) | next # _ \<Rightarrow> frag_ByteStart next)"

lemma text_layout_loop_rebuild:
  "text_layout_loop canonical h lines profile i pe pl fs = Inr ls \<Longrightarrow> 0 \<le> pe \<Longrightarrow>
     rebuild fs ls = drop (nat (next_start canonical fs)) canonical"
proof (induction fs arbitrary: i pe pl ls)
  case Nil
  then show ?case by (simp add: next_start_def)
next
  case (Cons f fs)
  from text_layout_loop_Cons [OF Cons.prems(1)] obtain l ls' where
    ls: "ls = l # ls'"
    and rec: "text_layout_loop canonical h lines profile (i + 1) (frag_ByteEnd f) (frag_LineEnd f) fs = Inr ls'"
    and gap: "tl_GapAfterBase64 l
        = b64_encode (slice (nat (frag_ByteEnd f)) (nat (next_start canonical fs)) canonical)"
    and b: "pe \<le> frag_ByteStart f" "frag_ByteStart f < frag_ByteEnd f"
      "frag_ByteEnd f \<le> next_start canonical fs" "next_start canonical fs \<le> int (length canonical)"
    and t: "frag_Text f = slice (nat (frag_ByteStart f)) (nat (frag_ByteEnd f)) canonical"
    by (auto simp: Let_def next_start_def)
  define x y z where "x = nat (frag_ByteStart f)" and "y = nat (frag_ByteEnd f)"
    and "z = nat (next_start canonical fs)"
  have o: "x \<le> y" "y \<le> z" "z \<le> length canonical" using b Cons.prems(2) by (auto simp: x_def y_def z_def)
  have IH: "rebuild fs ls' = drop z canonical"
    using Cons.IH [OF rec] b Cons.prems(2) by (simp add: z_def)
  have "rebuild (f # fs) ls = slice x y canonical @ slice y z canonical @ drop z canonical"
    using ls IH gap t by (simp add: decoded_gap_def x_def y_def z_def)
  also have "\<dots> = slice x (length canonical) canonical"
    using o by (simp add: slice_to_end [symmetric] slice_append)
  finally show ?case by (simp add: slice_to_end x_def next_start_def)
qed

text \<open>
  Accepted text layouts are complete and exact: whatever segments a caller passes, if
  \<open>NewTextFragmentLayouts\<close> accepts them, then there is one layout per segment and the segment texts
  followed by the decoded gaps of their layouts concatenate to the whole canonical text.
\<close>

theorem text_layouts_rebuild:
  assumes "NewTextFragmentLayouts hash is_nfc canonical segments profile = Inr layouts"
  shows "length layouts = length segments \<and> rebuild segments layouts = canonical"
proof (cases "canonical = [] \<or> segments = []")
  case True
  with assms show ?thesis
    by (auto simp: NewTextFragmentLayouts_def split: if_splits list.splits)
next
  case False
  then obtain f fs where fs: "segments = f # fs" by (cases segments) auto
  with assms False have z: "frag_ByteStart f = 0"
    and loop: "text_layout_loop canonical (hash canonical) (Lines canonical) profile 0 0 0 segments = Inr layouts"
    by (auto simp: NewTextFragmentLayouts_def split: if_splits)
  from text_layout_loop_rebuild [OF loop] text_layout_loop_length [OF loop] fs z show ?thesis
    by (simp add: next_start_def)
qed

subsection \<open>The extractor's own segments\<close>

lemma text_layout_loop_accepts:
  "frags_ok s m (i + 1) pos pl fs \<Longrightarrow> 0 \<le> pl \<Longrightarrow>
     \<exists>ls. text_layout_loop s h (Lines s) profile i (int pos) pl fs = Inr ls"
proof (induction fs arbitrary: i pos pl)
  case (Cons f fs)
  have f: "frag_Ordinal f = i + 1" "pl < frag_LineStart f" "frag_LineStart f \<le> frag_LineEnd f"
    "frag_LineEnd f \<le> int (length (Lines s))"
    "frag_ByteStart f = int (ByteStart (Lines s ! nat (frag_LineStart f - 1)))"
    "frag_ByteEnd f = int (ByteEnd (Lines s ! nat (frag_LineEnd f - 1)))"
    "int pos \<le> frag_ByteStart f" "frag_ByteStart f < frag_ByteEnd f" "frag_ByteEnd f \<le> int (length s)"
    "frag_Text f = slice (nat (frag_ByteStart f)) (nat (frag_ByteEnd f)) s"
    "frags_ok s m (i + 1 + 1) (nat (frag_ByteEnd f)) (frag_LineEnd f) fs"
    using Cons.prems by auto
  obtain ls where ls: "text_layout_loop s h (Lines s) profile (i + 1) (frag_ByteEnd f) (frag_LineEnd f) fs = Inr ls"
    using Cons.IH [OF f(11)] Cons.prems(2) f(2,3,7,8) by auto
  have gap: "frag_ByteEnd f \<le> next_start s fs" "next_start s fs \<le> int (length s)"
      "all_LF (slice (nat (frag_ByteEnd f)) (nat (next_start s fs)) s)"
    using f(7-9,11) by (cases fs; auto simp: next_start_def)+
  show ?case
    using f(1-10) ls gap Cons.prems(2)
    unfolding text_layout_loop.simps next_start_def Let_def all_LF_def
    by (simp del: text_layout_loop.simps)
qed simp

text \<open>What the extractor's own segmentation is worth to the layout: for a valid profile and buffer
  and a positive bound, \<open>NewTextFragmentLayouts\<close> accepts the output of \<open>Segment\<close> exactly when the
  text is empty or the first fragment starts at byte 0.
\<close>

theorem segment_layout_acceptance:
  assumes "1 \<le> m" "IsTextLayoutParserRevision profile" "canonicalTextBufferIsValid is_nfc s"
  shows "(\<exists>layouts. NewTextFragmentLayouts hash is_nfc s (Segment s m) profile = Inr layouts)
    \<longleftrightarrow> s = [] \<or> (Segment s m \<noteq> [] \<and> frag_ByteStart (Segment s m ! 0) = 0)"
proof (cases "s = []")
  case True
  with assms show ?thesis by (simp add: NewTextFragmentLayouts_def Segment_def)
next
  case False
  show ?thesis
  proof (cases "Segment s m")
    case Nil
    with False show ?thesis by (simp add: NewTextFragmentLayouts_def)
  next
    case (Cons f fs)
    have "\<exists>ls. text_layout_loop s (hash s) (Lines s) profile 0 0 0 (f # fs) = Inr ls"
    proof -
      have "frags_ok s m (0 + 1) 0 0 (f # fs)" using Segment_ok [OF assms(1), of s] Cons by (metis add_0)
      from text_layout_loop_accepts [OF this order_refl] show ?thesis by simp
    qed
    with Cons False assms show ?thesis
      by (simp add: NewTextFragmentLayouts_def del: text_layout_loop.simps)
  qed
qed

lemma utf8_ascii [simp]: "byte c < 0x80 \<Longrightarrow> valid_utf8 (c # s) \<longleftrightarrow> valid_utf8 s"
  by (simp add: valid_utf8_Cons decode_rune_unfold rune_error_def)

lemma runes_ascii [simp]: "byte c < 0x80 \<Longrightarrow> runes (c # s) = byte c # runes s"
  by (simp add: runes_Cons decode_rune_unfold)

definition example_profile :: gostring where
  "example_profile = ''text-layout-v2''"

lemma example_profile_ok: "IsTextLayoutParserRevision example_profile"
  by (simp add: IsTextLayoutParserRevision_def example_profile_def textLayoutRevisionSuffix_def
      validParserProfileRevision_def rune_count_def)

theorem segment_layout_acceptance_witness:
  "\<exists>layouts. NewTextFragmentLayouts id (\<lambda>s. True) ''ab\<newline>c'' (Segment ''ab\<newline>c'' 2) example_profile = Inr layouts"
proof -
  have "canonicalTextBufferIsValid (\<lambda>s. True) ''ab\<newline>c''"
    by (simp add: canonicalTextBufferIsValid_def CR_def BOM_def)
  moreover have "Segment ''ab\<newline>c'' 2 \<noteq> [] \<and> frag_ByteStart (Segment ''ab\<newline>c'' 2 ! 0) = 0"
    by (simp add: Segment_def segment_lines_def Lines_def LF_def Let_def segment_outer.simps segment_inner.simps)
  ultimately show ?thesis
    using segment_layout_acceptance [of 2 example_profile "\<lambda>s. True" "''ab\<newline>c''" id] example_profile_ok by simp
qed

lemma example_layouts:
  "NewTextFragmentLayouts id (\<lambda>s. True) ''ab'' (Segment ''ab'' 2) example_profile
   = Inr [\<lparr>tl_Schema = TextFragmentLayoutSchema, tl_NormalizationVersion = NormalizationVersion,
       tl_ParserProfileRevision = example_profile, tl_Ordinal = 1, tl_LineStart = 1, tl_LineEnd = 1,
       tl_CanonicalByteStart = 0, tl_CanonicalByteEnd = 2, tl_GapAfterBase64 = [],
       tl_CanonicalTotalBytes = 2, tl_CanonicalSHA256 = ''ab''\<rparr>]"
  using example_profile_ok
  by (simp add: NewTextFragmentLayouts_def canonicalTextBufferIsValid_def CR_def BOM_def Segment_def
      segment_lines_def Lines_def LF_def Let_def segment_outer.simps segment_inner.simps slice_def)

theorem text_layouts_rebuild_witness:
  "\<exists>layouts. NewTextFragmentLayouts id (\<lambda>s. True) ''ab'' (Segment ''ab'' 2) example_profile = Inr layouts
     \<and> rebuild (Segment ''ab'' 2) layouts = ''ab''"
  using example_layouts text_layouts_rebuild [OF example_layouts] by blast

text \<open>
  A text that starts with a blank line whose next line does not fit the bound is segmented, but
  its layout is refused: the blank first line is left out of the fragments, so the first
  fragment does not start at byte 0, which \<open>NewTextFragmentLayouts\<close> takes for an incomplete layout.
  Such a document can be cut into fragments and cannot be laid out.
\<close>

theorem leading_blank_line_refused:
  assumes "w \<noteq> []" "LF \<notin> set w" "1 \<le> m" "m < int (length w) + 1"
  shows "(\<exists>f. Segment (LF # w) m = [f] \<and> frag_Text f = w)
    \<and> NewTextFragmentLayouts hash is_nfc (LF # w) (Segment (LF # w) m) profile = Inl ErrTextFragmentLayout"
proof -
  have tail: "lines_from n st i w = [\<lparr>Number = n, ByteStart = st, ByteEnd = i + length w\<rparr>]" for n st i
    using assms(2) by (induction w arbitrary: i) auto
  have ls: "Lines (LF # w) = [\<lparr>Number = 1, ByteStart = 0, ByteEnd = 0\<rparr>,
      \<lparr>Number = 2, ByteStart = 1, ByteEnd = 1 + length w\<rparr>]" (is "_ = ?L")
    using tail by (simp add: Lines_def)
  have sl: "segment_lines (LF # w) = ?L" using ls assms(1) by (simp add: segment_lines_def Let_def)
  have inner: "segment_inner m ?L 0 0 = 1" "segment_inner m ?L (Suc 0) (Suc 0) = 2"
    using assms(4) by (simp_all add: segment_inner.simps Let_def)
  let ?f = "\<lparr>frag_Ordinal = 1, frag_LineStart = 2, frag_LineEnd = 2, frag_ByteStart = 1,
      frag_ByteEnd = 1 + int (length w), frag_Text = w\<rparr>"
  have "segment_outer (LF # w) m ?L n 2 = []" for n
    by (subst segment_outer.simps) simp
  then have "segment_outer (LF # w) m ?L 1 (Suc 0) = [?f]"
    using inner assms(1) by (subst segment_outer.simps) (simp add: Let_def slice_def)
  moreover have "segment_outer (LF # w) m ?L 1 0 = segment_outer (LF # w) m ?L 1 (Suc 0)"
    using inner by (subst segment_outer.simps) (simp add: Let_def)
  ultimately have seg: "Segment (LF # w) m = [?f]"
    using assms(3) by (simp add: Segment_def sl)
  then show ?thesis by (simp add: NewTextFragmentLayouts_def del: text_layout_loop.simps)
qed

theorem leading_blank_line_refused_witness:
  "NewTextFragmentLayouts id (\<lambda>s. True) (LF # ''abc'') (Segment (LF # ''abc'') 3) example_profile
     = Inl ErrTextFragmentLayout"
  using leading_blank_line_refused [of "''abc''" 3 id "\<lambda>s. True" example_profile] by (simp add: LF_def)

end
