(* ===== verification/Canon_Structural.thy ===== *)
theory Canon_Structural
  imports Canon_Layout
begin

text \<open>
  \<open>internal/source/canon/structural_layout.go\<close>: layouts of the structural units (paragraphs,
  cells, pages) an Office or PDF parser reports. The units of an object are joined by exactly one
  LF; \<open>NewStructuralFragmentLayouts\<close> checks that and records each unit's place.
\<close>

record structural_unit =
  su_Ordinal :: int
  su_Text :: gostring
  su_Anchor :: gostring

record structural_layout =
  sl_Schema :: gostring
  sl_NormalizationVersion :: gostring
  sl_ParserProfileRevision :: gostring
  sl_CanonicalFormat :: gostring
  sl_Ordinal :: int
  sl_FragmentCount :: int
  sl_CanonicalByteStart :: int
  sl_CanonicalByteEnd :: int
  sl_CanonicalTotalBytes :: int
  sl_CanonicalSHA256 :: gostring
  sl_AnchorSHA256 :: gostring

text \<open>The loop over the units with its variables \<open>i\<close> and \<open>offset\<close>; \<open>count\<close> is \<open>len(units)\<close>.\<close>

fun structural_loop :: "(gostring \<Rightarrow> gostring) \<Rightarrow> gostring \<Rightarrow> gostring \<Rightarrow> gostring \<Rightarrow> gostring \<Rightarrow> int
    \<Rightarrow> int \<Rightarrow> nat \<Rightarrow> structural_unit list \<Rightarrow> canon_error + structural_layout list" where
  "structural_loop hash canonical digest format profile count i offset [] =
    (if offset \<noteq> length canonical then Inl ErrStructuralFragmentLayout else Inr [])"
| "structural_loop hash canonical digest format profile count i offset (unit # units) =
    (if su_Ordinal unit \<noteq> i + 1 \<or> su_Text unit = [] \<or> su_Anchor unit = []
        \<or> offset > length canonical \<or> length (su_Text unit) > length canonical - offset
     then Inl ErrStructuralFragmentLayout
     else
       (let stop = offset + length (su_Text unit) in
        if slice offset stop canonical \<noteq> su_Text unit then Inl ErrStructuralFragmentLayout
        else
          (let layout = \<lparr>sl_Schema = StructuralFragmentLayoutSchema,
                 sl_NormalizationVersion = NormalizationVersion, sl_ParserProfileRevision = profile,
                 sl_CanonicalFormat = format, sl_Ordinal = i + 1, sl_FragmentCount = count,
                 sl_CanonicalByteStart = int offset, sl_CanonicalByteEnd = int stop,
                 sl_CanonicalTotalBytes = int (length canonical), sl_CanonicalSHA256 = digest,
                 sl_AnchorSHA256 = hash (su_Anchor unit)\<rparr> in
           if i + 1 < count then
             (if stop \<ge> length canonical \<or> canonical ! stop \<noteq> LF then Inl ErrStructuralFragmentLayout
              else and_then (structural_loop hash canonical digest format profile count (i + 1) (stop + 1) units)
                     (\<lambda>layouts. Inr (layout # layouts)))
           else and_then (structural_loop hash canonical digest format profile count (i + 1) stop units)
                  (\<lambda>layouts. Inr (layout # layouts)))))"

definition NewStructuralFragmentLayouts :: "(gostring \<Rightarrow> gostring) \<Rightarrow> (gostring \<Rightarrow> bool) \<Rightarrow> gostring
    \<Rightarrow> structural_unit list \<Rightarrow> gostring \<Rightarrow> gostring \<Rightarrow> canon_error + structural_layout list" where
  "NewStructuralFragmentLayouts hash is_nfc canonical units format profile =
    (if \<not> IsStructuralLayoutFormat format \<or> \<not> IsStructuralLayoutParserRevision profile
        \<or> \<not> canonicalTextBufferIsValid is_nfc canonical \<or> canonical = [] \<or> units = []
     then Inl ErrStructuralFragmentLayout
     else structural_loop hash canonical (hash canonical) format profile (int (length units)) 0 0 units)"

section \<open>Acceptance is exactly joining by LF\<close>

definition units_from :: "int \<Rightarrow> structural_unit list \<Rightarrow> bool" where
  "units_from i units \<longleftrightarrow> map su_Ordinal units = map (\<lambda>k. i + 1 + int k) [0..<length units]
     \<and> list_all (\<lambda>u. su_Text u \<noteq> [] \<and> su_Anchor u \<noteq> []) units"

lemma units_from_Cons:
  "units_from i (u # us) \<longleftrightarrow> su_Ordinal u = i + 1 \<and> su_Text u \<noteq> [] \<and> su_Anchor u \<noteq> [] \<and> units_from (i + 1) us"
proof -
  have "map (\<lambda>k. i + 1 + int k) [0..<Suc n] = (i + 1) # map (\<lambda>k. i + 1 + 1 + int k) [0..<n]" for n
    by (induction n) auto
  then show ?thesis by (auto simp: units_from_def simp del: upt_Suc)
qed

text \<open>The layouts an accepted list of units gets, given where each starts.\<close>

fun structural_layouts_at :: "(gostring \<Rightarrow> gostring) \<Rightarrow> gostring \<Rightarrow> gostring \<Rightarrow> gostring \<Rightarrow> gostring \<Rightarrow> int
    \<Rightarrow> int \<Rightarrow> nat \<Rightarrow> structural_unit list \<Rightarrow> structural_layout list" where
  "structural_layouts_at hash canonical digest format profile count i offset [] = []"
| "structural_layouts_at hash canonical digest format profile count i offset (u # us) =
     \<lparr>sl_Schema = StructuralFragmentLayoutSchema, sl_NormalizationVersion = NormalizationVersion,
      sl_ParserProfileRevision = profile, sl_CanonicalFormat = format, sl_Ordinal = i + 1,
      sl_FragmentCount = count, sl_CanonicalByteStart = int offset,
      sl_CanonicalByteEnd = int (offset + length (su_Text u)),
      sl_CanonicalTotalBytes = int (length canonical), sl_CanonicalSHA256 = digest,
      sl_AnchorSHA256 = hash (su_Anchor u)\<rparr>
     # structural_layouts_at hash canonical digest format profile count (i + 1)
         (offset + length (su_Text u) + 1) us"

lemma slice_prefix_drop:
  "slice a (a + length t) s = t \<longleftrightarrow> (\<exists>r. drop a s = t @ r)"
proof
  assume "slice a (a + length t) s = t"
  then have "drop a s = t @ drop (length t) (drop a s)"
    by (metis add_diff_cancel_left' append_take_drop_id slice_def)
  then show "\<exists>r. drop a s = t @ r" by blast
qed (auto simp: slice_def)

lemma structural_loop_iff:
  "offset \<le> length s \<Longrightarrow> units \<noteq> [] \<Longrightarrow> count = i + int (length units) \<Longrightarrow>
     structural_loop hash s digest format profile count i offset units =
       (if units_from i units \<and> drop offset s = join_with [LF] (map su_Text units)
        then Inr (structural_layouts_at hash s digest format profile count i offset units)
        else Inl ErrStructuralFragmentLayout)"
proof (induction units arbitrary: i offset)
  case Nil
  then show ?case by simp
next
  case (Cons u us)
  let ?stop = "offset + length (su_Text u)"
  define ok where "ok \<longleftrightarrow> su_Ordinal u = i + 1 \<and> su_Text u \<noteq> [] \<and> su_Anchor u \<noteq> []
     \<and> (\<exists>r. drop offset s = su_Text u @ r)"
  have okE: "?stop \<le> length s" if "drop offset s = su_Text u @ r" for r
    using arg_cong [OF that, of length] Cons.prems(1) by simp
  show ?case
  proof (cases ok)
    case False
    have "structural_loop hash s digest format profile count i offset (u # us) = Inl ErrStructuralFragmentLayout"
      using False Cons.prems(1) unfolding ok_def slice_prefix_drop [symmetric] by (auto simp: Let_def)
    moreover have "\<not> (units_from i (u # us) \<and> drop offset s = join_with [LF] (map su_Text (u # us)))"
      using False unfolding ok_def by (cases us) (auto simp: units_from_Cons)
    ultimately show ?thesis by (simp del: structural_loop.simps)
  next
    case True
    then obtain r where r: "drop offset s = su_Text u @ r"
      and o: "su_Ordinal u = i + 1" "su_Text u \<noteq> []" "su_Anchor u \<noteq> []" by (auto simp: ok_def)
    have stop: "?stop \<le> length s" "drop ?stop s = r" "slice offset ?stop s = su_Text u"
      using okE [OF r] r slice_prefix_drop [of offset "su_Text u" s]
      by (auto simp: drop_drop [symmetric] add.commute [of offset])
    show ?thesis
    proof (cases us)
      case Nil
      then show ?thesis using o stop r Cons.prems
        by (auto simp: Let_def units_from_Cons units_from_def)
    next
      case (Cons u' us')
      then have lt: "i + 1 < count" using Cons.prems(3) by simp
      show ?thesis
      proof (cases "\<exists>q. r = LF # q")
        case False
        then have "?stop \<ge> length s \<or> s ! ?stop \<noteq> LF"
          using stop(2) by (metis Cons_nth_drop_Suc not_le)
        moreover have "r \<noteq> [LF] @ x" for x using False by simp
        ultimately show ?thesis using o stop r lt Cons Cons.prems
          by (auto simp: Let_def units_from_Cons)
      next
        case True
        then obtain q where q: "r = LF # q" ..
        then have at: "?stop < length s" "s ! ?stop = LF" "drop (?stop + 1) s = q"
          using stop(1,2) by (metis drop_all leI list.discI, metis hd_drop_conv_nth drop_all leI
              list.discI list.sel(1), metis Suc_eq_plus1 drop_Suc list.sel(3) tl_drop)
        have "structural_loop hash s digest format profile count (i + 1) (?stop + 1) us =
            (if units_from (i + 1) us \<and> q = join_with [LF] (map su_Text us)
             then Inr (structural_layouts_at hash s digest format profile count (i + 1) (?stop + 1) us)
             else Inl ErrStructuralFragmentLayout)"
          using Cons.IH [of "?stop + 1" "i + 1"] at Cons Cons.prems by simp
        then show ?thesis using o stop r q at lt Cons
          by (auto simp: Let_def units_from_Cons simp del: structural_loop.simps(2)
              simp: structural_loop.simps(2) [of hash s digest format profile count i offset u])
      qed
    qed
  qed
qed

text \<open>
  Structural layouts are accepted exactly for the LF-joined object: for an admitted format,
  profile and buffer, \<open>NewStructuralFragmentLayouts\<close> succeeds iff the units are numbered from 1, none
  has an empty text or anchor, and the canonical text is their texts joined by single line feeds;
  the layouts it then returns place every unit at its own bytes.
\<close>

theorem structural_layouts_exact:
  assumes "IsStructuralLayoutFormat format" "IsStructuralLayoutParserRevision profile"
    and "canonicalTextBufferIsValid is_nfc s" "s \<noteq> []" "units \<noteq> []"
  shows "NewStructuralFragmentLayouts hash is_nfc s units format profile =
     (if units_from 0 units \<and> s = join_with [LF] (map su_Text units)
      then Inr (structural_layouts_at hash s (hash s) format profile (int (length units)) 0 0 units)
      else Inl ErrStructuralFragmentLayout)"
  using assms structural_loop_iff [of 0 s units "int (length units)" 0 hash "hash s" format profile]
  by (simp add: NewStructuralFragmentLayouts_def)

definition example_structural_profile :: gostring where
  "example_structural_profile = ''pdf-struct-layout-v1''"

lemma example_structural_profile_ok: "IsStructuralLayoutParserRevision example_structural_profile"
  by (simp add: IsStructuralLayoutParserRevision_def example_structural_profile_def
      structuralLayoutRevisionSuffix_def validParserProfileRevision_def rune_count_def)

theorem structural_layouts_exact_witness:
  "NewStructuralFragmentLayouts id (\<lambda>s. True) ''a\<newline>b''
     [\<lparr>su_Ordinal = 1, su_Text = ''a'', su_Anchor = ''x''\<rparr>, \<lparr>su_Ordinal = 2, su_Text = ''b'', su_Anchor = ''y''\<rparr>]
     ''PDF'' example_structural_profile
   = Inr (structural_layouts_at id ''a\<newline>b'' ''a\<newline>b'' ''PDF'' example_structural_profile 2 0 0
     [\<lparr>su_Ordinal = 1, su_Text = ''a'', su_Anchor = ''x''\<rparr>, \<lparr>su_Ordinal = 2, su_Text = ''b'', su_Anchor = ''y''\<rparr>])"
  by (subst structural_layouts_exact)
     (simp_all add: example_structural_profile_ok IsStructuralLayoutFormat_def
        canonicalTextBufferIsValid_def CR_def BOM_def LF_def units_from_Cons units_from_def)

end
