(* ===== verification/Whole_Text.thy ===== *)
theory Whole_Text
  imports Canon_Structural
begin

text \<open>
  \<open>internal/source/evidence/viewer_layout.go\<close> and \<open>viewer_structural_layout.go\<close>: the reader that
  assembles a whole object from its stored fragments and releases it only when layouts, anchors,
  lengths and the digest of the complete buffer agree. What the reader takes from elsewhere is the
  record \<open>codec\<close> (the digest, NFC, the strict JSON decoders of the two layout records, the canonical
  TEXT anchor) and the argument \<open>fetch\<close> (the authorized artifact read and decryption). The main
  result is the round trip with the extractor: what \<open>NewTextFragmentLayouts\<close> laid out, the reader
  gives back byte for byte.
\<close>

datatype evidence_error = ErrNotFound | IndexPanic | FetchFailed

datatype representation = LegacyFragmentConcatV1 | CanonicalTextV1LayoutV2 | CanonicalStructuralTextV1

datatype owner_field = EvidenceNormalizedText | EvidenceMetadata | EvidenceAnchor

record codec =
  cd_Hash :: "gostring \<Rightarrow> gostring"
  cd_NFC :: "gostring \<Rightarrow> gostring"
  cd_TextLayout :: "gostring \<Rightarrow> text_layout option"
  cd_StructuralLayout :: "gostring \<Rightarrow> (gostring \<times> structural_layout) option"
  cd_TextAnchor :: "int \<Rightarrow> int \<Rightarrow> gostring"

record ordered_fragment =
  of_id :: gostring
  of_ordinal :: int

record fragment_span =
  sp_FragmentID :: gostring
  sp_Ordinal :: int
  sp_Offset :: int
  sp_Length :: int

record assembler =
  as_profile :: gostring
  as_requireLayout :: bool
  as_text :: gostring
  as_spans :: "fragment_span list"
  as_layouts :: "text_layout list"
  as_canonicalFormat :: gostring
  as_requireStructuralLayout :: bool
  as_structuralLayouts :: "structural_layout list"

definition newWholeTextAssembler :: "gostring \<Rightarrow> gostring \<Rightarrow> assembler" where
  "newWholeTextAssembler canonicalFormat profile =
    \<lparr>as_profile = profile,
     as_requireLayout = (canonicalFormat = ''TEXT'' \<and> IsTextLayoutParserRevision profile),
     as_text = [], as_spans = [], as_layouts = [], as_canonicalFormat = canonicalFormat,
     as_requireStructuralLayout =
       (IsStructuralLayoutFormat canonicalFormat \<and> IsStructuralLayoutParserRevision profile),
     as_structuralLayouts = []\<rparr>"

text \<open>\<open>structuralGap\<close>: the two decodings of the metadata are \<open>cd_StructuralLayout\<close>, which gives the
  outer profile and the nested layout with its eleven members.\<close>

definition structuralGap :: "codec \<Rightarrow> assembler \<Rightarrow> ordered_fragment \<Rightarrow> fragment_span \<Rightarrow> gostring \<Rightarrow> gostring
    \<Rightarrow> evidence_error + (gostring \<times> assembler)" where
  "structuralGap c assembly item span metadata anchor =
    (case cd_StructuralLayout c metadata of
       None \<Rightarrow> Inl ErrNotFound
     | Some (profile, layout) \<Rightarrow>
         if profile \<noteq> as_profile assembly then Inl ErrNotFound
         else if sl_Schema layout \<noteq> StructuralFragmentLayoutSchema
            \<or> sl_NormalizationVersion layout \<noteq> NormalizationVersion
            \<or> sl_ParserProfileRevision layout \<noteq> as_profile assembly
            \<or> sl_CanonicalFormat layout \<noteq> as_canonicalFormat assembly
            \<or> sl_Ordinal layout \<noteq> of_ordinal item
            \<or> sl_FragmentCount layout < sl_Ordinal layout
            \<or> sl_CanonicalByteStart layout \<noteq> sp_Offset span
            \<or> sl_CanonicalByteEnd layout \<le> sl_CanonicalByteStart layout
            \<or> sl_CanonicalByteEnd layout - sl_CanonicalByteStart layout \<noteq> sp_Length span
            \<or> sl_CanonicalTotalBytes layout < sl_CanonicalByteEnd layout
            \<or> anchor = [] \<or> cd_Hash c anchor \<noteq> sl_AnchorSHA256 layout
         then Inl ErrNotFound
         else if (case as_structuralLayouts assembly of [] \<Rightarrow> False
                  | first # _ \<Rightarrow> sl_FragmentCount layout \<noteq> sl_FragmentCount first
                      \<or> sl_CanonicalTotalBytes layout \<noteq> sl_CanonicalTotalBytes first
                      \<or> sl_CanonicalSHA256 layout \<noteq> sl_CanonicalSHA256 first)
         then Inl ErrNotFound
         else
           (let done = assembly\<lparr>as_structuralLayouts := as_structuralLayouts assembly @ [layout]\<rparr> in
            if sl_Ordinal layout < sl_FragmentCount layout then
              (if sl_CanonicalByteEnd layout \<ge> sl_CanonicalTotalBytes layout then Inl ErrNotFound
               else Inr ([LF], done))
            else if sl_CanonicalByteEnd layout \<noteq> sl_CanonicalTotalBytes layout then Inl ErrNotFound
            else Inr ([], done)))"

text \<open>The part of \<open>append\<close> under \<open>requireLayout\<close>.\<close>

definition textGap :: "codec \<Rightarrow> assembler \<Rightarrow> ordered_fragment \<Rightarrow> fragment_span \<Rightarrow> gostring \<Rightarrow> gostring
    \<Rightarrow> evidence_error + (gostring \<times> assembler)" where
  "textGap c assembly item span metadata anchor =
    (case cd_TextLayout c metadata of
       None \<Rightarrow> Inl ErrNotFound
     | Some layout \<Rightarrow>
         if tl_Schema layout \<noteq> ''text-fragment-layout-v2''
            \<or> tl_NormalizationVersion layout \<noteq> NormalizationVersion
            \<or> tl_ParserProfileRevision layout \<noteq> as_profile assembly
            \<or> tl_Ordinal layout \<noteq> of_ordinal item
            \<or> tl_LineStart layout < 1 \<or> tl_LineEnd layout < tl_LineStart layout
            \<or> tl_CanonicalByteStart layout \<noteq> sp_Offset span
            \<or> tl_CanonicalByteEnd layout < tl_CanonicalByteStart layout
            \<or> tl_CanonicalByteEnd layout - tl_CanonicalByteStart layout \<noteq> sp_Length span
            \<or> tl_CanonicalTotalBytes layout < tl_CanonicalByteEnd layout
         then Inl ErrNotFound
         else if (case as_layouts assembly of [] \<Rightarrow> False
                  | first # _ \<Rightarrow> tl_CanonicalTotalBytes layout \<noteq> tl_CanonicalTotalBytes first
                      \<or> tl_CanonicalSHA256 layout \<noteq> tl_CanonicalSHA256 first)
         then Inl ErrNotFound
         else
           (case b64_decode (tl_GapAfterBase64 layout) of
              None \<Rightarrow> Inl ErrNotFound
            | Some gap \<Rightarrow>
                if b64_encode gap \<noteq> tl_GapAfterBase64 layout
                   \<or> int (length gap) > tl_CanonicalTotalBytes layout - tl_CanonicalByteEnd layout
                then Inl ErrNotFound
                else if \<not> list_all (\<lambda>value. value = LF) gap then Inl ErrNotFound
                else if anchor \<noteq> cd_TextAnchor c (tl_LineStart layout) (tl_LineEnd layout)
                then Inl ErrNotFound
                else Inr (gap, assembly\<lparr>as_layouts := as_layouts assembly @ [layout]\<rparr>)))"

definition appendFragment :: "codec \<Rightarrow> assembler \<Rightarrow> ordered_fragment \<Rightarrow> gostring \<Rightarrow> gostring \<Rightarrow> gostring
    \<Rightarrow> evidence_error + assembler" where
  "appendFragment c assembly item t metadata anchor =
    (if of_id item = [] \<or> of_ordinal item \<noteq> int (length (as_spans assembly)) + 1 \<or> \<not> valid_utf8 t
     then Inl ErrNotFound
     else
       (let span = \<lparr>sp_FragmentID = of_id item, sp_Ordinal = of_ordinal item,
              sp_Offset = int (length (as_text assembly)), sp_Length = int (length t)\<rparr> in
        and_then
          (if as_requireStructuralLayout assembly then structuralGap c assembly item span metadata anchor
           else Inr ([], assembly))
          (\<lambda>(gap0, assembly1).
             and_then
               (if as_requireLayout assembly1 then textGap c assembly1 item span metadata anchor
                else Inr (gap0, assembly1))
               (\<lambda>(gap, assembly2).
                  Inr (assembly2\<lparr>as_spans := as_spans assembly2 @ [span],
                                 as_text := as_text assembly2 @ t @ gap\<rparr>)))))"

definition finishStructural :: "codec \<Rightarrow> assembler
    \<Rightarrow> evidence_error + (gostring \<times> fragment_span list \<times> representation)" where
  "finishStructural c assembly =
    (if length (as_structuralLayouts assembly) \<noteq> length (as_spans assembly) then Inl ErrNotFound
     else case as_structuralLayouts assembly of
            [] \<Rightarrow> Inl ErrNotFound
          | first # _ \<Rightarrow>
              if int (length (as_spans assembly)) \<noteq> sl_FragmentCount first
                 \<or> int (length (as_text assembly)) \<noteq> sl_CanonicalTotalBytes first
                 \<or> cd_Hash c (as_text assembly) \<noteq> sl_CanonicalSHA256 first
              then Inl ErrNotFound
              else if Canonicalize (cd_NFC c) (as_text assembly) \<noteq> Inr (as_text assembly)
              then Inl ErrNotFound
              else Inr (as_text assembly, as_spans assembly, CanonicalStructuralTextV1))"

text \<open>The last loop of \<open>finish\<close>, over the layouts with the spans read at the same index.\<close>

fun finish_loop :: "line list \<Rightarrow> text_layout list \<Rightarrow> fragment_span list \<Rightarrow> evidence_error + unit" where
  "finish_loop lines [] spans = Inr ()"
| "finish_loop lines (layout # layouts) spans =
    (if tl_LineEnd layout > int (length lines)
        \<or> int (ByteStart (lines ! nat (tl_LineStart layout - 1))) \<noteq> tl_CanonicalByteStart layout
        \<or> int (ByteEnd (lines ! nat (tl_LineEnd layout - 1))) \<noteq> tl_CanonicalByteEnd layout
     then Inl ErrNotFound
     else case spans of
            [] \<Rightarrow> Inl IndexPanic
          | span # spans \<Rightarrow>
              if sp_Offset span \<noteq> tl_CanonicalByteStart layout then Inl ErrNotFound
              else finish_loop lines layouts spans)"

definition finish :: "codec \<Rightarrow> assembler
    \<Rightarrow> evidence_error + (gostring \<times> fragment_span list \<times> representation)" where
  "finish c assembly =
    (if as_spans assembly = [] then Inl ErrNotFound
     else if as_requireStructuralLayout assembly then finishStructural c assembly
     else if \<not> as_requireLayout assembly
     then Inr (as_text assembly, as_spans assembly, LegacyFragmentConcatV1)
     else case as_layouts assembly of
            [] \<Rightarrow> Inl IndexPanic
          | first # _ \<Rightarrow>
              if int (length (as_text assembly)) \<noteq> tl_CanonicalTotalBytes first
                 \<or> cd_Hash c (as_text assembly) \<noteq> tl_CanonicalSHA256 first
              then Inl ErrNotFound
              else if Canonicalize (cd_NFC c) (as_text assembly) \<noteq> Inr (as_text assembly)
              then Inl ErrNotFound
              else and_then (finish_loop (Lines (as_text assembly)) (as_layouts assembly) (as_spans assembly))
                     (\<lambda>_. Inr (as_text assembly, as_spans assembly, CanonicalTextV1LayoutV2)))"

record whole_object =
  wo_FragmentID :: gostring
  wo_FragmentText :: gostring
  wo_CanonicalFormat :: gostring
  wo_ParserProfileRevision :: gostring
  wo_Text :: gostring
  wo_Fragments :: "fragment_span list"
  wo_Representation :: representation
  wo_FragmentCount :: int
  wo_FirstOrdinal :: int
  wo_LastOrdinal :: int

text \<open>The loop of \<open>readWholeFragmentsInTransaction\<close> over the ordered fragments; its state is the
  assembler and \<open>anchorFound\<close>.\<close>

fun readLoop :: "codec \<Rightarrow> (owner_field \<Rightarrow> gostring \<Rightarrow> evidence_error + gostring) \<Rightarrow> whole_object
    \<Rightarrow> assembler \<Rightarrow> bool \<Rightarrow> ordered_fragment list \<Rightarrow> evidence_error + (assembler \<times> bool)" where
  "readLoop c fetch result assembly anchorFound [] = Inr (assembly, anchorFound)"
| "readLoop c fetch result assembly anchorFound (item # items) =
    and_then (fetch EvidenceNormalizedText (of_id item)) (\<lambda>t.
    and_then
      (if as_requireLayout assembly \<or> as_requireStructuralLayout assembly then
         and_then (fetch EvidenceMetadata (of_id item)) (\<lambda>metadata.
         and_then (fetch EvidenceAnchor (of_id item)) (\<lambda>anchor. Inr (metadata, anchor)))
       else Inr ([], [])) (\<lambda>(metadata, anchor).
    and_then (appendFragment c assembly item t metadata anchor) (\<lambda>assembly.
      if of_id item = wo_FragmentID result then
        (if t \<noteq> wo_FragmentText result then Inl ErrNotFound
         else readLoop c fetch result assembly True items)
      else readLoop c fetch result assembly anchorFound items)))"

definition readWholeFragments :: "codec \<Rightarrow> (owner_field \<Rightarrow> gostring \<Rightarrow> evidence_error + gostring)
    \<Rightarrow> whole_object \<Rightarrow> ordered_fragment list \<Rightarrow> evidence_error + whole_object" where
  "readWholeFragments c fetch result ordered =
    and_then (readLoop c fetch result
        (newWholeTextAssembler (wo_CanonicalFormat result) (wo_ParserProfileRevision result)) False ordered)
      (\<lambda>(assembly, anchorFound).
         if \<not> anchorFound then Inl ErrNotFound
         else and_then (finish c assembly) (\<lambda>(t, spans, rep).
           (case spans of
              [] \<Rightarrow> Inl IndexPanic
            | _ # _ \<Rightarrow>
                Inr (result\<lparr>wo_Text := t, wo_Fragments := spans, wo_Representation := rep,
                  wo_FragmentCount := int (length spans), wo_FirstOrdinal := sp_Ordinal (hd spans),
                  wo_LastOrdinal := sp_Ordinal (last spans)\<rparr>))))"

section \<open>The reader inverts the text layout\<close>

subsection \<open>Line ranges of valid text are valid text\<close>

lemma LF_rune_start: "rune_start LF" "byte LF < 0x80"
  by (simp_all add: LF_def rune_start_def is_cont_def)

lemma valid_take_line_end:
  assumes "valid_utf8 s" "j < length (Lines s)"
  shows "valid_utf8 (take (ByteEnd (Lines s ! j)) s) \<and> valid_utf8 (drop (ByteEnd (Lines s ! j)) s)"
proof -
  let ?e = "ByteEnd (Lines s ! j)"
  have "drop ?e s = [] \<or> hd (drop ?e s) = LF"
  proof (cases "Suc j = length (Lines s)")
    case True
    then show ?thesis using ln.bounds [of j s] assms(2) by simp
  next
    case False
    then have "?e < length s \<and> s ! ?e = LF" using ln.bounds [of j s] assms(2) by auto
    then show ?thesis by (simp add: hd_drop_conv_nth)
  qed
  then show ?thesis
    using valid_utf8_split [of "take ?e s" "drop ?e s"] assms(1) LF_rune_start by auto
qed

lemma valid_line_range:
  assumes "valid_utf8 s" "i \<le> j" "j < length (Lines s)"
  shows "valid_utf8 (slice (ByteStart (Lines s ! i)) (ByteEnd (Lines s ! j)) s)"
proof -
  define b e where "b = ByteStart (Lines s ! i)" and "e = ByteEnd (Lines s ! j)"
  have te: "valid_utf8 (take e s)" using valid_take_line_end assms by (simp add: e_def)
  have bounds: "b \<le> e" "e \<le> length s"
    using ln.bounds [of i s] ln.ends_mono [of i j s] ln.bounds [of j s] assms by (auto simp: b_def e_def)
  have sl: "slice b e s = drop b (take e s)" by (simp add: slice_def drop_take)
  show ?thesis
  proof (cases i)
    case 0
    then have "b = 0" using line_chain_start [OF ln.chain, of s] by (simp add: b_def)
    with te sl show ?thesis by (simp add: b_def e_def)
  next
    case (Suc k)
    define p where "p = ByteEnd (Lines s ! k)"
    have p: "b = Suc p" "p < length s" "s ! p = LF"
      using ln.bounds [of k s] assms Suc by (auto simp: b_def p_def)
    have "drop p (take e s) = LF # drop b (take e s)"
      using p bounds by (metis Cons_nth_drop_Suc Suc_le_lessD length_take min.absorb2 nth_take)
    moreover have "valid_utf8 (drop p (take e s))"
      using valid_utf8_split [of "take p (take e s)" "drop p (take e s)"] te calculation LF_rune_start(1)
      unfolding append_take_drop_id by simp
    ultimately show ?thesis using sl LF_rune_start by (simp add: b_def e_def)
  qed
qed

subsection \<open>What is stored, and what the reader returns\<close>

text \<open>The rows of a laid out object: each fragment with its text, its layout record and its
  canonical line anchor, under its id.\<close>

fun stored :: "codec \<Rightarrow> (owner_field \<Rightarrow> gostring \<Rightarrow> evidence_error + gostring) \<Rightarrow> gostring list
    \<Rightarrow> fragment list \<Rightarrow> text_layout list \<Rightarrow> bool" where
  "stored c fetch [] [] [] = True"
| "stored c fetch (x # ids) (f # fs) (l # ls) \<longleftrightarrow> x \<noteq> []
     \<and> fetch EvidenceNormalizedText x = Inr (frag_Text f)
     \<and> (case fetch EvidenceMetadata x of Inl e \<Rightarrow> False | Inr m \<Rightarrow> cd_TextLayout c m = Some l)
     \<and> fetch EvidenceAnchor x = Inr (cd_TextAnchor c (tl_LineStart l) (tl_LineEnd l))
     \<and> stored c fetch ids fs ls"
| "stored c fetch _ _ _ = False"

fun ordered_from :: "int \<Rightarrow> gostring list \<Rightarrow> ordered_fragment list" where
  "ordered_from i [] = []"
| "ordered_from i (x # ids) = \<lparr>of_id = x, of_ordinal = i\<rparr> # ordered_from (i + 1) ids"

fun text_spans :: "int \<Rightarrow> gostring list \<Rightarrow> fragment list \<Rightarrow> fragment_span list" where
  "text_spans i (x # ids) (f # fs) =
    \<lparr>sp_FragmentID = x, sp_Ordinal = i, sp_Offset = frag_ByteStart f,
     sp_Length = frag_ByteEnd f - frag_ByteStart f\<rparr> # text_spans (i + 1) ids fs"
| "text_spans i _ _ = []"

lemma append_text_step:
  assumes "text_layout_loop s h (Lines s) profile i pe pl (f # fs) = Inr (l # ls)" and "0 \<le> pe"
    and "valid_utf8 s" and "x \<noteq> []"
    and "as_requireLayout a" "\<not> as_requireStructuralLayout a" "as_profile a = profile"
    and "as_text a = take (nat (frag_ByteStart f)) s" "int (length (as_spans a)) = i"
    and "\<forall>l\<in>set (as_layouts a). tl_CanonicalTotalBytes l = int (length s) \<and> tl_CanonicalSHA256 l = h"
    and "cd_TextLayout c m = Some l"
  shows "appendFragment c a \<lparr>of_id = x, of_ordinal = i + 1\<rparr> (frag_Text f) m
        (cd_TextAnchor c (tl_LineStart l) (tl_LineEnd l))
      = Inr (a\<lparr>as_text := take (nat (next_start s fs)) s,
          as_spans := as_spans a @ [\<lparr>sp_FragmentID = x, sp_Ordinal = i + 1, sp_Offset = frag_ByteStart f,
             sp_Length = frag_ByteEnd f - frag_ByteStart f\<rparr>],
          as_layouts := as_layouts a @ [l]\<rparr>)"
proof -
  define b e n where "b = nat (frag_ByteStart f)" and "e = nat (frag_ByteEnd f)"
    and "n = nat (next_start s fs)"
  from text_layout_loop_Cons [OF assms(1)] have
    l: "tl_CanonicalByteStart l = frag_ByteStart f" "tl_CanonicalByteEnd l = frag_ByteEnd f"
      "tl_LineStart l = frag_LineStart f" "tl_LineEnd l = frag_LineEnd f" "tl_Ordinal l = i + 1"
      "tl_CanonicalTotalBytes l = int (length s)" "tl_CanonicalSHA256 l = h"
      "tl_Schema l = TextFragmentLayoutSchema" "tl_NormalizationVersion l = NormalizationVersion"
      "tl_ParserProfileRevision l = profile" "tl_GapAfterBase64 l = b64_encode (slice e n s)"
    and LFs: "all_LF (slice e n s)"
    and o: "pe \<le> frag_ByteStart f" "frag_ByteStart f < frag_ByteEnd f"
      "frag_ByteEnd f \<le> next_start s fs" "next_start s fs \<le> int (length s)"
    and r: "1 \<le> frag_LineStart f" "frag_LineStart f \<le> frag_LineEnd f"
      "frag_LineEnd f \<le> int (length (Lines s))"
      "frag_ByteStart f = int (ByteStart (Lines s ! nat (frag_LineStart f - 1)))"
      "frag_ByteEnd f = int (ByteEnd (Lines s ! nat (frag_LineEnd f - 1)))"
    and t: "frag_Text f = slice b e s"
    by (auto simp: Let_def next_start_def b_def e_def n_def)
  have ben: "b \<le> e" "e \<le> n" "n \<le> length s" "int b = frag_ByteStart f" "int e = frag_ByteEnd f"
    using o assms(2) by (auto simp: b_def e_def n_def)
  have "valid_utf8 (slice b e s)"
    using valid_line_range [OF assms(3), of "nat (frag_LineStart f - 1)" "nat (frag_LineEnd f - 1)"] r
    by (simp add: b_def e_def)
  moreover have "take b s @ slice b e s @ slice e n s = take n s"
    using slice_append [of 0 b e s] slice_append [of 0 e n s] ben
    by (metis append.assoc drop0 diff_zero le0 order_trans slice_def)
  moreover have "length (slice e n s) = n - e" using ben by simp
  moreover have "list_all (\<lambda>value. value = LF) (slice e n s)" using LFs by (simp add: all_LF_def)
  moreover have "(case as_layouts a of [] \<Rightarrow> False | first # _ \<Rightarrow>
      tl_CanonicalTotalBytes l \<noteq> tl_CanonicalTotalBytes first
      \<or> tl_CanonicalSHA256 l \<noteq> tl_CanonicalSHA256 first) = False"
    using assms(10) l(6,7) by (cases "as_layouts a") auto
  ultimately show ?thesis
    using assms(4-9,11) l r(1-3) o ben t
    by (simp add: appendFragment_def textGap_def Let_def TextFragmentLayoutSchema_def
        b_def [symmetric] n_def [symmetric])
qed

lemma readLoop_text:
  assumes "text_layout_loop s h (Lines s) profile i pe pl fs = Inr ls" and "0 \<le> pe"
    and "stored c fetch ids fs ls" and "valid_utf8 s"
    and "as_requireLayout a" "\<not> as_requireStructuralLayout a" "as_profile a = profile"
    and "as_text a = take (nat (next_start s fs)) s" "int (length (as_spans a)) = i"
    and "\<forall>l\<in>set (as_layouts a). tl_CanonicalTotalBytes l = int (length s) \<and> tl_CanonicalSHA256 l = h"
    and "fetch EvidenceNormalizedText (wo_FragmentID r) = Inr (wo_FragmentText r)"
  shows "readLoop c fetch r a found (ordered_from (i + 1) ids)
      = Inr (a\<lparr>as_text := s, as_spans := as_spans a @ text_spans (i + 1) ids fs,
               as_layouts := as_layouts a @ ls\<rparr>, found \<or> wo_FragmentID r \<in> set ids)"
  using assms
proof (induction fs arbitrary: i pe pl ls ids a found)
  case Nil
  then show ?case by (cases ids) (auto simp: next_start_def)
next
  case (Cons f fs)
  then obtain x ids' l ls' where e: "ids = x # ids'" "ls = l # ls'"
    by (cases ids; cases ls) auto
  note loop = Cons.prems(1) [unfolded e]
  from text_layout_loop_Cons [OF loop]
  have rec: "text_layout_loop s h (Lines s) profile (i + 1) (frag_ByteEnd f) (frag_LineEnd f) fs = Inr ls'"
    and l: "tl_CanonicalTotalBytes l = int (length s)" "tl_CanonicalSHA256 l = h"
    and pe: "0 \<le> frag_ByteEnd f" using Cons.prems(2) by auto
  obtain m where st: "x \<noteq> []" "fetch EvidenceNormalizedText x = Inr (frag_Text f)"
      "fetch EvidenceMetadata x = Inr m" "cd_TextLayout c m = Some l"
      "fetch EvidenceAnchor x = Inr (cd_TextAnchor c (tl_LineStart l) (tl_LineEnd l))"
      "stored c fetch ids' fs ls'"
    using Cons.prems(3) e by (auto split: sum.splits)
  have "as_text a = take (nat (frag_ByteStart f)) s" using Cons.prems(8) by (simp add: next_start_def)
  note step = append_text_step [OF loop Cons.prems(2,4) st(1) Cons.prems(5-7) this Cons.prems(9,10) st(4)]
  define a' where "a' = a\<lparr>as_text := take (nat (next_start s fs)) s,
          as_spans := as_spans a @ [\<lparr>sp_FragmentID = x, sp_Ordinal = i + 1, sp_Offset = frag_ByteStart f,
             sp_Length = frag_ByteEnd f - frag_ByteStart f\<rparr>],
          as_layouts := as_layouts a @ [l]\<rparr>"
  have IH: "readLoop c fetch r a' found' (ordered_from (i + 1 + 1) ids')
      = Inr (a'\<lparr>as_text := s, as_spans := as_spans a' @ text_spans (i + 1 + 1) ids' fs,
               as_layouts := as_layouts a' @ ls'\<rparr>, found' \<or> wo_FragmentID r \<in> set ids')" for found'
    by (rule Cons.IH [OF rec pe st(6) Cons.prems(4)]) (use Cons.prems(5-11) l in \<open>auto simp: a'_def\<close>)
  have req: "as_requireLayout a \<or> as_requireStructuralLayout a" using Cons.prems(5) by simp
  show ?case
    unfolding e ordered_from.simps readLoop.simps text_spans.simps
    using st(2,3,5) step [folded a'_def] req IH [of True] IH [of found] Cons.prems(11)
    by (auto simp: a'_def add.assoc)
qed

lemma finish_loop_text:
  "text_layout_loop s h (Lines s) profile i pe pl fs = Inr ls \<Longrightarrow> stored c fetch ids fs ls \<Longrightarrow>
     finish_loop (Lines s) ls (text_spans j ids fs) = Inr ()"
proof (induction fs arbitrary: i pe pl ls ids j)
  case Nil
  then show ?case by simp
next
  case (Cons f fs)
  then obtain x ids' l ls' where e: "ids = x # ids'" "ls = l # ls'"
    by (cases ids; cases ls) auto
  from text_layout_loop_Cons [OF Cons.prems(1) [unfolded e]] Cons.prems(2) e
  show ?case using Cons.IH by auto
qed

subsection \<open>The round trip\<close>

lemma stored_nonempty: "stored c fetch ids fs ls \<Longrightarrow> length ids = length fs \<and> length ls = length fs"
  by (induction c fetch ids fs ls rule: stored.induct) auto

lemma text_spans_nonempty: "length ids = length fs \<Longrightarrow> fs \<noteq> [] \<Longrightarrow>
   text_spans i ids fs \<noteq> [] \<and> length (text_spans i ids fs) = length fs
   \<and> sp_Ordinal (hd (text_spans i ids fs)) = i
   \<and> sp_Ordinal (last (text_spans i ids fs)) = i + int (length fs) - 1"
proof (induction i ids fs rule: text_spans.induct)
  case (1 i x ids f fs)
  then show ?case by (cases "fs = []") auto
qed auto

text \<open>
  C4. The whole-object reader inverts the text layout. Take any canonical text whose fragments
  \<open>NewTextFragmentLayouts\<close> accepted, stored row by row with the canonical line anchors, and any
  stored fragment as the requested one: the reader returns exactly that text under
  \<open>CanonicalTextV1LayoutV2\<close>, with one span per fragment at the fragment's own offsets, counted
  from ordinal 1 to the number of fragments.
\<close>

theorem whole_text_roundtrip:
  assumes layouts: "NewTextFragmentLayouts (cd_Hash c) is_nfc s segments profile = Inr layouts"
    and canonical: "Canonicalize (cd_NFC c) s = Inr s" and "segments \<noteq> []"
    and rows: "stored c fetch ids segments layouts"
    and req: "wo_CanonicalFormat r = ''TEXT''" "wo_ParserProfileRevision r = profile"
      "wo_FragmentID r \<in> set ids" "fetch EvidenceNormalizedText (wo_FragmentID r) = Inr (wo_FragmentText r)"
  shows "readWholeFragments c fetch r (ordered_from 1 ids)
    = Inr (r\<lparr>wo_Text := s, wo_Fragments := text_spans 1 ids segments,
             wo_Representation := CanonicalTextV1LayoutV2,
             wo_FragmentCount := int (length segments), wo_FirstOrdinal := 1,
             wo_LastOrdinal := int (length segments)\<rparr>)"
proof -
  from layouts \<open>segments \<noteq> []\<close> obtain f fs where fs: "segments = f # fs" by (cases segments) auto
  from layouts fs have p: "IsTextLayoutParserRevision profile" and v: "valid_utf8 s"
    and z: "frag_ByteStart f = 0"
    and loop: "text_layout_loop s (cd_Hash c s) (Lines s) profile 0 0 0 segments = Inr layouts"
    by (auto simp: NewTextFragmentLayouts_def canonicalTextBufferIsValid_def split: if_splits)
  let ?a = "newWholeTextAssembler (wo_CanonicalFormat r) (wo_ParserProfileRevision r)"
  have rl: "readLoop c fetch r ?a False (ordered_from (0 + 1) ids)
      = Inr (?a\<lparr>as_text := s, as_spans := as_spans ?a @ text_spans (0 + 1) ids segments,
               as_layouts := as_layouts ?a @ layouts\<rparr>, False \<or> wo_FragmentID r \<in> set ids)"
    by (rule readLoop_text [OF loop _ rows v])
      (use req p fs z in \<open>auto simp: newWholeTextAssembler_def IsStructuralLayoutFormat_def next_start_def\<close>)
  obtain l ls' where ls: "layouts = l # ls'" "tl_CanonicalTotalBytes l = int (length s)"
      "tl_CanonicalSHA256 l = cd_Hash c s"
    using text_layout_loop_Cons [OF loop [unfolded fs]] by auto
  note len = stored_nonempty [OF rows]
  have sp: "text_spans 1 ids segments \<noteq> []" "length (text_spans 1 ids segments) = length segments"
      "sp_Ordinal (hd (text_spans 1 ids segments)) = 1"
      "sp_Ordinal (last (text_spans 1 ids segments)) = int (length segments)"
    using text_spans_nonempty [of ids segments 1] len \<open>segments \<noteq> []\<close> by auto
  have "finish c (?a\<lparr>as_text := s, as_spans := text_spans 1 ids segments, as_layouts := layouts\<rparr>)
      = Inr (s, text_spans 1 ids segments, CanonicalTextV1LayoutV2)"
    using sp(1) ls canonical req p finish_loop_text [OF loop rows, of 1]
    by (simp add: finish_def newWholeTextAssembler_def IsStructuralLayoutFormat_def)
  with rl req(3) sp show ?thesis
    by (cases "text_spans 1 ids segments")
      (simp_all add: readWholeFragments_def newWholeTextAssembler_def)
qed

definition example_codec :: codec where
  "example_codec = \<lparr>cd_Hash = id, cd_NFC = id,
     cd_TextLayout = (\<lambda>m. if m = ''M'' then Some \<lparr>tl_Schema = TextFragmentLayoutSchema,
       tl_NormalizationVersion = NormalizationVersion, tl_ParserProfileRevision = example_profile,
       tl_Ordinal = 1, tl_LineStart = 1, tl_LineEnd = 1, tl_CanonicalByteStart = 0,
       tl_CanonicalByteEnd = 2, tl_GapAfterBase64 = [], tl_CanonicalTotalBytes = 2,
       tl_CanonicalSHA256 = ''ab''\<rparr> else None),
     cd_StructuralLayout = (\<lambda>m. None), cd_TextAnchor = (\<lambda>a b. itoa a @ ''-'' @ itoa b)\<rparr>"

definition example_fetch :: "owner_field \<Rightarrow> gostring \<Rightarrow> evidence_error + gostring" where
  "example_fetch field x = (if x \<noteq> ''f1'' then Inl FetchFailed else
     case field of EvidenceNormalizedText \<Rightarrow> Inr ''ab'' | EvidenceMetadata \<Rightarrow> Inr ''M''
       | EvidenceAnchor \<Rightarrow> Inr ''1-1'')"

definition example_request :: whole_object where
  "example_request = \<lparr>wo_FragmentID = ''f1'', wo_FragmentText = ''ab'', wo_CanonicalFormat = ''TEXT'',
     wo_ParserProfileRevision = example_profile, wo_Text = [], wo_Fragments = [],
     wo_Representation = LegacyFragmentConcatV1, wo_FragmentCount = 0, wo_FirstOrdinal = 0,
     wo_LastOrdinal = 0\<rparr>"

lemma example_segment: "Segment ''ab'' 2
    = [\<lparr>frag_Ordinal = 1, frag_LineStart = 1, frag_LineEnd = 1, frag_ByteStart = 0, frag_ByteEnd = 2,
        frag_Text = ''ab''\<rparr>]"
  by (simp add: Segment_def segment_lines_def Lines_def LF_def Let_def segment_outer.simps
      segment_inner.simps slice_def)

lemma example_canonical: "Canonicalize id ''ab'' = Inr ''ab''"
  by (simp add: Canonicalize_def foldNewlines.simps BOM_def CR_def LF_def Let_def trim_prefix_def)

lemma itoa_1: "itoa 1 = ''1''"
  by code_simp

lemma example_stored: "\<exists>l. NewTextFragmentLayouts (cd_Hash example_codec) (\<lambda>s. True) ''ab'' (Segment ''ab'' 2) example_profile = Inr [l]
     \<and> stored example_codec example_fetch [''f1''] (Segment ''ab'' 2) [l]"
  using example_layouts by (auto simp: example_codec_def example_fetch_def example_segment itoa_1)

theorem whole_text_roundtrip_witness:
  "\<exists>r. readWholeFragments example_codec example_fetch example_request (ordered_from 1 [''f1'']) = Inr r
     \<and> wo_Text r = ''ab'' \<and> wo_Representation r = CanonicalTextV1LayoutV2 \<and> wo_FragmentCount r = 1"
proof -
  obtain l where l: "NewTextFragmentLayouts (cd_Hash example_codec) (\<lambda>s. True) ''ab'' (Segment ''ab'' 2) example_profile = Inr [l]"
     "stored example_codec example_fetch [''f1''] (Segment ''ab'' 2) [l]" using example_stored by blast
  have c: "Canonicalize (cd_NFC example_codec) ''ab'' = Inr ''ab''"
    using example_canonical by (simp add: example_codec_def)
  show ?thesis
    using whole_text_roundtrip [OF l(1) c _ l(2), of example_request]
    by (simp add: example_request_def example_segment example_fetch_def)
qed

section \<open>What a released text is worth\<close>

text \<open>What the assembler knows about the rows read so far: the spans carry the ids and count up
  from 1, every span's bytes are the fetched fragment text, and in the layout modes there is one
  decoded layout per row, all with the digest of the first.\<close>

definition span_ok :: "(owner_field \<Rightarrow> gostring \<Rightarrow> evidence_error + gostring) \<Rightarrow> gostring \<Rightarrow> fragment_span \<Rightarrow> bool" where
  "span_ok fetch t sp \<longleftrightarrow> 0 \<le> sp_Offset sp \<and> 0 \<le> sp_Length sp \<and> sp_Offset sp + sp_Length sp \<le> int (length t)
     \<and> fetch EvidenceNormalizedText (sp_FragmentID sp)
         = Inr (slice (nat (sp_Offset sp)) (nat (sp_Offset sp + sp_Length sp)) t)"

definition recorded_digest :: "codec \<Rightarrow> (owner_field \<Rightarrow> gostring \<Rightarrow> evidence_error + gostring)
    \<Rightarrow> representation \<Rightarrow> gostring \<Rightarrow> gostring option" where
  "recorded_digest c fetch rep x =
    (case fetch EvidenceMetadata x of
       Inl e \<Rightarrow> None
     | Inr m \<Rightarrow>
         (case rep of
            LegacyFragmentConcatV1 \<Rightarrow> None
          | CanonicalTextV1LayoutV2 \<Rightarrow> map_option tl_CanonicalSHA256 (cd_TextLayout c m)
          | CanonicalStructuralTextV1 \<Rightarrow> map_option (\<lambda>(p, l). sl_CanonicalSHA256 l) (cd_StructuralLayout c m)))"

definition assembly_ok :: "codec \<Rightarrow> (owner_field \<Rightarrow> gostring \<Rightarrow> evidence_error + gostring) \<Rightarrow> assembler \<Rightarrow> bool" where
  "assembly_ok c fetch a \<longleftrightarrow>
     list_all (span_ok fetch (as_text a)) (as_spans a)
   \<and> map sp_Ordinal (as_spans a) = map int [1..<Suc (length (as_spans a))]
   \<and> (as_requireLayout a \<longrightarrow> length (as_layouts a) = length (as_spans a)
        \<and> (\<forall>sp\<in>set (as_spans a). recorded_digest c fetch CanonicalTextV1LayoutV2 (sp_FragmentID sp)
              = Some (tl_CanonicalSHA256 (hd (as_layouts a)))))
   \<and> (as_requireStructuralLayout a \<longrightarrow> length (as_structuralLayouts a) = length (as_spans a)
        \<and> (\<forall>sp\<in>set (as_spans a). recorded_digest c fetch CanonicalStructuralTextV1 (sp_FragmentID sp)
              = Some (sl_CanonicalSHA256 (hd (as_structuralLayouts a)))))"

lemma span_ok_append: "span_ok fetch t sp \<Longrightarrow> span_ok fetch (t @ u) sp"
  by (auto simp: span_ok_def slice_append_left)

lemma span_ok_new: "fetch EvidenceNormalizedText x = Inr t \<Longrightarrow>
  span_ok fetch (p @ t @ g) \<lparr>sp_FragmentID = x, sp_Ordinal = i, sp_Offset = int (length p),
     sp_Length = int (length t)\<rparr>"
  by (simp add: span_ok_def slice_def nat_add_distrib)

lemma structuralGap_inv:
  "structuralGap c a item span m anchor = Inr (gap, a') \<Longrightarrow>
     \<exists>p l. cd_StructuralLayout c m = Some (p, l)
       \<and> a' = a\<lparr>as_structuralLayouts := as_structuralLayouts a @ [l]\<rparr>
       \<and> sl_CanonicalSHA256 l = sl_CanonicalSHA256 (hd (as_structuralLayouts a'))"
  by (cases "as_structuralLayouts a")
    (auto simp: structuralGap_def Let_def split: option.splits if_splits)

lemma textGap_inv:
  "textGap c a item span m anchor = Inr (gap, a') \<Longrightarrow>
     \<exists>l. cd_TextLayout c m = Some l \<and> a' = a\<lparr>as_layouts := as_layouts a @ [l]\<rparr>
       \<and> tl_CanonicalSHA256 l = tl_CanonicalSHA256 (hd (as_layouts a'))"
  by (cases "as_layouts a")
    (auto simp: textGap_def Let_def split: option.splits if_splits)

lemma appendFragment_inv:
  assumes "appendFragment c a item t m anchor = Inr a'"
  shows "\<exists>gap. as_text a' = as_text a @ t @ gap
     \<and> as_spans a' = as_spans a @ [\<lparr>sp_FragmentID = of_id item, sp_Ordinal = int (length (as_spans a)) + 1,
          sp_Offset = int (length (as_text a)), sp_Length = int (length t)\<rparr>]
     \<and> as_requireLayout a' = as_requireLayout a
     \<and> as_requireStructuralLayout a' = as_requireStructuralLayout a
     \<and> (as_requireLayout a \<longrightarrow> (\<exists>l. cd_TextLayout c m = Some l \<and> as_layouts a' = as_layouts a @ [l]
           \<and> tl_CanonicalSHA256 l = tl_CanonicalSHA256 (hd (as_layouts a'))))
     \<and> (as_requireStructuralLayout a \<longrightarrow> (\<exists>p l. cd_StructuralLayout c m = Some (p, l)
           \<and> as_structuralLayouts a' = as_structuralLayouts a @ [l]
           \<and> sl_CanonicalSHA256 l = sl_CanonicalSHA256 (hd (as_structuralLayouts a'))))"
proof -
  define span where "span = \<lparr>sp_FragmentID = of_id item, sp_Ordinal = of_ordinal item,
      sp_Offset = int (length (as_text a)), sp_Length = int (length t)\<rparr>"
  obtain g0 a1 g2 a2 where
    1: "(if as_requireStructuralLayout a then structuralGap c a item span m anchor else Inr ([], a)) = Inr (g0, a1)"
    and 2: "(if as_requireLayout a1 then textGap c a1 item span m anchor else Inr (g0, a1)) = Inr (g2, a2)"
    and 3: "a' = a2\<lparr>as_spans := as_spans a2 @ [span], as_text := as_text a2 @ t @ g2\<rparr>"
    and o: "of_ordinal item = int (length (as_spans a)) + 1"
    using assms unfolding appendFragment_def Let_def span_def [symmetric]
    by (cases "of_id item = [] \<or> of_ordinal item \<noteq> int (length (as_spans a)) + 1 \<or> \<not> valid_utf8 t")
      (simp_all only: if_True if_False and_then_Inr_iff split_paired_Ex prod.case sum.inject sum.distinct, blast)
  show ?thesis
  proof (cases "as_requireStructuralLayout a")
    case True
    with 1 structuralGap_inv [of c a item span m anchor g0 a1] obtain p l where
      s: "cd_StructuralLayout c m = Some (p, l)" "a1 = a\<lparr>as_structuralLayouts := as_structuralLayouts a @ [l]\<rparr>"
      "sl_CanonicalSHA256 l = sl_CanonicalSHA256 (hd (as_structuralLayouts a1))" by auto
    show ?thesis
    proof (cases "as_requireLayout a")
      case True
      with 2 s textGap_inv [of c a1 item span m anchor g2 a2] show ?thesis
        using 3 o by (auto simp: span_def)
    qed (use 2 3 s o in \<open>auto simp: span_def\<close>)
  next
    case False
    with 1 have a1: "a1 = a" by simp
    show ?thesis
    proof (cases "as_requireLayout a")
      case True
      with 2 a1 False textGap_inv [of c a1 item span m anchor g2 a2] show ?thesis
        using 3 o by (auto simp: span_def)
    qed (use 2 3 a1 False o in \<open>auto simp: span_def\<close>)
  qed
qed

lemma assembly_ok_append:
  assumes ok: "assembly_ok c fetch a" and app: "appendFragment c a item t m anchor = Inr a'"
    and t: "fetch EvidenceNormalizedText (of_id item) = Inr t"
    and m: "as_requireLayout a \<or> as_requireStructuralLayout a \<longrightarrow> fetch EvidenceMetadata (of_id item) = Inr m"
  shows "assembly_ok c fetch a'"
proof -
  from appendFragment_inv [OF app] obtain gap where
    a': "as_text a' = as_text a @ t @ gap"
    "as_spans a' = as_spans a @ [\<lparr>sp_FragmentID = of_id item, sp_Ordinal = int (length (as_spans a)) + 1,
          sp_Offset = int (length (as_text a)), sp_Length = int (length t)\<rparr>]"
    "as_requireLayout a' = as_requireLayout a" "as_requireStructuralLayout a' = as_requireStructuralLayout a"
    and L: "as_requireLayout a \<Longrightarrow> \<exists>l. cd_TextLayout c m = Some l \<and> as_layouts a' = as_layouts a @ [l]
           \<and> tl_CanonicalSHA256 l = tl_CanonicalSHA256 (hd (as_layouts a'))"
    and S: "as_requireStructuralLayout a \<Longrightarrow> \<exists>p l. cd_StructuralLayout c m = Some (p, l)
           \<and> as_structuralLayouts a' = as_structuralLayouts a @ [l]
           \<and> sl_CanonicalSHA256 l = sl_CanonicalSHA256 (hd (as_structuralLayouts a'))" by blast
  have spans: "list_all (span_ok fetch (as_text a')) (as_spans a')"
    using ok a' span_ok_new [of fetch "of_id item" t, OF t] by (auto simp: assembly_ok_def list_all_iff intro: span_ok_append)
  have nums: "map sp_Ordinal (as_spans a') = map int [1..<Suc (length (as_spans a'))]"
    using ok a' by (simp add: assembly_ok_def)
  have lay: "length (as_layouts a') = length (as_spans a')
      \<and> (\<forall>sp\<in>set (as_spans a'). recorded_digest c fetch CanonicalTextV1LayoutV2 (sp_FragmentID sp)
            = Some (tl_CanonicalSHA256 (hd (as_layouts a'))))" if r: "as_requireLayout a"
    using ok r L [OF r] m a'(2) unfolding assembly_ok_def
    by (cases "as_layouts a") (auto simp: recorded_digest_def)
  have str: "length (as_structuralLayouts a') = length (as_spans a')
      \<and> (\<forall>sp\<in>set (as_spans a'). recorded_digest c fetch CanonicalStructuralTextV1 (sp_FragmentID sp)
            = Some (sl_CanonicalSHA256 (hd (as_structuralLayouts a'))))" if r: "as_requireStructuralLayout a"
    using ok r S [OF r] m a'(2) unfolding assembly_ok_def
    by (cases "as_structuralLayouts a") (auto simp: recorded_digest_def)
  show ?thesis using spans nums lay str a'(3,4) by (simp add: assembly_ok_def)
qed

lemma readLoop_ok:
  "readLoop c fetch r a found ordered = Inr (a', found') \<Longrightarrow> assembly_ok c fetch a \<Longrightarrow>
     assembly_ok c fetch a'
   \<and> map sp_FragmentID (as_spans a') = map sp_FragmentID (as_spans a) @ map of_id ordered
   \<and> as_requireLayout a' = as_requireLayout a
   \<and> as_requireStructuralLayout a' = as_requireStructuralLayout a
   \<and> (found' \<longrightarrow> found \<or> (wo_FragmentID r \<in> of_id ` set ordered
        \<and> fetch EvidenceNormalizedText (wo_FragmentID r) = Inr (wo_FragmentText r)))"
proof (induction ordered arbitrary: a found)
  case (Cons item ordered)
  from Cons.prems(1) obtain t m anchor a1 where
    t: "fetch EvidenceNormalizedText (of_id item) = Inr t"
    and m: "as_requireLayout a \<or> as_requireStructuralLayout a \<longrightarrow> fetch EvidenceMetadata (of_id item) = Inr m"
    and app: "appendFragment c a item t m anchor = Inr a1"
    and here: "of_id item = wo_FragmentID r \<longrightarrow> t = wo_FragmentText r"
    and rest: "readLoop c fetch r a1 (found \<or> of_id item = wo_FragmentID r) ordered = Inr (a', found')"
    by (cases "of_id item = wo_FragmentID r") (auto split: if_splits)
  from appendFragment_inv [OF app] have f: "as_requireLayout a1 = as_requireLayout a"
      "as_requireStructuralLayout a1 = as_requireStructuralLayout a"
      "map sp_FragmentID (as_spans a1) = map sp_FragmentID (as_spans a) @ [of_id item]" by auto
  from Cons.IH [OF rest assembly_ok_append [OF Cons.prems(2) app t m]] f here t show ?case by auto
qed simp

lemma newWholeTextAssembler_ok: "assembly_ok c fetch (newWholeTextAssembler fmt profile)"
  by (simp add: assembly_ok_def newWholeTextAssembler_def)

lemma finish_released:
  assumes "finish c a = Inr (t, spans, rep)" and "assembly_ok c fetch a"
  shows "t = as_text a \<and> spans = as_spans a \<and> spans \<noteq> []
    \<and> rep = (if as_requireStructuralLayout a then CanonicalStructuralTextV1
             else if as_requireLayout a then CanonicalTextV1LayoutV2 else LegacyFragmentConcatV1)
    \<and> (rep \<noteq> LegacyFragmentConcatV1 \<longrightarrow> Canonicalize (cd_NFC c) t = Inr t
        \<and> (\<forall>sp\<in>set spans. recorded_digest c fetch rep (sp_FragmentID sp) = Some (cd_Hash c t)))"
proof (cases "as_requireStructuralLayout a")
  case True
  with assms show ?thesis
    by (auto simp: finish_def finishStructural_def assembly_ok_def split: if_splits list.splits)
next
  case False
  with assms show ?thesis
    by (auto simp: finish_def assembly_ok_def split: if_splits list.splits)
qed

lemma readWholeFragments_inv:
  assumes "readWholeFragments c fetch r ordered = Inr r'"
  obtains a where "assembly_ok c fetch a" "finish c a = Inr (as_text a, as_spans a, wo_Representation r')"
    "map sp_FragmentID (as_spans a) = map of_id ordered"
    "wo_Text r' = as_text a" "wo_Fragments r' = as_spans a" "wo_FragmentCount r' = int (length (as_spans a))"
    "as_requireLayout a = as_requireLayout (newWholeTextAssembler (wo_CanonicalFormat r) (wo_ParserProfileRevision r))"
    "as_requireStructuralLayout a
      = as_requireStructuralLayout (newWholeTextAssembler (wo_CanonicalFormat r) (wo_ParserProfileRevision r))"
    "wo_FragmentID r \<in> of_id ` set ordered"
    "fetch EvidenceNormalizedText (wo_FragmentID r) = Inr (wo_FragmentText r)"
proof -
  let ?n = "newWholeTextAssembler (wo_CanonicalFormat r) (wo_ParserProfileRevision r)"
  from assms obtain a t spans rep where
    l: "readLoop c fetch r ?n False ordered = Inr (a, True)" and f: "finish c a = Inr (t, spans, rep)"
    and r': "r' = r\<lparr>wo_Text := t, wo_Fragments := spans, wo_Representation := rep,
        wo_FragmentCount := int (length spans), wo_FirstOrdinal := sp_Ordinal (hd spans),
        wo_LastOrdinal := sp_Ordinal (last spans)\<rparr>"
    by (auto simp: readWholeFragments_def neq_Nil_conv split: if_splits list.splits)
  note ok = readLoop_ok [OF l newWholeTextAssembler_ok]
  note fin = finish_released [OF f ok [THEN conjunct1]]
  show ?thesis
    by (rule that [of a]) (use ok fin f r' in \<open>auto simp: newWholeTextAssembler_def\<close>)
qed

text \<open>
  A released whole object is exactly its fragments: whatever the store returns, in every
  representation, the spans name the ordered fragments one by one with ordinals from 1, the bytes
  of the released text at every span are the fetched text of that fragment, and the requested
  fragment is one of them with the text the caller was shown.
\<close>

theorem released_spans_exact:
  assumes "readWholeFragments c fetch r ordered = Inr r'"
  shows "map sp_FragmentID (wo_Fragments r') = map of_id ordered
    \<and> map sp_Ordinal (wo_Fragments r') = map int [1..<Suc (length ordered)]
    \<and> wo_FragmentCount r' = int (length ordered)
    \<and> list_all (span_ok fetch (wo_Text r')) (wo_Fragments r')
    \<and> wo_FragmentID r \<in> of_id ` set ordered
    \<and> fetch EvidenceNormalizedText (wo_FragmentID r) = Inr (wo_FragmentText r)"
proof -
  from readWholeFragments_inv [OF assms] obtain a where
    a: "assembly_ok c fetch a" "map sp_FragmentID (as_spans a) = map of_id ordered"
    "wo_Text r' = as_text a" "wo_Fragments r' = as_spans a" "wo_FragmentCount r' = int (length (as_spans a))"
    "wo_FragmentID r \<in> of_id ` set ordered"
    "fetch EvidenceNormalizedText (wo_FragmentID r) = Inr (wo_FragmentText r)" by metis
  have "length (as_spans a) = length ordered" using a(2) map_eq_imp_length_eq by blast
  with a show ?thesis by (simp add: assembly_ok_def)
qed

text \<open>
  C5. Nothing unauthenticated is released for a layout profile: when the format and profile select
  a layout representation the reader never falls back to the legacy concatenation, the released
  text is a fixed point of the canonicalization, and its digest is the one recorded in the layout
  of every single fragment.
\<close>

theorem released_text_authenticated:
  assumes "readWholeFragments c fetch r ordered = Inr r'"
    and "(wo_CanonicalFormat r = ''TEXT'' \<and> IsTextLayoutParserRevision (wo_ParserProfileRevision r))
       \<or> (IsStructuralLayoutFormat (wo_CanonicalFormat r)
           \<and> IsStructuralLayoutParserRevision (wo_ParserProfileRevision r))"
  shows "wo_Representation r' \<noteq> LegacyFragmentConcatV1
    \<and> Canonicalize (cd_NFC c) (wo_Text r') = Inr (wo_Text r')
    \<and> (\<forall>item\<in>set ordered. recorded_digest c fetch (wo_Representation r') (of_id item)
          = Some (cd_Hash c (wo_Text r')))"
proof -
  from readWholeFragments_inv [OF assms(1)] obtain a where
    a: "assembly_ok c fetch a" and f: "finish c a = Inr (as_text a, as_spans a, wo_Representation r')"
    and ids: "map sp_FragmentID (as_spans a) = map of_id ordered" and t: "wo_Text r' = as_text a"
    and req: "as_requireLayout a = as_requireLayout (newWholeTextAssembler (wo_CanonicalFormat r) (wo_ParserProfileRevision r))"
    "as_requireStructuralLayout a
      = as_requireStructuralLayout (newWholeTextAssembler (wo_CanonicalFormat r) (wo_ParserProfileRevision r))"
    by metis
  note fin = finish_released [OF f a]
  have "as_requireLayout a \<or> as_requireStructuralLayout a"
    using req assms(2) by (simp add: newWholeTextAssembler_def)
  with fin have rep: "wo_Representation r' \<noteq> LegacyFragmentConcatV1" by (auto split: if_splits)
  have "of_id ` set ordered = sp_FragmentID ` set (as_spans a)" using ids by (metis set_map)
  with fin rep t show ?thesis by (metis (no_types, lifting) imageE imageI)
qed

lemma b64_decode_Nil: "b64_decode [] = Some []"
  using b64_decode_encode [of "[]"] by simp

lemma example_read: "readWholeFragments example_codec example_fetch example_request (ordered_from 1 [''f1''])
   = Inr (example_request\<lparr>wo_Text := ''ab'', wo_Fragments := [\<lparr>sp_FragmentID = ''f1'', sp_Ordinal = 1,
        sp_Offset = 0, sp_Length = 2\<rparr>], wo_Representation := CanonicalTextV1LayoutV2,
      wo_FragmentCount := 1, wo_FirstOrdinal := 1, wo_LastOrdinal := 1\<rparr>)"
  using example_profile_ok example_canonical
  by (simp add: readWholeFragments_def example_request_def newWholeTextAssembler_def example_fetch_def
      IsStructuralLayoutFormat_def example_codec_def appendFragment_def Let_def textGap_def
      TextFragmentLayoutSchema_def itoa_1 b64_decode_Nil finish_def Lines_def LF_def del: and_then_Inr_iff)

theorem released_spans_exact_witness:
  "\<exists>r'. readWholeFragments example_codec example_fetch example_request (ordered_from 1 [''f1'']) = Inr r'
    \<and> list_all (span_ok example_fetch (wo_Text r')) (wo_Fragments r')"
  using released_spans_exact [OF example_read] example_read by blast

theorem released_text_authenticated_witness:
  "\<exists>r'. readWholeFragments example_codec example_fetch example_request (ordered_from 1 [''f1'']) = Inr r'
    \<and> (\<forall>item\<in>set (ordered_from 1 [''f1'']).
         recorded_digest example_codec example_fetch (wo_Representation r') (of_id item) = Some ''ab'')"
  using released_text_authenticated [OF example_read] example_read example_profile_ok
  by (auto simp: example_request_def example_codec_def)

end
