(* ===== verification/Address.thy ===== *)
theory Address
  imports Canon_Text
begin

text \<open>
  \<open>internal/address/address.go\<close>: the address of an exact span, its one textual form, the keyed
  digest of the addressed bytes, and the paged whole-object read. HMAC-SHA-256 and SHA-256 are the
  arguments \<open>hmac\<close> and \<open>hash\<close>. A slice expression that Go would panic on is the error \<open>SlicePanic\<close>;
  sums of Go \<open>int\<close> values wrap at 64 bits. The lemmas show that \<open>Parse\<close> inverts \<open>String\<close> exactly, what
  verification accepts, and that the pages of a valid text reassemble it.
\<close>

datatype span_kind = SpanKindText | SpanKindCode | SpanKindTable | SpanKindOther gostring

datatype address_error = ErrMalformedAddress | ErrSpanMismatch | ErrSpanOutOfRange
  | ErrInvalidCursor | ErrInvalidLimit | ErrInvalidDigestKey | SlicePanic

record address =
  ad_Source :: gostring
  ad_Object :: gostring
  ad_Version :: gostring
  ad_SpanKind :: span_kind
  ad_CharStart :: int
  ad_CharEnd :: int
  ad_File :: gostring
  ad_LineStart :: int
  ad_LineEnd :: int
  ad_Snapshot :: gostring
  ad_RowStart :: int
  ad_RowEnd :: int
  ad_SpanHash :: gostring

fun kind_string :: "span_kind \<Rightarrow> gostring" where
  "kind_string SpanKindText = ''text''"
| "kind_string SpanKindCode = ''code''"
| "kind_string SpanKindTable = ''table''"
| "kind_string (SpanKindOther s) = s"

section \<open>The textual form\<close>

definition spanToken :: "address \<Rightarrow> gostring" where
  "spanToken a =
    (case ad_SpanKind a of
       SpanKindText \<Rightarrow> kind_string SpanKindText @ ''.'' @ itoa (ad_CharStart a) @ ''-'' @ itoa (ad_CharEnd a)
     | SpanKindCode \<Rightarrow> kind_string SpanKindCode @ ''.'' @ ad_File a @ ''@'' @ itoa (ad_LineStart a) @ ''-'' @ itoa (ad_LineEnd a)
     | SpanKindTable \<Rightarrow> kind_string SpanKindTable @ ''.'' @ ad_Snapshot a @ ''@'' @ itoa (ad_RowStart a) @ ''-'' @ itoa (ad_RowEnd a)
     | other \<Rightarrow> kind_string other)"

definition String :: "address \<Rightarrow> gostring" where
  "String a = ''kv1:'' @ ad_Source a @ ''~'' @ ad_Object a @ '':'' @ ad_Version a @ '':'' @ spanToken a
     @ '':'' @ ad_SpanHash a"

definition parseCanonicalInt :: "gostring \<Rightarrow> int option" where
  "parseCanonicalInt value =
    (case atoi value of
       None \<Rightarrow> None
     | Some number \<Rightarrow> if itoa number \<noteq> value then None else Some number)"

definition validHash16 :: "gostring \<Rightarrow> bool" where
  "validHash16 value \<longleftrightarrow> length value = 16
     \<and> list_all (\<lambda>r. \<not> ((r < 48 \<or> r > 57) \<and> (r < 97 \<or> r > 102))) (runes value)"

definition parseSpanKind :: "gostring \<Rightarrow> address_error + (span_kind \<times> gostring)" where
  "parseSpanKind value =
    (case cut_on CHR ''.'' value of
       (kind, rest, ok) \<Rightarrow>
         if \<not> ok \<or> rest = [] then Inl ErrMalformedAddress
         else if kind = ''text'' then Inr (SpanKindText, rest)
         else if kind = ''code'' then Inr (SpanKindCode, rest)
         else if kind = ''table'' then Inr (SpanKindTable, rest)
         else Inl ErrMalformedAddress)"

definition parseSpanAux :: "gostring \<Rightarrow> address_error + (gostring \<times> gostring)" where
  "parseSpanAux value =
    (case cut_on CHR ''@'' value of
       (aux, rest, ok) \<Rightarrow>
         if \<not> ok \<or> aux = [] \<or> rest = [] \<or> CHR ''@'' \<in> set rest then Inl ErrMalformedAddress
         else Inr (aux, rest))"

definition parseSpanRange :: "gostring \<Rightarrow> address_error + (int \<times> int)" where
  "parseSpanRange value =
    (case cut_on CHR ''-'' value of
       (startText, endText, ok) \<Rightarrow>
         if \<not> ok \<or> startText = [] \<or> endText = [] \<or> CHR ''-'' \<in> set endText
         then Inl ErrMalformedAddress
         else case parseCanonicalInt startText of
                None \<Rightarrow> Inl ErrMalformedAddress
              | Some start \<Rightarrow>
                  (case parseCanonicalInt endText of
                     None \<Rightarrow> Inl ErrMalformedAddress
                   | Some stop \<Rightarrow> if stop < start then Inl ErrMalformedAddress else Inr (start, stop)))"

definition zero_address :: address where
  "zero_address = \<lparr>ad_Source = [], ad_Object = [], ad_Version = [], ad_SpanKind = SpanKindOther [],
     ad_CharStart = 0, ad_CharEnd = 0, ad_File = [], ad_LineStart = 0, ad_LineEnd = 0,
     ad_Snapshot = [], ad_RowStart = 0, ad_RowEnd = 0, ad_SpanHash = []\<rparr>"

text \<open>The \<open>switch\<close> of \<open>Parse\<close> over the span kind, which fills the coordinates of \<open>parsed\<close>.\<close>

definition parse_coordinates :: "address \<Rightarrow> span_kind \<Rightarrow> gostring \<Rightarrow> address_error + address" where
  "parse_coordinates parsed kind span =
    (case kind of
       SpanKindText \<Rightarrow>
         and_then (parseSpanRange span) (\<lambda>(start, stop).
           if start < 0 then Inl ErrMalformedAddress
           else Inr (parsed\<lparr>ad_CharStart := start, ad_CharEnd := stop\<rparr>))
     | SpanKindCode \<Rightarrow>
         and_then (parseSpanAux span) (\<lambda>(file, rest). and_then (parseSpanRange rest) (\<lambda>(start, stop).
           if start < 1 then Inl ErrMalformedAddress
           else Inr (parsed\<lparr>ad_File := file, ad_LineStart := start, ad_LineEnd := stop\<rparr>)))
     | SpanKindTable \<Rightarrow>
         and_then (parseSpanAux span) (\<lambda>(snapshot, rest). and_then (parseSpanRange rest) (\<lambda>(start, stop).
           if start < 1 then Inl ErrMalformedAddress
           else Inr (parsed\<lparr>ad_Snapshot := snapshot, ad_RowStart := start, ad_RowEnd := stop\<rparr>)))
     | SpanKindOther _ \<Rightarrow> Inr parsed)"

definition Parse :: "gostring \<Rightarrow> address_error + address" where
  "Parse value =
    (if \<not> has_prefix ''kv1:'' value then Inl ErrMalformedAddress
     else case split_on CHR '':'' value of
            [f0, f1, f2, f3, f4] \<Rightarrow>
              if f0 \<noteq> ''kv1'' then Inl ErrMalformedAddress
              else (case cut_on CHR ''~'' f1 of
                (source, object, ok) \<Rightarrow>
                  if \<not> ok \<or> source = [] \<or> object = [] \<or> CHR ''~'' \<in> set object
                  then Inl ErrMalformedAddress
                  else if f2 = [] then Inl ErrMalformedAddress
                  else if \<not> validHash16 f4 then Inl ErrMalformedAddress
                  else and_then (parseSpanKind f3) (\<lambda>(kind, span).
                    parse_coordinates (zero_address\<lparr>ad_Source := source, ad_Object := object,
                      ad_Version := f2, ad_SpanKind := kind, ad_SpanHash := f4\<rparr>) kind span))
          | _ \<Rightarrow> Inl ErrMalformedAddress)"

section \<open>Spans\<close>

text \<open>The loop of \<open>runeByteOffsets\<close> from byte \<open>i\<close>, with the rest of the bytes.\<close>

function rune_offsets :: "nat \<Rightarrow> gostring \<Rightarrow> nat list" where
  "rune_offsets i s = (if s = [] then [i]
     else (let size = (if snd (decode_rune s) < 1 then 1 else snd (decode_rune s)) in
       i # rune_offsets (i + size) (drop size s)))"
  by auto
termination by (relation "measure (\<lambda>(i, s). length s)") (auto simp: Let_def)

declare rune_offsets.simps [simp del]

definition runeByteOffsets :: "gostring \<Rightarrow> nat list" where
  "runeByteOffsets original = rune_offsets 0 original"

definition textSpan :: "gostring \<Rightarrow> int \<Rightarrow> int \<Rightarrow> address_error + gostring" where
  "textSpan original start stop =
    (if start < 0 \<or> stop < start then Inl ErrSpanOutOfRange
     else (let offsets = runeByteOffsets original in
       if stop \<ge> int (length offsets) then Inl ErrSpanOutOfRange
       else Inr (slice (offsets ! nat start) (offsets ! nat stop) original)))"

definition lineSpan :: "gostring \<Rightarrow> int \<Rightarrow> int \<Rightarrow> address_error + gostring" where
  "lineSpan original start stop =
    (if start < 1 \<or> stop < start then Inl ErrSpanOutOfRange
     else case LineRangeBytes original start stop of
            None \<Rightarrow> Inl ErrSpanOutOfRange
          | Some (byteStart, byteEnd) \<Rightarrow> Inr (slice byteStart byteEnd original))"

definition Span :: "address \<Rightarrow> gostring \<Rightarrow> address_error + gostring" where
  "Span a original =
    (case ad_SpanKind a of
       SpanKindText \<Rightarrow> textSpan original (ad_CharStart a) (ad_CharEnd a)
     | SpanKindCode \<Rightarrow> lineSpan original (ad_LineStart a) (ad_LineEnd a)
     | SpanKindTable \<Rightarrow> lineSpan original (ad_RowStart a) (ad_RowEnd a)
     | SpanKindOther _ \<Rightarrow> Inl ErrMalformedAddress)"

section \<open>The keyed digest\<close>

record span_digest_key =
  dk_key :: gostring
  dk_version :: int

definition NewSpanDigestKey :: "gostring \<Rightarrow> int \<Rightarrow> span_digest_key" where
  "NewSpanDigestKey key version = \<lparr>dk_key = key, dk_version = version\<rparr>"

definition anonymousSpanDigestKey :: span_digest_key where
  "anonymousSpanDigestKey = \<lparr>dk_key = [], dk_version = 1\<rparr>"

definition HMACDigest :: "(gostring \<Rightarrow> gostring \<Rightarrow> gostring) \<Rightarrow> gostring \<Rightarrow> int \<Rightarrow> gostring \<Rightarrow> gostring" where
  "HMACDigest hmac key keyVersion message =
    ''hmac-sha256:k'' @ itoa keyVersion @ '':'' @ hex_encode (hmac key message)"

definition hash16Of :: "(gostring \<Rightarrow> gostring \<Rightarrow> gostring) \<Rightarrow> span_digest_key \<Rightarrow> gostring \<Rightarrow> address_error + gostring" where
  "hash16Of hmac k span =
    (if dk_version k < 1 then Inl ErrInvalidDigestKey
     else (let hexPart = last (split_on CHR '':'' (HMACDigest hmac (dk_key k) (dk_version k) span)) in
       if length hexPart < 16 then Inl ErrInvalidDigestKey else Inr (take 16 hexPart)))"

definition Hash16 :: "(gostring \<Rightarrow> gostring \<Rightarrow> gostring) \<Rightarrow> span_digest_key \<Rightarrow> gostring \<Rightarrow> address \<Rightarrow> address_error + gostring" where
  "Hash16 hmac k original a = and_then (Span a original) (hash16Of hmac k)"

definition WithSpanHash :: "(gostring \<Rightarrow> gostring \<Rightarrow> gostring) \<Rightarrow> span_digest_key \<Rightarrow> address \<Rightarrow> gostring \<Rightarrow> address_error + address" where
  "WithSpanHash hmac k a original =
    and_then (Hash16 hmac k original a) (\<lambda>digest. Inr (a\<lparr>ad_SpanHash := digest\<rparr>))"

definition VerifySpan :: "(gostring \<Rightarrow> gostring \<Rightarrow> gostring) \<Rightarrow> span_digest_key \<Rightarrow> gostring \<Rightarrow> address \<Rightarrow> address_error + gostring" where
  "VerifySpan hmac k original a =
    (if ad_SpanHash a = [] then Inl ErrSpanMismatch
     else and_then (Span a original) (\<lambda>span.
       and_then (hash16Of hmac k span) (\<lambda>actual.
         if actual \<noteq> ad_SpanHash a then Inl ErrSpanMismatch else Inr span)))"

section \<open>Paged reads\<close>

record page =
  pg_Data :: gostring
  pg_Offset :: int
  pg_TotalBytes :: int
  pg_WholeHash :: gostring
  pg_NextCursor :: gostring
  pg_HasMore :: bool
  pg_Complete :: bool

definition parseCursor :: "gostring \<Rightarrow> address_error + int" where
  "parseCursor cursor =
    (if cursor = [] then Inr 0
     else if \<not> has_prefix ''v1:'' cursor then Inl ErrInvalidCursor
     else case atoi (trim_prefix ''v1:'' cursor) of
            None \<Rightarrow> Inl ErrInvalidCursor
          | Some offset \<Rightarrow> if offset < 0 then Inl ErrInvalidCursor else Inr offset)"

text \<open>The loop of \<open>Read\<close> that advances a cursor to the next rune start.\<close>

function advance :: "gostring \<Rightarrow> nat \<Rightarrow> nat" where
  "advance original offset =
    (if offset < length original \<and> \<not> rune_start (original ! offset)
     then advance original (offset + 1) else offset)"
  by auto
termination by (relation "measure (\<lambda>(s, i). length s - i)") auto

text \<open>The loop of \<open>pageEnd\<close> that snaps back to a rune start; \<open>stop\<close> may be negative after a
  wrapped sum, and then the loop does not run.\<close>

function snap_back :: "gostring \<Rightarrow> int \<Rightarrow> int \<Rightarrow> int" where
  "snap_back original start stop =
    (if stop > start \<and> stop < int (length original) \<and> \<not> rune_start (original ! nat stop)
     then snap_back original start (stop - 1) else stop)"
  by auto
termination by (relation "measure (\<lambda>(s, a, b). nat (b - a))") auto

declare advance.simps [simp del] snap_back.simps [simp del]

definition pageEnd :: "gostring \<Rightarrow> int \<Rightarrow> int \<Rightarrow> int" where
  "pageEnd original start limit =
    (let total = int (length original);
         end0 = wrap64 (start + limit);
         end1 = (if end0 > total then total else end0);
         end2 = snap_back original start end1 in
     if end2 = start \<and> start < total then
       (let size = int (snd (decode_rune (drop (nat start) original)));
            size = (if size < 1 then 1 else size) in start + size)
     else end2)"

definition Read :: "(gostring \<Rightarrow> gostring) \<Rightarrow> gostring \<Rightarrow> gostring \<Rightarrow> int \<Rightarrow> address_error + page" where
  "Read hash original cursor limit =
    (if limit < 1 then Inl ErrInvalidLimit
     else and_then (parseCursor cursor) (\<lambda>offset0.
       let total = int (length original) in
       if offset0 > total then Inl ErrInvalidCursor
       else
         (let offset = int (advance original (nat offset0));
              stop = pageEnd original offset limit in
          if stop < offset \<or> stop > total then Inl SlicePanic
          else Inr \<lparr>pg_Data = slice (nat offset) (nat stop) original, pg_Offset = offset,
                    pg_TotalBytes = total, pg_WholeHash = hash original,
                    pg_NextCursor = (if stop < total then ''v1:'' @ itoa stop else []),
                    pg_HasMore = (stop < total), pg_Complete = (\<not> stop < total)\<rparr>)))"

section \<open>\<open>Parse\<close> and \<open>String\<close> are exact inverses\<close>

lemma validHash16_iff: "validHash16 v \<longleftrightarrow> length v = 16 \<and> list_all is_hex v"
proof -
  have "(\<lambda>r::nat. \<not> ((r < 48 \<or> r > 57) \<and> (r < 97 \<or> r > 102)))
      = (\<lambda>r. (48 \<le> r \<and> r \<le> 57 \<or> 97 \<le> r \<and> r \<le> 102) \<and> r < 0x80)" by auto
  moreover have "(\<lambda>c. (48 \<le> byte c \<and> byte c \<le> 57 \<or> 97 \<le> byte c \<and> byte c \<le> 102) \<and> byte c < 0x80) = is_hex"
    by (rule ext) (auto simp: is_hex_def)
  ultimately show ?thesis unfolding validHash16_def
    using runes_all_ascii [of "\<lambda>r. 48 \<le> r \<and> r \<le> 57 \<or> 97 \<le> r \<and> r \<le> 102" v] by simp
qed

lemma hex_no_colon: "list_all is_hex s \<Longrightarrow> CHR '':'' \<notin> set s"
  by (auto simp: list_all_iff is_hex_def)

lemma digits_no_sep: "list_all is_digit s \<Longrightarrow> CHR '':'' \<notin> set s \<and> CHR ''-'' \<notin> set s \<and> CHR ''@'' \<notin> set s"
  by (auto simp: list_all_iff is_digit_def)

lemma parseCanonicalInt_iff:
  "parseCanonicalInt v = Some i \<longleftrightarrow> v = itoa i \<and> min_int64 \<le> i \<and> i \<le> max_int64"
proof
  assume "parseCanonicalInt v = Some i"
  then have "atoi v = Some i" "v = itoa i" by (auto simp: parseCanonicalInt_def split: option.splits if_splits)
  moreover from this(1) have "min_int64 \<le> i \<and> i \<le> max_int64"
    by (auto simp: atoi_def Let_def split: list.splits option.splits if_splits)
  ultimately show "v = itoa i \<and> min_int64 \<le> i \<and> i \<le> max_int64" by simp
qed (simp add: parseCanonicalInt_def atoi_itoa)

definition range_ok :: "int \<Rightarrow> int \<Rightarrow> int \<Rightarrow> bool" where
  "range_ok low a b \<longleftrightarrow> low \<le> a \<and> a \<le> b \<and> b \<le> max_int64"

lemma parseSpanRange_iff:
  "parseSpanRange v = Inr (a, b) \<longleftrightarrow> range_ok 0 a b \<and> v = itoa a @ ''-'' @ itoa b"
proof
  assume p: "parseSpanRange v = Inr (a, b)"
  obtain s e ok where c: "cut_on CHR ''-'' v = (s, e, ok)" by (cases "cut_on CHR ''-'' v")
  with p have ok: "ok" and d: "CHR ''-'' \<notin> set e" and "parseCanonicalInt s = Some a" "parseCanonicalInt e = Some b"
    and ab: "a \<le> b"
    by (auto simp: parseSpanRange_def split: option.splits if_splits)
  then have i: "s = itoa a" "e = itoa b" "b \<le> max_int64" by (auto simp: parseCanonicalInt_iff)
  from c ok have v: "v = s @ CHR ''-'' # e" and s: "CHR ''-'' \<notin> set s" using cut_on_found by auto
  have "0 \<le> a" using s i(1) by (auto simp: itoa_def split: if_splits)
  with ab i v show "range_ok 0 a b \<and> v = itoa a @ ''-'' @ itoa b" by (simp add: range_ok_def)
next
  assume r: "range_ok 0 a b \<and> v = itoa a @ ''-'' @ itoa b"
  then have "list_all is_digit (itoa a)" "list_all is_digit (itoa b)"
    by (auto simp: range_ok_def itoa_nonneg_digits)
  then have "cut_on CHR ''-'' v = (itoa a, itoa b, True)" "CHR ''-'' \<notin> set (itoa b)"
    using r digits_no_sep cut_on_append by auto
  moreover have "parseCanonicalInt (itoa a) = Some a" "parseCanonicalInt (itoa b) = Some b"
    using r by (auto simp: parseCanonicalInt_iff range_ok_def min_int64_def max_int64_def)
  ultimately show "parseSpanRange v = Inr (a, b)" using r by (simp add: parseSpanRange_def range_ok_def)
qed

lemma parseSpanAux_iff:
  "parseSpanAux v = Inr (x, r) \<longleftrightarrow> v = x @ ''@'' @ r \<and> x \<noteq> [] \<and> r \<noteq> []
     \<and> CHR ''@'' \<notin> set x \<and> CHR ''@'' \<notin> set r"
proof
  assume p: "parseSpanAux v = Inr (x, r)"
  obtain a b ok where c: "cut_on CHR ''@'' v = (a, b, ok)" by (cases "cut_on CHR ''@'' v")
  with p show "v = x @ ''@'' @ r \<and> x \<noteq> [] \<and> r \<noteq> [] \<and> CHR ''@'' \<notin> set x \<and> CHR ''@'' \<notin> set r"
    using cut_on_found [of "CHR ''@''" v a b] by (auto simp: parseSpanAux_def split: if_splits)
qed (simp add: parseSpanAux_def cut_on_append)

lemma parseSpanKind_iff:
  "parseSpanKind v = Inr (k, r) \<longleftrightarrow> k \<in> {SpanKindText, SpanKindCode, SpanKindTable} \<and> r \<noteq> []
     \<and> v = kind_string k @ ''.'' @ r"
proof
  assume p: "parseSpanKind v = Inr (k, r)"
  obtain a b ok where c: "cut_on CHR ''.'' v = (a, b, ok)" by (cases "cut_on CHR ''.'' v")
  with p show "k \<in> {SpanKindText, SpanKindCode, SpanKindTable} \<and> r \<noteq> [] \<and> v = kind_string k @ ''.'' @ r"
    using cut_on_found [of "CHR ''.''" v a b] by (auto simp: parseSpanKind_def split: if_splits)
next
  assume "k \<in> {SpanKindText, SpanKindCode, SpanKindTable} \<and> r \<noteq> [] \<and> v = kind_string k @ ''.'' @ r"
  then show "parseSpanKind v = Inr (k, r)"
    using cut_on_append [of "CHR ''.''" "''text''" r] cut_on_append [of "CHR ''.''" "''code''" r]
      cut_on_append [of "CHR ''.''" "''table''" r]
    by (auto simp: parseSpanKind_def)
qed

text \<open>The addresses the format can carry: named parts free of the separators, the coordinates of the
  kind in range and those of the other kinds zero, a digest of 16 lowercase hex characters.\<close>

definition text_coordinates :: "address \<Rightarrow> bool" where
  "text_coordinates a \<longleftrightarrow> range_ok 0 (ad_CharStart a) (ad_CharEnd a)
     \<and> a = a\<lparr>ad_File := [], ad_LineStart := 0, ad_LineEnd := 0, ad_Snapshot := [], ad_RowStart := 0, ad_RowEnd := 0\<rparr>"

definition code_coordinates :: "address \<Rightarrow> bool" where
  "code_coordinates a \<longleftrightarrow> range_ok 1 (ad_LineStart a) (ad_LineEnd a) \<and> ad_File a \<noteq> []
     \<and> CHR ''@'' \<notin> set (ad_File a) \<and> CHR '':'' \<notin> set (ad_File a)
     \<and> a = a\<lparr>ad_CharStart := 0, ad_CharEnd := 0, ad_Snapshot := [], ad_RowStart := 0, ad_RowEnd := 0\<rparr>"

definition table_coordinates :: "address \<Rightarrow> bool" where
  "table_coordinates a \<longleftrightarrow> range_ok 1 (ad_RowStart a) (ad_RowEnd a) \<and> ad_Snapshot a \<noteq> []
     \<and> CHR ''@'' \<notin> set (ad_Snapshot a) \<and> CHR '':'' \<notin> set (ad_Snapshot a)
     \<and> a = a\<lparr>ad_CharStart := 0, ad_CharEnd := 0, ad_File := [], ad_LineStart := 0, ad_LineEnd := 0\<rparr>"

definition name_ok :: "gostring \<Rightarrow> bool" where
  "name_ok s \<longleftrightarrow> s \<noteq> [] \<and> CHR '':'' \<notin> set s \<and> CHR ''~'' \<notin> set s"

definition canonical_address :: "address \<Rightarrow> bool" where
  "canonical_address a \<longleftrightarrow> name_ok (ad_Source a) \<and> name_ok (ad_Object a)
     \<and> ad_Version a \<noteq> [] \<and> CHR '':'' \<notin> set (ad_Version a)
     \<and> length (ad_SpanHash a) = 16 \<and> list_all is_hex (ad_SpanHash a)
     \<and> (case ad_SpanKind a of SpanKindText \<Rightarrow> text_coordinates a | SpanKindCode \<Rightarrow> code_coordinates a
        | SpanKindTable \<Rightarrow> table_coordinates a | SpanKindOther _ \<Rightarrow> False)"

lemma split_five:
  "split_on c v = [f0, f1, f2, f3, f4] \<longleftrightarrow> v = f0 @ [c] @ f1 @ [c] @ f2 @ [c] @ f3 @ [c] @ f4
     \<and> (\<forall>f\<in>{f0, f1, f2, f3, f4}. c \<notin> set f)"
proof
  assume s: "split_on c v = [f0, f1, f2, f3, f4]"
  then show "v = f0 @ [c] @ f1 @ [c] @ f2 @ [c] @ f3 @ [c] @ f4 \<and> (\<forall>f\<in>{f0, f1, f2, f3, f4}. c \<notin> set f)"
    using join_split_on [of c v] split_on_pieces [of _ c v] by auto
qed (simp add: split_on_append_sep split_on_no_sep)

definition address_head :: "gostring \<Rightarrow> gostring \<Rightarrow> gostring \<Rightarrow> span_kind \<Rightarrow> gostring \<Rightarrow> address" where
  "address_head source object version kind hash = zero_address\<lparr>ad_Source := source, ad_Object := object,
     ad_Version := version, ad_SpanKind := kind, ad_SpanHash := hash\<rparr>"

lemma Parse_iff:
  "Parse v = Inr a \<longleftrightarrow> (\<exists>source object version kind span hash.
     v = ''kv1:'' @ source @ ''~'' @ object @ '':'' @ version @ '':'' @ kind_string kind @ ''.'' @ span @ '':'' @ hash
     \<and> name_ok source \<and> name_ok object \<and> version \<noteq> [] \<and> CHR '':'' \<notin> set version
     \<and> validHash16 hash \<and> kind \<in> {SpanKindText, SpanKindCode, SpanKindTable} \<and> span \<noteq> [] \<and> CHR '':'' \<notin> set span
     \<and> parse_coordinates (address_head source object version kind hash) kind span = Inr a)"
    (is "_ \<longleftrightarrow> (\<exists>source object version kind span hash. ?C source object version kind span hash)")
proof
  assume p: "Parse v = Inr a"
  then obtain f1 f2 f3 f4 where s: "split_on CHR '':'' v = [''kv1'', f1, f2, f3, f4]"
    by (auto simp: Parse_def split: if_splits list.splits)
  obtain source object ok where c: "cut_on CHR ''~'' f1 = (source, object, ok)" by (cases "cut_on CHR ''~'' f1")
  from p s c obtain kind span where h: "ok" "source \<noteq> []" "object \<noteq> []" "CHR ''~'' \<notin> set object"
      "f2 \<noteq> []" "validHash16 f4" "parseSpanKind f3 = Inr (kind, span)"
      "parse_coordinates (address_head source object f2 kind f4) kind span = Inr a"
    by (auto simp: Parse_def address_head_def split: if_splits)
  from c h(1) have f1: "f1 = source @ CHR ''~'' # object" "CHR ''~'' \<notin> set source" using cut_on_found by auto
  from h(7) have f3: "kind \<in> {SpanKindText, SpanKindCode, SpanKindTable}" "span \<noteq> []"
      "f3 = kind_string kind @ ''.'' @ span" by (simp_all add: parseSpanKind_iff)
  have "?C source object f2 kind span f4"
    using s [unfolded split_five] h f1 f3 by (auto simp: name_ok_def)
  then show "\<exists>source object version kind span hash. ?C source object version kind span hash" by blast
next
  assume "\<exists>source object version kind span hash. ?C source object version kind span hash"
  then obtain source object version kind span hash where c: "?C source object version kind span hash" by blast
  then have "CHR '':'' \<notin> set hash" by (simp add: validHash16_iff hex_no_colon)
  with c have s: "split_on CHR '':'' v = [''kv1'', source @ ''~'' @ object, version, kind_string kind @ ''.'' @ span, hash]"
    unfolding split_five by (auto simp: name_ok_def)
  have k: "parseSpanKind (kind_string kind @ ''.'' @ span) = Inr (kind, span)"
    using c parseSpanKind_iff by blast
  have "cut_on CHR ''~'' (source @ ''~'' @ object) = (source, object, True)"
    using c cut_on_append [of "CHR ''~''" source object] by (simp add: name_ok_def)
  moreover have "has_prefix ''kv1:'' v" using c by (auto simp: has_prefix_iff)
  ultimately show "Parse v = Inr a"
    using c s k by (simp add: Parse_def name_ok_def address_head_def)
qed

lemma range_no_colon: "range_ok 0 a b \<Longrightarrow> CHR '':'' \<notin> set (itoa a @ ''-'' @ itoa b)
    \<and> CHR ''@'' \<notin> set (itoa a @ ''-'' @ itoa b)"
  using digits_no_sep [of "itoa a"] digits_no_sep [of "itoa b"] itoa_nonneg_digits [of a] itoa_nonneg_digits [of b]
  by (auto simp: range_ok_def)

lemma range_ok_weaken: "range_ok 1 a b \<Longrightarrow> range_ok 0 a b"
  by (simp add: range_ok_def)

lemmas coordinates_defs = text_coordinates_def code_coordinates_def table_coordinates_def

lemma parse_coordinates_sound:
  assumes "parse_coordinates (address_head source object version kind hash) kind span = Inr a"
    and "kind \<in> {SpanKindText, SpanKindCode, SpanKindTable}" and "CHR '':'' \<notin> set span"
  shows "ad_Source a = source \<and> ad_Object a = object \<and> ad_Version a = version \<and> ad_SpanKind a = kind
    \<and> ad_SpanHash a = hash \<and> spanToken a = kind_string kind @ ''.'' @ span
    \<and> (case kind of SpanKindText \<Rightarrow> text_coordinates a | SpanKindCode \<Rightarrow> code_coordinates a
        | SpanKindTable \<Rightarrow> table_coordinates a | SpanKindOther _ \<Rightarrow> False)"
  using assms
  by (auto simp: parse_coordinates_def address_head_def zero_address_def spanToken_def parseSpanRange_iff
      parseSpanAux_iff coordinates_defs range_ok_def split: if_splits)

lemma parse_coordinates_complete:
  assumes "ad_SpanKind a \<in> {SpanKindText, SpanKindCode, SpanKindTable}"
    and "case ad_SpanKind a of SpanKindText \<Rightarrow> text_coordinates a | SpanKindCode \<Rightarrow> code_coordinates a
        | SpanKindTable \<Rightarrow> table_coordinates a | SpanKindOther _ \<Rightarrow> False"
  obtains span where "spanToken a = kind_string (ad_SpanKind a) @ ''.'' @ span" "span \<noteq> []" "CHR '':'' \<notin> set span"
    "parse_coordinates (address_head (ad_Source a) (ad_Object a) (ad_Version a) (ad_SpanKind a) (ad_SpanHash a))
       (ad_SpanKind a) span = Inr a"
proof (cases "ad_SpanKind a")
  case SpanKindText
  with assms(2) have c: "text_coordinates a" by simp
  show ?thesis
  proof (rule that [of "itoa (ad_CharStart a) @ ''-'' @ itoa (ad_CharEnd a)"])
    have "parseSpanRange (itoa (ad_CharStart a) @ ''-'' @ itoa (ad_CharEnd a)) = Inr (ad_CharStart a, ad_CharEnd a)"
      using c unfolding parseSpanRange_iff text_coordinates_def by simp
    then show "parse_coordinates (address_head (ad_Source a) (ad_Object a) (ad_Version a) (ad_SpanKind a) (ad_SpanHash a))
       (ad_SpanKind a) (itoa (ad_CharStart a) @ ''-'' @ itoa (ad_CharEnd a)) = Inr a"
      using c SpanKindText by (cases a) (simp add: parse_coordinates_def address_head_def zero_address_def coordinates_defs range_ok_def)
  qed (use c SpanKindText range_no_colon in \<open>auto simp: spanToken_def text_coordinates_def\<close>)
next
  case SpanKindCode
  with assms(2) have c: "code_coordinates a" by simp
  let ?r = "itoa (ad_LineStart a) @ ''-'' @ itoa (ad_LineEnd a)"
  have r: "range_ok 0 (ad_LineStart a) (ad_LineEnd a)" using c range_ok_weaken by (simp add: code_coordinates_def)
  show ?thesis
  proof (rule that [of "ad_File a @ ''@'' @ ?r"])
    have "parseSpanRange ?r = Inr (ad_LineStart a, ad_LineEnd a)" using r unfolding parseSpanRange_iff by simp
    moreover have "parseSpanAux (ad_File a @ ''@'' @ ?r) = Inr (ad_File a, ?r)"
      using c range_no_colon [OF r] unfolding parseSpanAux_iff by (simp add: code_coordinates_def)
    ultimately show "parse_coordinates (address_head (ad_Source a) (ad_Object a) (ad_Version a) (ad_SpanKind a) (ad_SpanHash a))
       (ad_SpanKind a) (ad_File a @ ''@'' @ ?r) = Inr a"
      using c SpanKindCode by (cases a) (simp add: parse_coordinates_def address_head_def zero_address_def coordinates_defs range_ok_def)
  qed (use c SpanKindCode range_no_colon [OF r] in \<open>auto simp: spanToken_def code_coordinates_def\<close>)
next
  case SpanKindTable
  with assms(2) have c: "table_coordinates a" by simp
  let ?r = "itoa (ad_RowStart a) @ ''-'' @ itoa (ad_RowEnd a)"
  have r: "range_ok 0 (ad_RowStart a) (ad_RowEnd a)" using c range_ok_weaken by (simp add: table_coordinates_def)
  show ?thesis
  proof (rule that [of "ad_Snapshot a @ ''@'' @ ?r"])
    have "parseSpanRange ?r = Inr (ad_RowStart a, ad_RowEnd a)" using r unfolding parseSpanRange_iff by simp
    moreover have "parseSpanAux (ad_Snapshot a @ ''@'' @ ?r) = Inr (ad_Snapshot a, ?r)"
      using c range_no_colon [OF r] unfolding parseSpanAux_iff by (simp add: table_coordinates_def)
    ultimately show "parse_coordinates (address_head (ad_Source a) (ad_Object a) (ad_Version a) (ad_SpanKind a) (ad_SpanHash a))
       (ad_SpanKind a) (ad_Snapshot a @ ''@'' @ ?r) = Inr a"
      using c SpanKindTable by (cases a) (simp add: parse_coordinates_def address_head_def zero_address_def coordinates_defs range_ok_def)
  qed (use c SpanKindTable range_no_colon [OF r] in \<open>auto simp: spanToken_def table_coordinates_def\<close>)
qed (use assms in simp)

text \<open>
  C3. \<open>Parse\<close> and \<open>String\<close> are exact inverses: a value parses to an address iff the address is one
  the format can carry and the value is its rendering. So every rendering parses back to its
  address, every parsed value is the one rendering of its address, and everything else is refused
  (leading zeros, signs, reversed ranges, unknown kinds, upper-case digests, extra fields).
\<close>

theorem address_roundtrip: "Parse v = Inr a \<longleftrightarrow> canonical_address a \<and> v = String a"
proof
  assume "Parse v = Inr a"
  then obtain source object version kind span hash where
    v: "v = ''kv1:'' @ source @ ''~'' @ object @ '':'' @ version @ '':'' @ kind_string kind @ ''.'' @ span @ '':'' @ hash"
    and p: "name_ok source" "name_ok object" "version \<noteq> []" "CHR '':'' \<notin> set version" "validHash16 hash"
      "kind \<in> {SpanKindText, SpanKindCode, SpanKindTable}" "CHR '':'' \<notin> set span"
      "parse_coordinates (address_head source object version kind hash) kind span = Inr a"
    unfolding Parse_iff by blast
  from parse_coordinates_sound [OF p(8,6,7)] v p(1-5) show "canonical_address a \<and> v = String a"
    by (simp add: canonical_address_def String_def validHash16_iff)
next
  assume c: "canonical_address a \<and> v = String a"
  then have k: "ad_SpanKind a \<in> {SpanKindText, SpanKindCode, SpanKindTable}"
    by (cases "ad_SpanKind a") (auto simp: canonical_address_def)
  obtain span where "spanToken a = kind_string (ad_SpanKind a) @ ''.'' @ span" "span \<noteq> []" "CHR '':'' \<notin> set span"
    "parse_coordinates (address_head (ad_Source a) (ad_Object a) (ad_Version a) (ad_SpanKind a) (ad_SpanHash a))
       (ad_SpanKind a) span = Inr a"
    by (rule parse_coordinates_complete [OF k]) (use c in \<open>simp_all add: canonical_address_def\<close>)
  note span = this
  show "Parse v = Inr a" unfolding Parse_iff
    by (rule exI [of _ "ad_Source a"], rule exI [of _ "ad_Object a"], rule exI [of _ "ad_Version a"],
        rule exI [of _ "ad_SpanKind a"], rule exI [of _ span], rule exI [of _ "ad_SpanHash a"])
      (use span c k in \<open>simp add: String_def canonical_address_def validHash16_iff\<close>)
qed

section \<open>What a span addresses\<close>

lemma rune_offsets_nth:
  "length (rune_offsets i s) = Suc (length (chunks s))
   \<and> (k \<le> length (chunks s) \<longrightarrow> rune_offsets i s ! k = i + length (concat (take k (chunks s))))"
proof (induction i s arbitrary: k rule: rune_offsets.induct)
  case (1 i s)
  show ?case
  proof (cases "s = []")
    case True
    then show ?thesis by (subst rune_offsets.simps) (simp add: rune_offsets.simps)
  next
    case False
    define n where "n = snd (decode_rune s)"
    have n: "1 \<le> n" "n \<le> length s" using False decode_rune_width [of s] by (auto simp: n_def)
    have IH: "length (rune_offsets (i + n) (drop n s)) = Suc (length (chunks (drop n s)))"
      "\<And>k. k \<le> length (chunks (drop n s)) \<Longrightarrow>
        rune_offsets (i + n) (drop n s) ! k = i + n + length (concat (take k (chunks (drop n s))))"
      using 1 [OF False refl] n(1) by (simp_all add: n_def)
    have r: "rune_offsets i s = i # rune_offsets (i + n) (drop n s)"
      using False n by (subst rune_offsets.simps) (simp add: Let_def n_def)
    have c: "chunks s = take n s # chunks (drop n s)"
      using False by (subst chunks.simps) (simp add: n_def)
    show ?thesis unfolding r c using IH n by (cases k) auto
  qed
qed

lemma concat_slice:
  "i \<le> j \<Longrightarrow> j \<le> length cs \<Longrightarrow>
     slice (length (concat (take i cs))) (length (concat (take j cs))) (concat cs) = concat (slice i j cs)"
proof -
  assume "i \<le> j" "j \<le> length cs"
  have "take j cs = take i cs @ slice i j cs" using \<open>i \<le> j\<close> by (simp add: slice_def take_add [symmetric])
  then have j: "concat (take j cs) = concat (take i cs) @ concat (slice i j cs)" by simp
  have "concat cs = concat (take j cs) @ concat (drop j cs)" by (metis append_take_drop_id concat_append)
  then show ?thesis unfolding slice_def [of "length _"] j by simp
qed

lemma textSpan_exact:
  "textSpan original start stop =
     (if 0 \<le> start \<and> start \<le> stop \<and> stop \<le> int (rune_count original)
      then Inr (concat (slice (nat start) (nat stop) (chunks original))) else Inl ErrSpanOutOfRange)"
proof -
  have len: "length (runeByteOffsets original) = Suc (rune_count original)"
    by (simp add: runeByteOffsets_def rune_offsets_nth rune_count_chunks)
  have "slice (runeByteOffsets original ! i) (runeByteOffsets original ! j) original
      = concat (slice i j (chunks original))" if "i \<le> j" "j \<le> rune_count original" for i j
    using that concat_slice [of i j "chunks original"]
    by (simp add: runeByteOffsets_def rune_offsets_nth rune_count_chunks concat_chunks)
  then show ?thesis by (auto simp: textSpan_def Let_def len)
qed

lemma lineSpan_exact:
  "lineSpan original a b =
     (if 1 \<le> a \<and> a \<le> b \<and> b \<le> int (length (split_on LF original))
      then Inr (join_with [LF] (slice (nat (a - 1)) (nat b) (split_on LF original))) else Inl ErrSpanOutOfRange)"
  using LineRangeBytes_text [of original a b]
  by (auto simp: lineSpan_def split: option.splits if_splits)

text \<open>
  An address resolves to exactly the span it names: a text span to the runes from its start to
  its end, a code or table span to the lines from its first to its last, as separated by LF; a span
  that is reversed or reaches past the original is out of range and yields no bytes.
\<close>

theorem span_exact:
  "Span a original =
    (case ad_SpanKind a of
       SpanKindText \<Rightarrow>
         if 0 \<le> ad_CharStart a \<and> ad_CharStart a \<le> ad_CharEnd a \<and> ad_CharEnd a \<le> int (rune_count original)
         then Inr (concat (slice (nat (ad_CharStart a)) (nat (ad_CharEnd a)) (chunks original)))
         else Inl ErrSpanOutOfRange
     | SpanKindCode \<Rightarrow>
         if 1 \<le> ad_LineStart a \<and> ad_LineStart a \<le> ad_LineEnd a
            \<and> ad_LineEnd a \<le> int (length (split_on LF original))
         then Inr (join_with [LF] (slice (nat (ad_LineStart a - 1)) (nat (ad_LineEnd a)) (split_on LF original)))
         else Inl ErrSpanOutOfRange
     | SpanKindTable \<Rightarrow>
         if 1 \<le> ad_RowStart a \<and> ad_RowStart a \<le> ad_RowEnd a
            \<and> ad_RowEnd a \<le> int (length (split_on LF original))
         then Inr (join_with [LF] (slice (nat (ad_RowStart a - 1)) (nat (ad_RowEnd a)) (split_on LF original)))
         else Inl ErrSpanOutOfRange
     | SpanKindOther _ \<Rightarrow> Inl ErrMalformedAddress)"
  by (simp only: Span_def textSpan_exact lineSpan_exact)

section \<open>What the digest binds\<close>

lemma take_hex_encode: "take (2 * n) (hex_encode s) = hex_encode (take n s)"
proof (induction n arbitrary: s)
  case (Suc n)
  then show ?case by (cases s) auto
qed simp

lemma hash16Of_eq:
  assumes "\<And>m. length (hmac (dk_key k) m) = 32"
  shows "hash16Of hmac k span =
    (if dk_version k < 1 then Inl ErrInvalidDigestKey else Inr (hex_encode (take 8 (hmac (dk_key k) span))))"
proof -
  let ?h = "hex_encode (hmac (dk_key k) span)"
  have i: "CHR '':'' \<notin> set (itoa (dk_version k))" if "\<not> dk_version k < 1"
    using that digits_no_sep itoa_nonneg_digits by simp
  have s: "split_on CHR '':'' (HMACDigest hmac (dk_key k) (dk_version k) span)
      = [''hmac-sha256'', CHR ''k'' # itoa (dk_version k), ?h]" if "\<not> dk_version k < 1"
    unfolding HMACDigest_def
    using split_join_with [of "[''hmac-sha256'', CHR ''k'' # itoa (dk_version k), ?h]" "CHR '':''"]
      i [OF that] hex_no_colon [OF hex_encode_is_hex, of "hmac (dk_key k) span"] by simp
  show ?thesis using s assms take_hex_encode [of 8] by (simp add: hash16Of_def Let_def)
qed

text \<open>
  What the keyed digest binds. An address that got its digest from the key verifies against
  the same original and returns its span, its digest is one \<open>Parse\<close> accepts, and against any other
  original the verification returns bytes only when the first eight bytes of their MAC are those of
  the original span: every other answer is an error and no content. (HMAC-SHA-256 yields 32 bytes.)
\<close>

theorem span_digest_binds:
  assumes "\<And>m. length (hmac (dk_key k) m) = 32" and "WithSpanHash hmac k a original = Inr a'"
  shows "\<exists>span. Span a original = Inr span \<and> VerifySpan hmac k original a' = Inr span
    \<and> validHash16 (ad_SpanHash a')
    \<and> (\<forall>other. VerifySpan hmac k other a' = and_then (Span a other) (\<lambda>s.
         if take 8 (hmac (dk_key k) s) = take 8 (hmac (dk_key k) span) then Inr s else Inl ErrSpanMismatch))"
proof -
  have fields: "Span (a\<lparr>ad_SpanHash := h\<rparr>) = Span a" for h
    by (rule ext) (auto simp: Span_def split: span_kind.split)
  note h16 = hash16Of_eq [of hmac k, OF assms(1)]
  from assms(2) obtain span where span: "Span a original = Inr span" and v: "\<not> dk_version k < 1"
    and a': "a' = a\<lparr>ad_SpanHash := hex_encode (take 8 (hmac (dk_key k) span))\<rparr>"
    by (auto simp: WithSpanHash_def Hash16_def h16 split: if_splits)
  have len: "length (take 8 (hmac (dk_key k) m)) = 8" for m using assms(1) by simp
  have ne: "hex_encode (take 8 (hmac (dk_key k) span)) \<noteq> []"
    using len [of span] length_hex_encode by (metis list.size(3) mult_eq_0_iff zero_neq_numeral)
  have eq: "hex_encode (take 8 (hmac (dk_key k) s)) = hex_encode (take 8 (hmac (dk_key k) span))
      \<longleftrightarrow> take 8 (hmac (dk_key k) s) = take 8 (hmac (dk_key k) span)" for s
    using hex_encode_inj len by metis
  have "VerifySpan hmac k other a' = and_then (Span a other) (\<lambda>s.
         if take 8 (hmac (dk_key k) s) = take 8 (hmac (dk_key k) span) then Inr s else Inl ErrSpanMismatch)" for other
    using ne v by (cases "Span a other") (simp_all add: VerifySpan_def a' fields h16 eq)
  moreover have "validHash16 (ad_SpanHash a')"
    using len hex_encode_is_hex by (simp add: validHash16_iff a')
  ultimately show ?thesis using span by auto
qed

definition example_hmac :: "gostring \<Rightarrow> gostring \<Rightarrow> gostring" where
  "example_hmac key m = take 32 (m @ replicate 32 CHR 0x00)"

definition example_address :: address where
  "example_address = \<lparr>ad_Source = ''src'', ad_Object = ''obj'', ad_Version = ''v1'',
     ad_SpanKind = SpanKindText, ad_CharStart = 0, ad_CharEnd = 1, ad_File = [], ad_LineStart = 0,
     ad_LineEnd = 0, ad_Snapshot = [], ad_RowStart = 0, ad_RowEnd = 0, ad_SpanHash = []\<rparr>"

lemma example_span: "Span example_address ''ab'' = Inr ''a''"
  by (simp add: Span_def example_address_def textSpan_def Let_def runeByteOffsets_def rune_offsets.simps
      decode_rune_unfold slice_def)

theorem span_digest_binds_witness:
  "\<exists>a'. WithSpanHash example_hmac anonymousSpanDigestKey example_address ''ab'' = Inr a'
     \<and> VerifySpan example_hmac anonymousSpanDigestKey ''ab'' a' = Inr ''a''"
proof -
  have len: "\<And>m. length (example_hmac (dk_key anonymousSpanDigestKey) m) = 32" by (simp add: example_hmac_def)
  have "WithSpanHash example_hmac anonymousSpanDigestKey example_address ''ab'' = Inr (example_address\<lparr>ad_SpanHash
      := hex_encode (take 8 (example_hmac (dk_key anonymousSpanDigestKey) ''a''))\<rparr>)"
    using example_span hash16Of_eq [of example_hmac anonymousSpanDigestKey, OF len]
    by (simp add: WithSpanHash_def Hash16_def anonymousSpanDigestKey_def)
  from span_digest_binds [of example_hmac anonymousSpanDigestKey, OF len this] this example_span
  show ?thesis by auto
qed

section \<open>Reading page by page\<close>

text \<open>A client that starts with the empty cursor and follows \<open>NextCursor\<close> while there is more.\<close>

fun read_pages :: "nat \<Rightarrow> (gostring \<Rightarrow> gostring) \<Rightarrow> gostring \<Rightarrow> gostring \<Rightarrow> int
    \<Rightarrow> (address_error + page list) option" where
  "read_pages 0 hash original cursor limit = None"
| "read_pages (Suc fuel) hash original cursor limit =
    (case Read hash original cursor limit of
       Inl e \<Rightarrow> Some (Inl e)
     | Inr p \<Rightarrow>
         if pg_HasMore p
         then map_option (map_sum id (\<lambda>ps. p # ps)) (read_pages fuel hash original (pg_NextCursor p) limit)
         else Some (Inr [p]))"

lemma valid_utf8_hd: "valid_utf8 s \<Longrightarrow> s \<noteq> [] \<Longrightarrow> rune_start (hd s)"
proof (cases s)
  case (Cons c t)
  assume "valid_utf8 s" "s \<noteq> []"
  with Cons show ?thesis
    by (auto simp: valid_utf8_Cons decode_rune_unfold rune_start_def is_cont_def rune_error_def split: if_splits)
qed simp

lemma advance_at_boundary: "valid_utf8 (drop i s) \<Longrightarrow> advance s i = i"
  using valid_utf8_hd [of "drop i s"] by (subst advance.simps) (auto simp: hd_drop_conv_nth)

lemma snap_back_spec:
  "start \<le> stop \<Longrightarrow> start \<le> snap_back s start stop \<and> snap_back s start stop \<le> stop
     \<and> (snap_back s start stop = start \<or> snap_back s start stop \<ge> int (length s)
          \<or> rune_start (s ! nat (snap_back s start stop)))"
proof (induction s start stop rule: snap_back.induct)
  case (1 s start stop)
  show ?case
  proof (cases "stop > start \<and> stop < int (length s) \<and> \<not> rune_start (s ! nat stop)")
    case True
    then have "snap_back s start stop = snap_back s start (stop - 1)" by (subst snap_back.simps) simp
    with 1(1) [OF True] True show ?thesis by auto
  next
    case False
    then have "snap_back s start stop = stop" by (subst snap_back.simps) (simp only: if_False)
    with False 1(2) show ?thesis by auto
  qed
qed

text \<open>A page that starts at a boundary of a valid text ends at the next ones: it advances, it is
  valid text and so is the rest, and it is no longer than the limit or one rune.\<close>

lemma pageEnd_boundary:
  assumes "valid_utf8 (drop i s)" "i < length s" "1 \<le> limit" "int (length s) + limit \<le> max_int64"
  obtains j where "pageEnd s (int i) limit = int j" "i < j" "j \<le> length s"
    "valid_utf8 (slice i j s)" "valid_utf8 (drop j s)" "int (j - i) \<le> max limit 4"
proof -
  define e where "e = (if int i + limit > int (length s) then int (length s) else int i + limit)"
  define b where "b = snap_back s (int i) e"
  define w where "w = snd (decode_rune (drop i s))"
  have wrap: "wrap64 (int i + limit) = int i + limit"
    using assms by (intro wrap64_id) (auto simp: min_int64_def)
  have e: "int i < e" "e \<le> int (length s)" "e \<le> int i + limit" using assms by (auto simp: e_def)
  have b: "int i \<le> b" "b \<le> e" "b = int i \<or> b \<ge> int (length s) \<or> rune_start (s ! nat b)"
    using snap_back_spec [of "int i" e s] e by (auto simp: b_def)
  have w: "1 \<le> w" "w \<le> 4" "i + w \<le> length s"
    using decode_rune_width [of "drop i s"] assms(2) by (auto simp: w_def)
  have pe: "pageEnd s (int i) limit = (if b = int i then int (i + w) else b)"
    using assms(2) w by (simp add: pageEnd_def Let_def wrap e_def [symmetric] b_def [symmetric] w_def)
  define j where "j = (if b = int i then i + w else nat b)"
  have j: "pageEnd s (int i) limit = int j" "i < j" "j \<le> length s" "int (j - i) \<le> max limit 4"
    using pe b e w by (auto simp: j_def)
  have "drop j s = [] \<or> rune_start (hd (drop j s))"
  proof (cases "b = int i")
    case True
    then have "valid_utf8 (drop j s)"
      using assms(1,2) by (simp add: valid_utf8_step j_def w_def add.commute)
    then show ?thesis using valid_utf8_hd by blast
  next
    case False
    with b(1,3) j show ?thesis by (cases "j < length s") (auto simp: j_def hd_drop_conv_nth)
  qed
  moreover have "drop i s = slice i j s @ drop j s"
    using j slice_append [of i j "length s" s] by (simp add: slice_to_end)
  ultimately have "valid_utf8 (slice i j s) \<and> valid_utf8 (drop j s)"
    using valid_utf8_split [of "slice i j s" "drop j s"] assms(1) by simp
  with j that show thesis by blast
qed

lemma parseCursor_itoa: "0 \<le> i \<Longrightarrow> i \<le> max_int64 \<Longrightarrow> parseCursor (''v1:'' @ itoa i) = Inr i"
  using atoi_itoa [of i] by (simp add: parseCursor_def trim_prefix_def min_int64_def)

definition cursor_at :: "nat \<Rightarrow> gostring \<Rightarrow> bool" where
  "cursor_at i cursor \<longleftrightarrow> parseCursor cursor = Inr (int i)"

lemma Read_at_boundary:
  assumes "cursor_at i cursor" "valid_utf8 (drop i s)" "i \<le> length s" "1 \<le> limit"
    and "int (length s) + limit \<le> max_int64"
  obtains p j where "Read hash s cursor limit = Inr p" "pg_Data p = slice i j s" "valid_utf8 (pg_Data p)"
    "int (length (pg_Data p)) \<le> max limit 4" "pg_Offset p = int i" "pg_TotalBytes p = int (length s)"
    "pg_WholeHash p = hash s" "pg_Complete p = (\<not> pg_HasMore p)" "i \<le> j" "j \<le> length s"
    "pg_HasMore p \<longleftrightarrow> j < length s" "pg_HasMore p \<longrightarrow> i < j \<and> cursor_at j (pg_NextCursor p) \<and> valid_utf8 (drop j s)"
proof (cases "i = length s")
  case True
  have wrap: "wrap64 (int i + limit) = int i + limit"
    using assms True by (intro wrap64_id) (auto simp: min_int64_def)
  have "pageEnd s (int i) limit = int i"
    using assms(4) True by (simp add: pageEnd_def Let_def wrap [unfolded True] snap_back.simps)
  then show ?thesis
    using assms True advance_at_boundary [OF assms(2)]
    by (intro that [of "\<lparr>pg_Data = [], pg_Offset = int i, pg_TotalBytes = int (length s), pg_WholeHash = hash s,
         pg_NextCursor = [], pg_HasMore = False, pg_Complete = True\<rparr>" i])
      (simp_all add: Read_def Let_def cursor_at_def)
next
  case False
  with assms(3) have "i < length s" by simp
  from pageEnd_boundary [OF assms(2) this assms(4,5)] obtain j where
    j: "pageEnd s (int i) limit = int j" "i < j" "j \<le> length s"
    "valid_utf8 (slice i j s)" "valid_utf8 (drop j s)" "int (j - i) \<le> max limit 4" by blast
  have "parseCursor (''v1:'' @ itoa (int j)) = Inr (int j)"
    using j assms(4,5) by (intro parseCursor_itoa) auto
  then show ?thesis
    using assms j advance_at_boundary [OF assms(2)]
    by (intro that [of "\<lparr>pg_Data = slice i j s, pg_Offset = int i, pg_TotalBytes = int (length s), pg_WholeHash = hash s,
         pg_NextCursor = (if j < length s then ''v1:'' @ itoa (int j) else []), pg_HasMore = (j < length s),
         pg_Complete = (\<not> j < length s)\<rparr>" j])
      (simp_all add: Read_def Let_def cursor_at_def)
qed

text \<open>The pages read from a boundary on: enough fuel is the number of bytes left, plus one.\<close>

lemma read_pages_at_boundary:
  "cursor_at i cursor \<Longrightarrow> valid_utf8 (drop i s) \<Longrightarrow> i \<le> length s \<Longrightarrow> 1 \<le> limit \<Longrightarrow>
   int (length s) + limit \<le> max_int64 \<Longrightarrow> length s - i < fuel \<Longrightarrow>
     \<exists>ps. read_pages fuel hash s cursor limit = Some (Inr ps) \<and> concat (map pg_Data ps) = drop i s
       \<and> list_all (\<lambda>p. valid_utf8 (pg_Data p) \<and> int (length (pg_Data p)) \<le> max limit 4
            \<and> pg_WholeHash p = hash s \<and> pg_TotalBytes p = int (length s)) ps
       \<and> map pg_Complete ps = replicate (length ps - 1) False @ [True]"
proof (induction fuel arbitrary: i cursor)
  case (Suc fuel)
  from Read_at_boundary [OF Suc.prems(1-5), where hash = hash] obtain p j where
    p: "Read hash s cursor limit = Inr p" "pg_Data p = slice i j s" "valid_utf8 (pg_Data p)"
    "int (length (pg_Data p)) \<le> max limit 4" "pg_TotalBytes p = int (length s)" "pg_WholeHash p = hash s"
    "pg_Complete p = (\<not> pg_HasMore p)" "i \<le> j" "j \<le> length s" "pg_HasMore p \<longleftrightarrow> j < length s"
    "pg_HasMore p \<longrightarrow> i < j \<and> cursor_at j (pg_NextCursor p) \<and> valid_utf8 (drop j s)" by metis
  show ?case
  proof (cases "pg_HasMore p")
    case False
    then have "slice i j s = drop i s" using p by (simp add: slice_to_end [symmetric])
    with False p show ?thesis by simp
  next
    case True
    then have c: "cursor_at j (pg_NextCursor p)" "valid_utf8 (drop j s)" "i < j" using p(11) by auto
    have "length s - j < fuel" using c(3) p(9) Suc.prems(6) by linarith
    from Suc.IH [OF c(1,2) p(9) Suc.prems(4,5) this] obtain ps where
      ps: "read_pages fuel hash s (pg_NextCursor p) limit = Some (Inr ps)"
      "concat (map pg_Data ps) = drop j s"
      "list_all (\<lambda>p. valid_utf8 (pg_Data p) \<and> int (length (pg_Data p)) \<le> max limit 4
            \<and> pg_WholeHash p = hash s \<and> pg_TotalBytes p = int (length s)) ps"
      "map pg_Complete ps = replicate (length ps - 1) False @ [True]"
      by (elim exE conjE)
    have "slice i j s @ drop j s = drop i s"
      using p slice_append [of i j "length s" s] by (simp add: slice_to_end)
    then have "concat (map pg_Data (p # ps)) = drop i s" using p(2) ps(2) by simp
    moreover have "read_pages (Suc fuel) hash s cursor limit = Some (Inr (p # ps))"
      using p(1) True ps(1) by simp
    moreover have "map pg_Complete (p # ps) = replicate (length (p # ps) - 1) False @ [True]"
      using ps(4) p(7) True by (cases ps) auto
    moreover have "list_all (\<lambda>p. valid_utf8 (pg_Data p) \<and> int (length (pg_Data p)) \<le> max limit 4
            \<and> pg_WholeHash p = hash s \<and> pg_TotalBytes p = int (length s)) (p # ps)"
      using ps(3) p(3-6) by simp
    ultimately show ?thesis by blast
  qed
qed simp

text \<open>
  C12. Paged reading returns the original, and it ends: for every valid UTF-8 original and every
  positive limit, following the cursors from the start ends after at most one page per byte (plus
  one), the pages concatenate to the original byte for byte, each is valid UTF-8 of at most the
  limit or one rune, carries the digest and the size of the whole, and only the last says it is
  complete. (The sum of size and limit must not overflow Go's \<open>int\<close>.)
\<close>

theorem paged_read_reassembles:
  assumes "valid_utf8 original" "1 \<le> limit" "int (length original) + limit \<le> max_int64"
  shows "\<exists>ps. read_pages (Suc (length original)) hash original [] limit = Some (Inr ps)
    \<and> concat (map pg_Data ps) = original
    \<and> list_all (\<lambda>p. valid_utf8 (pg_Data p) \<and> int (length (pg_Data p)) \<le> max limit 4
         \<and> pg_WholeHash p = hash original \<and> pg_TotalBytes p = int (length original)) ps
    \<and> map pg_Complete ps = replicate (length ps - 1) False @ [True]"
  using read_pages_at_boundary [of 0 "[]" original limit "Suc (length original)" hash] assms
  by (simp add: cursor_at_def parseCursor_def)

theorem paged_read_reassembles_witness:
  "\<exists>ps. read_pages 3 id ''ab'' [] 1 = Some (Inr ps) \<and> concat (map pg_Data ps) = ''ab''"
  using paged_read_reassembles [of "''ab''" 1 id]
  by (force simp: utf8_eval decode_rune_unfold rune_error_def max_int64_def numeral_3_eq_3)

text \<open>
  For an original that is not valid UTF-8 the pages do not reproduce it: a continuation byte
  after a one-byte rune is stepped over by the next page's search for a rune start and is in no
  page, although the last page reports the read complete.
\<close>

theorem paged_read_drops_bytes:
  assumes "byte c < 0x80" "is_cont d"
  shows "\<exists>p q. read_pages 3 hash [c, d] [] 1 = Some (Inr [p, q]) \<and> pg_Complete q
    \<and> concat (map pg_Data [p, q]) = [c]"
proof -
  have c: "\<not> is_cont c" using assms(1) by (simp add: is_cont_def)
  have adv: "advance [c, d] 0 = 0" "advance [c, d] 1 = 2"
    using c assms(2) by (simp_all add: advance.simps rune_start_def)
  have wrap: "wrap64 1 = 1" "wrap64 3 = 3" by (simp_all add: wrap64_def)
  have "snap_back [c, d] 0 1 = 0" "snap_back [c, d] 2 2 = 2"
    using assms(2) by (simp_all add: snap_back.simps rune_start_def)
  then have ends: "pageEnd [c, d] 0 1 = 1" "pageEnd [c, d] 2 1 = 2"
    using assms(1) by (simp_all add: pageEnd_def Let_def wrap decode_rune_unfold)
  have cur: "parseCursor [] = Inr 0" "parseCursor (''v1:'' @ itoa 1) = Inr 1"
    using parseCursor_itoa [of 1] by (simp_all add: parseCursor_def max_int64_def)
  show ?thesis
    using adv ends cur by (simp add: numeral_3_eq_3 Read_def Let_def slice_def)
qed

theorem paged_read_drops_bytes_witness:
  "\<exists>p q. read_pages 3 id [CHR ''a'', CHR 0x80] [] 1 = Some (Inr [p, q]) \<and> concat (map pg_Data [p, q]) = ''a''"
  using paged_read_drops_bytes [of "CHR ''a''" "CHR 0x80" id] by (auto simp: is_cont_def)

end
