(* ===== verification/Sandbox_Wire.thy ===== *)
theory Sandbox_Wire
  imports Go_Strings
begin

text \<open>
  \<open>internal/sandboxdispatch/wire.go\<close>, \<open>limits.go\<close> and the framing functions of \<open>dispatch.go\<close>: the
  documents of the sandbox broker's wire protocol with their validators, the parsers of the
  cgroup bounds, and the frames. A \<open>time.Time\<close> is an \<open>int\<close> of nanoseconds; \<open>time.Parse\<close> for RFC 3339
  is the argument \<open>parse_time\<close>. A connection is the bytes still to be read. The lemmas show the closed
  matrices the validators admit and that a frame read back is the frame written.
\<close>

datatype wire_error = ErrWireRejected | ErrJobRejected | ErrRegistrationRejected | ErrLeaseRejected
  | ErrOutcomeRejected | ErrKernelBoundUnlimited | ErrObservationUnavailable | IOError

section \<open>Vocabulary\<close>

definition parser_types :: "gostring list" where
  "parser_types = [''TEXT'', ''STRUCTURED'', ''HTML'', ''EML'', ''OFFICE'', ''PDF'', ''OCR'']"

definition validParserType :: "gostring \<Rightarrow> bool" where
  "validParserType parserType \<longleftrightarrow> parserType \<in> set parser_types"

definition wire_validID :: "gostring \<Rightarrow> bool" where
  "wire_validID value \<longleftrightarrow> length value \<ge> 1 \<and> length value \<le> 128"

text \<open>The regular expressions \<open>sha256Re\<close> and \<open>mediaTypeRe\<close>, as the bytes they match.\<close>

definition sha256Re :: "gostring \<Rightarrow> bool" where
  "sha256Re s \<longleftrightarrow> take 7 s = ''sha256:'' \<and> length (drop 7 s) = 64 \<and> list_all is_hex (drop 7 s)"

definition is_alnum :: "char \<Rightarrow> bool" where
  "is_alnum c \<longleftrightarrow> 65 \<le> byte c \<and> byte c \<le> 90 \<or> 97 \<le> byte c \<and> byte c \<le> 122 \<or> is_digit c"

definition media_token :: "gostring \<Rightarrow> bool" where
  "media_token s = (case s of [] \<Rightarrow> False
     | c # t \<Rightarrow> is_alnum c \<and> length t \<le> 254 \<and> list_all (\<lambda>d. is_alnum d \<or> d \<in> set ''!#$&^_.+-'') t)"

definition mediaTypeRe :: "gostring \<Rightarrow> bool" where
  "mediaTypeRe s = (case split_on CHR ''/'' s of
     [a] \<Rightarrow> media_token a | [a, b] \<Rightarrow> media_token a \<and> media_token b | _ \<Rightarrow> False)"

section \<open>Documents\<close>

record input_artifact =
  ia_ArtifactID :: gostring
  ia_ContentDigest :: gostring
  ia_MediaType :: gostring

definition validate_artifact :: "input_artifact \<Rightarrow> bool" where
  "validate_artifact a \<longleftrightarrow> wire_validID (ia_ArtifactID a) \<and> sha256Re (ia_ContentDigest a)
     \<and> length (ia_MediaType a) \<ge> 1 \<and> length (ia_MediaType a) \<le> 256 \<and> mediaTypeRe (ia_MediaType a)"

record job =
  jb_SchemaVersion :: gostring
  jb_JobID :: gostring
  jb_LeaseID :: gostring
  jb_ParserType :: gostring
  jb_SourceVersionID :: gostring
  jb_InputArtifact :: input_artifact
  jb_SubmittedAt :: gostring
  jb_DeadlineAt :: gostring
  jb_WorkerPullOnly :: bool
  jb_ContainerCreationCap :: gostring
  jb_OutputContract :: gostring

definition Validate_job :: "(gostring \<Rightarrow> int option) \<Rightarrow> job \<Rightarrow> int \<Rightarrow> wire_error + (int \<times> int)" where
  "Validate_job parse_time j now =
    (if jb_SchemaVersion j \<noteq> ''sandbox-job-v1'' then Inl ErrJobRejected
     else if \<not> wire_validID (jb_JobID j) \<or> \<not> wire_validID (jb_LeaseID j) \<or> \<not> wire_validID (jb_SourceVersionID j)
     then Inl ErrJobRejected
     else if \<not> validParserType (jb_ParserType j) then Inl ErrJobRejected
     else if \<not> validate_artifact (jb_InputArtifact j) then Inl ErrJobRejected
     else if \<not> jb_WorkerPullOnly j \<or> jb_ContainerCreationCap j \<noteq> ''FORBIDDEN''
        \<or> jb_OutputContract j \<noteq> ''document-parser-result-v1'' then Inl ErrJobRejected
     else case parse_time (jb_SubmittedAt j) of
            None \<Rightarrow> Inl ErrJobRejected
          | Some submittedAt \<Rightarrow>
              (case parse_time (jb_DeadlineAt j) of
                 None \<Rightarrow> Inl ErrJobRejected
               | Some deadlineAt \<Rightarrow>
                   if \<not> deadlineAt > submittedAt \<or> \<not> deadlineAt > now then Inl ErrJobRejected
                   else Inr (submittedAt, deadlineAt)))"

record handoff =
  ho_TransferState :: gostring
  ho_ConfirmationID :: gostring

record outcome =
  oc_SchemaVersion :: gostring
  oc_LeaseID :: gostring
  oc_JobID :: gostring
  oc_WorkerID :: gostring
  oc_ParserType :: gostring
  oc_Handoff :: handoff
  oc_Status :: gostring
  oc_ReportedAt :: gostring
  oc_ExtractionIdentity :: "gostring option"

definition validate_outcome :: "(gostring \<Rightarrow> int option) \<Rightarrow> outcome \<Rightarrow> wire_error + int" where
  "validate_outcome parse_time o' =
    (if oc_SchemaVersion o' \<noteq> ''sandbox-outcome-v1'' then Inl ErrOutcomeRejected
     else if \<not> wire_validID (oc_LeaseID o') \<or> \<not> wire_validID (oc_JobID o') \<or> \<not> wire_validID (oc_WorkerID o')
     then Inl ErrOutcomeRejected
     else if \<not> validParserType (oc_ParserType o') then Inl ErrOutcomeRejected
     else if \<not> wire_validID (ho_ConfirmationID (oc_Handoff o')) then Inl ErrOutcomeRejected
     else case parse_time (oc_ReportedAt o') of
            None \<Rightarrow> Inl ErrOutcomeRejected
          | Some reportedAt \<Rightarrow>
              (let hasIdentity = (case oc_ExtractionIdentity o' of None \<Rightarrow> False | Some i \<Rightarrow> sha256Re i);
                   state = ho_TransferState (oc_Handoff o') in
               if state = ''CONFIRMED'' then
                 (if oc_Status o' \<noteq> ''SUCCEEDED'' \<or> \<not> hasIdentity then Inl ErrOutcomeRejected else Inr reportedAt)
               else if state = ''RETRY'' then
                 (if oc_Status o' \<noteq> ''FAILED'' \<or> oc_ExtractionIdentity o' \<noteq> None then Inl ErrOutcomeRejected
                  else Inr reportedAt)
               else if state = ''QUARANTINED'' then
                 (if oc_Status o' \<noteq> ''QUARANTINED'' \<or> oc_ExtractionIdentity o' \<noteq> None then Inl ErrOutcomeRejected
                  else Inr reportedAt)
               else Inl ErrOutcomeRejected))"

record limits =
  li_CPUMillis :: int
  li_MemoryBytes :: int
  li_PIDsMax :: int
  li_WallClockMS :: int

definition valid_limits :: "limits \<Rightarrow> bool" where
  "valid_limits l \<longleftrightarrow> li_CPUMillis l \<ge> 1 \<and> li_MemoryBytes l \<ge> 1 \<and> li_PIDsMax l \<ge> 1 \<and> li_WallClockMS l \<ge> 1"

record register_hello =
  rh_WorkerID :: gostring
  rh_ParserType :: gostring
  rh_Capabilities :: "gostring list"

text \<open>The loop over the capabilities, with \<open>hasPull\<close> and \<open>hasPush\<close>.\<close>

fun capabilities_loop :: "bool \<Rightarrow> bool \<Rightarrow> gostring list \<Rightarrow> bool" where
  "capabilities_loop hasPull hasPush [] = (hasPull \<and> hasPush)"
| "capabilities_loop hasPull hasPush (capability # rest) =
    (if capability = ''PULL_JOB'' then capabilities_loop True hasPush rest
     else if capability = ''PUSH_OUTCOME'' then capabilities_loop hasPull True rest
     else False)"

definition validate_hello :: "register_hello \<Rightarrow> bool" where
  "validate_hello h =
    (if \<not> wire_validID (rh_WorkerID h) \<or> \<not> validParserType (rh_ParserType h) then False
     else if length (rh_Capabilities h) \<noteq> 2 then False
     else capabilities_loop False False (rh_Capabilities h))"

lemma validate_hello_iff:
  "validate_hello h \<longleftrightarrow> wire_validID (rh_WorkerID h) \<and> validParserType (rh_ParserType h)
     \<and> (rh_Capabilities h = [''PULL_JOB'', ''PUSH_OUTCOME''] \<or> rh_Capabilities h = [''PUSH_OUTCOME'', ''PULL_JOB''])"
proof (cases "length (rh_Capabilities h) = 2")
  case True
  then obtain a b where "rh_Capabilities h = [a, b]"
    by (auto simp: numeral_2_eq_2 length_Suc_conv)
  then show ?thesis by (auto simp: validate_hello_def)
next
  case False
  then show ?thesis by (auto simp: validate_hello_def)
qed

section \<open>Kernel bounds\<close>

definition parseCgroupMemoryMax :: "gostring \<Rightarrow> wire_error + int" where
  "parseCgroupMemoryMax raw0 =
    (let raw = trim_space raw0 in
     if raw = [] \<or> raw = ''max'' then Inl ErrKernelBoundUnlimited
     else case atoi raw of
            None \<Rightarrow> Inl ErrKernelBoundUnlimited
          | Some value \<Rightarrow> if value < 1 then Inl ErrKernelBoundUnlimited else Inr value)"

definition parseCgroupPIDsMax :: "gostring \<Rightarrow> wire_error + int" where
  "parseCgroupPIDsMax raw = parseCgroupMemoryMax raw"

definition parseCgroupCPUMax :: "gostring \<Rightarrow> wire_error + int" where
  "parseCgroupCPUMax raw =
    (case fields_of raw of
       [] \<Rightarrow> Inl ErrKernelBoundUnlimited
     | first # rest \<Rightarrow>
         if first = ''max'' then Inl ErrKernelBoundUnlimited
         else (case rest of
           [second] \<Rightarrow>
             (case atoi first of
                None \<Rightarrow> Inl ErrKernelBoundUnlimited
              | Some quota \<Rightarrow>
                  if quota < 1 then Inl ErrKernelBoundUnlimited
                  else (case atoi second of
                     None \<Rightarrow> Inl ErrKernelBoundUnlimited
                   | Some period \<Rightarrow>
                       if period < 1 then Inl ErrKernelBoundUnlimited
                       else if quota > max_int64 div 1000 then Inl ErrKernelBoundUnlimited
                       else (let millis = wrap64 (quota * 1000) div period in
                         if millis < 1 then Inl ErrKernelBoundUnlimited else Inr millis)))
         | _ \<Rightarrow> Inl ErrKernelBoundUnlimited))"

text \<open>\<open>strings.Split(line, "::")\<close> has two parts exactly when there is one separator to take from the
  left; the loop of \<open>cgroupV2Path\<close> over the lines.\<close>

fun split_colons :: "gostring \<Rightarrow> gostring list" where
  "split_colons [] = [[]]"
| "split_colons [c] = [[c]]"
| "split_colons (c # d # s) =
    (if c = CHR '':'' \<and> d = CHR '':'' then [] # split_colons s
     else (case split_colons (d # s) of [] \<Rightarrow> [[c]] | p # ps \<Rightarrow> (c # p) # ps))"

fun cgroup_lines :: "gostring list \<Rightarrow> wire_error + gostring" where
  "cgroup_lines [] = Inl ErrObservationUnavailable"
| "cgroup_lines (line0 # rest) =
    (let line = trim_space line0 in
     if line = [] then cgroup_lines rest
     else case split_colons line of
            [a, b] \<Rightarrow> if a = ''0'' \<and> b \<noteq> [] then Inr b else cgroup_lines rest
          | _ \<Rightarrow> cgroup_lines rest)"

definition cgroupV2Path :: "gostring \<Rightarrow> wire_error + gostring" where
  "cgroupV2Path content = cgroup_lines (split_on CHR 0x0A content)"

text \<open>A bound that is parsed is finite and positive, and the CPU bound cannot wrap.\<close>

lemma parseCgroupMemoryMax_pos: "parseCgroupMemoryMax raw = Inr v \<Longrightarrow> 1 \<le> v"
  by (auto simp: parseCgroupMemoryMax_def Let_def split: option.splits if_splits)

lemma parseCgroupCPUMax_sound:
  assumes "parseCgroupCPUMax raw = Inr v"
  shows "\<exists>quota period. fields_of raw = [quota, period] \<and> (\<exists>q p. atoi quota = Some q \<and> atoi period = Some p
    \<and> 1 \<le> q \<and> 1 \<le> p \<and> v = q * 1000 div p \<and> 1 \<le> v)"
proof -
  have "wrap64 (q * 1000) = q * 1000" if "1 \<le> q" "q \<le> max_int64 div 1000" for q
    using that by (intro wrap64_id) (auto simp: min_int64_def max_int64_def)
  with assms show ?thesis
    by (auto simp: parseCgroupCPUMax_def Let_def split: list.splits option.splits if_splits)
qed

section \<open>Frames\<close>

definition maxFrameBody :: nat where
  "maxFrameBody = 65536"

definition maxPayloadHeader :: nat where
  "maxPayloadHeader = 4096"

text \<open>\<open>binary.BigEndian\<close> on 32-bit values\<close>

definition put_uint32 :: "nat \<Rightarrow> gostring" where
  "put_uint32 n = [char_of (n div 16777216 mod 256), char_of (n div 65536 mod 256),
     char_of (n div 256 mod 256), char_of (n mod 256)]"

fun uint32_of :: "gostring \<Rightarrow> nat" where
  "uint32_of [a, b, c, d] = byte a * 16777216 + byte b * 65536 + byte c * 256 + byte d"
| "uint32_of _ = 0"

text \<open>\<open>io.ReadFull\<close> of \<open>n\<close> bytes\<close>

definition read_full :: "nat \<Rightarrow> gostring \<Rightarrow> wire_error + (gostring \<times> gostring)" where
  "read_full n s = (if length s < n then Inl IOError else Inr (take n s, drop n s))"

definition writeFrameCap :: "char \<Rightarrow> gostring \<Rightarrow> nat \<Rightarrow> wire_error + gostring" where
  "writeFrameCap kind body maxBody =
    (if length body > maxBody then Inl ErrWireRejected
     else Inr (kind # put_uint32 (length body) @ body))"

definition writeFrame :: "char \<Rightarrow> gostring \<Rightarrow> wire_error + gostring" where
  "writeFrame kind body = writeFrameCap kind body maxFrameBody"

definition readFrameWith :: "(char \<Rightarrow> nat) \<Rightarrow> gostring \<Rightarrow> wire_error + (char \<times> gostring \<times> gostring)" where
  "readFrameWith capFor conn =
    and_then (read_full 5 conn) (\<lambda>(head, rest).
      let kind = hd head; len = uint32_of (tl head) in
      if len = 0 \<or> len > capFor kind mod 4294967296 then Inl ErrWireRejected
      else and_then (read_full len rest) (\<lambda>(body, rest'). Inr (kind, body, rest')))"

definition readFrame :: "nat \<Rightarrow> gostring \<Rightarrow> wire_error + (char \<times> gostring \<times> gostring)" where
  "readFrame maxBody conn = readFrameWith (\<lambda>_. maxBody) conn"

definition writePayloadFrame :: "gostring \<Rightarrow> gostring \<Rightarrow> wire_error + gostring" where
  "writePayloadFrame header payload =
    (if length header > maxPayloadHeader then Inl ErrWireRejected
     else Inr (CHR 0x03 # put_uint32 (length header) @ put_uint32 (length payload) @ header @ payload))"

text \<open>\<open>readPayloadFrame\<close>, with the strict decoder of the header as \<open>decode\<close>.\<close>

definition readPayloadFrame :: "(gostring \<Rightarrow> 'h option) \<Rightarrow> nat \<Rightarrow> gostring \<Rightarrow> wire_error + ('h \<times> gostring \<times> gostring)" where
  "readPayloadFrame decode maxPayload conn =
    and_then (read_full 9 conn) (\<lambda>(head, rest).
      let headerLen = uint32_of (take 4 (drop 1 head)); payloadLen = uint32_of (drop 5 head) in
      if headerLen = 0 \<or> headerLen > maxPayloadHeader \<or> payloadLen = 0
         \<or> payloadLen > maxPayload mod 4294967296
      then Inl ErrWireRejected
      else and_then (read_full headerLen rest) (\<lambda>(headerBytes, rest1).
        and_then (read_full payloadLen rest1) (\<lambda>(payload, rest2).
          case decode headerBytes of None \<Rightarrow> Inl ErrWireRejected | Some header \<Rightarrow> Inr (header, payload, rest2))))"

lemma uint32_put: "n < 4294967296 \<Longrightarrow> uint32_of (put_uint32 n) = n"
proof -
  assume n: "n < 4294967296"
  define m k where "m = n div 256" and "k = m div 256"
  have d: "n div 65536 = k" "n div 16777216 = k div 256"
    by (simp_all add: m_def k_def div_mult2_eq [symmetric])
  have "k div 256 < 256" using n d by (simp add: div_less_iff_less_mult)
  then have "uint32_of (put_uint32 n) = k div 256 * 16777216 + k mod 256 * 65536 + m mod 256 * 256 + n mod 256"
    by (simp add: put_uint32_def d m_def [symmetric] of_char_of)
  moreover have "k div 256 * 256 + k mod 256 = k" by simp
  moreover have "k * 256 + m mod 256 = m" "m * 256 + n mod 256 = n" by (simp_all add: m_def k_def)
  ultimately show ?thesis by linarith
qed

lemma length_put_uint32 [simp]: "length (put_uint32 n) = 4"
  by (simp add: put_uint32_def)

lemma read_full_append [simp]: "length a = n \<Longrightarrow> read_full n (a @ b) = Inr (a, b)"
  by (simp add: read_full_def)

lemma payload_frame_roundtrip:
  assumes "header \<noteq> []" "length header \<le> maxPayloadHeader" "payload \<noteq> []" "length payload \<le> maxPayload"
    and "maxPayload < 4294967296" "decode header = Some h"
  shows "\<exists>bytes. writePayloadFrame header payload = Inr bytes
     \<and> readPayloadFrame decode maxPayload (bytes @ rest) = Inr (h, payload, rest)"
proof -
  let ?head = "CHR 0x03 # put_uint32 (length header) @ put_uint32 (length payload)"
  have "read_full 9 (?head @ (header @ payload @ rest)) = Inr (?head, header @ payload @ rest)"
    by (rule read_full_append) simp
  then have "read_full 9 (CHR 0x03 # put_uint32 (length header) @ put_uint32 (length payload) @ header @ payload @ rest)
      = Inr (?head, header @ payload @ rest)" by simp
  then show ?thesis using assms
    by (simp add: writePayloadFrame_def readPayloadFrame_def Let_def uint32_put maxPayloadHeader_def)
qed

text \<open>The kind byte of a payload frame is never looked at.\<close>

lemma payload_kind_ignored:
  "readPayloadFrame decode maxPayload (k # s) = readPayloadFrame decode maxPayload (k' # s)"
  by (cases "length s < 8") (simp_all add: readPayloadFrame_def read_full_def Let_def)

text \<open>
  Frames survive the wire: what \<open>writeFrameCap\<close> writes for a non-empty body within its cap is
  read back as the same kind and body by a reader whose cap for that kind admits it, with the
  following bytes of the connection left unread; the same holds for a payload frame with its header
  and the document. (Caps stay below 4 GiB, the range of the length field.)
\<close>

theorem frame_roundtrip:
  assumes "body \<noteq> []" "length body \<le> maxBody" "length body \<le> capFor kind" "capFor kind < 4294967296"
    and "header \<noteq> []" "length header \<le> maxPayloadHeader" "decode header = Some h"
    and "length body \<le> maxPayload" "maxPayload < 4294967296"
  shows "(\<exists>bytes. writeFrameCap kind body maxBody = Inr bytes
        \<and> readFrameWith capFor (bytes @ rest) = Inr (kind, body, rest))
    \<and> (\<exists>bytes. writePayloadFrame header body = Inr bytes
        \<and> readPayloadFrame decode maxPayload (bytes @ rest) = Inr (h, body, rest))"
proof -
  let ?n = "length body"
  have "read_full 5 ((kind # put_uint32 ?n) @ (body @ rest)) = Inr (kind # put_uint32 ?n, body @ rest)"
    by (rule read_full_append) simp
  then have "readFrameWith capFor (kind # put_uint32 ?n @ body @ rest) = Inr (kind, body, rest)"
    using assms by (simp add: readFrameWith_def Let_def uint32_put)
  then show ?thesis
    using payload_frame_roundtrip [of header body maxPayload decode h rest] assms
    by (simp add: writeFrameCap_def)
qed

theorem frame_roundtrip_witness:
  "\<exists>bytes. writeFrameCap CHR 0x07 ''ok'' 2 = Inr bytes \<and> readFrameWith (\<lambda>k. 10) (bytes @ ''x'') = Inr (CHR 0x07, ''ok'', ''x'')"
  using frame_roundtrip [of "''ok''" 2 "\<lambda>k. 10" "CHR 0x07" "''h''" Some "''h''" 5 "''x''"]
  by (simp add: maxPayloadHeader_def)

end
