(* ===== verification/Sandbox_Lease.thy ===== *)
theory Sandbox_Lease
  imports Sandbox_Wire
begin

text \<open>
  \<open>internal/sandboxdispatch/lease.go\<close> with the lease documents of \<open>wire.go\<close> and the observation of
  \<open>observer.go\<close>: the closed lease machine and the folding of a worker outcome into it. The machine
  is also given as a step relation; the lemmas show that \<open>transition\<close> implements it, that terminal
  states are final, and what an outcome may do before and after the transfer. The buffered channel
  \<open>result\<close> of capacity one is the list of the results sent and the number of them received.
\<close>

datatype lease_state = LeaseOffered | LeaseClaimed | LeaseTransferred | LeaseQuarantined
  | LeaseCompleted | LeaseExpired | LeaseStateOther gostring

record registration =
  rg_SocketID :: gostring
  rg_ParserType :: gostring
  rg_SingleSock :: bool
  rg_Capabilities :: "gostring list"

record lease_doc =
  ld_SchemaVersion :: gostring
  ld_LeaseID :: gostring
  ld_JobID :: gostring
  ld_WorkerID :: gostring
  ld_ParserType :: gostring
  ld_Registration :: registration
  ld_IssuedAt :: gostring
  ld_ExpiresAt :: gostring
  ld_Attempt :: int
  ld_State :: lease_state

record observation =
  ob_Limits :: limits
  ob_PID :: int
  ob_ObservedAt :: int
  ob_CgroupPath :: gostring

record limit_confirmation =
  lc_SchemaVersion :: gostring
  lc_LeaseID :: gostring
  lc_JobID :: gostring
  lc_WorkerID :: gostring
  lc_ObservedAt :: gostring
  lc_ObservationMethod :: gostring
  lc_Limits :: limits
  lc_ExtractionIdentity :: gostring
  lc_Confirmed :: bool

record job_result =
  jr_outcome :: outcome
  jr_result :: "gostring option"
  jr_confirmation :: "limit_confirmation option"
  jr_retryable :: bool

record lease =
  ls_doc :: lease_doc
  ls_job :: job
  ls_payload :: gostring
  ls_resultBytes :: gostring
  ls_obs :: observation
  ls_wallClock :: int
  ls_transferSent :: bool
  ls_results :: "job_result list"
  ls_taken :: nat
  ls_timerStopped :: bool

fun valid_transition :: "lease_state \<Rightarrow> lease_state \<Rightarrow> bool option" where
  "valid_transition LeaseOffered next = Some (next = LeaseClaimed \<or> next = LeaseExpired \<or> next = LeaseQuarantined)"
| "valid_transition LeaseClaimed next = Some (next = LeaseTransferred \<or> next = LeaseExpired \<or> next = LeaseQuarantined)"
| "valid_transition LeaseTransferred next = Some (next = LeaseCompleted \<or> next = LeaseQuarantined \<or> next = LeaseExpired)"
| "valid_transition LeaseCompleted next = Some False"
| "valid_transition LeaseQuarantined next = Some False"
| "valid_transition LeaseExpired next = Some False"
| "valid_transition (LeaseStateOther s) next = None"

abbreviation ls_state :: "lease \<Rightarrow> lease_state" where
  "ls_state l \<equiv> ld_State (ls_doc l)"

definition set_state :: "lease_state \<Rightarrow> lease \<Rightarrow> lease" where
  "set_state st l = l\<lparr>ls_doc := (ls_doc l)\<lparr>ld_State := st\<rparr>\<rparr>"

definition transition :: "lease \<Rightarrow> lease_state \<Rightarrow> gostring \<Rightarrow> gostring \<Rightarrow> wire_error + lease" where
  "transition l next boundWorker boundParser =
    (if ld_WorkerID (ls_doc l) \<noteq> boundWorker \<or> ld_ParserType (ls_doc l) \<noteq> boundParser then Inl ErrLeaseRejected
     else case valid_transition (ls_state l) next of
            None \<Rightarrow> Inl ErrLeaseRejected
          | Some valid \<Rightarrow> if \<not> valid then Inl ErrLeaseRejected else Inr (set_state next l))"

fun terminal :: "lease_state \<Rightarrow> bool" where
  "terminal LeaseCompleted = True"
| "terminal LeaseQuarantined = True"
| "terminal LeaseExpired = True"
| "terminal _ = False"

definition canOffer :: "lease \<Rightarrow> bool" where
  "canOffer l = terminal (ls_state l)"

definition confirmOutcome :: "lease \<Rightarrow> gostring \<Rightarrow> wire_error + (lease_state \<times> lease)" where
  "confirmOutcome l transferState =
    (let bound = (\<lambda>next. transition l next (ld_WorkerID (ls_doc l)) (ld_ParserType (ls_doc l))) in
     if transferState = ''CONFIRMED'' then
       (if \<not> ls_transferSent l then Inl ErrOutcomeRejected
        else and_then (bound LeaseCompleted) (\<lambda>l'. Inr (LeaseCompleted, l')))
     else if transferState = ''RETRY'' then
       (if ls_transferSent l then and_then (bound LeaseQuarantined) (\<lambda>l'. Inr (LeaseQuarantined, l'))
        else and_then (bound LeaseExpired) (\<lambda>l'. Inr (LeaseExpired, l')))
     else if transferState = ''QUARANTINED'' then
       and_then (bound LeaseQuarantined) (\<lambda>l'. Inr (LeaseQuarantined, l'))
     else Inl ErrOutcomeRejected)"

section \<open>The machine\<close>

inductive lease_step :: "lease_state \<Rightarrow> lease_state \<Rightarrow> bool" where
  claim: "lease_step LeaseOffered LeaseClaimed"
| transfer: "lease_step LeaseClaimed LeaseTransferred"
| complete: "lease_step LeaseTransferred LeaseCompleted"
| quarantine: "s \<in> {LeaseOffered, LeaseClaimed, LeaseTransferred} \<Longrightarrow> lease_step s LeaseQuarantined"
| expire: "s \<in> {LeaseOffered, LeaseClaimed, LeaseTransferred} \<Longrightarrow> lease_step s LeaseExpired"

code_pred lease_step .

inductive_simps lease_step_from [simp]:
  "lease_step LeaseOffered t" "lease_step LeaseClaimed t" "lease_step LeaseTransferred t"
  "lease_step LeaseCompleted t" "lease_step LeaseQuarantined t" "lease_step LeaseExpired t"
  "lease_step (LeaseStateOther s) t"

lemma lease_state_set_state [simp]:
  "ls_state (set_state st l) = st" "ld_WorkerID (ls_doc (set_state st l)) = ld_WorkerID (ls_doc l)"
  "ld_ParserType (ls_doc (set_state st l)) = ld_ParserType (ls_doc l)"
  "ld_LeaseID (ls_doc (set_state st l)) = ld_LeaseID (ls_doc l)"
  "ld_JobID (ls_doc (set_state st l)) = ld_JobID (ls_doc l)"
  "ld_Attempt (ls_doc (set_state st l)) = ld_Attempt (ls_doc l)"
  "ls_transferSent (set_state st l) = ls_transferSent l" "ls_results (set_state st l) = ls_results l"
  "ls_resultBytes (set_state st l) = ls_resultBytes l" "ls_obs (set_state st l) = ls_obs l"
  "ls_wallClock (set_state st l) = ls_wallClock l" "ls_job (set_state st l) = ls_job l"
  "ls_taken (set_state st l) = ls_taken l"
  by (simp_all add: set_state_def)

lemma transition_iff:
  "transition l next w p = Inr l' \<longleftrightarrow> ld_WorkerID (ls_doc l) = w \<and> ld_ParserType (ls_doc l) = p
     \<and> lease_step (ls_state l) next \<and> l' = set_state next l"
  by (cases "ls_state l") (auto simp: transition_def)

lemma lease_step_nonterminal: "lease_step s t \<Longrightarrow> \<not> terminal s"
  by (induction rule: lease_step.induct) auto

text \<open>How far a lease can be: a step takes it strictly further.\<close>

fun lease_rank :: "lease_state \<Rightarrow> nat" where
  "lease_rank LeaseOffered = 0"
| "lease_rank LeaseClaimed = 1"
| "lease_rank LeaseTransferred = 2"
| "lease_rank _ = 3"

lemma lease_step_rank: "lease_step s t \<Longrightarrow> lease_rank s < lease_rank t \<and> lease_rank t \<le> 3"
  by (induction rule: lease_step.induct) auto

lemma lease_steps_rank: "lease_step\<^sup>+\<^sup>+ s t \<Longrightarrow> lease_rank s < lease_rank t"
  by (induction rule: tranclp_induct) (auto dest: lease_step_rank)

lemma completed_predecessor: "lease_step s LeaseCompleted \<Longrightarrow> s = LeaseTransferred"
  by (auto elim: lease_step.cases)

lemma transferred_predecessor: "lease_step s LeaseTransferred \<Longrightarrow> s = LeaseClaimed"
  by (auto elim: lease_step.cases)

lemma claimed_predecessor: "lease_step s LeaseClaimed \<Longrightarrow> s = LeaseOffered"
  by (auto elim: lease_step.cases)

text \<open>The lease machine: \<open>transition\<close> succeeds exactly for the lease's own worker and parser and for
  a step of the closed machine, and changes nothing but the state; no lease ever returns to a state
  it left, and a terminal lease refuses every transition.
\<close>

theorem lease_machine_closed:
  "(transition l next w p = Inr l' \<longleftrightarrow>
      ld_WorkerID (ls_doc l) = w \<and> ld_ParserType (ls_doc l) = p \<and> lease_step (ls_state l) next
      \<and> l' = l\<lparr>ls_doc := (ls_doc l)\<lparr>ld_State := next\<rparr>\<rparr>)
   \<and> \<not> lease_step\<^sup>+\<^sup>+ s s
   \<and> (terminal s \<longleftrightarrow> s \<in> {LeaseCompleted, LeaseQuarantined, LeaseExpired})
   \<and> \<not> (terminal s \<and> (\<exists>t. lease_step s t))"
  using lease_steps_rank [of s s] lease_step_nonterminal [of s]
  by (cases s) (auto simp: transition_iff set_state_def)

lemma confirmOutcome_iff:
  "confirmOutcome l t = Inr (st, l') \<longleftrightarrow> lease_step (ls_state l) st \<and> l' = set_state st l
     \<and> (t = ''CONFIRMED'' \<and> ls_transferSent l \<and> st = LeaseCompleted
        \<or> t = ''RETRY'' \<and> st = (if ls_transferSent l then LeaseQuarantined else LeaseExpired)
        \<or> t = ''QUARANTINED'' \<and> st = LeaseQuarantined)"
  by (auto simp: confirmOutcome_def Let_def transition_iff)

end
