(* ===== verification/Sandbox_Dispatch.thy ===== *)
theory Sandbox_Dispatch
  imports Sandbox_Lease
begin

text \<open>
  \<open>internal/sandboxdispatch/dispatch.go\<close>: the broker. Workers and leases are objects on two heaps,
  addressed by their index, because the code compares and shares pointers. Each critical section of
  the mutex \<open>d.mu\<close> is one function on the state; \<open>dp_locked\<close> records whether the section returned
  with the mutex held. The goroutines interleave section by section: the step relation has one rule
  per section, one for a timer that fires, and one for a submitter that receives its result. Socket
  I/O is the choice of the step that follows it; the kernel observation, the clock and the digests
  are in the environment.
\<close>

section \<open>State\<close>

text \<open>The document \<open>CanonicalLimitsIdentity\<close> hashes, in the order of its keys.\<close>

record limits_identity =
  id_CPUMillis :: int
  id_JobID :: gostring
  id_LeaseID :: gostring
  id_MemoryBytes :: int
  id_ObservedAt :: gostring
  id_ParserType :: gostring
  id_PIDsMax :: int
  id_WallClockMS :: int
  id_WorkerID :: gostring

record env =
  en_SocketPath :: gostring
  en_MaxPayloadBytes :: nat
  en_MaxAttempts :: int
  en_parse :: "gostring \<Rightarrow> int option"
  en_format :: "int \<Rightarrow> gostring"
  en_sha256 :: "gostring \<Rightarrow> gostring"
  en_hash :: "limits_identity \<Rightarrow> gostring"

record payload_header =
  ph_LeaseID :: gostring
  ph_ExtractionIdentity :: gostring

record worker_conn =
  wc_hello :: register_hello
  wc_obs :: observation
  wc_active :: "nat option"
  wc_ready :: bool

record disp =
  dp_workers :: "gostring \<Rightarrow> nat option"
  dp_leases :: "gostring \<Rightarrow> nat option"
  dp_attempts :: "gostring \<Rightarrow> int"
  dp_wheap :: "worker_conn list"
  dp_lheap :: "lease list"
  dp_pending :: "(nat \<times> bool) list"
  dp_killed :: "observation list"
  dp_transfers :: "(nat \<times> lease_doc \<times> payload_header \<times> gostring) list"
  dp_locked :: bool

definition initial :: disp where
  "initial = \<lparr>dp_workers = (\<lambda>_. None), dp_leases = (\<lambda>_. None), dp_attempts = (\<lambda>_. 0), dp_wheap = [],
     dp_lheap = [], dp_pending = [], dp_killed = [], dp_transfers = [], dp_locked = False\<rparr>"

definition new_config_ok :: "env \<Rightarrow> int \<Rightarrow> bool" where
  "new_config_ok e frameTimeout \<longleftrightarrow> en_SocketPath e \<noteq> [] \<and> en_MaxPayloadBytes e > 0
     \<and> 1 \<le> en_MaxAttempts e \<and> en_MaxAttempts e \<le> 1000 \<and> frameTimeout > 0"

definition set_lease :: "nat \<Rightarrow> lease \<Rightarrow> disp \<Rightarrow> disp" where
  "set_lease a l s = s\<lparr>dp_lheap := (dp_lheap s)[a := l]\<rparr>"

definition set_worker :: "nat \<Rightarrow> worker_conn \<Rightarrow> disp \<Rightarrow> disp" where
  "set_worker w c s = s\<lparr>dp_wheap := (dp_wheap s)[w := c]\<rparr>"

section \<open>Identities and dispatcher outcomes\<close>

text \<open>\<open>time.Duration.Milliseconds\<close> truncates toward zero; \<open>time.Time.Sub\<close> saturates.\<close>

definition milliseconds :: "int \<Rightarrow> int" where
  "milliseconds d = (if d < 0 then - (- d div 1000000) else d div 1000000)"

definition time_sub :: "int \<Rightarrow> int \<Rightarrow> int" where
  "time_sub t u = max min_int64 (min max_int64 (t - u))"

definition CanonicalLimitsIdentity :: "env \<Rightarrow> gostring \<Rightarrow> gostring \<Rightarrow> gostring \<Rightarrow> gostring \<Rightarrow> int \<Rightarrow> limits \<Rightarrow> gostring" where
  "CanonicalLimitsIdentity e leaseID jobID workerID parserType observedAt l =
    en_hash e \<lparr>id_CPUMillis = li_CPUMillis l, id_JobID = jobID, id_LeaseID = leaseID,
      id_MemoryBytes = li_MemoryBytes l, id_ObservedAt = en_format e observedAt, id_ParserType = parserType,
      id_PIDsMax = li_PIDsMax l, id_WallClockMS = li_WallClockMS l, id_WorkerID = workerID\<rparr>"

definition lease_limits :: "lease \<Rightarrow> limits" where
  "lease_limits active = \<lparr>li_CPUMillis = li_CPUMillis (ob_Limits (ls_obs active)),
     li_MemoryBytes = li_MemoryBytes (ob_Limits (ls_obs active)),
     li_PIDsMax = li_PIDsMax (ob_Limits (ls_obs active)),
     li_WallClockMS = milliseconds (ls_wallClock active)\<rparr>"

definition extractionIdentityLocked :: "env \<Rightarrow> lease \<Rightarrow> gostring" where
  "extractionIdentityLocked e active =
    CanonicalLimitsIdentity e (ld_LeaseID (ls_doc active)) (ld_JobID (ls_doc active)) (ld_WorkerID (ls_doc active))
      (ld_ParserType (ls_doc active)) (ob_ObservedAt (ls_obs active)) (lease_limits active)"

definition confirmationLocked :: "env \<Rightarrow> lease \<Rightarrow> limit_confirmation" where
  "confirmationLocked e active = \<lparr>lc_SchemaVersion = ''sandbox-limit-confirmation-v1'',
     lc_LeaseID = ld_LeaseID (ls_doc active), lc_JobID = ld_JobID (ls_doc active),
     lc_WorkerID = ld_WorkerID (ls_doc active), lc_ObservedAt = en_format e (ob_ObservedAt (ls_obs active)),
     lc_ObservationMethod = ''KERNEL_CGROUP_NAMESPACE'', lc_Limits = lease_limits active,
     lc_ExtractionIdentity = extractionIdentityLocked e active, lc_Confirmed = True\<rparr>"

definition deadlineAt :: "env \<Rightarrow> lease \<Rightarrow> int option" where
  "deadlineAt e l = en_parse e (ld_ExpiresAt (ls_doc l))"

definition issuedAt :: "env \<Rightarrow> lease \<Rightarrow> int option" where
  "issuedAt e l = en_parse e (ld_IssuedAt (ls_doc l))"

text \<open>The zero \<open>time.Time\<close> a failed parse leaves is \<open>zero_time\<close>, nanoseconds before the epoch.\<close>

definition zero_time :: int where
  "zero_time = - 62135596800000000000"

definition time_or_zero :: "int option \<Rightarrow> int" where
  "time_or_zero t = (case t of None \<Rightarrow> zero_time | Some x \<Rightarrow> x)"

definition retryOutcomeDoc :: "env \<Rightarrow> int \<Rightarrow> job \<Rightarrow> outcome" where
  "retryOutcomeDoc e now j = \<lparr>oc_SchemaVersion = ''sandbox-outcome-v1'', oc_LeaseID = jb_LeaseID j,
     oc_JobID = jb_JobID j, oc_WorkerID = ''dispatcher'', oc_ParserType = jb_ParserType j,
     oc_Handoff = \<lparr>ho_TransferState = ''RETRY'', ho_ConfirmationID = ''dispatcher:'' @ jb_LeaseID j\<rparr>,
     oc_Status = ''FAILED'', oc_ReportedAt = en_format e now, oc_ExtractionIdentity = None\<rparr>"

definition retryOutcome :: "env \<Rightarrow> int \<Rightarrow> lease \<Rightarrow> outcome" where
  "retryOutcome e now active = (retryOutcomeDoc e now (ls_job active))
     \<lparr>oc_WorkerID := ld_WorkerID (ls_doc active), oc_ReportedAt := en_format e now\<rparr>"

definition quarantinedOutcome :: "env \<Rightarrow> int \<Rightarrow> lease \<Rightarrow> outcome" where
  "quarantinedOutcome e now active = \<lparr>oc_SchemaVersion = ''sandbox-outcome-v1'',
     oc_LeaseID = ld_LeaseID (ls_doc active), oc_JobID = ld_JobID (ls_doc active),
     oc_WorkerID = ld_WorkerID (ls_doc active), oc_ParserType = ld_ParserType (ls_doc active),
     oc_Handoff = \<lparr>ho_TransferState = ''QUARANTINED'', ho_ConfirmationID = ''dispatcher:'' @ ld_LeaseID (ls_doc active)\<rparr>,
     oc_Status = ''QUARANTINED'', oc_ReportedAt = en_format e now, oc_ExtractionIdentity = None\<rparr>"

section \<open>The critical sections\<close>

text \<open>\<open>resolveLocked\<close>: the timer stops, the registered worker is freed, the lease leaves the table, and
  the result goes into the channel if there is room.\<close>

definition send_result :: "job_result \<Rightarrow> lease \<Rightarrow> lease" where
  "send_result r l = (if length (ls_results l) - ls_taken l < 1 then l\<lparr>ls_results := ls_results l @ [r]\<rparr> else l)"

definition free_worker :: "nat \<Rightarrow> gostring \<Rightarrow> disp \<Rightarrow> disp" where
  "free_worker a parserType s =
    (case dp_workers s parserType of
       None \<Rightarrow> s
     | Some w \<Rightarrow>
         if wc_active (dp_wheap s ! w) = Some a
         then set_worker w ((dp_wheap s ! w)\<lparr>wc_active := None\<rparr>) s else s)"

definition resolveLocked :: "nat \<Rightarrow> job_result \<Rightarrow> disp \<Rightarrow> disp" where
  "resolveLocked a r s =
    (let active = dp_lheap s ! a;
         leaseID = ld_LeaseID (ls_doc active);
         s1 = set_lease a (active\<lparr>ls_timerStopped := True\<rparr>) s;
         s2 = free_worker a (ld_ParserType (ls_doc active)) s1;
         s3 = s2\<lparr>dp_leases := (dp_leases s2)(leaseID := None)\<rparr>;
         s4 = (if \<not> jr_retryable r then s3\<lparr>dp_attempts := (dp_attempts s3)(leaseID := 0)\<rparr> else s3)
     in set_lease a (send_result r (dp_lheap s4 ! a)) s4)"

text \<open>\<open>registerWorker\<close>: the section that reserves the parser's slot after a valid hello and a kernel
  observation (\<open>None\<close> for a failed one), and the section that publishes readiness after the
  acknowledgment was written. The new connection is the next address of the worker heap.\<close>

definition registerReserve :: "register_hello \<Rightarrow> observation option \<Rightarrow> disp \<Rightarrow> disp" where
  "registerReserve hello observed s =
    (if \<not> validate_hello hello then s
     else case observed of
            None \<Rightarrow> s
          | Some obs \<Rightarrow>
              (case dp_workers s (rh_ParserType hello) of
                 Some _ \<Rightarrow> s
               | None \<Rightarrow>
                   s\<lparr>dp_wheap := dp_wheap s @ [\<lparr>wc_hello = hello, wc_obs = obs, wc_active = None, wc_ready = False\<rparr>],
                     dp_workers := (dp_workers s)(rh_ParserType hello := Some (length (dp_wheap s)))\<rparr>))"

definition registerReady :: "nat \<Rightarrow> disp \<Rightarrow> disp" where
  "registerReady w s =
    (if dp_workers s (rh_ParserType (wc_hello (dp_wheap s ! w))) \<noteq> Some w then s
     else set_worker w ((dp_wheap s ! w)\<lparr>wc_ready := True\<rparr>) s)"

text \<open>The section of \<open>dropWorker\<close>; its call of \<open>expire\<close> follows the unlock and is left pending.\<close>

definition dropWorker :: "nat \<Rightarrow> disp \<Rightarrow> disp" where
  "dropWorker w s =
    (let worker = dp_wheap s ! w;
         parserType = rh_ParserType (wc_hello worker);
         s1 = (if dp_workers s parserType = Some w then s\<lparr>dp_workers := (dp_workers s)(parserType := None)\<rparr> else s);
         s2 = set_worker w (worker\<lparr>wc_active := None, wc_ready := False\<rparr>) s1
     in case wc_active worker of None \<Rightarrow> s2 | Some a \<Rightarrow> s2\<lparr>dp_pending := (a, False) # dp_pending s2\<rparr>)"

definition handleClaim :: "env \<Rightarrow> nat \<Rightarrow> gostring \<Rightarrow> gostring \<Rightarrow> disp \<Rightarrow> disp" where
  "handleClaim e w claimLeaseID claimWorkerID s =
    (let worker = dp_wheap s ! w; hello = wc_hello worker in
     case dp_leases s claimLeaseID of
       None \<Rightarrow> s
     | Some a \<Rightarrow>
         (let active = dp_lheap s ! a in
          if wc_active worker \<noteq> Some a \<or> ld_WorkerID (ls_doc active) \<noteq> claimWorkerID
             \<or> ld_WorkerID (ls_doc active) \<noteq> rh_WorkerID hello then s
          else case transition active LeaseClaimed (rh_WorkerID hello) (rh_ParserType hello) of
                 Inl _ \<Rightarrow> s
               | Inr claimed \<Rightarrow>
                   (case transition claimed LeaseTransferred (rh_WorkerID hello) (rh_ParserType hello) of
                      Inl _ \<Rightarrow> set_lease a claimed s
                    | Inr transferred \<Rightarrow>
                        (let l = transferred\<lparr>ls_transferSent := True\<rparr>; s1 = set_lease a l s in
                         s1\<lparr>dp_transfers := (w, ls_doc l, \<lparr>ph_LeaseID = ld_LeaseID (ls_doc l),
                              ph_ExtractionIdentity = extractionIdentityLocked e l\<rparr>, ls_payload l) # dp_transfers s1\<rparr>))))"

definition handleResult :: "nat \<Rightarrow> gostring \<Rightarrow> disp \<Rightarrow> disp" where
  "handleResult w body s =
    (case wc_active (dp_wheap s ! w) of
       None \<Rightarrow> s
     | Some a \<Rightarrow>
         if ls_state (dp_lheap s ! a) \<noteq> LeaseTransferred then s
         else set_lease a ((dp_lheap s ! a)\<lparr>ls_resultBytes := body\<rparr>) s)"

definition effective_transfer :: "env \<Rightarrow> lease \<Rightarrow> outcome \<Rightarrow> gostring" where
  "effective_transfer e active oc =
    (let t = ho_TransferState (oc_Handoff oc) in
     if t = ''CONFIRMED'' then
       (if oc_ExtractionIdentity oc \<noteq> Some (extractionIdentityLocked e active) then ''QUARANTINED''
        else if ls_resultBytes active = [] then ''QUARANTINED'' else t)
     else t)"

text \<open>\<open>handleOutcome\<close>: every early return unlocks; the three calls of \<open>resolveLocked\<close> return with the
  mutex held.\<close>

definition handleOutcome :: "env \<Rightarrow> int \<Rightarrow> nat \<Rightarrow> outcome \<Rightarrow> disp \<Rightarrow> disp" where
  "handleOutcome e now w oc s =
    (case validate_outcome (en_parse e) oc of
       Inl _ \<Rightarrow> s
     | Inr reportedAt \<Rightarrow>
         (case wc_active (dp_wheap s ! w) of
            None \<Rightarrow> s
          | Some a \<Rightarrow>
              if dp_leases s (oc_LeaseID oc) \<noteq> Some a then s
              else
                (let active = dp_lheap s ! a in
                 if oc_JobID oc \<noteq> ld_JobID (ls_doc active) \<or> oc_WorkerID oc \<noteq> ld_WorkerID (ls_doc active)
                    \<or> oc_ParserType oc \<noteq> ld_ParserType (ls_doc active) then s
                 else if reportedAt > time_or_zero (deadlineAt e active)
                    \<or> reportedAt < time_or_zero (issuedAt e active) then s
                 else
                   (case confirmOutcome active (effective_transfer e active oc) of
                      Inl _ \<Rightarrow> s
                    | Inr (state, l) \<Rightarrow>
                        (let s1 = set_lease a l s in
                         if state = LeaseCompleted then
                           (resolveLocked a \<lparr>jr_outcome = oc, jr_result = Some (ls_resultBytes l),
                              jr_confirmation = Some (confirmationLocked e l), jr_retryable = False\<rparr> s1)
                             \<lparr>dp_locked := True\<rparr>
                         else if state = LeaseQuarantined then
                           (resolveLocked a \<lparr>jr_outcome = quarantinedOutcome e now l, jr_result = None,
                              jr_confirmation = None, jr_retryable = False\<rparr> s1)\<lparr>dp_locked := True\<rparr>
                         else
                           (resolveLocked a \<lparr>jr_outcome = retryOutcome e now l, jr_result = None,
                              jr_confirmation = None, jr_retryable = True\<rparr> s1)\<lparr>dp_locked := True\<rparr>)))))"

definition expire :: "env \<Rightarrow> int \<Rightarrow> nat \<Rightarrow> bool \<Rightarrow> disp \<Rightarrow> disp" where
  "expire e now a deadlineFired s =
    (let active = dp_lheap s ! a in
     case dp_leases s (ld_LeaseID (ls_doc active)) of
       None \<Rightarrow> s
     | Some _ \<Rightarrow>
         (let s1 = set_lease a (active\<lparr>ls_timerStopped := True\<rparr>) s;
              active1 = dp_lheap s1 ! a;
              s2 = (if ob_PID (ls_obs active) > 0 \<and> (deadlineFired \<or> ls_transferSent active)
                    then s1\<lparr>dp_killed := ls_obs active # dp_killed s1\<rparr> else s1);
              bound = (\<lambda>next. transition active1 next (ld_WorkerID (ls_doc active)) (ld_ParserType (ls_doc active))) in
          if ls_transferSent active then
            (case bound LeaseQuarantined of
               Inl _ \<Rightarrow> s2
             | Inr l \<Rightarrow> (resolveLocked a \<lparr>jr_outcome = quarantinedOutcome e now l, jr_result = None,
                          jr_confirmation = None, jr_retryable = False\<rparr> (set_lease a l s2))\<lparr>dp_locked := True\<rparr>)
          else
            (case bound LeaseExpired of
               Inl _ \<Rightarrow> s2
             | Inr l \<Rightarrow>
                 if ld_Attempt (ls_doc active) \<ge> en_MaxAttempts e
                 then (resolveLocked a \<lparr>jr_outcome = quarantinedOutcome e now l, jr_result = None,
                         jr_confirmation = None, jr_retryable = False\<rparr> (set_lease a l s2))\<lparr>dp_locked := True\<rparr>
                 else (resolveLocked a \<lparr>jr_outcome = retryOutcome e now l, jr_result = None,
                         jr_confirmation = None, jr_retryable = True\<rparr> (set_lease a l s2))\<lparr>dp_locked := True\<rparr>)))"

text \<open>\<open>handleSubmitter\<close>: the checks before the lock, then one pass of the loop under it. \<open>WaitReady\<close> is
  the pass that releases the lock to wait for the worker's readiness; \<open>NoAnswer\<close> closes the
  connection without a word.\<close>

datatype answer = AnswerRetry outcome | NoAnswer | WaitReady | Offered nat

definition offered_lease :: "env \<Rightarrow> int \<Rightarrow> int \<Rightarrow> int \<Rightarrow> job \<Rightarrow> gostring \<Rightarrow> worker_conn \<Rightarrow> int \<Rightarrow> lease" where
  "offered_lease e now submittedAt deadline j payload worker attempt =
    \<lparr>ls_doc = \<lparr>ld_SchemaVersion = ''sandbox-lease-v1'', ld_LeaseID = jb_LeaseID j, ld_JobID = jb_JobID j,
       ld_WorkerID = rh_WorkerID (wc_hello worker), ld_ParserType = jb_ParserType j,
       ld_Registration = \<lparr>rg_SocketID = ''unix://'' @ en_SocketPath e,
         rg_ParserType = rh_ParserType (wc_hello worker), rg_SingleSock = True,
         rg_Capabilities = [''PULL_JOB'', ''PUSH_OUTCOME'']\<rparr>,
       ld_IssuedAt = en_format e now, ld_ExpiresAt = en_format e deadline,
       ld_Attempt = attempt, ld_State = LeaseOffered\<rparr>,
     ls_job = j, ls_payload = payload, ls_resultBytes = [], ls_obs = wc_obs worker,
     ls_wallClock = time_sub deadline submittedAt, ls_transferSent = False, ls_results = [], ls_taken = 0,
     ls_timerStopped = False\<rparr>"

definition offerLocked :: "env \<Rightarrow> int \<Rightarrow> int \<Rightarrow> int \<Rightarrow> job \<Rightarrow> gostring \<Rightarrow> disp \<Rightarrow> answer \<times> disp" where
  "offerLocked e now submittedAt deadline j payload s =
    (if dp_leases s (jb_LeaseID j) \<noteq> None then (AnswerRetry (retryOutcomeDoc e now j), s)
     else case dp_workers s (jb_ParserType j) of
            None \<Rightarrow> (AnswerRetry (retryOutcomeDoc e now j), s)
          | Some w \<Rightarrow>
              (let worker = dp_wheap s ! w in
               if (case wc_active worker of None \<Rightarrow> False | Some b \<Rightarrow> \<not> canOffer (dp_lheap s ! b))
               then (AnswerRetry (retryOutcomeDoc e now j), s)
               else if \<not> wc_ready worker then (WaitReady, s)
               else
                 (let attempt = dp_attempts s (jb_LeaseID j) + 1; a = length (dp_lheap s);
                      s1 = s\<lparr>dp_lheap := dp_lheap s @ [offered_lease e now submittedAt deadline j payload worker attempt]\<rparr>;
                      s2 = set_worker w (worker\<lparr>wc_active := Some a\<rparr>) s1
                  in (Offered a, s2\<lparr>dp_leases := (dp_leases s2)(jb_LeaseID j := Some a),
                                    dp_attempts := (dp_attempts s2)(jb_LeaseID j := attempt)\<rparr>))))"

definition handleSubmitter :: "env \<Rightarrow> int \<Rightarrow> job \<Rightarrow> payload_header \<Rightarrow> gostring \<Rightarrow> disp \<Rightarrow> answer \<times> disp" where
  "handleSubmitter e now j header payload s =
    (case Validate_job (en_parse e) j now of
       Inl _ \<Rightarrow> (AnswerRetry (retryOutcomeDoc e now j), s)
     | Inr (submittedAt, deadline) \<Rightarrow>
         if payload = [] \<or> length payload > en_MaxPayloadBytes e then (NoAnswer, s)
         else if ph_LeaseID header \<noteq> [] \<and> ph_LeaseID header \<noteq> jb_LeaseID j then (NoAnswer, s)
         else if en_sha256 e payload \<noteq> ia_ContentDigest (jb_InputArtifact j) then (NoAnswer, s)
         else offerLocked e now submittedAt deadline j payload s)"

section \<open>The interleaving of the goroutines\<close>

inductive step :: "env \<Rightarrow> disp \<Rightarrow> disp \<Rightarrow> bool" for e where
  reserve: "\<not> dp_locked s \<Longrightarrow> step e s (registerReserve hello observed s)"
| ready: "\<not> dp_locked s \<Longrightarrow> w < length (dp_wheap s) \<Longrightarrow> step e s (registerReady w s)"
| drop: "\<not> dp_locked s \<Longrightarrow> w < length (dp_wheap s) \<Longrightarrow> step e s (dropWorker w s)"
| claim: "\<not> dp_locked s \<Longrightarrow> w < length (dp_wheap s) \<Longrightarrow> step e s (handleClaim e w leaseID workerID s)"
| result: "\<not> dp_locked s \<Longrightarrow> w < length (dp_wheap s) \<Longrightarrow> step e s (handleResult w body s)"
| outcome: "\<not> dp_locked s \<Longrightarrow> w < length (dp_wheap s) \<Longrightarrow> step e s (handleOutcome e now w oc s)"
| submit: "\<not> dp_locked s \<Longrightarrow> step e s (snd (handleSubmitter e now j header payload s))"
| write_failed: "a < length (dp_lheap s) \<Longrightarrow> step e s (s\<lparr>dp_pending := (a, False) # dp_pending s\<rparr>)"
| timer: "a < length (dp_lheap s) \<Longrightarrow> \<not> ls_timerStopped (dp_lheap s ! a) \<Longrightarrow>
    step e s (s\<lparr>dp_pending := (a, True) # dp_pending s\<rparr>)"
| run_expire: "\<not> dp_locked s \<Longrightarrow> (a, f) \<in> set (dp_pending s) \<Longrightarrow>
    step e s (expire e now a f (s\<lparr>dp_pending := remove1 (a, f) (dp_pending s)\<rparr>))"
| receive: "a < length (dp_lheap s) \<Longrightarrow> ls_taken (dp_lheap s ! a) = 0 \<Longrightarrow> ls_results (dp_lheap s ! a) \<noteq> [] \<Longrightarrow>
    step e s (set_lease a ((dp_lheap s ! a)\<lparr>ls_taken := 1\<rparr>) s)"

section \<open>The invariant of the broker\<close>

definition live :: "lease \<Rightarrow> bool" where
  "live l \<longleftrightarrow> ls_results l = [] \<and> ls_taken l = 0
     \<and> (ls_state l = LeaseOffered \<and> \<not> ls_transferSent l \<or> ls_state l = LeaseTransferred \<and> ls_transferSent l)"

text \<open>A lease that has left the table: one result was sent, and it is the one its state calls for.\<close>

definition proper_result :: "env \<Rightarrow> lease \<Rightarrow> job_result \<Rightarrow> bool" where
  "proper_result e l r \<longleftrightarrow>
     (ls_state l = LeaseCompleted \<and> ls_transferSent l \<and> \<not> jr_retryable r
        \<and> ls_resultBytes l \<noteq> [] \<and> jr_result r = Some (ls_resultBytes l)
        \<and> jr_confirmation r = Some (confirmationLocked e l)
        \<and> oc_ExtractionIdentity (jr_outcome r) = Some (extractionIdentityLocked e l)
        \<and> ho_TransferState (oc_Handoff (jr_outcome r)) = ''CONFIRMED'')
   \<or> (ls_state l = LeaseQuarantined \<and> \<not> jr_retryable r \<and> jr_result r = None \<and> jr_confirmation r = None
        \<and> ho_TransferState (oc_Handoff (jr_outcome r)) = ''QUARANTINED'')
   \<or> (ls_state l = LeaseExpired \<and> \<not> ls_transferSent l \<and> jr_result r = None \<and> jr_confirmation r = None
        \<and> (jr_retryable r \<and> ho_TransferState (oc_Handoff (jr_outcome r)) = ''RETRY''
           \<or> \<not> jr_retryable r \<and> en_MaxAttempts e \<le> ld_Attempt (ls_doc l)
              \<and> ho_TransferState (oc_Handoff (jr_outcome r)) = ''QUARANTINED''))"

definition finished :: "env \<Rightarrow> lease \<Rightarrow> bool" where
  "finished e l \<longleftrightarrow> (\<exists>r. ls_results l = [r] \<and> proper_result e l r)"

definition workers_ok :: "disp \<Rightarrow> bool" where
  "workers_ok s \<longleftrightarrow> (\<forall>pt w. dp_workers s pt = Some w \<longrightarrow>
     w < length (dp_wheap s) \<and> rh_ParserType (wc_hello (dp_wheap s ! w)) = pt)"

definition table_ok :: "disp \<Rightarrow> bool" where
  "table_ok s \<longleftrightarrow> (\<forall>i a. dp_leases s i = Some a \<longrightarrow>
     a < length (dp_lheap s) \<and> ld_LeaseID (ls_doc (dp_lheap s ! a)) = i \<and> live (dp_lheap s ! a))"

definition gone_ok :: "env \<Rightarrow> disp \<Rightarrow> bool" where
  "gone_ok e s \<longleftrightarrow> (\<forall>a<length (dp_lheap s). dp_leases s (ld_LeaseID (ls_doc (dp_lheap s ! a))) \<noteq> Some a \<longrightarrow>
     finished e (dp_lheap s ! a))"

definition binding_ok :: "disp \<Rightarrow> bool" where
  "binding_ok s \<longleftrightarrow> (\<forall>w<length (dp_wheap s). \<forall>a. wc_active (dp_wheap s ! w) = Some a \<longrightarrow>
     a < length (dp_lheap s) \<and> dp_leases s (ld_LeaseID (ls_doc (dp_lheap s ! a))) = Some a
     \<and> dp_workers s (rh_ParserType (wc_hello (dp_wheap s ! w))) = Some w
     \<and> ld_WorkerID (ls_doc (dp_lheap s ! a)) = rh_WorkerID (wc_hello (dp_wheap s ! w))
     \<and> ld_ParserType (ls_doc (dp_lheap s ! a)) = rh_ParserType (wc_hello (dp_wheap s ! w)))"

definition pending_ok :: "disp \<Rightarrow> bool" where
  "pending_ok s \<longleftrightarrow> (\<forall>(a, f)\<in>set (dp_pending s). a < length (dp_lheap s))"

definition dispatch_inv :: "env \<Rightarrow> disp \<Rightarrow> bool" where
  "dispatch_inv e s \<longleftrightarrow> workers_ok s \<and> table_ok s \<and> gone_ok e s \<and> binding_ok s \<and> pending_ok s"

lemmas inv_defs = dispatch_inv_def workers_ok_def table_ok_def gone_ok_def binding_ok_def pending_ok_def

lemma initial_inv: "dispatch_inv e initial"
  by (simp add: inv_defs initial_def)

text \<open>The invariant as rules, so that each section is checked component by component.\<close>

lemma dispatch_invI:
  assumes "\<And>pt w. dp_workers s pt = Some w \<Longrightarrow>
      w < length (dp_wheap s) \<and> rh_ParserType (wc_hello (dp_wheap s ! w)) = pt"
    and "\<And>i a. dp_leases s i = Some a \<Longrightarrow>
      a < length (dp_lheap s) \<and> ld_LeaseID (ls_doc (dp_lheap s ! a)) = i \<and> live (dp_lheap s ! a)"
    and "\<And>a. a < length (dp_lheap s) \<Longrightarrow> dp_leases s (ld_LeaseID (ls_doc (dp_lheap s ! a))) \<noteq> Some a \<Longrightarrow>
      finished e (dp_lheap s ! a)"
    and "\<And>w a. w < length (dp_wheap s) \<Longrightarrow> wc_active (dp_wheap s ! w) = Some a \<Longrightarrow>
      a < length (dp_lheap s) \<and> dp_leases s (ld_LeaseID (ls_doc (dp_lheap s ! a))) = Some a
      \<and> dp_workers s (rh_ParserType (wc_hello (dp_wheap s ! w))) = Some w
      \<and> ld_WorkerID (ls_doc (dp_lheap s ! a)) = rh_WorkerID (wc_hello (dp_wheap s ! w))
      \<and> ld_ParserType (ls_doc (dp_lheap s ! a)) = rh_ParserType (wc_hello (dp_wheap s ! w))"
    and "\<And>a f. (a, f) \<in> set (dp_pending s) \<Longrightarrow> a < length (dp_lheap s)"
  shows "dispatch_inv e s"
  using assms by (simp add: inv_defs split: prod.splits) blast

lemma inv_worker: "dispatch_inv e s \<Longrightarrow> dp_workers s pt = Some w \<Longrightarrow>
    w < length (dp_wheap s) \<and> rh_ParserType (wc_hello (dp_wheap s ! w)) = pt"
  by (simp add: inv_defs)

lemma inv_table: "dispatch_inv e s \<Longrightarrow> dp_leases s i = Some a \<Longrightarrow>
    a < length (dp_lheap s) \<and> ld_LeaseID (ls_doc (dp_lheap s ! a)) = i \<and> live (dp_lheap s ! a)"
  by (simp add: inv_defs)

lemma inv_gone: "dispatch_inv e s \<Longrightarrow> a < length (dp_lheap s) \<Longrightarrow>
    dp_leases s (ld_LeaseID (ls_doc (dp_lheap s ! a))) \<noteq> Some a \<Longrightarrow> finished e (dp_lheap s ! a)"
  by (simp add: inv_defs)

lemma inv_binding: "dispatch_inv e s \<Longrightarrow> w < length (dp_wheap s) \<Longrightarrow> wc_active (dp_wheap s ! w) = Some a \<Longrightarrow>
    a < length (dp_lheap s) \<and> dp_leases s (ld_LeaseID (ls_doc (dp_lheap s ! a))) = Some a
    \<and> dp_workers s (rh_ParserType (wc_hello (dp_wheap s ! w))) = Some w
    \<and> ld_WorkerID (ls_doc (dp_lheap s ! a)) = rh_WorkerID (wc_hello (dp_wheap s ! w))
    \<and> ld_ParserType (ls_doc (dp_lheap s ! a)) = rh_ParserType (wc_hello (dp_wheap s ! w))"
  by (simp add: inv_defs)

lemma inv_pending: "dispatch_inv e s \<Longrightarrow> (a, f) \<in> set (dp_pending s) \<Longrightarrow> a < length (dp_lheap s)"
  by (fastforce simp: inv_defs)

lemma inv_live: "dispatch_inv e s \<Longrightarrow> dp_leases s i = Some a \<Longrightarrow>
    ls_results (dp_lheap s ! a) = [] \<and> \<not> terminal (ls_state (dp_lheap s ! a))"
  using inv_table [of e s i a] by (auto simp: live_def)

lemma inv_frames [simp]:
  "dispatch_inv e (s\<lparr>dp_transfers := x\<rparr>) = dispatch_inv e s"
  "dispatch_inv e (s\<lparr>dp_killed := k\<rparr>) = dispatch_inv e s"
  "dispatch_inv e (s\<lparr>dp_locked := b\<rparr>) = dispatch_inv e s"
  "dispatch_inv e (s\<lparr>dp_attempts := c\<rparr>) = dispatch_inv e s"
  by (simp_all add: inv_defs)

subsection \<open>Sections that do not resolve\<close>

lemma registerReserve_inv:
  assumes inv: "dispatch_inv e s"
  shows "dispatch_inv e (registerReserve hello observed s)"
proof (cases "\<not> validate_hello hello \<or> observed = None \<or> dp_workers s (rh_ParserType hello) \<noteq> None")
  case True
  with inv show ?thesis by (auto simp: registerReserve_def split: option.split)
next
  case False
  then obtain obs where r: "registerReserve hello observed s =
      s\<lparr>dp_wheap := dp_wheap s @ [\<lparr>wc_hello = hello, wc_obs = obs, wc_active = None, wc_ready = False\<rparr>],
        dp_workers := (dp_workers s)(rh_ParserType hello := Some (length (dp_wheap s)))\<rparr>"
    and free: "dp_workers s (rh_ParserType hello) = None"
    by (auto simp: registerReserve_def)
  show ?thesis unfolding r
    apply (rule dispatch_invI)
    subgoal for pt w using inv_worker [OF inv, of pt w] by (auto simp: nth_append split: if_splits)
    subgoal for i a using inv_table [OF inv, of i a] by simp
    subgoal for a using inv_gone [OF inv, of a] by simp
    subgoal for w a using inv_binding [OF inv, of w a] free by (auto simp: nth_append split: if_splits)
    subgoal for a f using inv_pending [OF inv, of a f] by simp
    done
qed

lemma registerReady_inv:
  assumes inv: "dispatch_inv e s"
  shows "dispatch_inv e (registerReady w s)"
proof (cases "dp_workers s (rh_ParserType (wc_hello (dp_wheap s ! w))) = Some w")
  case True
  then have r: "registerReady w s = set_worker w ((dp_wheap s ! w)\<lparr>wc_ready := True\<rparr>) s"
    by (simp add: registerReady_def)
  show ?thesis unfolding r set_worker_def
    apply (rule dispatch_invI)
    subgoal for pt v using inv_worker [OF inv, of pt v] by (cases "v = w") auto
    subgoal for i a using inv_table [OF inv, of i a] by simp
    subgoal for a using inv_gone [OF inv, of a] by simp
    subgoal for v a using inv_binding [OF inv, of v a] by (cases "v = w") auto
    subgoal for a f using inv_pending [OF inv, of a f] by simp
    done
qed (use inv in \<open>simp add: registerReady_def\<close>)

lemma dropWorker_inv:
  assumes inv: "dispatch_inv e s" and w: "w < length (dp_wheap s)"
  shows "dispatch_inv e (dropWorker w s)"
proof -
  define p where "p = (case wc_active (dp_wheap s ! w) of None \<Rightarrow> dp_pending s | Some a \<Rightarrow> (a, False) # dp_pending s)"
  define ws where "ws = (if dp_workers s (rh_ParserType (wc_hello (dp_wheap s ! w))) = Some w
      then (dp_workers s)(rh_ParserType (wc_hello (dp_wheap s ! w)) := None) else dp_workers s)"
  have r: "dropWorker w s = s\<lparr>dp_workers := ws, dp_pending := p,
      dp_wheap := (dp_wheap s)[w := (dp_wheap s ! w)\<lparr>wc_active := None, wc_ready := False\<rparr>]\<rparr>"
    by (simp add: dropWorker_def Let_def set_worker_def p_def ws_def split: option.split)
  show ?thesis unfolding r
    apply (rule dispatch_invI)
    subgoal for pt v using inv_worker [OF inv, of pt v] by (cases "v = w") (auto simp: ws_def split: if_splits)
    subgoal for i a using inv_table [OF inv, of i a] by simp
    subgoal for a using inv_gone [OF inv, of a] by simp
    subgoal for v a using inv_binding [OF inv, of v a] w by (cases "v = w") (auto simp: ws_def split: if_splits)
    subgoal for a f using inv_pending [OF inv, of a f] inv_binding [OF inv w, of a]
      by (auto simp: p_def split: option.splits)
    done
qed

text \<open>Changing a lease in place keeps the invariant when it stays the same lease of the same worker,
  live if it is in the table and finished if it is not.\<close>

definition same_binding :: "lease \<Rightarrow> lease \<Rightarrow> bool" where
  "same_binding l l' \<longleftrightarrow> ld_LeaseID (ls_doc l') = ld_LeaseID (ls_doc l)
     \<and> ld_WorkerID (ls_doc l') = ld_WorkerID (ls_doc l) \<and> ld_ParserType (ls_doc l') = ld_ParserType (ls_doc l)"

lemma set_lease_inv:
  assumes inv: "dispatch_inv e s" and same: "same_binding (dp_lheap s ! a) l"
    and "dp_leases s (ld_LeaseID (ls_doc l)) = Some a \<Longrightarrow> live l"
    and "dp_leases s (ld_LeaseID (ls_doc l)) \<noteq> Some a \<Longrightarrow> finished e l"
  shows "dispatch_inv e (set_lease a l s)"
  unfolding set_lease_def
  apply (rule dispatch_invI)
  subgoal for pt w using inv_worker [OF inv, of pt w] by simp
  subgoal for i b using inv_table [OF inv, of i b] assms(3) same
    by (cases "b = a") (auto simp: same_binding_def)
  subgoal for b using inv_gone [OF inv, of b] assms(4) same
    by (cases "b = a") (auto simp: same_binding_def)
  subgoal for w b using inv_binding [OF inv, of w b] same
    by (cases "b = a") (auto simp: same_binding_def)
  subgoal for b f using inv_pending [OF inv, of b f] by simp
  done

lemma timer_stop_inv:
  assumes "dispatch_inv e s"
  shows "dispatch_inv e (set_lease a ((dp_lheap s ! a)\<lparr>ls_timerStopped := b\<rparr>) s)"
proof (cases "a < length (dp_lheap s)")
  case True
  show ?thesis
  proof (rule set_lease_inv [OF assms])
    assume "dp_leases s (ld_LeaseID (ls_doc ((dp_lheap s ! a)\<lparr>ls_timerStopped := b\<rparr>))) = Some a"
    with inv_table [OF assms] show "live ((dp_lheap s ! a)\<lparr>ls_timerStopped := b\<rparr>)" by (simp add: live_def)
  next
    assume "dp_leases s (ld_LeaseID (ls_doc ((dp_lheap s ! a)\<lparr>ls_timerStopped := b\<rparr>))) \<noteq> Some a"
    with inv_gone [OF assms True] show "finished e ((dp_lheap s ! a)\<lparr>ls_timerStopped := b\<rparr>)"
      by (simp add: finished_def proper_result_def confirmationLocked_def extractionIdentityLocked_def lease_limits_def)
  qed (simp add: same_binding_def)
qed (use assms in \<open>simp add: set_lease_def list_update_beyond\<close>)

lemma handleResult_inv:
  assumes inv: "dispatch_inv e s" and w: "w < length (dp_wheap s)"
  shows "dispatch_inv e (handleResult w body s)"
proof (cases "wc_active (dp_wheap s ! w)")
  case (Some a)
  from inv_binding [OF inv w Some] have a: "dp_leases s (ld_LeaseID (ls_doc (dp_lheap s ! a))) = Some a" by simp
  from inv_table [OF inv this] have "live (dp_lheap s ! a)" by simp
  then have "dispatch_inv e (set_lease a ((dp_lheap s ! a)\<lparr>ls_resultBytes := body\<rparr>) s)"
    using a by (intro set_lease_inv [OF inv]) (simp_all add: same_binding_def live_def)
  then show ?thesis using Some inv by (simp add: handleResult_def)
qed (use inv in \<open>simp add: handleResult_def\<close>)

lemma handleClaim_inv:
  assumes inv: "dispatch_inv e s"
  shows "dispatch_inv e (handleClaim e w leaseID workerID s)"
proof (cases "dp_leases s leaseID")
  case (Some a)
  let ?l = "dp_lheap s ! a" and ?x = "rh_WorkerID (wc_hello (dp_wheap s ! w))"
    and ?y = "rh_ParserType (wc_hello (dp_wheap s ! w))"
  show ?thesis
  proof (cases "wc_active (dp_wheap s ! w) \<noteq> Some a \<or> ld_WorkerID (ls_doc ?l) \<noteq> workerID
      \<or> ld_WorkerID (ls_doc ?l) \<noteq> ?x")
    case True
    with inv Some show ?thesis by (simp add: handleClaim_def Let_def)
  next
    case ok: False
    show ?thesis
    proof (cases "transition ?l LeaseClaimed ?x ?y")
      case (Inl err)
      with inv Some ok show ?thesis by (simp add: handleClaim_def Let_def)
    next
      case (Inr c)
      then have c: "c = set_state LeaseClaimed ?l" "?x = ld_WorkerID (ls_doc ?l)" "?y = ld_ParserType (ls_doc ?l)"
        by (simp_all add: transition_iff)
      then have t: "transition c LeaseTransferred ?x ?y = Inr (set_state LeaseTransferred c)"
        by (simp add: transition_iff)
      from inv_table [OF inv Some] have "live ?l" "ld_LeaseID (ls_doc ?l) = leaseID" by simp_all
      with c(1) Some have "dispatch_inv e (set_lease a ((set_state LeaseTransferred c)\<lparr>ls_transferSent := True\<rparr>) s)"
        by (intro set_lease_inv [OF inv]) (simp_all add: same_binding_def live_def set_state_def)
      then show ?thesis using Some ok Inr t by (simp add: handleClaim_def Let_def)
    qed
  qed
qed (use inv in \<open>simp add: handleClaim_def\<close>)

lemma receive_inv:
  assumes inv: "dispatch_inv e s" and "ls_results (dp_lheap s ! a) \<noteq> []" "a < length (dp_lheap s)"
  shows "dispatch_inv e (set_lease a ((dp_lheap s ! a)\<lparr>ls_taken := 1\<rparr>) s)"
proof (rule set_lease_inv [OF inv])
  show "same_binding (dp_lheap s ! a) ((dp_lheap s ! a)\<lparr>ls_taken := 1\<rparr>)" by (simp add: same_binding_def)
  assume "dp_leases s (ld_LeaseID (ls_doc ((dp_lheap s ! a)\<lparr>ls_taken := 1\<rparr>))) = Some a"
  with inv_live [OF inv] assms(2) show "live ((dp_lheap s ! a)\<lparr>ls_taken := 1\<rparr>)" by fastforce
next
  assume "dp_leases s (ld_LeaseID (ls_doc ((dp_lheap s ! a)\<lparr>ls_taken := 1\<rparr>))) \<noteq> Some a"
  then have "finished e (dp_lheap s ! a)" using inv_gone [OF inv assms(3)] by simp
  then show "finished e ((dp_lheap s ! a)\<lparr>ls_taken := 1\<rparr>)"
    by (simp add: finished_def proper_result_def confirmationLocked_def extractionIdentityLocked_def lease_limits_def)
qed

lemma offer_inv:
  assumes inv: "dispatch_inv e s"
  shows "dispatch_inv e (snd (offerLocked e now submittedAt deadline j payload s))"
proof (cases "dp_leases s (jb_LeaseID j) \<noteq> None \<or> dp_workers s (jb_ParserType j) = None")
  case True
  with inv show ?thesis by (auto simp: offerLocked_def)
next
  case False
  then obtain w where L: "dp_leases s (jb_LeaseID j) = None" and W: "dp_workers s (jb_ParserType j) = Some w" by auto
  let ?w = "dp_wheap s ! w"
  show ?thesis
  proof (cases "(case wc_active ?w of None \<Rightarrow> False | Some b \<Rightarrow> \<not> canOffer (dp_lheap s ! b)) \<or> \<not> wc_ready ?w")
    case True
    with inv L W show ?thesis by (auto simp: offerLocked_def Let_def)
  next
    case C: False
    let ?l = "offered_lease e now submittedAt deadline j payload ?w (dp_attempts s (jb_LeaseID j) + 1)"
    have w: "w < length (dp_wheap s)" "rh_ParserType (wc_hello ?w) = jb_ParserType j"
      using inv_worker [OF inv W] by auto
    have idle: "wc_active ?w = None"
    proof (cases "wc_active ?w")
      case (Some b)
      with inv_live [OF inv] inv_binding [OF inv w(1) Some] C show ?thesis by (fastforce simp: canOffer_def)
    qed
    have l: "ld_LeaseID (ls_doc ?l) = jb_LeaseID j" "live ?l"
      "ld_WorkerID (ls_doc ?l) = rh_WorkerID (wc_hello ?w)" "ld_ParserType (ls_doc ?l) = jb_ParserType j"
      by (simp_all add: offered_lease_def live_def)
    have r: "snd (offerLocked e now submittedAt deadline j payload s) =
       s\<lparr>dp_lheap := dp_lheap s @ [?l], dp_wheap := (dp_wheap s)[w := ?w\<lparr>wc_active := Some (length (dp_lheap s))\<rparr>],
         dp_leases := (dp_leases s)(jb_LeaseID j := Some (length (dp_lheap s))),
         dp_attempts := (dp_attempts s)(jb_LeaseID j := dp_attempts s (jb_LeaseID j) + 1)\<rparr>"
      using L W C by (simp add: offerLocked_def Let_def set_worker_def)
    show ?thesis unfolding r
      apply (rule dispatch_invI)
      subgoal for pt v using inv_worker [OF inv, of pt v] by (cases "v = w") auto
      subgoal for i a using inv_table [OF inv, of i a] l by (auto simp: nth_append split: if_splits)
      subgoal for a using inv_gone [OF inv, of a] l L by (auto simp: nth_append less_Suc_eq split: if_splits)
      subgoal for v a using inv_binding [OF inv, of v a] L W l w
        by (cases "v = w") (auto simp: nth_append split: if_splits)
      subgoal for a f using inv_pending [OF inv, of a f] by simp
      done
  qed
qed

subsection \<open>Resolving a lease\<close>

definition freed_heap :: "disp \<Rightarrow> nat \<Rightarrow> gostring \<Rightarrow> worker_conn list" where
  "freed_heap s a pt = (case dp_workers s pt of None \<Rightarrow> dp_wheap s
     | Some w \<Rightarrow> if wc_active (dp_wheap s ! w) = Some a
                 then (dp_wheap s)[w := (dp_wheap s ! w)\<lparr>wc_active := None\<rparr>] else dp_wheap s)"

lemma resolve_eq:
  assumes "a < length (dp_lheap s)" "ls_results l = []" "ls_taken l = 0"
  shows "resolveLocked a r (set_lease a l s) = s\<lparr>
      dp_leases := (dp_leases s)(ld_LeaseID (ls_doc l) := None),
      dp_attempts := (if jr_retryable r then dp_attempts s else (dp_attempts s)(ld_LeaseID (ls_doc l) := 0)),
      dp_wheap := freed_heap s a (ld_ParserType (ls_doc l)),
      dp_lheap := (dp_lheap s)[a := l\<lparr>ls_timerStopped := True, ls_results := [r]\<rparr>]\<rparr>"
  using assms
  by (auto simp: resolveLocked_def set_lease_def free_worker_def set_worker_def freed_heap_def send_result_def
      Let_def split: option.split)

lemma freed_heap_length [simp]: "length (freed_heap s a pt) = length (dp_wheap s)"
  by (simp add: freed_heap_def split: option.split)

lemma freed_heap_nth: "v < length (dp_wheap s) \<Longrightarrow>
    wc_hello (freed_heap s a pt ! v) = wc_hello (dp_wheap s ! v)
    \<and> (wc_active (freed_heap s a pt ! v) = Some b \<longrightarrow> wc_active (dp_wheap s ! v) = Some b
         \<and> (dp_workers s pt = Some v \<longrightarrow> b \<noteq> a))"
proof (cases "dp_workers s pt")
  case (Some w)
  assume "v < length (dp_wheap s)"
  with Some show ?thesis by (cases "v = w") (auto simp: freed_heap_def)
qed (simp add: freed_heap_def)

lemma resolve_worker:
  assumes inv: "dispatch_inv e s" and tab: "dp_leases s (ld_LeaseID (ls_doc l)) = Some a"
    and same: "same_binding (dp_lheap s ! a) l" and w: "w < length (dp_wheap s)"
    and act: "wc_active (freed_heap s a (ld_ParserType (ls_doc l)) ! w) = Some b"
  shows "b \<noteq> a \<and> ld_LeaseID (ls_doc (dp_lheap s ! b)) \<noteq> ld_LeaseID (ls_doc l)
    \<and> wc_active (dp_wheap s ! w) = Some b"
proof -
  note heap = freed_heap_nth [OF w, of a "ld_ParserType (ls_doc l)" b]
  then have act': "wc_active (dp_wheap s ! w) = Some b" using act by simp
  note bind = inv_binding [OF inv w act']
  have "b \<noteq> a"
  proof
    assume "b = a"
    with bind same have "dp_workers s (ld_ParserType (ls_doc l)) = Some w" by (simp add: same_binding_def)
    with heap act \<open>b = a\<close> show False by blast
  qed
  with bind tab act' show ?thesis by auto
qed

lemma resolve_inv:
  assumes inv: "dispatch_inv e s" and tab: "dp_leases s (ld_LeaseID (ls_doc l)) = Some a"
    and same: "same_binding (dp_lheap s ! a) l" and l: "ls_results l = []" "ls_taken l = 0"
    and r: "proper_result e l r"
  shows "dispatch_inv e (resolveLocked a r (set_lease a l s))"
proof -
  have a: "a < length (dp_lheap s)" "ld_LeaseID (ls_doc (dp_lheap s ! a)) = ld_LeaseID (ls_doc l)"
    using inv_table [OF inv tab] by simp_all
  have fin: "finished e (l\<lparr>ls_timerStopped := True, ls_results := [r]\<rparr>)"
    using r by (simp add: finished_def proper_result_def confirmationLocked_def extractionIdentityLocked_def lease_limits_def)
  show ?thesis unfolding resolve_eq [OF a(1) l]
    apply (rule dispatch_invI)
    subgoal for pt w using inv_worker [OF inv, of pt w] freed_heap_nth [of w s a "ld_ParserType (ls_doc l)"] by simp
    subgoal for i b using inv_table [OF inv, of i b] a by (cases "b = a") (auto split: if_splits)
    subgoal for b using inv_gone [OF inv, of b] fin tab a by (cases "b = a") (auto split: if_splits)
    subgoal for w b using resolve_worker [OF inv tab same, of w b] inv_binding [OF inv, of w b]
        freed_heap_nth [of w s a "ld_ParserType (ls_doc l)" b] by simp
    subgoal for b f using inv_pending [OF inv, of b f] by simp
    done
qed

lemma identity_set_state [simp]:
  "extractionIdentityLocked e (set_state st l) = extractionIdentityLocked e l"
  "confirmationLocked e (set_state st l) = confirmationLocked e l"
  by (simp_all add: extractionIdentityLocked_def confirmationLocked_def lease_limits_def set_state_def)

lemma handleOutcome_inv:
  assumes inv: "dispatch_inv e s" and w: "w < length (dp_wheap s)"
  shows "dispatch_inv e (handleOutcome e now w oc s)"
proof (cases "wc_active (dp_wheap s ! w)")
  case (Some a)
  let ?l = "dp_lheap s ! a"
  from inv_binding [OF inv w Some] have tab: "dp_leases s (ld_LeaseID (ls_doc ?l)) = Some a" by simp
  from inv_table [OF inv tab] have live: "live ?l" by simp
  have res: "dispatch_inv e (resolveLocked a r (set_lease a (set_state st ?l) s))"
    if "proper_result e (set_state st ?l) r" for st r
    by (rule resolve_inv [OF inv]) (use tab live that in \<open>auto simp: same_binding_def live_def\<close>)
  have eff: "effective_transfer e ?l oc = ''CONFIRMED'' \<Longrightarrow> ho_TransferState (oc_Handoff oc) = ''CONFIRMED''
      \<and> oc_ExtractionIdentity oc = Some (extractionIdentityLocked e ?l) \<and> ls_resultBytes ?l \<noteq> []"
    by (auto simp: effective_transfer_def Let_def split: if_splits)
  show ?thesis
  proof (cases "confirmOutcome ?l (effective_transfer e ?l oc)")
    case (Inl err)
    with Some inv show ?thesis by (auto simp: handleOutcome_def Let_def split: sum.split)
  next
    case (Inr p)
    then obtain st l where p: "p = (st, l)" and "confirmOutcome ?l (effective_transfer e ?l oc) = Inr (st, l)"
      by (cases p) auto
    then have st: "l = set_state st ?l" "st = LeaseCompleted \<and> effective_transfer e ?l oc = ''CONFIRMED'' \<and> ls_transferSent ?l
        \<or> st = LeaseQuarantined \<or> st = LeaseExpired \<and> \<not> ls_transferSent ?l"
      by (auto simp: confirmOutcome_iff split: if_splits)
    have "proper_result e (set_state st ?l) \<lparr>jr_outcome = oc, jr_result = Some (ls_resultBytes ?l),
        jr_confirmation = Some (confirmationLocked e ?l), jr_retryable = False\<rparr>" if "st = LeaseCompleted"
      using st(2) eff that by (simp add: proper_result_def)
    moreover have "proper_result e (set_state st ?l) \<lparr>jr_outcome = quarantinedOutcome e now (set_state st ?l), jr_result = None,
        jr_confirmation = None, jr_retryable = False\<rparr>" if "st = LeaseQuarantined"
      using that by (simp add: proper_result_def quarantinedOutcome_def)
    moreover have "proper_result e (set_state st ?l) \<lparr>jr_outcome = retryOutcome e now (set_state st ?l), jr_result = None,
        jr_confirmation = None, jr_retryable = True\<rparr>" if "st \<noteq> LeaseCompleted" "st \<noteq> LeaseQuarantined"
      using st(2) that by (auto simp: proper_result_def retryOutcome_def retryOutcomeDoc_def)
    ultimately show ?thesis
      using Some inv Inr p st(1) res by (auto simp: handleOutcome_def Let_def split: sum.split)
  qed
qed (use inv in \<open>simp add: handleOutcome_def split: sum.split\<close>)

lemma finished_terminal: "finished e l \<Longrightarrow> terminal (ls_state l)"
  by (auto simp: finished_def proper_result_def)

lemma expire_inv:
  assumes inv: "dispatch_inv e s" and a: "a < length (dp_lheap s)"
  shows "dispatch_inv e (expire e now a fired s)"
proof (cases "dp_leases s (ld_LeaseID (ls_doc (dp_lheap s ! a)))")
  case (Some b)
  let ?active = "dp_lheap s ! a"
  define k where "k = (if ob_PID (ls_obs ?active) > 0 \<and> (fired \<or> ls_transferSent ?active)
      then ls_obs ?active # dp_killed s else dp_killed s)"
  define s2 where "s2 = (set_lease a (?active\<lparr>ls_timerStopped := True\<rparr>) s)\<lparr>dp_killed := k\<rparr>"
  have inv2: "dispatch_inv e s2" using timer_stop_inv [OF inv] by (simp add: s2_def)
  define l0 where "l0 = dp_lheap s2 ! a"
  have l0: "l0 = ?active\<lparr>ls_timerStopped := True\<rparr>" using a by (simp add: l0_def s2_def set_lease_def)
  have leases2: "dp_leases s2 = dp_leases s" by (simp add: s2_def set_lease_def)
  have res: "dispatch_inv e (resolveLocked a r (set_lease a (set_state st l0) s2))"
    if "lease_step (ls_state l0) st" "proper_result e (set_state st l0) r" for st r
  proof -
    have "\<not> terminal (ls_state ?active)" using lease_step_nonterminal [OF that(1)] by (simp add: l0)
    then have "dp_leases s (ld_LeaseID (ls_doc ?active)) = Some a"
      using inv_gone [OF inv a] finished_terminal by blast
    then have tab: "dp_leases s2 (ld_LeaseID (ls_doc (set_state st l0))) = Some a"
      by (simp add: leases2 l0)
    have "live l0" using inv_table [OF inv2, of "ld_LeaseID (ls_doc l0)" a] tab by (simp add: l0_def)
    then show ?thesis
      by (intro resolve_inv [OF inv2 tab]) (use that in \<open>simp_all add: same_binding_def live_def l0_def\<close>)
  qed
  have q: "proper_result e (set_state LeaseQuarantined l0) \<lparr>jr_outcome = quarantinedOutcome e now (set_state LeaseQuarantined l0),
      jr_result = None, jr_confirmation = None, jr_retryable = False\<rparr>"
    by (simp add: proper_result_def quarantinedOutcome_def)
  have x: "proper_result e (set_state LeaseExpired l0) \<lparr>jr_outcome = retryOutcome e now (set_state LeaseExpired l0),
      jr_result = None, jr_confirmation = None, jr_retryable = True\<rparr>"
    and m: "en_MaxAttempts e \<le> ld_Attempt (ls_doc l0) \<Longrightarrow>
      proper_result e (set_state LeaseExpired l0) \<lparr>jr_outcome = quarantinedOutcome e now (set_state LeaseExpired l0),
      jr_result = None, jr_confirmation = None, jr_retryable = False\<rparr>"
    if "\<not> ls_transferSent l0"
    using that by (simp_all add: proper_result_def retryOutcome_def retryOutcomeDoc_def quarantinedOutcome_def)
  have heap: "dp_lheap (set_lease a (?active\<lparr>ls_timerStopped := True\<rparr>) s) ! a = l0"
    using a by (simp add: l0 set_lease_def)
  have kill: "(if ob_PID (ls_obs ?active) > 0 \<and> (fired \<or> ls_transferSent ?active)
        then (set_lease a (?active\<lparr>ls_timerStopped := True\<rparr>) s)\<lparr>dp_killed := ls_obs ?active
               # dp_killed (set_lease a (?active\<lparr>ls_timerStopped := True\<rparr>) s)\<rparr>
        else set_lease a (?active\<lparr>ls_timerStopped := True\<rparr>) s) = s2"
    by (simp add: s2_def k_def set_lease_def)
  have fields: "ls_transferSent l0 = ls_transferSent ?active" "ls_doc l0 = ls_doc ?active" by (simp_all add: l0)
  show ?thesis
    unfolding expire_def Let_def Some option.case kill heap
    using inv2 res q x m fields by (auto simp: transition_iff split: sum.split)
qed (use inv in \<open>simp add: expire_def\<close>)

lemma pending_frame: "dispatch_inv e s \<Longrightarrow> (\<And>a f. (a, f) \<in> set p \<Longrightarrow> a < length (dp_lheap s)) \<Longrightarrow>
    dispatch_inv e (s\<lparr>dp_pending := p\<rparr>)"
  by (simp add: inv_defs) blast

lemma step_inv: "step e s s' \<Longrightarrow> dispatch_inv e s \<Longrightarrow> dispatch_inv e s'"
proof (induction rule: step.induct)
  case (submit s now j header payload)
  then show ?case using offer_inv by (auto simp: handleSubmitter_def split: sum.split)
next
  case (run_expire s a f now)
  let ?s = "s\<lparr>dp_pending := remove1 (a, f) (dp_pending s)\<rparr>"
  have "dispatch_inv e ?s"
    by (rule pending_frame [OF run_expire.prems])
      (metis inv_pending notin_set_remove1 run_expire.prems)
  moreover have "a < length (dp_lheap ?s)" using inv_pending [OF run_expire.prems run_expire.hyps(2)] by simp
  ultimately show ?case by (rule expire_inv)
next
  case (write_failed a s)
  then show ?case using inv_pending by (intro pending_frame) auto
next
  case (timer a s)
  then show ?case using inv_pending by (intro pending_frame) auto
next
  case (receive a s)
  then show ?case by (intro receive_inv)
qed (simp_all add: registerReserve_inv registerReady_inv dropWorker_inv handleClaim_inv handleResult_inv
      handleOutcome_inv)

definition reachable :: "env \<Rightarrow> disp \<Rightarrow> bool" where
  "reachable e s \<longleftrightarrow> (step e)\<^sup>*\<^sup>* initial s"

lemma steps_inv: "(step e)\<^sup>*\<^sup>* s s' \<Longrightarrow> dispatch_inv e s \<Longrightarrow> dispatch_inv e s'"
  by (induction rule: rtranclp_induct) (auto intro: step_inv)

lemma reachable_inv: "reachable e s \<Longrightarrow> dispatch_inv e s"
  unfolding reachable_def by (rule steps_inv [OF _ initial_inv])

subsection \<open>What holds in every reachable state\<close>

text \<open>
  C13. Every lease in every interleaving: while it is in the table it is offered without a transfer
  or transferred, and no result was sent; once it left the table exactly one result was sent, and the
  right one. A completed lease was transferred, its result is the worker's non-empty document with
  the dispatcher's own confirmation, and the worker echoed the identity the dispatcher derived. A
  quarantined lease yields no document. A result that lets the submitter retry exists only for a
  lease that was never transferred.
\<close>

theorem lease_results_proper:
  assumes "reachable e s" "a < length (dp_lheap s)"
  shows "(if dp_leases s (ld_LeaseID (ls_doc (dp_lheap s ! a))) = Some a
     then ls_results (dp_lheap s ! a) = []
       \<and> (ls_state (dp_lheap s ! a) = LeaseOffered \<and> \<not> ls_transferSent (dp_lheap s ! a)
          \<or> ls_state (dp_lheap s ! a) = LeaseTransferred \<and> ls_transferSent (dp_lheap s ! a))
     else \<exists>r. ls_results (dp_lheap s ! a) = [r] \<and> proper_result e (dp_lheap s ! a) r)
   \<and> \<not> (\<exists>r\<in>set (ls_results (dp_lheap s ! a)). jr_retryable r \<and> ls_transferSent (dp_lheap s ! a))"
proof -
  have inv: "dispatch_inv e s" by (rule reachable_inv [OF assms(1)])
  show ?thesis
    using inv_table [OF inv, of _ a] inv_gone [OF inv assms(2)]
    by (auto simp: live_def finished_def proper_result_def)
qed

text \<open>
  Binding: in every reachable state a parser type has at most one registered connection, it
  registered for that type, and the lease a connection is working on is in the table, is bound to
  that connection's worker and parser type, and the connection is the registered one.
\<close>

theorem worker_binding:
  assumes "reachable e s"
  shows "(\<forall>pt w. dp_workers s pt = Some w \<longrightarrow>
        w < length (dp_wheap s) \<and> rh_ParserType (wc_hello (dp_wheap s ! w)) = pt)
    \<and> (\<forall>w<length (dp_wheap s). \<forall>a. wc_active (dp_wheap s ! w) = Some a \<longrightarrow>
         dp_workers s (rh_ParserType (wc_hello (dp_wheap s ! w))) = Some w
         \<and> dp_leases s (ld_LeaseID (ls_doc (dp_lheap s ! a))) = Some a
         \<and> ld_WorkerID (ls_doc (dp_lheap s ! a)) = rh_WorkerID (wc_hello (dp_wheap s ! w))
         \<and> ld_ParserType (ls_doc (dp_lheap s ! a)) = rh_ParserType (wc_hello (dp_wheap s ! w)))"
  using reachable_inv [OF assms] by (simp add: inv_defs)

subsection \<open>The mutex after a resolution\<close>

lemma kept_leases [simp]:
  "dp_leases (registerReserve hello observed s) = dp_leases s" "dp_leases (registerReady w s) = dp_leases s"
  "dp_leases (dropWorker w s) = dp_leases s" "dp_leases (handleClaim e w x y s) = dp_leases s"
  "dp_leases (handleResult w body s) = dp_leases s" "dp_leases (set_lease a l s) = dp_leases s"
  by (auto simp: registerReserve_def registerReady_def dropWorker_def handleClaim_def handleResult_def
      set_worker_def set_lease_def Let_def split: option.split sum.split)

lemma submit_keeps: "dp_leases s i = Some a \<Longrightarrow> dp_leases (snd (handleSubmitter e now j header payload s)) i = Some a"
  by (auto simp: handleSubmitter_def offerLocked_def Let_def set_worker_def split: option.split sum.split)

lemma resolving_locks:
  "dp_locked (handleOutcome e now w oc s) \<or> dp_leases (handleOutcome e now w oc s) = dp_leases s"
  "dp_locked (expire e now a f s) \<or> dp_leases (expire e now a f s) = dp_leases s"
  by (auto simp: handleOutcome_def expire_def Let_def split: option.split sum.split)

lemma step_resolves_locks:
  "step e s s' \<Longrightarrow> dp_leases s i = Some a \<Longrightarrow> dp_leases s' i \<noteq> Some a \<Longrightarrow> dp_locked s'"
proof (induction rule: step.induct)
  case (outcome s w now oc)
  then show ?case using resolving_locks(1) [of e now w oc s] by auto
next
  case (run_expire s b f now)
  then show ?case using resolving_locks(2) [of e now b f "s\<lparr>dp_pending := remove1 (b, f) (dp_pending s)\<rparr>"] by auto
next
  case (submit s now j header payload)
  then show ?case using submit_keeps by metis
qed simp_all

definition frozen :: "disp \<Rightarrow> disp \<Rightarrow> bool" where
  "frozen s s' \<longleftrightarrow> dp_locked s' \<and> dp_leases s' = dp_leases s \<and> dp_workers s' = dp_workers s
     \<and> dp_wheap s' = dp_wheap s \<and> dp_attempts s' = dp_attempts s \<and> dp_transfers s' = dp_transfers s
     \<and> length (dp_lheap s') = length (dp_lheap s)"

lemma locked_step: "step e s s' \<Longrightarrow> dp_locked s \<Longrightarrow> frozen s s'"
  by (induction rule: step.induct) (auto simp: frozen_def set_lease_def)

lemma locked_steps: "(step e)\<^sup>*\<^sup>* s s' \<Longrightarrow> dp_locked s \<Longrightarrow> frozen s s'"
proof (induction rule: rtranclp_induct)
  case base
  then show ?case by (simp add: frozen_def)
next
  case (step t u)
  then have "frozen s t" "frozen t u" using locked_step by (auto simp: frozen_def)
  then show ?case by (simp add: frozen_def)
qed

text \<open>
  C14. The broker serves one lease and stops: whatever resolves a lease (an accepted outcome, a
  deadline, a lost worker) returns from the section with the mutex held, and from then on nothing in
  the broker changes again: no worker registers or leaves, no claim, result, outcome or deadline is
  processed, and no lease is ever offered.
\<close>

theorem resolution_leaves_mutex_held:
  assumes "step e s s'" "dp_leases s i = Some a" "dp_leases s' i \<noteq> Some a" "(step e)\<^sup>*\<^sup>* s' s''"
  shows "dp_locked s' \<and> frozen s' s''"
  using step_resolves_locks [OF assms(1-3)] locked_steps [OF assms(4)] by simp

subsection \<open>A complete run\<close>

definition example_env :: env where
  "example_env = \<lparr>en_SocketPath = ''/s'', en_MaxPayloadBytes = 10, en_MaxAttempts = 3,
     en_parse = (\<lambda>t. if t = ''0'' then Some 0 else if t = ''9'' then Some 9 else None),
     en_format = (\<lambda>i. if i \<le> 0 then ''0'' else ''9''),
     en_sha256 = (\<lambda>p. ''sha256:'' @ replicate 64 CHR ''0''),
     en_hash = (\<lambda>d. ''sha256:'' @ replicate 64 CHR ''a'')\<rparr>"

definition example_hello :: register_hello where
  "example_hello = \<lparr>rh_WorkerID = ''w'', rh_ParserType = ''PDF'', rh_Capabilities = [''PULL_JOB'', ''PUSH_OUTCOME'']\<rparr>"

definition example_observation :: observation where
  "example_observation = \<lparr>ob_Limits = \<lparr>li_CPUMillis = 1, li_MemoryBytes = 1, li_PIDsMax = 1, li_WallClockMS = 1\<rparr>,
     ob_PID = 7, ob_ObservedAt = 0, ob_CgroupPath = ''/c''\<rparr>"

definition example_job :: job where
  "example_job = \<lparr>jb_SchemaVersion = ''sandbox-job-v1'', jb_JobID = ''J'', jb_LeaseID = ''L'', jb_ParserType = ''PDF'',
     jb_SourceVersionID = ''v'', jb_InputArtifact = \<lparr>ia_ArtifactID = ''a'',
       ia_ContentDigest = ''sha256:'' @ replicate 64 CHR ''0'', ia_MediaType = ''application/pdf''\<rparr>,
     jb_SubmittedAt = ''0'', jb_DeadlineAt = ''9'', jb_WorkerPullOnly = True,
     jb_ContainerCreationCap = ''FORBIDDEN'', jb_OutputContract = ''document-parser-result-v1''\<rparr>"

definition example_outcome :: outcome where
  "example_outcome = \<lparr>oc_SchemaVersion = ''sandbox-outcome-v1'', oc_LeaseID = ''L'', oc_JobID = ''J'', oc_WorkerID = ''w'',
     oc_ParserType = ''PDF'', oc_Handoff = \<lparr>ho_TransferState = ''CONFIRMED'', ho_ConfirmationID = ''c''\<rparr>,
     oc_Status = ''SUCCEEDED'', oc_ReportedAt = ''0'',
     oc_ExtractionIdentity = Some (''sha256:'' @ replicate 64 CHR ''a'')\<rparr>"

definition example_ready :: disp where
  "example_ready = registerReady 0 (registerReserve example_hello (Some example_observation) initial)"

definition example_offered :: disp where
  "example_offered = snd (handleSubmitter example_env 0 example_job \<lparr>ph_LeaseID = [], ph_ExtractionIdentity = []\<rparr>
     ''doc'' example_ready)"

definition example_claimed :: disp where
  "example_claimed = handleResult 0 ''ok'' (handleClaim example_env 0 ''L'' ''w'' example_offered)"

definition example_completed :: disp where
  "example_completed = handleOutcome example_env 0 0 example_outcome example_claimed"

lemma example_run:
  "dp_leases example_claimed ''L'' = Some 0 \<and> dp_leases example_completed ''L'' = None
   \<and> length (dp_lheap example_completed) = 1 \<and> \<not> dp_locked example_claimed
   \<and> length (dp_wheap example_claimed) = 1
   \<and> ls_state (dp_lheap example_completed ! 0) = LeaseCompleted
   \<and> wc_active (dp_wheap example_claimed ! 0) = Some 0"
  by code_simp

lemma example_unlocked:
  "\<not> dp_locked (registerReserve example_hello (Some example_observation) initial)
   \<and> length (dp_wheap (registerReserve example_hello (Some example_observation) initial)) = 1
   \<and> \<not> dp_locked example_ready \<and> \<not> dp_locked example_offered \<and> length (dp_wheap example_offered) = 1
   \<and> \<not> dp_locked (handleClaim example_env 0 ''L'' ''w'' example_offered)
   \<and> length (dp_wheap (handleClaim example_env 0 ''L'' ''w'' example_offered)) = 1"
  by code_simp

lemma example_last_step: "step example_env example_claimed example_completed"
  unfolding example_completed_def by (rule step.outcome) (use example_run in simp_all)

lemma example_reachable: "reachable example_env example_claimed" "reachable example_env example_completed"
proof -
  note u = example_unlocked
  have 1: "step example_env initial (registerReserve example_hello (Some example_observation) initial)"
    by (rule step.reserve) (simp add: initial_def)
  have 2: "step example_env (registerReserve example_hello (Some example_observation) initial) example_ready"
    unfolding example_ready_def by (rule step.ready) (use u in simp_all)
  have 3: "step example_env example_ready example_offered"
    unfolding example_offered_def by (rule step.submit) (use u in simp)
  have 4: "step example_env example_offered (handleClaim example_env 0 ''L'' ''w'' example_offered)"
    by (rule step.claim) (use u in simp_all)
  have 5: "step example_env (handleClaim example_env 0 ''L'' ''w'' example_offered) example_claimed"
    unfolding example_claimed_def by (rule step.result) (use u in simp_all)
  show claimed: "reachable example_env example_claimed"
    unfolding reachable_def
    by (rule converse_rtranclp_into_rtranclp [of "step example_env", OF 1], rule converse_rtranclp_into_rtranclp [of "step example_env", OF 2],
        rule converse_rtranclp_into_rtranclp [of "step example_env", OF 3], rule converse_rtranclp_into_rtranclp [of "step example_env", OF 4],
        rule r_into_rtranclp [of "step example_env", OF 5])
  show "reachable example_env example_completed"
    using claimed example_last_step unfolding reachable_def by (rule rtranclp.rtrancl_into_rtrancl)
qed

theorem lease_results_proper_witness:
  "\<exists>r. ls_results (dp_lheap example_completed ! 0) = [r] \<and> proper_result example_env (dp_lheap example_completed ! 0) r
     \<and> ls_state (dp_lheap example_completed ! 0) = LeaseCompleted"
proof -
  have "0 < length (dp_lheap example_completed)" "ls_state (dp_lheap example_completed ! 0) = LeaseCompleted"
    using example_run by simp_all
  with lease_results_proper [OF example_reachable(2), of 0] show ?thesis by (auto split: if_splits)
qed

theorem worker_binding_witness:
  "wc_active (dp_wheap example_claimed ! 0) = Some 0
   \<and> ld_WorkerID (ls_doc (dp_lheap example_claimed ! 0)) = rh_WorkerID (wc_hello (dp_wheap example_claimed ! 0))"
  using worker_binding [OF example_reachable(1)] example_run by simp

theorem resolution_leaves_mutex_held_witness:
  "dp_locked example_completed \<and> frozen example_completed example_completed"
  by (rule resolution_leaves_mutex_held [OF example_last_step, of "''L''" 0]) (use example_run in simp_all)

end
