(* ===== verification/Path_Canon.thy ===== *)
theory Path_Canon
  imports Go_Strings
begin

text \<open>
  \<open>internal/source/pathcanon/pathcanon.go\<close>: the validation and splitting of source paths and
  scope-glob patterns. Unicode NFC is the argument \<open>nfc\<close>. The reserved device names have no letter
  that a non-ASCII rune folds to, so \<open>strings.EqualFold\<close> with them is equality up to ASCII case. The
  main lemma characterises the accepted paths and shows that the split loses nothing.
\<close>

datatype path_case = PathCaseSensitive | PathCaseWindows | PathCaseOther nat

fun valid_case :: "path_case \<Rightarrow> bool" where
  "valid_case PathCaseSensitive = True"
| "valid_case PathCaseWindows = True"
| "valid_case (PathCaseOther _) = False"

definition MaxBytes :: nat where
  "MaxBytes = 4096"

definition MaxSegments :: nat where
  "MaxSegments = 256"

text \<open>Evaluation compares lengths with these bounds in binary.\<close>

lemma bounds_code [code_unfold]: "MaxBytes < n \<longleftrightarrow> 4096 < int n" "MaxSegments < n \<longleftrightarrow> 256 < int n"
  by (simp_all add: MaxBytes_def MaxSegments_def)

definition ascii_upper :: "char \<Rightarrow> char" where
  "ascii_upper c = (if 97 \<le> byte c \<and> byte c \<le> 122 then char_of (byte c - 32) else c)"

definition reserved_names :: "gostring list" where
  "reserved_names = [''CON'', ''PRN'', ''AUX'', ''NUL'', ''COM1'', ''COM2'', ''COM3'', ''COM4'', ''COM5'', ''COM6'',
     ''COM7'', ''COM8'', ''COM9'', ''LPT1'', ''LPT2'', ''LPT3'', ''LPT4'', ''LPT5'', ''LPT6'', ''LPT7'', ''LPT8'', ''LPT9'']"

definition validWindowsSegment :: "gostring \<Rightarrow> bool \<Rightarrow> bool" where
  "validWindowsSegment segment pattern =
    (if has_suffix ''.'' segment \<or> has_suffix '' '' segment then False
     else
       (let forbidden = ''<>'' @ [CHR 0x22] @ ''|'' @ (if pattern then [] else ''*?'') in
        if contains_any segment forbidden then False
        else
          (let base = fst (cut_on CHR ''.'' segment) in
           if contains_any base ''*?'' then True
           else \<not> list_ex (\<lambda>name. map ascii_upper base = name) reserved_names)))"

definition extglob :: "gostring \<Rightarrow> bool" where
  "extglob segment \<longleftrightarrow> contains_str ''@('' segment \<or> contains_str ''+('' segment \<or> contains_str ''?('' segment
     \<or> contains_str ''*('' segment \<or> contains_str ''!('' segment"

text \<open>The checks of one segment in the loop of \<open>canonicalSegments\<close>.\<close>

definition segment_ok :: "path_case \<Rightarrow> bool \<Rightarrow> gostring \<Rightarrow> bool" where
  "segment_ok mode pattern segment =
    (if segment = [] \<or> segment = ''.'' \<or> segment = ''..'' then False
     else if mode = PathCaseWindows \<and> \<not> validWindowsSegment segment pattern then False
     else if pattern \<and> extglob segment then False
     else list_all (\<lambda>character. \<not> (character = 0 \<or> is_control character)) (runes segment))"

fun segments_loop :: "path_case \<Rightarrow> bool \<Rightarrow> gostring list \<Rightarrow> bool" where
  "segments_loop mode pattern [] = True"
| "segments_loop mode pattern (segment # rest) = (if \<not> segment_ok mode pattern segment then False
     else segments_loop mode pattern rest)"

definition canonicalSegments :: "(gostring \<Rightarrow> gostring) \<Rightarrow> gostring \<Rightarrow> path_case \<Rightarrow> bool \<Rightarrow> gostring list option" where
  "canonicalSegments nfc raw mode pattern =
    (if \<not> valid_case mode \<or> raw = [] \<or> \<not> valid_utf8 raw \<or> length raw > MaxBytes
        \<or> CHR 0x5C \<in> set raw \<or> has_prefix ''/'' raw \<or> has_suffix ''/'' raw \<or> raw \<noteq> nfc raw
        \<or> (pattern \<and> trim_right_space raw \<noteq> raw) \<or> (mode = PathCaseWindows \<and> CHR '':'' \<in> set raw)
     then None
     else
       (let segments = split_on CHR ''/'' raw in
        if length segments = 0 \<or> length segments > MaxSegments then None
        else if segments_loop mode pattern segments then Some segments else None))"

definition Path :: "(gostring \<Rightarrow> gostring) \<Rightarrow> gostring \<Rightarrow> path_case \<Rightarrow> gostring list option" where
  "Path nfc raw mode = canonicalSegments nfc raw mode False"

definition Pattern :: "(gostring \<Rightarrow> gostring) \<Rightarrow> gostring \<Rightarrow> path_case \<Rightarrow> gostring list option" where
  "Pattern nfc raw mode = canonicalSegments nfc raw mode True"

lemma segments_loop_iff: "segments_loop mode pattern segments \<longleftrightarrow> list_all (segment_ok mode pattern) segments"
  by (induction segments) auto

text \<open>Splitting at the ends: a text that neither starts nor ends with the separator and has no empty
  segment is what its segments join to.\<close>

lemma split_on_ends:
  assumes "[] \<notin> set (split_on c s)"
  shows "s \<noteq> [] \<and> \<not> has_prefix [c] s \<and> \<not> has_suffix [c] s"
proof -
  have "s \<noteq> []" using assms by auto
  moreover have "\<not> has_prefix [c] s"
  proof
    assume "has_prefix [c] s"
    then obtain t where "s = c # t" by (auto simp: has_prefix_iff)
    with assms show False by simp
  qed
  moreover have "\<not> has_suffix [c] s"
  proof
    assume "has_suffix [c] s"
    then obtain t where "s = t @ [c]" by (auto simp: has_suffix_iff)
    moreover have "split_on c (t @ [c]) = split_on c t @ [[]]" for t
      by (induction t) (auto split: list.splits)
    ultimately show False using assms by simp
  qed
  ultimately show ?thesis by simp
qed

section \<open>What a canonical path is\<close>

text \<open>How a file system walks a relative path from the directory \<open>d\<close>: an empty segment and \<open>.\<close> stay, \<open>..\<close> goes up, any
  other name goes down. A walk that only ever goes down can neither leave the root nor reach a directory by two spellings.\<close>

fun walk :: "gostring list \<Rightarrow> gostring list \<Rightarrow> gostring list" where
  "walk d [] = d"
| "walk d (s # ss) = walk (if s = [] \<or> s = ''.'' then d else if s = ''..'' then butlast d else d @ [s]) ss"

text \<open>The reserved names of Windows, in any case and with any extension, and the file names it refuses.\<close>

definition device_names :: "gostring set" where
  "device_names = {''CON'', ''PRN'', ''AUX'', ''NUL''} \<union> {p @ [d] |p d. p \<in> {''COM'', ''LPT''} \<and> 49 \<le> byte d \<and> byte d \<le> 57}"

definition spells :: "gostring \<Rightarrow> gostring \<Rightarrow> bool" where
  "spells s name \<longleftrightarrow> list_all2 (\<lambda>c n. c = n \<or> 65 \<le> byte n \<and> byte n \<le> 90 \<and> byte c = byte n + 32) s name"

definition windows_name :: "gostring \<Rightarrow> bool" where
  "windows_name s \<longleftrightarrow> (\<forall>t. s \<noteq> t @ ''.'' \<and> s \<noteq> t @ '' '') \<and> set s \<inter> set (''<>|*?:'' @ [CHR 0x22]) = {}
     \<and> \<not> (\<exists>name \<in> device_names. \<exists>base. spells base name \<and> (s = base \<or> (\<exists>ext. s = base @ ''.'' @ ext)))"

lemma walk_length: "length (walk d ss) \<le> length d + length (filter (\<lambda>s. s \<noteq> [] \<and> s \<noteq> ''.'' \<and> s \<noteq> ''..'') ss)"
proof (induction ss arbitrary: d)
  case (Cons s ss)
  from Cons [of d] Cons [of "butlast d"] Cons [of "d @ [s]"] show ?case by auto
qed simp

lemma walk_down: "(\<forall>d. walk d ss = d @ ss) \<longleftrightarrow> list_all (\<lambda>s. s \<noteq> [] \<and> s \<noteq> ''.'' \<and> s \<noteq> ''..'') ss"
proof
  assume "\<forall>d. walk d ss = d @ ss"
  then have l: "length ss \<le> length (filter (\<lambda>s. s \<noteq> [] \<and> s \<noteq> ''.'' \<and> s \<noteq> ''..'') ss)" using walk_length [of "[]" ss] by simp
  show "list_all (\<lambda>s. s \<noteq> [] \<and> s \<noteq> ''.'' \<and> s \<noteq> ''..'') ss"
  proof (rule ccontr)
    assume "\<not> ?thesis"
    then obtain s where s: "s \<in> set ss" "\<not> (s \<noteq> [] \<and> s \<noteq> ''.'' \<and> s \<noteq> ''..'')" by (force simp: list_all_iff)
    from length_filter_less [of s ss "\<lambda>s. s \<noteq> [] \<and> s \<noteq> ''.'' \<and> s \<noteq> ''..''", OF s] l show False by linarith
  qed
next
  assume "list_all (\<lambda>s. s \<noteq> [] \<and> s \<noteq> ''.'' \<and> s \<noteq> ''..'') ss"
  then have "walk d ss = d @ ss" for d by (induction ss arbitrary: d) auto
  then show "\<forall>d. walk d ss = d @ ss" by blast
qed

lemma spells_upper: "list_all (\<lambda>n. \<not> (97 \<le> byte n \<and> byte n \<le> 122)) name \<Longrightarrow> spells s name \<longleftrightarrow> map ascii_upper s = name"
proof (induction s arbitrary: name)
  case (Cons c s)
  show ?case
  proof (cases name)
    case name: (Cons n ns)
    have "c = n \<or> 65 \<le> byte n \<and> byte n \<le> 90 \<and> byte c = byte n + 32 \<longleftrightarrow> ascii_upper c = n"
      if "\<not> (97 \<le> byte n \<and> byte n \<le> 122)"
    proof (cases "97 \<le> byte c \<and> byte c \<le> 122")
      case True
      have "byte c - 32 < 256" using True by linarith
      then have "byte (char_of (byte c - 32) :: char) = byte c - 32" by (simp add: of_char_of)
      then have "ascii_upper c = n \<longleftrightarrow> byte n = byte c - 32" using True unfolding ascii_upper_def by (metis char_of_char)
      then show ?thesis using True that by auto
    next
      case False
      then show ?thesis by (auto simp: ascii_upper_def)
    qed
    with name Cons.IH [of ns] Cons.prems show ?thesis by (simp add: spells_def)
  qed (simp add: spells_def)
qed (auto simp: spells_def)

lemma reserved_upper: "list_all (\<lambda>name. list_all (\<lambda>n. \<not> (97 \<le> byte n \<and> byte n \<le> 122)) name \<and> CHR ''.'' \<notin> set name) reserved_names"
  by code_simp

lemma digit_cases: "49 \<le> byte d \<and> byte d \<le> 57 \<longleftrightarrow> d \<in> set ''123456789''"
proof
  assume "49 \<le> byte d \<and> byte d \<le> 57"
  then have "byte d \<in> {49, 50, 51, 52, 53, 54, 55, 56, 57}" by auto
  then have "(char_of (byte d) :: char) \<in> set ''123456789''" by (elim insertE) (simp_all add: char_of_def bit_Suc_0_iff)
  then show "d \<in> set ''123456789''" by simp
qed auto

lemma devices_reserved: "device_names = set reserved_names"
proof -
  have "{p @ [d] |p d. p \<in> {''COM'', ''LPT''} \<and> d \<in> set ds} = set (map (\<lambda>d. ''COM'' @ [d]) ds @ map (\<lambda>d. ''LPT'' @ [d]) ds)" for ds
    by auto
  moreover have "{''CON'', ''PRN'', ''AUX'', ''NUL''} = set [''CON'', ''PRN'', ''AUX'', ''NUL'']" by simp
  moreover have "[''CON'', ''PRN'', ''AUX'', ''NUL''] @ map (\<lambda>d. ''COM'' @ [d]) ''123456789'' @ map (\<lambda>d. ''LPT'' @ [d]) ''123456789'' = reserved_names"
    by (simp add: reserved_names_def)
  ultimately show ?thesis unfolding device_names_def digit_cases by (metis set_append)
qed

lemma cut_base: "CHR ''.'' \<notin> set base \<Longrightarrow> (s = base \<or> (\<exists>ext. s = base @ ''.'' @ ext)) \<longleftrightarrow> fst (cut_on CHR ''.'' s) = base"
proof
  assume n: "CHR ''.'' \<notin> set base"
  then have t: "takeWhile (\<lambda>x. x \<noteq> CHR ''.'') base = base" by (auto simp: takeWhile_eq_all_conv)
  show "fst (cut_on CHR ''.'' s) = base" if "s = base \<or> (\<exists>ext. s = base @ ''.'' @ ext)"
    using that t takeWhile_append_stop [OF n] by (elim disjE exE) (simp_all add: cut_on_def)
  show "s = base \<or> (\<exists>ext. s = base @ ''.'' @ ext)" if "fst (cut_on CHR ''.'' s) = base"
  proof (cases "dropWhile (\<lambda>x. x \<noteq> CHR ''.'') s")
    case Nil
    then have "takeWhile (\<lambda>x. x \<noteq> CHR ''.'') s = s" using takeWhile_dropWhile_id [of "\<lambda>x. x \<noteq> CHR ''.''" s] by (metis append_Nil2)
    then show ?thesis using that unfolding cut_on_def fst_conv by metis
  next
    case (Cons c ext)
    then have "c = CHR ''.''" using hd_dropWhile [of "\<lambda>x. x \<noteq> CHR ''.''" s] by force
    then have "s = takeWhile (\<lambda>x. x \<noteq> CHR ''.'') s @ ''.'' @ ext"
      using Cons takeWhile_dropWhile_id [of "\<lambda>x. x \<noteq> CHR ''.''" s] by simp
    then show ?thesis using that unfolding cut_on_def fst_conv by metis
  qed
qed

lemma device_base:
  "(\<exists>name \<in> device_names. \<exists>base. spells base name \<and> (s = base \<or> (\<exists>ext. s = base @ ''.'' @ ext)))
    \<longleftrightarrow> map ascii_upper (fst (cut_on CHR ''.'' s)) \<in> set reserved_names"
proof -
  have sp: "spells base name \<longleftrightarrow> map ascii_upper base = name" if "name \<in> set reserved_names" for base name
    using reserved_upper that by (intro spells_upper) (auto simp: list_all_iff)
  have nodot: "CHR ''.'' \<notin> set base" if "map ascii_upper base \<in> set reserved_names" for base
  proof
    assume "CHR ''.'' \<in> set base"
    then have "ascii_upper CHR ''.'' \<in> set (map ascii_upper base)" by simp
    then have "CHR ''.'' \<in> set (map ascii_upper base)" by (simp add: ascii_upper_def)
    with that reserved_upper show False unfolding list_all_iff by blast
  qed
  have "(\<exists>name \<in> set reserved_names. \<exists>base. spells base name \<and> (s = base \<or> (\<exists>ext. s = base @ ''.'' @ ext)))
      \<longleftrightarrow> (\<exists>base. map ascii_upper base \<in> set reserved_names \<and> (s = base \<or> (\<exists>ext. s = base @ ''.'' @ ext)))"
    by (auto simp: sp)
  also have "\<dots> \<longleftrightarrow> (\<exists>base. map ascii_upper base \<in> set reserved_names \<and> fst (cut_on CHR ''.'' s) = base)"
    using nodot cut_base by blast
  finally show ?thesis unfolding devices_reserved by simp
qed

lemma windows_segment: "CHR '':'' \<notin> set s \<Longrightarrow> validWindowsSegment s False \<longleftrightarrow> windows_name s"
proof -
  assume c: "CHR '':'' \<notin> set s"
  let ?base = "fst (cut_on CHR ''.'' s)"
  have "set ?base \<subseteq> set s" by (auto simp: cut_on_def dest: set_takeWhileD)
  then have "contains_any ?base ''*?'' \<Longrightarrow> contains_any s (''<>'' @ [CHR 0x22] @ ''|'' @ ''*?'')"
    by (auto simp: contains_any_def list_ex_iff)
  then have "validWindowsSegment s False \<longleftrightarrow> \<not> has_suffix ''.'' s \<and> \<not> has_suffix '' '' s
      \<and> \<not> contains_any s (''<>'' @ [CHR 0x22] @ ''|'' @ ''*?'') \<and> map ascii_upper ?base \<notin> set reserved_names"
    by (auto simp: validWindowsSegment_def Let_def list_ex_iff)
  also have "\<dots> \<longleftrightarrow> windows_name s"
    unfolding windows_name_def device_base using c by (auto simp: has_suffix_iff contains_any_def list_ex_iff)
  finally show ?thesis .
qed

lemma segment_ok_iff: "segment_ok mode False s \<longleftrightarrow> s \<noteq> [] \<and> s \<noteq> ''.'' \<and> s \<noteq> ''..''
    \<and> (mode = PathCaseWindows \<longrightarrow> validWindowsSegment s False) \<and> (\<forall>r \<in> set (runes s). 0x20 \<le> r \<and> \<not> (0x7F \<le> r \<and> r \<le> 0x9F))"
  by (auto simp: segment_ok_def is_control_def list_all_iff)

lemma set_join: "set (join_with [c] ss) \<subseteq> insert c (\<Union> (set ` set ss))" "s \<in> set ss \<Longrightarrow> set s \<subseteq> set (join_with [c] ss)"
  by (induction ss rule: induct_list012) auto

lemma path_accepted:
  "Path nfc raw mode = Some segments \<longleftrightarrow>
     valid_case mode \<and> raw = join_with ''/'' segments \<and> segments \<noteq> [] \<and> length segments \<le> MaxSegments
     \<and> list_all (\<lambda>s. segment_ok mode False s \<and> CHR ''/'' \<notin> set s) segments
     \<and> valid_utf8 raw \<and> length raw \<le> MaxBytes \<and> CHR 0x5C \<notin> set raw \<and> raw = nfc raw
     \<and> \<not> (mode = PathCaseWindows \<and> CHR '':'' \<in> set raw)"
proof
  assume "Path nfc raw mode = Some segments"
  then show "valid_case mode \<and> raw = join_with ''/'' segments \<and> segments \<noteq> [] \<and> length segments \<le> MaxSegments
     \<and> list_all (\<lambda>s. segment_ok mode False s \<and> CHR ''/'' \<notin> set s) segments
     \<and> valid_utf8 raw \<and> length raw \<le> MaxBytes \<and> CHR 0x5C \<notin> set raw \<and> raw = nfc raw
     \<and> \<not> (mode = PathCaseWindows \<and> CHR '':'' \<in> set raw)"
    using split_on_pieces [of _ "CHR ''/''" raw] join_split_on [of "CHR ''/''" raw]
    by (auto simp: Path_def canonicalSegments_def Let_def segments_loop_iff list_all_iff split: if_splits)
next
  assume r: "valid_case mode \<and> raw = join_with ''/'' segments \<and> segments \<noteq> [] \<and> length segments \<le> MaxSegments
     \<and> list_all (\<lambda>s. segment_ok mode False s \<and> CHR ''/'' \<notin> set s) segments
     \<and> valid_utf8 raw \<and> length raw \<le> MaxBytes \<and> CHR 0x5C \<notin> set raw \<and> raw = nfc raw
     \<and> \<not> (mode = PathCaseWindows \<and> CHR '':'' \<in> set raw)"
  then have s: "split_on CHR ''/'' raw = segments"
    using split_join_with [of segments "CHR ''/''"] by (simp add: list_all_iff)
  have "[] \<notin> set segments" using r by (auto simp: list_all_iff segment_ok_def)
  with s split_on_ends [of "CHR ''/''" raw] have "raw \<noteq> []" "\<not> has_prefix ''/'' raw" "\<not> has_suffix ''/'' raw" by auto
  moreover have "\<not> raw \<noteq> nfc raw" using r by blast
  ultimately show "Path nfc raw mode = Some segments"
    using r s unfolding Path_def canonicalSegments_def Let_def segments_loop_iff list_all_iff by auto
qed

text \<open>
  C16. A source path is accepted exactly when it is canonical, and its segments are the path: joined by the slash they are the
  bytes of the input, from every directory they only walk down (no \<open>..\<close> leaves the root, no \<open>.\<close> or empty segment is a second
  spelling), none holds a slash, a backslash or a control character, under Windows rules each is a file name there and no
  device, and the input is valid UTF-8, in NFC and within the byte and segment bounds. Everything else is refused.
\<close>

theorem path_accepted_iff:
  "Path nfc raw mode = Some segments \<longleftrightarrow>
     mode \<in> {PathCaseSensitive, PathCaseWindows}
     \<and> raw = join_with ''/'' segments \<and> (\<forall>d. walk d segments = d @ segments)
     \<and> (\<forall>s \<in> set segments. CHR ''/'' \<notin> set s \<and> CHR 0x5C \<notin> set s \<and> (\<forall>r \<in> set (runes s). 0x20 \<le> r \<and> \<not> (0x7F \<le> r \<and> r \<le> 0x9F)))
     \<and> (mode = PathCaseWindows \<longrightarrow> (\<forall>s \<in> set segments. windows_name s))
     \<and> 1 \<le> length segments \<and> length segments \<le> 256 \<and> length raw \<le> 4096 \<and> valid_utf8 raw \<and> nfc raw = raw"
proof -
  have b: "CHR 0x5C \<in> set (join_with ''/'' segments) \<longleftrightarrow> (\<exists>s \<in> set segments. CHR 0x5C \<in> set s)"
    and c: "CHR '':'' \<in> set (join_with ''/'' segments) \<longleftrightarrow> (\<exists>s \<in> set segments. CHR '':'' \<in> set s)"
    using set_join(1) [of "CHR ''/''" segments] set_join(2) [of _ segments "CHR ''/''"] by auto
  have m: "valid_case mode \<longleftrightarrow> mode \<in> {PathCaseSensitive, PathCaseWindows}" by (cases mode) auto
  have w: "windows_name s \<longleftrightarrow> CHR '':'' \<notin> set s \<and> validWindowsSegment s False" for s
    using windows_segment [of s] by (cases "CHR '':'' \<in> set s") (auto simp: windows_name_def)
  show ?thesis
    unfolding path_accepted walk_down m w segment_ok_iff list_all_iff MaxSegments_def MaxBytes_def
    using b c by (cases "raw = join_with ''/'' segments") (auto simp: Suc_le_eq)
qed

theorem path_accepted_iff_witness:
  "Path id ''docs/plan.txt'' PathCaseWindows = Some [''docs'', ''plan.txt'']
     \<and> Path id ''docs/../plan.txt'' PathCaseSensitive \<noteq> Some [''docs'', ''..'', ''plan.txt'']
     \<and> Path id ''docs/Com1.txt'' PathCaseWindows = None"
proof -
  have "validWindowsSegment ''docs'' False" "validWindowsSegment ''plan.txt'' False" by code_simp+
  then have w: "windows_name ''docs''" "windows_name ''plan.txt''" using windows_segment by simp_all
  have r: "runes ''docs'' = [100, 111, 99, 115]" "runes ''plan.txt'' = [112, 108, 97, 110, 46, 116, 120, 116]" "valid_utf8 ''docs/plan.txt''"
    by code_simp+
  have "Path id ''docs/plan.txt'' PathCaseWindows = Some [''docs'', ''plan.txt'']"
    by (rule path_accepted_iff [THEN iffD2]) (simp add: w r)
  moreover have "Path id ''docs/../plan.txt'' PathCaseSensitive \<noteq> Some [''docs'', ''..'', ''plan.txt'']"
    unfolding path_accepted_iff by auto
  moreover have "Path id ''docs/Com1.txt'' PathCaseWindows = None" by code_simp
  ultimately show ?thesis by blast
qed

end
