(* ===== verification/Scope_Glob.thy ===== *)
theory Scope_Glob
  imports Path_Canon
begin

text \<open>
  \<open>internal/source/scopeglob/scopeglob.go\<close>: the bounded scope-glob-v1 matcher. Case-insensitive
  equality of two runes (\<open>strings.EqualFold\<close>) is the argument \<open>foldeq\<close>. The step budget is threaded
  through every loop, as the code shares one \<open>matchBudget\<close>. The lemmas show that the greedy segment
  matcher with its one backtracking point and the tabulated pattern matcher decide the declarative
  meaning of a glob, and how much budget is enough.
\<close>

datatype case_mode = CaseSensitive | CaseWindows | CaseModeOther nat

datatype scope_error = CodeConfigInvalid | CodePatternInvalid | CodePathInvalid | CodeMatchLimit

datatype atom = LiteralAtom nat | StarAtom | QuestionAtom

datatype compiled_segment = Globstar | Atoms "atom list"

record matcher =
  mt_include :: "compiled_segment list list"
  mt_exclude :: "compiled_segment list list"
  mt_mode :: case_mode
  mt_compiled :: bool

definition maximumPatterns :: nat where
  "maximumPatterns = 128"

definition maximumMatchSteps :: nat where
  "maximumMatchSteps = 4194304"

lemma maximumPatterns_code [code_unfold]: "maximumPatterns < n \<longleftrightarrow> 128 < int n"
  by (simp add: maximumPatterns_def)

fun pathcanonCase :: "case_mode \<Rightarrow> path_case" where
  "pathcanonCase CaseWindows = PathCaseWindows"
| "pathcanonCase _ = PathCaseSensitive"

definition equalRune :: "(nat \<Rightarrow> nat \<Rightarrow> bool) \<Rightarrow> case_mode \<Rightarrow> nat \<Rightarrow> nat \<Rightarrow> bool" where
  "equalRune foldeq mode left right = (if mode = CaseSensitive then left = right else foldeq left right)"

section \<open>Compiling\<close>

definition scope_segments :: "(gostring \<Rightarrow> gostring) \<Rightarrow> gostring \<Rightarrow> scope_error \<Rightarrow> bool \<Rightarrow> case_mode
    \<Rightarrow> scope_error + gostring list" where
  "scope_segments nfc raw code pattern mode =
    (case (if pattern then Pattern nfc raw (pathcanonCase mode) else Path nfc raw (pathcanonCase mode)) of
       None \<Rightarrow> Inl code
     | Some segments \<Rightarrow> Inr segments)"

text \<open>The loop over the runes of a pattern segment.\<close>

fun compile_atoms :: "nat list \<Rightarrow> scope_error + atom list" where
  "compile_atoms [] = Inr []"
| "compile_atoms (r # rest) =
    (if r = 42 then and_then (compile_atoms rest) (\<lambda>a. Inr (StarAtom # a))
     else if r = 63 then and_then (compile_atoms rest) (\<lambda>a. Inr (QuestionAtom # a))
     else if r = 92 \<or> r = 33 \<or> r = 91 \<or> r = 93 \<or> r = 123 \<or> r = 125 then Inl CodePatternInvalid
     else and_then (compile_atoms rest) (\<lambda>a. Inr (LiteralAtom r # a)))"

fun compile_segments :: "gostring list \<Rightarrow> scope_error + compiled_segment list" where
  "compile_segments [] = Inr []"
| "compile_segments (segment # rest) =
    (if segment = ''**'' then and_then (compile_segments rest) (\<lambda>p. Inr (Globstar # p))
     else if contains_str ''**'' segment then Inl CodePatternInvalid
     else and_then (compile_atoms (runes segment)) (\<lambda>atoms.
       and_then (compile_segments rest) (\<lambda>p. Inr (Atoms atoms # p))))"

fun compilePatterns :: "(gostring \<Rightarrow> gostring) \<Rightarrow> gostring list \<Rightarrow> case_mode
    \<Rightarrow> scope_error + compiled_segment list list" where
  "compilePatterns nfc [] mode = Inr []"
| "compilePatterns nfc (raw # rest) mode =
    and_then (scope_segments nfc raw CodePatternInvalid True mode) (\<lambda>segments.
    and_then (compile_segments segments) (\<lambda>pattern.
    and_then (compilePatterns nfc rest mode) (\<lambda>result. Inr (pattern # result))))"

definition Compile :: "(gostring \<Rightarrow> gostring) \<Rightarrow> gostring list \<Rightarrow> gostring list \<Rightarrow> case_mode
    \<Rightarrow> scope_error + matcher" where
  "Compile nfc include exclude mode =
    (if mode \<noteq> CaseSensitive \<and> mode \<noteq> CaseWindows \<or> length include > maximumPatterns
        \<or> length exclude > maximumPatterns
     then Inl CodeConfigInvalid
     else
       and_then (compilePatterns nfc include mode) (\<lambda>includes.
       and_then (compilePatterns nfc exclude mode) (\<lambda>excludes.
         Inr \<lparr>mt_include = includes, mt_exclude = excludes, mt_mode = mode, mt_compiled = True\<rparr>)))"

text \<open>What a compiled pattern has to do with the text of the glob: a segment \<open>**\<close> is a globstar, every other segment is
  spelled by its atoms, rune for rune, and a literal atom is never one of the characters reserved by the syntax. So a
  list of patterns is compiled exactly if its paths are canonical and their segments can be spelled, in one way.\<close>

fun atom_rune :: "atom \<Rightarrow> nat" where
  "atom_rune (LiteralAtom r) = r"
| "atom_rune StarAtom = 42"
| "atom_rune QuestionAtom = 63"

definition plain_atom :: "atom \<Rightarrow> bool" where
  "plain_atom a = (case a of LiteralAtom r \<Rightarrow> r \<notin> of_char ` set ''*?!{}[]'' \<and> r \<noteq> 92 | _ \<Rightarrow> True)"

fun segment_reads :: "gostring \<Rightarrow> compiled_segment \<Rightarrow> bool" where
  "segment_reads s Globstar = (s = ''**'')"
| "segment_reads s (Atoms atoms) = (\<not> contains_str ''**'' s \<and> map atom_rune atoms = runes s \<and> list_all plain_atom atoms)"

lemma compile_atoms_iff: "compile_atoms rs = Inr atoms \<longleftrightarrow> map atom_rune atoms = rs \<and> list_all plain_atom atoms"
proof (induction rs arbitrary: atoms)
  case (Cons r rs)
  show ?case
    by (cases atoms; cases "hd atoms") (auto simp: Cons plain_atom_def)
qed auto

lemma compile_segments_iff: "compile_segments segments = Inr pattern \<longleftrightarrow> list_all2 segment_reads segments pattern"
proof (induction segments arbitrary: pattern)
  case (Cons s segments)
  have "contains_str ''**'' ''**''" by code_simp
  then show ?case
    by (cases pattern; cases "hd pattern") (auto simp: Cons compile_atoms_iff)
qed auto

theorem compile_reads:
  "compilePatterns nfc raws mode = Inr patterns
   \<longleftrightarrow> list_all2 (\<lambda>raw pattern. \<exists>segments. Pattern nfc raw (pathcanonCase mode) = Some segments
         \<and> list_all2 segment_reads segments pattern) raws patterns"
proof (induction raws arbitrary: patterns)
  case (Cons raw raws)
  show ?case
    by (cases patterns) (auto simp: Cons scope_segments_def compile_segments_iff split: option.splits)
qed auto

section \<open>Matching\<close>

text \<open>A matcher loop returns its verdict, whether it stayed within the limit, and what is left of the
  budget. The loop of \<open>matchSegment\<close> has the variables \<open>patternIndex\<close>, \<open>valueIndex\<close> and, once a star was
  seen, \<open>starIndex\<close> and \<open>starValueIndex\<close>; its fuel is the budget itself.\<close>

fun star_loop :: "atom list \<Rightarrow> nat \<Rightarrow> nat \<Rightarrow> bool \<times> bool \<times> nat" where
  "star_loop pattern p b =
    (if p < length pattern \<and> pattern ! p = StarAtom then
       (case b of 0 \<Rightarrow> (False, False, 0) | Suc b' \<Rightarrow> star_loop pattern (p + 1) b')
     else (p = length pattern, True, b))"

declare star_loop.simps [simp del]

fun segment_loop :: "(nat \<Rightarrow> nat \<Rightarrow> bool) \<Rightarrow> atom list \<Rightarrow> nat list \<Rightarrow> nat \<Rightarrow> nat \<Rightarrow> (nat \<times> nat) option
    \<Rightarrow> nat \<Rightarrow> bool \<times> bool \<times> nat" where
  "segment_loop eq pattern chars p v star 0 =
    (if v < length chars then (False, False, 0) else star_loop pattern p 0)"
| "segment_loop eq pattern chars p v star (Suc b) =
    (if v < length chars then
       (if p < length pattern \<and> pattern ! p = QuestionAtom then segment_loop eq pattern chars (p + 1) (v + 1) star b
        else if p < length pattern
          \<and> (case pattern ! p of LiteralAtom r \<Rightarrow> eq r (chars ! v) | _ \<Rightarrow> False)
        then segment_loop eq pattern chars (p + 1) (v + 1) star b
        else if p < length pattern \<and> pattern ! p = StarAtom
        then segment_loop eq pattern chars (p + 1) v (Some (p, v)) b
        else case star of
               None \<Rightarrow> (False, True, b)
             | Some (starIndex, starValue) \<Rightarrow>
                 segment_loop eq pattern chars (starIndex + 1) (starValue + 1) (Some (starIndex, starValue + 1)) b)
     else star_loop pattern p (Suc b))"

definition matchSegment :: "(nat \<Rightarrow> nat \<Rightarrow> bool) \<Rightarrow> atom list \<Rightarrow> nat list \<Rightarrow> nat \<Rightarrow> bool \<times> bool \<times> nat" where
  "matchSegment eq pattern characters budget = segment_loop eq pattern characters 0 0 None budget"

text \<open>\<open>matchPattern\<close>: the table \<open>dp\<close> with \<open>columns\<close> entries per row, filled in the order of the two
  nested loops. One cell gives the new table and budget, or nothing when the limit is hit.\<close>

definition match_cell :: "(nat \<Rightarrow> nat \<Rightarrow> bool) \<Rightarrow> compiled_segment list \<Rightarrow> nat list list \<Rightarrow> nat \<Rightarrow> nat
    \<Rightarrow> bool list \<Rightarrow> nat \<Rightarrow> (bool list \<times> nat) option" where
  "match_cell eq pattern path row column dp budget =
    (let columns = length path + 1; index = (\<lambda>r c. r * columns + c) in
     case budget of
       0 \<Rightarrow> None
     | Suc b \<Rightarrow>
         if \<not> dp ! index row column then Some (dp, b)
         else case pattern ! row of
                Globstar \<Rightarrow>
                  (let dp1 = dp[index (row + 1) column := True] in
                   Some (if column < length path then dp1[index row (column + 1) := True] else dp1, b))
              | Atoms atoms \<Rightarrow>
                  if column < length path then
                    (case matchSegment eq atoms (path ! column) b of
                       (matched, withinLimit, b') \<Rightarrow>
                         if \<not> withinLimit then None
                         else Some (if matched then dp[index (row + 1) (column + 1) := True] else dp, b'))
                  else Some (dp, b))"

fun match_cells :: "(nat \<Rightarrow> nat \<Rightarrow> bool) \<Rightarrow> compiled_segment list \<Rightarrow> nat list list \<Rightarrow> (nat \<times> nat) list
    \<Rightarrow> bool list \<Rightarrow> nat \<Rightarrow> (bool list \<times> nat) option" where
  "match_cells eq pattern path [] dp budget = Some (dp, budget)"
| "match_cells eq pattern path ((row, column) # cells) dp budget =
    (case match_cell eq pattern path row column dp budget of
       None \<Rightarrow> None
     | Some (dp', b) \<Rightarrow> match_cells eq pattern path cells dp' b)"

definition matchPattern :: "(nat \<Rightarrow> nat \<Rightarrow> bool) \<Rightarrow> compiled_segment list \<Rightarrow> nat list list \<Rightarrow> nat
    \<Rightarrow> bool \<times> bool \<times> nat" where
  "matchPattern eq pattern path budget =
    (let rows = length pattern + 1; columns = length path + 1;
         dp = (replicate (rows * columns) False)[0 := True];
         cells = List.product [0..<length pattern] [0..<length path + 1] in
     case match_cells eq pattern path cells dp budget of
       None \<Rightarrow> (False, False, 0)
     | Some (dp', b) \<Rightarrow> (dp' ! (length pattern * columns + length path), True, b))"

text \<open>A loop over patterns that stops at the first match.\<close>

fun any_match :: "(nat \<Rightarrow> nat \<Rightarrow> bool) \<Rightarrow> compiled_segment list list \<Rightarrow> nat list list \<Rightarrow> nat
    \<Rightarrow> scope_error + (bool \<times> nat)" where
  "any_match eq [] path budget = Inr (False, budget)"
| "any_match eq (pattern # rest) path budget =
    (case matchPattern eq pattern path budget of
       (matched, withinLimit, b) \<Rightarrow>
         if \<not> withinLimit then Inl CodeMatchLimit
         else if matched then Inr (True, b) else any_match eq rest path b)"

definition Match :: "(gostring \<Rightarrow> gostring) \<Rightarrow> (nat \<Rightarrow> nat \<Rightarrow> bool) \<Rightarrow> matcher \<Rightarrow> gostring \<Rightarrow> scope_error + bool" where
  "Match nfc foldeq m path =
    (if \<not> mt_compiled m \<or> mt_mode m \<noteq> CaseSensitive \<and> mt_mode m \<noteq> CaseWindows then Inl CodeConfigInvalid
     else
       and_then (scope_segments nfc path CodePathInvalid False (mt_mode m)) (\<lambda>segments.
         let eq = equalRune foldeq (mt_mode m); chars = map runes segments in
         and_then (any_match eq (mt_exclude m) chars maximumMatchSteps) (\<lambda>(excluded, b).
           if excluded then Inr False
           else if mt_include m = [] then Inr True
           else and_then (any_match eq (mt_include m) chars b) (\<lambda>(included, _). Inr included))))"

section \<open>The meaning of a glob\<close>

fun glob :: "(nat \<Rightarrow> nat \<Rightarrow> bool) \<Rightarrow> atom list \<Rightarrow> nat list \<Rightarrow> bool" where
  "glob eq [] vs \<longleftrightarrow> vs = []"
| "glob eq (QuestionAtom # ps) vs \<longleftrightarrow> (case vs of [] \<Rightarrow> False | v # vs' \<Rightarrow> glob eq ps vs')"
| "glob eq (LiteralAtom r # ps) vs \<longleftrightarrow> (case vs of [] \<Rightarrow> False | v # vs' \<Rightarrow> eq r v \<and> glob eq ps vs')"
| "glob eq (StarAtom # ps) [] \<longleftrightarrow> glob eq ps []"
| "glob eq (StarAtom # ps) (v # vs) \<longleftrightarrow> glob eq ps (v # vs) \<or> glob eq (StarAtom # ps) vs"

fun path_glob :: "(nat \<Rightarrow> nat \<Rightarrow> bool) \<Rightarrow> compiled_segment list \<Rightarrow> nat list list \<Rightarrow> bool" where
  "path_glob eq [] xs \<longleftrightarrow> xs = []"
| "path_glob eq (Atoms a # ps) xs \<longleftrightarrow> (case xs of [] \<Rightarrow> False | x # xs' \<Rightarrow> glob eq a x \<and> path_glob eq ps xs')"
| "path_glob eq (Globstar # ps) [] \<longleftrightarrow> path_glob eq ps []"
| "path_glob eq (Globstar # ps) (x # xs) \<longleftrightarrow> path_glob eq ps (x # xs) \<or> path_glob eq (Globstar # ps) xs"

lemma glob_star: "glob eq (StarAtom # ps) vs \<longleftrightarrow> (\<exists>k\<le>length vs. glob eq ps (drop k vs))"
proof (induction vs)
  case (Cons v vs)
  have "(\<exists>k\<le>length (v # vs). glob eq ps (drop k (v # vs)))
      \<longleftrightarrow> glob eq ps (v # vs) \<or> (\<exists>k\<le>length vs. glob eq ps (drop k vs))"
    by (metis Suc_le_mono bot_nat_0.extremum drop0 drop_Suc_Cons length_Cons not0_implies_Suc)
  with Cons show ?case by simp
qed simp

lemma glob_length: "glob eq ps vs \<Longrightarrow> StarAtom \<notin> set (take m ps) \<Longrightarrow> m \<le> length ps \<Longrightarrow>
    m \<le> length vs \<and> glob eq (drop m ps) (drop m vs)"
proof (induction ps arbitrary: vs m)
  case (Cons a ps)
  show ?case
  proof (cases m)
    case (Suc n)
    with Cons.prems show ?thesis
      using Cons.IH [of "tl vs" n] by (cases a; cases vs) auto
  qed (use Cons.prems in simp)
qed simp

section \<open>The segment matcher decides the glob\<close>

lemma star_loop_spec:
  "star_loop pattern p b = (m, ok, b') \<Longrightarrow> p \<le> length pattern \<Longrightarrow>
     (ok \<longrightarrow> m = glob eq (drop p pattern) []) \<and> (length pattern - p \<le> b \<longrightarrow> ok \<and> b \<le> b' + (length pattern - p))"
proof (induction pattern p b arbitrary: m b' rule: star_loop.induct)
  case (1 pattern p b)
  show ?case
  proof (cases "p < length pattern \<and> pattern ! p = StarAtom")
    case True
    then have d: "drop p pattern = StarAtom # drop (p + 1) pattern"
      using Cons_nth_drop_Suc [of p pattern] by simp
    show ?thesis
    proof (cases b)
      case 0
      with 1(2) True show ?thesis by (auto simp: star_loop.simps [of pattern p])
    next
      case (Suc c)
      with 1(2) True have "star_loop pattern (p + 1) c = (m, ok, b')" by (simp add: star_loop.simps [of pattern p])
      from 1(1) [OF True Suc this] True Suc d show ?thesis by auto
    qed
  next
    case False
    with 1(2) have r: "m = (p = length pattern)" "ok" "b' = b" by (auto simp: star_loop.simps [of pattern p] split: if_splits)
    have "glob eq (drop p pattern) [] \<longleftrightarrow> p = length pattern"
    proof (cases "p < length pattern")
      case True
      then have "drop p pattern = pattern ! p # drop (Suc p) pattern"
        using Cons_nth_drop_Suc [of p pattern] by simp
      with False True show ?thesis by (cases "pattern ! p") auto
    qed (use 1(3) in simp)
    with r show ?thesis by simp
  qed
qed

text \<open>What is still to be decided at a point of the loop: the rest of the pattern on the rest of the
  value, or a later end of the last star. Between the last star and the current atom no star lies,
  and each atom has taken one rune.\<close>

definition open_match :: "(nat \<Rightarrow> nat \<Rightarrow> bool) \<Rightarrow> atom list \<Rightarrow> nat list \<Rightarrow> nat \<Rightarrow> nat \<Rightarrow> (nat \<times> nat) option \<Rightarrow> bool" where
  "open_match eq pattern chars p v star \<longleftrightarrow> glob eq (drop p pattern) (drop v chars)
     \<or> (case star of None \<Rightarrow> False
        | Some (s, sv) \<Rightarrow> \<exists>k. sv < k \<and> k \<le> length chars \<and> glob eq (drop (s + 1) pattern) (drop k chars))"

definition loop_ok :: "atom list \<Rightarrow> nat list \<Rightarrow> nat \<Rightarrow> nat \<Rightarrow> (nat \<times> nat) option \<Rightarrow> bool" where
  "loop_ok pattern chars p v star \<longleftrightarrow> p \<le> length pattern \<and> v \<le> length chars
     \<and> (case star of None \<Rightarrow> True
        | Some (s, sv) \<Rightarrow> s < p \<and> sv \<le> v \<and> v = sv + (p - (s + 1))
            \<and> StarAtom \<notin> set (take (p - (s + 1)) (drop (s + 1) pattern)))"

lemma later_end:
  assumes "loop_ok pattern chars p v (Some (s, sv))" "sv < k" "k \<le> length chars"
    and "glob eq (drop (s + 1) pattern) (drop k chars)"
  shows "k + (p - (s + 1)) \<le> length chars \<and> v < k + (p - (s + 1))
    \<and> glob eq (drop p pattern) (drop (k + (p - (s + 1))) chars)"
proof -
  let ?m = "p - (s + 1)"
  have ok: "s < p" "p \<le> length pattern" "v = sv + ?m" "StarAtom \<notin> set (take ?m (drop (s + 1) pattern))"
    using assms(1) by (auto simp: loop_ok_def)
  have "?m \<le> length (drop (s + 1) pattern)" using ok by simp
  from glob_length [OF assms(4) ok(4) this] have "?m \<le> length (drop k chars)"
    and g: "glob eq (drop ?m (drop (s + 1) pattern)) (drop ?m (drop k chars))" by simp_all
  moreover have "drop ?m (drop (s + 1) pattern) = drop p pattern" using ok by simp
  ultimately show ?thesis using assms(2,3) ok(3) by (simp add: add.commute)
qed

lemma take_step: "s < p \<Longrightarrow> p < length pattern \<Longrightarrow>
    take (p - s) (drop (Suc s) pattern) = take (p - Suc s) (drop (Suc s) pattern) @ [pattern ! p]"
proof -
  assume a: "s < p" "p < length pattern"
  then have "p - s = Suc (p - Suc s)" "p - Suc s < length (drop (Suc s) pattern)" by auto
  with a show ?thesis by (simp add: take_Suc_conv_app_nth)
qed

lemma shift_ex: "v \<le> n \<Longrightarrow> (\<exists>j\<le>n - v. P (v + j)) \<longleftrightarrow> (\<exists>k\<ge>v. k \<le> n \<and> P k)" for n :: nat
proof
  assume "v \<le> n" "\<exists>k\<ge>v. k \<le> n \<and> P k"
  then obtain k where "v \<le> k" "k \<le> n" "P k" by blast
  then show "\<exists>j\<le>n - v. P (v + j)" by (intro exI [of _ "k - v"]) simp
next
  assume "v \<le> n" "\<exists>j\<le>n - v. P (v + j)"
  then obtain j where "j \<le> n - v" "P (v + j)" by blast
  with \<open>v \<le> n\<close> show "\<exists>k\<ge>v. k \<le> n \<and> P k" by (intro exI [of _ "v + j"]) simp
qed

text \<open>The four moves of the loop keep the invariant and what is to be decided.\<close>

lemma move_one:
  assumes "loop_ok pattern chars p v star" "p < length pattern" "v < length chars"
    and "pattern ! p = QuestionAtom \<or> (\<exists>r. pattern ! p = LiteralAtom r \<and> eq r (chars ! v))"
  shows "loop_ok pattern chars (p + 1) (v + 1) star
    \<and> open_match eq pattern chars (p + 1) (v + 1) star = open_match eq pattern chars p v star"
proof -
  have "drop p pattern = pattern ! p # drop (Suc p) pattern" "drop v chars = chars ! v # drop (Suc v) chars"
    using assms Cons_nth_drop_Suc by metis+
  moreover have "pattern ! p \<noteq> StarAtom" using assms(4) by auto
  ultimately show ?thesis using assms
    by (auto simp: loop_ok_def open_match_def take_step split: option.splits)
qed

lemma move_star:
  assumes ok: "loop_ok pattern chars p v star" and p: "p < length pattern" "pattern ! p = StarAtom"
  shows "loop_ok pattern chars (p + 1) v (Some (p, v))
    \<and> open_match eq pattern chars (p + 1) v (Some (p, v)) = open_match eq pattern chars p v star"
proof -
  have d: "drop p pattern = StarAtom # drop (p + 1) pattern" using p Cons_nth_drop_Suc [of p pattern] by simp
  have v: "v \<le> length chars" using ok by (simp add: loop_ok_def)
  have here: "glob eq (drop p pattern) (drop v chars) \<longleftrightarrow> (\<exists>k\<ge>v. k \<le> length chars \<and> glob eq (drop (p + 1) pattern) (drop k chars))"
  proof -
    have "glob eq (drop p pattern) (drop v chars) \<longleftrightarrow> (\<exists>j\<le>length chars - v. glob eq (drop (p + 1) pattern) (drop (v + j) chars))"
      by (simp add: d glob_star add.commute)
    also have "\<dots> \<longleftrightarrow> (\<exists>k\<ge>v. k \<le> length chars \<and> glob eq (drop (p + 1) pattern) (drop k chars))"
      by (rule shift_ex [OF v])
    finally show ?thesis .
  qed
  have old: "glob eq (drop p pattern) (drop v chars)"
    if "star = Some (s, sv)" "sv < k" "k \<le> length chars" "glob eq (drop (s + 1) pattern) (drop k chars)" for s sv k
  proof -
    let ?j = "k + (p - (s + 1))"
    have j: "?j \<le> length chars" "v < ?j" "glob eq (drop p pattern) (drop ?j chars)"
      using later_end [of pattern chars p v s sv k eq] ok that by auto
    then have "\<exists>i\<le>length chars - ?j. glob eq (drop (p + 1) pattern) (drop (?j + i) chars)"
      by (simp add: d glob_star add.commute)
    then have "\<exists>k\<ge>?j. k \<le> length chars \<and> glob eq (drop (p + 1) pattern) (drop k chars)"
      using shift_ex [OF j(1), of "\<lambda>k. glob eq (drop (p + 1) pattern) (drop k chars)"] by blast
    then obtain k' where "?j \<le> k'" "k' \<le> length chars" "glob eq (drop (p + 1) pattern) (drop k' chars)" by blast
    moreover from this(1) j(2) have "v \<le> k'" by linarith
    ultimately show ?thesis unfolding here by blast
  qed
  have "open_match eq pattern chars p v star \<longleftrightarrow> glob eq (drop p pattern) (drop v chars)"
    using old by (auto simp: open_match_def split: option.split)
  also have "\<dots> \<longleftrightarrow> open_match eq pattern chars (p + 1) v (Some (p, v))"
    unfolding here open_match_def using v by (auto simp: le_less)
  finally show ?thesis using ok p by (simp add: loop_ok_def)
qed

lemma move_back:
  assumes ok: "loop_ok pattern chars p v (Some (s, sv))" and v: "v < length chars"
    and no: "\<not> glob eq (drop p pattern) (drop v chars)"
  shows "loop_ok pattern chars (s + 1) (sv + 1) (Some (s, sv + 1))
    \<and> open_match eq pattern chars (s + 1) (sv + 1) (Some (s, sv + 1)) = open_match eq pattern chars p v (Some (s, sv))"
proof -
  have sv: "sv < length chars" "s + 1 \<le> length pattern" using ok v by (auto simp: loop_ok_def)
  have "(\<exists>k. sv < k \<and> k \<le> length chars \<and> glob eq (drop (s + 1) pattern) (drop k chars))
      \<longleftrightarrow> glob eq (drop (s + 1) pattern) (drop (sv + 1) chars)
        \<or> (\<exists>k. sv + 1 < k \<and> k \<le> length chars \<and> glob eq (drop (s + 1) pattern) (drop k chars))"
    using sv by (metis Suc_eq_plus1 Suc_leI less_Suc_eq less_add_one not_less_eq nat_neq_iff)
  then show ?thesis using ok v no sv by (simp add: open_match_def loop_ok_def)
qed

lemma stuck_no_glob:
  assumes "v < length chars" "p \<le> length pattern"
    and "\<not> (p < length pattern \<and> pattern ! p = QuestionAtom)"
    and "\<not> (p < length pattern \<and> (case pattern ! p of LiteralAtom r \<Rightarrow> eq r (chars ! v) | _ \<Rightarrow> False))"
    and "\<not> (p < length pattern \<and> pattern ! p = StarAtom)"
  shows "\<not> glob eq (drop p pattern) (drop v chars)"
proof (cases "p < length pattern")
  case True
  have "drop p pattern = pattern ! p # drop (Suc p) pattern" "drop v chars = chars ! v # drop (Suc v) chars"
    using assms(1) True Cons_nth_drop_Suc by metis+
  with True assms(3-5) show ?thesis by (cases "pattern ! p") auto
qed (use assms(1) in simp)

lemma ended_no_later:
  "loop_ok pattern chars p (length chars) star \<Longrightarrow>
     open_match eq pattern chars p (length chars) star = glob eq (drop p pattern) []"
  using later_end [of pattern chars p "length chars" _ _ _ eq]
  by (fastforce simp: open_match_def split: option.splits)

text \<open>The work left at a point of the loop, which every step takes from.\<close>

definition loop_work :: "atom list \<Rightarrow> nat list \<Rightarrow> nat \<Rightarrow> (nat \<times> nat) option \<Rightarrow> nat" where
  "loop_work pattern chars p star =
    (length chars - (case star of None \<Rightarrow> 0 | Some (s, sv) \<Rightarrow> sv)) * Suc (length pattern) + (length pattern - p)"

lemma work_back:
  assumes "sv < n" "s < p" "p \<le> m"
  shows "(n - Suc sv) * Suc m + (m - Suc s) < (n - sv) * Suc m + (m - p)"
proof -
  have "(n - sv) * Suc m = (n - Suc sv) * Suc m + Suc m" using assms(1) by (metis Suc_diff_Suc add.commute mult_Suc)
  with assms show ?thesis by simp
qed

lemma segment_loop_spec:
  "segment_loop eq pattern chars p v star b = (m, ok, b') \<Longrightarrow> loop_ok pattern chars p v star \<Longrightarrow>
     (ok \<longrightarrow> m = open_match eq pattern chars p v star)
     \<and> (loop_work pattern chars p star < b \<longrightarrow> ok \<and> b \<le> b' + Suc (loop_work pattern chars p star))"
proof (induction b arbitrary: p v star)
  case 0
  show ?case
  proof (cases "v < length chars")
    case False
    with 0(2) have v: "v = length chars" by (auto simp: loop_ok_def)
    then show ?thesis using 0 star_loop_spec [of pattern p 0 m ok b' eq] ended_no_later [of pattern chars p star eq]
      by (auto simp: loop_ok_def)
  qed (use 0 in simp)
next
  case (Suc b)
  have bounds: "p \<le> length pattern" "v \<le> length chars" using Suc.prems(2) by (auto simp: loop_ok_def)
  show ?case
  proof (cases "v < length chars")
    case False
    with bounds have v: "v = length chars" by simp
    have "length pattern - p \<le> loop_work pattern chars p star" by (simp add: loop_work_def)
    then show ?thesis
      using Suc.prems v star_loop_spec [of pattern p "Suc b" m ok b' eq] ended_no_later [of pattern chars p star eq]
      by (auto simp: loop_ok_def)
  next
    case v: True
    let ?q = "p < length pattern \<and> pattern ! p = QuestionAtom"
    let ?l = "p < length pattern \<and> (case pattern ! p of LiteralAtom r \<Rightarrow> eq r (chars ! v) | _ \<Rightarrow> False)"
    let ?s = "p < length pattern \<and> pattern ! p = StarAtom"
    consider "?q \<or> ?l" | "\<not> ?q" "\<not> ?l" "?s" | "\<not> ?q" "\<not> ?l" "\<not> ?s" by blast
    then show ?thesis
    proof cases
      case 1
      then have p: "p < length pattern" by auto
      have "pattern ! p = QuestionAtom \<or> (\<exists>r. pattern ! p = LiteralAtom r \<and> eq r (chars ! v))"
        using 1 by (auto split: atom.splits)
      note mv = move_one [of pattern chars p v star eq, OF Suc.prems(2) p v this]
      have "segment_loop eq pattern chars (p + 1) (v + 1) star b = (m, ok, b')"
        using Suc.prems(1) v 1 by (cases "pattern ! p") auto
      from Suc.IH [OF this] mv have IH: "(ok \<longrightarrow> m = open_match eq pattern chars p v star)
         \<and> (loop_work pattern chars (p + 1) star < b \<longrightarrow> ok \<and> b \<le> b' + Suc (loop_work pattern chars (p + 1) star))" by simp
      have "loop_work pattern chars p star = Suc (loop_work pattern chars (p + 1) star)" using p by (simp add: loop_work_def)
      with IH show ?thesis by auto
    next
      case 2
      then have p: "p < length pattern" "pattern ! p = StarAtom" by auto
      note mv = move_star [OF Suc.prems(2) p]
      have "segment_loop eq pattern chars (p + 1) v (Some (p, v)) b = (m, ok, b')" using Suc.prems(1) v 2 by simp
      from Suc.IH [OF this] mv have IH: "(ok \<longrightarrow> m = open_match eq pattern chars p v star)
         \<and> (loop_work pattern chars (p + 1) (Some (p, v)) < b \<longrightarrow> ok \<and> b \<le> b' + Suc (loop_work pattern chars (p + 1) (Some (p, v))))"
        by simp
      have "(length chars - v) * Suc (length pattern)
          \<le> (length chars - (case star of None \<Rightarrow> 0 | Some (s, sv) \<Rightarrow> sv)) * Suc (length pattern)"
        using Suc.prems(2) by (intro mult_le_mono1) (auto simp: loop_ok_def split: option.splits)
      moreover have "length pattern - p = Suc (length pattern - (p + 1))" using p by simp
      ultimately have "Suc (loop_work pattern chars (p + 1) (Some (p, v))) \<le> loop_work pattern chars p star"
        unfolding loop_work_def option.case prod.case by linarith
      with IH show ?thesis by auto
    next
      case 3
      note no = stuck_no_glob [of v chars p pattern eq, OF v bounds(1) 3]
      show ?thesis
      proof (cases star)
        case None
        then show ?thesis using Suc.prems(1) v 3 no by (auto simp: open_match_def)
      next
        case (Some x)
        then obtain s sv where star: "star = Some (s, sv)" by (cases x) auto
        note mv = move_back [OF Suc.prems(2) [unfolded star] v no]
        have "segment_loop eq pattern chars (s + 1) (sv + 1) (Some (s, sv + 1)) b = (m, ok, b')"
          using Suc.prems(1) v 3 star by auto
        from Suc.IH [OF this] mv star have IH: "(ok \<longrightarrow> m = open_match eq pattern chars p v star)
          \<and> (loop_work pattern chars (s + 1) (Some (s, sv + 1)) < b \<longrightarrow> ok \<and> b \<le> b' + Suc (loop_work pattern chars (s + 1) (Some (s, sv + 1))))"
          by simp
        have "loop_work pattern chars (s + 1) (Some (s, sv + 1)) < loop_work pattern chars p star"
          using Suc.prems(2) star v work_back [of sv "length chars" s p "length pattern"]
          by (auto simp: loop_work_def loop_ok_def)
        with IH show ?thesis by auto
      qed
    qed
  qed
qed

definition segment_cost :: "atom list \<Rightarrow> nat list \<Rightarrow> nat" where
  "segment_cost pattern chars = Suc (length chars * Suc (length pattern) + length pattern)"

lemma matchSegment_spec:
  assumes "matchSegment eq pattern chars budget = (m, ok, left)"
  shows "(ok \<longrightarrow> m = glob eq pattern chars)
     \<and> (segment_cost pattern chars \<le> budget \<longrightarrow> ok \<and> budget \<le> left + segment_cost pattern chars)"
  using segment_loop_spec [OF assms [unfolded matchSegment_def]]
  by (auto simp: loop_ok_def open_match_def loop_work_def segment_cost_def)

text \<open>The segment matcher with its single backtracking point decides the glob: whenever it stays
  within the budget its verdict is the declarative match (a star is any run of runes, a question
  mark is one rune, a literal is an equal rune), and a budget of one more than the length of the
  value times the length of the pattern plus one, plus the length of the pattern, is enough, of
  which it uses no more.
\<close>

theorem match_segment_exact:
  assumes "matchSegment eq pattern chars budget = (m, ok, left)"
  shows "(ok \<longrightarrow> m = glob eq pattern chars)
     \<and> (segment_cost pattern chars \<le> budget \<longrightarrow> ok \<and> budget \<le> left + segment_cost pattern chars)"
  by (rule matchSegment_spec [OF assms])

theorem match_segment_exact_witness:
  "matchSegment (=) [StarAtom, LiteralAtom 98, StarAtom, LiteralAtom 99] [97, 98, 98, 99] 100 = (True, True, 94)
   \<and> glob (=) [StarAtom, LiteralAtom 98, StarAtom, LiteralAtom 99] [97, 98, 98, 99]"
proof -
  have r: "matchSegment (=) [StarAtom, LiteralAtom 98, StarAtom, LiteralAtom 99] [97, 98, 98, 99] 100 = (True, True, 94)"
    by code_simp
  with match_segment_exact [OF r] show ?thesis by simp
qed

section \<open>The pattern matcher decides the path glob\<close>

definition cell_edge :: "(nat \<Rightarrow> nat \<Rightarrow> bool) \<Rightarrow> compiled_segment list \<Rightarrow> nat list list \<Rightarrow> nat \<times> nat \<Rightarrow> nat \<times> nat \<Rightarrow> bool" where
  "cell_edge eq pattern path x y \<longleftrightarrow>
     (case x of (r, c) \<Rightarrow> r < length pattern \<and> c \<le> length path
        \<and> (case pattern ! r of
             Globstar \<Rightarrow> y = (r + 1, c) \<or> c < length path \<and> y = (r, c + 1)
           | Atoms a \<Rightarrow> c < length path \<and> y = (r + 1, c + 1) \<and> glob eq a (path ! c)))"

abbreviation reaches :: "(nat \<Rightarrow> nat \<Rightarrow> bool) \<Rightarrow> compiled_segment list \<Rightarrow> nat list list \<Rightarrow> nat \<times> nat \<Rightarrow> nat \<times> nat \<Rightarrow> bool" where
  "reaches eq pattern path \<equiv> (cell_edge eq pattern path)\<^sup>*\<^sup>*"

lemma reaches_first: "reaches eq pattern path x y \<longleftrightarrow> x = y \<or> (\<exists>z. cell_edge eq pattern path x z \<and> reaches eq pattern path z y)"
proof
  assume "reaches eq pattern path x y"
  then show "x = y \<or> (\<exists>z. cell_edge eq pattern path x z \<and> reaches eq pattern path z y)"
    by (cases rule: converse_rtranclpE) auto
qed (auto intro: converse_rtranclp_into_rtranclp [of "cell_edge eq pattern path"])

lemma reaches_last: "reaches eq pattern path x y \<longleftrightarrow> x = y \<or> (\<exists>z. reaches eq pattern path x z \<and> cell_edge eq pattern path z y)"
proof
  assume "reaches eq pattern path x y"
  then show "x = y \<or> (\<exists>z. reaches eq pattern path x z \<and> cell_edge eq pattern path z y)"
    by (cases rule: rtranclp.cases) auto
qed (auto intro: rtranclp.rtrancl_into_rtrancl [of "cell_edge eq pattern path"])

lemma path_glob_reaches:
  "r \<le> length pattern \<Longrightarrow> c \<le> length path \<Longrightarrow>
     path_glob eq (drop r pattern) (drop c path) \<longleftrightarrow> reaches eq pattern path (r, c) (length pattern, length path)"
proof (induction "(length pattern - r) + (length path - c)" arbitrary: r c rule: less_induct)
  case less
  show ?case
  proof (cases "r < length pattern")
    case False
    with less.prems have "r = length pattern" by simp
    then show ?thesis using less.prems by (subst reaches_first) (auto simp: cell_edge_def)
  next
    case r: True
    have dp: "drop r pattern = pattern ! r # drop (Suc r) pattern" using r Cons_nth_drop_Suc by metis
    have dc: "drop c path = path ! c # drop (Suc c) path" if "c < length path" using that Cons_nth_drop_Suc by metis
    have down: "path_glob eq (drop (Suc r) pattern) (drop c path)
        \<longleftrightarrow> reaches eq pattern path (Suc r, c) (length pattern, length path)"
      by (rule less.hyps) (use r less.prems in auto)
    have right: "path_glob eq (drop r pattern) (drop (Suc c) path)
        \<longleftrightarrow> reaches eq pattern path (r, Suc c) (length pattern, length path)" if "c < length path"
      by (rule less.hyps) (use r less.prems that in auto)
    have diag: "path_glob eq (drop (Suc r) pattern) (drop (Suc c) path)
        \<longleftrightarrow> reaches eq pattern path (Suc r, Suc c) (length pattern, length path)" if "c < length path"
      by (rule less.hyps) (use r less.prems that in auto)
    show ?thesis
    proof (cases "pattern ! r")
      case Globstar
      show ?thesis
      proof (cases "c < length path")
        case True
        then show ?thesis using Globstar dp dc [OF True] down right [OF True] r
          by (subst reaches_first) (auto simp: cell_edge_def)
      next
        case False
        with less.prems have "c = length path" by simp
        then show ?thesis using Globstar dp down r by (subst reaches_first) (auto simp: cell_edge_def)
      qed
    next
      case (Atoms a)
      show ?thesis
      proof (cases "c < length path")
        case True
        then show ?thesis using Atoms dp dc [OF True] diag [OF True] r
          by (subst reaches_first) (auto simp: cell_edge_def)
      next
        case False
        with less.prems have "c = length path" by simp
        then show ?thesis using Atoms dp r by (subst reaches_first) (auto simp: cell_edge_def)
      qed
    qed
  qed
qed

text \<open>The table after the cells \<open>P\<close> were processed.\<close>

definition table_inv :: "(nat \<Rightarrow> nat \<Rightarrow> bool) \<Rightarrow> compiled_segment list \<Rightarrow> nat list list \<Rightarrow> (nat \<times> nat) list \<Rightarrow> bool list \<Rightarrow> bool" where
  "table_inv eq pattern path P dp \<longleftrightarrow> length dp = Suc (length pattern) * Suc (length path)
     \<and> (\<forall>r\<le>length pattern. \<forall>c\<le>length path. dp ! (r * Suc (length path) + c) =
          ((r, c) = (0, 0) \<or> (\<exists>y\<in>set P. reaches eq pattern path (0, 0) y \<and> cell_edge eq pattern path y (r, c))))"

lemma index_inj: "c < k \<Longrightarrow> c' < k \<Longrightarrow> r * k + c = r' * k + c' \<longleftrightarrow> r = r' \<and> c = c'" for r :: nat
proof
  assume c: "c < k" "c' < k" and eq: "r * k + c = r' * k + c'"
  have "(r * k + c) div k = r" "(r' * k + c') div k = r'" using c by simp_all
  with eq have "r = r'" by simp
  with eq show "r = r' \<and> c = c'" by simp
qed simp

lemma index_bound: "r \<le> m \<Longrightarrow> c \<le> n \<Longrightarrow> r * Suc n + c < Suc m * Suc n" for r :: nat
proof -
  assume "r \<le> m" "c \<le> n"
  then have "r * Suc n + c < Suc r * Suc n" by simp
  also have "\<dots> \<le> Suc m * Suc n" using \<open>r \<le> m\<close> by (intro mult_le_mono1) simp
  finally show ?thesis .
qed

lemma mark_nth: "length dp = Suc m * Suc n \<Longrightarrow> r \<le> m \<Longrightarrow> c \<le> n \<Longrightarrow> r' \<le> m \<Longrightarrow> c' \<le> n \<Longrightarrow>
    dp[r * Suc n + c := True] ! (r' * Suc n + c') \<longleftrightarrow> (r', c') = (r, c) \<or> dp ! (r' * Suc n + c')"
  using index_inj [of c "Suc n" c' r r'] index_bound [of r m c n]
  by (auto simp: nth_list_update)

lemma match_cell_table:
  assumes inv: "table_inv eq pattern path P dp" and r: "r < length pattern" and c: "c \<le> length path"
    and here: "dp ! (r * Suc (length path) + c) = reaches eq pattern path (0, 0) (r, c)"
    and cell: "match_cell eq pattern path r c dp b = Some (dp', b')"
  shows "table_inv eq pattern path (P @ [(r, c)]) dp'"
proof -
  let ?n = "length path" and ?m = "length pattern" and ?E = "reaches eq pattern path (0, 0)"
  let ?e = "cell_edge eq pattern path (r, c)"
  have len: "length dp = Suc ?m * Suc ?n" using inv by (simp add: table_inv_def)
  have goal: "table_inv eq pattern path (P @ [(r, c)]) dp'"
    if "length dp' = length dp" "\<And>r' c'. r' \<le> ?m \<Longrightarrow> c' \<le> ?n \<Longrightarrow>
       dp' ! (r' * Suc ?n + c') \<longleftrightarrow> dp ! (r' * Suc ?n + c') \<or> (?E (r, c) \<and> ?e (r', c'))"
    using inv that by (auto simp: table_inv_def)
  show ?thesis
  proof (cases "?E (r, c)")
    case False
    then have "dp' = dp" using cell here by (auto simp: match_cell_def split: nat.splits)
    then show ?thesis using False by (intro goal) auto
  next
    case E: True
    obtain k where b: "b = Suc k" using cell by (cases b) (auto simp: match_cell_def)
    note mark = mark_nth [OF len]
    show ?thesis
    proof (cases "pattern ! r")
      case Globstar
      let ?dp1 = "dp[Suc r * Suc ?n + c := True]"
      have len1: "length ?dp1 = Suc ?m * Suc ?n" using len by simp
      have dp': "dp' = (if c < ?n then ?dp1[r * Suc ?n + Suc c := True] else ?dp1)"
        using cell b E here Globstar by (simp add: match_cell_def Let_def split: if_splits)
      show ?thesis
      proof (rule goal)
        fix r' c' assume rc: "r' \<le> ?m" "c' \<le> ?n"
        have 1: "?dp1 ! (r' * Suc ?n + c') \<longleftrightarrow> (r', c') = (Suc r, c) \<or> dp ! (r' * Suc ?n + c')"
          using mark [of "Suc r" c r' c'] r c rc by simp
        have 2: "?dp1[r * Suc ?n + Suc c := True] ! (r' * Suc ?n + c')
            \<longleftrightarrow> (r', c') = (r, Suc c) \<or> ?dp1 ! (r' * Suc ?n + c')" if "c < ?n"
          using mark_nth [OF len1, of r "Suc c" r' c'] r that rc by simp
        show "dp' ! (r' * Suc ?n + c') \<longleftrightarrow> dp ! (r' * Suc ?n + c') \<or> (?E (r, c) \<and> ?e (r', c'))"
          using 1 2 E r c Globstar unfolding dp' by (auto simp: cell_edge_def)
      qed (simp add: dp')
    next
      case (Atoms a)
      show ?thesis
      proof (cases "c < ?n")
        case False
        then have "dp' = dp" using cell b E here Atoms by (simp add: match_cell_def)
        then show ?thesis using False Atoms by (intro goal) (auto simp: cell_edge_def)
      next
        case True
        obtain m ok k' where ms: "matchSegment eq a (path ! c) k = (m, ok, k')" by (cases "matchSegment eq a (path ! c) k") auto
        have "ok" and dp': "dp' = (if m then dp[Suc r * Suc ?n + Suc c := True] else dp)"
          using cell b E here Atoms True ms by (auto simp: match_cell_def Let_def split: if_splits)
        with matchSegment_spec [OF ms] have m: "m = glob eq a (path ! c)" by simp
        show ?thesis
        proof (rule goal)
          fix r' c' assume rc: "r' \<le> ?m" "c' \<le> ?n"
          show "dp' ! (r' * Suc ?n + c') \<longleftrightarrow> dp ! (r' * Suc ?n + c') \<or> (?E (r, c) \<and> ?e (r', c'))"
            using mark [of "Suc r" "Suc c" r' c'] r True rc E Atoms m unfolding dp' by (auto simp: cell_edge_def)
        qed (simp add: dp')
      qed
    qed
  qed
qed

text \<open>The cells come in row order, so every cell an edge leads from is processed before the cell it
  leads to.\<close>

definition before :: "nat \<times> nat \<Rightarrow> nat \<times> nat \<Rightarrow> bool" where
  "before x y \<longleftrightarrow> fst x < fst y \<or> fst x = fst y \<and> snd x < snd y"

lemma sorted_cells: "sorted_wrt before (List.product [0..<m] [0..<k])"
proof (induction m)
  case (Suc m)
  have prod: "List.product (xs @ [a]) ys = List.product xs ys @ map (Pair a) ys" for xs ys and a :: nat
    by (induction xs) auto
  have "sorted_wrt before (map (Pair m) [0..<k])"
    by (induction k) (auto simp: sorted_wrt_append before_def)
  with Suc show ?case
    by (simp add: prod sorted_wrt_append) (auto simp: before_def)
qed simp

lemma edge_before: "cell_edge eq pattern path x y \<Longrightarrow> before x y
    \<and> x \<in> set (List.product [0..<length pattern] [0..<length path + 1])"
  by (cases x) (auto simp: cell_edge_def before_def split: compiled_segment.splits)

lemma match_cells_table:
  "match_cells eq pattern path S dp b = Some (dp', b') \<Longrightarrow>
   List.product [0..<length pattern] [0..<length path + 1] = P @ S \<Longrightarrow> table_inv eq pattern path P dp \<Longrightarrow>
     table_inv eq pattern path (P @ S) dp'"
proof (induction S arbitrary: P dp b)
  case (Cons x S)
  obtain r c where x: "x = (r, c)" by (cases x)
  have "(r, c) \<in> set (List.product [0..<length pattern] [0..<length path + 1])" using Cons.prems(2) x by simp
  then have rc: "r < length pattern" "c \<le> length path" by auto
  from Cons.prems(1) x obtain dp1 b1 where cell: "match_cell eq pattern path r c dp b = Some (dp1, b1)"
    and rest: "match_cells eq pattern path S dp1 b1 = Some (dp', b')"
    by (auto split: option.splits)
  have P: "y \<in> set P" if "cell_edge eq pattern path y (r, c)" for y
  proof -
    have y: "before y (r, c)" using edge_before [OF that] by blast
    have yS: "y \<in> set (P @ (r, c) # S)"
      using edge_before [OF that, THEN conjunct2] unfolding Cons.prems(2) x .
    have "sorted_wrt before (P @ (r, c) # S)" using sorted_cells Cons.prems(2) x by metis
    then have "\<not> before y (r, c)" if "y \<in> set ((r, c) # S)"
      using that by (auto simp: sorted_wrt_append before_def)
    with y yS show ?thesis by auto
  qed
  have "dp ! (r * Suc (length path) + c)
      = ((r, c) = (0, 0) \<or> (\<exists>y\<in>set P. reaches eq pattern path (0, 0) y \<and> cell_edge eq pattern path y (r, c)))"
    using Cons.prems(3) rc by (simp add: table_inv_def)
  also have "\<dots> = reaches eq pattern path (0, 0) (r, c)"
    using P by (subst (2) reaches_last) auto
  finally have "table_inv eq pattern path (P @ [(r, c)]) dp1"
    using match_cell_table [OF Cons.prems(3) rc _ cell] by simp
  from Cons.IH [OF rest _ this] Cons.prems(2) x show ?case by simp
qed simp

lemma matchPattern_sound:
  assumes "matchPattern eq pattern path budget = (m, True, left)"
  shows "m = path_glob eq pattern path"
proof -
  let ?n = "length path" and ?m = "length pattern"
  let ?L = "List.product [0..<?m] [0..<?n + 1]"
  let ?dp = "(replicate ((?m + 1) * (?n + 1)) False)[0 := True]"
  from assms obtain dp' where run: "match_cells eq pattern path ?L ?dp budget = Some (dp', left)"
    and m: "m = dp' ! (?m * (?n + 1) + ?n)"
    by (auto simp: matchPattern_def Let_def split: option.splits prod.splits)
  have "table_inv eq pattern path [] ?dp"
  proof -
    have "?dp ! (r * Suc ?n + c) \<longleftrightarrow> (r, c) = (0, 0)" if "r \<le> ?m" "c \<le> ?n" for r c
      using mark_nth [of "replicate ((?m + 1) * (?n + 1)) False" ?m ?n 0 0 r c] index_bound [OF that] that
      by (simp del: replicate_Suc mult_Suc)
    then show ?thesis unfolding table_inv_def by simp
  qed
  from match_cells_table [OF run _ this] have inv: "table_inv eq pattern path ?L dp'" by simp
  then have "m = ((?m, ?n) = (0, 0) \<or> (\<exists>y\<in>set ?L. reaches eq pattern path (0, 0) y \<and> cell_edge eq pattern path y (?m, ?n)))"
    unfolding m table_inv_def by simp
  also have "\<dots> = reaches eq pattern path (0, 0) (?m, ?n)"
    using edge_before [of eq pattern path _ "(?m, ?n)"] by (subst (2) reaches_last) auto
  also have "\<dots> = path_glob eq pattern path"
    using path_glob_reaches [of 0 pattern 0 path eq] by simp
  finally show ?thesis .
qed

subsection \<open>How much budget is enough\<close>

definition cell_cost :: "compiled_segment list \<Rightarrow> nat list list \<Rightarrow> nat \<times> nat \<Rightarrow> nat" where
  "cell_cost pattern path x =
    (case x of (r, c) \<Rightarrow> Suc (case pattern ! r of Globstar \<Rightarrow> 0
       | Atoms a \<Rightarrow> if c < length path then segment_cost a (path ! c) else 0))"

definition pattern_cost :: "compiled_segment list \<Rightarrow> nat list list \<Rightarrow> nat" where
  "pattern_cost pattern path =
    sum_list (map (cell_cost pattern path) (List.product [0..<length pattern] [0..<length path + 1]))"

lemma match_cell_cost:
  assumes "cell_cost pattern path (r, c) \<le> b"
  shows "\<exists>dp' b'. match_cell eq pattern path r c dp b = Some (dp', b') \<and> b \<le> b' + cell_cost pattern path (r, c)"
proof -
  obtain k where b: "b = Suc k" using assms by (cases b) (auto simp: cell_cost_def)
  show ?thesis
  proof (cases "pattern ! r")
    case (Atoms a)
    obtain m ok left where ms: "matchSegment eq a (path ! c) k = (m, ok, left)"
      by (cases "matchSegment eq a (path ! c) k") auto
    from matchSegment_spec [OF ms] show ?thesis
      using assms b Atoms ms by (auto simp: match_cell_def cell_cost_def Let_def)
  qed (use b in \<open>auto simp: match_cell_def cell_cost_def Let_def\<close>)
qed

lemma match_cells_cost:
  "sum_list (map (cell_cost pattern path) S) \<le> b \<Longrightarrow>
     \<exists>dp' b'. match_cells eq pattern path S dp b = Some (dp', b') \<and> b \<le> b' + sum_list (map (cell_cost pattern path) S)"
proof (induction S arbitrary: dp b)
  case (Cons x S)
  obtain r c where x: "x = (r, c)" by (cases x)
  have "cell_cost pattern path (r, c) \<le> b" using Cons.prems x by simp
  from match_cell_cost [OF this, of eq dp] obtain dp1 b1 where
    1: "match_cell eq pattern path r c dp b = Some (dp1, b1)" "b \<le> b1 + cell_cost pattern path (r, c)" by blast
  have "sum_list (map (cell_cost pattern path) S) \<le> b1" using Cons.prems x 1(2) by simp
  from Cons.IH [OF this, of dp1] 1 x show ?case by auto
qed simp

lemma matchPattern_total:
  "\<exists>m ok left. matchPattern eq pattern path b = (m, ok, left)
     \<and> (pattern_cost pattern path \<le> b \<longrightarrow> ok \<and> b \<le> left + pattern_cost pattern path)"
proof -
  let ?L = "List.product [0..<length pattern] [0..<length path + 1]"
  let ?dp = "(replicate ((length pattern + 1) * (length path + 1)) False)[0 := True]"
  show ?thesis
  proof (cases "match_cells eq pattern path ?L ?dp b")
    case None
    then show ?thesis using match_cells_cost [of pattern path ?L b eq ?dp]
      by (auto simp: matchPattern_def Let_def pattern_cost_def)
  next
    case (Some p)
    then show ?thesis using match_cells_cost [of pattern path ?L b eq ?dp]
      by (cases p) (auto simp: matchPattern_def Let_def pattern_cost_def)
  qed
qed

lemma any_match_spec:
  "case any_match eq patterns path b of
     Inl err \<Rightarrow> err = CodeMatchLimit \<and> b < sum_list (map (\<lambda>p. pattern_cost p path) patterns)
   | Inr (m, left) \<Rightarrow> m = (\<exists>p\<in>set patterns. path_glob eq p path)
       \<and> (sum_list (map (\<lambda>p. pattern_cost p path) patterns) \<le> b \<longrightarrow>
            b \<le> left + sum_list (map (\<lambda>p. pattern_cost p path) patterns))"
proof (induction patterns arbitrary: b)
  case (Cons p ps)
  obtain m ok left where r: "matchPattern eq p path b = (m, ok, left)"
    and enough: "pattern_cost p path \<le> b \<longrightarrow> ok \<and> b \<le> left + pattern_cost p path"
    using matchPattern_total [of eq p path b] by blast
  have sound: "m = path_glob eq p path" if ok
    using matchPattern_sound [of eq p path b m left] r that by simp
  show ?case
  proof (cases "ok \<and> \<not> m")
    case True
    then show ?thesis using Cons.IH [of left] r sound enough
      by (auto split: sum.splits)
  next
    case False
    then show ?thesis using r sound enough by auto
  qed
qed simp

definition match_cost :: "matcher \<Rightarrow> nat list list \<Rightarrow> nat" where
  "match_cost m path = sum_list (map (\<lambda>p. pattern_cost p path) (mt_exclude m @ mt_include m))"

text \<open>
  C15. The scope decision is exactly include minus exclude, and it fails closed: for a compiled
  matcher and a canonical path the answer is that no exclude pattern matches and that there are no
  include patterns or one of them matches, each in the declarative meaning of the globs (a double
  star is any run of segments). The only other answer is the limit error, never a verdict, and only
  when the work the patterns can cost exceeds the step bound; a path that is not canonical is refused.
\<close>

theorem scope_match_exact:
  assumes "Compile nfc include exclude mode = Inr m"
  shows "case Path nfc p (pathcanonCase mode) of
      None \<Rightarrow> Match nfc foldeq m p = Inl CodePathInvalid
    | Some segments \<Rightarrow>
        (case Match nfc foldeq m p of
           Inl err \<Rightarrow> err = CodeMatchLimit \<and> maximumMatchSteps < match_cost m (map runes segments)
         | Inr allowed \<Rightarrow> allowed =
             (\<not> (\<exists>x\<in>set (mt_exclude m). path_glob (equalRune foldeq mode) x (map runes segments))
              \<and> (mt_include m = []
                 \<or> (\<exists>x\<in>set (mt_include m). path_glob (equalRune foldeq mode) x (map runes segments)))))"
proof -
  have m: "mt_compiled m" "mt_mode m = mode" "mode = CaseSensitive \<or> mode = CaseWindows"
    using assms by (auto simp: Compile_def split: if_splits)
  show ?thesis
  proof (cases "Path nfc p (pathcanonCase mode)")
    case None
    with m show ?thesis by (auto simp: Match_def scope_segments_def)
  next
    case (Some segments)
    let ?eq = "equalRune foldeq mode" and ?path = "map runes segments"
    note ex = any_match_spec [where eq = ?eq and patterns = "mt_exclude m" and path = ?path and b = maximumMatchSteps]
    show ?thesis
    proof (cases "any_match ?eq (mt_exclude m) ?path maximumMatchSteps")
      case (Inl err)
      with ex m Some show ?thesis by (auto simp: Match_def scope_segments_def Let_def match_cost_def)
    next
      case (Inr r)
      then obtain excluded left where r: "any_match ?eq (mt_exclude m) ?path maximumMatchSteps = Inr (excluded, left)"
        by (cases r) auto
      note inc = any_match_spec [where eq = ?eq and patterns = "mt_include m" and path = ?path and b = left]
      show ?thesis
      proof (cases "any_match ?eq (mt_include m) ?path left")
        case (Inl err)
        with ex inc r m Some show ?thesis
          by (auto simp: Match_def scope_segments_def Let_def match_cost_def)
      next
        case (Inr q)
        with ex inc r m Some show ?thesis
          by (cases q) (auto simp: Match_def scope_segments_def Let_def)
      qed
    qed
  qed
qed

theorem scope_match_exact_witness:
  "\<exists>m. Compile id [''src/**/*.go''] [''**/vendor/**''] CaseSensitive = Inr m
     \<and> Match id (=) m ''src/a/b.go'' = Inr True \<and> Match id (=) m ''src/vendor/b.go'' = Inr False"
proof -
  let ?m = "case Compile id [''src/**/*.go''] [''**/vendor/**''] CaseSensitive of Inr m \<Rightarrow> m"
  have c: "Compile id [''src/**/*.go''] [''**/vendor/**''] CaseSensitive = Inr ?m" by code_simp
  have p: "Path id ''src/a/b.go'' (pathcanonCase CaseSensitive) = Some [''src'', ''a'', ''b.go'']"
    "Path id ''src/vendor/b.go'' (pathcanonCase CaseSensitive) = Some [''src'', ''vendor'', ''b.go'']" by code_simp+
  have small: "int (match_cost ?m (map runes [''src'', ''a'', ''b.go''])) < 1000"
    "int (match_cost ?m (map runes [''src'', ''vendor'', ''b.go''])) < 1000" by code_simp+
  have limit: "\<not> maximumMatchSteps < match_cost ?m (map runes [''src'', ''a'', ''b.go''])"
    "\<not> maximumMatchSteps < match_cost ?m (map runes [''src'', ''vendor'', ''b.go''])"
    using small by (simp_all add: maximumMatchSteps_def)
  have g: "(\<not> (\<exists>x\<in>set (mt_exclude ?m). path_glob (equalRune (=) CaseSensitive) x (map runes [''src'', ''a'', ''b.go'']))
      \<and> (mt_include ?m = [] \<or> (\<exists>x\<in>set (mt_include ?m).
            path_glob (equalRune (=) CaseSensitive) x (map runes [''src'', ''a'', ''b.go'']))))"
    by code_simp
  have g': "\<exists>x\<in>set (mt_exclude ?m). path_glob (equalRune (=) CaseSensitive) x (map runes [''src'', ''vendor'', ''b.go''])"
    by code_simp
  have 1: "Match id (=) ?m ''src/a/b.go'' = Inr True"
    using scope_match_exact [OF c, where p = "''src/a/b.go''" and foldeq = "(=)", unfolded p option.case] limit g
    by (cases "Match id (=) ?m ''src/a/b.go''") (simp_all only: sum.case simp_thms)
  have 2: "Match id (=) ?m ''src/vendor/b.go'' = Inr False"
    using scope_match_exact [OF c, where p = "''src/vendor/b.go''" and foldeq = "(=)", unfolded p option.case] limit g'
    by (cases "Match id (=) ?m ''src/vendor/b.go''") (simp_all only: sum.case simp_thms)
  show ?thesis using c 1 2 by (intro exI conjI)
qed

end
