(* ===== verification/Go_Json.thy ===== *)
theory Go_Json
  imports Go_Strings
begin

text \<open>
  What the components use of package \<open>encoding/json/jsontext\<close>: JSON values whose numbers are integers,
  and the canonical serialization of RFC 8785 (\<open>Value.Canonicalize\<close>) of a value whose members are in
  canonical order. Strings are valid UTF-8. The lemmas show that the serialization is a prefix code, so
  a canonical artifact determines its value up to the rounding of integers beyond $2^{53}$.
\<close>

datatype json = JNull | JString gostring | JInt int | JBool bool | JArray "json list" | JObject "(gostring \<times> json) list"

text \<open>The escapes of RFC 8785: the quote, the backslash and the control characters.\<close>

definition jcs_char :: "char \<Rightarrow> gostring" where
  "jcs_char c =
    (if c = CHR 0x22 then [CHR 0x5C, CHR 0x22]
     else if c = CHR 0x5C then [CHR 0x5C, CHR 0x5C]
     else if c = CHR 0x08 then [CHR 0x5C, CHR ''b'']
     else if c = CHR 0x09 then [CHR 0x5C, CHR ''t'']
     else if c = CHR 0x0A then [CHR 0x5C, CHR ''n'']
     else if c = CHR 0x0C then [CHR 0x5C, CHR ''f'']
     else if c = CHR 0x0D then [CHR 0x5C, CHR ''r'']
     else if byte c < 0x20 then [CHR 0x5C, CHR ''u'', CHR ''0'', CHR ''0'', hex_char (byte c div 16), hex_char (byte c mod 16)]
     else [c])"

definition jcs_string :: "gostring \<Rightarrow> gostring" where
  "jcs_string s = CHR 0x22 # concat (map jcs_char s) @ [CHR 0x22]"

fun jcs_exact :: "json \<Rightarrow> gostring" where
  "jcs_exact JNull = ''null''"
| "jcs_exact (JString s) = jcs_string s"
| "jcs_exact (JInt i) = itoa i"
| "jcs_exact (JBool b) = (if b then ''true'' else ''false'')"
| "jcs_exact (JArray xs) = ''['' @ join_with '','' (map jcs_exact xs) @ '']''"
| "jcs_exact (JObject ms) = ''{'' @ join_with '','' (map (\<lambda>m. jcs_string (fst m) @ '':'' @ jcs_exact (snd m)) ms) @ ''}''"

text \<open>Canonicalization reads every number as an IEEE double and prints the shortest digits that name it: an
  integer beyond $2^{53}$ is replaced by the one those digits stand for.\<close>

fun bit_len :: "nat \<Rightarrow> nat" where
  "bit_len n = (if n = 0 then 0 else bit_len (n div 2) + 1)"

declare bit_len.simps [simp del]

definition nearest_double :: "nat \<Rightarrow> nat" where
  "nearest_double n =
    (let e = bit_len n - 53; q = n div 2 ^ e; r = n mod 2 ^ e in
     if e = 0 then n
     else (if 2 * r > 2 ^ e \<or> (2 * r = 2 ^ e \<and> odd q) then q + 1 else q) * 2 ^ e)"

fun shortest_from :: "nat \<Rightarrow> nat \<Rightarrow> nat" where
  "shortest_from v 0 = v"
| "shortest_from v (Suc k) =
    (let p = 10 ^ Suc k; low = v div p * p; high = low + p;
         found = filter (\<lambda>c. nearest_double c = v) (if v - low \<le> high - v then [low, high] else [high, low]) in
     case found of [] \<Rightarrow> shortest_from v k | c # _ \<Rightarrow> c)"

definition json_number :: "int \<Rightarrow> int" where
  "json_number i =
    (if \<bar>i\<bar> \<le> 9007199254740992 then i
     else (let v = nearest_double (nat \<bar>i\<bar>); n = int (shortest_from v (length (nat_digits v))) in if i < 0 then - n else n))"

fun json_numbers :: "json \<Rightarrow> json" where
  "json_numbers (JInt i) = JInt (json_number i)"
| "json_numbers (JArray xs) = JArray (map json_numbers xs)"
| "json_numbers (JObject ms) = JObject (map (\<lambda>m. (fst m, json_numbers (snd m))) ms)"
| "json_numbers v = v"

definition jcs :: "json \<Rightarrow> gostring" where
  "jcs v = jcs_exact (json_numbers v)"

lemma json_number_id [simp]: "\<bar>i\<bar> \<le> 9007199254740992 \<Longrightarrow> json_number i = i"
  by (simp add: json_number_def)

text \<open>\<open>encoding/json\<close> writes U+FFFD for every byte that begins no rune.\<close>

definition coerce_utf8 :: "gostring \<Rightarrow> gostring" where
  "coerce_utf8 s = concat (map (\<lambda>ch. case ch of [c] \<Rightarrow> if 0x80 \<le> byte c then [CHR 0xEF, CHR 0xBF, CHR 0xBD] else ch | _ \<Rightarrow> ch) (chunks s))"

definition go_json_text :: "gostring \<Rightarrow> json" where
  "go_json_text s = JString (coerce_utf8 s)"

section \<open>The serialization determines the value\<close>

lemma jcs_char_head:
  "\<exists>c' t. jcs_char c = c' # t \<and> c' \<noteq> CHR 0x22"
  by (auto simp: jcs_char_def)

lemma jcs_char_prefix: "jcs_char c @ r = jcs_char d @ s \<Longrightarrow> c = d \<and> r = s"
proof -
  assume e: "jcs_char c @ r = jcs_char d @ s"
  have hex: "c = d" if "byte c < 32" "byte d < 32" "hex_char (byte c div 16) = hex_char (byte d div 16)"
    "hex_char (byte c mod 16) = hex_char (byte d mod 16)"
  proof -
    have "byte c div 16 = byte d div 16" by (rule hex_char_inj) (use that in auto)
    moreover have "byte c mod 16 = byte d mod 16" by (rule hex_char_inj) (use that in auto)
    ultimately have "byte c = byte d" by (metis div_mult_mod_eq)
    then show ?thesis by simp
  qed
  show ?thesis using e hex unfolding jcs_char_def by (simp split: if_splits)
qed

lemma jcs_string_prefix: "jcs_string s @ r = jcs_string t @ r' \<Longrightarrow> s = t \<and> r = r'"
proof -
  have "concat (map jcs_char s) @ CHR 0x22 # r = concat (map jcs_char t) @ CHR 0x22 # r' \<Longrightarrow> s = t \<and> r = r'"
  proof (induction s arbitrary: t)
    case Nil
    then show ?case using jcs_char_head [of "hd t"] by (cases t) auto
  next
    case (Cons c s)
    show ?case
    proof (cases t)
      case Nil
      with Cons.prems jcs_char_head [of c] show ?thesis by auto
    next
      case (Cons d u)
      with Cons.prems have "jcs_char c @ (concat (map jcs_char s) @ CHR 0x22 # r)
          = jcs_char d @ (concat (map jcs_char u) @ CHR 0x22 # r')" by simp
      from jcs_char_prefix [OF this] Cons.IH [of u] Cons show ?thesis by simp
    qed
  qed
  then show "jcs_string s @ r = jcs_string t @ r' \<Longrightarrow> s = t \<and> r = r'"
    by (simp add: jcs_string_def)
qed

text \<open>A list of items behind commas, closed by a character that no item starts with.\<close>

lemma comma_list_prefix:
  assumes item: "\<And>x y r s. x \<in> set xs \<Longrightarrow> enc x @ r = enc y @ s \<Longrightarrow> ends r \<Longrightarrow> ends s \<Longrightarrow> x = y \<and> r = s"
    and close: "\<not> is_digit c" "c \<noteq> CHR '',''"
    and e: "concat (map (\<lambda>x. CHR '','' # enc x) xs) @ c # r = concat (map (\<lambda>x. CHR '','' # enc x) ys) @ c # s"
  shows "xs = ys \<and> r = s"
  using item e
proof (induction xs arbitrary: ys)
  case Nil
  then show ?case using close by (cases ys) auto
next
  case (Cons x xs)
  obtain y zs where ys: "ys = y # zs" using Cons.prems(2) close by (cases ys) auto
  have ends: "ends (concat (map (\<lambda>x. CHR '','' # enc x) ws) @ c # q)" for ws q
    using close(1) by (cases ws) (auto simp: is_digit_def)
  have "x = y \<and> concat (map (\<lambda>x. CHR '','' # enc x) xs) @ c # r = concat (map (\<lambda>x. CHR '','' # enc x) zs) @ c # s"
    by (rule Cons.prems(1)) (use Cons.prems(2) ys ends in auto)
  with Cons.IH [of zs] Cons.prems(1) ys show ?case by auto
qed

lemma join_comma: "join_with '','' (x # xs) = x @ concat (map (\<lambda>y. CHR '','' # y) xs)"
  by (induction xs arbitrary: x) auto

lemma joined_prefix:
  assumes item: "\<And>x y r s. x \<in> set xs \<Longrightarrow> enc x @ r = enc y @ s \<Longrightarrow> ends r \<Longrightarrow> ends s \<Longrightarrow> x = y \<and> r = s"
    and close: "\<not> is_digit c" "c \<noteq> CHR '',''" and start: "\<And>x. \<exists>d t. enc x = d # t \<and> d \<noteq> c"
    and e: "join_with '','' (map enc xs) @ c # r = join_with '','' (map enc ys) @ c # s"
  shows "xs = ys \<and> r = s"
proof (cases xs)
  case Nil
  then show ?thesis using e start [of "hd ys"] by (cases ys) (auto simp: join_comma simp del: join_with.simps(3))
next
  case (Cons x xs')
  show ?thesis
  proof (cases ys)
    case Nil
    with Cons e start [of x] show ?thesis by (auto simp: join_comma simp del: join_with.simps(3))
  next
    case ys: (Cons y ys')
    from Cons e ys have "concat (map (\<lambda>x. CHR '','' # enc x) xs) @ c # r = concat (map (\<lambda>x. CHR '','' # enc x) ys) @ c # s"
      by (simp add: join_comma comp_def del: join_with.simps(3))
    from comma_list_prefix [OF item close this] show ?thesis .
  qed
qed

lemma jcs_string_head: "\<exists>t. jcs_string s = CHR 0x22 # t"
  by (simp add: jcs_string_def)

lemma itoa_head: "\<exists>c t. itoa i = c # t \<and> (is_digit c \<or> c = CHR ''-'')"
  using nat_digits_hd [of "nat i"] by (auto simp: itoa_def)

lemma jcs_head: "\<exists>d t. jcs_exact v = d # t \<and> d \<noteq> CHR '']'' \<and> d \<noteq> CHR ''}''"
  by (cases v) (use itoa_head in \<open>fastforce simp: jcs_string_def is_digit_def\<close>)+

lemma jcs_exact_prefix: "jcs_exact v @ r = jcs_exact w @ s \<Longrightarrow> ends r \<Longrightarrow> ends s \<Longrightarrow> v = w \<and> r = s"
proof (induction v arbitrary: w r s)
  case JNull
  then show ?case using itoa_head [of "case w of JInt i \<Rightarrow> i"]
    by (cases w) (auto simp: jcs_string_def is_digit_def split: if_splits)
next
  case (JString x)
  then show ?case using itoa_head [of "case w of JInt i \<Rightarrow> i"] jcs_string_prefix [of x r "case w of JString t \<Rightarrow> t" s]
    by (cases w) (auto simp: jcs_string_def is_digit_def split: if_splits)
next
  case (JInt i)
  then show ?case using itoa_head [of i] itoa_prefix [of i r "case w of JInt j \<Rightarrow> j" s]
    by (cases w) (auto simp: jcs_string_def is_digit_def split: if_splits)
next
  case (JBool b)
  then show ?case using itoa_head [of "case w of JInt i \<Rightarrow> i"]
    by (cases w) (auto simp: jcs_string_def is_digit_def split: if_splits)
next
  case (JArray xs)
  show ?case
  proof (cases w)
    case (JArray ys)
    with JArray.prems have "join_with '','' (map jcs_exact xs) @ CHR '']'' # r = join_with '','' (map jcs_exact ys) @ CHR '']'' # s" by simp
    from joined_prefix [OF JArray.IH _ _ _ this] jcs_head JArray show ?thesis by (fastforce simp: is_digit_def)
  qed (use JArray.prems itoa_head [of "case w of JInt i \<Rightarrow> i"] in \<open>auto simp: jcs_string_def is_digit_def split: if_splits\<close>)
next
  case (JObject ms)
  let ?enc = "\<lambda>m. jcs_string (fst m) @ CHR '':'' # jcs_exact (snd m)"
  have item: "m = m' \<and> r = s" if "m \<in> set ms" "?enc m @ r = ?enc m' @ s" "ends r" "ends s" for m m' r s
  proof -
    have 1: "jcs_string (fst m) @ (CHR '':'' # jcs_exact (snd m) @ r) = jcs_string (fst m') @ (CHR '':'' # jcs_exact (snd m') @ s)"
      using that(2) by simp
    from jcs_string_prefix [OF 1] JObject.IH [of m "snd m" r "snd m'" s] that
    show ?thesis by (cases m; cases m') auto
  qed
  show ?case
  proof (cases w)
    case (JObject ms')
    with JObject.prems have "join_with '','' (map ?enc ms) @ CHR ''}'' # r = join_with '','' (map ?enc ms') @ CHR ''}'' # s" by simp
    then have "ms = ms' \<and> r = s"
    proof (rule joined_prefix [where enc = ?enc, rotated 4])
      show "\<exists>d t. ?enc x = d # t \<and> d \<noteq> CHR ''}''" for x using jcs_string_head [of "fst x"] by auto
      show "x = y \<and> r = s" if "x \<in> set ms" "?enc x @ r = ?enc y @ s" "ends r" "ends s" for x y r s
        by (rule item [OF that])
    qed (simp_all add: is_digit_def)
    with JObject show ?thesis by simp
  qed (use JObject.prems itoa_head [of "case w of JInt i \<Rightarrow> i"] in \<open>auto simp: jcs_string_def is_digit_def split: if_splits\<close>)
qed

lemma jcs_exact_injective: "jcs_exact v = jcs_exact w \<longleftrightarrow> v = w"
  using jcs_exact_prefix [of v "[]" w "[]"] by auto

lemma jcs_injective: "jcs v = jcs w \<longleftrightarrow> json_numbers v = json_numbers w"
  by (simp add: jcs_def jcs_exact_injective)

text \<open>A value whose integers are in the range of I-JSON is printed digit for digit.\<close>

fun ijson :: "json \<Rightarrow> bool" where
  "ijson (JInt i) = (\<bar>i\<bar> \<le> 9007199254740992)"
| "ijson (JArray xs) = list_all ijson xs"
| "ijson (JObject ms) = list_all (\<lambda>m. ijson (snd m)) ms"
| "ijson v = True"

lemma ijson_numbers: "ijson v \<Longrightarrow> json_numbers v = v"
proof (induction v)
  case (JArray xs)
  then show ?case by (auto simp: list_all_iff intro: map_idI)
next
  case (JObject ms)
  have "map (\<lambda>m. (fst m, json_numbers (snd m))) ms = ms"
    by (rule map_idI) (use JObject in \<open>auto simp: list_all_iff\<close>)
  then show ?case by simp
qed simp_all

end
