(* ===== verification/Go_Sort.thy ===== *)
theory Go_Sort
  imports Prelude "HOL-Library.Multiset"
begin

text \<open>
  Package \<open>sort\<close>: with distinct keys a slice has one sorted order, so the unstable \<open>sort.Slice\<close> and the
  stable one agree, and the result does not depend on the order of the input.
\<close>

lemma sort_key_unique:
  assumes m: "mset xs = mset ys" and s: "sorted_wrt (<) (map f ys)"
  shows "sort_key f xs = ys"
proof (rule properties_for_sort_key)
  show "mset ys = mset xs" using m by simp
  show "sorted (map f ys)" using s by (rule strict_sorted_imp_sorted)
  fix k assume k: "k \<in> set ys"
  have "distinct (map f ys)" using s by (simp add: strict_sorted_iff)
  with k have ys: "filter (\<lambda>x. f k = f x) ys = [k]"
  proof (induction ys)
    case (Cons y ys)
    then show ?case by (cases "k = y") (auto simp: filter_empty_conv image_iff)
  qed simp
  have "mset (filter (\<lambda>x. f k = f x) xs) = mset (filter (\<lambda>x. f k = f x) ys)" using m by simp
  then have "filter (\<lambda>x. f k = f x) xs = [k]" using mset_single_iff [of "filter (\<lambda>x. f k = f x) xs" k] unfolding ys by simp
  with ys show "filter (\<lambda>x. f k = f x) ys = filter (\<lambda>x. f k = f x) xs" by simp
qed

lemma sort_key_perm:
  assumes "mset xs = mset ys" "distinct (map f ys)"
  shows "sort_key f xs = sort_key f ys"
proof (rule sort_key_unique)
  show "mset xs = mset (sort_key f ys)" using assms(1) by simp
  have "distinct (map f (sort_key f ys))" using assms(2) by (metis mset_eq_imp_distinct_iff mset_map mset_sort)
  then show "sorted_wrt (<) (map f (sort_key f ys))" by (simp add: strict_sorted_iff)
qed

lemma insort_key_map: "map g (insort_key (\<lambda>x. f (g x)) x xs) = insort_key f (g x) (map g xs)"
  by (induction xs) simp_all

lemma sort_key_map: "map g (sort_key (\<lambda>x. f (g x)) xs) = sort_key f (map g xs)"
  by (induction xs) (simp_all add: sort_key_def insort_key_map)

lemma mset_eq_set_distinct: "distinct xs \<Longrightarrow> distinct ys \<Longrightarrow> set xs = set ys \<Longrightarrow> mset xs = mset ys"
  by (simp add: set_eq_iff_mset_eq_distinct)

lemma sort_key_set:
  assumes "set xs = set ys" "distinct (map f xs)" "distinct (map f ys)"
  shows "sort_key f xs = sort_key f ys"
  using assms by (intro sort_key_perm mset_eq_set_distinct) (auto simp: distinct_map)

lemma sort_key_sorted: "sorted (map f xs) \<Longrightarrow> sort_key f xs = xs"
  by (induction xs) (simp_all add: sort_key_def insort_is_Cons)

lemma sort_key_idem [simp]: "sort_key f (sort_key f xs) = sort_key f xs"
  by (rule sort_key_sorted) simp

lemma mset_concat_map: "mset xs = mset ys \<Longrightarrow> mset (concat (map f xs)) = mset (concat (map f ys))"
proof -
  have "mset (concat (map f xs)) = \<Sum>\<^sub># (image_mset (\<lambda>x. mset (f x)) (mset xs))" for xs
    by (induction xs) simp_all
  then show "mset xs = mset ys \<Longrightarrow> ?thesis" by simp
qed

lemma sum_list_perm: "mset xs = mset ys \<Longrightarrow> sum_list xs = (sum_list ys :: 'a::comm_monoid_add)"
  by (metis sum_mset_sum_list)

end
