(* ===== verification/Workspace.thy ===== *)
theory Workspace
  imports Go_Json Go_Sort
begin

text \<open>
  \<open>internal/workspace/workspace.go\<close>: the immutable configuration of a workspace revision. Unicode NFC
  is the argument \<open>nfc\<close>, SHA-256 the argument \<open>sha256\<close> and the strict decoder of \<open>encoding/json/v2\<close>
  the argument \<open>unmarshal\<close>. The lemmas characterise the normalized snapshots, show what each revision
  step may change, and that the canonical bytes determine the configuration.
\<close>

section \<open>Data\<close>

datatype workspace_error = CodeInvalidSnapshot | CodeHashFailed

datatype status = StatusActive | StatusReadOnly | StatusArchived | StatusDeleting | StatusDeleted | StatusOther gostring

datatype role = RoleOwner | RoleManager | RoleMember | RoleViewer | RoleAuditor | RoleOther gostring

record member =
  mb_PrincipalID :: gostring
  mb_Role :: role
  mb_DisplayName :: gostring

record source_binding =
  sb_SourceScopeID :: gostring
  sb_SourceScopeRevision :: int
  sb_ScopeConfigHash :: gostring
  sb_Enabled :: bool

record snapshot =
  sn_OrganizationID :: gostring
  sn_ID :: gostring
  sn_Revision :: int
  sn_Name :: gostring
  sn_Description :: gostring
  sn_Status :: status
  sn_OwnerPrincipalID :: gostring
  sn_RetentionPolicyID :: gostring
  sn_Members :: "member list"
  sn_SourceBindings :: "source_binding list"
  sn_Degraded :: bool
  sn_DegradedReason :: gostring

definition maxIJSONInteger :: int where
  "maxIJSONInteger = 9007199254740991"

section \<open>Validators\<close>

definition id_rune :: "nat \<Rightarrow> bool" where
  "id_rune c \<longleftrightarrow> 97 \<le> c \<and> c \<le> 122 \<or> 65 \<le> c \<and> c \<le> 90 \<or> 48 \<le> c \<and> c \<le> 57 \<or> c \<in> set (runes ''_-.:'')"

definition ws_validID :: "gostring \<Rightarrow> bool" where
  "ws_validID v =
    (if rune_count v < 3 \<or> rune_count v > 128 \<or> \<not> valid_utf8 v \<or> trim_space v \<noteq> v then False
     else list_all id_rune (runes v))"

definition hasControl :: "gostring \<Rightarrow> bool" where
  "hasControl v = list_ex (\<lambda>c. c < 0x20 \<or> 0x7f \<le> c \<and> c \<le> 0x9f) (runes v)"

definition ws_validName :: "gostring \<Rightarrow> bool" where
  "ws_validName v \<longleftrightarrow> 1 \<le> rune_count v \<and> rune_count v \<le> 256 \<and> valid_utf8 v \<and> trim_space v = v \<and> \<not> hasControl v"

definition ws_validDescription :: "gostring \<Rightarrow> bool" where
  "ws_validDescription v \<longleftrightarrow> rune_count v \<le> 4096 \<and> valid_utf8 v \<and> \<not> hasControl v"

fun validStatus :: "status \<Rightarrow> bool" where
  "validStatus (StatusOther _) = False"
| "validStatus _ = True"

fun validRole :: "role \<Rightarrow> bool" where
  "validRole (RoleOther _) = False"
| "validRole _ = True"

definition validHash :: "gostring \<Rightarrow> bool" where
  "validHash v =
    (if length v \<noteq> length ''sha256:'' + 64 \<or> \<not> has_prefix ''sha256:'' v then False
     else list_all (\<lambda>c. 48 \<le> c \<and> c \<le> 57 \<or> 97 \<le> c \<and> c \<le> 102) (runes (drop (length ''sha256:'') v)))"

definition IsConfigurationHash :: "gostring \<Rightarrow> bool" where
  "IsConfigurationHash v = validHash v"

definition validSourceBinding :: "source_binding \<Rightarrow> bool" where
  "validSourceBinding b \<longleftrightarrow> ws_validID (sb_SourceScopeID b) \<and> 1 \<le> sb_SourceScopeRevision b
     \<and> sb_SourceScopeRevision b \<le> maxIJSONInteger \<and> validHash (sb_ScopeConfigHash b)"

definition sameSourceBindingIdentity :: "source_binding \<Rightarrow> source_binding \<Rightarrow> bool" where
  "sameSourceBindingIdentity l r \<longleftrightarrow> sb_SourceScopeID l = sb_SourceScopeID r
     \<and> sb_SourceScopeRevision l = sb_SourceScopeRevision r \<and> sb_ScopeConfigHash l = sb_ScopeConfigHash r"

section \<open>Normalization\<close>

text \<open>The loop over the sorted members: the owner count and whether the last owner seen is the named
  one; \<open>None\<close> for the refusal. Entries with equal keys are refused, so the order in which the unstable
  \<open>sort.Slice\<close> leaves them does not matter.\<close>

fun members_loop :: "gostring \<Rightarrow> gostring \<Rightarrow> nat \<Rightarrow> bool \<Rightarrow> member list \<Rightarrow> (nat \<times> bool) option" where
  "members_loop owner previousID ownerCount ownerFound [] = Some (ownerCount, ownerFound)"
| "members_loop owner previousID ownerCount ownerFound (m # ms) =
    (if \<not> ws_validID (mb_PrincipalID m) \<or> \<not> validRole (mb_Role m)
        \<or> (previousID \<noteq> [] \<and> mb_PrincipalID m = previousID) then None
     else if mb_Role m = RoleOwner
     then members_loop owner (mb_PrincipalID m) (ownerCount + 1) (mb_PrincipalID m = owner) ms
     else members_loop owner (mb_PrincipalID m) ownerCount ownerFound ms)"

fun bindings_loop :: "gostring \<Rightarrow> source_binding list \<Rightarrow> bool" where
  "bindings_loop previousScopeID [] = True"
| "bindings_loop previousScopeID (b # bs) =
    (if \<not> ws_validID (sb_SourceScopeID b) \<or> sb_SourceScopeRevision b < 1
        \<or> sb_SourceScopeRevision b > maxIJSONInteger \<or> \<not> validHash (sb_ScopeConfigHash b)
        \<or> (previousScopeID \<noteq> [] \<and> sb_SourceScopeID b = previousScopeID) then False
     else bindings_loop (sb_SourceScopeID b) bs)"

definition Normalize :: "(gostring \<Rightarrow> gostring) \<Rightarrow> snapshot \<Rightarrow> workspace_error + snapshot" where
  "Normalize nfc s =
    (let s1 = s\<lparr>sn_Name := nfc (sn_Name s), sn_Description := nfc (sn_Description s),
                sn_Degraded := False, sn_DegradedReason := []\<rparr> in
     if \<not> ws_validID (sn_OrganizationID s1) \<or> \<not> ws_validID (sn_ID s1) \<or> sn_Revision s1 < 1
        \<or> sn_Revision s1 > maxIJSONInteger \<or> \<not> ws_validName (sn_Name s1) \<or> \<not> ws_validDescription (sn_Description s1)
        \<or> \<not> validStatus (sn_Status s1) \<or> \<not> ws_validID (sn_OwnerPrincipalID s1)
        \<or> (sn_RetentionPolicyID s1 \<noteq> [] \<and> \<not> ws_validID (sn_RetentionPolicyID s1))
     then Inl CodeInvalidSnapshot
     else
       (let s2 = s1\<lparr>sn_Members := sort_key mb_PrincipalID (sn_Members s1)\<rparr> in
        case members_loop (sn_OwnerPrincipalID s2) [] 0 False (sn_Members s2) of
          None \<Rightarrow> Inl CodeInvalidSnapshot
        | Some (ownerCount, ownerFound) \<Rightarrow>
            if ownerCount \<noteq> 1 \<or> \<not> ownerFound then Inl CodeInvalidSnapshot
            else
              (let s3 = s2\<lparr>sn_SourceBindings := sort_key sb_SourceScopeID (sn_SourceBindings s2)\<rparr> in
               if bindings_loop [] (sn_SourceBindings s3) then Inr s3 else Inl CodeInvalidSnapshot)))"

section \<open>The canonical artifact\<close>

record canonical_member =
  cm_PrincipalID :: gostring
  cm_Role :: role

record canonical_configuration =
  cc_SchemaVersion :: gostring
  cc_OrganizationID :: gostring
  cc_WorkspaceID :: gostring
  cc_Revision :: int
  cc_Name :: gostring
  cc_Description :: gostring
  cc_Status :: status
  cc_OwnerPrincipalID :: gostring
  cc_RetentionPolicyID :: gostring
  cc_Members :: "canonical_member list"
  cc_SourceBindings :: "source_binding list"

definition configurationSchemaVersion :: gostring where
  "configurationSchemaVersion = ''workspace-configuration-v1''"

fun status_text :: "status \<Rightarrow> gostring" where
  "status_text StatusActive = ''ACTIVE''"
| "status_text StatusReadOnly = ''READ_ONLY''"
| "status_text StatusArchived = ''ARCHIVED''"
| "status_text StatusDeleting = ''DELETING''"
| "status_text StatusDeleted = ''DELETED''"
| "status_text (StatusOther s) = s"

fun role_text :: "role \<Rightarrow> gostring" where
  "role_text RoleOwner = ''OWNER''"
| "role_text RoleManager = ''MANAGER''"
| "role_text RoleMember = ''MEMBER''"
| "role_text RoleViewer = ''VIEWER''"
| "role_text RoleAuditor = ''AUDITOR''"
| "role_text (RoleOther s) = s"

text \<open>The JSON value of each structure, its members in the order of RFC 8785.\<close>

definition member_json :: "canonical_member \<Rightarrow> json" where
  "member_json m = JObject [(''principal_id'', JString (cm_PrincipalID m)), (''role'', JString (role_text (cm_Role m)))]"

definition binding_json :: "source_binding \<Rightarrow> json" where
  "binding_json b = JObject [(''enabled'', JBool (sb_Enabled b)), (''scope_config_hash'', JString (sb_ScopeConfigHash b)),
     (''source_scope_id'', JString (sb_SourceScopeID b)), (''source_scope_revision'', JInt (sb_SourceScopeRevision b))]"

definition configuration_json :: "canonical_configuration \<Rightarrow> json" where
  "configuration_json c = JObject [
     (''description'', JString (cc_Description c)),
     (''members'', JArray (map member_json (cc_Members c))),
     (''name'', JString (cc_Name c)),
     (''organization_id'', JString (cc_OrganizationID c)),
     (''owner_principal_id'', JString (cc_OwnerPrincipalID c)),
     (''retention_policy_id'', JString (cc_RetentionPolicyID c)),
     (''revision'', JInt (cc_Revision c)),
     (''schema_version'', JString (cc_SchemaVersion c)),
     (''source_bindings'', JArray (map binding_json (cc_SourceBindings c))),
     (''status'', JString (status_text (cc_Status c))),
     (''workspace_id'', JString (cc_WorkspaceID c))]"

definition configuration_of :: "snapshot \<Rightarrow> canonical_configuration" where
  "configuration_of s = \<lparr>cc_SchemaVersion = configurationSchemaVersion, cc_OrganizationID = sn_OrganizationID s,
     cc_WorkspaceID = sn_ID s, cc_Revision = sn_Revision s, cc_Name = sn_Name s, cc_Description = sn_Description s,
     cc_Status = sn_Status s, cc_OwnerPrincipalID = sn_OwnerPrincipalID s, cc_RetentionPolicyID = sn_RetentionPolicyID s,
     cc_Members = map (\<lambda>m. \<lparr>cm_PrincipalID = mb_PrincipalID m, cm_Role = mb_Role m\<rparr>) (sn_Members s),
     cc_SourceBindings = sn_SourceBindings s\<rparr>"

text \<open>Marshalling a normalized snapshot cannot fail: its strings are valid UTF-8.\<close>

definition CanonicalSnapshot :: "(gostring \<Rightarrow> gostring) \<Rightarrow> snapshot \<Rightarrow> workspace_error + gostring" where
  "CanonicalSnapshot nfc s = and_then (Normalize nfc s) (\<lambda>normalized. Inr (jcs (configuration_json (configuration_of normalized))))"

definition snapshot_of :: "canonical_configuration \<Rightarrow> snapshot" where
  "snapshot_of c = \<lparr>sn_OrganizationID = cc_OrganizationID c, sn_ID = cc_WorkspaceID c, sn_Revision = cc_Revision c,
     sn_Name = cc_Name c, sn_Description = cc_Description c, sn_Status = cc_Status c,
     sn_OwnerPrincipalID = cc_OwnerPrincipalID c, sn_RetentionPolicyID = cc_RetentionPolicyID c,
     sn_Members = map (\<lambda>m. \<lparr>mb_PrincipalID = cm_PrincipalID m, mb_Role = cm_Role m, mb_DisplayName = []\<rparr>) (cc_Members c),
     sn_SourceBindings = cc_SourceBindings c, sn_Degraded = False, sn_DegradedReason = []\<rparr>"

definition ParseCanonicalSnapshot :: "(gostring \<Rightarrow> gostring) \<Rightarrow> (gostring \<Rightarrow> canonical_configuration option)
    \<Rightarrow> gostring \<Rightarrow> workspace_error + snapshot" where
  "ParseCanonicalSnapshot nfc unmarshal canonical =
    (if length canonical = 0 \<or> length canonical > 1048576 then Inl CodeInvalidSnapshot
     else case unmarshal canonical of
            None \<Rightarrow> Inl CodeInvalidSnapshot
          | Some configuration \<Rightarrow>
              if cc_SchemaVersion configuration \<noteq> configurationSchemaVersion then Inl CodeInvalidSnapshot
              else
                and_then (Normalize nfc (snapshot_of configuration)) (\<lambda>normalized.
                  case CanonicalSnapshot nfc normalized of
                    Inl _ \<Rightarrow> Inl CodeInvalidSnapshot
                  | Inr recomputed \<Rightarrow> if canonical \<noteq> recomputed then Inl CodeInvalidSnapshot else Inr normalized))"

definition ConfigurationHash :: "(gostring \<Rightarrow> gostring) \<Rightarrow> (gostring \<Rightarrow> gostring) \<Rightarrow> snapshot \<Rightarrow> workspace_error + gostring" where
  "ConfigurationHash nfc sha256 s =
    and_then (CanonicalSnapshot nfc s) (\<lambda>canonical. Inr (''sha256:'' @ hex_encode (sha256 canonical)))"

section \<open>Revisions\<close>

definition next_revision :: "(gostring \<Rightarrow> gostring) \<Rightarrow> snapshot \<Rightarrow> (snapshot \<Rightarrow> snapshot) \<Rightarrow> workspace_error + snapshot" where
  "next_revision nfc current mutate =
    (case Normalize nfc current of
       Inl _ \<Rightarrow> Inl CodeInvalidSnapshot
     | Inr normalized \<Rightarrow>
         if sn_Revision normalized = maxIJSONInteger then Inl CodeInvalidSnapshot
         else Normalize nfc (mutate (normalized\<lparr>sn_Revision := sn_Revision normalized + 1\<rparr>)))"

definition NextMetadata :: "(gostring \<Rightarrow> gostring) \<Rightarrow> snapshot \<Rightarrow> gostring \<Rightarrow> gostring \<Rightarrow> gostring \<Rightarrow> workspace_error + snapshot" where
  "NextMetadata nfc current name description retentionPolicyID =
    next_revision nfc current (\<lambda>s. s\<lparr>sn_Name := name, sn_Description := description, sn_RetentionPolicyID := retentionPolicyID\<rparr>)"

text \<open>The loop over the bindings of the normalized snapshot: the first one with the wanted ID.\<close>

fun find_index :: "('a \<Rightarrow> bool) \<Rightarrow> nat \<Rightarrow> 'a list \<Rightarrow> (nat \<times> 'a) option" where
  "find_index p i [] = None"
| "find_index p i (x # xs) = (if p x then Some (i, x) else find_index p (i + 1) xs)"

definition set_enabled :: "nat \<Rightarrow> bool \<Rightarrow> snapshot \<Rightarrow> snapshot" where
  "set_enabled index e s = s\<lparr>sn_SourceBindings := (sn_SourceBindings s)[index := (sn_SourceBindings s ! index)\<lparr>sb_Enabled := e\<rparr>]\<rparr>"

definition NextSourceBindingEnabled :: "(gostring \<Rightarrow> gostring) \<Rightarrow> snapshot \<Rightarrow> source_binding \<Rightarrow> workspace_error + snapshot" where
  "NextSourceBindingEnabled nfc current b =
    (if \<not> sb_Enabled b \<or> \<not> validSourceBinding b then Inl CodeInvalidSnapshot
     else and_then (Normalize nfc current) (\<lambda>normalized.
       case find_index (\<lambda>x. sb_SourceScopeID x = sb_SourceScopeID b) 0 (sn_SourceBindings normalized) of
         Some (index, existing) \<Rightarrow>
           if \<not> sameSourceBindingIdentity existing b \<or> sb_Enabled existing then Inl CodeInvalidSnapshot
           else next_revision nfc normalized (set_enabled index True)
       | None \<Rightarrow> next_revision nfc normalized (\<lambda>s. s\<lparr>sn_SourceBindings := sn_SourceBindings s @ [b]\<rparr>)))"

definition NextSourceBindingDisabled :: "(gostring \<Rightarrow> gostring) \<Rightarrow> snapshot \<Rightarrow> source_binding \<Rightarrow> workspace_error + snapshot" where
  "NextSourceBindingDisabled nfc current b =
    (if sb_Enabled b \<or> \<not> validSourceBinding b then Inl CodeInvalidSnapshot
     else and_then (Normalize nfc current) (\<lambda>normalized.
       case find_index (\<lambda>x. sb_SourceScopeID x = sb_SourceScopeID b) 0 (sn_SourceBindings normalized) of
         Some (index, existing) \<Rightarrow>
           if \<not> sameSourceBindingIdentity existing b \<or> \<not> sb_Enabled existing then Inl CodeInvalidSnapshot
           else next_revision nfc normalized (set_enabled index False)
       | None \<Rightarrow> Inl CodeInvalidSnapshot))"

definition NextArchived :: "(gostring \<Rightarrow> gostring) \<Rightarrow> snapshot \<Rightarrow> workspace_error + snapshot" where
  "NextArchived nfc current = next_revision nfc current (\<lambda>s. s\<lparr>sn_Status := StatusArchived\<rparr>)"

definition NextWithMember :: "(gostring \<Rightarrow> gostring) \<Rightarrow> snapshot \<Rightarrow> member \<Rightarrow> workspace_error + snapshot" where
  "NextWithMember nfc current m =
    (if mb_Role m = RoleOwner then Inl CodeInvalidSnapshot
     else next_revision nfc current (\<lambda>s. s\<lparr>sn_Members := sn_Members s @ [m]\<rparr>))"

definition mutableMember :: "(gostring \<Rightarrow> gostring) \<Rightarrow> snapshot \<Rightarrow> gostring \<Rightarrow> workspace_error + (snapshot \<times> nat)" where
  "mutableMember nfc current principalID =
    (case Normalize nfc current of
       Inl _ \<Rightarrow> Inl CodeInvalidSnapshot
     | Inr normalized \<Rightarrow>
         if \<not> ws_validID principalID \<or> principalID = sn_OwnerPrincipalID normalized then Inl CodeInvalidSnapshot
         else case find_index (\<lambda>m. mb_PrincipalID m = principalID) 0 (sn_Members normalized) of
                Some (index, _) \<Rightarrow> Inr (normalized, index)
              | None \<Rightarrow> Inl CodeInvalidSnapshot)"

definition set_role :: "nat \<Rightarrow> role \<Rightarrow> snapshot \<Rightarrow> snapshot" where
  "set_role index r s = s\<lparr>sn_Members := (sn_Members s)[index := (sn_Members s ! index)\<lparr>mb_Role := r\<rparr>]\<rparr>"

definition NextWithoutMember :: "(gostring \<Rightarrow> gostring) \<Rightarrow> snapshot \<Rightarrow> gostring \<Rightarrow> workspace_error + snapshot" where
  "NextWithoutMember nfc current principalID =
    and_then (mutableMember nfc current principalID) (\<lambda>(normalized, index).
      next_revision nfc normalized (\<lambda>s. s\<lparr>sn_Members := take index (sn_Members s) @ drop (index + 1) (sn_Members s)\<rparr>))"

definition NextWithMemberRole :: "(gostring \<Rightarrow> gostring) \<Rightarrow> snapshot \<Rightarrow> gostring \<Rightarrow> role \<Rightarrow> workspace_error + snapshot" where
  "NextWithMemberRole nfc current principalID r =
    (if r = RoleOwner \<or> \<not> validRole r then Inl CodeInvalidSnapshot
     else and_then (mutableMember nfc current principalID) (\<lambda>(normalized, index).
       if mb_Role (sn_Members normalized ! index) = r then Inl CodeInvalidSnapshot
       else next_revision nfc normalized (set_role index r)))"

definition NextOwnershipTransferred :: "(gostring \<Rightarrow> gostring) \<Rightarrow> snapshot \<Rightarrow> gostring \<Rightarrow> workspace_error + snapshot" where
  "NextOwnershipTransferred nfc current newOwner =
    and_then (mutableMember nfc current newOwner) (\<lambda>(normalized, targetIndex).
      case find_index (\<lambda>m. mb_Role m = RoleOwner) 0 (sn_Members normalized) of
        None \<Rightarrow> Inl CodeInvalidSnapshot
      | Some (previousOwnerIndex, _) \<Rightarrow>
          if previousOwnerIndex = targetIndex then Inl CodeInvalidSnapshot
          else next_revision nfc normalized (\<lambda>s.
            (set_role targetIndex RoleOwner (set_role previousOwnerIndex RoleManager s))\<lparr>sn_OwnerPrincipalID := newOwner\<rparr>))"

section \<open>Normal snapshots\<close>

text \<open>What \<open>Normalize\<close> promises of its result.\<close>

definition normal :: "snapshot \<Rightarrow> bool" where
  "normal s \<longleftrightarrow> ws_validID (sn_OrganizationID s) \<and> ws_validID (sn_ID s) \<and> 1 \<le> sn_Revision s
     \<and> sn_Revision s \<le> maxIJSONInteger \<and> ws_validName (sn_Name s) \<and> ws_validDescription (sn_Description s)
     \<and> validStatus (sn_Status s) \<and> ws_validID (sn_OwnerPrincipalID s)
     \<and> (sn_RetentionPolicyID s = [] \<or> ws_validID (sn_RetentionPolicyID s))
     \<and> sorted_wrt (<) (map mb_PrincipalID (sn_Members s))
     \<and> list_all (\<lambda>m. ws_validID (mb_PrincipalID m) \<and> validRole (mb_Role m)) (sn_Members s)
     \<and> map mb_PrincipalID (filter (\<lambda>m. mb_Role m = RoleOwner) (sn_Members s)) = [sn_OwnerPrincipalID s]
     \<and> sorted_wrt (<) (map sb_SourceScopeID (sn_SourceBindings s))
     \<and> list_all validSourceBinding (sn_SourceBindings s) \<and> \<not> sn_Degraded s \<and> sn_DegradedReason s = []"

lemma ws_validID_nonempty: "ws_validID v \<Longrightarrow> v \<noteq> []"
  by (auto simp: ws_validID_def rune_count_def)

lemma members_loop_spec:
  "sorted (map mb_PrincipalID ms) \<Longrightarrow> prev \<noteq> [] \<Longrightarrow> list_all (\<lambda>m. prev \<le> mb_PrincipalID m) ms \<Longrightarrow>
   members_loop owner prev n f ms =
     (if list_all (\<lambda>m. ws_validID (mb_PrincipalID m) \<and> validRole (mb_Role m)) ms
         \<and> sorted_wrt (<) (prev # map mb_PrincipalID ms)
      then Some (n + length (filter (\<lambda>m. mb_Role m = RoleOwner) ms),
             (case rev (filter (\<lambda>m. mb_Role m = RoleOwner) ms) of [] \<Rightarrow> f | m # _ \<Rightarrow> mb_PrincipalID m = owner))
      else None)"
proof (induction ms arbitrary: prev n f)
  case (Cons m ms)
  have le: "list_all (\<lambda>k. mb_PrincipalID m \<le> mb_PrincipalID k) ms"
    using Cons.prems(1) by (simp add: list_all_iff)
  have strict: "sorted_wrt (<) (prev # map mb_PrincipalID (m # ms)) \<longleftrightarrow>
      mb_PrincipalID m \<noteq> prev \<and> sorted_wrt (<) (mb_PrincipalID m # map mb_PrincipalID ms)"
    using Cons.prems(3) by (auto simp: list_all_iff)
  show ?case
  proof (cases "ws_validID (mb_PrincipalID m) \<and> validRole (mb_Role m) \<and> mb_PrincipalID m \<noteq> prev")
    case True
    note IH = Cons.IH [OF _ ws_validID_nonempty le]
    show ?thesis using True Cons.prems strict
      by (auto simp: IH split: list.split)
  next
    case False
    then show ?thesis using Cons.prems(2) strict by auto
  qed
qed simp

lemma members_loop_start:
  assumes "sorted (map mb_PrincipalID ms)"
  shows "members_loop owner [] 0 False ms = Some (1, True) \<longleftrightarrow>
     list_all (\<lambda>m. ws_validID (mb_PrincipalID m) \<and> validRole (mb_Role m)) ms
     \<and> sorted_wrt (<) (map mb_PrincipalID ms)
     \<and> map mb_PrincipalID (filter (\<lambda>m. mb_Role m = RoleOwner) ms) = [owner]"
proof (cases ms)
  case (Cons m ks)
  have le: "list_all (\<lambda>k. mb_PrincipalID m \<le> mb_PrincipalID k) ks" "sorted (map mb_PrincipalID ks)"
    using assms Cons by (simp_all add: list_all_iff)
  have one: "(\<exists>k. xs = [k] \<and> mb_PrincipalID k = owner) \<longleftrightarrow>
      length xs = 1 \<and> (case rev xs of [] \<Rightarrow> b | k # _ \<Rightarrow> mb_PrincipalID k = owner)" for xs b
    by (cases xs) auto
  show ?thesis
  proof (cases "ws_validID (mb_PrincipalID m)")
    case True
    note spec = members_loop_spec [OF le(2) ws_validID_nonempty [OF True] le(1)]
    show ?thesis unfolding Cons
      by (cases "filter (\<lambda>m. mb_Role m = RoleOwner) ks")
        (auto simp: spec True split: list.splits)
  qed (simp add: Cons)
qed simp

lemma bindings_loop_spec:
  "sorted (map sb_SourceScopeID bs) \<Longrightarrow> prev \<noteq> [] \<Longrightarrow> list_all (\<lambda>b. prev \<le> sb_SourceScopeID b) bs \<Longrightarrow>
   bindings_loop prev bs \<longleftrightarrow> list_all validSourceBinding bs \<and> sorted_wrt (<) (prev # map sb_SourceScopeID bs)"
proof (induction bs arbitrary: prev)
  case (Cons b bs)
  have le: "list_all (\<lambda>k. sb_SourceScopeID b \<le> sb_SourceScopeID k) bs"
    using Cons.prems(1) by (simp add: list_all_iff)
  have strict: "sorted_wrt (<) (prev # map sb_SourceScopeID (b # bs)) \<longleftrightarrow>
      sb_SourceScopeID b \<noteq> prev \<and> sorted_wrt (<) (sb_SourceScopeID b # map sb_SourceScopeID bs)"
    using Cons.prems(3) by (auto simp: list_all_iff)
  show ?case
  proof (cases "validSourceBinding b \<and> sb_SourceScopeID b \<noteq> prev")
    case True
    then have "ws_validID (sb_SourceScopeID b)" by (simp add: validSourceBinding_def)
    note IH = Cons.IH [OF _ ws_validID_nonempty [OF this] le]
    show ?thesis using True Cons.prems strict by (auto simp: IH validSourceBinding_def)
  next
    case False
    then show ?thesis using Cons.prems(2) strict by (auto simp: validSourceBinding_def)
  qed
qed simp

lemma bindings_loop_start:
  assumes "sorted (map sb_SourceScopeID bs)"
  shows "bindings_loop [] bs \<longleftrightarrow> list_all validSourceBinding bs \<and> sorted_wrt (<) (map sb_SourceScopeID bs)"
proof (cases bs)
  case (Cons b ks)
  have le: "list_all (\<lambda>k. sb_SourceScopeID b \<le> sb_SourceScopeID k) ks" "sorted (map sb_SourceScopeID ks)"
    using assms Cons by (simp_all add: list_all_iff)
  show ?thesis
  proof (cases "ws_validID (sb_SourceScopeID b)")
    case True
    show ?thesis unfolding Cons
      using bindings_loop_spec [OF le(2) ws_validID_nonempty [OF True] le(1)]
      by (auto simp: validSourceBinding_def)
  qed (simp add: Cons validSourceBinding_def)
qed simp

text \<open>The fields \<open>Normalize\<close> rewrites, from the source and the two sorted lists.\<close>

definition normalized_as :: "(gostring \<Rightarrow> gostring) \<Rightarrow> snapshot \<Rightarrow> snapshot \<Rightarrow> bool" where
  "normalized_as nfc s t \<longleftrightarrow>
     t = s\<lparr>sn_Name := nfc (sn_Name s), sn_Description := nfc (sn_Description s), sn_Members := sn_Members t,
           sn_SourceBindings := sn_SourceBindings t, sn_Degraded := False, sn_DegradedReason := []\<rparr>
     \<and> mset (sn_Members t) = mset (sn_Members s) \<and> mset (sn_SourceBindings t) = mset (sn_SourceBindings s)"

lemma Normalize_sorted:
  "Normalize nfc s = Inr t \<longleftrightarrow> normal t \<and>
     t = s\<lparr>sn_Name := nfc (sn_Name s), sn_Description := nfc (sn_Description s),
           sn_Members := sort_key mb_PrincipalID (sn_Members s),
           sn_SourceBindings := sort_key sb_SourceScopeID (sn_SourceBindings s), sn_Degraded := False, sn_DegradedReason := []\<rparr>"
proof -
  let ?ms = "sort_key mb_PrincipalID (sn_Members s)" and ?bs = "sort_key sb_SourceScopeID (sn_SourceBindings s)"
  let ?t = "s\<lparr>sn_Name := nfc (sn_Name s), sn_Description := nfc (sn_Description s), sn_Members := ?ms,
           sn_SourceBindings := ?bs, sn_Degraded := False, sn_DegradedReason := []\<rparr>"
  let ?c = "members_loop (sn_OwnerPrincipalID s) [] 0 False ?ms"
  have c: "?c = Some (1, True) \<or> ?c = None \<or> (\<exists>n f. ?c = Some (n, f) \<and> (n \<noteq> 1 \<or> \<not> f))" by (cases ?c) auto
  have "Normalize nfc s = (if normal ?t then Inr ?t else Inl CodeInvalidSnapshot)"
    using c members_loop_start [of ?ms "sn_OwnerPrincipalID s"] bindings_loop_start [of ?bs]
    by (auto simp: Normalize_def normal_def Let_def)
  then show ?thesis by auto
qed

lemma Normalize_iff: "Normalize nfc s = Inr t \<longleftrightarrow> normal t \<and> normalized_as nfc s t"
proof
  assume "Normalize nfc s = Inr t"
  then show "normal t \<and> normalized_as nfc s t" by (auto simp: Normalize_sorted normalized_as_def)
next
  assume r: "normal t \<and> normalized_as nfc s t"
  then have "sort_key mb_PrincipalID (sn_Members s) = sn_Members t"
    "sort_key sb_SourceScopeID (sn_SourceBindings s) = sn_SourceBindings t"
    by (auto simp: normal_def normalized_as_def intro!: sort_key_unique)
  with r show "Normalize nfc s = Inr t" by (simp add: Normalize_sorted normalized_as_def)
qed

lemma Normalize_error: "Normalize nfc s = Inl e \<Longrightarrow> e = CodeInvalidSnapshot"
  by (auto simp: Normalize_def Let_def split: if_splits option.splits)

section \<open>What a revision step changes\<close>

lemma next_revision_iff:
  "next_revision nfc s f = Inr t \<longleftrightarrow> (\<exists>n. Normalize nfc s = Inr n \<and> sn_Revision n \<noteq> maxIJSONInteger
     \<and> Normalize nfc (f (n\<lparr>sn_Revision := sn_Revision n + 1\<rparr>)) = Inr t)"
  by (cases "Normalize nfc s") (auto simp: next_revision_def)

lemma find_index_Some:
  "find_index p i xs = Some (j, x) \<longleftrightarrow> (\<exists>k<length xs. j = i + k \<and> x = xs ! k \<and> p x \<and> (\<forall>l<k. \<not> p (xs ! l)))"
proof (induction xs arbitrary: i)
  case (Cons y ys)
  have "(\<exists>k<length (y # ys). j = i + k \<and> x = (y # ys) ! k \<and> p x \<and> (\<forall>l<k. \<not> p ((y # ys) ! l)))
     \<longleftrightarrow> (j = i \<and> x = y \<and> p y) \<or> (\<not> p y \<and> (\<exists>k<length ys. j = i + 1 + k \<and> x = ys ! k \<and> p x \<and> (\<forall>l<k. \<not> p (ys ! l))))"
    by (simp add: Ex_less_Suc2 All_less_Suc2) blast
  with Cons show ?case by auto
qed simp

lemma find_index_None: "find_index p i xs = None \<longleftrightarrow> (\<forall>x\<in>set xs. \<not> p x)"
  by (induction xs arbitrary: i) auto

lemma find_key:
  assumes "distinct (map f xs)"
  shows "find_index (\<lambda>x. f x = k) 0 xs = Some (i, x) \<longleftrightarrow> i < length xs \<and> x = xs ! i \<and> f x = k"
proof -
  have "f (xs ! l) \<noteq> f (xs ! i)" if "l < i" "i < length xs" for l
    using nth_eq_iff_index_eq [OF assms, of l i] that by simp
  then show ?thesis by (auto simp: find_index_Some)
qed

lemma normal_distinct:
  "normal s \<Longrightarrow> distinct (map mb_PrincipalID (sn_Members s)) \<and> distinct (map sb_SourceScopeID (sn_SourceBindings s))"
  by (simp add: normal_def strict_sorted_iff)

lemma mutableMember_iff:
  "mutableMember nfc s p = Inr (n, i) \<longleftrightarrow> Normalize nfc s = Inr n \<and> p \<noteq> sn_OwnerPrincipalID n
     \<and> i < length (sn_Members n) \<and> mb_PrincipalID (sn_Members n ! i) = p"
proof (cases "Normalize nfc s")
  case (Inr m)
  then have m: "normal m" by (simp add: Normalize_iff)
  then have "ws_validID (mb_PrincipalID (sn_Members m ! i))" if "i < length (sn_Members m)"
    using that by (simp add: normal_def list_all_length)
  moreover have "find_index (\<lambda>m. mb_PrincipalID m = p) 0 (sn_Members m) = None
      \<longleftrightarrow> \<not> (\<exists>i<length (sn_Members m). mb_PrincipalID (sn_Members m ! i) = p)"
    by (simp add: find_index_None all_set_conv_all_nth)
  ultimately show ?thesis using Inr find_key [of mb_PrincipalID "sn_Members m" p] normal_distinct [OF m]
    by (cases "find_index (\<lambda>m. mb_PrincipalID m = p) 0 (sn_Members m)") (auto simp: mutableMember_def)
qed (simp add: mutableMember_def)

lemma Normalize_fixed:
  "normal t \<Longrightarrow> nfc (sn_Name t) = sn_Name t \<Longrightarrow> nfc (sn_Description t) = sn_Description t \<Longrightarrow> Normalize nfc t = Inr t"
  by (auto simp: Normalize_iff normalized_as_def normal_def)

lemma Normalize_stable:
  assumes "\<And>x. nfc (nfc x) = nfc x" "Normalize nfc s = Inr n"
  shows "normal n" "nfc (sn_Name n) = sn_Name n" "nfc (sn_Description n) = sn_Description n"
    "Normalize nfc n = Inr n"
proof -
  show n: "normal n" using assms(2) by (simp add: Normalize_iff)
  from assms(2) have f: "sn_Name n = nfc (sn_Name s)" "sn_Description n = nfc (sn_Description s)"
    by (auto simp: Normalize_sorted)
  then show "nfc (sn_Name n) = sn_Name n" "nfc (sn_Description n) = sn_Description n" by (simp_all add: assms(1))
  with n show "Normalize nfc n = Inr n" by (rule Normalize_fixed)
qed

subsection \<open>Chains of revisions\<close>

inductive evolves :: "(gostring \<Rightarrow> gostring) \<Rightarrow> snapshot \<Rightarrow> snapshot \<Rightarrow> bool" for nfc where
  metadata: "NextMetadata nfc s name description retention = Inr t \<Longrightarrow> evolves nfc s t"
| enabled: "NextSourceBindingEnabled nfc s b = Inr t \<Longrightarrow> evolves nfc s t"
| disabled: "NextSourceBindingDisabled nfc s b = Inr t \<Longrightarrow> evolves nfc s t"
| archived: "NextArchived nfc s = Inr t \<Longrightarrow> evolves nfc s t"
| with_member: "NextWithMember nfc s m = Inr t \<Longrightarrow> evolves nfc s t"
| without_member: "NextWithoutMember nfc s p = Inr t \<Longrightarrow> evolves nfc s t"
| member_role: "NextWithMemberRole nfc s p r = Inr t \<Longrightarrow> evolves nfc s t"
| transferred: "NextOwnershipTransferred nfc s p = Inr t \<Longrightarrow> evolves nfc s t"

definition binding_identity :: "source_binding \<Rightarrow> gostring \<times> int \<times> gostring" where
  "binding_identity b = (sb_SourceScopeID b, sb_SourceScopeRevision b, sb_ScopeConfigHash b)"

definition carries_bindings :: "snapshot \<Rightarrow> snapshot \<Rightarrow> bool" where
  "carries_bindings s t \<longleftrightarrow> sn_OrganizationID t = sn_OrganizationID s \<and> sn_ID t = sn_ID s
     \<and> binding_identity ` set (sn_SourceBindings s) \<subseteq> binding_identity ` set (sn_SourceBindings t)"

definition revises :: "snapshot \<Rightarrow> snapshot \<Rightarrow> bool" where
  "revises s t \<longleftrightarrow> normal t \<and> sn_Revision t = sn_Revision s + 1 \<and> carries_bindings s t"

lemma Normalize_carries:
  "Normalize nfc s = Inr n \<Longrightarrow> normal n \<and> sn_Revision n = sn_Revision s \<and> sn_OrganizationID n = sn_OrganizationID s
     \<and> sn_ID n = sn_ID s \<and> set (sn_SourceBindings n) = set (sn_SourceBindings s)"
  by (auto simp: Normalize_sorted)

lemma next_revises:
  assumes "next_revision nfc s f = Inr t"
    and "\<And>n. Normalize nfc s = Inr n \<Longrightarrow> sn_Revision (f (n\<lparr>sn_Revision := sn_Revision n + 1\<rparr>)) = sn_Revision n + 1
       \<and> carries_bindings n (f (n\<lparr>sn_Revision := sn_Revision n + 1\<rparr>))"
  shows "revises s t"
proof -
  from assms(1) obtain n where n: "Normalize nfc s = Inr n" "Normalize nfc (f (n\<lparr>sn_Revision := sn_Revision n + 1\<rparr>)) = Inr t"
    by (auto simp: next_revision_iff)
  from Normalize_carries [OF n(1)] Normalize_carries [OF n(2)] assms(2) [OF n(1)]
  show ?thesis by (simp add: revises_def carries_bindings_def)
qed

lemma revises_normalized: "Normalize nfc s = Inr n \<Longrightarrow> revises n t \<Longrightarrow> revises s t"
  using Normalize_carries [of nfc s n] by (simp add: revises_def carries_bindings_def)

lemma set_role_fields [simp]:
  "sn_SourceBindings (set_role i r s) = sn_SourceBindings s" "sn_Revision (set_role i r s) = sn_Revision s"
  "sn_OrganizationID (set_role i r s) = sn_OrganizationID s" "sn_ID (set_role i r s) = sn_ID s"
  by (simp_all add: set_role_def)

lemma set_enabled_carries: "carries_bindings s (set_enabled i e (s\<lparr>sn_Revision := r\<rparr>))"
proof -
  have "map binding_identity ((sn_SourceBindings s)[i := (sn_SourceBindings s ! i)\<lparr>sb_Enabled := e\<rparr>])
      = map binding_identity (sn_SourceBindings s)"
  proof (cases "i < length (sn_SourceBindings s)")
    case True
    then have "(map binding_identity (sn_SourceBindings s))[i := binding_identity (sn_SourceBindings s ! i)]
        = map binding_identity (sn_SourceBindings s)" by (simp add: list_update_same_conv)
    then show ?thesis by (simp add: map_update binding_identity_def)
  qed (simp add: list_update_beyond)
  then have "set (map binding_identity ((sn_SourceBindings s)[i := (sn_SourceBindings s ! i)\<lparr>sb_Enabled := e\<rparr>]))
      = set (map binding_identity (sn_SourceBindings s))" by (rule arg_cong)
  then show ?thesis by (simp add: carries_bindings_def set_enabled_def)
qed

lemma set_enabled_revision [simp]: "sn_Revision (set_enabled i e s) = sn_Revision s"
  by (simp add: set_enabled_def)

lemma binding_change_next:
  "NextSourceBindingEnabled nfc s b = Inr t \<or> NextSourceBindingDisabled nfc s b = Inr t \<Longrightarrow>
     \<exists>n f. Normalize nfc s = Inr n \<and> next_revision nfc n f = Inr t
       \<and> (f = (\<lambda>s. s\<lparr>sn_SourceBindings := sn_SourceBindings s @ [b]\<rparr>) \<or> (\<exists>i e. f = set_enabled i e))"
  by (auto simp: NextSourceBindingEnabled_def NextSourceBindingDisabled_def split: if_splits option.splits prod.splits)

lemma binding_change_revises:
  assumes "NextSourceBindingEnabled nfc s b = Inr t \<or> NextSourceBindingDisabled nfc s b = Inr t"
  shows "revises s t"
proof -
  from binding_change_next [OF assms] obtain n f where n: "Normalize nfc s = Inr n" "next_revision nfc n f = Inr t"
    and f: "f = (\<lambda>s. s\<lparr>sn_SourceBindings := sn_SourceBindings s @ [b]\<rparr>) \<or> (\<exists>i e. f = set_enabled i e)"
    by (elim exE conjE)
  have "sn_Revision (f (m\<lparr>sn_Revision := r\<rparr>)) = r \<and> carries_bindings m (f (m\<lparr>sn_Revision := r\<rparr>))" for m r
    using f
  proof (elim disjE exE)
    assume "f = (\<lambda>s. s\<lparr>sn_SourceBindings := sn_SourceBindings s @ [b]\<rparr>)"
    then show ?thesis by (auto simp: carries_bindings_def)
  next
    fix i e assume "f = set_enabled i e"
    then show ?thesis using set_enabled_carries by simp
  qed
  with n show ?thesis by (blast intro: revises_normalized next_revises)
qed

lemma carries_same:
  "sn_OrganizationID t = sn_OrganizationID s \<Longrightarrow> sn_ID t = sn_ID s \<Longrightarrow> sn_SourceBindings t = sn_SourceBindings s \<Longrightarrow>
     carries_bindings s t"
  by (simp add: carries_bindings_def)

lemma carries_trans: "carries_bindings s t \<Longrightarrow> carries_bindings t u \<Longrightarrow> carries_bindings s u"
  by (simp add: carries_bindings_def) blast

lemma member_change_next:
  "NextWithoutMember nfc s p = Inr t \<or> NextWithMemberRole nfc s p r = Inr t \<or> NextOwnershipTransferred nfc s p = Inr t \<Longrightarrow>
     \<exists>n f. Normalize nfc s = Inr n \<and> next_revision nfc n f = Inr t
       \<and> (\<forall>m. sn_Revision (f m) = sn_Revision m \<and> sn_OrganizationID (f m) = sn_OrganizationID m
          \<and> sn_ID (f m) = sn_ID m \<and> sn_SourceBindings (f m) = sn_SourceBindings m)"
  by (fastforce simp: NextWithoutMember_def NextWithMemberRole_def NextOwnershipTransferred_def mutableMember_iff
      split: if_splits option.splits prod.splits)

lemma member_change_revises:
  assumes "NextWithoutMember nfc s p = Inr t \<or> NextWithMemberRole nfc s p r = Inr t \<or> NextOwnershipTransferred nfc s p = Inr t"
  shows "revises s t"
proof -
  from member_change_next [OF assms] obtain n f where n: "Normalize nfc s = Inr n" "next_revision nfc n f = Inr t"
    and f: "\<And>m. sn_Revision (f m) = sn_Revision m \<and> sn_OrganizationID (f m) = sn_OrganizationID m
          \<and> sn_ID (f m) = sn_ID m \<and> sn_SourceBindings (f m) = sn_SourceBindings m" by (elim exE conjE) blast
  have "revises n t" by (rule next_revises [OF n(2)]) (simp add: f carries_same)
  with n(1) show ?thesis by (rule revises_normalized)
qed

lemma evolves_revises: "evolves nfc s t \<Longrightarrow> revises s t"
proof (induction rule: evolves.induct)
  case metadata
  then show ?case unfolding NextMetadata_def by (rule next_revises) (simp add: carries_same)
next
  case archived
  then show ?case unfolding NextArchived_def by (rule next_revises) (simp add: carries_same)
next
  case (with_member s m t)
  then have "next_revision nfc s (\<lambda>s. s\<lparr>sn_Members := sn_Members s @ [m]\<rparr>) = Inr t"
    by (simp add: NextWithMember_def split: if_splits)
  then show ?case by (rule next_revises) (simp add: carries_same)
qed (use binding_change_revises member_change_revises in blast)+

interpretation ws_chain: revision_chain "evolves nfc" normal sn_Revision carries_bindings for nfc
proof unfold_locales
  show "carries_bindings s s" for s by (rule carries_same) simp_all
  show "carries_bindings s t \<Longrightarrow> carries_bindings t u \<Longrightarrow> carries_bindings s u" for s t u by (rule carries_trans)
  show "evolves nfc s t \<Longrightarrow> normal t \<and> sn_Revision t = sn_Revision s + 1 \<and> carries_bindings s t" for s t
    using evolves_revises [of nfc s t] by (simp only: revises_def)
qed

text \<open>
  C21. A normalized snapshot is canonical: \<open>Normalize\<close> accepts exactly the snapshots whose normal form
  exists, and returns it: valid fields, members and bindings strictly sorted by their IDs with the same
  entries as in the input, exactly one owner, who is the named one, names in NFC, and the read-path
  markers cleared. In particular the result does not depend on the order of the members.
\<close>

theorem normalize_exact:
  "Normalize nfc s = Inr t \<longleftrightarrow> normal t
     \<and> t = s\<lparr>sn_Name := nfc (sn_Name s), sn_Description := nfc (sn_Description s), sn_Members := sn_Members t,
             sn_SourceBindings := sn_SourceBindings t, sn_Degraded := False, sn_DegradedReason := []\<rparr>
     \<and> mset (sn_Members t) = mset (sn_Members s) \<and> mset (sn_SourceBindings t) = mset (sn_SourceBindings s)"
  by (simp only: Normalize_iff normalized_as_def)

text \<open>
  C17. The life of a workspace: along any chain of accepted revision steps from a normalized snapshot
  the revision number counts the steps and stays within the I-JSON bound, the organization and the
  workspace ID never change, every snapshot is normalized, no source binding is lost, and a source
  scope ID is never rebound to another scope revision or hash.
\<close>

theorem revisions_never_rebind:
  assumes "normal s" "(evolves nfc ^^ n) s t"
  shows "normal t \<and> sn_Revision t = sn_Revision s + int n \<and> sn_Revision t \<le> maxIJSONInteger
    \<and> sn_OrganizationID t = sn_OrganizationID s \<and> sn_ID t = sn_ID s
    \<and> (\<forall>b\<in>set (sn_SourceBindings s). \<exists>b'\<in>set (sn_SourceBindings t). sameSourceBindingIdentity b b')
    \<and> (\<forall>b\<in>set (sn_SourceBindings s). \<forall>b'\<in>set (sn_SourceBindings t).
         sb_SourceScopeID b = sb_SourceScopeID b' \<longrightarrow> sameSourceBindingIdentity b b')"
proof -
  have c: "normal t" "sn_Revision t = sn_Revision s + int n" "carries_bindings s t"
    using ws_chain.chain_revises [OF assms(2,1)] by simp_all
  have kept: "\<exists>b'\<in>set (sn_SourceBindings t). sameSourceBindingIdentity b b'" if "b \<in> set (sn_SourceBindings s)" for b
  proof -
    from c(3) that have "binding_identity b \<in> binding_identity ` set (sn_SourceBindings t)"
      by (auto simp only: carries_bindings_def)
    then show ?thesis by (auto simp: binding_identity_def sameSourceBindingIdentity_def)
  qed
  have "sameSourceBindingIdentity b b'"
    if b: "b \<in> set (sn_SourceBindings s)" "b' \<in> set (sn_SourceBindings t)" "sb_SourceScopeID b = sb_SourceScopeID b'" for b b'
  proof -
    from kept [OF b(1)] obtain d where d: "d \<in> set (sn_SourceBindings t)" "sameSourceBindingIdentity b d" by blast
    then have "sb_SourceScopeID d = sb_SourceScopeID b'" using b(3) by (simp add: sameSourceBindingIdentity_def)
    then have "d = b'" using normal_distinct [OF c(1)] d(1) b(2) distinct_map_unique by metis
    with d(2) show ?thesis by simp
  qed
  with c kept show ?thesis by (auto simp: carries_bindings_def normal_def)
qed

subsection \<open>Membership\<close>

lemma next_fixed:
  assumes idem: "\<And>x. nfc (nfc x) = nfc x" and n: "Normalize nfc s = Inr n"
    and meta: "\<And>m. sn_Name (f m) = sn_Name m \<and> sn_Description (f m) = sn_Description m"
  shows "next_revision nfc n f = next_revision nfc s f"
    "sn_Revision n < maxIJSONInteger \<Longrightarrow> normal (f (n\<lparr>sn_Revision := sn_Revision n + 1\<rparr>)) \<Longrightarrow>
       next_revision nfc s f = Inr (f (n\<lparr>sn_Revision := sn_Revision n + 1\<rparr>))"
proof -
  note stable = Normalize_stable [OF idem n]
  show same: "next_revision nfc n f = next_revision nfc s f" using n stable(4) by (simp add: next_revision_def)
  assume a: "sn_Revision n < maxIJSONInteger" "normal (f (n\<lparr>sn_Revision := sn_Revision n + 1\<rparr>))"
  have "Normalize nfc (f (n\<lparr>sn_Revision := sn_Revision n + 1\<rparr>)) = Inr (f (n\<lparr>sn_Revision := sn_Revision n + 1\<rparr>))"
    using a(2) stable meta by (intro Normalize_fixed) simp_all
  then show "next_revision nfc s f = Inr (f (n\<lparr>sn_Revision := sn_Revision n + 1\<rparr>))"
    using a(1) n by (auto simp: next_revision_iff)
qed

text \<open>A change of the member list that keeps the IDs sorted, the entries valid and the owner alone.\<close>

lemma normal_members:
  assumes "normal n" "sn_Revision n < maxIJSONInteger" "sorted_wrt (<) (map mb_PrincipalID ms)"
    "list_all (\<lambda>m. ws_validID (mb_PrincipalID m) \<and> validRole (mb_Role m)) ms" "ws_validID p"
    "map mb_PrincipalID (filter (\<lambda>m. mb_Role m = RoleOwner) ms) = [p]"
  shows "normal (n\<lparr>sn_Revision := sn_Revision n + 1, sn_OwnerPrincipalID := p, sn_Members := ms\<rparr>)"
  using assms by (simp add: normal_def)

lemma owner_by_id:
  assumes "normal n" "m \<in> set (sn_Members n)"
  shows "mb_Role m = RoleOwner \<longleftrightarrow> mb_PrincipalID m = sn_OwnerPrincipalID n"
proof -
  have o: "map mb_PrincipalID (filter (\<lambda>m. mb_Role m = RoleOwner) (sn_Members n)) = [sn_OwnerPrincipalID n]"
    using assms(1) by (simp add: normal_def)
  then obtain k where k: "filter (\<lambda>m. mb_Role m = RoleOwner) (sn_Members n) = [k]" "mb_PrincipalID k = sn_OwnerPrincipalID n"
    by auto
  have kin: "k \<in> set (sn_Members n)" "mb_Role k = RoleOwner"
    using arg_cong [OF k(1), of set] by auto
  show ?thesis
  proof
    assume "mb_Role m = RoleOwner"
    then have "m \<in> set (filter (\<lambda>m. mb_Role m = RoleOwner) (sn_Members n))" using assms(2) by simp
    with k show "mb_PrincipalID m = sn_OwnerPrincipalID n" by simp
  next
    assume "mb_PrincipalID m = sn_OwnerPrincipalID n"
    with k kin assms normal_distinct [OF assms(1)] have "m = k" by (metis distinct_map_unique)
    with kin show "mb_Role m = RoleOwner" by simp
  qed
qed

definition change_role :: "gostring \<Rightarrow> role \<Rightarrow> member list \<Rightarrow> member list" where
  "change_role p r ms = map (\<lambda>m. if mb_PrincipalID m = p then m\<lparr>mb_Role := r\<rparr> else m) ms"

lemma change_role_ids [simp]: "map mb_PrincipalID (change_role p r ms) = map mb_PrincipalID ms"
  by (simp add: change_role_def comp_def if_distrib cong: if_cong)

lemma change_role_length [simp]: "length (change_role p r ms) = length ms"
  by (simp add: change_role_def)

lemma change_role_id [simp]:
  "i < length ms \<Longrightarrow> mb_PrincipalID (change_role p r ms ! i) = mb_PrincipalID (ms ! i)"
  by (simp add: change_role_def)

lemma set_role_change:
  "distinct (map mb_PrincipalID (sn_Members s)) \<Longrightarrow> i < length (sn_Members s) \<Longrightarrow>
     set_role i r s = s\<lparr>sn_Members := change_role (mb_PrincipalID (sn_Members s ! i)) r (sn_Members s)\<rparr>"
  using update_by_key [of mb_PrincipalID "sn_Members s" i "\<lambda>m. m\<lparr>mb_Role := r\<rparr>"]
  by (simp add: set_role_def change_role_def)

lemma change_role_valid:
  "list_all (\<lambda>m. ws_validID (mb_PrincipalID m) \<and> validRole (mb_Role m)) ms \<Longrightarrow> validRole r \<Longrightarrow>
     list_all (\<lambda>m. ws_validID (mb_PrincipalID m) \<and> validRole (mb_Role m)) (change_role p r ms)"
  by (auto simp: list_all_iff change_role_def)

lemma next_exact:
  assumes idem: "\<And>x. nfc (nfc x) = nfc x" and n: "Normalize nfc s = Inr n"
    and meta: "\<And>m. sn_Name (f m) = sn_Name m \<and> sn_Description (f m) = sn_Description m"
    and ok: "sn_Revision n < maxIJSONInteger \<Longrightarrow> normal (f (n\<lparr>sn_Revision := sn_Revision n + 1\<rparr>))"
  shows "next_revision nfc n f = Inr t \<longleftrightarrow> sn_Revision n < maxIJSONInteger \<and> t = f (n\<lparr>sn_Revision := sn_Revision n + 1\<rparr>)"
proof (cases "sn_Revision n < maxIJSONInteger")
  case True
  then show ?thesis using next_fixed [OF idem n meta] ok by auto
next
  case False
  moreover have "sn_Revision n \<le> maxIJSONInteger" using Normalize_stable(1) [OF idem n] by (simp add: normal_def)
  ultimately show ?thesis using Normalize_stable(4) [OF idem n] by (auto simp: next_revision_iff)
qed

lemma mutableMember_stable:
  assumes "Normalize nfc s = Inr n" "i < length (sn_Members n)" "mb_PrincipalID (sn_Members n ! i) = p" "p \<noteq> sn_OwnerPrincipalID n"
  shows "mutableMember nfc s p = Inr (n, i)"
  using assms by (simp add: mutableMember_iff)

lemma mutableMember_none:
  assumes "Normalize nfc s = Inr n" "p \<notin> mb_PrincipalID ` set (sn_Members n) \<or> p = sn_OwnerPrincipalID n"
  shows "\<exists>e. mutableMember nfc s p = Inl e"
proof (cases "mutableMember nfc s p")
  case (Inr r)
  with assms show ?thesis by (cases r) (auto simp: mutableMember_iff)
qed simp

lemma change_role_owners:
  assumes n: "normal n" and p: "p \<noteq> sn_OwnerPrincipalID n" and r: "r \<noteq> RoleOwner"
  shows "filter (\<lambda>m. mb_Role m = RoleOwner) (change_role p r (sn_Members n)) = filter (\<lambda>m. mb_Role m = RoleOwner) (sn_Members n)"
proof -
  have "filter (\<lambda>m. mb_Role m = RoleOwner) (change_role p r ms) = filter (\<lambda>m. mb_Role m = RoleOwner) ms"
    if "set ms \<subseteq> set (sn_Members n)" for ms
    using that owner_by_id [OF n] p r by (induction ms) (auto simp: change_role_def)
  then show ?thesis by simp
qed

lemma transfer_owners:
  assumes n: "normal n" and p: "p \<in> mb_PrincipalID ` set (sn_Members n)" "p \<noteq> sn_OwnerPrincipalID n"
  shows "map mb_PrincipalID (filter (\<lambda>m. mb_Role m = RoleOwner)
    (change_role p RoleOwner (change_role (sn_OwnerPrincipalID n) RoleManager (sn_Members n)))) = [p]"
proof -
  have "map mb_PrincipalID (filter (\<lambda>m. mb_Role m = RoleOwner) (change_role p RoleOwner (change_role (sn_OwnerPrincipalID n) RoleManager ms)))
      = map mb_PrincipalID (filter (\<lambda>m. mb_PrincipalID m = p) ms)" if "set ms \<subseteq> set (sn_Members n)" for ms
    using that owner_by_id [OF n] p(2) by (induction ms) (auto simp: change_role_def)
  then show ?thesis using filter_by_key [OF conjunct1 [OF normal_distinct [OF n]] p(1)] by simp
qed

text \<open>
  Ownership transfer is exact: it succeeds exactly when the new owner is a member other than the
  owner and the revision number can grow, and then it makes the new owner \<open>OWNER\<close> and the previous
  one \<open>MANAGER\<close>, records the new owner, and changes nothing else.
\<close>

theorem ownership_transfer_exact:
  assumes idem: "\<And>x. nfc (nfc x) = nfc x" and n: "Normalize nfc s = Inr n"
  shows "NextOwnershipTransferred nfc s p = Inr t \<longleftrightarrow>
     p \<in> mb_PrincipalID ` set (sn_Members n) \<and> p \<noteq> sn_OwnerPrincipalID n \<and> sn_Revision n < maxIJSONInteger
     \<and> t = n\<lparr>sn_Revision := sn_Revision n + 1, sn_OwnerPrincipalID := p,
             sn_Members := change_role p RoleOwner (change_role (sn_OwnerPrincipalID n) RoleManager (sn_Members n))\<rparr>"
proof (cases "p \<in> mb_PrincipalID ` set (sn_Members n) \<and> p \<noteq> sn_OwnerPrincipalID n")
  case True
  note N = Normalize_stable(1) [OF idem n]
  from True obtain i where i: "i < length (sn_Members n)" "mb_PrincipalID (sn_Members n ! i) = p"
    by (auto simp: in_set_conv_nth)
  have "filter (\<lambda>m. mb_Role m = RoleOwner) (sn_Members n) \<noteq> []" using N by (auto simp: normal_def)
  then obtain k x where k: "find_index (\<lambda>m. mb_Role m = RoleOwner) 0 (sn_Members n) = Some (k, x)"
    by (cases "find_index (\<lambda>m. mb_Role m = RoleOwner) 0 (sn_Members n)") (auto simp: find_index_None filter_empty_conv)
  then have kl: "k < length (sn_Members n)" "mb_Role (sn_Members n ! k) = RoleOwner" by (auto simp: find_index_Some)
  then have o: "mb_PrincipalID (sn_Members n ! k) = sn_OwnerPrincipalID n" using owner_by_id [OF N] by simp
  let ?f = "\<lambda>s. (set_role i RoleOwner (set_role k RoleManager s))\<lparr>sn_OwnerPrincipalID := p\<rparr>"
  have d: "distinct (map mb_PrincipalID (sn_Members n))" using normal_distinct [OF N] by blast
  have ki: "k \<noteq> i" using o i True by auto
  have k1: "set_role k RoleManager (n\<lparr>sn_Revision := r\<rparr>)
      = n\<lparr>sn_Revision := r, sn_Members := change_role (sn_OwnerPrincipalID n) RoleManager (sn_Members n)\<rparr>" for r
    using set_role_change [of "n\<lparr>sn_Revision := r\<rparr>" k RoleManager] d kl(1) o by simp
  have f: "?f (n\<lparr>sn_Revision := r\<rparr>) = n\<lparr>sn_Revision := r, sn_OwnerPrincipalID := p,
      sn_Members := change_role p RoleOwner (change_role (sn_OwnerPrincipalID n) RoleManager (sn_Members n))\<rparr>" for r
    using set_role_change [of "n\<lparr>sn_Revision := r, sn_Members := change_role (sn_OwnerPrincipalID n) RoleManager (sn_Members n)\<rparr>"
        i RoleOwner] d i unfolding k1 by simp
  have normal: "normal (?f (n\<lparr>sn_Revision := sn_Revision n + 1\<rparr>))" if "sn_Revision n < maxIJSONInteger"
  proof -
    have v: "list_all (\<lambda>m. ws_validID (mb_PrincipalID m) \<and> validRole (mb_Role m)) (sn_Members n)"
      and s: "sorted_wrt (<) (map mb_PrincipalID (sn_Members n))" using N by (simp_all add: normal_def)
    have "ws_validID p" using v i by (auto simp: list_all_length)
    moreover have "list_all (\<lambda>m. ws_validID (mb_PrincipalID m) \<and> validRole (mb_Role m))
        (change_role p RoleOwner (change_role (sn_OwnerPrincipalID n) RoleManager (sn_Members n)))"
      by (intro change_role_valid v) simp_all
    ultimately show ?thesis unfolding f
      using normal_members [OF N that, of "change_role p RoleOwner (change_role (sn_OwnerPrincipalID n) RoleManager (sn_Members n))" p]
        s transfer_owners [OF N] True by simp
  qed
  have "NextOwnershipTransferred nfc s p = next_revision nfc n ?f"
    using mutableMember_stable [OF n i] True k ki by (simp add: NextOwnershipTransferred_def)
  with next_exact [of nfc s n ?f t, OF idem n _ normal] True f show ?thesis by (simp add: set_role_def)
next
  case False
  then obtain e where "mutableMember nfc s p = Inl e" using mutableMember_none [OF n] by blast
  with False show ?thesis by (auto simp: NextOwnershipTransferred_def)
qed

lemma member_facts:
  assumes "normal n"
  shows "list_all (\<lambda>m. ws_validID (mb_PrincipalID m) \<and> validRole (mb_Role m)) (sn_Members n)"
    "sorted_wrt (<) (map mb_PrincipalID (sn_Members n))" "ws_validID (sn_OwnerPrincipalID n)"
    "map mb_PrincipalID (filter (\<lambda>m. mb_Role m = RoleOwner) (sn_Members n)) = [sn_OwnerPrincipalID n]"
    "distinct (map mb_PrincipalID (sn_Members n))"
  using assms by (simp_all add: normal_def strict_sorted_iff)

lemma normal_new_members:
  assumes "normal n" "sn_Revision n < maxIJSONInteger" "sorted_wrt (<) (map mb_PrincipalID ms)"
    "list_all (\<lambda>m. ws_validID (mb_PrincipalID m) \<and> validRole (mb_Role m)) ms"
    "filter (\<lambda>m. mb_Role m = RoleOwner) ms = filter (\<lambda>m. mb_Role m = RoleOwner) (sn_Members n)"
  shows "normal (n\<lparr>sn_Revision := sn_Revision n + 1, sn_Members := ms\<rparr>)"
  using assms by (simp add: normal_def)

lemma without_member_exact:
  assumes idem: "\<And>x. nfc (nfc x) = nfc x" and n: "Normalize nfc s = Inr n"
  shows "NextWithoutMember nfc s p = Inr t \<longleftrightarrow> p \<in> mb_PrincipalID ` set (sn_Members n) \<and> p \<noteq> sn_OwnerPrincipalID n
     \<and> sn_Revision n < maxIJSONInteger
     \<and> t = n\<lparr>sn_Revision := sn_Revision n + 1, sn_Members := filter (\<lambda>m. mb_PrincipalID m \<noteq> p) (sn_Members n)\<rparr>"
proof (cases "p \<in> mb_PrincipalID ` set (sn_Members n) \<and> p \<noteq> sn_OwnerPrincipalID n")
  case True
  note N = Normalize_stable(1) [OF idem n] note F = member_facts [OF N]
  from True obtain i where i: "i < length (sn_Members n)" "mb_PrincipalID (sn_Members n ! i) = p"
    by (auto simp: in_set_conv_nth)
  let ?f = "\<lambda>s. s\<lparr>sn_Members := take i (sn_Members s) @ drop (i + 1) (sn_Members s)\<rparr>"
  have f: "?f (n\<lparr>sn_Revision := r\<rparr>) = n\<lparr>sn_Revision := r, sn_Members := filter (\<lambda>m. mb_PrincipalID m \<noteq> p) (sn_Members n)\<rparr>" for r
    using remove_by_key [OF F(5) i(1)] i(2) by simp
  have normal: "normal (?f (n\<lparr>sn_Revision := sn_Revision n + 1\<rparr>))" if "sn_Revision n < maxIJSONInteger"
    unfolding f
  proof (rule normal_new_members [OF N that])
    show "sorted_wrt (<) (map mb_PrincipalID (filter (\<lambda>m. mb_PrincipalID m \<noteq> p) (sn_Members n)))"
      using F(2) by (simp add: sorted_wrt_map sorted_wrt_filter)
    show "filter (\<lambda>m. mb_Role m = RoleOwner) (filter (\<lambda>m. mb_PrincipalID m \<noteq> p) (sn_Members n))
        = filter (\<lambda>m. mb_Role m = RoleOwner) (sn_Members n)"
      using owner_by_id [OF N] True by (auto intro: filter_cong)
  qed (use F(1) in \<open>simp add: list_all_iff\<close>)
  have "NextWithoutMember nfc s p = next_revision nfc n ?f"
    using mutableMember_stable [OF n i] True by (simp add: NextWithoutMember_def)
  with next_exact [of nfc s n ?f t, OF idem n _ normal] True f show ?thesis by simp
next
  case False
  then obtain e where "mutableMember nfc s p = Inl e" using mutableMember_none [OF n] by blast
  with False show ?thesis by (auto simp: NextWithoutMember_def)
qed

lemma member_role_exact:
  assumes idem: "\<And>x. nfc (nfc x) = nfc x" and n: "Normalize nfc s = Inr n"
  shows "NextWithMemberRole nfc s p r = Inr t \<longleftrightarrow> r \<noteq> RoleOwner \<and> validRole r \<and> p \<noteq> sn_OwnerPrincipalID n
     \<and> (\<exists>m\<in>set (sn_Members n). mb_PrincipalID m = p \<and> mb_Role m \<noteq> r) \<and> sn_Revision n < maxIJSONInteger
     \<and> t = n\<lparr>sn_Revision := sn_Revision n + 1, sn_Members := change_role p r (sn_Members n)\<rparr>"
proof (cases "p \<in> mb_PrincipalID ` set (sn_Members n) \<and> p \<noteq> sn_OwnerPrincipalID n \<and> r \<noteq> RoleOwner \<and> validRole r")
  case True
  note N = Normalize_stable(1) [OF idem n] note F = member_facts [OF N]
  from True obtain i where i: "i < length (sn_Members n)" "mb_PrincipalID (sn_Members n ! i) = p"
    by (auto simp: in_set_conv_nth)
  have f: "set_role i r (n\<lparr>sn_Revision := v\<rparr>) = n\<lparr>sn_Revision := v, sn_Members := change_role p r (sn_Members n)\<rparr>" for v
    using set_role_change [of "n\<lparr>sn_Revision := v\<rparr>" i r] F(5) i by simp
  have normal: "normal (set_role i r (n\<lparr>sn_Revision := sn_Revision n + 1\<rparr>))" if "sn_Revision n < maxIJSONInteger"
    unfolding f using True F change_role_owners [OF N, of p r] change_role_valid [OF F(1)]
    by (intro normal_new_members [OF N that]) simp_all
  have "(\<exists>m\<in>set (sn_Members n). mb_PrincipalID m = p \<and> mb_Role m \<noteq> r) \<longleftrightarrow> mb_Role (sn_Members n ! i) \<noteq> r"
    using i F(5) distinct_map_unique [OF F(5)] by (metis nth_mem)
  moreover have "NextWithMemberRole nfc s p r =
      (if mb_Role (sn_Members n ! i) = r then Inl CodeInvalidSnapshot else next_revision nfc n (set_role i r))"
    using mutableMember_stable [OF n i] True by (simp add: NextWithMemberRole_def)
  ultimately show ?thesis
    using next_exact [of nfc s n "set_role i r" t, OF idem n _ normal] True f by (auto simp: set_role_def)
next
  case False
  show ?thesis
  proof (cases "r = RoleOwner \<or> \<not> validRole r")
    case True
    then show ?thesis by (auto simp: NextWithMemberRole_def)
  next
    case r: False
    with False obtain e where "mutableMember nfc s p = Inl e" using mutableMember_none [OF n] by blast
    with False r show ?thesis by (auto simp: NextWithMemberRole_def)
  qed
qed

lemma with_member_exact:
  assumes idem: "\<And>x. nfc (nfc x) = nfc x" and n: "Normalize nfc s = Inr n"
  shows "NextWithMember nfc s m = Inr t \<longleftrightarrow> mb_Role m \<noteq> RoleOwner \<and> validRole (mb_Role m) \<and> ws_validID (mb_PrincipalID m)
     \<and> mb_PrincipalID m \<notin> mb_PrincipalID ` set (sn_Members n) \<and> sn_Revision n < maxIJSONInteger
     \<and> t = n\<lparr>sn_Revision := sn_Revision n + 1, sn_Members := insort_key mb_PrincipalID m (sn_Members n)\<rparr>"
  (is "?L \<longleftrightarrow> ?R")
proof -
  note N = Normalize_stable(1) [OF idem n] note F = member_facts [OF N]
  note S = Normalize_stable(2,3) [OF idem n]
  let ?ins = "insort_key mb_PrincipalID m (sn_Members n)"
  let ?t = "n\<lparr>sn_Revision := sn_Revision n + 1, sn_Members := ?ins\<rparr>"
  let ?u = "n\<lparr>sn_Revision := sn_Revision n + 1, sn_Members := sn_Members n @ [m]\<rparr>"
  have sorted: "sorted_wrt (<) (map mb_PrincipalID ?ins)" if "mb_PrincipalID m \<notin> mb_PrincipalID ` set (sn_Members n)"
    using F(2) that by (auto simp: strict_sorted_iff sorted_insort_key distinct_map distinct_insort inj_on_insert set_insort_key)
  have L: "?L \<longleftrightarrow> mb_Role m \<noteq> RoleOwner \<and> sn_Revision n \<noteq> maxIJSONInteger \<and> Normalize nfc ?u = Inr t"
    using n by (simp add: NextWithMember_def next_revision_iff)
  show ?thesis
  proof
    assume ?L
    then have r: "mb_Role m \<noteq> RoleOwner" "Normalize nfc ?u = Inr t" and rev: "sn_Revision n < maxIJSONInteger"
      using L N by (auto simp: normal_def)
    then have t: "normal t" "normalized_as nfc ?u t" by (simp_all add: Normalize_iff)
    note T = member_facts [OF t(1)]
    have ms: "mset (sn_Members t) = mset (sn_Members n @ [m])" using t(2) by (simp add: normalized_as_def)
    then have "mset (map mb_PrincipalID (sn_Members t)) = mset (map mb_PrincipalID (sn_Members n @ [m]))"
      by (metis mset_map)
    then have "distinct (map mb_PrincipalID (sn_Members n @ [m]))" using T(5) by (metis mset_eq_imp_distinct_iff)
    then have fresh: "mb_PrincipalID m \<notin> mb_PrincipalID ` set (sn_Members n)" by auto
    have "m \<in> set (sn_Members t)" using ms by (metis in_set_conv_decomp mset_eq_setD)
    then have v: "ws_validID (mb_PrincipalID m)" "validRole (mb_Role m)" using T(1) by (auto simp: list_all_iff)
    have "sort_key mb_PrincipalID ?ins = sn_Members t" using ms by (intro sort_key_unique T(2)) simp
    moreover have "sort_key mb_PrincipalID ?ins = ?ins" by (intro sort_key_unique sorted [OF fresh]) simp
    ultimately have "sn_Members t = ?ins" by simp
    moreover have "sn_SourceBindings t = sn_SourceBindings n"
    proof -
      have "sort_key sb_SourceScopeID (sn_SourceBindings n) = sn_SourceBindings t"
        using t by (intro sort_key_unique) (auto simp: normalized_as_def normal_def)
      moreover have "sort_key sb_SourceScopeID (sn_SourceBindings n) = sn_SourceBindings n"
        using N by (intro sort_key_unique) (auto simp: normal_def)
      ultimately show ?thesis by simp
    qed
    ultimately have "t = ?t" using t(2) S N by (auto simp: normalized_as_def normal_def)
    with r rev fresh v show ?R by blast
  next
    assume R: ?R
    then have rev: "sn_Revision n < maxIJSONInteger" and fresh: "mb_PrincipalID m \<notin> mb_PrincipalID ` set (sn_Members n)" by auto
    have owners: "filter (\<lambda>m. mb_Role m = RoleOwner) (insort_key mb_PrincipalID m ks) = filter (\<lambda>m. mb_Role m = RoleOwner) ks" for ks
      using R by (induction ks) auto
    have "normal ?t"
      using R F(1) owners by (intro normal_new_members [OF N rev sorted [OF fresh]]) (auto simp: list_all_iff set_insort_key)
    moreover have "normalized_as nfc ?u ?t" using S N by (simp add: normalized_as_def normal_def)
    ultimately show ?L using L R by (simp add: Normalize_iff)
  qed
qed

text \<open>
  The other membership changes are exact: a new member is admitted exactly when it is not an
  owner, is valid and is not yet a member, and is inserted in order; a member other than the owner is
  removed, or gets another valid role than \<open>OWNER\<close>; nothing else changes but the revision number.
\<close>

theorem membership_changes_exact:
  assumes idem: "\<And>x. nfc (nfc x) = nfc x" and n: "Normalize nfc s = Inr n"
  shows "(NextWithMember nfc s m = Inr t \<longleftrightarrow> mb_Role m \<noteq> RoleOwner \<and> validRole (mb_Role m) \<and> ws_validID (mb_PrincipalID m)
        \<and> mb_PrincipalID m \<notin> mb_PrincipalID ` set (sn_Members n) \<and> sn_Revision n < maxIJSONInteger
        \<and> t = n\<lparr>sn_Revision := sn_Revision n + 1, sn_Members := insort_key mb_PrincipalID m (sn_Members n)\<rparr>)
    \<and> (NextWithoutMember nfc s p = Inr t \<longleftrightarrow> p \<in> mb_PrincipalID ` set (sn_Members n) \<and> p \<noteq> sn_OwnerPrincipalID n
        \<and> sn_Revision n < maxIJSONInteger
        \<and> t = n\<lparr>sn_Revision := sn_Revision n + 1, sn_Members := filter (\<lambda>m. mb_PrincipalID m \<noteq> p) (sn_Members n)\<rparr>)
    \<and> (NextWithMemberRole nfc s p r = Inr t \<longleftrightarrow> r \<noteq> RoleOwner \<and> validRole r \<and> p \<noteq> sn_OwnerPrincipalID n
        \<and> (\<exists>m\<in>set (sn_Members n). mb_PrincipalID m = p \<and> mb_Role m \<noteq> r) \<and> sn_Revision n < maxIJSONInteger
        \<and> t = n\<lparr>sn_Revision := sn_Revision n + 1, sn_Members := change_role p r (sn_Members n)\<rparr>)"
  by (intro conjI with_member_exact [OF idem n] without_member_exact [OF idem n] member_role_exact [OF idem n])

section \<open>The canonical artifact determines the configuration\<close>

lemma status_text_inj: "validStatus x \<Longrightarrow> validStatus y \<Longrightarrow> status_text x = status_text y \<Longrightarrow> x = y"
  by (cases x; cases y) simp_all

lemma role_text_inj: "validRole x \<Longrightarrow> validRole y \<Longrightarrow> role_text x = role_text y \<Longrightarrow> x = y"
  by (cases x; cases y) simp_all

lemma member_json_inj:
  "validRole (cm_Role x) \<Longrightarrow> validRole (cm_Role y) \<Longrightarrow> member_json x = member_json y \<Longrightarrow> x = y"
  by (cases x; cases y) (auto simp: member_json_def dest: role_text_inj)

lemma binding_json_inj: "binding_json x = binding_json y \<Longrightarrow> x = y"
  by (cases x; cases y) (simp add: binding_json_def)

lemma map_inj_on_lists:
  "(\<And>x y. x \<in> set xs \<Longrightarrow> y \<in> set ys \<Longrightarrow> f x = f y \<Longrightarrow> x = y) \<Longrightarrow> map f xs = map f ys \<Longrightarrow> xs = ys"
  by (induction xs arbitrary: ys) (auto simp: map_eq_Cons_conv)

lemma configuration_json_inj:
  assumes "validStatus (cc_Status c)" "validStatus (cc_Status d)"
    "list_all (\<lambda>m. validRole (cm_Role m)) (cc_Members c)" "list_all (\<lambda>m. validRole (cm_Role m)) (cc_Members d)"
    and e: "configuration_json c = configuration_json d"
  shows "c = d"
proof -
  have f: "map member_json (cc_Members c) = map member_json (cc_Members d)"
    "map binding_json (cc_SourceBindings c) = map binding_json (cc_SourceBindings d)"
    "status_text (cc_Status c) = status_text (cc_Status d)"
    using e by (simp_all add: configuration_json_def)
  have "cc_Members c = cc_Members d"
    by (rule map_inj_on_lists [OF member_json_inj f(1)]) (use assms(3,4) in \<open>auto simp: list_all_iff\<close>)
  moreover have "cc_SourceBindings c = cc_SourceBindings d"
    by (rule map_inj_on_lists [OF binding_json_inj f(2)])
  moreover have "cc_Status c = cc_Status d" by (rule status_text_inj [OF assms(1,2) f(3)])
  ultimately show ?thesis using e by (cases c; cases d) (simp add: configuration_json_def)
qed

lemma configuration_of_valid:
  "normal n \<Longrightarrow> validStatus (cc_Status (configuration_of n))
     \<and> list_all (\<lambda>m. validRole (cm_Role m)) (cc_Members (configuration_of n))"
  by (auto simp: configuration_of_def normal_def list_all_iff)

text \<open>The integers of a normal snapshot are in the range of I-JSON, so canonicalization keeps them.\<close>

lemma configuration_ijson: "normal n \<Longrightarrow> json_numbers (configuration_json (configuration_of n)) = configuration_json (configuration_of n)"
  by (rule ijson_numbers)
    (auto simp: normal_def configuration_json_def configuration_of_def member_json_def binding_json_def list_all_iff
      validSourceBinding_def maxIJSONInteger_def)

lemma CanonicalSnapshot_iff:
  "CanonicalSnapshot nfc s = Inr b \<longleftrightarrow> (\<exists>n. Normalize nfc s = Inr n \<and> b = jcs (configuration_json (configuration_of n)))"
  by (auto simp: CanonicalSnapshot_def)

text \<open>What of a normalized snapshot the artifact does not carry: the display names.\<close>

definition undisplayed :: "snapshot \<Rightarrow> snapshot" where
  "undisplayed s = s\<lparr>sn_Members := map (\<lambda>m. m\<lparr>mb_DisplayName := []\<rparr>) (sn_Members s)\<rparr>"

lemma snapshot_of_configuration: "normal n \<Longrightarrow> snapshot_of (configuration_of n) = undisplayed n"
  by (cases n) (simp add: snapshot_of_def configuration_of_def undisplayed_def normal_def)

lemma undisplayed_normal: "normal n \<Longrightarrow> normal (undisplayed n)"
proof -
  have "map mb_PrincipalID (filter (\<lambda>m. mb_Role m = RoleOwner) (map (\<lambda>m. m\<lparr>mb_DisplayName := []\<rparr>) ms))
      = map mb_PrincipalID (filter (\<lambda>m. mb_Role m = RoleOwner) ms)" for ms :: "member list"
    by (induction ms) simp_all
  moreover have "mb_PrincipalID \<circ> mb_DisplayName_update (\<lambda>_. []) = (mb_PrincipalID :: member \<Rightarrow> gostring)"
    by (simp add: fun_eq_iff)
  ultimately show "normal n \<Longrightarrow> normal (undisplayed n)"
    unfolding normal_def undisplayed_def by (simp add: list_all_iff)
qed

lemma configuration_undisplayed: "configuration_of (undisplayed n) = configuration_of n"
  by (simp add: configuration_of_def undisplayed_def comp_def)

text \<open>
  C20. The artifact of a revision is the revision: two snapshots have the same canonical bytes exactly
  when their normal forms agree in everything but the display names; whatever the decoder, bytes that
  are accepted are the canonical bytes of the accepted snapshot; and bytes that were produced by
  \<open>CanonicalSnapshot\<close>, within the size bound, are accepted and give the snapshot back, when the decoder
  reads back what was encoded.
\<close>

theorem canonical_artifact:
  assumes idem: "\<And>x. nfc (nfc x) = nfc x"
    and s: "CanonicalSnapshot nfc s = Inr b" "Normalize nfc s = Inr n" "length b \<le> 1048576"
    and s': "Normalize nfc s' = Inr n'"
    and decoder: "unmarshal b = Some (configuration_of n)"
  shows "(CanonicalSnapshot nfc s' = Inr b \<longleftrightarrow> undisplayed n' = undisplayed n)
    \<and> ParseCanonicalSnapshot nfc unmarshal b = Inr (undisplayed n)
    \<and> (\<forall>other x v. ParseCanonicalSnapshot nfc other x = Inr v \<longrightarrow> CanonicalSnapshot nfc v = Inr x)"
proof -
  note N = Normalize_stable [OF idem s(2)] and N' = Normalize_stable [OF idem s']
  have b: "b = jcs (configuration_json (configuration_of n))" using s by (simp add: CanonicalSnapshot_iff)
  have inj: "configuration_of n' = configuration_of n \<longleftrightarrow> undisplayed n' = undisplayed n"
    using snapshot_of_configuration [OF N(1)] snapshot_of_configuration [OF N'(1)] configuration_undisplayed by metis
  have "CanonicalSnapshot nfc s' = Inr b \<longleftrightarrow> configuration_json (configuration_of n') = configuration_json (configuration_of n)"
    using s' by (auto simp: CanonicalSnapshot_iff b jcs_injective configuration_ijson [OF N(1)] configuration_ijson [OF N'(1)])
  also have "\<dots> \<longleftrightarrow> undisplayed n' = undisplayed n"
    using inj configuration_json_inj configuration_of_valid [OF N(1)] configuration_of_valid [OF N'(1)] by metis
  finally have 1: "CanonicalSnapshot nfc s' = Inr b \<longleftrightarrow> undisplayed n' = undisplayed n" .
  have u: "Normalize nfc (undisplayed n) = Inr (undisplayed n)"
    using N by (intro Normalize_fixed undisplayed_normal) (simp_all add: undisplayed_def)
  then have "CanonicalSnapshot nfc (undisplayed n) = Inr b"
    by (simp add: CanonicalSnapshot_iff b configuration_undisplayed)
  moreover have "b \<noteq> []" by (simp add: b jcs_def configuration_ijson [OF N(1)]) (simp add: configuration_json_def)
  moreover have "cc_SchemaVersion (configuration_of n) = configurationSchemaVersion" by (simp add: configuration_of_def)
  ultimately have 2: "ParseCanonicalSnapshot nfc unmarshal b = Inr (undisplayed n)"
    using s(3) decoder u snapshot_of_configuration [OF N(1)] by (simp add: ParseCanonicalSnapshot_def)
  have 3: "CanonicalSnapshot nfc v = Inr x" if "ParseCanonicalSnapshot nfc other x = Inr v" for other x v
  proof -
    from that obtain c where "and_then (Normalize nfc (snapshot_of c)) (\<lambda>normalized.
        case CanonicalSnapshot nfc normalized of Inl _ \<Rightarrow> Inl CodeInvalidSnapshot
        | Inr recomputed \<Rightarrow> if x \<noteq> recomputed then Inl CodeInvalidSnapshot else Inr normalized) = Inr v"
      by (auto simp: ParseCanonicalSnapshot_def simp del: and_then_Inr_iff split: if_splits option.splits)
    then obtain m where "(case CanonicalSnapshot nfc m of Inl _ \<Rightarrow> Inl CodeInvalidSnapshot
        | Inr recomputed \<Rightarrow> if x \<noteq> recomputed then Inl CodeInvalidSnapshot else Inr m) = Inr v"
      by (elim and_then_Inr_iff [THEN iffD1, elim_format] exE conjE)
    then show ?thesis by (cases "CanonicalSnapshot nfc m") (simp_all split: if_splits)
  qed
  from 1 2 3 show ?thesis by blast
qed

section \<open>Concrete snapshots\<close>

definition example_snapshot :: snapshot where
  "example_snapshot = \<lparr>sn_OrganizationID = ''org-1'', sn_ID = ''ws-1'', sn_Revision = 1, sn_Name = ''N'', sn_Description = [],
     sn_Status = StatusActive, sn_OwnerPrincipalID = ''ann'', sn_RetentionPolicyID = [],
     sn_Members = [\<lparr>mb_PrincipalID = ''ann'', mb_Role = RoleOwner, mb_DisplayName = []\<rparr>,
                   \<lparr>mb_PrincipalID = ''bob'', mb_Role = RoleViewer, mb_DisplayName = ''B''\<rparr>],
     sn_SourceBindings = [\<lparr>sb_SourceScopeID = ''src'', sb_SourceScopeRevision = 3,
       sb_ScopeConfigHash = ''sha256:'' @ replicate 64 CHR ''a'', sb_Enabled = True\<rparr>],
     sn_Degraded = False, sn_DegradedReason = []\<rparr>"

lemma description_code [code]:
  "ws_validDescription v \<longleftrightarrow> int (rune_count v) \<le> 4096 \<and> valid_utf8 v \<and> \<not> hasControl v"
  by (simp add: ws_validDescription_def)

lemma example_normal: "normal example_snapshot"
  by code_simp

lemma example_normalize: "Normalize id example_snapshot = Inr example_snapshot"
  by (rule Normalize_fixed [OF example_normal]) simp_all

lemma example_archive: "NextArchived id example_snapshot
    = Inr (example_snapshot\<lparr>sn_Revision := 2, sn_Status := StatusArchived\<rparr>)"
proof -
  let ?t = "example_snapshot\<lparr>sn_Revision := 2, sn_Status := StatusArchived\<rparr>"
  have "normal ?t" by code_simp
  then have "Normalize id ?t = Inr ?t" by (rule Normalize_fixed) simp_all
  then show ?thesis
    by (simp add: NextArchived_def next_revision_def example_normalize) (simp add: example_snapshot_def maxIJSONInteger_def)
qed

theorem revisions_never_rebind_witness:
  "normal (example_snapshot\<lparr>sn_Revision := 2, sn_Status := StatusArchived\<rparr>)
   \<and> (\<exists>b'\<in>set (sn_SourceBindings (example_snapshot\<lparr>sn_Revision := 2, sn_Status := StatusArchived\<rparr>)).
        sameSourceBindingIdentity (sn_SourceBindings example_snapshot ! 0) b')"
proof -
  have "(evolves id ^^ 1) example_snapshot (example_snapshot\<lparr>sn_Revision := 2, sn_Status := StatusArchived\<rparr>)"
    unfolding relpowp_1 by (rule evolves.archived [OF example_archive])
  note r = revisions_never_rebind [OF example_normal this]
  have "sn_SourceBindings example_snapshot ! 0 \<in> set (sn_SourceBindings example_snapshot)"
    by (rule nth_mem) (simp add: example_snapshot_def)
  with r show ?thesis by blast
qed

theorem ownership_transfer_exact_witness:
  "NextOwnershipTransferred id example_snapshot ''bob'' = Inr (example_snapshot\<lparr>sn_Revision := 2, sn_OwnerPrincipalID := ''bob'',
     sn_Members := [\<lparr>mb_PrincipalID = ''ann'', mb_Role = RoleManager, mb_DisplayName = []\<rparr>,
                    \<lparr>mb_PrincipalID = ''bob'', mb_Role = RoleOwner, mb_DisplayName = ''B''\<rparr>]\<rparr>)"
  by (subst ownership_transfer_exact [OF _ example_normalize])
    (simp_all add: example_snapshot_def change_role_def maxIJSONInteger_def)

theorem membership_changes_exact_witness:
  "NextWithoutMember id example_snapshot ''bob'' = Inr (example_snapshot\<lparr>sn_Revision := 2,
     sn_Members := [\<lparr>mb_PrincipalID = ''ann'', mb_Role = RoleOwner, mb_DisplayName = []\<rparr>]\<rparr>)"
  by (subst membership_changes_exact [OF _ example_normalize, THEN conjunct2, THEN conjunct1])
    (simp_all add: example_snapshot_def maxIJSONInteger_def)

theorem canonical_artifact_witness:
  "\<exists>b. CanonicalSnapshot id example_snapshot = Inr b
     \<and> ParseCanonicalSnapshot id (\<lambda>x. if x = b then Some (configuration_of example_snapshot) else None) b
       = Inr (undisplayed example_snapshot)"
proof -
  let ?b = "jcs (configuration_json (configuration_of example_snapshot))"
  have c: "CanonicalSnapshot id example_snapshot = Inr ?b" by (simp add: CanonicalSnapshot_iff example_normalize)
  have "int (length ?b) \<le> 1048576" by code_simp
  then have l: "length ?b \<le> 1048576" by simp
  have "ParseCanonicalSnapshot id (\<lambda>x. if x = ?b then Some (configuration_of example_snapshot) else None) ?b
       = Inr (undisplayed example_snapshot)"
    using canonical_artifact [OF _ c example_normalize l example_normalize,
        where unmarshal = "\<lambda>x. if x = ?b then Some (configuration_of example_snapshot) else None"] by simp
  with c show ?thesis by blast
qed

end
