(* ===== verification/Go_Decimal.thy ===== *)
theory Go_Decimal
  imports Complex_Main Go_Strings
begin

text \<open>
  What the components use of \<open>math/big.Rat\<close>: canonical decimal strings read by \<open>SetString\<close> and
  printed by \<open>FloatString\<close>, which rounds half away from zero. The lemmas bound the rounding and show
  when printing is exact. Rationals are HOL's \<open>rat\<close>, printed through the normalized fraction
  \<open>quotient_of\<close>, as a \<open>big.Rat\<close> keeps it.
\<close>

section \<open>Reading\<close>

definition int_part :: "gostring \<Rightarrow> bool" where
  "int_part s \<longleftrightarrow> s = ''0'' \<or> (case s of [] \<Rightarrow> False | c # t \<Rightarrow> is_digit c \<and> c \<noteq> CHR ''0'' \<and> list_all is_digit t)"

definition unsigned :: "gostring \<Rightarrow> gostring" where
  "unsigned s = (case s of c # t \<Rightarrow> if c = CHR ''-'' then t else s | [] \<Rightarrow> [])"

definition negative :: "gostring \<Rightarrow> bool" where
  "negative s = has_prefix ''-'' s"

text \<open>The pattern \<open>^-?(?:0|[1-9][0-9]*)(?:\.[0-9]+)?$\<close>\<close>

definition decimalPattern :: "gostring \<Rightarrow> bool" where
  "decimalPattern s =
    (case cut_on CHR ''.'' (unsigned s) of
       (ip, fp, found) \<Rightarrow> int_part ip \<and> (\<not> found \<or> fp \<noteq> [] \<and> list_all is_digit fp))"

definition decimal_scale :: "gostring \<Rightarrow> nat" where
  "decimal_scale s = (case cut_on CHR ''.'' s of (_, fp, found) \<Rightarrow> if found then length fp else 0)"

definition decimal_value :: "gostring \<Rightarrow> rat" where
  "decimal_value s =
    (case cut_on CHR ''.'' (unsigned s) of
       (ip, fp, _) \<Rightarrow> (if negative s then -1 else 1) * of_nat (digits_val (ip @ fp)) / 10 ^ length fp)"

section \<open>Printing\<close>

definition pad_digits :: "nat \<Rightarrow> nat \<Rightarrow> gostring" where
  "pad_digits prec r = replicate (prec - length (nat_digits r)) CHR ''0'' @ nat_digits r"

definition round_parts :: "nat \<Rightarrow> nat \<Rightarrow> nat \<Rightarrow> nat \<times> nat" where
  "round_parts a b p =
    (let q = a div b; r = (a mod b) * p; r1 = r div b; r2 = r mod b in
     if b \<le> r2 + r2 then (if p \<le> r1 + 1 then (q + 1, r1 + 1 - p) else (q, r1 + 1)) else (q, r1))"

definition FloatString :: "rat \<Rightarrow> nat \<Rightarrow> gostring" where
  "FloatString x prec =
    (case quotient_of x of (a, b) \<Rightarrow>
       if b = 1 then itoa a @ (if prec > 0 then CHR ''.'' # replicate prec CHR ''0'' else [])
       else
         (case round_parts (nat \<bar>a\<bar>) (nat b) (10 ^ prec) of (q, r) \<Rightarrow>
            (if a < 0 then ''-'' else []) @ nat_digits q @ (if prec > 0 then CHR ''.'' # pad_digits prec r else [])))"

section \<open>Digits\<close>

lemma digits_val_append: "digits_val (s @ t) = digits_val s * 10 ^ length t + digits_val t"
proof (induction t rule: rev_induct)
  case (snoc c t)
  have "digits_val (s @ t @ [c]) = digits_val (s @ t) * 10 + digit_val c"
    using digits_val_snoc [of "s @ t" c] by simp
  with snoc show ?case by (simp add: digits_val_snoc algebra_simps)
qed (simp add: digits_val_def)

lemma digits_val_zeros [simp]: "digits_val (replicate n CHR ''0'') = 0"
  by (induction n) (simp_all add: digits_val_def digit_val_def)

lemma digits_val_Nil [simp]: "digits_val [] = 0"
  by (simp add: digits_val_def)

lemma length_nat_digits: "r < 10 ^ p \<Longrightarrow> 0 < p \<Longrightarrow> length (nat_digits r) \<le> p"
proof (induction r arbitrary: p rule: nat_digits.induct)
  case (1 r)
  show ?case
  proof (cases "r < 10")
    case True
    with 1(3) show ?thesis by (subst nat_digits.simps) simp
  next
    case False
    obtain k where k: "p = Suc k" using 1(3) by (cases p) auto
    have "0 < k" using False 1(2) k by (cases k) auto
    moreover have "r div 10 < 10 ^ k" using 1(2) k by (simp add: less_mult_imp_div_less)
    ultimately have "length (nat_digits (r div 10)) \<le> k" using 1(1) [OF False] by blast
    with False k show ?thesis by (subst nat_digits.simps) simp
  qed
qed

lemma pad_digits_val [simp]: "digits_val (pad_digits p r) = r"
  by (simp add: pad_digits_def digits_val_append)

lemma pad_digits_length: "r < 10 ^ p \<Longrightarrow> 0 < p \<Longrightarrow> length (pad_digits p r) = p"
  using length_nat_digits by (simp add: pad_digits_def)

lemma pad_digits_digits: "list_all is_digit (pad_digits p r)"
  by (simp add: pad_digits_def nat_digits_all_digits) (simp add: list_all_iff is_digit_def)

lemma nat_digits_int_part: "int_part (nat_digits n)"
proof (induction n rule: nat_digits.induct)
  case (1 n)
  show ?case
  proof (cases "n < 10")
    case True
    have "digit_char 0 = CHR ''0''" by code_simp
    moreover have "digit_char n \<noteq> CHR ''0''" if "n \<noteq> 0"
    proof
      assume "digit_char n = CHR ''0''"
      then have "digit_val (digit_char n) = digit_val CHR ''0''" by simp
      with True that show False by (simp add: digit_val_def)
    qed
    ultimately show ?thesis using True by (subst nat_digits.simps) (cases "n = 0", auto simp: int_part_def)
  next
    case False
    then have "nat_digits (n div 10) \<noteq> ''0''"
      using digits_val_nat_digits [of "n div 10"] by (auto simp: digits_val_def digit_val_def)
    with 1 [OF False] obtain c t where "nat_digits (n div 10) = c # t" "is_digit c" "c \<noteq> CHR ''0''" "list_all is_digit t"
      by (auto simp: int_part_def split: list.splits)
    with False show ?thesis by (subst nat_digits.simps) (auto simp: int_part_def)
  qed
qed

lemma digits_no_dot: "list_all is_digit s \<Longrightarrow> CHR ''.'' \<notin> set s"
  by (auto simp: list_all_iff is_digit_def)

lemma cut_on_none: "c \<notin> set s \<Longrightarrow> cut_on c s = (s, [], False)"
proof -
  assume c: "c \<notin> set s"
  then have "dropWhile (\<lambda>x. x \<noteq> c) s = []" "takeWhile (\<lambda>x. x \<noteq> c) s = s" by (auto simp: dropWhile_eq_Nil_conv takeWhile_eq_all_conv)
  then show "cut_on c s = (s, [], False)" using c by (simp add: cut_on_def del: dropWhile_eq_Nil_conv takeWhile_eq_all_conv)
qed

section \<open>Rounding\<close>

text \<open>The two parts are the nearest multiple of the last place.\<close>

lemma round_parts_spec:
  assumes b: "0 < b" and p: "0 < p" and r: "round_parts a b p = (q, r)"
  shows "r < p" and "2 * (q * p + r) * b \<le> 2 * a * p + b" and "2 * a * p \<le> 2 * (q * p + r) * b + b"
    and "b dvd a * p \<Longrightarrow> (q * p + r) * b = a * p"
proof -
  let ?q = "a div b" and ?m = "a mod b"
  let ?r1 = "(?m * p) div b" and ?r2 = "(?m * p) mod b"
  have a: "a * p = (?q * p + ?r1) * b + ?r2"
  proof -
    have "a * p = ?q * b * p + ?m * p" by (metis add_mult_distrib div_mult_mod_eq)
    also have "?m * p = ?r1 * b + ?r2" by simp
    finally show ?thesis by (simp add: algebra_simps)
  qed
  have m: "?m < b" "?r2 < b" using b by simp_all
  have r1: "?r1 < p" using m p by (simp add: less_mult_imp_div_less mult.commute)
  have cases: "(b \<le> ?r2 + ?r2 \<and> q * p + r = ?q * p + ?r1 + 1 \<and> r < p) \<or> (?r2 + ?r2 < b \<and> q * p + r = ?q * p + ?r1 \<and> r < p)"
    using r r1 p by (auto simp: round_parts_def Let_def split: if_splits)
  then show "r < p" by blast
  define v where "v = (q * p + r) * b"
  define w where "w = (?q * p + ?r1) * b"
  have N: "a * p = w + ?r2" using a by (simp add: w_def)
  have v: "b \<le> ?r2 + ?r2 \<and> v = w + b \<or> ?r2 + ?r2 < b \<and> v = w"
    using cases by (auto simp: v_def w_def)
  have two: "2 * (q * p + r) * b = 2 * v" "2 * a * p = 2 * (a * p)" by (simp_all add: v_def)
  from v show "2 * (q * p + r) * b \<le> 2 * a * p + b" unfolding two N by auto
  have dvd: "?r2 = 0" if "b dvd a * p"
  proof -
    have "(a * p) mod b = ?r2" unfolding a using m by (simp add: mod_mult_self3)
    with that show ?thesis by simp
  qed
  from v m show "2 * a * p \<le> 2 * (q * p + r) * b + b"
    unfolding two N by auto
  show "(q * p + r) * b = a * p" if "b dvd a * p"
    using v dvd [OF that] N b by (auto simp: v_def)
qed

lemma decimal_parts:
  assumes ip: "list_all is_digit ip" "ip \<noteq> []" and fp: "list_all is_digit fp"
    and s: "s = (if neg then ''-'' else []) @ ip @ (if fp \<noteq> [] then CHR ''.'' # fp else [])"
  shows "decimal_value s = (if neg then -1 else 1) * of_nat (digits_val (ip @ fp)) / 10 ^ length fp"
    and "decimalPattern s = int_part ip" and "decimal_scale s = length fp"
proof -
  obtain c t where c: "ip = c # t" "c \<noteq> CHR ''-''" using ip is_digit_not_sign by (cases ip) auto
  have u: "unsigned s = ip @ (if fp \<noteq> [] then CHR ''.'' # fp else [])" "negative s = neg"
    using c s by (auto simp: unsigned_def negative_def)
  have cut: "cut_on CHR ''.'' (ip @ (if fp \<noteq> [] then CHR ''.'' # fp else [])) = (ip, fp, fp \<noteq> [])"
    using digits_no_dot [OF ip(1)] by (cases fp) (simp_all add: cut_on_none cut_on_append)
  show "decimal_value s = (if neg then -1 else 1) * of_nat (digits_val (ip @ fp)) / 10 ^ length fp"
    by (simp add: decimal_value_def u cut)
  show "decimalPattern s = int_part ip" using fp by (simp add: decimalPattern_def u cut)
  have "CHR ''.'' \<notin> set ((if neg then ''-'' else []) @ ip)" using digits_no_dot [OF ip(1)] by simp
  then have "cut_on CHR ''.'' (pre @ (if fp \<noteq> [] then CHR ''.'' # fp else [])) = (pre, fp, fp \<noteq> [])"
    if "pre = (if neg then ''-'' else []) @ ip" for pre
    unfolding that by (cases fp) (simp_all only: cut_on_none cut_on_append simp_thms if_True if_False append_Nil2 list.distinct)
  from this [OF refl] have "cut_on CHR ''.'' s = ((if neg then ''-'' else []) @ ip, fp, fp \<noteq> [])"
    unfolding s by simp
  then show "decimal_scale s = length fp" by (simp add: decimal_scale_def)
qed

lemma FloatString_parts:
  assumes x: "quotient_of x = (a, b)" and r: "round_parts (nat \<bar>a\<bar>) (nat b) (10 ^ p) = (q, r)"
  shows "FloatString x p = (if a < 0 then ''-'' else []) @ nat_digits q @ (if p > 0 then CHR ''.'' # pad_digits p r else [])"
proof (cases "b = 1")
  case True
  have "round_parts A 1 P = (A, 0)" if "0 < P" for A P by (simp add: round_parts_def Let_def)
  with r True have qr: "q = nat \<bar>a\<bar>" "r = 0" by simp_all
  have zeros: "pad_digits p 0 = replicate p CHR ''0''" if "p > 0"
  proof -
    have "nat_digits 0 = replicate 1 CHR ''0''" by code_simp
    then show ?thesis using that by (simp add: pad_digits_def replicate_add [symmetric] del: replicate.simps)
  qed
  show ?thesis using x True qr zeros by (auto simp: FloatString_def itoa_def)
next
  case False
  then show ?thesis using x r by (simp add: FloatString_def)
qed

lemma FloatString_spec:
  shows "decimalPattern (FloatString x p)" and "decimal_scale (FloatString x p) = p"
    and "\<bar>decimal_value (FloatString x p) - x\<bar> \<le> 1 / (2 * 10 ^ p)"
    and "x * 10 ^ p \<in> \<int> \<Longrightarrow> decimal_value (FloatString x p) = x"
proof -
  obtain a b where x: "quotient_of x = (a, b)" by (cases "quotient_of x")
  have b: "0 < b" using x by (rule quotient_of_denom_pos)
  let ?P = "10 ^ p :: nat" and ?A = "nat \<bar>a\<bar>" and ?B = "nat b"
  obtain q r where r: "round_parts ?A ?B ?P = (q, r)" by (cases "round_parts ?A ?B ?P")
  have spec: "r < ?P" "2 * (q * ?P + r) * ?B \<le> 2 * ?A * ?P + ?B" "2 * ?A * ?P \<le> 2 * (q * ?P + r) * ?B + ?B"
    "?B dvd ?A * ?P \<Longrightarrow> (q * ?P + r) * ?B = ?A * ?P"
    using round_parts_spec [OF _ _ r] b by simp_all
  let ?fp = "if p > 0 then pad_digits p r else []"
  have fp: "length ?fp = p" "list_all is_digit ?fp" "digits_val (nat_digits q @ ?fp) = q * ?P + r"
    using pad_digits_length [OF spec(1)] pad_digits_digits spec(1) by (auto simp: digits_val_append)
  then have ne: "(?fp \<noteq> []) = (p > 0)" by auto
  have s: "FloatString x p = (if a < 0 then ''-'' else []) @ nat_digits q @ (if ?fp \<noteq> [] then CHR ''.'' # ?fp else [])"
    unfolding ne using FloatString_parts [OF x r] by simp
  note d = decimal_parts [OF nat_digits_all_digits nat_digits_nonempty fp(2) s]
  show "decimalPattern (FloatString x p)" using d(2) nat_digits_int_part by simp
  show "decimal_scale (FloatString x p) = p" using d(3) fp(1) by simp
  define M where "M = (of_nat (q * ?P + r) :: rat)"
  define A where "A = (of_nat ?A :: rat)"
  define B where "B = (of_nat ?B :: rat)"
  define P where "P = (10 ^ p :: rat)"
  have pos: "0 < B" "0 < P" using b by (simp_all add: B_def P_def)
  have val: "decimal_value (FloatString x p) = (if a < 0 then -1 else 1) * M / P"
    using d(1) fp by (simp add: M_def P_def)
  have xAB: "x = (if a < 0 then -1 else 1) * A / B"
    using quotient_of_div [OF x] b by (simp add: A_def B_def)
  have bounds: "2 * M * B \<le> 2 * A * P + B" "2 * A * P \<le> 2 * M * B + B"
  proof -
    have "(of_nat (2 * (q * ?P + r) * ?B) :: rat) \<le> of_nat (2 * ?A * ?P + ?B)" using spec(2) by (simp only: of_nat_le_iff)
    then show "2 * M * B \<le> 2 * A * P + B" by (simp add: M_def A_def B_def P_def)
    have "(of_nat (2 * ?A * ?P) :: rat) \<le> of_nat (2 * (q * ?P + r) * ?B + ?B)" using spec(3) by (simp only: of_nat_le_iff)
    then show "2 * A * P \<le> 2 * M * B + B" by (simp add: M_def A_def B_def P_def)
  qed
  have diff: "\<bar>M / P - A / B\<bar> \<le> 1 / (2 * P)"
  proof -
    have "M / P - A / B = (2 * M * B - 2 * A * P) / (2 * P * B)" using pos by (simp add: field_simps)
    moreover have "\<bar>2 * M * B - 2 * A * P\<bar> \<le> B" using bounds by linarith
    ultimately have "\<bar>M / P - A / B\<bar> \<le> B / (2 * P * B)"
      using pos divide_right_mono [of "\<bar>2 * M * B - 2 * A * P\<bar>" B "2 * P * B"] by (simp only: abs_divide) (simp add: abs_mult)
    then show ?thesis using pos by simp
  qed
  show "\<bar>decimal_value (FloatString x p) - x\<bar> \<le> 1 / (2 * 10 ^ p)"
    using diff unfolding val unfolding xAB P_def [symmetric] by (cases "a < 0") (simp_all add: abs_minus_commute)
  show "decimal_value (FloatString x p) = x" if int: "x * 10 ^ p \<in> \<int>"
  proof -
    from int obtain z where z: "x * 10 ^ p = of_int z" by (auto elim: Ints_cases)
    have "x = of_int a / of_int b" by (rule quotient_of_div [OF x])
    with z b have "(of_int (a * 10 ^ p) :: rat) = of_int (z * b)" by (simp add: field_simps)
    then have "a * 10 ^ p = z * b" by (simp only: of_int_eq_iff)
    then have "b dvd a * 10 ^ p" by simp
    then have "nat \<bar>b\<bar> dvd nat \<bar>a * 10 ^ p\<bar>" by (simp add: nat_dvd_iff)
    then have "?B dvd ?A * ?P" using b by (simp add: abs_mult nat_mult_distrib nat_power_eq)
    from spec(4) [OF this] have "(of_nat ((q * ?P + r) * ?B) :: rat) = of_nat (?A * ?P)" by (rule arg_cong)
    then have "M * B = A * P" by (simp add: M_def A_def B_def P_def)
    then have "M / P = A / B" using pos by (simp add: field_simps)
    then show ?thesis unfolding val unfolding xAB by simp
  qed
qed

end
