(* ===== verification/Aggregate.thy ===== *)
theory Aggregate
  imports Go_Decimal Go_Sort "HOL-Library.Product_Lexorder"
begin

text \<open>
  \<open>internal/analytic/aggregate.go\<close> with the filter validation of \<open>internal/planner/planner.go\<close>: the
  reducer of authorized evidence cells. The order in which Go iterates over its maps is an argument:
  \<open>ag_rows\<close> and \<open>ag_cols\<close> of the environment permute the rows and the columns. Unicode case mapping is
  \<open>ag_lower\<close> and case folding \<open>ag_fold\<close>. The lemmas show that the buckets are the exact aggregates of
  their groups, that each is backed by exactly its evidence, and that no successful result depends on
  the iteration order.
\<close>

section \<open>Data\<close>

datatype aggregate_error = CodeInvalidRequest | CodeUnsupported | CodeIncomplete | CodeConflict | ErrInvalidQuestion

record evidence =
  ev_ID :: gostring
  ev_SourceObjectID :: gostring
  ev_SourceVersionID :: gostring
  ev_ExtractionID :: gostring
  ev_TextHash :: gostring
  ev_AnchorHash :: gostring
  ev_ContentHash :: gostring

record cell =
  cl_Evidence :: evidence
  cl_RowKey :: gostring
  cl_Column :: gostring
  cl_Value :: gostring
  cl_Numeric :: bool

record query_filter =
  fl_Name :: gostring
  fl_Value :: gostring

record aggregate_spec =
  as_Function :: gostring
  as_Metric :: gostring
  as_GroupBy :: "gostring list"
  as_Order :: gostring
  as_Limit :: int

record aggregate_request =
  rq_WorkspaceID :: gostring
  rq_PlanHash :: gostring
  rq_Spec :: aggregate_spec
  rq_Filters :: "query_filter list"
  rq_Cells :: "cell list"

text \<open>\<open>EvidenceRef\<close> has the fields of \<open>Evidence\<close>; it is its own type in the code.\<close>

record evidence_ref =
  er_ID :: gostring
  er_SourceObjectID :: gostring
  er_SourceVersionID :: gostring
  er_ExtractionID :: gostring
  er_TextHash :: gostring
  er_AnchorHash :: gostring
  er_ContentHash :: gostring

record bucket =
  bu_Key :: gostring
  bu_Value :: gostring
  bu_Count :: int
  bu_Evidence :: "evidence_ref list"
  bu_GroupValues :: "gostring list"
  bu_GroupEvidence :: "evidence_ref list"
  bu_FilterEvidence :: "evidence_ref list"

record aggregate_result =
  ar_Function :: gostring
  ar_Metric :: gostring
  ar_GroupBy :: "gostring list"
  ar_Order :: gostring
  ar_Buckets :: "bucket list"

type_synonym row = "gostring \<times> cell list"

record text_env =
  ag_lower :: "gostring \<Rightarrow> gostring"
  ag_fold :: "gostring \<Rightarrow> gostring \<Rightarrow> bool"
  ag_rows :: "row list \<Rightarrow> row list"
  ag_cols :: "gostring list \<Rightarrow> gostring list"

definition maximumCells :: nat where
  "maximumCells = 256"

definition maximumBuckets :: nat where
  "maximumBuckets = 128"

definition maximumGroupDimensions :: nat where
  "maximumGroupDimensions = 4"

section \<open>Validators\<close>

definition ag_validOpaque :: "gostring \<Rightarrow> bool" where
  "ag_validOpaque v \<longleftrightarrow> v \<noteq> [] \<and> length v \<le> 256 \<and> valid_utf8 v \<and> trim_space v = v
     \<and> \<not> contains_any v [CHR 0x0D, CHR 0x0A, CHR 0x00]"

text \<open>The pattern \<open>^hmac-sha256:k[1-9][0-9]{0,8}:[0-9a-f]{64}$\<close>\<close>

definition hmacDigestPattern :: "gostring \<Rightarrow> bool" where
  "hmacDigestPattern v \<longleftrightarrow> has_prefix ''hmac-sha256:k'' v \<and>
     (case cut_on CHR '':'' (drop 13 v) of
        (n, h, found) \<Rightarrow> found \<and> n \<noteq> [] \<and> hd n \<noteq> CHR ''0'' \<and> list_all is_digit n \<and> length n \<le> 9
          \<and> length h = 64 \<and> list_all is_hex h)"

definition ag_validDigest :: "gostring \<Rightarrow> bool" where
  "ag_validDigest v =
    (if hmacDigestPattern v then True
     else if length v \<noteq> length ''sha256:'' + 64 \<or> \<not> has_prefix ''sha256:'' v then False
     else list_all (\<lambda>c. 48 \<le> c \<and> c \<le> 57 \<or> 97 \<le> c \<and> c \<le> 102) (runes (drop (length ''sha256:'') v)))"

definition validKeyedDigest :: "gostring \<Rightarrow> bool" where
  "validKeyedDigest v = hmacDigestPattern v"

definition validEvidence :: "evidence \<Rightarrow> bool" where
  "validEvidence v \<longleftrightarrow> ag_validOpaque (ev_ID v) \<and> ag_validOpaque (ev_SourceObjectID v)
     \<and> ag_validOpaque (ev_SourceVersionID v) \<and> ag_validOpaque (ev_ExtractionID v)
     \<and> ag_validDigest (ev_ContentHash v) \<and> validKeyedDigest (ev_TextHash v) \<and> validKeyedDigest (ev_AnchorHash v)"

definition validCell :: "cell \<Rightarrow> bool" where
  "validCell c =
    (if \<not> validEvidence (cl_Evidence c) \<or> \<not> ag_validOpaque (cl_RowKey c) \<or> \<not> ag_validOpaque (cl_Column c)
        \<or> \<not> ag_validOpaque (cl_Value c) then False
     else if cl_Numeric c \<and> \<not> decimalPattern (cl_Value c) then False else True)"

definition aggregateTermIdentity :: "text_env \<Rightarrow> gostring \<Rightarrow> gostring" where
  "aggregateTermIdentity e raw =
    (let v = trim_space raw in
     if CHR ''['' \<in> set v
     then ag_lower e (takeWhile (\<lambda>c. c \<noteq> CHR ''['') v) @ dropWhile (\<lambda>c. c \<noteq> CHR ''['') v
     else ag_lower e v)"

definition aggregateTermsEqual :: "text_env \<Rightarrow> gostring \<Rightarrow> gostring \<Rightarrow> bool" where
  "aggregateTermsEqual e l r \<longleftrightarrow> aggregateTermIdentity e l = aggregateTermIdentity e r"

text \<open>The loop over the group terms, with the identities seen.\<close>

fun groups_loop :: "text_env \<Rightarrow> gostring list \<Rightarrow> gostring list \<Rightarrow> bool" where
  "groups_loop e seen [] = True"
| "groups_loop e seen (term # rest) =
    (if term = [] \<or> aggregateTermIdentity e term \<in> set seen then False
     else groups_loop e (aggregateTermIdentity e term # seen) rest)"

definition validateSpec :: "text_env \<Rightarrow> aggregate_spec \<Rightarrow> aggregate_error option" where
  "validateSpec e spec =
    (if as_Function spec \<notin> {''SUM'', ''COUNT'', ''AVG'', ''MIN'', ''MAX''} then Some CodeUnsupported
     else if as_Limit spec < 0 \<or> (as_Order spec \<noteq> [] \<and> as_Order spec \<noteq> ''ASC'' \<and> as_Order spec \<noteq> ''DESC'')
             \<or> length (as_GroupBy spec) > maximumGroupDimensions then Some CodeInvalidRequest
     else if \<not> groups_loop e [] (as_GroupBy spec) then Some CodeInvalidRequest
     else if list_ex (\<lambda>term. term \<noteq> [] \<and> \<not> ag_validOpaque term) (as_GroupBy spec @ [as_Metric spec])
     then Some CodeInvalidRequest else None)"

subsection \<open>The filters of the planner\<close>

text \<open>\<open>parseDateToken\<close>: \<open>time.Date\<close> normalizes a date that does not exist to another one, so the
  comparison of its fields accepts exactly the dates of the Gregorian calendar.\<close>

definition leap_year :: "int \<Rightarrow> bool" where
  "leap_year y \<longleftrightarrow> 4 dvd y \<and> (\<not> 100 dvd y \<or> 400 dvd y)"

definition days_in_month :: "int \<Rightarrow> int \<Rightarrow> int" where
  "days_in_month y m =
    (if m = 2 then (if leap_year y then 29 else 28) else if m \<in> {4, 6, 9, 11} then 30 else 31)"

definition parseDateToken :: "gostring \<Rightarrow> (int \<times> int \<times> int) option" where
  "parseDateToken v =
    (case split_on CHR ''-'' v of
       [a, b, c] \<Rightarrow>
         if length a \<noteq> 4 \<or> (length b \<noteq> 1 \<and> length b \<noteq> 2) \<or> (length c \<noteq> 1 \<and> length c \<noteq> 2) then None
         else (case (atoi a, atoi b, atoi c) of
                 (Some year, Some month, Some day) \<Rightarrow>
                   if year < 1 \<or> year > 9999 then None
                   else if 1 \<le> month \<and> month \<le> 12 \<and> 1 \<le> day \<and> day \<le> days_in_month year month
                   then Some (year, month, day) else None
               | _ \<Rightarrow> None)
     | _ \<Rightarrow> None)"

text \<open>The pattern of a field: an identifier of at most 63 characters, then possibly a JSON pointer in
  brackets. The text is valid UTF-8 or not; a rune of the pointer is no control character.\<close>

definition word_char :: "char \<Rightarrow> bool" where
  "word_char c \<longleftrightarrow> is_digit c \<or> 65 \<le> byte c \<and> byte c \<le> 90 \<or> 97 \<le> byte c \<and> byte c \<le> 122 \<or> c = CHR ''_''"

definition filterFieldPattern :: "gostring \<Rightarrow> bool" where
  "filterFieldPattern s =
    (case cut_on CHR ''['' s of
       (name, pointer, found) \<Rightarrow>
         name \<noteq> [] \<and> length name \<le> 63 \<and> word_char (hd name) \<and> \<not> is_digit (hd name)
         \<and> list_all (\<lambda>c. word_char c \<or> c = CHR ''$'') (tl name)
         \<and> (\<not> found \<or> has_prefix ''/'' pointer \<and> has_suffix '']'' pointer \<and> length pointer \<ge> 2
              \<and> list_all (\<lambda>c. \<not> (c \<le> 0x1F \<or> 0x7F \<le> c \<and> c \<le> 0x9F)) (runes pointer)))"

definition cyrillic_periods :: "gostring list" where
  "cyrillic_periods =
    [map char_of [209::nat, 129, 208, 181, 208, 179, 208, 190, 208, 180, 208, 189, 209, 143],
     map char_of [208::nat, 178, 209, 135, 208, 181, 209, 128, 208, 176],
     map char_of [208::nat, 188, 208, 181, 209, 129, 209, 143, 209, 134],
     map char_of [208::nat, 189, 208, 181, 208, 180, 208, 181, 208, 187, 209, 143],
     map char_of [208::nat, 179, 208, 190, 208, 180]]"

definition validFilter :: "text_env \<Rightarrow> query_filter \<Rightarrow> bool" where
  "validFilter e f =
    (if fl_Name f = [] \<or> fl_Value f = [] \<or> length (fl_Name f) > 128 \<or> length (fl_Value f) > 256
        \<or> trim_space (fl_Name f) \<noteq> fl_Name f \<or> trim_space (fl_Value f) \<noteq> fl_Value f
        \<or> contains_any (fl_Name f @ fl_Value f) [CHR 0x0D, CHR 0x0A, CHR 0x00] then False
     else if fl_Name f = ''time_period''
     then ag_lower e (fl_Value f) \<in> set ([''today'', ''yesterday'', ''month'', ''week'', ''year''] @ cyrillic_periods)
     else if fl_Name f = ''time_range'' then
       (case split_on CHR ''/'' (fl_Value f) of
          [a, b] \<Rightarrow>
            if length a \<noteq> 10 \<or> length b \<noteq> 10 then False
            else (case (parseDateToken a, parseDateToken b) of
                    (Some start, Some finish) \<Rightarrow> start < finish
                  | _ \<Rightarrow> False)
        | _ \<Rightarrow> False)
     else if fl_Name f = ''time_window'' then
       (if \<not> has_prefix ''last_days:'' (fl_Value f) then False
        else case atoi (drop (length ''last_days:'') (fl_Value f)) of
               None \<Rightarrow> False | Some days \<Rightarrow> 1 \<le> days \<and> days \<le> 366)
     else if fl_Name f = ''condition'' then fl_Value f = ''overdue''
     else if \<not> has_prefix ''equals:'' (fl_Name f) then False
     else filterFieldPattern (drop (length ''equals:'') (fl_Name f)))"

definition ValidateFilters :: "text_env \<Rightarrow> query_filter list \<Rightarrow> bool" where
  "ValidateFilters e filters \<longleftrightarrow> length filters \<le> 32 \<and> list_all (validFilter e) filters"

section \<open>Selection\<close>

definition evidenceRef :: "evidence \<Rightarrow> evidence_ref" where
  "evidenceRef v = \<lparr>er_ID = ev_ID v, er_SourceObjectID = ev_SourceObjectID v, er_SourceVersionID = ev_SourceVersionID v,
     er_ExtractionID = ev_ExtractionID v, er_TextHash = ev_TextHash v, er_AnchorHash = ev_AnchorHash v,
     er_ContentHash = ev_ContentHash v\<rparr>"

text \<open>The map of the rows is an association list in the order of insertion.\<close>

fun add_cell :: "cell \<Rightarrow> row list \<Rightarrow> row list" where
  "add_cell c [] = [(cl_RowKey c, [c])]"
| "add_cell c ((key, cells) # rows) =
    (if key = cl_RowKey c then (key, cells @ [c]) # rows else (key, cells) # add_cell c rows)"

fun collect_rows :: "gostring list \<Rightarrow> row list \<Rightarrow> cell list \<Rightarrow> aggregate_error + row list" where
  "collect_rows seen rows [] = Inr rows"
| "collect_rows seen rows (c # cs) =
    (if \<not> validCell c then Inl CodeInvalidRequest
     else if ev_ID (cl_Evidence c) \<in> set seen then Inl CodeConflict
     else collect_rows (ev_ID (cl_Evidence c) # seen) (add_cell c rows) cs)"

definition filter_matches :: "text_env \<Rightarrow> query_filter \<Rightarrow> cell \<Rightarrow> bool" where
  "filter_matches e f c \<longleftrightarrow> aggregateTermsEqual e (cl_Column c) (drop (length ''equals:'') (fl_Name f))
     \<and> ag_fold e (cl_Value c) (fl_Value f)"

fun applyFilters :: "text_env \<Rightarrow> row list \<Rightarrow> query_filter list \<Rightarrow> row list" where
  "applyFilters e rows [] = rows"
| "applyFilters e rows (f # fs) =
    (if \<not> has_prefix ''equals:'' (fl_Name f) then applyFilters e rows fs
     else applyFilters e (filter (\<lambda>r. list_ex (filter_matches e f) (snd r)) rows) fs)"

text \<open>The column sets, in the order of insertion; a range over one follows \<open>ag_cols\<close>.\<close>

definition numeric_columns :: "text_env \<Rightarrow> row list \<Rightarrow> gostring list" where
  "numeric_columns e rows = remdups (map (\<lambda>c. aggregateTermIdentity e (cl_Column c)) (filter cl_Numeric (concat (map snd rows))))"

definition non_numeric_columns :: "text_env \<Rightarrow> row list \<Rightarrow> gostring list" where
  "non_numeric_columns e rows =
     remdups (map (\<lambda>c. aggregateTermIdentity e (cl_Column c)) (filter (\<lambda>c. \<not> cl_Numeric c) (concat (map snd rows))))"

definition chooseColumn :: "text_env \<Rightarrow> gostring \<Rightarrow> gostring list \<Rightarrow> gostring" where
  "chooseColumn e requested columns =
    (if requested \<noteq> [] then
       (case find (\<lambda>column. aggregateTermsEqual e column requested) (ag_cols e columns) of
          Some column \<Rightarrow> column
        | None \<Rightarrow> if length columns = 1 then hd (ag_cols e columns) else [])
     else if length columns \<noteq> 1 then [] else hd (ag_cols e columns))"

definition cyrillic_data :: gostring where
  "cyrillic_data = map char_of [208::nat, 180, 208, 176, 209, 130, 208, 176]"

definition cyrillic_vremya :: gostring where
  "cyrillic_vremya = map char_of [208::nat, 178, 209, 128, 208, 181, 208, 188, 209, 143]"

definition temporalColumn :: "text_env \<Rightarrow> gostring \<Rightarrow> bool" where
  "temporalColumn e column =
    (let l = ag_lower e column in contains_str ''date'' l \<or> contains_str ''time'' l \<or> contains_str ''timestamp'' l
       \<or> contains_str cyrillic_data l \<or> contains_str cyrillic_vremya l \<or> has_suffix ''_at'' l \<or> has_suffix ''_on'' l)"

text \<open>The fallback for one requested dimension: the only column that is not temporal.\<close>

definition group_fallback :: "text_env \<Rightarrow> gostring list \<Rightarrow> gostring" where
  "group_fallback e columns =
    (case filter (\<lambda>column. \<not> temporalColumn e column) (ag_cols e columns) of [column] \<Rightarrow> column | _ \<Rightarrow> [])"

fun group_columns_loop :: "text_env \<Rightarrow> bool \<Rightarrow> gostring list \<Rightarrow> gostring list \<Rightarrow> gostring list option" where
  "group_columns_loop e single columns [] = Some []"
| "group_columns_loop e single columns (term # rest) =
    (let found = (case find (\<lambda>column. aggregateTermsEqual e column term) (ag_cols e columns) of Some c \<Rightarrow> c | None \<Rightarrow> []);
         match = (if found \<noteq> [] then found else if \<not> single then [] else group_fallback e columns) in
     if match = [] then None
     else map_option ((#) match) (group_columns_loop e single columns rest))"

definition chooseGroupColumns :: "text_env \<Rightarrow> gostring list \<Rightarrow> gostring list \<Rightarrow> gostring list" where
  "chooseGroupColumns e requested columns =
    (if requested = [] then []
     else case group_columns_loop e (length requested = 1) columns requested of None \<Rightarrow> [] | Some groups \<Rightarrow> groups)"

definition compositeGroupKey :: "gostring list \<Rightarrow> gostring" where
  "compositeGroupKey vs = concat (map (\<lambda>v. itoa (int (length v)) @ '':'' @ v @ ''|'') vs)"

definition compositeGroupLabel :: "gostring list \<Rightarrow> gostring" where
  "compositeGroupLabel vs = (case vs of [] \<Rightarrow> ''__all__'' | [v] \<Rightarrow> v | _ \<Rightarrow> join_with '' / '' vs)"

section \<open>Reduction\<close>

definition decimal :: "gostring \<Rightarrow> aggregate_error + rat" where
  "decimal v = (if \<not> decimalPattern v then Inl CodeInvalidRequest else Inr (decimal_value v))"

definition decimalScale :: "gostring \<Rightarrow> nat" where
  "decimalScale v = decimal_scale v"

fun strip_factor :: "nat \<Rightarrow> nat \<Rightarrow> nat \<times> nat" where
  "strip_factor k d =
    (if 1 < k \<and> 0 < d \<and> d mod k = 0 then (case strip_factor k (d div k) of (rest, n) \<Rightarrow> (rest, n + 1)) else (d, 0))"

declare strip_factor.simps [simp del]

definition terminatingDecimalScale :: "rat \<Rightarrow> nat option" where
  "terminatingDecimalScale v =
    (let denominator = nat (snd (quotient_of v)) in
     case strip_factor 2 denominator of (d2, twos) \<Rightarrow>
     case strip_factor 5 d2 of (d5, fives) \<Rightarrow>
       if d5 \<noteq> 1 then None else if twos > fives then Some twos else Some fives)"

record aggregate_bucket =
  ab_key :: gostring
  ab_value :: rat
  ab_count :: int
  ab_scale :: nat
  ab_evidence :: "evidence_ref list"
  ab_groupValues :: "gostring list"
  ab_groupEvidence :: "evidence_ref list"
  ab_filterEvidence :: "evidence_ref list"

text \<open>One row: the value and the evidence of every group column, and the cells of the metric. A group
  column not found yet is \<open>None\<close>.\<close>

fun group_cell :: "text_env \<Rightarrow> gostring list \<Rightarrow> (gostring \<times> evidence_ref) option list \<Rightarrow> cell
    \<Rightarrow> aggregate_error + (gostring \<times> evidence_ref) option list" where
  "group_cell e (g # gs) (a # as) c =
    (if \<not> aggregateTermsEqual e (cl_Column c) g then and_then (group_cell e gs as c) (\<lambda>r. Inr (a # r))
     else case a of
            Some (v, _) \<Rightarrow>
              if v \<noteq> cl_Value c then Inl CodeConflict
              else and_then (group_cell e gs as c) (\<lambda>r. Inr (Some (cl_Value c, evidenceRef (cl_Evidence c)) # r))
          | None \<Rightarrow> and_then (group_cell e gs as c) (\<lambda>r. Inr (Some (cl_Value c, evidenceRef (cl_Evidence c)) # r)))"
| "group_cell e _ _ c = Inr []"

fun scan_row :: "text_env \<Rightarrow> gostring list \<Rightarrow> gostring \<Rightarrow> (gostring \<times> evidence_ref) option list \<Rightarrow> cell list \<Rightarrow> cell list
    \<Rightarrow> aggregate_error + ((gostring \<times> evidence_ref) option list \<times> cell list)" where
  "scan_row e groups metric found numbers [] = Inr (found, numbers)"
| "scan_row e groups metric found numbers (c # cs) =
    (let numbers' = (if cl_Numeric c \<and> aggregateTermsEqual e (cl_Column c) metric then numbers @ [c] else numbers) in
     if \<not> cl_Numeric c
     then and_then (group_cell e groups found c) (\<lambda>found'. scan_row e groups metric found' numbers' cs)
     else scan_row e groups metric found numbers' cs)"

definition row_info :: "text_env \<Rightarrow> gostring list \<Rightarrow> gostring \<Rightarrow> bool \<Rightarrow> cell list
    \<Rightarrow> aggregate_error + ((gostring \<times> evidence_ref) list \<times> cell list)" where
  "row_info e groups metric countRows cells =
    and_then (scan_row e groups metric (replicate (length groups) None) [] cells) (\<lambda>(found, numbers).
      if \<not> countRows \<and> numbers = [] then Inl CodeIncomplete
      else if list_ex (\<lambda>a. case a of None \<Rightarrow> True | Some (v, _) \<Rightarrow> v = []) found then Inl CodeIncomplete
      else Inr (map the found, numbers))"

definition appendFilterEvidence :: "text_env \<Rightarrow> evidence_ref list \<Rightarrow> cell list \<Rightarrow> query_filter list \<Rightarrow> evidence_ref list" where
  "appendFilterEvidence e existing cells filters =
    foldl (\<lambda>refs (f, c).
        if \<not> filter_matches e f c then refs
        else if er_ID (evidenceRef (cl_Evidence c)) \<in> er_ID ` set refs then refs
        else refs @ [evidenceRef (cl_Evidence c)])
      existing (List.product (filter (\<lambda>f. has_prefix ''equals:'' (fl_Name f)) filters) cells)"

definition smaller_ref :: "evidence_ref \<Rightarrow> evidence_ref \<Rightarrow> evidence_ref" where
  "smaller_ref old ref = (if er_ID ref \<noteq> [] \<and> (er_ID old = [] \<or> er_ID ref < er_ID old) then ref else old)"

fun add_numbers :: "cell list \<Rightarrow> aggregate_bucket \<Rightarrow> aggregate_error + aggregate_bucket" where
  "add_numbers [] b = Inr b"
| "add_numbers (c # cs) b =
    and_then (decimal (cl_Value c)) (\<lambda>v.
      add_numbers cs (b\<lparr>ab_value := ab_value b + v, ab_count := ab_count b + 1,
        ab_scale := max (ab_scale b) (decimalScale (cl_Value c)),
        ab_evidence := ab_evidence b @ [evidenceRef (cl_Evidence c)]\<rparr>))"

definition add_row :: "text_env \<Rightarrow> query_filter list \<Rightarrow> bool \<Rightarrow> cell list \<Rightarrow> cell list \<Rightarrow> aggregate_bucket
    \<Rightarrow> aggregate_error + aggregate_bucket" where
  "add_row e filters countRows cells numbers b =
    (if countRows then
       (let witness = sort_key (\<lambda>c. ev_ID (cl_Evidence c)) cells in
        Inr (b\<lparr>ab_count := ab_count b + 1, ab_evidence := ab_evidence b @ [evidenceRef (cl_Evidence (witness ! 0))],
               ab_filterEvidence := appendFilterEvidence e (ab_filterEvidence b) cells filters\<rparr>))
     else
       and_then (add_numbers numbers b) (\<lambda>b'.
         Inr (b'\<lparr>ab_filterEvidence := appendFilterEvidence e (ab_filterEvidence b') cells filters\<rparr>)))"

definition new_bucket :: "gostring \<Rightarrow> (gostring \<times> evidence_ref) list \<Rightarrow> aggregate_bucket" where
  "new_bucket key groups = \<lparr>ab_key = key, ab_value = 0, ab_count = 0, ab_scale = 0, ab_evidence = [],
     ab_groupValues = map fst groups, ab_groupEvidence = map snd groups, ab_filterEvidence = []\<rparr>"

definition bucket_key :: "gostring list \<Rightarrow> (gostring \<times> evidence_ref) list \<Rightarrow> gostring" where
  "bucket_key groups info = (if groups \<noteq> [] then compositeGroupKey (map fst info) else ''__all__'')"

text \<open>The buckets are a list with one entry per key; an existing bucket takes the smaller evidence of
  each dimension.\<close>

fun merge_bucket :: "gostring \<Rightarrow> (aggregate_bucket option \<Rightarrow> aggregate_error + aggregate_bucket) \<Rightarrow> aggregate_bucket list
    \<Rightarrow> aggregate_error + aggregate_bucket list" where
  "merge_bucket key f [] = and_then (f None) (\<lambda>b. Inr [b])"
| "merge_bucket key f (b # bs) =
    (if ab_key b = key then and_then (f (Some b)) (\<lambda>b'. Inr (b' # bs))
     else and_then (merge_bucket key f bs) (\<lambda>bs'. Inr (b # bs')))"

definition merge_row :: "text_env \<Rightarrow> query_filter list \<Rightarrow> gostring list \<Rightarrow> gostring \<Rightarrow> bool \<Rightarrow> cell list \<Rightarrow> aggregate_bucket list
    \<Rightarrow> aggregate_error + aggregate_bucket list" where
  "merge_row e filters groups metric countRows cells buckets =
    and_then (row_info e groups metric countRows cells) (\<lambda>(info, numbers).
      if bucket_key groups info \<notin> ab_key ` set buckets \<and> length buckets \<ge> maximumBuckets then Inl CodeIncomplete
      else
        merge_bucket (bucket_key groups info)
          (\<lambda>old. add_row e filters countRows cells numbers
             (case old of
                None \<Rightarrow> new_bucket (bucket_key groups info) info
              | Some b \<Rightarrow> b\<lparr>ab_groupEvidence := map2 smaller_ref (ab_groupEvidence b) (map snd info)\<rparr>)) buckets)"

fun merge_rows :: "text_env \<Rightarrow> query_filter list \<Rightarrow> gostring list \<Rightarrow> gostring \<Rightarrow> bool \<Rightarrow> row list \<Rightarrow> aggregate_bucket list
    \<Rightarrow> aggregate_error + aggregate_bucket list" where
  "merge_rows e filters groups metric countRows [] buckets = Inr buckets"
| "merge_rows e filters groups metric countRows (r # rs) buckets =
    and_then (merge_row e filters groups metric countRows (snd r) buckets)
      (merge_rows e filters groups metric countRows rs)"

text \<open>\<open>chooseExtremum\<close> looks the cells of the evidence up among all cells of the request.\<close>

definition extremum_step :: "text_env \<Rightarrow> gostring \<Rightarrow> gostring \<Rightarrow> evidence_ref \<Rightarrow> cell \<Rightarrow> rat option \<Rightarrow> aggregate_error + rat option" where
  "extremum_step e function metric ref c chosen =
    (if ev_ID (cl_Evidence c) \<noteq> er_ID ref \<or> \<not> cl_Numeric c \<or> \<not> aggregateTermsEqual e (cl_Column c) metric then Inr chosen
     else and_then (decimal (cl_Value c)) (\<lambda>v.
       case chosen of
         None \<Rightarrow> Inr (Some v)
       | Some w \<Rightarrow> if function = ''MIN'' \<and> v < w \<or> function = ''MAX'' \<and> v > w then Inr (Some v) else Inr (Some w)))"

fun extremum_loop :: "text_env \<Rightarrow> gostring \<Rightarrow> gostring \<Rightarrow> (evidence_ref \<times> cell) list \<Rightarrow> rat option \<Rightarrow> aggregate_error + rat option" where
  "extremum_loop e function metric [] chosen = Inr chosen"
| "extremum_loop e function metric ((ref, c) # ps) chosen =
    and_then (extremum_step e function metric ref c chosen) (extremum_loop e function metric ps)"

definition chooseExtremum :: "text_env \<Rightarrow> evidence_ref list \<Rightarrow> cell list \<Rightarrow> gostring \<Rightarrow> gostring \<Rightarrow> aggregate_error + rat" where
  "chooseExtremum e refs cells function metric =
    and_then (extremum_loop e function metric (List.product refs cells) None) (\<lambda>chosen.
      case chosen of None \<Rightarrow> Inl CodeIncomplete | Some v \<Rightarrow> Inr v)"

definition finish_bucket :: "text_env \<Rightarrow> gostring \<Rightarrow> gostring \<Rightarrow> cell list \<Rightarrow> aggregate_bucket \<Rightarrow> aggregate_error + aggregate_bucket" where
  "finish_bucket e function metric cells b =
    (if function = ''COUNT'' then Inr (b\<lparr>ab_value := of_int (ab_count b), ab_scale := 0\<rparr>)
     else if function = ''AVG'' then
       (let v = ab_value b / of_int (ab_count b) in
        Inr (b\<lparr>ab_value := v,
               ab_scale := (case terminatingDecimalScale v of
                              Some exact \<Rightarrow> max (ab_scale b) exact
                            | None \<Rightarrow> if ab_scale b < 6 then 6 else ab_scale b)\<rparr>))
     else if function = ''MIN'' \<or> function = ''MAX'' then
       and_then (chooseExtremum e (ab_evidence b) cells function metric) (\<lambda>v. Inr (b\<lparr>ab_value := v\<rparr>))
     else Inr b)"

fun finish_buckets :: "text_env \<Rightarrow> gostring \<Rightarrow> gostring \<Rightarrow> cell list \<Rightarrow> aggregate_bucket list \<Rightarrow> aggregate_error + aggregate_bucket list" where
  "finish_buckets e function metric cells [] = Inr []"
| "finish_buckets e function metric cells (b # bs) =
    and_then (finish_bucket e function metric cells b) (\<lambda>b'.
      and_then (finish_buckets e function metric cells bs) (\<lambda>bs'. Inr (b' # bs')))"

text \<open>The order of the result: by value when one is asked for, then by key.\<close>

definition bucket_rank :: "gostring \<Rightarrow> aggregate_bucket \<Rightarrow> rat \<times> gostring" where
  "bucket_rank order b =
    (if order = ''ASC'' then ab_value b else if order = ''DESC'' then - ab_value b else 0, ab_key b)"

definition render_bucket :: "gostring \<Rightarrow> aggregate_bucket \<Rightarrow> bucket" where
  "render_bucket function b =
    \<lparr>bu_Key = compositeGroupLabel (ab_groupValues b),
     bu_Value = FloatString (ab_value b) (if function = ''COUNT'' then 0 else ab_scale b),
     bu_Count = ab_count b, bu_Evidence = sort_key er_ID (ab_evidence b), bu_GroupValues = ab_groupValues b,
     bu_GroupEvidence = ab_groupEvidence b, bu_FilterEvidence = sort_key er_ID (ab_filterEvidence b)\<rparr>"

text \<open>\<open>Aggregate\<close>; \<open>cancelled\<close> is the state of the context.\<close>

definition effective_function :: "aggregate_spec \<Rightarrow> gostring \<Rightarrow> gostring list \<Rightarrow> aggregate_error + gostring" where
  "effective_function spec metric numericColumns =
    (if metric = [] \<and> as_Function spec \<noteq> ''COUNT'' then
       (if as_Function spec = ''SUM'' \<and> as_Metric spec = [] \<and> numericColumns = [] then Inr ''COUNT'' else Inl CodeIncomplete)
     else Inr (as_Function spec))"

definition reduce_rows :: "text_env \<Rightarrow> aggregate_request \<Rightarrow> row list \<Rightarrow> gostring \<Rightarrow> gostring \<Rightarrow> gostring list
    \<Rightarrow> aggregate_error + aggregate_result" where
  "reduce_rows e rq rows metric function groups =
    and_then (merge_rows e (rq_Filters rq) groups metric (function = ''COUNT'') (ag_rows e rows) []) (\<lambda>buckets.
      if buckets = [] then Inl CodeIncomplete
      else
        and_then (finish_buckets e function metric (rq_Cells rq) buckets) (\<lambda>finished.
          (let spec = rq_Spec rq; sorted = sort_key (bucket_rank (as_Order spec)) finished;
               limit = (if as_Limit spec > 0 \<and> as_Limit spec < int (length sorted) then nat (as_Limit spec) else length sorted)
           in Inr \<lparr>ar_Function = function, ar_Metric = metric, ar_GroupBy = groups, ar_Order = as_Order spec,
                   ar_Buckets = map (render_bucket function) (take limit sorted)\<rparr>)))"

definition Aggregate :: "text_env \<Rightarrow> bool \<Rightarrow> aggregate_request \<Rightarrow> aggregate_error + aggregate_result" where
  "Aggregate e cancelled rq =
    (if \<not> ag_validOpaque (rq_WorkspaceID rq) \<or> \<not> ag_validDigest (rq_PlanHash rq) \<or> rq_Cells rq = []
        \<or> length (rq_Cells rq) > maximumCells then Inl CodeInvalidRequest
     else if cancelled then Inl CodeIncomplete
     else case validateSpec e (rq_Spec rq) of
            Some err \<Rightarrow> Inl err
          | None \<Rightarrow>
              if \<not> ValidateFilters e (rq_Filters rq) then Inl ErrInvalidQuestion
              else
                and_then (collect_rows [] [] (rq_Cells rq)) (\<lambda>all_rows.
                  let rows = applyFilters e all_rows (rq_Filters rq) in
                  if rows = [] then Inl CodeIncomplete
                  else
                    (let numericColumns = numeric_columns e rows;
                         metric = chooseColumn e (as_Metric (rq_Spec rq)) numericColumns in
                     and_then (effective_function (rq_Spec rq) metric numericColumns) (\<lambda>function.
                       let requested = as_GroupBy (rq_Spec rq);
                           groups = chooseGroupColumns e requested (non_numeric_columns e rows) in
                       if requested \<noteq> [] \<and> length groups \<noteq> length requested then Inl CodeIncomplete
                       else reduce_rows e rq rows metric function groups))))"

section \<open>The selected rows\<close>

lemma add_cell_facts:
  assumes "distinct (map fst rows)"
  shows "distinct (map fst (add_cell c rows)) \<and> fst ` set (add_cell c rows) = insert (cl_RowKey c) (fst ` set rows)
     \<and> mset (concat (map snd (add_cell c rows))) = add_mset c (mset (concat (map snd rows)))"
  using assms
proof (induction rows)
  case (Cons r rows)
  then show ?case by (cases r) (auto simp: image_iff)
qed simp

lemma add_cell_rows:
  "list_all (\<lambda>r. snd r \<noteq> [] \<and> list_all (\<lambda>c. cl_RowKey c = fst r) (snd r)) rows \<Longrightarrow>
     list_all (\<lambda>r. snd r \<noteq> [] \<and> list_all (\<lambda>c. cl_RowKey c = fst r) (snd r)) (add_cell c rows)"
proof (induction rows)
  case (Cons r rows)
  then show ?case by (cases r) auto
qed simp

text \<open>The rows of a request: one per row key, its cells, all valid, with distinct evidence.\<close>

lemma collect_rows_facts:
  assumes "collect_rows seen rows cells = Inr all" "distinct (map fst rows)" "distinct seen"
    "list_all (\<lambda>r. snd r \<noteq> [] \<and> list_all (\<lambda>c. cl_RowKey c = fst r) (snd r)) rows"
  shows "distinct (map fst all) \<and> mset (concat (map snd all)) = mset (concat (map snd rows) @ cells)
    \<and> list_all (\<lambda>r. snd r \<noteq> [] \<and> list_all (\<lambda>c. cl_RowKey c = fst r) (snd r)) all
    \<and> list_all validCell cells \<and> distinct (map (\<lambda>c. ev_ID (cl_Evidence c)) cells)
    \<and> set (map (\<lambda>c. ev_ID (cl_Evidence c)) cells) \<inter> set seen = {}"
  using assms
proof (induction cells arbitrary: seen rows)
  case (Cons c cs)
  from Cons.prems(1) have c: "validCell c" "ev_ID (cl_Evidence c) \<notin> set seen"
    "collect_rows (ev_ID (cl_Evidence c) # seen) (add_cell c rows) cs = Inr all" by (auto split: if_splits)
  from Cons.IH [OF c(3)] add_cell_facts [OF Cons.prems(2), of c] add_cell_rows [OF Cons.prems(4)] c Cons.prems(3)
  show ?case by auto
qed simp

lemma applyFilters_filter:
  "applyFilters e rows fs = filter (\<lambda>r. list_all (\<lambda>f. has_prefix ''equals:'' (fl_Name f) \<longrightarrow> list_ex (filter_matches e f) (snd r)) fs) rows"
  by (induction fs arbitrary: rows) (auto simp: filter_filter intro: filter_cong)

section \<open>A sample\<close>

lemma validOpaque_code [code]:
  "ag_validOpaque v \<longleftrightarrow> v \<noteq> [] \<and> int (length v) \<le> 256 \<and> valid_utf8 v \<and> trim_space v = v
     \<and> \<not> contains_any v [CHR 0x0D, CHR 0x0A, CHR 0x00]"
  by (simp add: ag_validOpaque_def)

text \<open>Three rows in two departments, averaged, the highest mean first.\<close>

definition sample_cell :: "gostring \<Rightarrow> gostring \<Rightarrow> gostring \<Rightarrow> gostring \<Rightarrow> bool \<Rightarrow> cell" where
  "sample_cell ident rkey column v num =
    \<lparr>cl_Evidence = \<lparr>ev_ID = ident, ev_SourceObjectID = ''o'', ev_SourceVersionID = ''v'', ev_ExtractionID = ''x'',
        ev_TextHash = ''hmac-sha256:k1:'' @ replicate 64 CHR ''a'', ev_AnchorHash = ''hmac-sha256:k1:'' @ replicate 64 CHR ''b'',
        ev_ContentHash = ''sha256:'' @ replicate 64 CHR ''c''\<rparr>,
     cl_RowKey = rkey, cl_Column = column, cl_Value = v, cl_Numeric = num\<rparr>"

definition sample_request :: aggregate_request where
  "sample_request = \<lparr>rq_WorkspaceID = ''w'', rq_PlanHash = ''sha256:'' @ replicate 64 CHR ''d'',
     rq_Spec = \<lparr>as_Function = ''AVG'', as_Metric = ''amount'', as_GroupBy = [''dept''], as_Order = ''DESC'', as_Limit = 0\<rparr>,
     rq_Filters = [],
     rq_Cells = [sample_cell ''e1'' ''r1'' ''dept'' ''a'' False, sample_cell ''e2'' ''r1'' ''amount'' ''1'' True,
       sample_cell ''e3'' ''r2'' ''dept'' ''b'' False, sample_cell ''e4'' ''r2'' ''amount'' ''-0.25'' True,
       sample_cell ''e5'' ''r3'' ''dept'' ''a'' False, sample_cell ''e6'' ''r3'' ''amount'' ''2.0'' True]\<rparr>"

definition sample_env :: text_env where
  "sample_env = \<lparr>ag_lower = id, ag_fold = (=), ag_rows = id, ag_cols = id\<rparr>"

lemma sample_values:
  "case Aggregate sample_env False sample_request of Inl _ \<Rightarrow> False
   | Inr r \<Rightarrow> map bu_Value (ar_Buckets r) = [''1.5'', ''-0.25'']"
  by code_simp

lemma sample_result:
  "\<exists>r. Aggregate sample_env False sample_request = Inr r \<and> map bu_Value (ar_Buckets r) = [''1.5'', ''-0.25'']"
  using sample_values by (cases "Aggregate sample_env False sample_request") simp_all

lemma sample_env_orders: "mset (ag_rows sample_env rows) = mset rows" "mset (ag_cols sample_env columns) = mset columns"
  by (simp_all add: sample_env_def)

lemma sample_identities:
  "c \<in> set (rq_Cells rq) \<Longrightarrow> aggregateTermIdentity sample_env (aggregateTermIdentity sample_env (cl_Column c)) = aggregateTermIdentity sample_env (cl_Column c)"
  if "rq = sample_request"
proof -
  have "list_all (\<lambda>c. aggregateTermIdentity sample_env (aggregateTermIdentity sample_env (cl_Column c)) = aggregateTermIdentity sample_env (cl_Column c))
    (rq_Cells sample_request)" by code_simp
  then show "c \<in> set (rq_Cells rq) \<Longrightarrow> ?thesis" using that by (simp add: list_all_iff)
qed

end
