(* ===== verification/Aggregate_Order.thy ===== *)
theory Aggregate_Order
  imports Aggregate
begin

text \<open>
  What the reducer of \<open>Aggregate\<close> computes. Each bucket is the closed form \<open>data_bucket\<close> of its rows
  (\<open>buckets_inv\<close>), keys determine the group values, and two runs that iterate over the rows and the
  columns in different orders agree on every successful result: their buckets agree up to the order of
  the evidence (\<open>canon\<close>), which the code sorts before it returns. The end of the theory states what a
  returned bucket means.
\<close>

section \<open>One row\<close>

definition refs_of :: "cell list \<Rightarrow> evidence_ref list" where
  "refs_of cells = map (\<lambda>c. evidenceRef (cl_Evidence c)) cells"

text \<open>What a row adds to its bucket.\<close>

definition row_refs :: "bool \<Rightarrow> cell list \<Rightarrow> cell list \<Rightarrow> evidence_ref list" where
  "row_refs countRows cells numbers =
    (if countRows then [evidenceRef (cl_Evidence (sort_key (\<lambda>c. ev_ID (cl_Evidence c)) cells ! 0))] else refs_of numbers)"

definition row_values :: "bool \<Rightarrow> cell list \<Rightarrow> rat list" where
  "row_values countRows numbers = (if countRows then [] else map (\<lambda>c. decimal_value (cl_Value c)) numbers)"

definition row_scales :: "bool \<Rightarrow> cell list \<Rightarrow> nat list" where
  "row_scales countRows numbers = (if countRows then [] else map (\<lambda>c. decimalScale (cl_Value c)) numbers)"

lemma add_numbers_Inr:
  "add_numbers ns b = Inr b' \<Longrightarrow> list_all (\<lambda>c. decimalPattern (cl_Value c)) ns
     \<and> b' = b\<lparr>ab_value := ab_value b + sum_list (map (\<lambda>c. decimal_value (cl_Value c)) ns), ab_count := ab_count b + int (length ns),
             ab_scale := foldl max (ab_scale b) (map (\<lambda>c. decimalScale (cl_Value c)) ns), ab_evidence := ab_evidence b @ refs_of ns\<rparr>"
proof (induction ns arbitrary: b)
  case (Cons c ns)
  from Cons.prems have c: "decimalPattern (cl_Value c)" by (auto simp: decimal_def split: if_splits)
  with Cons.prems Cons.IH show ?case by (force simp: decimal_def refs_of_def algebra_simps)
qed (simp add: refs_of_def)

definition row_count :: "bool \<Rightarrow> cell list \<Rightarrow> int" where
  "row_count countRows numbers = (if countRows then 1 else int (length numbers))"

lemma add_row_Inr:
  assumes "add_row e filters countRows cells numbers b = Inr b'"
  shows "b' = b\<lparr>ab_value := ab_value b + sum_list (row_values countRows numbers), ab_count := ab_count b + row_count countRows numbers,
      ab_scale := foldl max (ab_scale b) (row_scales countRows numbers),
      ab_evidence := ab_evidence b @ row_refs countRows cells numbers,
      ab_filterEvidence := appendFilterEvidence e (ab_filterEvidence b) cells filters\<rparr>"
  using assms add_numbers_Inr [of numbers b]
  by (auto simp: add_row_def row_refs_def row_values_def row_scales_def row_count_def Let_def split: if_splits)

lemma add_row_key: "add_row e filters countRows cells numbers b = Inr b' \<Longrightarrow> ab_key b' = ab_key b"
  using add_row_Inr by fastforce

section \<open>Merging\<close>

lemma merge_bucket_Inr:
  assumes "merge_bucket key f bs = Inr bs'" "distinct (map ab_key bs)"
    and "\<And>old b. (case old of None \<Rightarrow> True | Some x \<Rightarrow> ab_key x = key) \<Longrightarrow> f old = Inr b \<Longrightarrow> ab_key b = key"
  shows "\<exists>old b. f old = Inr b \<and> (case old of None \<Rightarrow> key \<notin> ab_key ` set bs | Some x \<Rightarrow> x \<in> set bs \<and> ab_key x = key)
    \<and> distinct (map ab_key bs') \<and> set bs' = insert b {x \<in> set bs. ab_key x \<noteq> key}"
  using assms(1,2)
proof (induction bs arbitrary: bs')
  case Nil
  then obtain b where "f None = Inr b" "bs' = [b]" by auto
  then show ?case by (intro exI [of _ None] exI [of _ b]) simp
next
  case (Cons x bs)
  show ?case
  proof (cases "ab_key x = key")
    case True
    with Cons.prems(1) obtain b where b: "f (Some x) = Inr b" "bs' = b # bs" by auto
    have "ab_key b = key" by (rule assms(3) [OF _ b(1)]) (simp add: True)
    with True b Cons.prems(2) show ?thesis by (intro exI [of _ "Some x"] exI [of _ b]) (auto simp: image_iff)
  next
    case False
    with Cons.prems(1) obtain cs where cs: "merge_bucket key f bs = Inr cs" "bs' = x # cs" by auto
    from Cons.IH [OF cs(1)] Cons.prems(2) obtain old b where
      o: "f old = Inr b" "case old of None \<Rightarrow> key \<notin> ab_key ` set bs | Some x \<Rightarrow> x \<in> set bs \<and> ab_key x = key"
      "distinct (map ab_key cs)" "set cs = insert b {x \<in> set bs. ab_key x \<noteq> key}" by auto
    have k: "ab_key b = key" by (rule assms(3) [OF _ o(1)]) (use o(2) in \<open>auto split: option.splits\<close>)
    show ?thesis
      by (intro exI [of _ old] exI [of _ b]) (use o k cs False Cons.prems(2) in \<open>auto split: option.splits\<close>)
  qed
qed

text \<open>The bucket of a key in closed form, over the rows processed so far. The row data is what
  \<open>row_info\<close> returns for the row.\<close>

type_synonym row_data = "(gostring \<times> evidence_ref) list \<times> cell list \<times> cell list"

definition data_key :: "gostring list \<Rightarrow> row_data \<Rightarrow> gostring" where
  "data_key groups d = bucket_key groups (fst d)"

definition filter_refs :: "text_env \<Rightarrow> query_filter list \<Rightarrow> evidence_ref list \<Rightarrow> row_data list \<Rightarrow> evidence_ref list" where
  "filter_refs e filters = foldl (\<lambda>refs d. appendFilterEvidence e refs (snd (snd d)) filters)"

definition least_refs :: "row_data list \<Rightarrow> evidence_ref list" where
  "least_refs ds = foldl (\<lambda>refs d. map2 smaller_ref refs (map snd (fst d))) (map snd (fst (hd ds))) (tl ds)"

definition data_bucket :: "text_env \<Rightarrow> query_filter list \<Rightarrow> bool \<Rightarrow> gostring \<Rightarrow> row_data list \<Rightarrow> aggregate_bucket" where
  "data_bucket e filters countRows key ds = \<lparr>ab_key = key,
     ab_value = sum_list (concat (map (\<lambda>d. row_values countRows (fst (snd d))) ds)),
     ab_count = sum_list (map (\<lambda>d. row_count countRows (fst (snd d))) ds),
     ab_scale = foldl max 0 (concat (map (\<lambda>d. row_scales countRows (fst (snd d))) ds)),
     ab_evidence = concat (map (\<lambda>d. row_refs countRows (snd (snd d)) (fst (snd d))) ds),
     ab_groupValues = map fst (fst (hd ds)), ab_groupEvidence = least_refs ds,
     ab_filterEvidence = filter_refs e filters [] ds\<rparr>"

lemma data_bucket_key [simp]: "ab_key (data_bucket e filters countRows key ds) = key"
  by (simp add: data_bucket_def)

lemma data_bucket_snoc:
  assumes "ds \<noteq> []"
    "add_row e filters countRows cells numbers
       ((data_bucket e filters countRows key ds)\<lparr>ab_groupEvidence := map2 smaller_ref (least_refs ds) (map snd info)\<rparr>) = Inr b"
  shows "b = data_bucket e filters countRows key (ds @ [(info, numbers, cells)])"
  using add_row_Inr [OF assms(2)] assms(1)
  by (cases ds) (simp_all add: data_bucket_def least_refs_def filter_refs_def)

lemma data_bucket_first:
  assumes "add_row e filters countRows cells numbers (new_bucket key info) = Inr b"
  shows "b = data_bucket e filters countRows key [(info, numbers, cells)]"
  using add_row_Inr [OF assms] by (simp add: new_bucket_def data_bucket_def least_refs_def filter_refs_def)

definition of_key :: "gostring list \<Rightarrow> row_data list \<Rightarrow> gostring \<Rightarrow> row_data list" where
  "of_key groups ds key = filter (\<lambda>d. data_key groups d = key) ds"

definition buckets_inv :: "text_env \<Rightarrow> query_filter list \<Rightarrow> bool \<Rightarrow> gostring list \<Rightarrow> row_data list \<Rightarrow> aggregate_bucket list \<Rightarrow> bool" where
  "buckets_inv e filters countRows groups ds bs \<longleftrightarrow> distinct (map ab_key bs)
     \<and> set bs = (\<lambda>key. data_bucket e filters countRows key (of_key groups ds key)) ` data_key groups ` set ds"

lemma buckets_inv_keys: "buckets_inv e filters countRows groups ds bs \<Longrightarrow> ab_key ` set bs = data_key groups ` set ds"
  by (auto simp: buckets_inv_def image_image)

lemma merge_row_inv:
  assumes m: "merge_row e filters groups metric countRows cells bs = Inr bs'"
    and inv: "buckets_inv e filters countRows groups ds bs"
  shows "\<exists>info numbers. row_info e groups metric countRows cells = Inr (info, numbers)
    \<and> buckets_inv e filters countRows groups (ds @ [(info, numbers, cells)]) bs'"
proof -
  from m obtain info numbers where info: "row_info e groups metric countRows cells = Inr (info, numbers)"
    by (auto simp: merge_row_def)
  let ?d = "(info, numbers, cells)" and ?key = "bucket_key groups info"
  let ?f = "\<lambda>old. add_row e filters countRows cells numbers
             (case old of None \<Rightarrow> new_bucket ?key info
              | Some b \<Rightarrow> b\<lparr>ab_groupEvidence := map2 smaller_ref (ab_groupEvidence b) (map snd info)\<rparr>)"
  have k: "data_key groups ?d = ?key" by (simp add: data_key_def)
  from m info have mb: "merge_bucket ?key ?f bs = Inr bs'" by (auto simp: merge_row_def split: if_splits)
  have keys: "ab_key b = ?key" if "case old of None \<Rightarrow> True | Some x \<Rightarrow> ab_key x = ?key" "?f old = Inr b" for old b
    using that add_row_key [OF that(2)] by (auto simp: new_bucket_def split: option.splits)
  have dist: "distinct (map ab_key bs)" using inv by (simp add: buckets_inv_def)
  have "\<exists>old b. ?f old = Inr b \<and> (case old of None \<Rightarrow> ?key \<notin> ab_key ` set bs | Some x \<Rightarrow> x \<in> set bs \<and> ab_key x = ?key)
      \<and> distinct (map ab_key bs') \<and> set bs' = insert b {x \<in> set bs. ab_key x \<noteq> ?key}"
    by (rule merge_bucket_Inr [OF mb dist]) (rule keys)
  then obtain old b where
    b: "?f old = Inr b" "case old of None \<Rightarrow> ?key \<notin> ab_key ` set bs | Some x \<Rightarrow> x \<in> set bs \<and> ab_key x = ?key"
    "distinct (map ab_key bs')" "set bs' = insert b {x \<in> set bs. ab_key x \<noteq> ?key}" by blast
  have new: "b = data_bucket e filters countRows ?key (of_key groups (ds @ [?d]) ?key)"
  proof (cases old)
    case None
    with b(2) buckets_inv_keys [OF inv] have "?key \<notin> data_key groups ` set ds" by simp
    then have "of_key groups ds ?key = []" unfolding of_key_def filter_empty_conv by (metis imageI)
    with None b(1) k data_bucket_first show ?thesis by (simp add: of_key_def)
  next
    case (Some x)
    with b(2) have xs: "x \<in> set bs" "ab_key x = ?key" by simp_all
    then obtain key where key: "x = data_bucket e filters countRows key (of_key groups ds key)" "key \<in> data_key groups ` set ds"
      using inv unfolding buckets_inv_def by blast
    with xs(2) have eq: "key = ?key" by simp
    note x = key [unfolded eq]
    then have "of_key groups ds ?key \<noteq> []" unfolding of_key_def filter_empty_conv by (metis imageE)
    moreover have "ab_groupEvidence x = least_refs (of_key groups ds ?key)" using x(1) by (simp add: data_bucket_def)
    ultimately show ?thesis using b(1) Some x(1) k data_bucket_snoc by (simp add: of_key_def)
  qed
  have others: "of_key groups (ds @ [?d]) key = of_key groups ds key" if "key \<noteq> ?key" for key
    using that k by (auto simp: of_key_def)
  have "{x \<in> set bs. ab_key x \<noteq> ?key} = (\<lambda>key. data_bucket e filters countRows key (of_key groups ds key)) ` (data_key groups ` set ds - {?key})"
    using inv by (auto simp: buckets_inv_def)
  also have "\<dots> = (\<lambda>key. data_bucket e filters countRows key (of_key groups (ds @ [?d]) key)) ` (data_key groups ` set ds - {?key})"
    using others by (auto intro!: image_cong)
  finally have "set bs' = (\<lambda>key. data_bucket e filters countRows key (of_key groups (ds @ [?d]) key)) ` data_key groups ` set (ds @ [?d])"
    using b(4) new k by auto
  with info b(3) show ?thesis by (auto simp: buckets_inv_def)
qed

lemma merge_rows_inv:
  assumes "merge_rows e filters groups metric countRows rs bs = Inr bs'" "buckets_inv e filters countRows groups ds bs"
  shows "\<exists>es. map snd rs = map (\<lambda>d. snd (snd d)) es
    \<and> list_all (\<lambda>d. row_info e groups metric countRows (snd (snd d)) = Inr (fst d, fst (snd d))) es
    \<and> buckets_inv e filters countRows groups (ds @ es) bs'"
  using assms
proof (induction rs arbitrary: bs ds)
  case Nil
  then show ?case by (intro exI [of _ "[]"]) simp
next
  case (Cons r rs)
  then obtain b1 where 1: "merge_row e filters groups metric countRows (snd r) bs = Inr b1"
    "merge_rows e filters groups metric countRows rs b1 = Inr bs'" by auto
  from merge_row_inv [OF 1(1) Cons.prems(2)] obtain info numbers where
    i: "row_info e groups metric countRows (snd r) = Inr (info, numbers)"
    "buckets_inv e filters countRows groups (ds @ [(info, numbers, snd r)]) b1" by blast
  from Cons.IH [OF 1(2) i(2)] obtain es where
    "map snd rs = map (\<lambda>d. snd (snd d)) es"
    "list_all (\<lambda>d. row_info e groups metric countRows (snd (snd d)) = Inr (fst d, fst (snd d))) es"
    "buckets_inv e filters countRows groups (ds @ (info, numbers, snd r) # es) bs'" by auto
  with i(1) show ?case by (intro exI [of _ "(info, numbers, snd r) # es"]) simp
qed

section \<open>The order of iteration\<close>

text \<open>Group keys are length-prefixed, so they determine the values.\<close>

lemma compositeGroupKey_inj: "compositeGroupKey vs = compositeGroupKey ws \<Longrightarrow> vs = ws"
proof (induction vs arbitrary: ws)
  case Nil
  then show ?case by (cases ws) (simp_all add: compositeGroupKey_def)
next
  case (Cons v vs)
  show ?case
  proof (cases ws)
    case Nil
    with Cons.prems show ?thesis by (simp add: compositeGroupKey_def)
  next
    case ws: (Cons w us)
    from Cons.prems ws have e: "itoa (int (length v)) @ (CHR '':'' # v @ CHR ''|'' # compositeGroupKey vs)
        = itoa (int (length w)) @ (CHR '':'' # w @ CHR ''|'' # compositeGroupKey us)"
      by (simp add: compositeGroupKey_def)
    from itoa_prefix [OF e] have len: "length v = length w"
      and rest: "v @ CHR ''|'' # compositeGroupKey vs = w @ CHR ''|'' # compositeGroupKey us"
      by (simp_all add: is_digit_def)
    from rest len have "v = w" "compositeGroupKey vs = compositeGroupKey us" by (simp_all add: append_eq_append_conv)
    with Cons.IH ws show ?thesis by simp
  qed
qed

text \<open>A bucket up to the order of its evidence.\<close>

definition canon :: "aggregate_bucket \<Rightarrow> aggregate_bucket" where
  "canon b = b\<lparr>ab_evidence := sort_key er_ID (ab_evidence b), ab_filterEvidence := sort_key er_ID (ab_filterEvidence b)\<rparr>"

lemma render_canon: "render_bucket function (canon b) = render_bucket function b"
  by (simp add: render_bucket_def canon_def sort_key_idem)

lemma rank_canon: "bucket_rank order (canon b) = bucket_rank order b"
  by (simp add: bucket_rank_def canon_def)

lemma foldl_max: "foldl max a xs = Max (insert a (set xs))"
  for a :: nat
proof (induction xs arbitrary: a)
  case (Cons x xs)
  have "foldl max a (x # xs) = Max (insert (max a x) (set xs))" by (simp add: Cons)
  also have "\<dots> = Max (insert a (insert x (set xs)))" by (cases "xs = []") (simp_all add: max.assoc)
  finally show ?case by simp
qed simp

lemma scan_row_numbers:
  "scan_row e groups metric found numbers cs = Inr (found', numbers') \<Longrightarrow>
     numbers' = numbers @ filter (\<lambda>c. cl_Numeric c \<and> aggregateTermsEqual e (cl_Column c) metric) cs"
proof (induction cs arbitrary: found numbers)
  case (Cons c cs)
  let ?n = "if cl_Numeric c \<and> aggregateTermsEqual e (cl_Column c) metric then numbers @ [c] else numbers"
  from Cons.prems obtain f1 where "scan_row e groups metric f1 ?n cs = Inr (found', numbers')"
    by (auto simp: Let_def split: if_splits)
  from Cons.IH [OF this] show ?case by simp
qed simp

definition found_in :: "cell list \<Rightarrow> (gostring \<times> evidence_ref) option \<Rightarrow> bool" where
  "found_in cells a \<longleftrightarrow> (\<forall>v r. a = Some (v, r) \<longrightarrow> (\<exists>c\<in>set cells. v = cl_Value c \<and> r = evidenceRef (cl_Evidence c)))"

lemma found_in_cell: "c \<in> set cells \<Longrightarrow> found_in cells (Some (cl_Value c, evidenceRef (cl_Evidence c)))"
  by (auto simp: found_in_def)

lemma group_cell_found:
  "group_cell e gs as c = Inr bs \<Longrightarrow> length gs = length as \<Longrightarrow> list_all (found_in cells) as \<Longrightarrow> c \<in> set cells \<Longrightarrow>
     length bs = length as \<and> list_all (found_in cells) bs"
proof (induction e gs as c arbitrary: bs rule: group_cell.induct)
  case (1 e g gs a as c)
  then show ?case by (auto simp: found_in_cell split: if_splits option.splits)
qed simp_all

lemma scan_row_found:
  "scan_row e groups metric found numbers cs = Inr (found', numbers') \<Longrightarrow> length groups = length found \<Longrightarrow>
     list_all (found_in cells) found \<Longrightarrow> set cs \<subseteq> set cells \<Longrightarrow> length found' = length groups \<and> list_all (found_in cells) found'"
proof (induction cs arbitrary: found numbers)
  case (Cons c cs)
  show ?case
  proof (cases "cl_Numeric c")
    case True
    with Cons show ?thesis by (auto simp: Let_def)
  next
    case False
    with Cons.prems(1) obtain f1 where f1: "group_cell e groups found c = Inr f1"
      "scan_row e groups metric f1 numbers cs = Inr (found', numbers')" by (auto simp: Let_def)
    from group_cell_found [OF f1(1)] Cons.prems have "length f1 = length found \<and> list_all (found_in cells) f1" by simp
    with Cons.IH [OF f1(2)] Cons.prems show ?thesis by simp
  qed
qed simp

text \<open>What \<open>row_info\<close> returns for a row.\<close>

definition info_ok :: "text_env \<Rightarrow> gostring list \<Rightarrow> gostring \<Rightarrow> row_data \<Rightarrow> bool" where
  "info_ok e groups metric d \<longleftrightarrow> (case d of (info, numbers, cells) \<Rightarrow>
     numbers = filter (\<lambda>c. cl_Numeric c \<and> aggregateTermsEqual e (cl_Column c) metric) cells
     \<and> length info = length groups
     \<and> list_all (\<lambda>(v, r). v \<noteq> [] \<and> (\<exists>c\<in>set cells. v = cl_Value c \<and> r = evidenceRef (cl_Evidence c))) info)"

lemma row_info_ok:
  assumes "row_info e groups metric countRows cells = Inr (info, numbers)"
  shows "info_ok e groups metric (info, numbers, cells) \<and> (countRows \<or> numbers \<noteq> [])"
proof -
  from assms obtain found where f: "scan_row e groups metric (replicate (length groups) None) [] cells = Inr (found, numbers)"
    and n: "countRows \<or> numbers \<noteq> []"
    and all: "\<not> list_ex (\<lambda>a. case a of None \<Rightarrow> True | Some (v, _) \<Rightarrow> v = []) found" and info: "info = map the found"
    by (auto simp: row_info_def split: if_splits)
  have l: "length found = length groups \<and> list_all (found_in cells) found"
    by (rule scan_row_found [OF f]) (simp_all add: list_all_iff found_in_def)
  have "list_all (\<lambda>(v, r). v \<noteq> [] \<and> (\<exists>c\<in>set cells. v = cl_Value c \<and> r = evidenceRef (cl_Evidence c))) (map the found)"
    using l all by (auto simp: list_all_iff list_ex_iff found_in_def split: option.splits)
  with l scan_row_numbers [OF f] n info show ?thesis by (simp add: info_ok_def)
qed

lemma er_ID_evidenceRef [simp]: "er_ID (evidenceRef v) = ev_ID v"
  by (simp add: evidenceRef_def)

abbreviation cell_id :: "cell \<Rightarrow> gostring" where
  "cell_id c \<equiv> ev_ID (cl_Evidence c)"

abbreviation data_cells :: "row_data \<Rightarrow> cell list" where
  "data_cells d \<equiv> snd (snd d)"

text \<open>Rows as the request gives them: distinct evidence, no empty row, valid cells.\<close>

definition rows_ok :: "text_env \<Rightarrow> gostring list \<Rightarrow> gostring \<Rightarrow> row_data list \<Rightarrow> bool" where
  "rows_ok e groups metric ds \<longleftrightarrow> distinct (map cell_id (concat (map data_cells ds)))
     \<and> (\<forall>d\<in>set ds. info_ok e groups metric d \<and> data_cells d \<noteq> [] \<and> list_all validCell (data_cells d))"

lemma rows_ok_perm: "rows_ok e groups metric ds \<Longrightarrow> mset ds = mset ds' \<Longrightarrow> rows_ok e groups metric ds'"
proof -
  assume ok: "rows_ok e groups metric ds" and m: "mset ds = mset ds'"
  have "mset (map cell_id (concat (map data_cells ds))) = mset (map cell_id (concat (map data_cells ds')))"
    using mset_concat_map [OF m, of data_cells] by (simp only: mset_map)
  then have "distinct (map cell_id (concat (map data_cells ds')))"
    using ok mset_eq_imp_distinct_iff [THEN iffD1] unfolding rows_ok_def by blast
  moreover have "set ds' = set ds" using m by (metis mset_eq_setD)
  ultimately show ?thesis using ok by (simp add: rows_ok_def)
qed

lemma rows_ok_filter: "rows_ok e groups metric ds \<Longrightarrow> rows_ok e groups metric (filter P ds)"
  by (induction ds) (auto simp: rows_ok_def)

lemma rows_ok_Cons:
  "rows_ok e groups metric (d # ds) \<longleftrightarrow> rows_ok e groups metric ds \<and> info_ok e groups metric d \<and> data_cells d \<noteq> []
     \<and> list_all validCell (data_cells d) \<and> distinct (map cell_id (data_cells d))
     \<and> cell_id ` set (data_cells d) \<inter> cell_id ` set (concat (map data_cells ds)) = {}"
  by (auto simp: rows_ok_def)

lemma ids_inj:
  assumes "rows_ok e groups metric ds"
  shows "inj_on er_ID ((\<lambda>c. evidenceRef (cl_Evidence c)) ` set (concat (map data_cells ds)))"
proof -
  have "inj_on cell_id (set (concat (map data_cells ds)))" using assms by (simp add: rows_ok_def distinct_map)
  then show ?thesis unfolding inj_on_def by auto
qed

lemma row_refs_ids:
  assumes "info_ok e groups metric d" "data_cells d \<noteq> []" "distinct (map cell_id (data_cells d))"
  shows "distinct (map er_ID (row_refs countRows (data_cells d) (fst (snd d))))
    \<and> set (row_refs countRows (data_cells d) (fst (snd d))) \<subseteq> (\<lambda>c. evidenceRef (cl_Evidence c)) ` set (data_cells d)"
proof -
  have n: "fst (snd d) = filter (\<lambda>c. cl_Numeric c \<and> aggregateTermsEqual e (cl_Column c) metric) (data_cells d)"
    using assms(1) by (cases d) (auto simp: info_ok_def)
  have "sort_key cell_id (data_cells d) ! 0 \<in> set (sort_key cell_id (data_cells d))"
    using assms(2) by (intro nth_mem) simp
  then show ?thesis using assms(3) n
    by (auto simp: row_refs_def refs_of_def comp_def distinct_map_filter)
qed

lemma refs_ids: "R \<subseteq> (\<lambda>c. evidenceRef (cl_Evidence c)) ` C \<Longrightarrow> er_ID ` R \<subseteq> cell_id ` C"
  by auto

lemma concat_refs_distinct:
  "rows_ok e groups metric ds \<Longrightarrow>
     distinct (map er_ID (concat (map (\<lambda>d. row_refs countRows (data_cells d) (fst (snd d))) ds)))
     \<and> set (concat (map (\<lambda>d. row_refs countRows (data_cells d) (fst (snd d))) ds))
         \<subseteq> (\<lambda>c. evidenceRef (cl_Evidence c)) ` set (concat (map data_cells ds))"
proof (induction ds)
  case (Cons d ds)
  from Cons.prems have d: "rows_ok e groups metric ds" "info_ok e groups metric d" "data_cells d \<noteq> []"
    "distinct (map cell_id (data_cells d))" "cell_id ` set (data_cells d) \<inter> cell_id ` set (concat (map data_cells ds)) = {}"
    by (simp_all add: rows_ok_Cons)
  note IH = Cons.IH [OF d(1)] and r = row_refs_ids [OF d(2-4), of countRows]
  have "er_ID ` set (row_refs countRows (data_cells d) (fst (snd d))) \<subseteq> cell_id ` set (data_cells d)"
    by (rule refs_ids [OF conjunct2 [OF r]])
  moreover have "er_ID ` set (concat (map (\<lambda>d. row_refs countRows (data_cells d) (fst (snd d))) ds)) \<subseteq> cell_id ` set (concat (map data_cells ds))"
    by (rule refs_ids [OF conjunct2 [OF IH]])
  ultimately have disj: "er_ID ` set (row_refs countRows (data_cells d) (fst (snd d)))
      \<inter> er_ID ` set (concat (map (\<lambda>d. row_refs countRows (data_cells d) (fst (snd d))) ds)) = {}"
    using d(5) by blast
  have "distinct (map er_ID (row_refs countRows (data_cells d) (fst (snd d))
      @ concat (map (\<lambda>d. row_refs countRows (data_cells d) (fst (snd d))) ds)))"
    unfolding map_append distinct_append set_map using r IH disj by blast
  moreover have "set (row_refs countRows (data_cells d) (fst (snd d)) @ concat (map (\<lambda>d. row_refs countRows (data_cells d) (fst (snd d))) ds))
      \<subseteq> (\<lambda>c. evidenceRef (cl_Evidence c)) ` set (data_cells d @ concat (map data_cells ds))"
    unfolding set_append image_Un using r IH by blast
  ultimately show ?case by (simp only: list.map concat.simps)
qed simp

text \<open>The filter evidence: each matching cell once.\<close>

definition matching_refs :: "text_env \<Rightarrow> query_filter list \<Rightarrow> cell list \<Rightarrow> evidence_ref set" where
  "matching_refs e filters cells = {evidenceRef (cl_Evidence c) |c f. c \<in> set cells \<and> f \<in> set filters
     \<and> has_prefix ''equals:'' (fl_Name f) \<and> filter_matches e f c}"

lemma filter_fold:
  assumes "distinct (map er_ID refs)" "inj_on er_ID (set refs \<union> (\<lambda>c. evidenceRef (cl_Evidence c)) ` snd ` set ps)"
  shows "let out = foldl (\<lambda>refs (f, c). if \<not> filter_matches e f c then refs
        else if er_ID (evidenceRef (cl_Evidence c)) \<in> er_ID ` set refs then refs else refs @ [evidenceRef (cl_Evidence c)]) refs ps
    in set out = set refs \<union> {evidenceRef (cl_Evidence c) |f c. (f, c) \<in> set ps \<and> filter_matches e f c} \<and> distinct (map er_ID out)"
  using assms
proof (induction ps arbitrary: refs)
  case (Cons p ps)
  obtain f c where p: "p = (f, c)" by (cases p)
  let ?r = "evidenceRef (cl_Evidence c)"
  let ?next = "if \<not> filter_matches e f c then refs else if er_ID ?r \<in> er_ID ` set refs then refs else refs @ [?r]"
  have same: "?r \<in> set refs" if "er_ID ?r \<in> er_ID ` set refs"
  proof -
    from that obtain x where x: "x \<in> set refs" "er_ID ?r = er_ID x" by auto
    have "?r = x" by (rule inj_onD [OF Cons.prems(2) x(2)]) (use x(1) p in auto)
    with x(1) show ?thesis by simp
  qed
  have "distinct (map er_ID ?next)" using Cons.prems(1) by simp
  moreover have "inj_on er_ID (set ?next \<union> (\<lambda>c. evidenceRef (cl_Evidence c)) ` snd ` set ps)"
    by (rule inj_on_subset [OF Cons.prems(2)]) (auto simp: p)
  moreover have "set ?next = set refs \<union> (if filter_matches e f c then {?r} else {})" using same by auto
  ultimately show ?case using Cons.IH [of ?next] p by (auto simp: Let_def)
qed (simp add: Let_def)

lemma append_filter_refs:
  assumes "distinct (map er_ID refs)" "inj_on er_ID (set refs \<union> (\<lambda>c. evidenceRef (cl_Evidence c)) ` set cells)"
  shows "set (appendFilterEvidence e refs cells filters) = set refs \<union> matching_refs e filters cells
    \<and> distinct (map er_ID (appendFilterEvidence e refs cells filters))"
proof -
  let ?ps = "List.product (filter (\<lambda>f. has_prefix ''equals:'' (fl_Name f)) filters) cells"
  have "inj_on er_ID (set refs \<union> (\<lambda>c. evidenceRef (cl_Evidence c)) ` snd ` set ?ps)"
    by (rule inj_on_subset [OF assms(2)]) auto
  moreover have "{evidenceRef (cl_Evidence c) |f c. (f, c) \<in> set ?ps \<and> filter_matches e f c} = matching_refs e filters cells"
    by (auto simp: matching_refs_def)
  ultimately show ?thesis
    using filter_fold [OF assms(1), of ?ps e] by (simp add: appendFilterEvidence_def Let_def)
qed

lemma matching_refs_sub: "matching_refs e filters cells \<subseteq> (\<lambda>c. evidenceRef (cl_Evidence c)) ` set cells"
  by (auto simp: matching_refs_def)

lemma filter_refs_spec:
  assumes "inj_on er_ID ((\<lambda>c. evidenceRef (cl_Evidence c)) ` set (concat (map data_cells ds)))"
  shows "set (filter_refs e filters [] ds) = matching_refs e filters (concat (map data_cells ds))
    \<and> distinct (map er_ID (filter_refs e filters [] ds))"
  using assms
proof (induction ds rule: rev_induct)
  case Nil
  then show ?case by (simp add: filter_refs_def matching_refs_def)
next
  case (snoc d ds)
  let ?C = "\<lambda>ds. set (concat (map data_cells ds))"
  have C: "?C (ds @ [d]) = ?C ds \<union> set (data_cells d)" by auto
  have inj: "inj_on er_ID ((\<lambda>c. evidenceRef (cl_Evidence c)) ` ?C ds)"
    by (rule inj_on_subset [OF snoc.prems]) (unfold C, blast)
  note IH = snoc.IH [OF inj]
  have "inj_on er_ID (set (filter_refs e filters [] ds) \<union> (\<lambda>c. evidenceRef (cl_Evidence c)) ` set (data_cells d))"
    by (rule inj_on_subset [OF snoc.prems]) (unfold C, use IH matching_refs_sub in blast)
  from append_filter_refs [OF conjunct2 [OF IH] this]
  have "set (appendFilterEvidence e (filter_refs e filters [] ds) (data_cells d) filters)
      = matching_refs e filters (concat (map data_cells ds)) \<union> matching_refs e filters (data_cells d)
    \<and> distinct (map er_ID (appendFilterEvidence e (filter_refs e filters [] ds) (data_cells d) filters))" using IH by simp
  moreover have "matching_refs e filters (concat (map data_cells ds)) \<union> matching_refs e filters (data_cells d)
      = matching_refs e filters (concat (map data_cells (ds @ [d])))"
    unfolding matching_refs_def C by blast
  ultimately show ?case by (simp add: filter_refs_def)
qed

text \<open>The evidence of a dimension is the one with the least ID.\<close>

lemma least_refs_spec:
  assumes "ds \<noteq> []" "\<And>d. d \<in> set ds \<Longrightarrow> length (fst d) = n \<and> (\<forall>p\<in>set (fst d). er_ID (snd p) \<noteq> [])"
  shows "length (least_refs ds) = n \<and> (\<forall>i<n. (\<exists>d\<in>set ds. least_refs ds ! i = snd (fst d ! i))
    \<and> (\<forall>d\<in>set ds. er_ID (least_refs ds ! i) \<le> er_ID (snd (fst d ! i))))"
  using assms
proof (induction ds rule: rev_induct)
  case (snoc d ds)
  show ?case
  proof (cases "ds = []")
    case True
    then show ?thesis using snoc.prems(2) [of d] by (auto simp: least_refs_def)
  next
    case False
    have IH: "length (least_refs ds) = n \<and> (\<forall>i<n. (\<exists>d\<in>set ds. least_refs ds ! i = snd (fst d ! i))
      \<and> (\<forall>d\<in>set ds. er_ID (least_refs ds ! i) \<le> er_ID (snd (fst d ! i))))"
      by (rule snoc.IH [OF False]) (rule snoc.prems(2), simp)
    have step: "least_refs (ds @ [d]) = map2 smaller_ref (least_refs ds) (map snd (fst d))"
      using False by (cases ds) (simp_all add: least_refs_def)
    have d: "length (fst d) = n" "\<And>i. i < n \<Longrightarrow> er_ID (snd (fst d ! i)) \<noteq> []"
      using snoc.prems(2) [of d] nth_mem [of _ "fst d"] by auto
    have nth: "least_refs (ds @ [d]) ! i = smaller_ref (least_refs ds ! i) (snd (fst d ! i))" if "i < n" for i
      unfolding step using IH d that by simp
    have "length (least_refs (ds @ [d])) = n" unfolding step using IH d by simp
    moreover have "(\<exists>d'\<in>set (ds @ [d]). least_refs (ds @ [d]) ! i = snd (fst d' ! i))
      \<and> (\<forall>d'\<in>set (ds @ [d]). er_ID (least_refs (ds @ [d]) ! i) \<le> er_ID (snd (fst d' ! i)))" if i: "i < n" for i
    proof (cases "er_ID (snd (fst d ! i)) < er_ID (least_refs ds ! i)")
      case True
      then have "least_refs (ds @ [d]) ! i = snd (fst d ! i)" using nth [OF i] d(2) [OF i] by (simp add: smaller_ref_def)
      then show ?thesis using IH i True by (auto intro: less_imp_le less_le_trans)
    next
      case False
      moreover have "er_ID (least_refs ds ! i) \<noteq> []"
      proof -
        obtain d' where "d' \<in> set ds" "least_refs ds ! i = snd (fst d' ! i)" using IH i by blast
        then show ?thesis using snoc.prems(2) [of d'] i nth_mem [of i "fst d'"] by auto
      qed
      ultimately have "least_refs (ds @ [d]) ! i = least_refs ds ! i" using nth [OF i] by (simp add: smaller_ref_def)
      then show ?thesis using IH i False by (auto simp: not_less)
    qed
    ultimately show ?thesis by blast
  qed
qed simp

lemma validCell_id: "validCell c \<Longrightarrow> cell_id c \<noteq> []"
  by (auto simp: validCell_def validEvidence_def ag_validOpaque_def split: if_splits)

lemma info_refs:
  assumes "rows_ok e groups metric ds" "d \<in> set ds"
  shows "length (fst d) = length groups \<and> (\<forall>p\<in>set (fst d). er_ID (snd p) \<noteq> []
    \<and> snd p \<in> (\<lambda>c. evidenceRef (cl_Evidence c)) ` set (concat (map data_cells ds)))"
proof -
  from assms have i: "info_ok e groups metric d" "list_all validCell (data_cells d)" by (simp_all add: rows_ok_def)
  obtain info numbers cells where d: "d = (info, numbers, cells)" by (cases d)
  have cells: "c \<in> set (concat (map data_cells ds))" if "c \<in> set cells" for c using assms(2) that d by force
  show ?thesis
  proof (intro conjI ballI)
    show "length (fst d) = length groups" using i(1) d by (simp add: info_ok_def)
    fix p assume p: "p \<in> set (fst d)"
    then obtain c where c: "c \<in> set cells" "snd p = evidenceRef (cl_Evidence c)"
      using i(1) d by (fastforce simp: info_ok_def list_all_iff)
    show "er_ID (snd p) \<noteq> []" using i(2) c d validCell_id by (auto simp: list_all_iff)
    show "snd p \<in> (\<lambda>c. evidenceRef (cl_Evidence c)) ` set (concat (map data_cells ds))" using c cells by blast
  qed
qed

lemma least_refs_perm:
  assumes ok: "rows_ok e groups metric ds" and m: "mset ds = mset ds'" and ne: "ds \<noteq> []"
  shows "least_refs ds = least_refs ds'"
proof -
  have s: "set ds = set ds'" using m by (metis mset_eq_setD)
  have ne': "ds' \<noteq> []" using ne m by auto
  have len: "length (fst d) = length groups \<and> (\<forall>p\<in>set (fst d). er_ID (snd p) \<noteq> [])" if "d \<in> set ds" for d
    using info_refs [OF ok that] by blast
  have A: "length (least_refs ds) = length groups \<and> (\<forall>i<length groups. (\<exists>d\<in>set ds. least_refs ds ! i = snd (fst d ! i))
    \<and> (\<forall>d\<in>set ds. er_ID (least_refs ds ! i) \<le> er_ID (snd (fst d ! i))))"
    by (rule least_refs_spec [OF ne]) (rule len)
  have B: "length (least_refs ds') = length groups \<and> (\<forall>i<length groups. (\<exists>d\<in>set ds. least_refs ds' ! i = snd (fst d ! i))
    \<and> (\<forall>d\<in>set ds. er_ID (least_refs ds' ! i) \<le> er_ID (snd (fst d ! i))))"
    unfolding s by (rule least_refs_spec [OF ne']) (rule len, simp add: s)
  show ?thesis
  proof (rule nth_equalityI)
    fix i assume "i < length (least_refs ds)"
    then have i: "i < length groups" using A by simp
    from A i obtain d where d: "d \<in> set ds" "least_refs ds ! i = snd (fst d ! i)" by blast
    from B i obtain d' where d': "d' \<in> set ds" "least_refs ds' ! i = snd (fst d' ! i)" by blast
    have in_refs: "snd (fst x ! i) \<in> (\<lambda>c. evidenceRef (cl_Evidence c)) ` set (concat (map data_cells ds))" if "x \<in> set ds" for x
      using info_refs [OF ok that] i by simp
    have "er_ID (least_refs ds ! i) = er_ID (least_refs ds' ! i)"
      using A B i d d' by (metis order_antisym)
    then show "least_refs ds ! i = least_refs ds' ! i"
      using inj_onD [OF ids_inj [OF ok]] in_refs d d' by metis
  qed (use A B in simp)
qed

lemma data_bucket_perm:
  assumes ok: "rows_ok e groups metric ds" and m: "mset ds = mset ds'" and ne: "ds \<noteq> []"
    and same: "\<And>d d'. d \<in> set ds \<Longrightarrow> d' \<in> set ds \<Longrightarrow> map fst (fst d) = map fst (fst d')"
  shows "canon (data_bucket e filters countRows key ds) = canon (data_bucket e filters countRows key ds')"
proof -
  note ok' = rows_ok_perm [OF ok m] and cm = mset_concat_map [OF m]
  have s: "set ds = set ds'" using m by (metis mset_eq_setD)
  have ne': "ds' \<noteq> []" using ne m by auto
  have "sum_list (concat (map (\<lambda>d. row_values countRows (fst (snd d))) ds))
      = sum_list (concat (map (\<lambda>d. row_values countRows (fst (snd d))) ds'))" by (rule sum_list_perm [OF cm])
  moreover have "sum_list (map (\<lambda>d. row_count countRows (fst (snd d))) ds) = sum_list (map (\<lambda>d. row_count countRows (fst (snd d))) ds')"
    by (rule sum_list_perm) (simp add: m)
  moreover have "foldl max 0 (concat (map (\<lambda>d. row_scales countRows (fst (snd d))) ds))
      = foldl max 0 (concat (map (\<lambda>d. row_scales countRows (fst (snd d))) ds'))"
    unfolding foldl_max using mset_eq_setD [OF cm] by metis
  moreover have "sort_key er_ID (concat (map (\<lambda>d. row_refs countRows (data_cells d) (fst (snd d))) ds))
      = sort_key er_ID (concat (map (\<lambda>d. row_refs countRows (data_cells d) (fst (snd d))) ds'))"
    by (rule sort_key_perm [OF cm conjunct1 [OF concat_refs_distinct [OF ok']]])
  moreover have "map fst (fst (hd ds)) = map fst (fst (hd ds'))"
    using same [of "hd ds" "hd ds'"] ne ne' s hd_in_set by metis
  moreover have "sort_key er_ID (filter_refs e filters [] ds) = sort_key er_ID (filter_refs e filters [] ds')"
  proof (rule sort_key_set)
    have "set (concat (map data_cells ds)) = set (concat (map data_cells ds'))" by (rule mset_eq_setD [OF cm])
    then show "set (filter_refs e filters [] ds) = set (filter_refs e filters [] ds')"
      using filter_refs_spec [OF ids_inj [OF ok], of e filters] filter_refs_spec [OF ids_inj [OF ok'], of e filters]
      by (simp add: matching_refs_def)
  qed (use filter_refs_spec [OF ids_inj [OF ok]] filter_refs_spec [OF ids_inj [OF ok']] in blast)+
  ultimately show ?thesis
    unfolding canon_def data_bucket_def using least_refs_perm [OF ok m ne] by simp
qed

subsection \<open>Finishing\<close>

text \<open>The values an extremum chooses from.\<close>

definition extremum_cell :: "text_env \<Rightarrow> gostring \<Rightarrow> evidence_ref \<Rightarrow> cell \<Rightarrow> bool" where
  "extremum_cell e metric ref c \<longleftrightarrow> cell_id c = er_ID ref \<and> cl_Numeric c \<and> aggregateTermsEqual e (cl_Column c) metric"

definition extremum :: "gostring \<Rightarrow> rat set \<Rightarrow> rat" where
  "extremum function V = (if function = ''MIN'' then Min V else Max V)"

lemma extremum_insert:
  assumes "finite V" "V \<noteq> {}" "function = ''MIN'' \<or> function = ''MAX''"
  shows "extremum function (insert v V)
    = (if function = ''MIN'' \<and> v < extremum function V \<or> function = ''MAX'' \<and> v > extremum function V then v else extremum function V)"
  using assms(3)
proof
  assume f: "function = ''MIN''"
  show ?thesis using Min_insert [OF assms(1,2), of v] by (simp add: extremum_def f min_def not_le)
next
  assume f: "function = ''MAX''"
  show ?thesis using Max_insert [OF assms(1,2), of v] by (auto simp: extremum_def f max_def)
qed

lemma extremum_loop_spec:
  assumes "function = ''MIN'' \<or> function = ''MAX''"
    "\<And>ref c. (ref, c) \<in> set ps \<Longrightarrow> extremum_cell e metric ref c \<Longrightarrow> decimalPattern (cl_Value c)"
  shows "finite V \<Longrightarrow> extremum_loop e function metric ps (if V = {} then None else Some (extremum function V))
    = Inr (let W = V \<union> {decimal_value (cl_Value c) |ref c. (ref, c) \<in> set ps \<and> extremum_cell e metric ref c} in
           if W = {} then None else Some (extremum function W))"
  using assms(2)
proof (induction ps arbitrary: V)
  case (Cons p ps)
  obtain ref c where p: "p = (ref, c)" by (cases p)
  have all: "{decimal_value (cl_Value c') |ref' c'. (ref', c') \<in> set (p # ps) \<and> extremum_cell e metric ref' c'}
      = (if extremum_cell e metric ref c then {decimal_value (cl_Value c)} else {})
        \<union> {decimal_value (cl_Value c) |ref c. (ref, c) \<in> set ps \<and> extremum_cell e metric ref c}"
    by (auto simp: p)
  show ?case
  proof (cases "extremum_cell e metric ref c")
    case True
    have d: "decimalPattern (cl_Value c)" by (rule Cons.prems(2) [of ref c]) (use True p in simp_all)
    let ?V = "insert (decimal_value (cl_Value c)) V"
    have "extremum_step e function metric ref c (if V = {} then None else Some (extremum function V)) = Inr (Some (extremum function ?V))"
    proof (cases "V = {}")
      case True
      then show ?thesis using \<open>extremum_cell e metric ref c\<close> d by (simp add: extremum_step_def extremum_cell_def decimal_def extremum_def)
    next
      case False
      show ?thesis using \<open>extremum_cell e metric ref c\<close> d extremum_insert [OF Cons.prems(1) False assms(1), of "decimal_value (cl_Value c)"] False
        by (simp add: extremum_step_def extremum_cell_def decimal_def split del: if_split)
          auto
    qed
    moreover have "extremum_loop e function metric ps (if ?V = {} then None else Some (extremum function ?V))
      = Inr (let W = ?V \<union> {decimal_value (cl_Value c) |ref c. (ref, c) \<in> set ps \<and> extremum_cell e metric ref c} in
             if W = {} then None else Some (extremum function W))"
      by (rule Cons.IH) (simp add: Cons.prems(1), rule Cons.prems(2), simp_all)
    moreover have "?V \<union> {decimal_value (cl_Value c) |ref c. (ref, c) \<in> set ps \<and> extremum_cell e metric ref c}
      = V \<union> {decimal_value (cl_Value c') |ref' c'. (ref', c') \<in> set (p # ps) \<and> extremum_cell e metric ref' c'}"
      unfolding all using True by auto
    ultimately show ?thesis unfolding p extremum_loop.simps and_then.simps by (simp only: and_then.simps insert_not_empty if_False)
  next
    case False
    then have "extremum_step e function metric ref c (if V = {} then None else Some (extremum function V))
        = Inr (if V = {} then None else Some (extremum function V))"
      by (auto simp: extremum_step_def extremum_cell_def)
    moreover have "extremum_loop e function metric ps (if V = {} then None else Some (extremum function V))
      = Inr (let W = V \<union> {decimal_value (cl_Value c) |ref c. (ref, c) \<in> set ps \<and> extremum_cell e metric ref c} in
             if W = {} then None else Some (extremum function W))"
      by (rule Cons.IH) (simp add: Cons.prems(1), rule Cons.prems(2), simp_all)
    ultimately show ?thesis unfolding all using False by (simp add: p)
  qed
qed (simp add: Let_def)

lemma chooseExtremum_spec:
  assumes "function = ''MIN'' \<or> function = ''MAX''" "list_all validCell cells"
  shows "chooseExtremum e refs cells function metric =
    (let W = {decimal_value (cl_Value c) |ref c. ref \<in> set refs \<and> c \<in> set cells \<and> extremum_cell e metric ref c} in
     if W = {} then Inl CodeIncomplete else Inr (extremum function W))"
proof -
  have d: "decimalPattern (cl_Value c)" if "(ref, c) \<in> set (List.product refs cells)" "extremum_cell e metric ref c" for ref c
    using that assms(2) by (auto simp: extremum_cell_def validCell_def list_all_iff split: if_splits)
  have "extremum_loop e function metric (List.product refs cells) (if ({}::rat set) = {} then None else Some (extremum function {})) =
      Inr (let W = {} \<union> {decimal_value (cl_Value c) |ref c. (ref, c) \<in> set (List.product refs cells) \<and> extremum_cell e metric ref c} in
           if W = {} then None else Some (extremum function W))"
    by (rule extremum_loop_spec [OF assms(1) d]) simp_all
  then show ?thesis by (simp add: chooseExtremum_def Let_def)
qed

lemma canon_fields:
  assumes "canon b = canon b'"
  shows "ab_key b = ab_key b'" "ab_value b = ab_value b'" "ab_count b = ab_count b'" "ab_scale b = ab_scale b'"
    "set (ab_evidence b) = set (ab_evidence b')" "sort_key er_ID (ab_evidence b) = sort_key er_ID (ab_evidence b')"
    "ab_groupValues b = ab_groupValues b'" "ab_groupEvidence b = ab_groupEvidence b'"
    "sort_key er_ID (ab_filterEvidence b) = sort_key er_ID (ab_filterEvidence b')"
proof -
  show s: "sort_key er_ID (ab_evidence b) = sort_key er_ID (ab_evidence b')" using arg_cong [OF assms, of ab_evidence] by (simp add: canon_def)
  then show "set (ab_evidence b) = set (ab_evidence b')" by (metis set_sort)
  show "ab_key b = ab_key b'" "ab_value b = ab_value b'" "ab_count b = ab_count b'" "ab_scale b = ab_scale b'"
    "ab_groupValues b = ab_groupValues b'" "ab_groupEvidence b = ab_groupEvidence b'"
    "sort_key er_ID (ab_filterEvidence b) = sort_key er_ID (ab_filterEvidence b')"
    using arg_cong [OF assms, of ab_key] arg_cong [OF assms, of ab_value] arg_cong [OF assms, of ab_count] arg_cong [OF assms, of ab_scale]
      arg_cong [OF assms, of ab_groupValues] arg_cong [OF assms, of ab_groupEvidence] arg_cong [OF assms, of ab_filterEvidence]
    by (simp_all add: canon_def)
qed

lemma canon_update:
  "canon (b\<lparr>ab_value := v, ab_scale := s\<rparr>) = (canon b)\<lparr>ab_value := v, ab_scale := s\<rparr>"
  "canon (b\<lparr>ab_value := v\<rparr>) = (canon b)\<lparr>ab_value := v\<rparr>"
  by (simp_all add: canon_def)

lemma finish_canon:
  assumes c: "canon b = canon b'" and cells: "list_all validCell cells" and f: "finish_bucket e function metric cells b = Inr r"
  shows "\<exists>r'. finish_bucket e function metric cells b' = Inr r' \<and> canon r = canon r' \<and> ab_key r = ab_key b"
proof -
  note F = canon_fields [OF c]
  consider "function = ''COUNT''" | "function = ''AVG''" | "function = ''MIN'' \<or> function = ''MAX''"
    | "function \<notin> {''COUNT'', ''AVG'', ''MIN'', ''MAX''}" by blast
  then show ?thesis
  proof cases
    case 1
    with f have "r = b\<lparr>ab_value := of_int (ab_count b), ab_scale := 0\<rparr>" by (simp add: finish_bucket_def)
    then show ?thesis by (simp add: finish_bucket_def 1 canon_update c F(3))
  next
    case 2
    with f have "r = b\<lparr>ab_value := ab_value b' / of_int (ab_count b'),
               ab_scale := (case terminatingDecimalScale (ab_value b' / of_int (ab_count b')) of
                              Some exact \<Rightarrow> max (ab_scale b') exact
                            | None \<Rightarrow> if ab_scale b' < 6 then 6 else ab_scale b')\<rparr>"
      by (simp only: finish_bucket_def F(2-4)) (simp add: Let_def F(4))
    then show ?thesis by (simp add: finish_bucket_def 2 canon_update c F(4) Let_def)
  next
    case 3
    have same: "chooseExtremum e (ab_evidence b') cells function metric = chooseExtremum e (ab_evidence b) cells function metric"
      unfolding chooseExtremum_spec [OF 3 cells] F(5) ..
    from 3 have fb: "finish_bucket e function metric cells x
      = and_then (chooseExtremum e (ab_evidence x) cells function metric) (\<lambda>v. Inr (x\<lparr>ab_value := v\<rparr>))" for x
      by (auto simp: finish_bucket_def)
    from f show ?thesis unfolding fb same
      by (cases "chooseExtremum e (ab_evidence b) cells function metric") (auto simp: canon_update c)
  next
    case 4
    with f c show ?thesis by (simp add: finish_bucket_def)
  qed
qed

subsection \<open>When merging succeeds\<close>

lemma merge_bucket_total: "(\<And>old. \<exists>b. f old = Inr b) \<Longrightarrow> \<exists>bs'. merge_bucket key f bs = Inr bs'"
proof (induction bs)
  case Nil
  from Nil obtain b where "f None = Inr b" by blast
  then show ?case by simp
next
  case (Cons b bs)
  from Cons.prems obtain x where "f (Some b) = Inr x" by blast
  with Cons show ?case by auto
qed

lemma merge_bucket_length:
  "merge_bucket key f bs = Inr bs' \<Longrightarrow> length bs' = length bs + (if key \<in> ab_key ` set bs then 0 else 1)"
  by (induction bs arbitrary: bs') (auto split: if_splits)

lemma merge_row_length:
  assumes "merge_row e filters groups metric countRows cells bs = Inr bs'" "length bs \<le> maximumBuckets"
  shows "length bs' \<le> maximumBuckets"
proof -
  from assms(1) obtain info numbers where i: "row_info e groups metric countRows cells = Inr (info, numbers)"
    by (auto simp: merge_row_def)
  with assms(1) obtain f where "merge_bucket (bucket_key groups info) f bs = Inr bs'"
    and "bucket_key groups info \<notin> ab_key ` set bs \<Longrightarrow> length bs < maximumBuckets"
    by (auto simp: merge_row_def split: if_splits)
  with merge_bucket_length [of "bucket_key groups info" f bs bs'] assms(2) show ?thesis by (auto split: if_splits)
qed

lemma merge_rows_length:
  "merge_rows e filters groups metric countRows rs bs = Inr bs' \<Longrightarrow> length bs \<le> maximumBuckets \<Longrightarrow> length bs' \<le> maximumBuckets"
proof (induction rs arbitrary: bs)
  case (Cons r rs)
  then obtain b1 where 1: "merge_row e filters groups metric countRows (snd r) bs = Inr b1"
    "merge_rows e filters groups metric countRows rs b1 = Inr bs'" by auto
  from Cons.IH [OF 1(2) merge_row_length [OF 1(1) Cons.prems(2)]] show ?case .
qed simp

lemma add_numbers_total: "list_all (\<lambda>c. decimalPattern (cl_Value c)) ns \<Longrightarrow> \<exists>b'. add_numbers ns b = Inr b'"
  by (induction ns arbitrary: b) (auto simp: decimal_def)

lemma add_row_total:
  "list_all (\<lambda>c. decimalPattern (cl_Value c)) numbers \<Longrightarrow> \<exists>b'. add_row e filters countRows cells numbers b = Inr b'"
  using add_numbers_total [of numbers b] by (auto simp: add_row_def Let_def)

lemma merge_row_total:
  assumes "row_info e groups metric countRows cells = Inr (info, numbers)" "list_all (\<lambda>c. decimalPattern (cl_Value c)) numbers"
    "bucket_key groups info \<in> ab_key ` set bs \<or> length bs < maximumBuckets"
  shows "\<exists>bs'. merge_row e filters groups metric countRows cells bs = Inr bs'"
proof -
  have "\<exists>bs'. merge_bucket (bucket_key groups info)
      (\<lambda>old. add_row e filters countRows cells numbers
         (case old of None \<Rightarrow> new_bucket (bucket_key groups info) info
          | Some b \<Rightarrow> b\<lparr>ab_groupEvidence := map2 smaller_ref (ab_groupEvidence b) (map snd info)\<rparr>)) bs = Inr bs'"
    by (rule merge_bucket_total) (rule add_row_total [OF assms(2)])
  with assms(1,3) show ?thesis by (auto simp: merge_row_def)
qed

lemma buckets_inv_length:
  assumes "buckets_inv e filters countRows groups ds bs"
  shows "length bs = card (data_key groups ` set ds)"
proof -
  have "card (set (map ab_key bs)) = length (map ab_key bs)" by (rule distinct_card) (use assms in \<open>simp add: buckets_inv_def\<close>)
  with buckets_inv_keys [OF assms] show ?thesis by simp
qed

lemma merge_rows_total:
  assumes "list_all (\<lambda>d. row_info e groups metric countRows (data_cells d) = Inr (fst d, fst (snd d))
      \<and> list_all (\<lambda>c. decimalPattern (cl_Value c)) (fst (snd d))) es"
    "map snd rs = map data_cells es" "buckets_inv e filters countRows groups ds bs"
    "card (data_key groups ` set (ds @ es)) \<le> maximumBuckets"
  shows "\<exists>bs'. merge_rows e filters groups metric countRows rs bs = Inr bs'"
  using assms
proof (induction es arbitrary: rs ds bs)
  case (Cons d es)
  obtain info numbers cells where d: "d = (info, numbers, cells)" by (cases d)
  from Cons.prems(2) d obtain r rs' where r: "rs = r # rs'" "snd r = cells" "map snd rs' = map data_cells es" by (cases rs) auto
  have info: "row_info e groups metric countRows (snd r) = Inr (info, numbers)"
    and dec: "list_all (\<lambda>c. decimalPattern (cl_Value c)) numbers" using Cons.prems(1) d r(2) by simp_all
  have key: "data_key groups d = bucket_key groups info" by (simp add: data_key_def d)
  have room: "bucket_key groups info \<in> ab_key ` set bs \<or> length bs < maximumBuckets"
  proof (cases "data_key groups d \<in> data_key groups ` set ds")
    case True
    with buckets_inv_keys [OF Cons.prems(3)] key show ?thesis by simp
  next
    case False
    have "card (data_key groups ` set ds) < card (insert (data_key groups d) (data_key groups ` set ds))" using False by simp
    also have "\<dots> \<le> card (data_key groups ` set (ds @ d # es))" by (rule card_mono) auto
    finally show ?thesis using Cons.prems(4) buckets_inv_length [OF Cons.prems(3)] by simp
  qed
  from merge_row_total [OF info dec room] obtain b1 where b1: "merge_row e filters groups metric countRows (snd r) bs = Inr b1" by blast
  from merge_row_inv [OF b1 Cons.prems(3)] info have inv: "buckets_inv e filters countRows groups (ds @ [d]) b1"
    using d r(2) by auto
  have "\<exists>bs'. merge_rows e filters groups metric countRows rs' b1 = Inr bs'"
    by (rule Cons.IH [OF _ r(3) inv]) (use Cons.prems in simp_all)
  with b1 r(1) show ?case by simp
qed simp

subsection \<open>Any two orders of the rows\<close>

text \<open>The cells of a request, row by row.\<close>

definition cells_ok :: "row list \<Rightarrow> bool" where
  "cells_ok rs \<longleftrightarrow> distinct (map cell_id (concat (map snd rs))) \<and> (\<forall>r\<in>set rs. snd r \<noteq> [] \<and> list_all validCell (snd r))"

lemma cells_ok_perm: "cells_ok rs \<Longrightarrow> mset rs = mset rs' \<Longrightarrow> cells_ok rs'"
proof -
  assume ok: "cells_ok rs" and m: "mset rs = mset rs'"
  have "mset (map cell_id (concat (map snd rs))) = mset (map cell_id (concat (map snd rs')))"
    using mset_concat_map [OF m, of snd] by (simp only: mset_map)
  then have "distinct (map cell_id (concat (map snd rs')))"
    using ok mset_eq_imp_distinct_iff [THEN iffD1] unfolding cells_ok_def by blast
  moreover have "set rs' = set rs" using m by (metis mset_eq_setD)
  ultimately show ?thesis using ok by (simp add: cells_ok_def)
qed

definition row_datum :: "text_env \<Rightarrow> gostring list \<Rightarrow> gostring \<Rightarrow> bool \<Rightarrow> cell list \<Rightarrow> row_data" where
  "row_datum e groups metric countRows cells =
    (case row_info e groups metric countRows cells of Inr (info, numbers) \<Rightarrow> (info, numbers, cells) | Inl _ \<Rightarrow> ([], [], cells))"

abbreviation row_data_of :: "text_env \<Rightarrow> gostring list \<Rightarrow> gostring \<Rightarrow> bool \<Rightarrow> row list \<Rightarrow> row_data list" where
  "row_data_of e groups metric countRows rs \<equiv> map (\<lambda>r. row_datum e groups metric countRows (snd r)) rs"

lemma buckets_inv_Nil: "buckets_inv e filters countRows groups [] []"
  by (simp add: buckets_inv_def)

lemma merge_rows_data:
  assumes "merge_rows e filters groups metric countRows rs [] = Inr bs"
  shows "buckets_inv e filters countRows groups (row_data_of e groups metric countRows rs) bs
    \<and> list_all (\<lambda>r. \<exists>info numbers. row_info e groups metric countRows (snd r) = Inr (info, numbers)) rs"
proof -
  from merge_rows_inv [OF assms buckets_inv_Nil] obtain es where
    es: "map snd rs = map data_cells es"
      "list_all (\<lambda>d. row_info e groups metric countRows (data_cells d) = Inr (fst d, fst (snd d))) es"
      "buckets_inv e filters countRows groups es bs" by auto
  have "map (row_datum e groups metric countRows) (map data_cells es) = es"
    using es(2) by (induction es) (simp_all add: row_datum_def)
  then have "row_data_of e groups metric countRows rs = es" unfolding es(1) [symmetric] by (simp add: comp_def)
  moreover have "list_all (\<lambda>cells. \<exists>info numbers. row_info e groups metric countRows cells = Inr (info, numbers)) (map snd rs)"
    unfolding es(1) using es(2) by (auto simp: list_all_iff)
  ultimately show ?thesis using es(3) by (simp add: list_all_iff)
qed

lemma row_data_ok:
  assumes "cells_ok rs" "list_all (\<lambda>r. \<exists>info numbers. row_info e groups metric countRows (snd r) = Inr (info, numbers)) rs"
  shows "rows_ok e groups metric (row_data_of e groups metric countRows rs)
    \<and> list_all (\<lambda>d. row_info e groups metric countRows (data_cells d) = Inr (fst d, fst (snd d))
        \<and> list_all (\<lambda>c. decimalPattern (cl_Value c)) (fst (snd d))) (row_data_of e groups metric countRows rs)
    \<and> map data_cells (row_data_of e groups metric countRows rs) = map snd rs"
proof -
  have cells: "data_cells (row_datum e groups metric countRows cs) = cs" for cs
    by (auto simp: row_datum_def split: sum.splits)
  have row: "info_ok e groups metric (row_datum e groups metric countRows (snd r))
      \<and> row_info e groups metric countRows (snd r) = Inr (fst (row_datum e groups metric countRows (snd r)), fst (snd (row_datum e groups metric countRows (snd r))))
      \<and> list_all (\<lambda>c. decimalPattern (cl_Value c)) (fst (snd (row_datum e groups metric countRows (snd r))))" if r: "r \<in> set rs" for r
  proof -
    from assms(2) r obtain info numbers where i: "row_info e groups metric countRows (snd r) = Inr (info, numbers)"
      by (auto simp: list_all_iff)
    have k: "info_ok e groups metric (info, numbers, snd r)" using row_info_ok [OF i] by simp
    have v: "list_all validCell (snd r)" using assms(1) r by (simp add: cells_ok_def)
    have "list_all (\<lambda>c. decimalPattern (cl_Value c)) numbers"
      using k v by (auto simp: info_ok_def list_all_iff validCell_def split: if_splits)
    with i k show ?thesis by (simp add: row_datum_def)
  qed
  have cm: "map data_cells (row_data_of e groups metric countRows rs) = map snd rs" by (simp add: cells)
  moreover have "rows_ok e groups metric (row_data_of e groups metric countRows rs)"
    unfolding rows_ok_def cm using assms(1) row by (simp add: cells_ok_def cells)
  moreover have "list_all (\<lambda>d. row_info e groups metric countRows (data_cells d) = Inr (fst d, fst (snd d))
        \<and> list_all (\<lambda>c. decimalPattern (cl_Value c)) (fst (snd d))) (row_data_of e groups metric countRows rs)"
    using row by (simp add: list_all_iff cells)
  ultimately show ?thesis by blast
qed

lemma same_group:
  assumes "rows_ok e groups metric ds" "d \<in> set (of_key groups ds key)" "d' \<in> set (of_key groups ds key)"
  shows "map fst (fst d) = map fst (fst d')"
proof (cases "groups = []")
  case True
  with assms info_refs [OF assms(1), of d] info_refs [OF assms(1), of d'] show ?thesis by (simp add: of_key_def)
next
  case False
  with assms have "compositeGroupKey (map fst (fst d)) = compositeGroupKey (map fst (fst d'))"
    by (simp add: of_key_def data_key_def bucket_key_def)
  then show ?thesis by (rule compositeGroupKey_inj)
qed

lemma of_key_nonempty: "key \<in> data_key groups ` set ds \<Longrightarrow> of_key groups ds key \<noteq> []"
  by (auto simp: of_key_def filter_empty_conv)

lemma merge_perm:
  assumes m: "merge_rows e filters groups metric countRows rs [] = Inr bs" and p: "mset rs = mset rs'" and ok: "cells_ok rs"
  shows "\<exists>bs'. merge_rows e filters groups metric countRows rs' [] = Inr bs' \<and> canon ` set bs = canon ` set bs'
    \<and> distinct (map ab_key bs) \<and> distinct (map ab_key bs')"
proof -
  let ?D = "row_data_of e groups metric countRows"
  note inv = conjunct1 [OF merge_rows_data [OF m]] and all = conjunct2 [OF merge_rows_data [OF m]]
  have s: "set rs' = set rs" using p by (metis mset_eq_setD)
  have all': "list_all (\<lambda>r. \<exists>info numbers. row_info e groups metric countRows (snd r) = Inr (info, numbers)) rs'"
    using all s by (simp add: list_all_iff)
  note ok' = cells_ok_perm [OF ok p]
  note D = row_data_ok [OF ok all] and D' = row_data_ok [OF ok' all']
  have mD: "mset (?D rs) = mset (?D rs')" using p by simp
  have keys: "data_key groups ` set (?D rs') = data_key groups ` set (?D rs)" by (simp add: s)
  have "length bs \<le> maximumBuckets" by (rule merge_rows_length [OF m]) (simp add: maximumBuckets_def)
  then have card: "card (data_key groups ` set ([] @ ?D rs')) \<le> maximumBuckets"
    using buckets_inv_length [OF inv] keys by simp
  have "\<exists>bs'. merge_rows e filters groups metric countRows rs' [] = Inr bs'"
    by (rule merge_rows_total [OF _ _ buckets_inv_Nil card]) (use D' in simp_all)
  then obtain bs' where bs': "merge_rows e filters groups metric countRows rs' [] = Inr bs'" by blast
  note inv' = conjunct1 [OF merge_rows_data [OF bs']]
  have canon: "canon (data_bucket e filters countRows key (of_key groups (?D rs) key))
      = canon (data_bucket e filters countRows key (of_key groups (?D rs') key))" if k: "key \<in> data_key groups ` set (?D rs)" for key
  proof (rule data_bucket_perm)
    show "rows_ok e groups metric (of_key groups (?D rs) key)" unfolding of_key_def using D rows_ok_filter by blast
    show "mset (of_key groups (?D rs) key) = mset (of_key groups (?D rs') key)" unfolding of_key_def mset_filter mD ..
    show "of_key groups (?D rs) key \<noteq> []" by (rule of_key_nonempty [OF k])
    show "map fst (fst d) = map fst (fst d')" if "d \<in> set (of_key groups (?D rs) key)" "d' \<in> set (of_key groups (?D rs) key)" for d d'
      by (rule same_group [OF conjunct1 [OF D] that])
  qed
  have bs: "set bs = (\<lambda>key. data_bucket e filters countRows key (of_key groups (?D rs) key)) ` data_key groups ` set (?D rs)"
    using inv unfolding buckets_inv_def by (rule conjunct2)
  have bs2: "set bs' = (\<lambda>key. data_bucket e filters countRows key (of_key groups (?D rs') key)) ` data_key groups ` set (?D rs)"
    using inv' unfolding buckets_inv_def keys by (rule conjunct2)
  have "canon ` set bs = canon ` set bs'"
    unfolding bs bs2 image_comp [of canon] by (rule image_cong [OF refl]) (unfold comp_apply, rule canon)
  then show ?thesis using bs' inv inv' by (simp add: buckets_inv_def)
qed

lemma finish_buckets_list: "finish_buckets e function metric cells bs = Inr fs \<longleftrightarrow> list_all2 (\<lambda>b f. finish_bucket e function metric cells b = Inr f) bs fs"
proof (induction bs arbitrary: fs)
  case (Cons b bs)
  show ?case
  proof
    assume "finish_buckets e function metric cells (b # bs) = Inr fs"
    then obtain f gs where "finish_bucket e function metric cells b = Inr f" "finish_buckets e function metric cells bs = Inr gs" "fs = f # gs"
      by auto
    with Cons.IH [of gs] show "list_all2 (\<lambda>b f. finish_bucket e function metric cells b = Inr f) (b # bs) fs" by simp
  next
    assume "list_all2 (\<lambda>b f. finish_bucket e function metric cells b = Inr f) (b # bs) fs"
    then obtain f gs where "finish_bucket e function metric cells b = Inr f" "list_all2 (\<lambda>b f. finish_bucket e function metric cells b = Inr f) bs gs" "fs = f # gs"
      by (auto simp: list_all2_Cons1)
    with Cons.IH [of gs] show "finish_buckets e function metric cells (b # bs) = Inr fs" by simp
  qed
qed auto

lemma finish_bucket_key: "finish_bucket e function metric cells b = Inr f \<Longrightarrow> ab_key f = ab_key b"
  by (auto simp: finish_bucket_def Let_def split: if_splits)

lemma finish_keys: "list_all2 (\<lambda>b f. finish_bucket e function metric cells b = Inr f) bs fs \<Longrightarrow> map ab_key fs = map ab_key bs"
  by (induction rule: list_all2_induct) (simp_all add: finish_bucket_key)

lemma finish_buckets_total:
  "(\<And>b. b \<in> set bs \<Longrightarrow> \<exists>f. finish_bucket e function metric cells b = Inr f) \<Longrightarrow> \<exists>fs. finish_buckets e function metric cells bs = Inr fs"
proof (induction bs)
  case (Cons b bs)
  from Cons.prems [of b] obtain f where "finish_bucket e function metric cells b = Inr f" by auto
  with Cons show ?case by auto
qed simp

lemma finish_sub:
  assumes "canon ` set bs \<subseteq> canon ` set bs'" "list_all validCell cells"
    "finish_buckets e function metric cells bs = Inr fs" "finish_buckets e function metric cells bs' = Inr fs'"
  shows "canon ` set fs \<subseteq> canon ` set fs'"
proof
  fix x assume "x \<in> canon ` set fs"
  then obtain f where f: "f \<in> set fs" "x = canon f" by blast
  note l = assms(3) [unfolded finish_buckets_list] and l' = assms(4) [unfolded finish_buckets_list]
  from list_all2_right [OF l f(1)] obtain b where b: "b \<in> set bs" "finish_bucket e function metric cells b = Inr f" by blast
  from b(1) assms(1) obtain b' where b': "b' \<in> set bs'" "canon b = canon b'" by blast
  from finish_canon [OF b'(2) assms(2) b(2)] obtain r where r: "finish_bucket e function metric cells b' = Inr r" "canon f = canon r" by blast
  from list_all2_left [OF l' b'(1)] obtain f' where "f' \<in> set fs'" "finish_bucket e function metric cells b' = Inr f'" by blast
  with r f(2) show "x \<in> canon ` set fs'" by auto
qed

lemma finish_perm:
  assumes c: "canon ` set bs = canon ` set bs'" "list_all validCell cells" and f: "finish_buckets e function metric cells bs = Inr fs"
  shows "\<exists>fs'. finish_buckets e function metric cells bs' = Inr fs' \<and> canon ` set fs = canon ` set fs'"
proof -
  note l = f [unfolded finish_buckets_list]
  have "\<exists>r. finish_bucket e function metric cells b' = Inr r" if b': "b' \<in> set bs'" for b'
  proof -
    from b' c(1) obtain b where b: "b \<in> set bs" "canon b = canon b'" by (metis imageE imageI)
    from list_all2_left [OF l b(1)] obtain r where "finish_bucket e function metric cells b = Inr r" by blast
    from finish_canon [OF b(2) c(2) this] show ?thesis by blast
  qed
  from finish_buckets_total [OF this] obtain fs' where fs': "finish_buckets e function metric cells bs' = Inr fs'" by blast
  from finish_sub [OF equalityD1 [OF c(1)] c(2) f fs'] finish_sub [OF equalityD2 [OF c(1)] c(2) fs' f] fs'
  show ?thesis by blast
qed

lemma canon_key [simp]: "ab_key (canon b) = ab_key b"
  by (simp add: canon_def)

text \<open>The output: sorted, cut, rendered.\<close>

definition output_buckets :: "aggregate_request \<Rightarrow> gostring \<Rightarrow> aggregate_bucket list \<Rightarrow> bucket list" where
  "output_buckets rq function finished =
    (let spec = rq_Spec rq; sorted = sort_key (bucket_rank (as_Order spec)) finished;
         limit = (if as_Limit spec > 0 \<and> as_Limit spec < int (length sorted) then nat (as_Limit spec) else length sorted)
     in map (render_bucket function) (take limit sorted))"

lemma output_perm:
  assumes c: "canon ` set fs = canon ` set fs'" and d: "distinct (map ab_key fs)" "distinct (map ab_key fs')"
  shows "output_buckets rq function fs = output_buckets rq function fs'"
proof -
  let ?rank = "bucket_rank (as_Order (rq_Spec rq))"
  have keys: "distinct (map ?rank (map canon xs))" if "distinct (map ab_key xs)" for xs
  proof -
    have "distinct (map snd (map ?rank (map canon xs)))" using that by (simp add: bucket_rank_def comp_def)
    then show ?thesis by (simp only: distinct_map)
  qed
  have "map canon (sort_key ?rank xs) = sort_key ?rank (map canon xs)" for xs
    using sort_key_map [of canon ?rank xs] by (simp add: rank_canon)
  moreover have "sort_key ?rank (map canon fs) = sort_key ?rank (map canon fs')"
    by (rule sort_key_set [OF _ keys [OF d(1)] keys [OF d(2)]]) (simp add: c)
  ultimately have s: "map canon (sort_key ?rank fs) = map canon (sort_key ?rank fs')" by simp
  then have len: "length (sort_key ?rank fs) = length (sort_key ?rank fs')" by (metis length_map)
  have render: "map (render_bucket function) (take n xs) = map (render_bucket function) (take n (map canon xs))" for n xs
    by (simp add: take_map render_canon)
  show ?thesis unfolding output_buckets_def Let_def len
    by (subst render, subst (2) render, simp only: s)
qed

section \<open>Any two orders\<close>

text \<open>The functions that do not iterate over a map do not depend on the orders.\<close>

abbreviation reorder :: "text_env \<Rightarrow> (row list \<Rightarrow> row list) \<Rightarrow> (gostring list \<Rightarrow> gostring list) \<Rightarrow> text_env" where
  "reorder e p q \<equiv> e\<lparr>ag_rows := p, ag_cols := q\<rparr>"

lemma reorder_terms [simp]:
  "aggregateTermIdentity (reorder e p q) = aggregateTermIdentity e"
  "aggregateTermsEqual (reorder e p q) = aggregateTermsEqual e"
  by (auto simp: fun_eq_iff aggregateTermIdentity_def aggregateTermsEqual_def Let_def)

lemma reorder_group_cell [simp]: "group_cell (reorder e p q) gs as c = group_cell e gs as c"
  by (induction gs as c rule: group_cell.induct) (auto split: option.splits)

lemma reorder_scan_row [simp]: "scan_row (reorder e p q) groups metric found numbers cs = scan_row e groups metric found numbers cs"
  by (induction cs arbitrary: found numbers) (simp_all add: Let_def)

lemma reorder_filters [simp]:
  "filter_matches (reorder e p q) = filter_matches e" "validFilter (reorder e p q) = validFilter e"
  "ValidateFilters (reorder e p q) = ValidateFilters e"
proof -
  show "filter_matches (reorder e p q) = filter_matches e" by (simp add: fun_eq_iff filter_matches_def)
  show v: "validFilter (reorder e p q) = validFilter e" by (simp add: fun_eq_iff validFilter_def)
  show "ValidateFilters (reorder e p q) = ValidateFilters e" by (simp add: fun_eq_iff ValidateFilters_def v)
qed

lemma reorder_groups_loop [simp]: "groups_loop (reorder e p q) seen gs = groups_loop e seen gs"
  by (induction gs arbitrary: seen) simp_all

lemma reorder_rows [simp]:
  "applyFilters (reorder e p q) rows fs = applyFilters e rows fs"
  "numeric_columns (reorder e p q) rows = numeric_columns e rows"
  "non_numeric_columns (reorder e p q) rows = non_numeric_columns e rows"
  "validateSpec (reorder e p q) spec = validateSpec e spec"
  by (simp_all add: applyFilters_filter numeric_columns_def non_numeric_columns_def validateSpec_def)

lemma reorder_row_info [simp]:
  "row_info (reorder e p q) groups metric countRows cells = row_info e groups metric countRows cells"
  "add_row (reorder e p q) = add_row e"
  by (simp_all add: row_info_def add_row_def appendFilterEvidence_def fun_eq_iff)

lemma reorder_merge_row [simp]:
  "merge_row (reorder e p q) filters groups metric countRows cells bs = merge_row e filters groups metric countRows cells bs"
  unfolding merge_row_def reorder_row_info ..

lemma reorder_merge_rows [simp]:
  "merge_rows (reorder e p q) filters groups metric countRows rs bs = merge_rows e filters groups metric countRows rs bs"
proof (induction rs arbitrary: bs)
  case (Cons r rs)
  then have "merge_rows (reorder e p q) filters groups metric countRows rs = merge_rows e filters groups metric countRows rs"
    by (simp add: fun_eq_iff)
  then show ?case by simp
qed simp

lemma reorder_extremum_loop: "extremum_loop (reorder e p q) function metric ps chosen = extremum_loop e function metric ps chosen"
proof (induction ps arbitrary: chosen)
  case (Cons x ps)
  then have "extremum_loop (reorder e p q) function metric ps = extremum_loop e function metric ps" by (simp add: fun_eq_iff)
  then show ?case by (cases x) (simp add: extremum_step_def)
qed simp

lemma reorder_finish [simp]:
  "finish_bucket (reorder e p q) function metric cells b = finish_bucket e function metric cells b"
  "finish_buckets (reorder e p q) function metric cells bs = finish_buckets e function metric cells bs"
proof -
  show 1: "finish_bucket (reorder e p q) function metric cells b = finish_bucket e function metric cells b" for b
    by (simp add: finish_bucket_def chooseExtremum_def reorder_extremum_loop)
  show "finish_buckets (reorder e p q) function metric cells bs = finish_buckets e function metric cells bs"
    by (induction bs) (simp_all add: 1)
qed

subsection \<open>The columns\<close>

lemma find_unique:
  assumes "set xs = set ys" "\<And>a b. a \<in> set xs \<Longrightarrow> b \<in> set xs \<Longrightarrow> P a \<Longrightarrow> P b \<Longrightarrow> a = b"
  shows "find P xs = find P ys"
proof (cases "find P xs")
  case None
  with assms(1) have "find P ys = None" by (simp add: find_None_iff)
  with None show ?thesis by simp
next
  case (Some a)
  then have a: "a \<in> set xs" "P a" by (auto simp: find_Some_iff)
  then have "find P ys \<noteq> None" using assms(1) by (auto simp: find_None_iff)
  then obtain b where b: "find P ys = Some b" by blast
  then have "b \<in> set ys" "P b" by (auto simp: find_Some_iff)
  with a assms b Some show ?thesis by metis
qed

lemma mset_single: "mset xs = {#a#} \<longleftrightarrow> xs = [a]"
  by (cases xs) auto

text \<open>A set of columns in canonical form: their identities are themselves.\<close>

definition canonical_columns :: "text_env \<Rightarrow> gostring list \<Rightarrow> bool" where
  "canonical_columns e columns \<longleftrightarrow> (\<forall>c\<in>set columns. aggregateTermIdentity e c = c)"

lemma find_column:
  assumes "canonical_columns e columns" "mset xs = mset columns" "mset ys = mset columns"
  shows "find (\<lambda>column. aggregateTermsEqual e column requested) xs = find (\<lambda>column. aggregateTermsEqual e column requested) ys"
proof (rule find_unique)
  show "set xs = set ys" using assms(2,3) by (metis mset_eq_setD)
  have s: "set xs = set columns" using assms(2) by (rule mset_eq_setD)
  show "a = b" if "a \<in> set xs" "b \<in> set xs" "aggregateTermsEqual e a requested" "aggregateTermsEqual e b requested" for a b
    using that assms(1) unfolding s canonical_columns_def aggregateTermsEqual_def by metis
qed

lemma perm_single:
  assumes "mset xs = mset columns" "mset ys = mset columns" "length columns = 1"
  shows "hd xs = hd ys"
proof -
  from assms(3) obtain c where "columns = [c]" by (auto simp: length_Suc_conv)
  with assms(1,2) show ?thesis by (simp add: mset_single)
qed

lemma chooseColumn_perm:
  assumes "canonical_columns e columns" "mset (ag_cols e columns) = mset columns" "mset (q columns) = mset columns"
  shows "chooseColumn (reorder e p q) requested columns = chooseColumn e requested columns"
  using find_column [OF assms(1,3,2)] perm_single [OF assms(3,2)]
  by (simp add: chooseColumn_def split: option.split)

lemma group_fallback_perm:
  assumes "mset (ag_cols e columns) = mset columns" "mset (q columns) = mset columns"
  shows "group_fallback (reorder e p q) columns = group_fallback e columns"
proof -
  have single: "(case xs of [column] \<Rightarrow> column | _ \<Rightarrow> []) = (case ys of [column] \<Rightarrow> column | _ \<Rightarrow> [])"
    if m: "mset xs = mset ys" for xs ys :: "gostring list"
  proof (cases "\<exists>a. ys = [a]")
    case True
    then obtain a where a: "ys = [a]" by blast
    with m have "xs = [a]" by (simp add: mset_single)
    with a show ?thesis by simp
  next
    case False
    moreover have "\<nexists>a. xs = [a]" using False m mset_single by metis
    ultimately show ?thesis by (auto split: list.splits)
  qed
  have t: "temporalColumn (reorder e p q) = temporalColumn e" by (simp add: fun_eq_iff temporalColumn_def)
  show ?thesis unfolding group_fallback_def t by (rule single) (simp add: assms)
qed

lemma group_columns_perm:
  assumes "canonical_columns e columns" "mset (ag_cols e columns) = mset columns" "mset (q columns) = mset columns"
  shows "group_columns_loop (reorder e p q) single columns terms = group_columns_loop e single columns terms"
proof (induction terms)
  case (Cons t ts)
  have "find (\<lambda>column. aggregateTermsEqual e column t) (q columns) = find (\<lambda>column. aggregateTermsEqual e column t) (ag_cols e columns)"
    by (rule find_column [OF assms(1,3,2)])
  with Cons show ?case by (simp add: Let_def group_fallback_perm [of e columns q, OF assms(2,3)])
qed simp

lemma chooseGroupColumns_perm:
  assumes "canonical_columns e columns" "mset (ag_cols e columns) = mset columns" "mset (q columns) = mset columns"
  shows "chooseGroupColumns (reorder e p q) requested columns = chooseGroupColumns e requested columns"
  by (simp add: chooseGroupColumns_def group_columns_perm [of e columns q, OF assms])

subsection \<open>The request\<close>

lemma reduce_rows_output:
  "reduce_rows e rq rows metric function groups =
    and_then (merge_rows e (rq_Filters rq) groups metric (function = ''COUNT'') (ag_rows e rows) []) (\<lambda>buckets.
      if buckets = [] then Inl CodeIncomplete
      else and_then (finish_buckets e function metric (rq_Cells rq) buckets) (\<lambda>finished.
        Inr \<lparr>ar_Function = function, ar_Metric = metric, ar_GroupBy = groups, ar_Order = as_Order (rq_Spec rq),
             ar_Buckets = output_buckets rq function finished\<rparr>))"
  unfolding reduce_rows_def output_buckets_def Let_def ..

lemma reduce_rows_perm:
  assumes r: "reduce_rows e rq rows metric function groups = Inr res"
    and p: "mset (ag_rows e rows) = mset rows" "mset (p rows) = mset rows"
    and ok: "cells_ok rows" "list_all validCell (rq_Cells rq)"
  shows "reduce_rows (reorder e p q) rq rows metric function groups = Inr res"
proof -
  from r obtain bs fs where
    bs: "merge_rows e (rq_Filters rq) groups metric (function = ''COUNT'') (ag_rows e rows) [] = Inr bs" "bs \<noteq> []"
    and fs: "finish_buckets e function metric (rq_Cells rq) bs = Inr fs"
    and res: "res = \<lparr>ar_Function = function, ar_Metric = metric, ar_GroupBy = groups, ar_Order = as_Order (rq_Spec rq),
             ar_Buckets = output_buckets rq function fs\<rparr>"
    unfolding reduce_rows_output by (auto split: if_splits)
  have m: "mset (ag_rows e rows) = mset (p rows)" by (simp only: p)
  have ok': "cells_ok (ag_rows e rows)" by (rule cells_ok_perm [OF ok(1)]) (simp add: p)
  from merge_perm [OF bs(1) m ok'] obtain bs' where
    bs': "merge_rows e (rq_Filters rq) groups metric (function = ''COUNT'') (p rows) [] = Inr bs'"
    "canon ` set bs = canon ` set bs'" "distinct (map ab_key bs)" "distinct (map ab_key bs')" by blast
  have ne: "bs' \<noteq> []" using bs(2) bs'(2) by auto
  from finish_perm [OF bs'(2) ok(2) fs] obtain fs' where
    fs': "finish_buckets e function metric (rq_Cells rq) bs' = Inr fs'" "canon ` set fs = canon ` set fs'" by blast
  have d: "distinct (map ab_key fs)" "distinct (map ab_key fs')"
    using finish_keys [OF fs [unfolded finish_buckets_list]] finish_keys [OF fs'(1) [unfolded finish_buckets_list]] bs'(3,4) by simp_all
  have "output_buckets rq function fs' = output_buckets rq function fs"
    by (rule output_perm [OF fs'(2) d, symmetric])
  then show ?thesis unfolding reduce_rows_output by (simp add: bs' ne fs' res)
qed

text \<open>The rows that the filters keep, of the rows of a request.\<close>

lemma collected_ok:
  assumes "collect_rows [] [] cells = Inr all"
  shows "cells_ok (applyFilters e all fs)" "list_all validCell cells" "set (concat (map snd (applyFilters e all fs))) \<subseteq> set cells"
proof -
  note f = collect_rows_facts [OF assms, simplified]
  have m: "mset (concat (map snd all)) = mset cells" using f by simp
  have s: "set (concat (map snd all)) = set cells" using m by (rule mset_eq_setD)
  show v: "list_all validCell cells" using f by simp
  have ok: "cells_ok all"
  proof -
    have "mset (map cell_id (concat (map snd all))) = mset (map cell_id cells)" using m by (simp only: mset_map)
    then have "distinct (map cell_id (concat (map snd all)))"
      using f mset_eq_imp_distinct_iff [THEN iffD2] by blast
    moreover have "list_all validCell (snd r)" if "r \<in> set all" for r
      unfolding list_all_iff
    proof
      fix c assume "c \<in> set (snd r)"
      with that have "c \<in> set (concat (map snd all))" by auto
      with s v show "validCell c" by (simp add: list_all_iff)
    qed
    ultimately show ?thesis using f by (auto simp: cells_ok_def list_all_iff)
  qed
  have "cells_ok (filter P rs)" if "cells_ok rs" for P rs
    using that by (induction rs) (auto simp: cells_ok_def)
  with ok show "cells_ok (applyFilters e all fs)" unfolding applyFilters_filter by blast
  show "set (concat (map snd (applyFilters e all fs))) \<subseteq> set cells" unfolding s [symmetric] applyFilters_filter by auto
qed

lemma columns_canonical:
  assumes "set (concat (map snd rows)) \<subseteq> set cells"
    "\<And>c. c \<in> set cells \<Longrightarrow> aggregateTermIdentity e (aggregateTermIdentity e (cl_Column c)) = aggregateTermIdentity e (cl_Column c)"
  shows "canonical_columns e (numeric_columns e rows)" "canonical_columns e (non_numeric_columns e rows)"
  using assms by (fastforce simp: canonical_columns_def numeric_columns_def non_numeric_columns_def)+

text \<open>C22. A successful aggregate does not depend on the order in which the maps of rows and of columns are
  iterated over: whatever permutations the two runs see, the reducer returns the same buckets with the
  same values, counts, group values, citations and order. The hypothesis on the case mapping, that
  the identity of a term is its own identity, is needed of the columns of the request only.\<close>

theorem aggregate_order_irrelevant:
  assumes "\<And>rows. mset (ag_rows e rows) = mset rows" "\<And>columns. mset (ag_cols e columns) = mset columns"
    and "\<And>rows. mset (p rows) = mset rows" "\<And>columns. mset (q columns) = mset columns"
    and "\<And>c. c \<in> set (rq_Cells rq) \<Longrightarrow>
      aggregateTermIdentity e (aggregateTermIdentity e (cl_Column c)) = aggregateTermIdentity e (cl_Column c)"
    and "Aggregate e cancelled rq = Inr res"
  shows "Aggregate (e\<lparr>ag_rows := p, ag_cols := q\<rparr>) cancelled rq = Inr res"
proof -
  from assms(6) obtain all where all: "collect_rows [] [] (rq_Cells rq) = Inr all"
    by (auto simp: Aggregate_def split: if_splits option.splits)
  define rows where "rows = applyFilters e all (rq_Filters rq)"
  have ok: "cells_ok rows" "list_all validCell (rq_Cells rq)" "set (concat (map snd rows)) \<subseteq> set (rq_Cells rq)"
    unfolding rows_def by (rule collected_ok [OF all])+
  note cols = columns_canonical [OF ok(3) assms(5), simplified]
  have choose: "chooseColumn (reorder e p q) requested (numeric_columns e rows) = chooseColumn e requested (numeric_columns e rows)"
    "chooseGroupColumns (reorder e p q) requested' (non_numeric_columns e rows) = chooseGroupColumns e requested' (non_numeric_columns e rows)"
    for requested requested'
    by (rule chooseColumn_perm chooseGroupColumns_perm, rule cols, rule assms(2), rule assms(4))+
  have reduce: "reduce_rows (reorder e p q) rq rows metric fn groups = Inr res"
    if "reduce_rows e rq rows metric fn groups = Inr res" for metric fn groups
    by (rule reduce_rows_perm [of e rq rows metric fn groups res p q, OF that assms(1) assms(3) ok(1) ok(2)])
  from assms(6) show ?thesis
    unfolding Aggregate_def Let_def reorder_rows reorder_filters all and_then.simps rows_def [symmetric] choose
    by (auto split: if_splits option.splits dest!: reduce)
qed

theorem aggregate_order_irrelevant_witness:
  "\<exists>r. Aggregate sample_env False sample_request = Inr r
    \<and> Aggregate (sample_env\<lparr>ag_rows := rev, ag_cols := rev\<rparr>) False sample_request = Inr r"
proof -
  from sample_result obtain r where r: "Aggregate sample_env False sample_request = Inr r" by blast
  have "Aggregate (sample_env\<lparr>ag_rows := rev, ag_cols := rev\<rparr>) False sample_request = Inr r"
    by (rule aggregate_order_irrelevant [OF _ _ _ _ _ r]) (simp_all add: sample_env_orders sample_identities)
  with r show ?thesis by blast
qed

text \<open>Two faulty rows: the first has two values in its group column, the second no metric.\<close>

definition faulty_request :: aggregate_request where
  "faulty_request = sample_request\<lparr>rq_Cells :=
     [sample_cell ''e1'' ''r1'' ''dept'' ''a'' False, sample_cell ''e2'' ''r1'' ''dept'' ''b'' False,
      sample_cell ''e3'' ''r2'' ''dept'' ''a'' False, sample_cell ''e4'' ''r1'' ''amount'' ''1'' True]\<rparr>"

text \<open>Which error a request with several faults gets does depend on the order: the reducer that is called
  deterministic answers the same faulty request with a conflict or with missing evidence, as the iteration
  meets one faulty row or the other first.\<close>

theorem aggregate_error_follows_order:
  "Aggregate sample_env False faulty_request = Inl CodeConflict
   \<and> Aggregate (sample_env\<lparr>ag_rows := rev\<rparr>) False faulty_request = Inl CodeIncomplete"
proof
  show "Aggregate sample_env False faulty_request = Inl CodeConflict" by code_simp
  show "Aggregate (sample_env\<lparr>ag_rows := rev\<rparr>) False faulty_request = Inl CodeIncomplete" by code_simp
qed

end
