(* ===== verification/Aggregate_Meaning.thy ===== *)
theory Aggregate_Meaning
  imports Aggregate_Order
begin

text \<open>
  What a returned bucket of the reducer means, as a function of the selected rows: \<open>bucket_meaning\<close> is
  the specification, stated without the maps, the accumulation and the rendering of the code, and the
  buckets of \<open>Aggregate\<close> meet it.
\<close>

section \<open>Decimals\<close>

lemma decimal_scaled:
  assumes "decimal_scale s \<le> p"
  shows "decimal_value s * 10 ^ p \<in> \<int>"
proof -
  obtain ip fp f where c: "cut_on CHR ''.'' (unsigned s) = (ip, fp, f)" by (cases "cut_on CHR ''.'' (unsigned s)")
  have nodot: "dropWhile (\<lambda>x. x \<noteq> CHR ''.'') t = []" if "CHR ''.'' \<notin> set t" for t
    using that by (auto simp: dropWhile_eq_Nil_conv)
  have "length fp = decimal_scale s"
  proof (cases s)
    case (Cons x t)
    with c show ?thesis by (cases "x = CHR ''-''") (auto simp: unsigned_def decimal_scale_def cut_on_def nodot split: if_splits)
  qed (use c in \<open>simp add: unsigned_def decimal_scale_def cut_on_def\<close>)
  with assms have p: "p = length fp + (p - length fp)" by simp
  have "decimal_value s * 10 ^ p = (if negative s then -1 else 1) * of_nat (digits_val (ip @ fp)) * 10 ^ (p - length fp)"
    unfolding decimal_value_def c by (subst p, subst power_add) simp
  also have "\<dots> = of_int ((if negative s then -1 else 1) * int (digits_val (ip @ fp)) * 10 ^ (p - length fp))" by simp
  also have "\<dots> \<in> \<int>" by (rule Ints_of_int)
  finally show ?thesis .
qed

lemma strip_factor_spec:
  "strip_factor k d = (rest, n) \<Longrightarrow> 1 < k \<Longrightarrow> 0 < d \<Longrightarrow> d = rest * k ^ n \<and> \<not> k dvd rest"
proof (induction k d arbitrary: rest n rule: strip_factor.induct)
  case (1 k d)
  show ?case
  proof (cases "d mod k = 0")
    case True
    obtain r m where rm: "strip_factor k (d div k) = (r, m)" by (cases "strip_factor k (d div k)")
    have pos: "0 < d div k" using True 1(3,4) by (auto simp: div_greater_zero_iff mod_eq_0_iff_dvd dest: dvd_imp_le)
    have c: "1 < k \<and> 0 < d \<and> d mod k = 0" using True 1(3,4) by simp
    have "(rest, n) = (r, m + 1)" using 1(2) c rm by (subst (asm) strip_factor.simps) simp
    moreover have "d div k = r * k ^ m \<and> \<not> k dvd r" by (rule 1(1) [OF c rm 1(3) pos])
    moreover have "d = (d div k) * k" using True by auto
    ultimately show ?thesis by simp
  next
    case False
    with 1(2-4) show ?thesis by (subst (asm) strip_factor.simps) (auto simp: mod_eq_0_iff_dvd)
  qed
qed

lemma Ints_power10:
  assumes x: "quotient_of x = (a, b)"
  shows "x * 10 ^ p \<in> \<int> \<longleftrightarrow> nat b dvd 10 ^ p"
proof -
  have b: "0 < b" and cop: "coprime a b" using x by (rule quotient_of_denom_pos, rule quotient_of_coprime)
  have xab: "x = of_int a / of_int b" by (rule quotient_of_div [OF x])
  have "x * 10 ^ p \<in> \<int> \<longleftrightarrow> b dvd a * 10 ^ p"
  proof
    assume "x * 10 ^ p \<in> \<int>"
    then obtain z where z: "x * 10 ^ p = of_int z" by (auto elim: Ints_cases)
    have "of_int a = x * of_int b" using xab b by simp
    then have "(of_int (a * 10 ^ p) :: rat) = of_int (z * b)" by (simp add: z [symmetric] ac_simps)
    then have "a * 10 ^ p = z * b" by (simp only: of_int_eq_iff)
    then show "b dvd a * 10 ^ p" by simp
  next
    assume "b dvd a * 10 ^ p"
    then obtain z where "a * 10 ^ p = b * z" by (elim dvdE)
    then have "(of_int (a * 10 ^ p) :: rat) = of_int (b * z)" by simp
    moreover have "x * 10 ^ p = (of_int (a * 10 ^ p) :: rat) / of_int b" using xab by simp
    ultimately have "x * 10 ^ p = of_int z" using b by simp
    then show "x * 10 ^ p \<in> \<int>" by simp
  qed
  also have "\<dots> \<longleftrightarrow> b dvd 10 ^ p" using cop by (simp add: coprime_dvd_mult_right_iff coprime_commute)
  also have "\<dots> \<longleftrightarrow> nat b dvd 10 ^ p"
  proof -
    have "b = int (nat b)" using b by simp
    then show ?thesis by (metis of_nat_dvd_iff of_nat_numeral of_nat_power)
  qed
  finally show ?thesis .
qed

lemma terminating_exact:
  shows "terminatingDecimalScale x = Some k \<Longrightarrow> x * 10 ^ k \<in> \<int>"
    and "x * 10 ^ p \<in> \<int> \<Longrightarrow> terminatingDecimalScale x \<noteq> None"
proof -
  obtain a b where x: "quotient_of x = (a, b)" by (cases "quotient_of x")
  have b: "0 < nat b" using quotient_of_denom_pos [OF x] by simp
  obtain d2 i where d2: "strip_factor 2 (nat b) = (d2, i)" by (cases "strip_factor 2 (nat b)")
  obtain d5 j where d5: "strip_factor 5 d2 = (d5, j)" by (cases "strip_factor 5 d2")
  from strip_factor_spec [OF d2 _ b] have 2: "nat b = d2 * 2 ^ i" "\<not> 2 dvd d2" by simp_all
  with b have "0 < d2" by (cases d2) auto
  from strip_factor_spec [OF d5 _ this] have 5: "d2 = d5 * 5 ^ j" "\<not> 5 dvd d5" by simp_all
  have t: "terminatingDecimalScale x = (if d5 \<noteq> 1 then None else if i > j then Some i else Some j)"
    by (simp add: terminatingDecimalScale_def x d2 d5)
  have ten: "(10::nat) ^ m = 2 ^ m * 5 ^ m" for m by (simp add: power_mult_distrib [symmetric])
  show "x * 10 ^ k \<in> \<int>" if "terminatingDecimalScale x = Some k"
  proof -
    from that t have "d5 = 1" "i \<le> k" "j \<le> k" by (auto split: if_splits)
    then have "nat b dvd 10 ^ k" unfolding 2(1) 5(1) ten by (simp add: mult.commute mult_dvd_mono le_imp_power_dvd)
    with Ints_power10 [OF x] show ?thesis by blast
  qed
  show "terminatingDecimalScale x \<noteq> None" if "x * 10 ^ p \<in> \<int>"
  proof -
    from that Ints_power10 [OF x] have "nat b dvd 10 ^ p" by blast
    then have dvd: "d5 dvd 2 ^ p * 5 ^ p" unfolding 2(1) 5(1) ten using dvd_mult_left by (metis mult.assoc)
    have "\<not> 2 dvd d5" using 2(2) 5(1) by auto
    then have "coprime d5 (2 ^ p)" by (simp add: coprime_right_2_iff_odd)
    moreover have "coprime d5 (5 ^ p)"
    proof -
      have "d5 mod 5 = 1 \<or> d5 mod 5 = 2 \<or> d5 mod 5 = 3 \<or> d5 mod 5 = 4"
        using 5(2) by (simp add: dvd_eq_mod_eq_0) presburger
      moreover have "gcd d5 5 = gcd 5 (d5 mod 5)" by (simp add: gcd_red_nat [of d5 5])
      moreover have "gcd 5 (1::nat) = 1" "gcd 5 (2::nat) = 1" "gcd 5 (3::nat) = 1" "gcd 5 (4::nat) = 1"
        by (simp_all add: gcd_non_0_nat)
      ultimately have "gcd d5 5 = 1" by auto
      then have "coprime d5 5" by (simp add: coprime_iff_gcd_eq_1)
      then show ?thesis by simp
    qed
    ultimately have "coprime d5 (2 ^ p * 5 ^ p)" by simp
    with dvd have "d5 = 1" by (metis coprime_absorb_left nat_dvd_1_iff_1)
    with t show ?thesis by simp
  qed
qed

section \<open>The groups\<close>

text \<open>A row belongs to a group when it has, for each dimension, a text cell in that column, and all
  those cells carry the value of the group.\<close>

definition of_column :: "text_env \<Rightarrow> gostring \<Rightarrow> cell \<Rightarrow> bool" where
  "of_column e g c \<longleftrightarrow> \<not> cl_Numeric c \<and> aggregateTermsEqual e (cl_Column c) g"

definition in_group :: "text_env \<Rightarrow> gostring list \<Rightarrow> gostring list \<Rightarrow> cell list \<Rightarrow> bool" where
  "in_group e groups vs cells \<longleftrightarrow>
     list_all2 (\<lambda>g v. list_ex (of_column e g) cells \<and> list_all (\<lambda>c. of_column e g c \<longrightarrow> cl_Value c = v) cells) groups vs"

lemma in_group_unique: "in_group e groups vs cells \<Longrightarrow> in_group e groups ws cells \<Longrightarrow> vs = ws"
  unfolding in_group_def
proof (induction groups arbitrary: vs ws)
  case (Cons g gs)
  from Cons.prems obtain v vs' w ws' where vw: "vs = v # vs'" "ws = w # ws'" by (auto simp: list_all2_Cons1)
  with Cons.prems obtain c where "c \<in> set cells" "of_column e g c" by (auto simp: list_ex_iff)
  with Cons.prems vw have "v = w" by (auto simp: list_all_iff)
  with Cons vw show ?case by simp
qed simp

text \<open>What is known of a dimension after some cells.\<close>

definition seen_value :: "text_env \<Rightarrow> cell list \<Rightarrow> gostring \<Rightarrow> (gostring \<times> evidence_ref) option \<Rightarrow> bool" where
  "seen_value e cells g a \<longleftrightarrow> (case a of
     None \<Rightarrow> \<not> list_ex (of_column e g) cells
   | Some (v, _) \<Rightarrow> list_ex (of_column e g) cells \<and> list_all (\<lambda>c. of_column e g c \<longrightarrow> cl_Value c = v) cells)"

lemma group_cell_seen:
  "group_cell e gs as c = Inr bs \<Longrightarrow> \<not> cl_Numeric c \<Longrightarrow> list_all2 (seen_value e pre) gs as \<Longrightarrow>
     list_all2 (seen_value e (pre @ [c])) gs bs"
proof (induction e gs as c arbitrary: bs rule: group_cell.induct)
  case (1 e g gs a as c)
  have a: "seen_value e pre g a" and as: "list_all2 (seen_value e pre) gs as" using "1.prems"(3) by simp_all
  from "1.prems"(1) obtain r b where r: "group_cell e gs as c = Inr r" "bs = b # r"
    and b: "if \<not> aggregateTermsEqual e (cl_Column c) g then b = a
            else b = Some (cl_Value c, evidenceRef (cl_Evidence c)) \<and> (\<forall>v ref. a = Some (v, ref) \<longrightarrow> v = cl_Value c)"
    by (auto split: if_splits option.splits)
  have "list_all2 (seen_value e (pre @ [c])) gs r"
  proof (cases "aggregateTermsEqual e (cl_Column c) g")
    case False
    from "1.IH"(1) [OF _ r(1) "1.prems"(2) as] False show ?thesis by simp
  next
    case True
    show ?thesis
    proof (cases a)
      case None
      from "1.IH"(2) [OF _ None r(1) "1.prems"(2) as] True show ?thesis by simp
    next
      case (Some x)
      obtain v ref where x: "x = (v, ref)" by (cases x)
      have "v = cl_Value c" using b True Some x by auto
      with "1.IH"(3) [OF _ Some x [symmetric] _ r(1) "1.prems"(2) as] True show ?thesis by simp
    qed
  qed
  moreover have "seen_value e (pre @ [c]) g b"
    using a b "1.prems"(2) by (auto simp: seen_value_def of_column_def list_all_iff list_ex_iff split: option.splits if_splits)
  ultimately show ?case using r(2) by simp
qed (auto simp: list_all2_Cons1 list_all2_Cons2)

lemma seen_numeric: "cl_Numeric c \<Longrightarrow> seen_value e (pre @ [c]) = seen_value e pre"
  by (auto simp: fun_eq_iff seen_value_def of_column_def split: option.splits)

lemma scan_row_seen:
  "scan_row e groups metric found numbers cs = Inr (found', numbers') \<Longrightarrow> list_all2 (seen_value e pre) groups found \<Longrightarrow>
     list_all2 (seen_value e (pre @ cs)) groups found'"
proof (induction cs arbitrary: pre found numbers)
  case (Cons c cs)
  obtain f1 n1 where f1: "scan_row e groups metric f1 n1 cs = Inr (found', numbers')" "list_all2 (seen_value e (pre @ [c])) groups f1"
  proof (cases "cl_Numeric c")
    case True
    then have "list_all2 (seen_value e (pre @ [c])) groups found" using Cons.prems(2) by (simp add: seen_numeric)
    with Cons.prems(1) True that show ?thesis by (auto simp: Let_def)
  next
    case False
    with Cons.prems(1) obtain f1 where "group_cell e groups found c = Inr f1" "scan_row e groups metric f1 numbers cs = Inr (found', numbers')"
      by (auto simp: Let_def)
    with group_cell_seen [OF _ False Cons.prems(2)] that show ?thesis by blast
  qed
  from Cons.IH [OF this] show ?case by simp
qed simp

lemma row_info_group:
  assumes "row_info e groups metric countRows cells = Inr (info, numbers)"
  shows "in_group e groups (map fst info) cells"
proof -
  from assms obtain found where f: "scan_row e groups metric (replicate (length groups) None) [] cells = Inr (found, numbers)"
    and all: "\<not> list_ex (\<lambda>a. case a of None \<Rightarrow> True | Some (v, _) \<Rightarrow> v = []) found" and info: "info = map the found"
    by (auto simp: row_info_def split: if_splits)
  have "list_all2 (seen_value e []) groups (replicate (length groups) None)"
    by (simp add: list_all2_conv_all_nth seen_value_def)
  from scan_row_seen [OF f this] have "list_all2 (seen_value e cells) groups found" by simp
  then show ?thesis using all unfolding in_group_def info
    by (induction rule: list_all2_induct) (auto simp: seen_value_def split: option.splits)
qed

section \<open>The rows of a bucket\<close>

definition group_rows :: "text_env \<Rightarrow> gostring list \<Rightarrow> gostring list \<Rightarrow> row list \<Rightarrow> row list" where
  "group_rows e groups vs rows = filter (\<lambda>r. in_group e groups vs (snd r)) rows"

definition metric_cells :: "text_env \<Rightarrow> gostring \<Rightarrow> row list \<Rightarrow> cell list" where
  "metric_cells e metric rows = filter (\<lambda>c. cl_Numeric c \<and> aggregateTermsEqual e (cl_Column c) metric) (concat (map snd rows))"

lemma row_datum_group:
  assumes "row_info e groups metric countRows (snd r) = Inr (info, numbers)"
  shows "in_group e groups (map fst (fst (row_datum e groups metric countRows (snd r)))) (snd r)"
  using row_info_group [OF assms] assms by (simp add: row_datum_def)

lemma key_values: "data_key groups d = bucket_key groups (fst d)"
  by (simp add: data_key_def)

lemma bucket_rows:
  assumes m: "merge_rows e filters groups metric countRows rs [] = Inr bs" and ok: "cells_ok rs" and b: "b \<in> set bs"
  shows "b = data_bucket e filters countRows (ab_key b) (row_data_of e groups metric countRows (group_rows e groups (ab_groupValues b) rs))
    \<and> group_rows e groups (ab_groupValues b) rs \<noteq> []"
proof -
  let ?d = "\<lambda>r. row_datum e groups metric countRows (snd r)" and ?D = "row_data_of e groups metric countRows rs"
  note inv = conjunct1 [OF merge_rows_data [OF m]] and all = conjunct2 [OF merge_rows_data [OF m]]
  note D = row_data_ok [OF ok all]
  from b inv obtain key where key: "b = data_bucket e filters countRows key (of_key groups ?D key)" "key \<in> data_key groups ` set ?D"
    unfolding buckets_inv_def by blast
  define F where "F = filter (\<lambda>r. data_key groups (?d r) = key) rs"
  have of: "of_key groups ?D key = map ?d F" by (simp add: of_key_def F_def filter_map comp_def)
  have F: "F \<noteq> []" using of_key_nonempty [OF key(2)] of by auto
  have vs: "ab_groupValues b = map fst (fst (?d (hd F)))" using key(1) of F by (simp add: data_bucket_def hd_map)
  have hd: "hd F \<in> set rs" "data_key groups (?d (hd F)) = key" using F hd_in_set [OF F] by (simp_all add: F_def)
  have grp: "in_group e groups (map fst (fst (?d r))) (snd r)" if "r \<in> set rs" for r
    using all that row_datum_group by (auto simp: list_all_iff)
  have iff: "data_key groups (?d r) = key \<longleftrightarrow> in_group e groups (ab_groupValues b) (snd r)" if r: "r \<in> set rs" for r
  proof
    assume k: "data_key groups (?d r) = key"
    have "map fst (fst (?d r)) = map fst (fst (?d (hd F)))"
      by (rule same_group [OF conjunct1 [OF D], of _ key]) (use r hd k in \<open>simp_all add: of_key_def\<close>)
    with grp [OF r] vs show "in_group e groups (ab_groupValues b) (snd r)" by simp
  next
    assume "in_group e groups (ab_groupValues b) (snd r)"
    from in_group_unique [OF this grp [OF r]] vs have "map fst (fst (?d r)) = map fst (fst (?d (hd F)))" by simp
    then have "data_key groups (?d r) = data_key groups (?d (hd F))" unfolding key_values bucket_key_def by simp
    with hd show "data_key groups (?d r) = key" by simp
  qed
  have FR: "F = group_rows e groups (ab_groupValues b) rs"
    unfolding F_def group_rows_def by (rule filter_cong [OF refl]) (rule iff)
  have "ab_key b = key" using key(1) by simp
  then show ?thesis using key(1) F unfolding of FR by simp
qed

text \<open>The fields of a bucket as functions of its rows.\<close>

lemma bucket_fields:
  assumes m: "merge_rows e filters groups metric countRows rs [] = Inr bs" and ok: "cells_ok rs" and b: "b \<in> set bs"
    and R: "R = group_rows e groups (ab_groupValues b) rs" and M: "M = metric_cells e metric R"
  shows "R \<noteq> []"
    and "ab_count b = (if countRows then int (length R) else int (length M))"
    and "\<not> countRows \<Longrightarrow> ab_value b = sum_list (map (\<lambda>c. decimal_value (cl_Value c)) M) \<and> M \<noteq> []
      \<and> ab_evidence b = refs_of M \<and> list_all (\<lambda>c. decimal_scale (cl_Value c) \<le> ab_scale b) M"
    and "countRows \<Longrightarrow> length (ab_evidence b) = length R \<and> (\<forall>r\<in>set R. \<exists>c\<in>set (snd r). evidenceRef (cl_Evidence c) \<in> set (ab_evidence b))"
    and "distinct (map er_ID (ab_evidence b))"
    and "set (ab_filterEvidence b) = matching_refs e filters (concat (map snd R)) \<and> distinct (map er_ID (ab_filterEvidence b))"
proof -
  let ?d = "\<lambda>r. row_datum e groups metric countRows (snd r)"
  have bR: "b = data_bucket e filters countRows (ab_key b) (map ?d R)" and ne: "R \<noteq> []"
    using bucket_rows [OF m ok b] unfolding R by (rule conjunct1, rule conjunct2)
  show "R \<noteq> []" by (rule ne)
  note all = conjunct2 [OF merge_rows_data [OF m]]
  have allR: "list_all (\<lambda>r. \<exists>info numbers. row_info e groups metric countRows (snd r) = Inr (info, numbers)) R"
    using all unfolding R group_rows_def by (simp add: list_all_iff)
  have okR: "cells_ok R" using ok unfolding R group_rows_def by (induction rs) (auto simp: cells_ok_def)
  note D = row_data_ok [OF okR allR]
  have num: "fst (snd (?d r)) = filter (\<lambda>c. cl_Numeric c \<and> aggregateTermsEqual e (cl_Column c) metric) (snd r)
      \<and> (countRows \<or> fst (snd (?d r)) \<noteq> [])" if "r \<in> set R" for r
    using allR that row_info_ok by (fastforce simp: list_all_iff row_datum_def info_ok_def)
  have cells: "data_cells (?d r) = snd r" for r by (auto simp: row_datum_def split: sum.splits)
  have Mc: "M = concat (map (\<lambda>r. fst (snd (?d r))) R)"
    unfolding M metric_cells_def filter_concat using num by (simp add: comp_def cong: map_cong)
  show "ab_count b = (if countRows then int (length R) else int (length M))"
  proof -
    have "sum_list (map (\<lambda>r. int (f r)) R) = int (sum_list (map f R))" for f :: "row \<Rightarrow> nat" by (induction R) simp_all
    then show ?thesis by (subst bR) (simp add: data_bucket_def row_count_def Mc length_concat comp_def sum_list_triv)
  qed
  show "\<not> countRows \<Longrightarrow> ab_value b = sum_list (map (\<lambda>c. decimal_value (cl_Value c)) M) \<and> M \<noteq> []
      \<and> ab_evidence b = refs_of M \<and> list_all (\<lambda>c. decimal_scale (cl_Value c) \<le> ab_scale b) M"
  proof (intro conjI)
    assume n: "\<not> countRows"
    show "ab_value b = sum_list (map (\<lambda>c. decimal_value (cl_Value c)) M)"
      by (subst bR) (simp add: data_bucket_def row_values_def n Mc map_concat comp_def)
    show "ab_evidence b = refs_of M"
      by (subst bR) (simp add: data_bucket_def row_refs_def refs_of_def n Mc map_concat comp_def)
    show "M \<noteq> []" using num [OF hd_in_set [OF ne]] n ne hd_in_set [OF ne] unfolding Mc by auto
    have scale: "ab_scale b = Max (insert 0 (set (map (\<lambda>c. decimalScale (cl_Value c)) M)))"
      by (subst bR) (simp add: data_bucket_def row_scales_def n Mc map_concat comp_def foldl_max)
    show "list_all (\<lambda>c. decimal_scale (cl_Value c) \<le> ab_scale b) M"
      unfolding scale list_all_iff by (auto simp: decimalScale_def intro!: Max_ge)
  qed
  have ev: "ab_evidence b = concat (map (\<lambda>d. row_refs countRows (data_cells d) (fst (snd d))) (map ?d R))"
    by (subst bR) (simp add: data_bucket_def comp_def)
  show "distinct (map er_ID (ab_evidence b))"
    unfolding ev using concat_refs_distinct [OF conjunct1 [OF D]] by blast
  show "countRows \<Longrightarrow> length (ab_evidence b) = length R \<and> (\<forall>r\<in>set R. \<exists>c\<in>set (snd r). evidenceRef (cl_Evidence c) \<in> set (ab_evidence b))"
  proof (intro conjI ballI)
    assume c: "countRows"
    have ev': "ab_evidence b = map (\<lambda>r. evidenceRef (cl_Evidence (sort_key cell_id (snd r) ! 0))) R"
    proof -
      have one: "row_refs countRows (data_cells (?d r)) (fst (snd (?d r))) = [evidenceRef (cl_Evidence (sort_key cell_id (snd r) ! 0))]" for r
        unfolding cells using c by (simp add: row_refs_def)
      have "concat (map (\<lambda>r. [f r]) xs) = map f xs" for f :: "row \<Rightarrow> evidence_ref" and xs by (induction xs) simp_all
      then show ?thesis unfolding ev map_map comp_def one .
    qed
    then show "length (ab_evidence b) = length R" by simp
    fix r assume r: "r \<in> set R"
    then have "snd r \<noteq> []" using okR by (simp add: cells_ok_def)
    then have "sort_key cell_id (snd r) ! 0 \<in> set (sort_key cell_id (snd r))" by (intro nth_mem) simp
    then have "sort_key cell_id (snd r) ! 0 \<in> set (snd r)" by simp
    moreover have "evidenceRef (cl_Evidence (sort_key cell_id (snd r) ! 0)) \<in> set (ab_evidence b)" using r unfolding ev' by simp
    ultimately show "\<exists>c\<in>set (snd r). evidenceRef (cl_Evidence c) \<in> set (ab_evidence b)" by blast
  qed
  have "ab_filterEvidence b = filter_refs e filters [] (map ?d R)" by (subst bR) (simp add: data_bucket_def)
  then show "set (ab_filterEvidence b) = matching_refs e filters (concat (map snd R)) \<and> distinct (map er_ID (ab_filterEvidence b))"
    using filter_refs_spec [OF ids_inj [OF conjunct1 [OF D]], of e filters] by (simp add: comp_def cells)
qed

section \<open>What a bucket means\<close>

text \<open>The value promised for a function over the values of the metric cells.\<close>

definition aggregate_value :: "gostring \<Rightarrow> rat list \<Rightarrow> rat \<Rightarrow> bool" where
  "aggregate_value function vs x \<longleftrightarrow>
    (if function = ''AVG'' then
       (let mean = sum_list vs / of_nat (length vs) in
        \<bar>x - mean\<bar> \<le> 1 / (2 * 10 ^ 6) \<and> ((\<exists>k. mean * 10 ^ k \<in> \<int>) \<longrightarrow> x = mean))
     else if function = ''MIN'' then x = Min (set vs)
     else if function = ''MAX'' then x = Max (set vs)
     else x = sum_list vs)"

definition bucket_meaning :: "text_env \<Rightarrow> row list \<Rightarrow> query_filter list \<Rightarrow> gostring \<Rightarrow> gostring \<Rightarrow> gostring list \<Rightarrow> bucket \<Rightarrow> bool" where
  "bucket_meaning e rows filters function metric groups bu \<longleftrightarrow>
    (let R = group_rows e groups (bu_GroupValues bu) rows; M = metric_cells e metric R in
     R \<noteq> [] \<and> decimalPattern (bu_Value bu)
     \<and> sorted_wrt (<) (map er_ID (bu_Evidence bu)) \<and> sorted_wrt (<) (map er_ID (bu_FilterEvidence bu))
     \<and> set (bu_FilterEvidence bu) = matching_refs e filters (concat (map snd R))
     \<and> (if function = ''COUNT''
        then bu_Count bu = int (length R) \<and> decimal_value (bu_Value bu) = of_nat (length R)
          \<and> length (bu_Evidence bu) = length R
          \<and> (\<forall>r\<in>set R. \<exists>c\<in>set (snd r). evidenceRef (cl_Evidence c) \<in> set (bu_Evidence bu))
        else bu_Count bu = int (length M) \<and> M \<noteq> [] \<and> set (bu_Evidence bu) = set (refs_of M)
          \<and> aggregate_value function (map (\<lambda>c. decimal_value (cl_Value c)) M) (decimal_value (bu_Value bu))))"

lemma aggregate_value_perm:
  assumes m: "mset vs = mset ws"
  shows "aggregate_value function vs x = aggregate_value function ws x"
  using sum_list_perm [OF m] mset_eq_setD [OF m] mset_eq_length [OF m] by (simp add: aggregate_value_def)

lemma bucket_meaning_perm:
  assumes m: "mset rows = mset rows'" and b: "bucket_meaning e rows filters function metric groups bu"
  shows "bucket_meaning e rows' filters function metric groups bu"
proof -
  let ?R = "group_rows e groups (bu_GroupValues bu) rows" and ?R' = "group_rows e groups (bu_GroupValues bu) rows'"
  let ?M = "metric_cells e metric ?R" and ?M' = "metric_cells e metric ?R'"
  have R: "mset ?R = mset ?R'" unfolding group_rows_def mset_filter m ..
  note C = mset_concat_map [OF R, of snd]
  have M: "mset ?M = mset ?M'" unfolding metric_cells_def mset_filter C ..
  note same = mset_eq_setD [OF R] mset_eq_length [OF R] mset_eq_length [OF M] mset_eq_setD [OF C] mset_eq_setD [OF M]
  have ne: "?R \<noteq> [] \<longleftrightarrow> ?R' \<noteq> []" "?M \<noteq> [] \<longleftrightarrow> ?M' \<noteq> []" using same(2,3) by auto
  have refs: "set (refs_of ?M) = set (refs_of ?M')" unfolding refs_of_def set_map same(5) ..
  have val: "aggregate_value function (map (\<lambda>c. decimal_value (cl_Value c)) ?M) x
      = aggregate_value function (map (\<lambda>c. decimal_value (cl_Value c)) ?M') x" for x
    by (rule aggregate_value_perm) (simp add: M)
  have refs2: "matching_refs e filters (concat (map snd ?R)) = matching_refs e filters (concat (map snd ?R'))"
    unfolding matching_refs_def same(4) ..
  from b show ?thesis unfolding bucket_meaning_def Let_def ne refs val refs2 same(1-3) .
qed

lemma strict_ids: "distinct (map er_ID refs) \<Longrightarrow> sorted_wrt (<) (map er_ID (sort_key er_ID refs))"
proof -
  assume "distinct (map er_ID refs)"
  then have "distinct (map er_ID (sort_key er_ID refs))" by (metis mset_eq_imp_distinct_iff mset_map mset_sort)
  then show ?thesis by (simp add: strict_sorted_iff)
qed

lemma sum_scaled: "list_all (\<lambda>c. decimal_scale (cl_Value c) \<le> p) M \<Longrightarrow> sum_list (map (\<lambda>c. decimal_value (cl_Value c)) M) * 10 ^ p \<in> \<int>"
  by (induction M) (simp_all add: distrib_right decimal_scaled)

text \<open>The extremum of a bucket is over the values of its metric cells.\<close>

lemma extremum_values:
  assumes f: "function = ''MIN'' \<or> function = ''MAX''" and v: "list_all validCell cells" and d: "distinct (map cell_id cells)"
    and M: "set M \<subseteq> {c \<in> set cells. cl_Numeric c \<and> aggregateTermsEqual e (cl_Column c) metric}" "M \<noteq> []"
    and r: "chooseExtremum e (refs_of M) cells function metric = Inr x"
  shows "x = extremum function (set (map (\<lambda>c. decimal_value (cl_Value c)) M))" "x \<in> set (map (\<lambda>c. decimal_value (cl_Value c)) M)"
proof -
  let ?W = "{decimal_value (cl_Value c) |ref c. ref \<in> set (refs_of M) \<and> c \<in> set cells \<and> extremum_cell e metric ref c}"
  have inj: "inj_on cell_id (set cells)" using d by (simp add: distinct_map)
  have W: "?W = set (map (\<lambda>c. decimal_value (cl_Value c)) M)"
  proof (rule set_eqI, rule iffI)
    fix w assume "w \<in> ?W"
    then obtain c c' where c: "w = decimal_value (cl_Value c)" "c \<in> set cells" "c' \<in> set M" "cell_id c = cell_id c'"
      by (auto simp: refs_of_def extremum_cell_def)
    then have "c = c'" using M(1) inj_onD [OF inj c(4) c(2)] by blast
    with c show "w \<in> set (map (\<lambda>c. decimal_value (cl_Value c)) M)" by simp
  next
    fix w assume "w \<in> set (map (\<lambda>c. decimal_value (cl_Value c)) M)"
    then obtain c where c: "c \<in> set M" "w = decimal_value (cl_Value c)" by auto
    then have "c \<in> set cells" "extremum_cell e metric (evidenceRef (cl_Evidence c)) c" using M(1) by (auto simp: extremum_cell_def)
    moreover have "evidenceRef (cl_Evidence c) \<in> set (refs_of M)" using c(1) by (simp add: refs_of_def)
    ultimately show "w \<in> ?W" using c(2) by blast
  qed
  from r show x: "x = extremum function (set (map (\<lambda>c. decimal_value (cl_Value c)) M))"
    unfolding chooseExtremum_spec [OF f v] W using M(2) by (simp add: Let_def)
  show "x \<in> set (map (\<lambda>c. decimal_value (cl_Value c)) M)"
    unfolding x extremum_def using M(2) Min_in [of "set (map (\<lambda>c. decimal_value (cl_Value c)) M)"]
      Max_in [of "set (map (\<lambda>c. decimal_value (cl_Value c)) M)"] by auto
qed

text \<open>What \<open>finish_bucket\<close> leaves, printed.\<close>

lemma scaled_mono: "x * 10 ^ k \<in> \<int> \<Longrightarrow> k \<le> p \<Longrightarrow> x * 10 ^ p \<in> \<int>"
  for x :: rat
proof -
  assume x: "x * 10 ^ k \<in> \<int>" and k: "k \<le> p"
  have "p = k + (p - k)" using k by simp
  then have e: "x * 10 ^ p = (x * 10 ^ k) * of_int (10 ^ (p - k))" by (metis mult.assoc of_int_numeral of_int_power power_add)
  show "x * 10 ^ p \<in> \<int>" unfolding e by (rule Ints_mult [OF x Ints_of_int])
qed

lemma average_value:
  assumes "v = sum_list vs / of_nat (length vs)"
    "p = (case terminatingDecimalScale v of Some exact \<Rightarrow> max q exact | None \<Rightarrow> if q < 6 then 6 else q)"
  shows "aggregate_value ''AVG'' vs (decimal_value (FloatString v p))"
proof -
  let ?x = "decimal_value (FloatString v p)"
  have exact: "?x = v" if "v * 10 ^ k \<in> \<int>" for k
  proof -
    from terminating_exact(2) [OF that] obtain j where j: "terminatingDecimalScale v = Some j" by auto
    from terminating_exact(1) [OF j] have "v * 10 ^ p \<in> \<int>" by (rule scaled_mono) (simp add: assms(2) j)
    then show ?thesis by (rule FloatString_spec(4))
  qed
  have "\<bar>?x - v\<bar> \<le> 1 / (2 * 10 ^ 6)"
  proof (cases "terminatingDecimalScale v")
    case None
    then have "(10::rat) ^ 6 \<le> 10 ^ p" by (intro power_increasing) (simp_all add: assms(2))
    then have "1 / (2 * 10 ^ p) \<le> 1 / (2 * (10::rat) ^ 6)" by (intro divide_left_mono) simp_all
    with FloatString_spec(3) [of v p] show ?thesis by (rule order_trans)
  next
    case (Some k)
    from exact [OF terminating_exact(1) [OF Some]] show ?thesis by simp
  qed
  with exact show ?thesis unfolding aggregate_value_def assms(1) [symmetric] by (auto simp: Let_def)
qed

lemma finished_value:
  assumes f: "finish_bucket e function metric cells b = Inr f" and fn: "function \<in> {''SUM'', ''AVG'', ''MIN'', ''MAX''}"
    and v: "list_all validCell cells" "distinct (map cell_id cells)"
    and M: "set M \<subseteq> {c \<in> set cells. cl_Numeric c \<and> aggregateTermsEqual e (cl_Column c) metric}" "M \<noteq> []"
    and b: "ab_value b = sum_list (map (\<lambda>c. decimal_value (cl_Value c)) M)" "ab_count b = int (length M)" "ab_evidence b = refs_of M"
      "list_all (\<lambda>c. decimal_scale (cl_Value c) \<le> ab_scale b) M"
  shows "aggregate_value function (map (\<lambda>c. decimal_value (cl_Value c)) M) (decimal_value (bu_Value (render_bucket function f)))"
proof -
  let ?vs = "map (\<lambda>c. decimal_value (cl_Value c)) M"
  have bu: "bu_Value (render_bucket function f) = FloatString (ab_value f) (ab_scale f)"
    using fn by (auto simp: render_bucket_def)
  consider "function = ''SUM''" | "function = ''AVG''" | "function = ''MIN'' \<or> function = ''MAX''" using fn by blast
  then show ?thesis
  proof cases
    case 1
    then have "f = b" using f by (simp add: finish_bucket_def)
    moreover have "decimal_value (FloatString (ab_value b) (ab_scale b)) = ab_value b"
      by (rule FloatString_spec(4)) (unfold b(1), rule sum_scaled [OF b(4)])
    ultimately show ?thesis unfolding bu by (simp add: 1 aggregate_value_def b(1))
  next
    case 2
    have fv: "ab_value f = sum_list ?vs / of_nat (length ?vs)"
      "ab_scale f = (case terminatingDecimalScale (ab_value f) of Some exact \<Rightarrow> max (ab_scale b) exact
        | None \<Rightarrow> if ab_scale b < 6 then 6 else ab_scale b)"
      using f b(1,2) by (auto simp: finish_bucket_def 2 Let_def)
    show ?thesis unfolding bu using average_value [OF fv] 2 by simp
  next
    case 3
    then obtain x where x: "chooseExtremum e (refs_of M) cells function metric = Inr x" "ab_value f = x" "ab_scale f = ab_scale b"
      using f b(3) by (auto simp: finish_bucket_def)
    note ex = extremum_values [OF 3 v M x(1)]
    from ex(2) obtain c where "c \<in> set M" "x = decimal_value (cl_Value c)" by auto
    then have "x * 10 ^ ab_scale b \<in> \<int>" using b(4) decimal_scaled by (auto simp: list_all_iff)
    then have "decimal_value (FloatString x (ab_scale b)) = x" by (rule FloatString_spec(4))
    then show ?thesis unfolding bu x using ex(1) 3 by (auto simp: aggregate_value_def extremum_def)
  qed
qed

lemma finish_fields:
  assumes "finish_bucket e function metric cells b = Inr f"
  shows "ab_count f = ab_count b \<and> ab_evidence f = ab_evidence b \<and> ab_groupValues f = ab_groupValues b
    \<and> ab_filterEvidence f = ab_filterEvidence b"
proof -
  have "\<exists>v s. f = b\<lparr>ab_value := v, ab_scale := s\<rparr>"
  proof -
    consider "f = b\<lparr>ab_value := of_int (ab_count b), ab_scale := 0\<rparr>"
      | s where "f = b\<lparr>ab_value := ab_value b / of_int (ab_count b), ab_scale := s\<rparr>"
      | v where "f = b\<lparr>ab_value := v\<rparr>" | "f = b"
      using assms unfolding finish_bucket_def Let_def
      by (cases "function = ''COUNT''"; cases "function = ''AVG''"; cases "function = ''MIN'' \<or> function = ''MAX''";
          cases "chooseExtremum e (ab_evidence b) cells function metric") auto
    moreover have "b\<lparr>ab_value := v\<rparr> = b\<lparr>ab_value := v, ab_scale := ab_scale b\<rparr>" for v by simp
    moreover have "b = b\<lparr>ab_value := ab_value b, ab_scale := ab_scale b\<rparr>" by simp
    ultimately show ?thesis by metis
  qed
  then show ?thesis by auto
qed

lemma rendered_meaning:
  assumes m: "merge_rows e filters groups metric (function = ''COUNT'') rs [] = Inr bs" and ok: "cells_ok rs" and b: "b \<in> set bs"
    and f: "finish_bucket e function metric cells b = Inr f" and fn: "function \<in> {''SUM'', ''COUNT'', ''AVG'', ''MIN'', ''MAX''}"
    and v: "list_all validCell cells" "distinct (map cell_id cells)" and sub: "set (concat (map snd rs)) \<subseteq> set cells"
  shows "bucket_meaning e rs filters function metric groups (render_bucket function f)"
proof -
  define R where "R = group_rows e groups (ab_groupValues b) rs"
  define M where "M = metric_cells e metric R"
  note B = bucket_fields [OF m ok b R_def M_def] and F = finish_fields [OF f]
  let ?bu = "render_bucket function f"
  have bu: "bu_Count ?bu = ab_count b" "bu_GroupValues ?bu = ab_groupValues b" "bu_Evidence ?bu = sort_key er_ID (ab_evidence b)"
    "bu_FilterEvidence ?bu = sort_key er_ID (ab_filterEvidence b)" "decimalPattern (bu_Value ?bu)"
    using F by (simp_all add: render_bucket_def FloatString_spec(1))
  have Msub: "set M \<subseteq> {c \<in> set cells. cl_Numeric c \<and> aggregateTermsEqual e (cl_Column c) metric}"
    using sub by (fastforce simp: M_def R_def metric_cells_def group_rows_def)
  show ?thesis
  proof (cases "function = ''COUNT''")
    case True
    then have fv: "ab_value f = of_nat (length R)" "bu_Value ?bu = FloatString (ab_value f) 0"
      using f B(2) by (simp_all add: finish_bucket_def render_bucket_def) auto
    have "decimal_value (FloatString (of_nat (length R)) 0) = of_nat (length R)" by (rule FloatString_spec(4)) simp
    with True B fv FloatString_spec(1) show ?thesis
      unfolding bucket_meaning_def Let_def bu(2) R_def [symmetric] M_def [symmetric] bu
      by (simp add: strict_ids bu(5))
  next
    case False
    then have "function \<in> {''SUM'', ''AVG'', ''MIN'', ''MAX''}" using fn by blast
    from finished_value [OF f this v Msub] B(2,3) False
    have "aggregate_value function (map (\<lambda>c. decimal_value (cl_Value c)) M) (decimal_value (bu_Value ?bu))" by simp
    with False B show ?thesis
      unfolding bucket_meaning_def Let_def bu(2) R_def [symmetric] M_def [symmetric] bu
      by (simp add: strict_ids bu(5))
  qed
qed

section \<open>The result\<close>

text \<open>The rows a request aggregates.\<close>

definition selected_rows :: "text_env \<Rightarrow> aggregate_request \<Rightarrow> row list" where
  "selected_rows e rq =
    (case collect_rows [] [] (rq_Cells rq) of Inr all \<Rightarrow> applyFilters e all (rq_Filters rq) | Inl _ \<Rightarrow> [])"

lemma effective_function_valid:
  "effective_function spec metric columns = Inr fn \<Longrightarrow> as_Function spec \<in> {''SUM'', ''COUNT'', ''AVG'', ''MIN'', ''MAX''} \<Longrightarrow>
     fn \<in> {''SUM'', ''COUNT'', ''AVG'', ''MIN'', ''MAX''}"
  by (auto simp: effective_function_def split: if_splits)

lemma aggregate_success:
  assumes "Aggregate e cancelled rq = Inr res"
  obtains bs fs where
    "merge_rows e (rq_Filters rq) (ar_GroupBy res) (ar_Metric res) (ar_Function res = ''COUNT'') (ag_rows e (selected_rows e rq)) [] = Inr bs"
    "bs \<noteq> []" "finish_buckets e (ar_Function res) (ar_Metric res) (rq_Cells rq) bs = Inr fs"
    "ar_Buckets res = output_buckets rq (ar_Function res) fs" "ar_Function res \<in> {''SUM'', ''COUNT'', ''AVG'', ''MIN'', ''MAX''}"
    "cells_ok (selected_rows e rq)" "list_all validCell (rq_Cells rq)" "distinct (map cell_id (rq_Cells rq))"
    "set (concat (map snd (selected_rows e rq))) \<subseteq> set (rq_Cells rq)"
proof -
  from assms obtain all where all: "collect_rows [] [] (rq_Cells rq) = Inr all"
    and spec: "validateSpec e (rq_Spec rq) = None" by (auto simp: Aggregate_def split: if_splits option.splits)
  have rows: "selected_rows e rq = applyFilters e all (rq_Filters rq)" by (simp add: selected_rows_def all)
  from assms obtain metric fn groups where r: "reduce_rows e rq (selected_rows e rq) metric fn groups = Inr res"
    and fn: "effective_function (rq_Spec rq) metric (numeric_columns e (selected_rows e rq)) = Inr fn"
    unfolding Aggregate_def Let_def all and_then.simps rows [symmetric]
    by (auto split: if_splits option.splits)
  have "as_Function (rq_Spec rq) \<in> {''SUM'', ''COUNT'', ''AVG'', ''MIN'', ''MAX''}"
    using spec by (simp add: validateSpec_def split: if_split_asm)
  note fn = effective_function_valid [OF fn this]
  from r obtain bs fs where *:
    "merge_rows e (rq_Filters rq) groups metric (fn = ''COUNT'') (ag_rows e (selected_rows e rq)) [] = Inr bs" "bs \<noteq> []"
    "finish_buckets e fn metric (rq_Cells rq) bs = Inr fs"
    "res = \<lparr>ar_Function = fn, ar_Metric = metric, ar_GroupBy = groups, ar_Order = as_Order (rq_Spec rq),
             ar_Buckets = output_buckets rq fn fs\<rparr>"
    unfolding reduce_rows_output by (auto split: if_splits)
  have "distinct (map cell_id (rq_Cells rq))" using collect_rows_facts [OF all] by simp
  moreover have "cells_ok (selected_rows e rq)" "list_all validCell (rq_Cells rq)"
    "set (concat (map snd (selected_rows e rq))) \<subseteq> set (rq_Cells rq)"
    unfolding rows by (rule collected_ok [OF all])+
  ultimately show ?thesis using that [of bs fs] * fn by simp
qed

lemma output_in: "bu \<in> set (output_buckets rq fn fs) \<Longrightarrow> \<exists>f\<in>set fs. bu = render_bucket fn f"
  by (auto simp: output_buckets_def Let_def dest!: in_set_takeD)

lemma bucket_key_values:
  assumes "merge_rows e filters groups metric countRows rs [] = Inr bs" "cells_ok rs" "b \<in> set bs"
  shows "ab_key b = (if groups \<noteq> [] then compositeGroupKey (ab_groupValues b) else ''__all__'')"
proof -
  let ?D = "row_data_of e groups metric countRows rs"
  from conjunct1 [OF merge_rows_data [OF assms(1)]] assms(3) obtain key where
    key: "b = data_bucket e filters countRows key (of_key groups ?D key)" "key \<in> data_key groups ` set ?D"
    unfolding buckets_inv_def by blast
  have "hd (of_key groups ?D key) \<in> set (of_key groups ?D key)" by (rule hd_in_set [OF of_key_nonempty [OF key(2)]])
  then have "data_key groups (hd (of_key groups ?D key)) = key" by (simp add: of_key_def)
  then show ?thesis using key(1) by (simp add: key_values bucket_key_def data_bucket_def split: if_splits)
qed

lemma distinct_groups:
  assumes "merge_rows e filters groups metric countRows rs [] = Inr bs" "cells_ok rs"
  shows "distinct (map ab_groupValues bs)"
proof -
  let ?F = "\<lambda>vs. if groups \<noteq> [] then compositeGroupKey vs else ''__all__''"
  have "distinct (map ab_key bs)" using merge_rows_data [OF assms(1)] by (simp add: buckets_inv_def)
  moreover have "map ab_key bs = map ?F (map ab_groupValues bs)"
    using bucket_key_values [OF assms] by simp
  ultimately show ?thesis by (simp only: distinct_map [of ?F])
qed

lemma every_row_grouped:
  assumes m: "merge_rows e filters groups metric countRows rs [] = Inr bs" and ok: "cells_ok rs" and r: "r \<in> set rs"
  shows "\<exists>b\<in>set bs. in_group e groups (ab_groupValues b) (snd r)"
proof -
  let ?d = "row_datum e groups metric countRows (snd r)" and ?D = "row_data_of e groups metric countRows rs"
  note inv = conjunct1 [OF merge_rows_data [OF m]] and all = conjunct2 [OF merge_rows_data [OF m]]
  have d: "?d \<in> set ?D" using r by simp
  let ?b = "data_bucket e filters countRows (data_key groups ?d) (of_key groups ?D (data_key groups ?d))"
  have b: "?b \<in> set bs" using inv d unfolding buckets_inv_def by blast
  have ne: "of_key groups ?D (data_key groups ?d) \<noteq> []" by (rule of_key_nonempty) (use d in blast)
  have "map fst (fst (hd (of_key groups ?D (data_key groups ?d)))) = map fst (fst ?d)"
    by (rule same_group [OF conjunct1 [OF row_data_ok [OF ok all]] hd_in_set [OF ne]]) (use d in \<open>simp add: of_key_def\<close>)
  then have "ab_groupValues ?b = map fst (fst ?d)" by (simp add: data_bucket_def)
  moreover have "in_group e groups (map fst (fst ?d)) (snd r)" using all r row_datum_group by (auto simp: list_all_iff)
  ultimately have "in_group e groups (ab_groupValues ?b) (snd r)" by (simp only:)
  then show ?thesis by (rule bexI [OF _ b])
qed

text \<open>C23. Every bucket the reducer returns is the aggregate of its group: its rows are the selected rows with the
  bucket's group values, and there is one; COUNT is their number, with one cited cell of each row; for
  the other functions the count is the number of metric cells, the citations are exactly those cells, and
  the printed value reads back as their exact sum, minimum or maximum, or as their mean, exactly when the
  mean has a finite decimal expansion and within half a millionth otherwise. Citations and filter
  citations are in the order of their IDs without repetition, and the latter are the cells that satisfy
  an equality filter.\<close>

theorem aggregate_buckets_exact:
  assumes "\<And>rows. mset (ag_rows e rows) = mset rows" and "Aggregate e cancelled rq = Inr res"
  shows "\<forall>bu\<in>set (ar_Buckets res).
    bucket_meaning e (selected_rows e rq) (rq_Filters rq) (ar_Function res) (ar_Metric res) (ar_GroupBy res) bu"
proof
  fix bu assume bu: "bu \<in> set (ar_Buckets res)"
  from aggregate_success [OF assms(2)] obtain bs fs where
    m: "merge_rows e (rq_Filters rq) (ar_GroupBy res) (ar_Metric res) (ar_Function res = ''COUNT'') (ag_rows e (selected_rows e rq)) [] = Inr bs"
    and fs: "finish_buckets e (ar_Function res) (ar_Metric res) (rq_Cells rq) bs = Inr fs"
    and out: "ar_Buckets res = output_buckets rq (ar_Function res) fs" "ar_Function res \<in> {''SUM'', ''COUNT'', ''AVG'', ''MIN'', ''MAX''}"
    and ok: "cells_ok (selected_rows e rq)" "list_all validCell (rq_Cells rq)" "distinct (map cell_id (rq_Cells rq))"
      "set (concat (map snd (selected_rows e rq))) \<subseteq> set (rq_Cells rq)" .
  have ok': "cells_ok (ag_rows e (selected_rows e rq))" by (rule cells_ok_perm [OF ok(1)]) (simp add: assms(1))
  have sub: "set (concat (map snd (ag_rows e (selected_rows e rq)))) \<subseteq> set (rq_Cells rq)"
    using ok(4) mset_eq_setD [OF assms(1) [of "selected_rows e rq"]] by simp
  from output_in [OF bu [unfolded out(1)]] obtain f where f: "f \<in> set fs" "bu = render_bucket (ar_Function res) f" by blast
  from list_all2_right [OF fs [unfolded finish_buckets_list] f(1)] obtain b where
    b: "b \<in> set bs" "finish_bucket e (ar_Function res) (ar_Metric res) (rq_Cells rq) b = Inr f" by blast
  have "bucket_meaning e (ag_rows e (selected_rows e rq)) (rq_Filters rq) (ar_Function res) (ar_Metric res) (ar_GroupBy res) bu"
    unfolding f(2) by (rule rendered_meaning [OF m ok' b out(2) ok(2,3) sub])
  then show "bucket_meaning e (selected_rows e rq) (rq_Filters rq) (ar_Function res) (ar_Metric res) (ar_GroupBy res) bu"
    by (rule bucket_meaning_perm [OF assms(1)])
qed

theorem aggregate_buckets_exact_witness:
  "\<exists>r. Aggregate sample_env False sample_request = Inr r \<and> length (ar_Buckets r) = 2
    \<and> (\<forall>bu\<in>set (ar_Buckets r). bucket_meaning sample_env (selected_rows sample_env sample_request) (rq_Filters sample_request)
         (ar_Function r) (ar_Metric r) (ar_GroupBy r) bu)"
proof -
  from sample_result obtain r where r: "Aggregate sample_env False sample_request = Inr r"
    and v: "map bu_Value (ar_Buckets r) = [''1.5'', ''-0.25'']" by (elim exE conjE)
  have l: "length (ar_Buckets r) = 2" using arg_cong [OF v, of length] by simp
  show ?thesis by (intro exI [of _ r] conjI r l aggregate_buckets_exact [OF sample_env_orders(1) r])
qed

text \<open>C24. A result has between one and 128 buckets, no two of the same group, and at most as many as the request's
  limit when it has one; without a limit every selected row belongs to the group of some bucket.\<close>

theorem aggregate_bounded_partition:
  assumes "\<And>rows. mset (ag_rows e rows) = mset rows" and "Aggregate e cancelled rq = Inr res"
  shows "1 \<le> length (ar_Buckets res) \<and> length (ar_Buckets res) \<le> 128 \<and> distinct (map bu_GroupValues (ar_Buckets res))
    \<and> (as_Limit (rq_Spec rq) > 0 \<longrightarrow> int (length (ar_Buckets res)) \<le> as_Limit (rq_Spec rq))
    \<and> (as_Limit (rq_Spec rq) = 0 \<longrightarrow>
        (\<forall>r\<in>set (selected_rows e rq). \<exists>bu\<in>set (ar_Buckets res). in_group e (ar_GroupBy res) (bu_GroupValues bu) (snd r)))"
proof -
  from aggregate_success [OF assms(2)] obtain bs fs where
    m: "merge_rows e (rq_Filters rq) (ar_GroupBy res) (ar_Metric res) (ar_Function res = ''COUNT'') (ag_rows e (selected_rows e rq)) [] = Inr bs"
    and ne: "bs \<noteq> []" and fs: "finish_buckets e (ar_Function res) (ar_Metric res) (rq_Cells rq) bs = Inr fs"
    and out: "ar_Buckets res = output_buckets rq (ar_Function res) fs" and ok: "cells_ok (selected_rows e rq)" .
  have ok': "cells_ok (ag_rows e (selected_rows e rq))" by (rule cells_ok_perm [OF ok]) (simp add: assms(1))
  note l = fs [unfolded finish_buckets_list]
  have gvs: "map ab_groupValues fs = map ab_groupValues bs"
    using l by (induction rule: list_all2_induct) (simp_all add: finish_fields)
  have len: "length fs = length bs" "length bs \<le> 128"
    using list_all2_lengthD [OF l] merge_rows_length [OF m] by (simp_all add: maximumBuckets_def)
  let ?s = "sort_key (bucket_rank (as_Order (rq_Spec rq))) fs"
  obtain n where n: "ar_Buckets res = map (render_bucket (ar_Function res)) (take n ?s)" "n \<le> length fs" "n > 0"
    "as_Limit (rq_Spec rq) > 0 \<longrightarrow> int n \<le> as_Limit (rq_Spec rq)" "as_Limit (rq_Spec rq) = 0 \<longrightarrow> n = length fs"
    by (rule that [of "if as_Limit (rq_Spec rq) > 0 \<and> as_Limit (rq_Spec rq) < int (length fs) then nat (as_Limit (rq_Spec rq)) else length fs"])
      (use ne len in \<open>auto simp: out output_buckets_def Let_def\<close>)
  have gv: "bu_GroupValues (render_bucket fn f) = ab_groupValues f" for fn f by (simp add: render_bucket_def)
  have "distinct (map ab_groupValues ?s)"
    using distinct_groups [OF m ok'] gvs by (metis mset_eq_imp_distinct_iff mset_map mset_sort)
  then have "distinct (take n (map ab_groupValues ?s))" by (rule distinct_take)
  then have d: "distinct (map bu_GroupValues (ar_Buckets res))" by (simp add: n(1) gv comp_def take_map)
  have cover: "\<exists>bu\<in>set (ar_Buckets res). in_group e (ar_GroupBy res) (bu_GroupValues bu) (snd r)"
    if "as_Limit (rq_Spec rq) = 0" "r \<in> set (selected_rows e rq)" for r
  proof -
    have "r \<in> set (ag_rows e (selected_rows e rq))" using that(2) mset_eq_setD [OF assms(1)] by simp
    from every_row_grouped [OF m ok' this] obtain b where b: "b \<in> set bs" "in_group e (ar_GroupBy res) (ab_groupValues b) (snd r)" by blast
    then have "ab_groupValues b \<in> set (map ab_groupValues fs)" unfolding gvs by simp
    then obtain f where f: "f \<in> set fs" "ab_groupValues f = ab_groupValues b" by auto
    have "render_bucket (ar_Function res) f \<in> set (ar_Buckets res)" unfolding n(1) using f(1) n(5) that(1) by simp
    with b(2) f(2) gv show ?thesis by metis
  qed
  show ?thesis using n(2-4) len d cover by (simp add: n(1))
qed

theorem aggregate_bounded_partition_witness:
  "\<exists>r. Aggregate sample_env False sample_request = Inr r \<and> 1 \<le> length (ar_Buckets r)
    \<and> (\<forall>r'\<in>set (selected_rows sample_env sample_request).
         \<exists>bu\<in>set (ar_Buckets r). in_group sample_env (ar_GroupBy r) (bu_GroupValues bu) (snd r'))"
proof -
  from sample_result obtain r where r: "Aggregate sample_env False sample_request = Inr r" by blast
  have "as_Limit (rq_Spec sample_request) = 0" by (simp add: sample_request_def)
  with aggregate_bounded_partition [OF sample_env_orders(1) r] r show ?thesis by blast
qed

end
