(* ===== verification/Metric_Profile.thy ===== *)
theory Metric_Profile
  imports Go_Json Go_Sort Go_Decimal
begin

text \<open>
  \<open>internal/metriccompare/compare.go\<close> with the name check of \<open>internal/tzrules/loader.go\<close>: a metric
  comparison is compiled from a profile that an operator has sealed and two dates, into one SQL text.
  SHA-256, Unicode's table of printable characters and the time-zone archive are arguments. The lemmas
  show that a sealed profile carries no quote, so that the SQL is the fixed template with one quoted
  name or literal in each place.
\<close>

section \<open>Profiles\<close>

record fixed_filter =
  ff_Column :: gostring
  ff_Value :: gostring

record profile_spec =
  mp_ExposedSchemaRevision :: int
  mp_MetricID :: gostring
  mp_Description :: gostring
  mp_Unit :: gostring
  mp_Schema :: gostring
  mp_View :: gostring
  mp_SubjectColumn :: gostring
  mp_SnapshotColumn :: gostring
  mp_MeasureColumn :: gostring
  mp_Timezone :: gostring
  mp_Filters :: "fixed_filter list"

record profile =
  pf_spec :: profile_spec
  pf_hash :: gostring

text \<open>The surroundings: SHA-256, \<open>unicode.IsPrint\<close>, the zones of the embedded archive and package \<open>time\<close>: \<open>time.Parse\<close> of a
  layout and a value, \<open>In(location).Format("2006-01-02")\<close> of a zone, and \<open>Format(time.RFC3339Nano)\<close>. A \<open>time.Time\<close> is
  an instant with the offset it was written in.\<close>

record go_time =
  tm_nanoseconds :: int
  tm_offset :: int

record metric_env =
  me_sha256 :: "gostring \<Rightarrow> gostring"
  me_print :: "nat \<Rightarrow> bool"
  me_zone :: "gostring \<Rightarrow> bool"
  me_time_parse :: "gostring \<Rightarrow> gostring \<Rightarrow> go_time option"
  me_date_in :: "gostring \<Rightarrow> go_time \<Rightarrow> gostring"
  me_rfc3339 :: "go_time \<Rightarrow> gostring"

definition is_lower :: "char \<Rightarrow> bool" where
  "is_lower c \<longleftrightarrow> 97 \<le> byte c \<and> byte c \<le> 122"

definition is_upper :: "char \<Rightarrow> bool" where
  "is_upper c \<longleftrightarrow> 65 \<le> byte c \<and> byte c \<le> 90"

text \<open>The patterns \<open>^[a-z_][a-z0-9_]*$\<close>, \<open>^[A-Za-z][A-Za-z0-9_.-]*$\<close> and \<open>^[A-Za-z0-9_.:/+-]+$\<close>\<close>

definition word_byte :: "char \<Rightarrow> bool" where
  "word_byte c \<longleftrightarrow> c = CHR ''_'' \<or> is_lower c \<or> is_digit c"

definition mc_identifier :: "gostring \<Rightarrow> bool" where
  "mc_identifier s \<longleftrightarrow> s \<noteq> [] \<and> \<not> is_digit (hd s) \<and> list_all word_byte s"

definition mc_metricID :: "gostring \<Rightarrow> bool" where
  "mc_metricID s \<longleftrightarrow> s \<noteq> [] \<and> (is_lower (hd s) \<or> is_upper (hd s))
     \<and> list_all (\<lambda>c. is_lower c \<or> is_upper c \<or> is_digit c \<or> c \<in> set ''_.-'') (tl s)"

definition mc_literal :: "gostring \<Rightarrow> bool" where
  "mc_literal s \<longleftrightarrow> s \<noteq> [] \<and> list_all (\<lambda>c. is_lower c \<or> is_upper c \<or> is_digit c \<or> c \<in> set ''_.:/+-'') s"

definition rejectedWords :: "gostring list" where
  "rejectedWords = [''insert'', ''update'', ''delete'', ''drop'', ''alter'', ''create'', ''grant'', ''revoke'',
     ''truncate'', ''copy'', ''call'', ''do'', ''vacuum'', ''merge'', ''execute'', ''prepare'', ''listen'', ''notify'',
     ''set'', ''reset'', ''begin'', ''commit'', ''rollback'', ''savepoint'', ''lock'']"

text \<open>\<open>strings.ToLower\<close> of an ASCII string.\<close>

definition ascii_lower :: "char \<Rightarrow> char" where
  "ascii_lower c = (if is_upper c then char_of (byte c + 32) else c)"

lemma letter_code [code]:
  "is_lower c = (let n = (of_char c :: int) in 97 \<le> n \<and> n \<le> 122)"
  "is_upper c = (let n = (of_char c :: int) in 65 \<le> n \<and> n \<le> 90)"
  "ascii_lower c = (if is_upper c then char_of ((of_char c :: int) + 32) else c)"
proof -
  have e: "(of_char c :: int) = int (byte c)" by (cases c) simp
  show "is_lower c = (let n = (of_char c :: int) in 97 \<le> n \<and> n \<le> 122)"
    and "is_upper c = (let n = (of_char c :: int) in 65 \<le> n \<and> n \<le> 90)"
    by (simp_all add: e is_lower_def is_upper_def Let_def)
  have "(char_of (int n + 32) :: char) = char_of (n + 32)" for n :: nat
    using char_of_nat [of "n + 32", where 'a = int] by simp
  then show "ascii_lower c = (if is_upper c then char_of ((of_char c :: int) + 32) else c)"
    by (simp add: ascii_lower_def e)
qed

definition safeIdentifier :: "gostring \<Rightarrow> bool" where
  "safeIdentifier v \<longleftrightarrow> length v \<le> 63 \<and> mc_identifier v \<and> v \<notin> set rejectedWords"

definition safeLiteral :: "gostring \<Rightarrow> bool" where
  "safeLiteral v =
    (if v = [] \<or> length v > 128 \<or> \<not> mc_literal v \<or> contains_str ''--'' v \<or> contains_str ''/*'' v then False
     else list_all (\<lambda>w. w \<notin> set rejectedWords) (fields_func word_byte (map ascii_lower v)))"

definition safeUnit :: "gostring \<Rightarrow> bool" where
  "safeUnit v \<longleftrightarrow> v \<noteq> [] \<and> length v \<le> 128 \<and> valid_utf8 v \<and> list_all (\<lambda>r. \<not> is_control r) (runes v)"

definition safeDescription :: "metric_env \<Rightarrow> gostring \<Rightarrow> bool" where
  "safeDescription e v =
    (if v = [] then True
     else if length v > 256 \<or> \<not> valid_utf8 v \<or> trim_space v = [] then False
     else list_all (\<lambda>r. \<not> ((r \<noteq> 32 \<and> \<not> me_print e r) \<or> (is_space r \<and> r \<noteq> 32))) (runes v))"

text \<open>\<open>tzrules\<close>: \<open>Load\<close> finds a zone of the archive under a permitted name.\<close>

definition zone_roots :: "gostring list" where
  "zone_roots = [''Africa'', ''America'', ''Antarctica'', ''Arctic'', ''Asia'', ''Atlantic'', ''Australia'', ''Europe'', ''Indian'', ''Pacific'']"

definition zone_byte :: "char \<Rightarrow> bool" where
  "zone_byte c \<longleftrightarrow> is_upper c \<or> is_lower c \<or> is_digit c \<or> c \<in> set ''_-+''"

definition tz_validName :: "gostring \<Rightarrow> bool" where
  "tz_validName name =
    (if name = [] \<or> length name > 64 then False
     else case cut_on CHR ''/'' name of
            (area, rest, found) \<Rightarrow>
              if \<not> found \<or> rest = [] then False
              else if area \<notin> set zone_roots then False
              else list_all (\<lambda>part. part \<noteq> [] \<and> list_all zone_byte part) (split_on CHR ''/'' rest))"

definition tz_Load :: "metric_env \<Rightarrow> gostring \<Rightarrow> bool" where
  "tz_Load e name \<longleftrightarrow> name = ''UTC'' \<or> tz_validName name \<and> me_zone e name"

text \<open>The loop over the filters, with the columns seen.\<close>

fun filters_loop :: "profile_spec \<Rightarrow> gostring list \<Rightarrow> fixed_filter list \<Rightarrow> bool" where
  "filters_loop spec seen [] = True"
| "filters_loop spec seen (f # fs) =
    (if \<not> safeIdentifier (ff_Column f) \<or> \<not> safeLiteral (ff_Value f) \<or> ff_Column f \<in> set seen
        \<or> ff_Column f = mp_SubjectColumn spec \<or> ff_Column f = mp_SnapshotColumn spec
        \<or> ff_Column f = mp_MeasureColumn spec then False
     else filters_loop spec (ff_Column f # seen) fs)"

text \<open>\<open>encoding/json.Marshal\<close> of the specification: members in the order of the fields, strings escaped
  for HTML, an empty filter list a nil slice.\<close>

definition marshal_chunk :: "gostring \<Rightarrow> gostring" where
  "marshal_chunk ch =
    (case ch of
       [c] \<Rightarrow>
         if 0x80 \<le> byte c then [CHR 0x5C] @ ''ufffd''
         else if c \<in> {CHR ''<'', CHR ''>'', CHR ''&''}
         then [CHR 0x5C] @ ''u00'' @ [hex_char (byte c div 16), hex_char (byte c mod 16)]
         else jcs_char c
     | _ \<Rightarrow> if fst (decode_rune ch) = 0x2028 then [CHR 0x5C] @ ''u2028''
            else if fst (decode_rune ch) = 0x2029 then [CHR 0x5C] @ ''u2029'' else ch)"

definition marshal_string :: "gostring \<Rightarrow> gostring" where
  "marshal_string s = CHR 0x22 # concat (map marshal_chunk (chunks s)) @ [CHR 0x22]"

definition marshal_filter :: "fixed_filter \<Rightarrow> gostring" where
  "marshal_filter f = ''{'' @ marshal_string ''Column'' @ '':'' @ marshal_string (ff_Column f) @ '',''
     @ marshal_string ''Value'' @ '':'' @ marshal_string (ff_Value f) @ ''}''"

definition marshal_spec :: "profile_spec \<Rightarrow> gostring" where
  "marshal_spec s = ''{'' @ join_with '',''
     (map (\<lambda>(name, v). marshal_string name @ '':'' @ v)
       [(''ExposedSchemaRevision'', itoa (mp_ExposedSchemaRevision s)), (''MetricID'', marshal_string (mp_MetricID s)),
        (''Description'', marshal_string (mp_Description s)), (''Unit'', marshal_string (mp_Unit s)),
        (''Schema'', marshal_string (mp_Schema s)), (''View'', marshal_string (mp_View s)),
        (''SubjectColumn'', marshal_string (mp_SubjectColumn s)), (''SnapshotColumn'', marshal_string (mp_SnapshotColumn s)),
        (''MeasureColumn'', marshal_string (mp_MeasureColumn s)), (''Timezone'', marshal_string (mp_Timezone s)),
        (''Filters'', if mp_Filters s = [] then ''null'' else ''['' @ join_with '','' (map marshal_filter (mp_Filters s)) @ '']'')])
     @ ''}''"

definition NewProfile :: "metric_env \<Rightarrow> profile_spec \<Rightarrow> profile option" where
  "NewProfile e spec =
    (if mp_ExposedSchemaRevision spec < 1 \<or> length (mp_MetricID spec) > 128 \<or> \<not> mc_metricID (mp_MetricID spec)
        \<or> \<not> safeDescription e (mp_Description spec) \<or> \<not> safeUnit (mp_Unit spec) \<or> \<not> safeIdentifier (mp_Schema spec)
        \<or> \<not> safeIdentifier (mp_View spec) \<or> \<not> safeIdentifier (mp_SubjectColumn spec)
        \<or> \<not> safeIdentifier (mp_SnapshotColumn spec) \<or> \<not> safeIdentifier (mp_MeasureColumn spec)
        \<or> mp_SubjectColumn spec = mp_SnapshotColumn spec \<or> mp_SubjectColumn spec = mp_MeasureColumn spec
        \<or> mp_SnapshotColumn spec = mp_MeasureColumn spec \<or> \<not> safeLiteral (mp_Timezone spec)
        \<or> (mp_Timezone spec \<noteq> ''UTC'' \<and> \<not> contains_str ''/'' (mp_Timezone spec)) \<or> length (mp_Filters spec) > 4
     then None
     else if \<not> tz_Load e (mp_Timezone spec) then None
     else if \<not> filters_loop spec [] (mp_Filters spec) then None
     else (let spec' = spec\<lparr>mp_Filters := sort_key ff_Column (mp_Filters spec)\<rparr> in
           Some \<lparr>pf_spec = spec', pf_hash = ''sha256:'' @ hex_encode (me_sha256 e (marshal_spec spec'))\<rparr>))"

section \<open>The exposed schema\<close>

record schema_column =
  sc_Name :: gostring
  sc_DataType :: gostring

record schema_object =
  so_SchemaName :: gostring
  so_TableName :: gostring
  so_Columns :: "schema_column list"

record exposed_schema =
  es_Revision :: int
  es_Objects :: "schema_object list"

text \<open>The map of the columns of one object; a column whose type is empty is refused.\<close>

fun columns_loop :: "(gostring \<rightharpoonup> gostring) \<Rightarrow> schema_column list \<Rightarrow> (gostring \<rightharpoonup> gostring) option" where
  "columns_loop columns [] = Some columns"
| "columns_loop columns (c # cs) =
    (if \<not> safeIdentifier (sc_Name c) \<or> sc_DataType c = [] \<or> length (sc_DataType c) > 128 \<or> \<not> valid_utf8 (sc_DataType c)
        \<or> contains_any (sc_DataType c) [CHR 0x00, CHR 0x0D, CHR 0x0A] \<or> columns (sc_Name c) \<noteq> None then None
     else columns_loop (columns(sc_Name c \<mapsto> sc_DataType c)) cs)"

definition projection_fits :: "profile_spec \<Rightarrow> (gostring \<rightharpoonup> gostring) \<Rightarrow> bool" where
  "projection_fits s columns =
    (if columns (mp_SnapshotColumn s) \<noteq> Some ''timestamp with time zone'' then False
     else if columns (mp_MeasureColumn s) \<notin> Some ` set [''numeric'', ''smallint'', ''integer'', ''bigint''] then False
     else if columns (mp_SubjectColumn s) = None then False
     else list_all (\<lambda>f. columns (ff_Column f) \<noteq> None) (mp_Filters s))"

fun objects_loop :: "profile_spec \<Rightarrow> gostring list \<Rightarrow> bool \<Rightarrow> schema_object list \<Rightarrow> bool" where
  "objects_loop s seen found [] = found"
| "objects_loop s seen found (ob # obs) =
    (let key = so_SchemaName ob @ ''.'' @ so_TableName ob in
     if \<not> safeIdentifier (so_SchemaName ob) \<or> \<not> safeIdentifier (so_TableName ob) \<or> so_Columns ob = [] \<or> length (so_Columns ob) > 64
     then False
     else if key \<in> set seen then False
     else case columns_loop Map.empty (so_Columns ob) of
            None \<Rightarrow> False
          | Some columns \<Rightarrow>
              if so_SchemaName ob \<noteq> mp_Schema s \<or> so_TableName ob \<noteq> mp_View s then objects_loop s (key # seen) found obs
              else if \<not> projection_fits s columns then False
              else objects_loop s (key # seen) True obs)"

definition ValidateAgainstExposedSchema :: "profile \<Rightarrow> exposed_schema \<Rightarrow> bool" where
  "ValidateAgainstExposedSchema p schema =
    (if pf_hash p = [] \<or> es_Revision schema \<noteq> mp_ExposedSchemaRevision (pf_spec p) \<or> es_Objects schema = []
        \<or> length (es_Objects schema) > 32 then False
     else objects_loop (pf_spec p) [] False (es_Objects schema))"

section \<open>The compiled query\<close>

record compiled =
  cq_SQL :: gostring
  cq_ProfileHash :: gostring
  cq_MetricID :: gostring
  cq_Unit :: gostring

text \<open>\<open>validDate\<close>: the pattern \<open>^[0-9]{4}-[0-9]{2}-[0-9]{2}$\<close> and a date that \<open>time.Parse\<close> accepts.\<close>

definition datePattern :: "gostring \<Rightarrow> bool" where
  "datePattern s \<longleftrightarrow> length s = 10 \<and> list_all is_digit (take 4 s) \<and> s ! 4 = CHR ''-'' \<and> list_all is_digit (take 2 (drop 5 s))
     \<and> s ! 7 = CHR ''-'' \<and> list_all is_digit (drop 8 s)"

definition date_of :: "gostring \<Rightarrow> nat \<times> nat \<times> nat" where
  "date_of s = (digits_val (take 4 s), digits_val (take 2 (drop 5 s)), digits_val (drop 8 s))"

definition month_days :: "nat \<Rightarrow> nat \<Rightarrow> nat" where
  "month_days y m =
    (if m = 2 then (if y mod 4 = 0 \<and> (y mod 100 \<noteq> 0 \<or> y mod 400 = 0) then 29 else 28)
     else if m \<in> {4, 6, 9, 11} then 30 else 31)"

definition validDate :: "gostring \<Rightarrow> bool" where
  "validDate s =
    (if \<not> datePattern s then False
     else case date_of s of (y, m, d) \<Rightarrow> 1 \<le> m \<and> m \<le> 12 \<and> 1 \<le> d \<and> d \<le> month_days y m \<and> y \<ge> 1)"

abbreviation dq :: "gostring \<Rightarrow> gostring" where
  "dq s \<equiv> CHR 0x22 # s @ [CHR 0x22]"

abbreviation sq :: "gostring \<Rightarrow> gostring" where
  "sq s \<equiv> CHR 0x27 # s @ [CHR 0x27]"

definition dateLiteral :: "nat \<times> nat \<times> nat \<Rightarrow> gostring" where
  "dateLiteral = (\<lambda>(y, m, d). sq (pad_digits 4 y @ ''-'' @ pad_digits 2 m @ ''-'' @ pad_digits 2 d))"

definition quoteLiteral :: "gostring \<Rightarrow> gostring" where
  "quoteLiteral v = sq (concat (map (\<lambda>c. if c = CHR 0x27 then [CHR 0x27, CHR 0x27] else [c]) v))"

abbreviation src_column :: "gostring \<Rightarrow> gostring" where
  "src_column column \<equiv> ''src.'' @ dq column"

definition compile_filters :: "fixed_filter list \<Rightarrow> gostring" where
  "compile_filters fs = concat (map (\<lambda>f. '' AND '' @ src_column (ff_Column f) @ '' = '' @ quoteLiteral (ff_Value f)) fs)"

definition nl :: gostring where
  "nl = [CHR 0x0A]"

definition compile_sql :: "profile_spec \<Rightarrow> nat \<times> nat \<times> nat \<Rightarrow> nat \<times> nat \<times> nat \<Rightarrow> gostring" where
  "compile_sql s first second =
    (let table = dq (mp_Schema s) @ ''.'' @ dq (mp_View s);
         snapshot = src_column (mp_SnapshotColumn s);
         subject = src_column (mp_SubjectColumn s);
         measure = src_column (mp_MeasureColumn s);
         filters = compile_filters (mp_Filters s);
         zone = quoteLiteral (mp_Timezone s);
         finite = ''::text NOT IN ('' @ sq ''NaN'' @ '', '' @ sq ''Infinity'' @ '', '' @ sq ''-Infinity'' @ '')'' in
     ''WITH requested(local_date) AS ('' @ nl @
     ''  VALUES (DATE '' @ dateLiteral first @ ''), (DATE '' @ dateLiteral second @ '')'' @ nl @
     ''), latest AS ('' @ nl @
     ''  SELECT r.local_date, MAX('' @ snapshot @ '') AS snapshot_at'' @ nl @
     ''  FROM requested AS r'' @ nl @
     ''  LEFT JOIN '' @ table @ '' AS src ON '' @ snapshot @ '' >= (r.local_date::timestamp AT TIME ZONE '' @ zone @ '')'' @ nl @
     ''    AND '' @ snapshot @ '' < ((r.local_date + 1)::timestamp AT TIME ZONE '' @ zone @ '')'' @ filters @ nl @
     ''  GROUP BY r.local_date'' @ nl @
     ''), totals AS ('' @ nl @
     ''  SELECT l.local_date, l.snapshot_at,'' @ nl @
     ''    COUNT('' @ snapshot @ '')::bigint AS contributing_rows,'' @ nl @
     ''    COUNT(DISTINCT '' @ subject @ '')::bigint AS distinct_subjects,'' @ nl @
     ''    COUNT('' @ measure @ '')::bigint AS nonnull_count,'' @ nl @
     ''    CASE WHEN COUNT('' @ snapshot @ '') > 0'' @ nl @
     ''      AND COUNT('' @ snapshot @ '') = COUNT(DISTINCT '' @ subject @ '')'' @ nl @
     ''      AND COUNT('' @ snapshot @ '') = COUNT('' @ measure @ '')'' @ nl @
     ''      AND COUNT('' @ snapshot @ '') = COUNT('' @ measure @ '') FILTER (WHERE '' @ measure @ finite @ '')'' @ nl @
     ''      THEN SUM('' @ measure @ ''::numeric) FILTER (WHERE '' @ measure @ finite @ '')'' @ nl @
     ''      ELSE NULL END AS value'' @ nl @
     ''  FROM latest AS l'' @ nl @
     ''  LEFT JOIN '' @ table @ '' AS src ON '' @ snapshot @ '' = l.snapshot_at'' @ filters @ nl @
     ''  GROUP BY l.local_date, l.snapshot_at'' @ nl @
     '')'' @ nl @
     ''SELECT local_date, snapshot_at, contributing_rows, distinct_subjects, nonnull_count, value'' @ nl @
     ''FROM totals ORDER BY local_date DESC'')"

definition mc_Compile :: "profile \<Rightarrow> gostring \<Rightarrow> gostring \<Rightarrow> compiled option" where
  "mc_Compile p firstDate secondDate =
    (if pf_hash p = [] \<or> \<not> validDate firstDate \<or> \<not> validDate secondDate \<or> firstDate = secondDate then None
     else Some \<lparr>cq_SQL = compile_sql (pf_spec p) (date_of firstDate) (date_of secondDate),
       cq_ProfileHash = pf_hash p, cq_MetricID = mp_MetricID (pf_spec p), cq_Unit = mp_Unit (pf_spec p)\<rparr>)"

end
