(* ===== verification/Governed_Query.thy ===== *)
theory Governed_Query
  imports Metric_Profile
begin

text \<open>
  \<open>internal/source/postgresqlquery/governedquery\<close>: the one path on which SQL text reaches the external
  database. The database is an argument that answers each step; every text it is sent is recorded in a
  log. SHA-256 and Unicode case mapping are arguments. The lemmas show what has been checked before a
  text is sent and what a success guarantees.
\<close>

section \<open>Data\<close>

datatype gq_code = CodeInvalid | CodeMountUnavailable | CodeMountInvalid | CodeSchemaUnavailable | CodeExternalFailure

fun gq_code_text :: "gq_code \<Rightarrow> gostring" where
  "gq_code_text CodeInvalid = ''GOVERNED_QUERY_REQUEST_INVALID''"
| "gq_code_text CodeMountUnavailable = ''GOVERNED_QUERY_MOUNT_UNAVAILABLE''"
| "gq_code_text CodeMountInvalid = ''GOVERNED_QUERY_MOUNT_INVALID''"
| "gq_code_text CodeSchemaUnavailable = ''GOVERNED_QUERY_SCHEMA_UNAVAILABLE''"
| "gq_code_text CodeExternalFailure = ''GOVERNED_QUERY_EXTERNAL_FAILURE''"

text \<open>The cause that an error wraps: a context deadline, or an error of the database with its message.\<close>

datatype gq_cause = NoCause | DeadlineExceeded | DatabaseError gostring

record gq_error =
  ge_code :: gq_code
  ge_cause :: gq_cause

datatype gq_outcome = OutcomeSucceeded | OutcomeRejectedStatic | OutcomeRejectedDatabase | OutcomeTimeout
  | OutcomeRowLimitExceeded | OutcomeCostLimitExceeded

record gq_limits =
  lm_StatementTimeout :: int
  lm_MaxRows :: int
  lm_MaxResultBytes :: int
  lm_MaxCostEstimate :: rat

record preset =
  pr_ID :: gostring
  pr_Version :: gostring
  pr_Name :: gostring
  pr_Description :: gostring
  pr_Phrases :: "gostring list"
  pr_WorkspaceID :: gostring
  pr_SourceAttemptID :: gostring
  pr_SQLHash :: gostring
  pr_ExposedSchemaRevision :: int

text \<open>\<open>cf_DSNValid\<close> and \<open>cf_TrustRoots\<close> say whether the connection string and the certificate pool are accepted.\<close>

record gq_config =
  cf_ConnectionID :: gostring
  cf_DatabaseIdentity :: gostring
  cf_WorkspaceID :: gostring
  cf_DSNValid :: bool
  cf_TrustRoots :: bool
  cf_Limits :: gq_limits
  cf_Presets :: "preset list"

record gq_env =
  gq_sha256 :: "gostring \<Rightarrow> gostring"
  gq_lower :: "gostring \<Rightarrow> gostring"

text \<open>Durations are nanoseconds; \<open>second_ns\<close> is \<open>time.Second\<close>.\<close>

definition second_ns :: int where
  "second_ns = 1000000000"

definition limits_valid :: "gq_limits \<Rightarrow> bool" where
  "limits_valid l \<longleftrightarrow> lm_StatementTimeout l \<ge> second_ns \<and> lm_StatementTimeout l \<le> 300 * second_ns
     \<and> lm_MaxRows l > 0 \<and> lm_MaxRows l \<le> 100000 \<and> lm_MaxResultBytes l > 0 \<and> lm_MaxResultBytes l \<le> 67108864
     \<and> lm_MaxCostEstimate l > 0 \<and> lm_MaxCostEstimate l \<le> 1000000000"

definition opaque_rune :: "nat \<Rightarrow> bool" where
  "opaque_rune r \<longleftrightarrow> 97 \<le> r \<and> r \<le> 122 \<or> 65 \<le> r \<and> r \<le> 90 \<or> 48 \<le> r \<and> r \<le> 57
     \<or> r \<in> set [95, 45, 46, 58]"

definition gq_validOpaque :: "gostring \<Rightarrow> bool" where
  "gq_validOpaque v = (if v = [] \<or> length v > 200 \<or> \<not> valid_utf8 v then False else list_all opaque_rune (runes v))"

definition sha256Hex :: "gq_env \<Rightarrow> gostring \<Rightarrow> gostring" where
  "sha256Hex e v = ''sha256:'' @ hex_encode (gq_sha256 e v)"

section \<open>Presets\<close>

definition gq_validSQLHash :: "gostring \<Rightarrow> bool" where
  "gq_validSQLHash v =
    (if length v \<noteq> length ''sha256:'' + 64 \<or> \<not> has_prefix ''sha256:'' v then False
     else list_all (\<lambda>r. \<not> ((r < 48 \<or> r > 57) \<and> (r < 97 \<or> r > 102))) (runes (drop (length ''sha256:'') v)))"

definition boundedText :: "gostring \<Rightarrow> nat \<Rightarrow> nat \<Rightarrow> bool" where
  "boundedText v minimum maximum \<longleftrightarrow> valid_utf8 v \<and> length v \<ge> minimum \<and> length v \<le> maximum \<and> trim_space v = v"

definition normalizePresetPhrase :: "gq_env \<Rightarrow> gostring \<Rightarrow> gostring" where
  "normalizePresetPhrase e v = gq_lower e (join_with '' '' (fields_of v))"

definition preset_key :: "gostring \<Rightarrow> gostring \<Rightarrow> gostring" where
  "preset_key workspace v = workspace @ [CHR 0x00] @ v"

text \<open>The phrases of one preset: \<open>local\<close> holds its own, \<open>phrases\<close> those of every preset.\<close>

fun phrases_loop :: "gq_env \<Rightarrow> gostring \<Rightarrow> gostring list \<Rightarrow> gostring list \<Rightarrow> gostring list \<Rightarrow> gostring list option" where
  "phrases_loop e workspace seen phrases [] = Some phrases"
| "phrases_loop e workspace seen phrases (p # ps) =
    (let normalized = normalizePresetPhrase e p in
     if normalized = [] \<or> length normalized > 256 then None
     else if normalized \<in> set seen then None
     else if preset_key workspace normalized \<in> set phrases then None
     else phrases_loop e workspace (normalized # seen) (preset_key workspace normalized # phrases) ps)"

definition preset_shape :: "preset \<Rightarrow> bool" where
  "preset_shape p \<longleftrightarrow> gq_validOpaque (pr_ID p) \<and> gq_validOpaque (pr_Version p) \<and> boundedText (pr_Name p) 1 200
     \<and> boundedText (pr_Description p) 1 2000 \<and> pr_Phrases p \<noteq> [] \<and> length (pr_Phrases p) \<le> 32
     \<and> gq_validOpaque (pr_WorkspaceID p) \<and> gq_validOpaque (pr_SourceAttemptID p) \<and> gq_validSQLHash (pr_SQLHash p)
     \<and> pr_ExposedSchemaRevision p \<ge> 1"

fun presets_loop :: "gq_env \<Rightarrow> gostring list \<Rightarrow> gostring list \<Rightarrow> preset list \<Rightarrow> bool" where
  "presets_loop e ids phrases [] = True"
| "presets_loop e ids phrases (p # ps) =
    (if \<not> preset_shape p then False
     else if preset_key (pr_WorkspaceID p) (pr_ID p) \<in> set ids then False
     else case phrases_loop e (pr_WorkspaceID p) [] phrases (pr_Phrases p) of
            None \<Rightarrow> False
          | Some phrases' \<Rightarrow> presets_loop e (preset_key (pr_WorkspaceID p) (pr_ID p) # ids) phrases' ps)"

definition validatePresets :: "gq_env \<Rightarrow> preset list \<Rightarrow> bool" where
  "validatePresets e presets \<longleftrightarrow> length presets \<le> 128 \<and> presets_loop e [] [] presets"

definition config_valid :: "gq_env \<Rightarrow> gq_config \<Rightarrow> bool" where
  "config_valid e c \<longleftrightarrow> gq_validOpaque (cf_ConnectionID c) \<and> gq_validOpaque (cf_DatabaseIdentity c)
     \<and> gq_validOpaque (cf_WorkspaceID c) \<and> cf_TrustRoots c \<and> limits_valid (cf_Limits c) \<and> cf_DSNValid c
     \<and> validatePresets e (cf_Presets c)"

definition PresetByID :: "gq_config \<Rightarrow> gostring \<Rightarrow> gostring \<Rightarrow> preset option" where
  "PresetByID c workspace ident = find (\<lambda>p. pr_WorkspaceID p = workspace \<and> pr_ID p = ident) (cf_Presets c)"

definition PresetByPhrase :: "gq_env \<Rightarrow> gq_config \<Rightarrow> gostring \<Rightarrow> gostring \<Rightarrow> preset option" where
  "PresetByPhrase e c workspace phrase =
    (let normalized = normalizePresetPhrase e phrase in
     if normalized = [] then None
     else find (\<lambda>p. pr_WorkspaceID p = workspace
         \<and> list_ex (\<lambda>candidate. normalizePresetPhrase e candidate = normalized) (pr_Phrases p)) (cf_Presets c))"

record preset_summary =
  ps_ID :: gostring
  ps_Version :: gostring
  ps_Name :: gostring
  ps_Description :: gostring
  ps_Phrases :: "gostring list"
  ps_PresetHash :: gostring
  ps_SourceAttemptID :: gostring
  ps_SQLHash :: gostring
  ps_ExposedSchemaRevision :: int

text \<open>\<open>Preset.Hash\<close>: \<open>encoding/json\<close> of the nine members, an empty list of phrases a nil slice.\<close>

definition preset_Hash :: "gq_env \<Rightarrow> preset \<Rightarrow> gostring" where
  "preset_Hash e p = sha256Hex e (''{'' @ join_with '',''
     (map (\<lambda>(name, v). marshal_string name @ '':'' @ v)
       [(''id'', marshal_string (pr_ID p)), (''version'', marshal_string (pr_Version p)), (''name'', marshal_string (pr_Name p)),
        (''description'', marshal_string (pr_Description p)),
        (''phrases'', if pr_Phrases p = [] then ''null'' else ''['' @ join_with '','' (map marshal_string (pr_Phrases p)) @ '']''),
        (''workspace_id'', marshal_string (pr_WorkspaceID p)), (''source_attempt_id'', marshal_string (pr_SourceAttemptID p)),
        (''sql_hash'', marshal_string (pr_SQLHash p)), (''exposed_schema_revision'', itoa (pr_ExposedSchemaRevision p))])
     @ ''}'')"

definition preset_Summary :: "gq_env \<Rightarrow> preset \<Rightarrow> preset_summary" where
  "preset_Summary e p = \<lparr>ps_ID = pr_ID p, ps_Version = pr_Version p, ps_Name = pr_Name p, ps_Description = pr_Description p,
     ps_Phrases = pr_Phrases p, ps_PresetHash = preset_Hash e p, ps_SourceAttemptID = pr_SourceAttemptID p,
     ps_SQLHash = pr_SQLHash p, ps_ExposedSchemaRevision = pr_ExposedSchemaRevision p\<rparr>"

definition PresetSummaries :: "gq_env \<Rightarrow> gq_config \<Rightarrow> gostring \<Rightarrow> preset_summary list" where
  "PresetSummaries e c workspace = map (preset_Summary e) (filter (\<lambda>p. pr_WorkspaceID p = workspace) (cf_Presets c))"

section \<open>The static check\<close>

definition isWordByte :: "char \<Rightarrow> bool" where
  "isWordByte c \<longleftrightarrow> c = CHR ''_'' \<or> is_lower c \<or> is_upper c \<or> is_digit c"

text \<open>\<open>strings.Index\<close>: the first position of a substring.\<close>

fun index_str :: "gostring \<Rightarrow> gostring \<Rightarrow> nat option" where
  "index_str word s =
    (if has_prefix word s then Some 0 else case s of [] \<Rightarrow> None | _ # t \<Rightarrow> map_option Suc (index_str word t))"

declare index_str.simps [simp del]

text \<open>The loop of \<open>containsWord\<close>: \<open>before\<close> is the byte in front of the rest of the haystack, a space at
  its start. The code's \<open>haystack[index:]\<close> is \<open>rest\<close>.\<close>

lemma index_str_bound: "index_str word s = Some k \<Longrightarrow> k + length word \<le> length s"
proof (induction s arbitrary: k)
  case Nil
  then show ?case by (subst (asm) index_str.simps) (cases word; auto split: if_splits)
next
  case (Cons c s)
  have pre: "length u \<le> length v" if "has_prefix u v" for u v :: gostring
    using that by (induction u v rule: has_prefix.induct) auto
  from Cons show ?case by (subst (asm) index_str.simps) (auto split: if_splits dest: pre)
qed

function containsWord_loop :: "gostring \<Rightarrow> char \<Rightarrow> gostring \<Rightarrow> bool" where
  "containsWord_loop word previous rest =
    (case index_str word rest of
       None \<Rightarrow> False
     | Some position \<Rightarrow>
         let before = (if position > 0 then rest ! (position - 1) else previous);
             tail = drop (position + length word) rest;
             after = (case tail of [] \<Rightarrow> CHR '' '' | c # _ \<Rightarrow> c) in
         if \<not> isWordByte before \<and> \<not> isWordByte after then True
         else if tail = [] \<or> word = [] then False
         else containsWord_loop word (last word) tail)"
  by pat_completeness auto
termination
proof (relation "measure (\<lambda>(w, p, r). length r)", simp, goal_cases)
  case (1 word previous rest position before tail after)
  then show ?case using index_str_bound [of word rest position] by (cases word) auto
qed

declare containsWord_loop.simps [simp del]

definition containsWord :: "gostring \<Rightarrow> gostring \<Rightarrow> bool" where
  "containsWord haystack word = containsWord_loop word CHR '' '' haystack"

definition forbidden_words :: "gostring list" where
  "forbidden_words = [''insert'', ''update'', ''delete'', ''drop'', ''alter'', ''create'', ''grant'', ''revoke'',
     ''truncate'', ''copy'', ''call'', ''do '', ''vacuum'', ''merge'', ''execute'', ''prepare'', ''listen'', ''notify'',
     ''set '', ''reset'', ''begin'', ''commit'', ''rollback'', ''savepoint'', ''lock '']"

definition staticPrecheck :: "gq_env \<Rightarrow> gostring \<Rightarrow> bool" where
  "staticPrecheck e sqlText =
    (let trimmed = trim_space sqlText in
     if trimmed = [] then False
     else if contains_str ''--'' trimmed \<or> contains_str ''/*'' trimmed \<or> contains_str [CHR 0x00] trimmed then False
     else (let body = (if has_suffix '';'' trimmed then trim_space (butlast trimmed) else trimmed) in
           if contains_str '';'' body then False
           else (let lowered = gq_lower e body in
                 if \<not> has_prefix ''select'' lowered \<and> \<not> has_prefix ''with'' lowered then False
                 else list_all (\<lambda>w. \<not> containsWord lowered (trim_space w)) forbidden_words)))"

section \<open>Execution\<close>

record query_result =
  qr_Columns :: "gostring list"
  qr_Rows :: "gostring option list list"
  qr_RowCount :: int
  qr_CostEstimate :: rat

record attempt =
  at_ExposedSchemaRevision :: int
  at_SQLHash :: gostring
  at_CostEstimate :: rat
  at_RowCount :: int
  at_ResultDigest :: gostring
  at_Outcome :: "gq_outcome option"

text \<open>The answers of the database: to the connection, to the beginning of the transaction, to each
  statement, to \<open>SHOW transaction_read_only\<close>, to \<open>EXPLAIN\<close> (the total cost of the one plan, or an error),
  and to the query: its columns, its rows in text form and the error that ended them, if one did.\<close>

record database =
  db_dial :: bool
  db_begin :: "gq_cause option"
  db_exec :: "gostring \<Rightarrow> gq_cause option"
  db_readOnly :: "gq_cause + gostring"
  db_explain :: "gq_cause + rat"
  db_query :: "gq_cause + (gostring list \<times> gostring option list list \<times> gq_cause option)"

definition failure :: "gq_code \<Rightarrow> gq_cause \<Rightarrow> gq_error" where
  "failure code cause = \<lparr>ge_code = code, ge_cause = cause\<rparr>"

text \<open>\<open>Error()\<close> of an error of this package is its code.\<close>

definition error_text :: "gq_error \<Rightarrow> gostring" where
  "error_text err = gq_code_text (ge_code err)"

definition isTimeoutError :: "gq_error \<Rightarrow> bool" where
  "isTimeoutError err \<longleftrightarrow> contains_str ''statement timeout'' (error_text err) \<or> contains_str ''canceling statement'' (error_text err)
     \<or> contains_str ''context deadline exceeded'' (error_text err)"

definition explainCost :: "database \<Rightarrow> gq_error + rat" where
  "explainCost db =
    (case db_explain db of
       Inl c \<Rightarrow> Inl (failure CodeExternalFailure c)
     | Inr cost \<Rightarrow> if cost < 0 then Inl (failure CodeExternalFailure NoCause) else Inr cost)"

text \<open>The values of one row, with the bytes read so far.\<close>

fun row_bytes :: "gq_limits \<Rightarrow> int \<Rightarrow> gostring option list \<Rightarrow> gq_error + int" where
  "row_bytes l nbytes [] = Inr nbytes"
| "row_bytes l nbytes (None # vs) = row_bytes l nbytes vs"
| "row_bytes l nbytes (Some v # vs) =
    (let nbytes1 = nbytes + int (length v) in
     if nbytes1 > lm_MaxResultBytes l then Inl (failure CodeInvalid NoCause) else row_bytes l nbytes1 vs)"

fun rows_loop :: "gq_limits \<Rightarrow> int \<Rightarrow> int \<Rightarrow> gostring option list list \<Rightarrow> gq_error + int" where
  "rows_loop l rowCount nbytes [] = Inr rowCount"
| "rows_loop l rowCount nbytes (r # rs) =
    (if rowCount \<ge> lm_MaxRows l then Inl (failure CodeInvalid NoCause)
     else and_then (row_bytes l nbytes r) (\<lambda>nbytes1. rows_loop l (rowCount + 1) nbytes1 rs))"

definition runQuery :: "database \<Rightarrow> gq_limits \<Rightarrow> gq_error + query_result" where
  "runQuery db l =
    (case db_query db of
       Inl c \<Rightarrow> Inl (failure CodeExternalFailure c)
     | Inr (columns, rows, ended) \<Rightarrow>
         if columns = [] \<or> length columns > 64 then Inl (failure CodeExternalFailure NoCause)
         else and_then (rows_loop l 0 0 rows) (\<lambda>rowCount.
           case ended of
             Some c \<Rightarrow> Inl (failure CodeExternalFailure c)
           | None \<Rightarrow> Inr \<lparr>qr_Columns = columns, qr_Rows = rows, qr_RowCount = rowCount, qr_CostEstimate = 0\<rparr>))"

definition value_json :: "gostring option \<Rightarrow> json" where
  "value_json v = (case v of None \<Rightarrow> JNull | Some s \<Rightarrow> JString s)"

definition resultDigest :: "gq_env \<Rightarrow> gostring list \<Rightarrow> int \<Rightarrow> gostring option list list \<Rightarrow> gostring" where
  "resultDigest e columns rowCount rows =
    (if \<not> list_all valid_utf8 columns \<or> \<not> list_all (list_all (\<lambda>v. case v of None \<Rightarrow> True | Some s \<Rightarrow> valid_utf8 s)) rows then []
     else sha256Hex e (jcs (JObject [(''columns'', JArray (map JString columns)), (''format'', JString ''postgres-text-table-v1''),
       (''row_count'', JInt rowCount), (''rows'', JArray (map (\<lambda>r. JArray (map value_json r)) rows))])))"

definition VerifyTextTableResultDigest :: "gq_env \<Rightarrow> gostring list \<Rightarrow> int \<Rightarrow> gostring option list list \<Rightarrow> gostring \<Rightarrow> bool" where
  "VerifyTextTableResultDigest e columns rowCount rows digest =
    (if \<not> gq_validSQLHash digest \<or> rowCount < 0 \<or> rowCount \<noteq> int (length rows) then False
     else (let actual = resultDigest e columns rowCount rows in actual \<noteq> [] \<and> actual = digest))"

text \<open>\<open>execute\<close>: the result or the error, the attempt record, and the texts the database was sent.
  \<open>send_all\<close> sends the statements until one fails.\<close>

fun send_all :: "database \<Rightarrow> gostring list \<Rightarrow> gostring list \<times> gq_cause option" where
  "send_all db [] = ([], None)"
| "send_all db (s # ss) =
    (case db_exec db s of
       Some c \<Rightarrow> ([s], Some c)
     | None \<Rightarrow> (case send_all db ss of (sent, c) \<Rightarrow> (s # sent, c)))"

definition session_statements :: "gq_limits \<Rightarrow> gostring list" where
  "session_statements l =
    (let timeoutMS = itoa (lm_StatementTimeout l div 1000000) @ ''ms'' in
     [''SET LOCAL search_path = pg_catalog'', ''SET LOCAL max_parallel_workers_per_gather = 0'', ''SET LOCAL jit = off'',
      ''SELECT set_config('' @ sq ''statement_timeout'' @ '', $1, true)'' @ [CHR 0x00] @ timeoutMS,
      ''SELECT set_config('' @ sq ''idle_in_transaction_session_timeout'' @ '', $1, true)'' @ [CHR 0x00] @ timeoutMS])"

definition run_outcome :: "gq_error \<Rightarrow> gq_outcome \<times> gq_error" where
  "run_outcome err =
    (if ge_cause err = DeadlineExceeded \<or> isTimeoutError err then (OutcomeTimeout, failure CodeExternalFailure (ge_cause err))
     else if ge_code err = CodeInvalid then (OutcomeRowLimitExceeded, err)
     else (OutcomeRejectedDatabase, failure CodeExternalFailure (ge_cause err)))"

definition execute_session :: "gq_env \<Rightarrow> gq_config \<Rightarrow> gostring \<Rightarrow> database \<Rightarrow> attempt
    \<Rightarrow> (gq_error + query_result) \<times> attempt \<times> gostring list" where
  "execute_session e config sqlText db attempt =
    (let l = cf_Limits config;
         rejected = (\<lambda>c sent. (Inl (failure CodeExternalFailure c), attempt\<lparr>at_Outcome := Some OutcomeRejectedDatabase\<rparr>, sent)) in
     case send_all db (session_statements l) of
       (sent, Some c) \<Rightarrow> rejected c sent
     | (sent, None) \<Rightarrow>
         (case db_readOnly db of
            Inl c \<Rightarrow> rejected c (sent @ [''SHOW transaction_read_only''])
          | Inr readOnly \<Rightarrow>
              if readOnly \<noteq> ''on'' then rejected NoCause (sent @ [''SHOW transaction_read_only''])
              else
                (let sent1 = sent @ [''SHOW transaction_read_only'', ''EXPLAIN (FORMAT JSON) '' @ sqlText] in
                 case explainCost db of
                   Inl err \<Rightarrow> (Inl err, attempt\<lparr>at_Outcome := Some OutcomeRejectedDatabase\<rparr>, sent1)
                 | Inr cost \<Rightarrow>
                     let attempt1 = attempt\<lparr>at_CostEstimate := cost\<rparr> in
                     if cost > lm_MaxCostEstimate l
                     then (Inl (failure CodeInvalid NoCause), attempt1\<lparr>at_Outcome := Some OutcomeCostLimitExceeded\<rparr>, sent1)
                     else
                       (case runQuery db l of
                          Inl err \<Rightarrow> (Inl (snd (run_outcome err)), attempt1\<lparr>at_Outcome := Some (fst (run_outcome err))\<rparr>, sent1 @ [sqlText])
                        | Inr result \<Rightarrow>
                            (Inr (result\<lparr>qr_CostEstimate := cost\<rparr>),
                             attempt1\<lparr>at_RowCount := qr_RowCount result,
                               at_ResultDigest := resultDigest e (qr_Columns result) (qr_RowCount result) (qr_Rows result),
                               at_Outcome := Some OutcomeSucceeded\<rparr>,
                             sent1 @ [sqlText])))))"

definition Execute :: "gq_env \<Rightarrow> gq_config \<Rightarrow> int \<Rightarrow> gostring \<Rightarrow> database
    \<Rightarrow> (gq_error + query_result) \<times> attempt \<times> gostring list" where
  "Execute e config revision sqlText db =
    (let attempt = \<lparr>at_ExposedSchemaRevision = revision, at_SQLHash = [], at_CostEstimate = 0, at_RowCount = 0,
                    at_ResultDigest = [], at_Outcome = None\<rparr>;
         attempt1 = attempt\<lparr>at_SQLHash := sha256Hex e sqlText\<rparr> in
     if \<not> config_valid e config \<or> length sqlText = 0 \<or> length sqlText > 8192 \<or> revision < 1
     then (Inl (failure CodeInvalid NoCause), attempt, [])
     else if \<not> staticPrecheck e sqlText
     then (Inl (failure CodeInvalid NoCause), attempt1\<lparr>at_Outcome := Some OutcomeRejectedStatic\<rparr>, [])
     else if \<not> db_dial db
     then (Inl (failure CodeExternalFailure NoCause), attempt1\<lparr>at_Outcome := Some OutcomeRejectedDatabase\<rparr>, [])
     else case db_begin db of
            Some c \<Rightarrow> (Inl (failure CodeExternalFailure c), attempt1\<lparr>at_Outcome := Some OutcomeRejectedDatabase\<rparr>, [''BEGIN READ ONLY''])
          | None \<Rightarrow>
              (case execute_session e config sqlText db attempt1 of
                 (r, a, sent) \<Rightarrow> (r, a, ''BEGIN READ ONLY'' # sent)))"

section \<open>Promotion and presets of executed attempts\<close>

record executed_attempt =
  ea_AttemptID :: gostring
  ea_ConnectionID :: gostring
  ea_ExposedSchemaRevision :: int
  ea_SQLText :: gostring
  ea_SQLHash :: gostring

record promotion_request =
  pq_ConnectionID :: gostring
  pq_PrincipalID :: gostring
  pq_ExpectedSQLHash :: gostring
  pq_Attempt :: executed_attempt

text \<open>The only status: \<open>RECORDED_PENDING_INTEGRATION\<close>.\<close>

datatype promotion_status = PromotionRecordedPendingIntegration

record promotion_result =
  pm_Status :: promotion_status
  pm_AttemptID :: gostring
  pm_SQLHash :: gostring

definition constantTimeEqual :: "gostring \<Rightarrow> gostring \<Rightarrow> bool" where
  "constantTimeEqual l r = (if length l \<noteq> length r then False else l = r)"

definition PromoteToProjection :: "gq_env \<Rightarrow> promotion_request \<Rightarrow> promotion_result option" where
  "PromoteToProjection e rq =
    (let attempt = pq_Attempt rq; derived = sha256Hex e (ea_SQLText attempt) in
     if \<not> gq_validOpaque (pq_ConnectionID rq) \<or> \<not> gq_validOpaque (pq_PrincipalID rq) \<or> \<not> gq_validOpaque (ea_AttemptID attempt)
        \<or> \<not> gq_validOpaque (ea_ConnectionID attempt) \<or> ea_ConnectionID attempt \<noteq> pq_ConnectionID rq
        \<or> ea_ExposedSchemaRevision attempt < 1 \<or> length (ea_SQLText attempt) = 0 \<or> length (ea_SQLText attempt) > 8192
     then None
     else if \<not> constantTimeEqual derived (ea_SQLHash attempt) \<or> \<not> constantTimeEqual derived (pq_ExpectedSQLHash rq) then None
     else if \<not> staticPrecheck e (ea_SQLText attempt) then None
     else Some \<lparr>pm_Status = PromotionRecordedPendingIntegration, pm_AttemptID = ea_AttemptID attempt, pm_SQLHash = derived\<rparr>)"

definition Binds :: "gq_env \<Rightarrow> preset \<Rightarrow> executed_attempt \<Rightarrow> bool" where
  "Binds e p attempt =
    (if ea_AttemptID attempt \<noteq> pr_SourceAttemptID p \<or> ea_ExposedSchemaRevision attempt \<noteq> pr_ExposedSchemaRevision p
        \<or> \<not> constantTimeEqual (ea_SQLHash attempt) (pr_SQLHash p)
        \<or> \<not> constantTimeEqual (sha256Hex e (ea_SQLText attempt)) (pr_SQLHash p) then False
     else staticPrecheck e (ea_SQLText attempt))"

section \<open>The exposed schema\<close>

record exposed_column =
  ec_Name :: gostring
  ec_DataType :: gostring
  ec_Description :: gostring
  ec_Unit :: gostring

record exposed_object =
  eo_SchemaName :: gostring
  eo_TableName :: gostring
  eo_Description :: gostring
  eo_Columns :: "exposed_column list"

record governed_schema =
  gs_Revision :: int
  gs_Objects :: "exposed_object list"

text \<open>Every accepted rune is ASCII, so the loop over the runes is one over the bytes; a digit is refused in
  front.\<close>

definition validIdentifier :: "gostring \<Rightarrow> bool" where
  "validIdentifier v =
    (if v = [] \<or> length v > 128 then False
     else list_all (\<lambda>c. is_lower c \<or> is_digit c \<or> c = CHR ''_'') v \<and> \<not> is_digit (hd v))"

definition validProse :: "gostring \<Rightarrow> nat \<Rightarrow> bool" where
  "validProse v maxRunes \<longleftrightarrow> v \<noteq> [] \<and> list_all (\<lambda>r. \<not> (r < 0x20 \<and> r \<noteq> 10)) (runes v) \<and> length (runes v) \<le> maxRunes"

fun schema_columns_loop :: "gostring list \<Rightarrow> exposed_column list \<Rightarrow> bool" where
  "schema_columns_loop seen [] = True"
| "schema_columns_loop seen (c # cs) =
    (if \<not> validIdentifier (ec_Name c) \<or> \<not> validProse (ec_Description c) 512
        \<or> (ec_Unit c \<noteq> [] \<and> \<not> validProse (ec_Unit c) 64) then False
     else if ec_Name c \<in> set seen then False
     else schema_columns_loop (ec_Name c # seen) cs)"

definition object_key :: "exposed_object \<Rightarrow> gostring" where
  "object_key ob = eo_SchemaName ob @ ''.'' @ eo_TableName ob"

fun schema_objects_loop :: "gostring list \<Rightarrow> exposed_object list \<Rightarrow> bool" where
  "schema_objects_loop seen [] = True"
| "schema_objects_loop seen (ob # obs) =
    (if \<not> validIdentifier (eo_SchemaName ob) \<or> \<not> validIdentifier (eo_TableName ob) \<or> \<not> validProse (eo_Description ob) 512
        \<or> eo_Columns ob = [] \<or> length (eo_Columns ob) > 64 then False
     else if object_key ob \<in> set seen then False
     else if \<not> schema_columns_loop [] (eo_Columns ob) then False
     else schema_objects_loop (object_key ob # seen) obs)"

definition schema_Validate :: "governed_schema \<Rightarrow> bool" where
  "schema_Validate s =
    (if gs_Revision s < 1 \<or> gs_Objects s = [] \<or> length (gs_Objects s) > 32 then False else schema_objects_loop [] (gs_Objects s))"

definition column_text :: "exposed_column \<Rightarrow> gostring" where
  "column_text c = ''- '' @ ec_Name c @ '' ('' @ ec_DataType c
     @ (if ec_Unit c \<noteq> [] then '', unit: '' @ ec_Unit c else []) @ ''): '' @ ec_Description c @ nl"

definition PromptText :: "governed_schema \<Rightarrow> gostring list" where
  "PromptText s = map (\<lambda>ob. ''TABLE '' @ eo_SchemaName ob @ ''.'' @ eo_TableName ob @ '': '' @ eo_Description ob
     @ nl @ ''Columns:'' @ nl @ concat (map column_text (eo_Columns ob))) (gs_Objects s)"

text \<open>\<open>DiscoverExposedSchema\<close> after its connection: \<open>visible\<close> is what the role sees of
  \<open>information_schema.columns\<close>, by qualified table name and column.\<close>

definition resolve_column :: "(gostring \<rightharpoonup> gostring) \<Rightarrow> exposed_column \<Rightarrow> gq_code + exposed_column" where
  "resolve_column columns c =
    (case columns (ec_Name c) of None \<Rightarrow> Inl CodeSchemaUnavailable | Some dataType \<Rightarrow> Inr (c\<lparr>ec_DataType := dataType\<rparr>))"

fun resolve_columns :: "(gostring \<rightharpoonup> gostring) \<Rightarrow> exposed_column list \<Rightarrow> gq_code + exposed_column list" where
  "resolve_columns columns [] = Inr []"
| "resolve_columns columns (c # cs) =
    and_then (resolve_column columns c) (\<lambda>c'. and_then (resolve_columns columns cs) (\<lambda>cs'. Inr (c' # cs')))"

fun resolve_objects :: "(gostring \<rightharpoonup> (gostring \<rightharpoonup> gostring)) \<Rightarrow> exposed_object list \<Rightarrow> gq_code + exposed_object list" where
  "resolve_objects visible [] = Inr []"
| "resolve_objects visible (ob # obs) =
    (if \<not> validIdentifier (eo_SchemaName ob) \<or> \<not> validIdentifier (eo_TableName ob) then Inl CodeInvalid
     else case visible (object_key ob) of
            None \<Rightarrow> Inl CodeSchemaUnavailable
          | Some columns \<Rightarrow>
              and_then (resolve_columns columns (eo_Columns ob)) (\<lambda>cs.
                and_then (resolve_objects visible obs) (\<lambda>rest. Inr (ob\<lparr>eo_Columns := cs\<rparr> # rest))))"

definition DiscoverExposedSchema :: "gq_env \<Rightarrow> gq_config \<Rightarrow> (gostring \<rightharpoonup> (gostring \<rightharpoonup> gostring)) \<Rightarrow> int \<Rightarrow> exposed_object list
    \<Rightarrow> gq_code + governed_schema" where
  "DiscoverExposedSchema e config visible revision requested =
    (if \<not> config_valid e config \<or> revision < 1 \<or> requested = [] then Inl CodeInvalid
     else and_then (resolve_objects visible requested) (\<lambda>objects.
       let schema = \<lparr>gs_Revision = revision, gs_Objects = sort_key object_key objects\<rparr> in
       if \<not> schema_Validate schema then Inl CodeInvalid else Inr schema))"

end
