(* ===== verification/Governed_Safety.thy ===== *)
theory Governed_Safety
  imports Governed_Query
begin

text \<open>
  What \<open>Execute\<close> guarantees against every database: the texts it sends are a prefix of one fixed script
  whose last text is the query, each text only behind its checks; a success respects every bound of the
  configuration and its digest is the one \<open>VerifyTextTableResultDigest\<close> accepts.
\<close>

section \<open>The script\<close>

definition script :: "gq_limits \<Rightarrow> gostring \<Rightarrow> gostring list" where
  "script l sqlText = ''BEGIN READ ONLY'' # session_statements l @ [''SHOW transaction_read_only'', ''EXPLAIN (FORMAT JSON) '' @ sqlText, sqlText]"

lemma session_statements_length [simp]: "length (session_statements l) = 5"
  by (simp add: session_statements_def Let_def)

lemma send_all_prefix:
  "send_all db ss = (sent, c) \<Longrightarrow> (c = None \<longrightarrow> sent = ss) \<and> sent = take (length sent) ss \<and> length sent \<le> length ss"
proof (induction ss arbitrary: sent)
  case (Cons s ss)
  then show ?case by (cases "send_all db ss") (force split: option.splits)
qed simp

section \<open>The bounds on a result\<close>

definition table_bytes :: "gostring option list list \<Rightarrow> int" where
  "table_bytes rows = sum_list (map (\<lambda>v. case v of None \<Rightarrow> 0 | Some s \<Rightarrow> int (length s)) (concat rows))"

lemma table_bytes_simps [simp]: "table_bytes [] = 0" "table_bytes ([] # rs) = table_bytes rs"
  "table_bytes ((v # r) # rs) = (case v of None \<Rightarrow> 0 | Some s \<Rightarrow> int (length s)) + table_bytes (r # rs)"
  by (simp_all add: table_bytes_def)

lemma row_bytes_total: "row_bytes l n r = Inr m \<Longrightarrow> n \<le> lm_MaxResultBytes l \<Longrightarrow> m = n + table_bytes [r] \<and> m \<le> lm_MaxResultBytes l"
proof (induction r arbitrary: n)
  case (Cons v r)
  show ?case
  proof (cases v)
    case None
    with Cons show ?thesis by simp
  next
    case (Some s)
    with Cons.prems have "row_bytes l (n + int (length s)) r = Inr m" "n + int (length s) \<le> lm_MaxResultBytes l"
      by (simp_all add: Let_def split: if_splits)
    from Cons.IH [OF this] Some show ?thesis by simp
  qed
qed simp

lemma table_bytes_Cons: "table_bytes (r # rs) = table_bytes [r] + table_bytes rs"
  by (simp add: table_bytes_def)

lemma rows_loop_total:
  "rows_loop l k n rows = Inr m \<Longrightarrow> n \<le> lm_MaxResultBytes l \<Longrightarrow> k \<le> lm_MaxRows l
   \<Longrightarrow> m = k + int (length rows) \<and> m \<le> lm_MaxRows l \<and> n + table_bytes rows \<le> lm_MaxResultBytes l"
proof (induction rows arbitrary: k n)
  case (Cons r rs)
  then obtain n1 where n1: "row_bytes l n r = Inr n1" and rest: "rows_loop l (k + 1) n1 rs = Inr m" and k: "k < lm_MaxRows l"
    by (cases "row_bytes l n r") (auto split: if_splits)
  from row_bytes_total [OF n1 Cons.prems(2)] have b: "n1 = n + table_bytes [r]" "n1 \<le> lm_MaxResultBytes l" by simp_all
  from Cons.IH [OF rest b(2)] k have "m = (k + 1) + int (length rs) \<and> m \<le> lm_MaxRows l \<and> n1 + table_bytes rs \<le> lm_MaxResultBytes l" by simp
  with b(1) show ?case by (simp add: table_bytes_Cons [of r rs])
qed simp

definition result_fits :: "gq_limits \<Rightarrow> query_result \<Rightarrow> bool" where
  "result_fits l r \<longleftrightarrow> qr_Columns r \<noteq> [] \<and> length (qr_Columns r) \<le> 64 \<and> qr_RowCount r = int (length (qr_Rows r))
     \<and> qr_RowCount r \<le> lm_MaxRows l \<and> table_bytes (qr_Rows r) \<le> lm_MaxResultBytes l
     \<and> 0 \<le> qr_CostEstimate r \<and> qr_CostEstimate r \<le> lm_MaxCostEstimate l"

lemma runQuery_fits:
  assumes "runQuery db l = Inr r" "limits_valid l" "0 \<le> cost" "cost \<le> lm_MaxCostEstimate l"
  shows "result_fits l (r\<lparr>qr_CostEstimate := cost\<rparr>)" "db_query db = Inr (qr_Columns r, qr_Rows r, None)"
proof -
  from assms(1) obtain columns rows ended where q: "db_query db = Inr (columns, rows, ended)"
    by (auto simp: runQuery_def split: sum.splits prod.splits)
  with assms(1) have c: "columns \<noteq> []" "length columns \<le> 64" by (auto simp: runQuery_def split: if_splits)
  with assms(1) q obtain k where k: "rows_loop l 0 0 rows = Inr k" by (cases "rows_loop l 0 0 rows") (auto simp: runQuery_def)
  with assms(1) q c have "ended = None" and r: "r = \<lparr>qr_Columns = columns, qr_Rows = rows, qr_RowCount = k, qr_CostEstimate = 0\<rparr>"
    by (auto simp: runQuery_def split: option.splits)
  with q show "db_query db = Inr (qr_Columns r, qr_Rows r, None)" by simp
  from rows_loop_total [OF k] assms(2) have "k = int (length rows) \<and> k \<le> lm_MaxRows l \<and> table_bytes rows \<le> lm_MaxResultBytes l"
    by (simp add: limits_valid_def)
  with c r assms(3,4) show "result_fits l (r\<lparr>qr_CostEstimate := cost\<rparr>)" by (simp add: result_fits_def)
qed

section \<open>A run\<close>

definition query_ready :: "gq_config \<Rightarrow> database \<Rightarrow> bool" where
  "query_ready c db \<longleftrightarrow> db_readOnly db = Inr ''on'' \<and> (\<exists>cost. db_explain db = Inr cost \<and> 0 \<le> cost \<and> cost \<le> lm_MaxCostEstimate (cf_Limits c))"

text \<open>The log of a session, with what has been checked at its length.\<close>

definition session_log :: "gq_config \<Rightarrow> gostring \<Rightarrow> database \<Rightarrow> gostring list \<Rightarrow> bool" where
  "session_log c sqlText db sent \<longleftrightarrow> sent = take (length sent) (tl (script (cf_Limits c) sqlText)) \<and> length sent \<le> 8
     \<and> (length sent \<ge> 7 \<longrightarrow> db_readOnly db = Inr ''on'') \<and> (length sent = 8 \<longrightarrow> query_ready c db)"

lemma session_prefix: "send_all db (session_statements l) = (sent, Some x) \<Longrightarrow> sent = take (length sent) (session_statements l) \<and> length sent \<le> 5"
  using send_all_prefix by force

lemma execute_session_cases:
  assumes "limits_valid (cf_Limits c)" "execute_session e c sqlText db a = (r, att, sent)"
  shows "session_log c sqlText db sent
    \<and> (case r of Inl err \<Rightarrow> at_Outcome att \<noteq> Some OutcomeSucceeded \<and> at_Outcome att \<noteq> None
       | Inr result \<Rightarrow> length sent = 8 \<and> result_fits (cf_Limits c) result \<and> at_Outcome att = Some OutcomeSucceeded
           \<and> db_query db = Inr (qr_Columns result, qr_Rows result, None)
           \<and> at_RowCount att = qr_RowCount result \<and> at_CostEstimate att = qr_CostEstimate result
           \<and> at_ResultDigest att = resultDigest e (qr_Columns result) (qr_RowCount result) (qr_Rows result))"
proof -
  let ?l = "cf_Limits c" and ?ss = "session_statements (cf_Limits c)"
  have tail: "tl (script ?l sqlText) = ?ss @ [''SHOW transaction_read_only'', ''EXPLAIN (FORMAT JSON) '' @ sqlText, sqlText]"
    by (simp add: script_def)
  obtain pre x where pre: "send_all db ?ss = (pre, x)" by (cases "send_all db ?ss")
  show ?thesis
  proof (cases x)
    case (Some cause)
    with assms(2) pre have "sent = pre" "r = Inl (failure CodeExternalFailure cause)" "at_Outcome att = Some OutcomeRejectedDatabase"
      by (auto simp: execute_session_def)
    moreover have "pre = take (length pre) ?ss" "length pre \<le> 5" using session_prefix pre Some by blast+
    ultimately show ?thesis by (simp add: session_log_def tail)
  next
    case None
    with pre send_all_prefix have all: "pre = ?ss" by blast
    note run = assms(2) [unfolded execute_session_def Let_def pre None all]
    show ?thesis
    proof (cases "db_readOnly db = Inr ''on''")
      case False
      with run have "sent = ?ss @ [''SHOW transaction_read_only'']" "\<exists>err. r = Inl err" "at_Outcome att = Some OutcomeRejectedDatabase"
        by (auto split: sum.splits if_splits)
      then show ?thesis by (auto simp: session_log_def tail)
    next
      case on: True
      show ?thesis
      proof (cases "\<exists>cost. explainCost db = Inr cost \<and> cost \<le> lm_MaxCostEstimate ?l")
        case False
        with run on have "sent = ?ss @ [''SHOW transaction_read_only'', ''EXPLAIN (FORMAT JSON) '' @ sqlText]" "\<exists>err. r = Inl err"
          "at_Outcome att = Some OutcomeRejectedDatabase \<or> at_Outcome att = Some OutcomeCostLimitExceeded"
          by (auto split: sum.splits if_splits)
        with on show ?thesis by (auto simp: session_log_def tail)
      next
        case True
        then obtain cost where cost: "explainCost db = Inr cost" "cost \<le> lm_MaxCostEstimate ?l" by blast
        then have nonneg: "0 \<le> cost" "db_explain db = Inr cost" by (auto simp: explainCost_def split: sum.splits if_splits)
        have log: "session_log c sqlText db (?ss @ [''SHOW transaction_read_only'', ''EXPLAIN (FORMAT JSON) '' @ sqlText, sqlText])"
          using on nonneg cost(2) by (simp add: session_log_def tail query_ready_def)
        show ?thesis
        proof (cases "runQuery db ?l")
          case (Inl err)
          have "fst (run_outcome err) \<noteq> OutcomeSucceeded" by (simp add: run_outcome_def)
          with run on cost Inl log show ?thesis by auto
        next
          case (Inr result)
          from runQuery_fits [OF Inr assms(1) nonneg(1) cost(2)]
          have "result_fits ?l (result\<lparr>qr_CostEstimate := cost\<rparr>)" "db_query db = Inr (qr_Columns result, qr_Rows result, None)" by simp_all
          with run on cost Inr log show ?thesis by auto
        qed
      qed
    qed
  qed
qed

section \<open>Timeouts\<close>

lemma no_timeout_text: "\<not> isTimeoutError err"
proof -
  have "\<not> contains_str ''statement timeout'' (gq_code_text code) \<and> \<not> contains_str ''canceling statement'' (gq_code_text code)
      \<and> \<not> contains_str ''context deadline exceeded'' (gq_code_text code)" for code
    by (cases code) simp_all
  then show ?thesis by (simp add: isTimeoutError_def error_text_def)
qed

lemma rows_loop_cause: "rows_loop l k n rows = Inl err \<Longrightarrow> ge_cause err = NoCause"
proof (induction rows arbitrary: k n)
  case (Cons row rows)
  have "ge_cause err = NoCause" if "row_bytes l n row = Inl err" for n
    using that by (induction l n row rule: row_bytes.induct) (auto simp: Let_def failure_def split: if_splits)
  with Cons show ?case by (cases "row_bytes l n row") (auto simp: failure_def split: if_splits)
qed simp

text \<open>The query ended on the deadline of the context.\<close>

definition query_deadline :: "gq_config \<Rightarrow> database \<Rightarrow> bool" where
  "query_deadline c db \<longleftrightarrow> db_query db = Inl DeadlineExceeded
     \<or> (\<exists>columns rows k. db_query db = Inr (columns, rows, Some DeadlineExceeded) \<and> columns \<noteq> [] \<and> length columns \<le> 64
          \<and> rows_loop (cf_Limits c) 0 0 rows = Inr k)"

lemma runQuery_deadline: "(\<exists>err. runQuery db (cf_Limits c) = Inl err \<and> ge_cause err = DeadlineExceeded) \<longleftrightarrow> query_deadline c db"
proof (cases "db_query db")
  case (Inl x)
  then show ?thesis by (simp add: runQuery_def query_deadline_def failure_def)
next
  case (Inr t)
  obtain columns rows ended where t: "t = (columns, rows, ended)" by (cases t) auto
  show ?thesis
  proof (cases "rows_loop (cf_Limits c) 0 0 rows")
    case (Inl err)
    then show ?thesis using Inr t rows_loop_cause [OF Inl] by (auto simp: runQuery_def query_deadline_def failure_def)
  next
    case k: (Inr k)
    show ?thesis using Inr t k by (auto simp: runQuery_def query_deadline_def failure_def split: option.splits)
  qed
qed

lemma session_timeout:
  assumes "execute_session e c sqlText db a = (r, att, sent)" "length sent = 8"
  shows "at_Outcome att = Some OutcomeTimeout \<longleftrightarrow> query_deadline c db"
    "db_query db = Inl (DatabaseError m) \<Longrightarrow> at_Outcome att = Some OutcomeRejectedDatabase"
proof -
  let ?l = "cf_Limits c" and ?ss = "session_statements (cf_Limits c)"
  obtain pre x where pre: "send_all db ?ss = (pre, x)" by (cases "send_all db ?ss")
  have "x = None" using assms pre session_prefix [of db ?l pre] by (cases x) (auto simp: execute_session_def)
  with pre send_all_prefix have all: "pre = ?ss" by blast
  note run = assms(1) [unfolded execute_session_def Let_def pre \<open>x = None\<close> all]
  have failed: "runQuery db ?l = Inl err \<Longrightarrow> at_Outcome att = Some (fst (run_outcome err))" for err
    using run assms(2) by (auto split: sum.splits if_splits)
  have succeeded: "runQuery db ?l = Inr result \<Longrightarrow> at_Outcome att = Some OutcomeSucceeded" for result
    using run assms(2) by (auto split: sum.splits if_splits)
  show "at_Outcome att = Some OutcomeTimeout \<longleftrightarrow> query_deadline c db"
    unfolding runQuery_deadline [symmetric]
    using failed succeeded by (cases "runQuery db ?l") (simp_all add: run_outcome_def no_timeout_text)
  show "at_Outcome att = Some OutcomeRejectedDatabase" if "db_query db = Inl (DatabaseError m)"
    using failed that by (simp add: runQuery_def run_outcome_def no_timeout_text failure_def)
qed

lemma execute_ran:
  assumes "Execute e c revision sqlText db = (r, att, sent)" "length sent = 9"
  shows "\<exists>a sent'. execute_session e c sqlText db a = (r, att, sent') \<and> length sent' = 8"
  using assms by (fastforce simp: Execute_def Let_def split: if_splits option.splits prod.splits)

section \<open>Properties\<close>

text \<open>C27. \<open>Execute\<close> sends the database a prefix of one script: it opens the read-only transaction, sets the
  session, asks whether it is read-only, explains the text and then runs it. Nothing is sent before the
  configuration, the bounds and the static check have accepted the text; the text itself runs only when the
  database has said that the transaction is read-only and its cost is within the limit; a success is the
  database's own complete answer, within the limits on columns, rows and bytes, and is recorded as such;
  every other run is recorded with another outcome.\<close>

theorem governed_execution_guarded:
  "case Execute e c revision sqlText db of (r, att, sent) \<Rightarrow>
     sent = take (length sent) (script (cf_Limits c) sqlText) \<and> length sent \<le> 9
     \<and> (sent \<noteq> [] \<longrightarrow> config_valid e c \<and> revision \<ge> 1 \<and> sqlText \<noteq> [] \<and> length sqlText \<le> 8192 \<and> staticPrecheck e sqlText)
     \<and> (length sent \<ge> 8 \<longrightarrow> db_readOnly db = Inr ''on'') \<and> (length sent = 9 \<longrightarrow> query_ready c db)
     \<and> (case r of
          Inl err \<Rightarrow> at_Outcome att \<noteq> Some OutcomeSucceeded
        | Inr result \<Rightarrow> length sent = 9 \<and> result_fits (cf_Limits c) result \<and> at_Outcome att = Some OutcomeSucceeded
            \<and> db_query db = Inr (qr_Columns result, qr_Rows result, None) \<and> at_RowCount att = qr_RowCount result
            \<and> at_ResultDigest att = resultDigest e (qr_Columns result) (qr_RowCount result) (qr_Rows result))"
proof -
  obtain r att sent where x: "Execute e c revision sqlText db = (r, att, sent)" by (cases "Execute e c revision sqlText db") auto
  show ?thesis
  proof (cases "sent = []")
    case True
    with x have "(\<exists>err. r = Inl err) \<and> at_Outcome att \<noteq> Some OutcomeSucceeded"
      by (auto simp: Execute_def Let_def split: if_splits option.splits prod.splits)
    with True show ?thesis by (auto simp: x)
  next
    case False
    from x False have ok: "config_valid e c" "revision \<ge> 1" "sqlText \<noteq> []" "length sqlText \<le> 8192" "staticPrecheck e sqlText" "db_dial db"
      by (auto simp: Execute_def Let_def split: if_splits)
    then have lim: "limits_valid (cf_Limits c)" by (simp add: config_valid_def)
    show ?thesis
    proof (cases "db_begin db")
      case (Some cause)
      with x ok have "sent = [''BEGIN READ ONLY'']" "\<exists>err. r = Inl err" "at_Outcome att = Some OutcomeRejectedDatabase"
        by (auto simp: Execute_def Let_def)
      with ok show ?thesis by (auto simp: x script_def)
    next
      case None
      with x ok obtain a sent' where run: "execute_session e c sqlText db a = (r, att, sent')" and sent: "sent = ''BEGIN READ ONLY'' # sent'"
        by (auto simp: Execute_def Let_def split: prod.splits)
      from execute_session_cases [OF lim run] have
        log: "session_log c sqlText db sent'" by blast
      have head: "script (cf_Limits c) sqlText = ''BEGIN READ ONLY'' # tl (script (cf_Limits c) sqlText)" by (simp add: script_def)
      from log have "sent = take (length sent) (script (cf_Limits c) sqlText)"
        by (subst head) (simp add: sent session_log_def)
      moreover have "length sent \<le> 9" "length sent \<ge> 8 \<Longrightarrow> db_readOnly db = Inr ''on''" "length sent = 9 \<Longrightarrow> query_ready c db"
        using log by (simp_all add: session_log_def sent)
      moreover from execute_session_cases [OF lim run]
      have "case r of Inl err \<Rightarrow> at_Outcome att \<noteq> Some OutcomeSucceeded
        | Inr result \<Rightarrow> length sent = 9 \<and> result_fits (cf_Limits c) result \<and> at_Outcome att = Some OutcomeSucceeded
            \<and> db_query db = Inr (qr_Columns result, qr_Rows result, None) \<and> at_RowCount att = qr_RowCount result
            \<and> at_ResultDigest att = resultDigest e (qr_Columns result) (qr_RowCount result) (qr_Rows result)"
        by (auto simp: sent split: sum.splits)
      ultimately show ?thesis using ok by (simp add: x)
    qed
  qed
qed

text \<open>C28. When the query has run, \<open>Execute\<close> records \<open>TIMEOUT\<close> exactly if the error wraps the deadline of the
  context. Any error that the database itself reports, the message of its \<open>statement_timeout\<close> included, is
  recorded as \<open>REJECTED_DATABASE\<close>: \<open>isTimeoutError\<close> searches the text of the package's own error, which is
  its code and never names a timeout.\<close>

theorem statement_timeout_misreported:
  assumes "Execute e c revision sqlText db = (r, att, sent)" "length sent = 9"
  shows "(at_Outcome att = Some OutcomeTimeout \<longleftrightarrow> query_deadline c db)
     \<and> (db_query db = Inl (DatabaseError m) \<longrightarrow> at_Outcome att = Some OutcomeRejectedDatabase)"
  using execute_ran [OF assms] session_timeout by blast

section \<open>Witnesses\<close>

definition small_limits :: gq_limits where
  "small_limits = \<lparr>lm_StatementTimeout = 10 * second_ns, lm_MaxRows = 2, lm_MaxResultBytes = 64, lm_MaxCostEstimate = 50000\<rparr>"

definition small_config :: gq_config where
  "small_config = \<lparr>cf_ConnectionID = ''ops'', cf_DatabaseIdentity = ''demo'', cf_WorkspaceID = ''tko'', cf_DSNValid = True,
     cf_TrustRoots = True, cf_Limits = small_limits, cf_Presets = []\<rparr>"

definition small_env :: gq_env where
  "small_env = \<lparr>gq_sha256 = (\<lambda>s. []), gq_lower = map ascii_lower\<rparr>"

definition small_db :: "gq_cause + (gostring list \<times> gostring option list list \<times> gq_cause option) \<Rightarrow> database" where
  "small_db answer = \<lparr>db_dial = True, db_begin = None, db_exec = (\<lambda>s. None), db_readOnly = Inr ''on'', db_explain = Inr 3, db_query = answer\<rparr>"

lemma small_run: "Execute small_env small_config 1 ''select n from t;'' (small_db answer) =
   (case execute_session small_env small_config ''select n from t;'' (small_db answer)
      \<lparr>at_ExposedSchemaRevision = 1, at_SQLHash = ''sha256:'', at_CostEstimate = 0, at_RowCount = 0, at_ResultDigest = [], at_Outcome = None\<rparr> of
     (r, a, sent) \<Rightarrow> (r, a, ''BEGIN READ ONLY'' # sent))"
proof -
  have "limits_valid small_limits" by (simp add: limits_valid_def small_limits_def second_ns_def)
  moreover have "gq_validOpaque ''ops'' \<and> gq_validOpaque ''demo'' \<and> gq_validOpaque ''tko''" by code_simp
  ultimately have "config_valid small_env small_config"
    by (simp add: config_valid_def small_config_def validatePresets_def)
  moreover have "staticPrecheck small_env ''select n from t;''" by code_simp
  moreover have "sha256Hex small_env ''select n from t;'' = ''sha256:''" by (simp add: sha256Hex_def small_env_def hex_encode_def)
  ultimately show ?thesis by (simp add: Execute_def Let_def small_db_def)
qed

theorem governed_execution_guarded_witness:
  "query_ready small_config (small_db (Inr ([''n''], [[Some ''7'']], None)))
   \<and> length (snd (snd (Execute small_env small_config 1 ''select n from t;'' (small_db (Inr ([''n''], [[Some ''7'']], None)))))) = 9"
proof -
  let ?db = "small_db (Inr ([''n''], [[Some ''7'']], None))"
  have "isl (fst (Execute small_env small_config 1 ''select n from t;'' ?db)) = False"
    unfolding small_run by (simp add: execute_session_def Let_def small_db_def session_statements_def small_config_def small_limits_def
        explainCost_def runQuery_def)
  then show ?thesis
    using governed_execution_guarded [where e = small_env and c = small_config and revision = 1 and sqlText = "''select n from t;''" and db = ?db]
    by (auto split: prod.splits sum.splits)
qed

theorem statement_timeout_misreported_witness:
  "at_Outcome (fst (snd (Execute small_env small_config 1 ''select n from t;''
     (small_db (Inl (DatabaseError ''canceling statement due to statement timeout'')))))) = Some OutcomeRejectedDatabase"
proof -
  let ?db = "small_db (Inl (DatabaseError ''canceling statement due to statement timeout''))"
  obtain r att sent where x: "Execute small_env small_config 1 ''select n from t;'' ?db = (r, att, sent)"
    by (cases "Execute small_env small_config 1 ''select n from t;'' ?db") auto
  have "length sent = 9"
    using x unfolding small_run by (auto simp: execute_session_def Let_def small_db_def session_statements_def small_config_def
        small_limits_def explainCost_def runQuery_def)
  from statement_timeout_misreported [OF x this, of "''canceling statement due to statement timeout''"]
  have "at_Outcome att = Some OutcomeRejectedDatabase" by (simp add: small_db_def)
  then show ?thesis by (simp only: x fst_conv snd_conv)
qed

end
