(* ===== verification/Metric_Result.thy ===== *)
theory Metric_Result
  imports Metric_Profile
begin

text \<open>
  \<open>internal/metriccompare/result.go\<close> and \<open>evidence.go\<close>: the two-row text table that the compiled query returns
  is read into a comparison of two days, and a digest binds the comparison to the table. Decimals are exact
  rationals. The lemmas show that a compact decimal prints the number it was made from, how far a percentage
  is from the true one, and that the order of the two rows does not matter.
\<close>

section \<open>Decimals\<close>

definition unsigned_text :: "gostring \<Rightarrow> gostring" where
  "unsigned_text s = (case s of c # t \<Rightarrow> if c = CHR ''-'' \<or> c = CHR ''+'' then t else s | [] \<Rightarrow> [])"

text \<open>The pattern \<open>^[+-]?(?:[0-9]+(?:\.[0-9]+)?|\.[0-9]+)$\<close>\<close>

definition decimalText :: "gostring \<Rightarrow> bool" where
  "decimalText s =
    (case cut_on CHR ''.'' (unsigned_text s) of
       (ip, fp, found) \<Rightarrow> list_all is_digit ip \<and> (if found then fp \<noteq> [] \<and> list_all is_digit fp else ip \<noteq> []))"

text \<open>\<open>big.Rat.SetString\<close> on a text of the pattern.\<close>

definition text_value :: "gostring \<Rightarrow> rat" where
  "text_value s =
    (case cut_on CHR ''.'' (unsigned_text s) of
       (ip, fp, _) \<Rightarrow> (if has_prefix ''-'' s then -1 else 1) * of_nat (digits_val (ip @ fp)) / 10 ^ length fp)"

definition text_scale :: "gostring \<Rightarrow> nat" where
  "text_scale s = (case cut_on CHR ''.'' s of (_, fp, found) \<Rightarrow> if found then length fp else 0)"

definition parseDecimal :: "gostring \<Rightarrow> (rat \<times> nat) option" where
  "parseDecimal s =
    (if length s = 0 \<or> length s > 128 \<or> \<not> decimalText s then None else Some (text_value s, text_scale s))"

text \<open>\<open>strings.TrimRight\<close> with a cutset of one byte.\<close>

definition trim_right :: "char \<Rightarrow> gostring \<Rightarrow> gostring" where
  "trim_right c s = rev (dropWhile (\<lambda>x. x = c) (rev s))"

definition compactDecimal :: "rat \<Rightarrow> nat \<Rightarrow> gostring" where
  "compactDecimal r scale =
    (let v = FloatString r scale;
         v' = (if CHR ''.'' \<in> set v then trim_right CHR ''.'' (trim_right CHR ''0'' v) else v) in
     if v' = ''-0'' \<or> v' = [] then ''0'' else v')"

definition percent :: "rat \<Rightarrow> rat \<Rightarrow> gostring \<times> bool" where
  "percent first second =
    (if second = 0 then ([], False)
     else (let scaled = (first - second) * 10000 / second;
               negative = scaled < 0;
               (num, denom) = quotient_of \<bar>scaled\<bar>;
               whole = num div denom; remainder = num mod denom;
               whole1 = (if 2 * remainder \<ge> denom then whole + 1 else whole);
               result = FloatString (of_int whole1 / 100) 2 in
           (if negative \<and> whole1 \<noteq> 0 then CHR ''-'' # result else result, True)))"

section \<open>Reading the table\<close>

record table_result =
  tr_Columns :: "gostring list"
  tr_Rows :: "gostring option list list"
  tr_RowCount :: int

record daily_value =
  dv_Date :: gostring
  dv_SnapshotAt :: gostring
  dv_ContributingRows :: int
  dv_DistinctSubjects :: int
  dv_NonNullCount :: int
  dv_Value :: gostring

record comparison =
  co_MetricID :: gostring
  co_ProfileHash :: gostring
  co_Unit :: gostring
  co_Coverage :: gostring
  co_First :: daily_value
  co_Second :: daily_value
  co_Delta :: gostring
  co_PercentChange :: gostring

definition ObservedSnapshot :: gostring where
  "ObservedSnapshot = ''OBSERVED_SNAPSHOT''"

definition expected_columns :: "gostring list" where
  "expected_columns = [''local_date'', ''snapshot_at'', ''contributing_rows'', ''distinct_subjects'', ''nonnull_count'', ''value'']"

definition parse_count :: "gostring \<Rightarrow> int option" where
  "parse_count s = (case atoi s of None \<Rightarrow> None | Some n \<Rightarrow> if n < 1 then None else Some n)"

text \<open>The first layout that reads the value decides; then the zone must load and the instant must fall on the row's date.\<close>

definition snapshot_layouts :: "gostring list" where
  "snapshot_layouts = [''2006-01-02T15:04:05.999999999Z07:00'', ''2006-01-02 15:04:05.999999999-07:00'',
     ''2006-01-02 15:04:05.999999999-07'', ''2006-01-02 15:04:05.999999999-0700'']"

fun snapshot_loop :: "metric_env \<Rightarrow> gostring \<Rightarrow> gostring \<Rightarrow> gostring \<Rightarrow> gostring list \<Rightarrow> gostring option" where
  "snapshot_loop e snapshot date timezone [] = None"
| "snapshot_loop e snapshot date timezone (layout # layouts) =
    (case me_time_parse e layout snapshot of
       None \<Rightarrow> snapshot_loop e snapshot date timezone layouts
     | Some parsed \<Rightarrow> if \<not> tz_Load e timezone \<or> me_date_in e timezone parsed \<noteq> date then None else Some (me_rfc3339 e parsed))"

definition parseSnapshot :: "metric_env \<Rightarrow> gostring \<Rightarrow> gostring \<Rightarrow> gostring \<Rightarrow> gostring option" where
  "parseSnapshot e snapshot date timezone = snapshot_loop e snapshot date timezone snapshot_layouts"

text \<open>One row: its day, its amount and its scale.\<close>

definition row_day :: "metric_env \<Rightarrow> gostring \<Rightarrow> gostring option list \<Rightarrow> (daily_value \<times> rat \<times> nat) option" where
  "row_day e zone row =
    (case row of
       [Some date, Some snapshot, Some contributing, Some distinct_subjects, Some nonnull, Some amount] \<Rightarrow>
         (case parseSnapshot e snapshot date zone of
            None \<Rightarrow> None
          | Some when \<Rightarrow>
              (case (parse_count contributing, parse_count distinct_subjects, parse_count nonnull) of
                 (Some c0, Some c1, Some c2) \<Rightarrow>
                   if c0 \<noteq> c1 \<or> c0 \<noteq> c2 then None
                   else (case parseDecimal amount of
                           None \<Rightarrow> None
                         | Some (r, scale) \<Rightarrow>
                             Some (\<lparr>dv_Date = date, dv_SnapshotAt = when, dv_ContributingRows = c0, dv_DistinctSubjects = c1,
                               dv_NonNullCount = c2, dv_Value = compactDecimal r scale\<rparr>, r, scale))
               | _ \<Rightarrow> None))
     | _ \<Rightarrow> None)"

text \<open>The loop over the rows, with the days read so far by date. A row is refused before its snapshot is read
  when it is not of six cells, all present, or its date is not one of the two or was read before.\<close>

fun days_loop :: "metric_env \<Rightarrow> gostring \<Rightarrow> gostring \<Rightarrow> gostring \<Rightarrow> (gostring \<rightharpoonup> daily_value \<times> rat \<times> nat)
    \<Rightarrow> gostring option list list \<Rightarrow> (gostring \<rightharpoonup> daily_value \<times> rat \<times> nat) option" where
  "days_loop e zone firstDate secondDate days [] = Some days"
| "days_loop e zone firstDate secondDate days (row # rows) =
    (if length row \<noteq> 6 \<or> None \<in> set row then None
     else (let date = the (hd row) in
           if (date \<noteq> firstDate \<and> date \<noteq> secondDate) \<or> days date \<noteq> None then None
           else case row_day e zone row of
                  None \<Rightarrow> None
                | Some d \<Rightarrow> days_loop e zone firstDate secondDate (days(date \<mapsto> d)) rows))"

definition compare_days :: "profile \<Rightarrow> daily_value \<times> rat \<times> nat \<Rightarrow> daily_value \<times> rat \<times> nat \<Rightarrow> comparison" where
  "compare_days p first second =
    (case (first, second) of ((d1, r1, s1), (d2, r2, s2)) \<Rightarrow>
       \<lparr>co_MetricID = mp_MetricID (pf_spec p), co_ProfileHash = pf_hash p, co_Unit = mp_Unit (pf_spec p),
        co_Coverage = ObservedSnapshot, co_First = d1, co_Second = d2,
        co_Delta = compactDecimal (r1 - r2) (if s2 > s1 then s2 else s1), co_PercentChange = fst (percent r1 r2)\<rparr>)"

definition ParseResult :: "metric_env \<Rightarrow> table_result \<Rightarrow> gostring \<Rightarrow> gostring \<Rightarrow> profile \<Rightarrow> comparison option" where
  "ParseResult e result firstDate secondDate p =
    (if pf_hash p = [] \<or> \<not> validDate firstDate \<or> \<not> validDate secondDate \<or> firstDate = secondDate
        \<or> tr_RowCount result \<noteq> 2 \<or> length (tr_Rows result) \<noteq> 2 \<or> length (tr_Columns result) \<noteq> 6 then None
     else if tr_Columns result \<noteq> expected_columns then None
     else case days_loop e (mp_Timezone (pf_spec p)) firstDate secondDate Map.empty (tr_Rows result) of
            None \<Rightarrow> None
          | Some days \<Rightarrow>
              (case (days firstDate, days secondDate) of
                 (Some first, Some second) \<Rightarrow> Some (compare_days p first second)
               | _ \<Rightarrow> None))"

section \<open>The evidence digest\<close>

definition digestPattern :: "gostring \<Rightarrow> bool" where
  "digestPattern s \<longleftrightarrow> length s = 71 \<and> has_prefix ''sha256:'' s \<and> list_all is_hex (drop 7 s)"

definition counts_agree :: "daily_value \<Rightarrow> bool" where
  "counts_agree d \<longleftrightarrow> dv_ContributingRows d \<ge> 1 \<and> dv_ContributingRows d = dv_DistinctSubjects d
     \<and> dv_ContributingRows d = dv_NonNullCount d"

definition evidence_day :: "daily_value \<Rightarrow> json" where
  "evidence_day d = JObject [(''contributing_rows'', JInt (dv_ContributingRows d)), (''date'', JString (dv_Date d)),
     (''distinct_subjects'', JInt (dv_DistinctSubjects d)), (''nonnull_count'', JInt (dv_NonNullCount d)),
     (''snapshot_at'', JString (dv_SnapshotAt d)), (''value'', JString (dv_Value d))]"

text \<open>The members are in the order of the canonical encoding. It refuses a string that is not UTF-8; the other strings of the payload are ASCII by their checks.\<close>

definition EvidenceDigest :: "metric_env \<Rightarrow> comparison \<Rightarrow> int \<Rightarrow> gostring \<Rightarrow> gostring option" where
  "EvidenceDigest e c revision rawDigest =
    (if revision < 1 \<or> co_MetricID c = [] \<or> co_Unit c = [] \<or> co_Coverage c \<noteq> ObservedSnapshot
        \<or> \<not> digestPattern (co_ProfileHash c) \<or> \<not> digestPattern rawDigest \<or> \<not> validDate (dv_Date (co_First c))
        \<or> \<not> validDate (dv_Date (co_Second c)) \<or> dv_Date (co_First c) = dv_Date (co_Second c) then None
     else case (parseDecimal (dv_Value (co_First c)), parseDecimal (dv_Value (co_Second c))) of
            (Some (first, _), Some (second, _)) \<Rightarrow>
              if dv_SnapshotAt (co_First c) = [] \<or> dv_SnapshotAt (co_Second c) = [] \<or> \<not> counts_agree (co_First c)
                 \<or> \<not> counts_agree (co_Second c) then None
              else (case (parseDecimal (co_Delta c), percent first second) of
                      (Some (delta, _), (change, hasChange)) \<Rightarrow>
                        if delta \<noteq> first - second \<or> (hasChange \<and> co_PercentChange c \<noteq> change)
                           \<or> (\<not> hasChange \<and> co_PercentChange c \<noteq> []) then None
                        else if \<not> list_all valid_utf8 [co_MetricID c, co_Unit c, dv_SnapshotAt (co_First c), dv_SnapshotAt (co_Second c)]
                        then None
                        else Some (''sha256:'' @ hex_encode (me_sha256 e (jcs (JObject
                          [(''coverage'', JString (co_Coverage c)), (''delta'', JString (co_Delta c)),
                           (''exposed_schema_revision'', JInt revision), (''first'', evidence_day (co_First c)),
                           (''metric_id'', JString (co_MetricID c)), (''percent_change'', JString (co_PercentChange c)),
                           (''profile_hash'', JString (co_ProfileHash c)), (''raw_result_digest'', JString rawDigest),
                           (''schema_version'', JInt 1), (''second'', evidence_day (co_Second c)),
                           (''unit'', JString (co_Unit c))]))))
                    | _ \<Rightarrow> None)
          | _ \<Rightarrow> None)"

section \<open>What a decimal denotes\<close>

lemma text_parts:
  assumes ip: "list_all is_digit ip" "ip \<noteq> []" and fp: "list_all is_digit fp"
    and s: "s = (if neg then ''-'' else []) @ ip @ (if fp \<noteq> [] then CHR ''.'' # fp else [])"
  shows "decimalText s" "text_value s = (if neg then -1 else 1) * of_nat (digits_val (ip @ fp)) / 10 ^ length fp"
proof -
  obtain c t where c: "ip = c # t" "c \<noteq> CHR ''-''" "c \<noteq> CHR ''+''" using ip is_digit_not_sign by (cases ip) auto
  have u: "unsigned_text s = ip @ (if fp \<noteq> [] then CHR ''.'' # fp else [])" "has_prefix ''-'' s = neg"
    using c s by (auto simp: unsigned_text_def)
  have cut: "cut_on CHR ''.'' (ip @ (if fp \<noteq> [] then CHR ''.'' # fp else [])) = (ip, fp, fp \<noteq> [])"
    using digits_no_dot [OF ip(1)] by (cases fp) (simp_all add: cut_on_none cut_on_append)
  show "decimalText s" using ip fp by (simp add: decimalText_def u cut)
  show "text_value s = (if neg then -1 else 1) * of_nat (digits_val (ip @ fp)) / 10 ^ length fp"
    by (simp add: text_value_def u cut)
qed

lemma trim_right_split: "\<exists>n. s = trim_right c s @ replicate n c \<and> (trim_right c s = [] \<or> last (trim_right c s) \<noteq> c)"
proof (intro exI conjI)
  let ?n = "length (takeWhile (\<lambda>x. x = c) (rev s))"
  have w: "takeWhile (\<lambda>x. x = c) (rev s) = replicate ?n c" by (rule replicate_eqI) (auto dest: set_takeWhileD)
  have "rev s = replicate ?n c @ dropWhile (\<lambda>x. x = c) (rev s)" using w takeWhile_dropWhile_id by metis
  then have "rev (rev s) = rev (dropWhile (\<lambda>x. x = c) (rev s)) @ rev (replicate ?n c)" by (metis rev_append)
  then show "s = trim_right c s @ replicate ?n c" by (simp add: trim_right_def)
  show "trim_right c s = [] \<or> last (trim_right c s) \<noteq> c"
    using hd_dropWhile [of "\<lambda>x. x = c" "rev s"] by (auto simp: trim_right_def last_rev)
qed

lemma trim_right_unique:
  "t = [] \<or> last t \<noteq> c \<Longrightarrow> trim_right c (t @ replicate n c) = t"
proof (induction n)
  case 0
  then show ?case by (cases t rule: rev_cases) (auto simp: trim_right_def)
next
  case (Suc n)
  have "replicate n c @ c # u = c # replicate n c @ u" for u by (induction n) simp_all
  then have "trim_right c (t @ replicate (Suc n) c) = trim_right c (t @ replicate n c)" by (simp add: trim_right_def)
  with Suc show ?case by simp
qed

text \<open>A compact decimal in its parts: no trailing zero after the point, and no bare point.\<close>

lemma compact_parts:
  assumes x: "quotient_of x = (a, b)" and r: "round_parts (nat \<bar>a\<bar>) (nat b) (10 ^ p) = (q, r)" "r < 10 ^ p"
  shows "\<exists>neg fp. list_all is_digit fp \<and> compactDecimal x p = (if neg then ''-'' else []) @ nat_digits q @ (if fp \<noteq> [] then CHR ''.'' # fp else [])
     \<and> (if neg then -1 else 1) * of_nat (digits_val (nat_digits q @ fp)) / 10 ^ length fp
       = decimal_value (FloatString x p)"
proof -
  let ?sg = "if a < 0 then ''-'' else []" and ?all = "if p > 0 then pad_digits p r else []"
  have all: "list_all is_digit ?all" by (simp add: pad_digits_digits)
  have ne: "(?all \<noteq> []) = (p > 0)" using pad_digits_length [OF r(2)] by auto
  have v: "FloatString x p = ?sg @ nat_digits q @ (if ?all \<noteq> [] then CHR ''.'' # ?all else [])"
    unfolding ne using FloatString_parts [OF x r(1)] by simp
  note dv = decimal_parts(1) [OF nat_digits_all_digits nat_digits_nonempty all v]
  obtain fp n where fp: "?all = fp @ replicate n CHR ''0''" "fp = [] \<or> last fp \<noteq> CHR ''0''" using trim_right_split by metis
  have fpd: "list_all is_digit fp" using all unfolding fp(1) by simp
  have val: "of_nat (digits_val (nat_digits q @ fp)) / (10 :: rat) ^ length fp = of_nat (digits_val (nat_digits q @ ?all)) / 10 ^ length ?all"
    unfolding fp(1) append_assoc [symmetric] digits_val_append [of _ "replicate n CHR ''0''"] by (simp add: power_add)
  have nodot: "CHR ''.'' \<notin> set (?sg @ nat_digits q)" using digits_no_dot [OF nat_digits_all_digits] by auto
  have last_digit: "last (?sg @ nat_digits q) \<noteq> CHR ''.''" using nodot by (metis append_is_Nil_conv last_in_set nat_digits_nonempty)
  let ?t = "?sg @ nat_digits q @ (if fp \<noteq> [] then CHR ''.'' # fp else [])"
  have trimmed: "(if CHR ''.'' \<in> set (FloatString x p) then trim_right CHR ''.'' (trim_right CHR ''0'' (FloatString x p)) else FloatString x p) = ?t"
  proof (cases "p > 0")
    case False
    then have "fp = []" using fp(1) by simp
    then show ?thesis using False nodot unfolding v by simp
  next
    case True
    have F: "FloatString x p = (?sg @ nat_digits q @ CHR ''.'' # fp) @ replicate n CHR ''0''"
      unfolding v using True ne fp(1) by simp
    have "trim_right CHR ''0'' (FloatString x p) = ?sg @ nat_digits q @ CHR ''.'' # fp"
      unfolding F by (rule trim_right_unique) (use fp(2) in \<open>cases fp; simp\<close>)
    moreover have "trim_right CHR ''.'' (?sg @ nat_digits q @ CHR ''.'' # fp) = ?t"
    proof (cases "fp = []")
      case True
      have "trim_right CHR ''.'' ((?sg @ nat_digits q) @ replicate 1 CHR ''.'') = ?sg @ nat_digits q"
        by (rule trim_right_unique) (use last_digit in simp)
      with True show ?thesis by simp
    next
      case False
      have "last fp \<noteq> CHR ''.''" using digits_no_dot [OF fpd] False last_in_set by metis
      then have "trim_right CHR ''.'' ((?sg @ nat_digits q @ CHR ''.'' # fp) @ replicate 0 CHR ''.'') = ?sg @ nat_digits q @ CHR ''.'' # fp"
        by (intro trim_right_unique) (use False in simp)
      with False show ?thesis by simp
    qed
    ultimately show ?thesis using F by simp
  qed
  have nonempty: "?t \<noteq> []" by simp
  have c: "compactDecimal x p = (if ?t = ''-0'' then ''0'' else ?t)"
    unfolding compactDecimal_def Let_def trimmed using nonempty by simp
  show ?thesis
  proof (cases "?t = ''-0''")
    case False
    with c have "compactDecimal x p = ?t" by simp
    with fpd val dv show ?thesis by (intro exI [of _ "a < 0"] exI [of _ fp]) simp
  next
    case True
    have "nat_digits q = ''0'' \<and> fp = []"
    proof -
      have hd: "\<exists>d u. nat_digits q = d # u \<and> d \<noteq> CHR ''-''" using nat_digits_hd is_digit_not_sign by metis
      then show ?thesis using True by (cases "a < 0"; cases "fp = []") auto
    qed
    then have "compactDecimal x p = (if False then ''-'' else []) @ nat_digits q @ (if fp \<noteq> [] then CHR ''.'' # fp else [])" and "digits_val (nat_digits q @ fp) = 0"
      using c True by (simp_all add: digits_val_def digit_val_def)
    with val dv fpd show ?thesis by (intro exI [of _ False] exI [of _ fp]) simp
  qed
qed

lemma compact_spec:
  "decimalText (compactDecimal x p)" "compactDecimal x p \<noteq> []"
  "text_value (compactDecimal x p) = decimal_value (FloatString x p)"
proof -
  obtain a b where x: "quotient_of x = (a, b)" by (cases "quotient_of x")
  then have b: "0 < b" by (rule quotient_of_denom_pos)
  obtain q r where r: "round_parts (nat \<bar>a\<bar>) (nat b) (10 ^ p) = (q, r)" by (cases "round_parts (nat \<bar>a\<bar>) (nat b) (10 ^ p)")
  have "r < 10 ^ p" using round_parts_spec(1) [OF _ _ r] b by simp
  from compact_parts [OF x r this] obtain neg fp where c: "list_all is_digit fp"
    "compactDecimal x p = (if neg then ''-'' else []) @ nat_digits q @ (if fp \<noteq> [] then CHR ''.'' # fp else [])"
    "(if neg then -1 else 1) * of_nat (digits_val (nat_digits q @ fp)) / 10 ^ length fp = decimal_value (FloatString x p)" by blast
  note t = text_parts [OF nat_digits_all_digits nat_digits_nonempty c(1,2)]
  show "decimalText (compactDecimal x p)" by (rule t(1))
  show "text_value (compactDecimal x p) = decimal_value (FloatString x p)" using t(2) c(3) by simp
  show "compactDecimal x p \<noteq> []" unfolding c(2) by simp
qed

lemma compact_exact: "x * 10 ^ p \<in> \<int> \<Longrightarrow> text_value (compactDecimal x p) = x"
  using compact_spec(3) FloatString_spec(4) by simp

section \<open>Percentages\<close>

lemma pattern_text: "decimalPattern s \<Longrightarrow> decimalText s \<and> text_value s = decimal_value s"
proof -
  assume p: "decimalPattern s"
  have "hd s \<noteq> CHR ''+''"
  proof
    assume h: "hd s = CHR ''+''"
    show False
    proof (cases s)
      case Nil
      with p show False by (simp add: decimalPattern_def unsigned_def cut_on_none int_part_def)
    next
      case (Cons c t)
      with h p show False
        by (cases "CHR ''.'' \<in> set t") (auto simp: decimalPattern_def unsigned_def cut_on_def int_part_def split: if_splits)
    qed
  qed
  then have u: "unsigned_text s = unsigned s" by (cases s) (simp_all add: unsigned_text_def unsigned_def)
  have "list_all is_digit ip \<and> ip \<noteq> []" if "int_part ip" for ip
    using that by (auto simp: int_part_def is_digit_def split: list.splits)
  with p u show ?thesis
    by (auto simp: decimalPattern_def decimalText_def text_value_def decimal_value_def negative_def split: prod.splits)
qed

lemma FloatString_nonneg: "0 \<le> x \<Longrightarrow> \<exists>c t. FloatString x p = c # t \<and> is_digit c"
proof -
  assume x: "0 \<le> x"
  obtain a b where q: "quotient_of x = (a, b)" by (cases "quotient_of x")
  have "0 \<le> a" using x q quotient_of_denom_pos [OF q] quotient_of_div [OF q] by (simp add: zero_le_divide_iff)
  moreover obtain w r where "round_parts (nat \<bar>a\<bar>) (nat b) (10 ^ p) = (w, r)" by (cases "round_parts (nat \<bar>a\<bar>) (nat b) (10 ^ p)")
  moreover obtain c t where "nat_digits w = c # t" "is_digit c" using nat_digits_hd by blast
  ultimately show ?thesis using FloatString_parts [OF q] by simp
qed

lemma text_value_neg:
  assumes "is_digit c"
  shows "text_value (CHR ''-'' # c # t) = - text_value (c # t)" "decimalText (CHR ''-'' # c # t) = decimalText (c # t)"
proof -
  have "unsigned_text (c # t) = c # t" "c \<noteq> CHR ''-''" using is_digit_not_sign [OF assms] by (simp_all add: unsigned_text_def)
  moreover have "unsigned_text (CHR ''-'' # c # t) = c # t" by (simp add: unsigned_text_def)
  ultimately show "text_value (CHR ''-'' # c # t) = - text_value (c # t)" "decimalText (CHR ''-'' # c # t) = decimalText (c # t)"
    by (simp_all add: text_value_def decimalText_def split: prod.splits)
qed

lemma round_half: "0 < d \<Longrightarrow> \<bar>of_int (n div d + (if 2 * (n mod d) \<ge> d then 1 else 0)) - (of_int n / of_int d :: rat)\<bar> \<le> 1 / 2" for n d :: int
proof -
  assume d: "0 < d"
  have "(of_int n :: rat) = of_int (n div d) * of_int d + of_int (n mod d)" by (metis div_mult_mod_eq of_int_add of_int_mult)
  then have n: "(of_int n / of_int d :: rat) = of_int (n div d) + of_int (n mod d) / of_int d" using d by (simp add: field_simps)
  have m: "0 \<le> n mod d" "n mod d < d" using d by simp_all
  define x where "x = (of_int (n mod d) / of_int d :: rat)"
  have "(0 :: rat) \<le> of_int (n mod d)" "(of_int (n mod d) :: rat) < of_int d" using m by (simp_all only: of_int_0_le_iff of_int_less_iff)
  then have x: "0 \<le> x" "x < 1" using d by (simp_all add: x_def)
  have "2 * (n mod d) \<ge> d \<longleftrightarrow> (of_int (2 * (n mod d)) :: rat) \<ge> of_int d" by (simp only: of_int_le_iff)
  also have "\<dots> \<longleftrightarrow> 1 / 2 \<le> x" using d by (simp add: x_def field_simps)
  finally show ?thesis using x unfolding n x_def [symmetric] by simp
qed

lemma hundredths: "\<bar>(if y < 0 then - (w / 100) else w / 100) - y / 100\<bar> = \<bar>w - \<bar>y\<bar>\<bar> / 100" for y w :: rat
proof (cases "y < 0")
  case True
  then have "(if y < 0 then - (w / 100) else w / 100) - y / 100 = - ((w - \<bar>y\<bar>) / 100)" by (simp add: field_simps)
  then show ?thesis by (simp only: abs_minus abs_divide)
next
  case False
  then have "(if y < 0 then - (w / 100) else w / 100) - y / 100 = (w - \<bar>y\<bar>) / 100" by (simp add: field_simps)
  then show ?thesis by (simp only: abs_divide abs_numeral)
qed

lemma percent_spec:
  "snd (percent a b) = (b \<noteq> 0)" "b = 0 \<Longrightarrow> fst (percent a b) = []"
  "b \<noteq> 0 \<Longrightarrow> decimalText (fst (percent a b)) \<and> \<bar>text_value (fst (percent a b)) - (a - b) / b * 100\<bar> \<le> 1 / 200"
proof -
  show "snd (percent a b) = (b \<noteq> 0)" "b = 0 \<Longrightarrow> fst (percent a b) = []"
    by (simp_all add: percent_def Let_def split: prod.splits)
  assume b: "b \<noteq> 0"
  let ?y = "(a - b) * 10000 / b"
  obtain n d where q: "quotient_of \<bar>?y\<bar> = (n, d)" by (cases "quotient_of \<bar>?y\<bar>")
  have d: "0 < d" and y: "\<bar>?y\<bar> = of_int n / of_int d" using quotient_of_denom_pos [OF q] quotient_of_div [OF q] by simp_all
  have n: "0 \<le> n" using y d abs_ge_zero [of ?y] by (simp add: zero_le_divide_iff)
  define w where "w = n div d + (if 2 * (n mod d) \<ge> d then 1 else 0)"
  have w0: "0 \<le> w" using n d by (simp add: w_def pos_imp_zdiv_nonneg_iff)
  let ?r = "FloatString (of_int w / 100) 2"
  have eq: "fst (percent a b) = (if ?y < 0 \<and> w \<noteq> 0 then CHR ''-'' # ?r else ?r)"
    using b unfolding percent_def Let_def q by (auto simp: w_def)
  obtain c t where ct: "?r = c # t" "is_digit c" using FloatString_nonneg [of "of_int w / 100" 2] w0 by auto
  have "(of_int w / 100 :: rat) * 10 ^ 2 \<in> \<int>" by simp
  then have r: "decimalText ?r" "text_value ?r = of_int w / 100"
    using pattern_text [OF FloatString_spec(1)] FloatString_spec(4) by metis+
  have val: "text_value (fst (percent a b)) = (if ?y < 0 then - (of_int w / 100) else of_int w / 100)" "decimalText (fst (percent a b))"
    unfolding eq using r text_value_neg [OF ct(2), of t] ct(1) by auto
  have half: "\<bar>of_int w - \<bar>?y\<bar>\<bar> \<le> 1 / 2" unfolding y w_def by (rule round_half [OF d])
  have goal: "(a - b) / b * 100 = ?y / 100" using b by (simp add: field_simps)
  have "\<bar>text_value (fst (percent a b)) - ?y / 100\<bar> = \<bar>of_int w - \<bar>?y\<bar>\<bar> / 100"
    unfolding val(1) by (rule hundredths)
  with half val(2) show "decimalText (fst (percent a b)) \<and> \<bar>text_value (fst (percent a b)) - (a - b) / b * 100\<bar> \<le> 1 / 200"
    unfolding goal by simp
qed

section \<open>The two days\<close>

lemma text_value_scaled: "text_value s * 10 ^ text_scale s \<in> \<int>"
proof -
  have same: "snd (cut_on CHR ''.'' (unsigned_text s)) = snd (cut_on CHR ''.'' s)"
    by (cases s) (simp_all add: unsigned_text_def cut_on_def)
  obtain ip fp found where c: "cut_on CHR ''.'' (unsigned_text s) = (ip, fp, found)" by (cases "cut_on CHR ''.'' (unsigned_text s)") auto
  have "fp = []" if "\<not> found" using c that cut_on_none [of "CHR ''.''" "unsigned_text s"] by (auto simp: cut_on_def)
  with c have scale: "text_scale s = length fp" unfolding text_scale_def
    using same by (cases "cut_on CHR ''.'' s") (auto split: if_splits)
  show ?thesis unfolding scale by (simp add: text_value_def c)
qed

text \<open>A day that has been read from a row.\<close>

lemma row_day_spec:
  assumes "row_day e zone row = Some (d, r, scale)"
  shows "\<exists>date snap c0 c1 c2 amount. row = [Some date, Some snap, Some c0, Some c1, Some c2, Some amount] \<and> dv_Date d = date
     \<and> r = text_value amount \<and> scale = text_scale amount \<and> decimalText amount \<and> dv_Value d = compactDecimal r scale
     \<and> counts_agree d \<and> Some (dv_SnapshotAt d) = parseSnapshot e snap date zone"
proof -
  from assms obtain date snap c0 c1 c2 amount where row: "row = [Some date, Some snap, Some c0, Some c1, Some c2, Some amount]"
    by (auto simp: row_day_def split: list.splits option.splits)
  note rd = assms [unfolded row_day_def row, simplified]
  from rd obtain moment where w: "parseSnapshot e snap date zone = Some moment" by (cases "parseSnapshot e snap date zone") auto
  from rd w obtain n0 n1 n2 where n: "parse_count c0 = Some n0" "parse_count c1 = Some n1" "parse_count c2 = Some n2" "n0 = n1" "n0 = n2"
    by (auto split: option.splits if_splits)
  have "n0 \<ge> 1" using n(1) by (auto simp: parse_count_def split: option.splits if_splits)
  moreover from rd w n obtain r' scale' where "parseDecimal amount = Some (r', scale')" by (cases "parseDecimal amount") auto
  ultimately show ?thesis using rd w n row by (auto simp: counts_agree_def parseDecimal_def split: if_splits)
qed

lemma row_day_head: "row_day e zone row = Some d \<Longrightarrow> length row = 6 \<and> None \<notin> set row \<and> the (hd row) = dv_Date (fst d)"
  by (cases d) (auto dest!: row_day_spec)

lemma days_two:
  "days_loop e zone a b Map.empty [u, v] = Some days \<longleftrightarrow>
     (\<exists>x y. row_day e zone u = Some x \<and> row_day e zone v = Some y \<and> dv_Date (fst x) \<in> {a, b} \<and> dv_Date (fst y) \<in> {a, b}
        \<and> dv_Date (fst x) \<noteq> dv_Date (fst y) \<and> days = [dv_Date (fst x) \<mapsto> x, dv_Date (fst y) \<mapsto> y])"
proof (cases "row_day e zone u")
  case None
  then show ?thesis by (auto simp: Let_def)
next
  case x: (Some x)
  show ?thesis
  proof (cases "row_day e zone v")
    case None
    with x show ?thesis by (auto simp: Let_def)
  next
    case y: (Some y)
    show ?thesis using row_day_head [OF x] row_day_head [OF y] x y by (cases x; cases y) (auto simp: Let_def)
  qed
qed

text \<open>The order of the two rows does not matter.\<close>

lemma days_swap: "days_loop e zone a b Map.empty [u, v] = Some days \<Longrightarrow> days_loop e zone a b Map.empty [v, u] = Some days"
  unfolding days_two by (auto simp: fun_upd_twist)

lemma ParseResult_rev: "ParseResult e result a b p = Some c \<Longrightarrow> ParseResult e (result\<lparr>tr_Rows := rev (tr_Rows result)\<rparr>) a b p = Some c"
proof -
  assume c: "ParseResult e result a b p = Some c"
  then have "length (tr_Rows result) = 2" by (auto simp: ParseResult_def split: if_splits)
  then obtain u v where uv: "tr_Rows result = [u, v]" by (auto simp: length_Suc_conv numeral_2_eq_2)
  from c uv obtain days where "days_loop e (mp_Timezone (pf_spec p)) a b Map.empty [u, v] = Some days"
    by (auto simp: ParseResult_def split: if_splits option.splits simp del: days_loop.simps)
  with days_swap have swap: "days_loop e (mp_Timezone (pf_spec p)) a b Map.empty [v, u] = days_loop e (mp_Timezone (pf_spec p)) a b Map.empty [u, v]" by metis
  have "ParseResult e (result\<lparr>tr_Rows := rev (tr_Rows result)\<rparr>) a b p = ParseResult e result a b p"
    unfolding ParseResult_def by (simp add: uv swap del: days_loop.simps)
  with c show ?thesis by simp
qed

lemma ParseResult_days:
  assumes "ParseResult e result a b p = Some c"
  shows "\<exists>u v d1 r1 s1 d2 r2 s2. tr_Rows result \<in> {[u, v], [v, u]} \<and> row_day e (mp_Timezone (pf_spec p)) u = Some (d1, r1, s1)
     \<and> row_day e (mp_Timezone (pf_spec p)) v = Some (d2, r2, s2) \<and> dv_Date d1 = a \<and> dv_Date d2 = b
     \<and> c = compare_days p (d1, r1, s1) (d2, r2, s2)"
proof -
  from assms have "length (tr_Rows result) = 2" by (auto simp: ParseResult_def split: if_splits)
  then obtain u v where uv: "tr_Rows result = [u, v]" by (auto simp: length_Suc_conv numeral_2_eq_2)
  from assms uv obtain days f s where d: "days_loop e (mp_Timezone (pf_spec p)) a b Map.empty [u, v] = Some days"
    "days a = Some f" "days b = Some s" "c = compare_days p f s"
    by (auto simp: ParseResult_def split: if_splits option.splits simp del: days_loop.simps)
  from d(1) [unfolded days_two] obtain x y where xy: "row_day e (mp_Timezone (pf_spec p)) u = Some x"
    "row_day e (mp_Timezone (pf_spec p)) v = Some y" "dv_Date (fst x) \<in> {a, b}" "dv_Date (fst y) \<in> {a, b}"
    "dv_Date (fst x) \<noteq> dv_Date (fst y)" "days = [dv_Date (fst x) \<mapsto> x, dv_Date (fst y) \<mapsto> y]" by blast
  from xy(3,4,5) consider "dv_Date (fst x) = a" "dv_Date (fst y) = b" | "dv_Date (fst x) = b" "dv_Date (fst y) = a" by auto
  then show ?thesis
  proof cases
    case 1
    with xy d have "f = x" "s = y" by (auto split: if_splits)
    with 1 xy d uv show ?thesis by (intro exI [of _ u] exI [of _ v]) (cases x; cases y; auto)
  next
    case 2
    with xy d have "f = y" "s = x" by (auto split: if_splits)
    with 2 xy d uv show ?thesis by (intro exI [of _ v] exI [of _ u]) (cases x; cases y; auto)
  qed
qed

end
