(* ===== verification/Metric_Query.thy ===== *)
theory Metric_Query
  imports Governed_Query
begin

text \<open>
  The compiled comparison query meets the governed executor. The SQL of a sealed profile is the fixed
  template with one quoted name or one string literal in each place, whatever the profile and the dates
  (\<open>compiled_sql_structure\<close>), and the executor's static check accepts it.
\<close>

section \<open>Words of a text\<close>

lemma all_while: "list_all P s \<Longrightarrow> takeWhile P s = s \<and> dropWhile P s = []"
  by (induction s) simp_all

lemma fields_all: "list_all P (c # s) \<Longrightarrow> fields_func P (c # s) = [c # s]"
  by (simp add: all_while)

lemma fields_append:
  "u = [] \<or> v = [] \<or> \<not> P (last u) \<or> \<not> P (hd v) \<Longrightarrow> fields_func P (u @ v) = fields_func P u @ fields_func P v"
proof (induction P u rule: fields_func.induct)
  case (2 P c s)
  show ?case
  proof (cases "P c")
    case False
    have "s = [] \<or> v = [] \<or> \<not> P (last s) \<or> \<not> P (hd v)" using "2.prems" by auto
    from "2.IH"(2) [OF False this] False show ?thesis by simp
  next
    case True
    show ?thesis
    proof (cases "list_all P (c # s)")
      case all: True
      then have t: "takeWhile P (c # s @ v) = (c # s) @ takeWhile P v" "dropWhile P (c # s @ v) = dropWhile P v"
        by (simp_all add: list_all_iff)
      have "P (last (c # s))" using all by (simp add: list_all_iff)
      with "2.prems" have "v = [] \<or> \<not> P (hd v)" by auto
      then have "takeWhile P v = []" "dropWhile P v = v" by (cases v; simp)+
      moreover have "takeWhile P s = s" "dropWhile P s = []" using all all_while [of P s] by (simp_all del: takeWhile_eq_all_conv dropWhile_eq_Nil_conv)
      ultimately show ?thesis using t True by (simp del: takeWhile_eq_all_conv dropWhile_eq_Nil_conv)
    next
      case False
      then obtain x where x: "x \<in> set (c # s)" "\<not> P x" by (auto simp: list_all_iff)
      have t: "takeWhile P (c # s @ v) = takeWhile P (c # s)" "dropWhile P (c # s @ v) = dropWhile P (c # s) @ v"
        using takeWhile_append1 [of x "c # s" P v] dropWhile_append1 [of x "c # s" P v] x by simp_all
      have ne: "dropWhile P (c # s) \<noteq> []" using x by (auto simp: dropWhile_eq_Nil_conv)
      have "last (dropWhile P (c # s)) = last (c # s)" using ne by (metis last_appendR takeWhile_dropWhile_id)
      then have "dropWhile P (c # s) = [] \<or> v = [] \<or> \<not> P (last (dropWhile P (c # s))) \<or> \<not> P (hd v)" using "2.prems" by auto
      from "2.IH"(1) [OF True this] True t show ?thesis by simp
    qed
  qed
qed simp

lemma fields_none: "list_all (\<lambda>c. \<not> P c) s \<Longrightarrow> fields_func P s = []"
  by (induction s) simp_all

lemma fields_words: "w \<in> set (fields_func P s) \<Longrightarrow> w \<noteq> [] \<and> list_all P w"
proof (induction P s rule: fields_func.induct)
  case (2 P c s)
  then show ?case by (cases "P c") (auto simp: list_all_iff dest: set_takeWhileD)
qed simp

text \<open>A bounded occurrence of a word is one of the words.\<close>

lemma fields_occurrence:
  assumes "list_all P w" "w \<noteq> []" "u = [] \<or> \<not> P (last u)" "v = [] \<or> \<not> P (hd v)"
  shows "w \<in> set (fields_func P (u @ w @ v))"
proof -
  have "fields_func P (u @ w @ v) = fields_func P u @ fields_func P (w @ v)" by (rule fields_append) (use assms(3) in blast)
  also have "fields_func P (w @ v) = fields_func P w @ fields_func P v" by (rule fields_append) (use assms(4) in blast)
  also have "fields_func P w = [w]" using fields_all assms(1,2) by (cases w) blast+
  finally show ?thesis by simp
qed

lemma has_prefix_split: "has_prefix w s \<Longrightarrow> s = w @ drop (length w) s"
  by (induction w s rule: has_prefix.induct) auto

lemma index_str_split: "index_str w s = Some k \<Longrightarrow> s = take k s @ w @ drop (k + length w) s \<and> k \<le> length s"
proof (induction s arbitrary: k)
  case Nil
  then show ?case by (subst (asm) index_str.simps) (cases w; auto split: if_splits)
next
  case (Cons c s)
  show ?case
  proof (cases "has_prefix w (c # s)")
    case True
    with Cons.prems have "k = 0" by (subst (asm) index_str.simps) simp
    with has_prefix_split [OF True] show ?thesis by simp
  next
    case False
    with Cons.prems obtain j where "index_str w s = Some j" "k = Suc j" by (subst (asm) index_str.simps) auto
    with Cons.IH [of j] show ?thesis by simp
  qed
qed

text \<open>\<open>containsWord\<close> finds a word only where it is one of the words of the text.\<close>

lemma containsWord_sound:
  assumes "containsWord_loop w previous rest" "list_all isWordByte w" "w \<noteq> []"
    "pre = [] \<and> \<not> isWordByte previous \<or> pre \<noteq> [] \<and> previous = last pre"
  shows "w \<in> set (fields_func isWordByte (pre @ rest))"
  using assms
proof (induction w previous rest arbitrary: pre rule: containsWord_loop.induct)
  case (1 w previous rest)
  from "1.prems"(1) obtain k where k: "index_str w rest = Some k"
    by (subst (asm) containsWord_loop.simps) (auto split: option.splits)
  note split = index_str_split [OF k]
  let ?before = "if k > 0 then rest ! (k - 1) else previous" and ?tail = "drop (k + length w) rest"
  let ?after = "case ?tail of [] \<Rightarrow> CHR '' '' | c # _ \<Rightarrow> c"
  have assoc: "pre @ rest = (pre @ take k rest) @ w @ ?tail" using split by simp
  have before: "?before = last (pre @ take k rest)" if "pre @ take k rest \<noteq> []"
    using that split "1.prems"(4) by (auto simp: last_append last_conv_nth min_def)
  show ?case
  proof (cases "\<not> isWordByte ?before \<and> \<not> isWordByte ?after")
    case True
    then have "?tail = [] \<or> \<not> isWordByte (hd ?tail)" by (auto split: list.splits)
    moreover have "pre @ take k rest = [] \<or> \<not> isWordByte (last (pre @ take k rest))"
      using True before by (cases "pre @ take k rest = []") metis+
    ultimately show ?thesis unfolding assoc by (intro fields_occurrence "1.prems"(2,3))
  next
    case False
    have step: "containsWord_loop w (last w) ?tail" "?tail \<noteq> []"
      using "1.prems"(1) False "1.prems"(3) k
      by (subst (asm) containsWord_loop.simps, simp add: Let_def split: if_splits)+
    have "w \<in> set (fields_func isWordByte ((pre @ take k rest @ w) @ ?tail))"
      by (rule "1.IH" [OF k refl refl refl]) (use False step "1.prems"(2,3) in auto)
    with assoc show ?thesis by simp
  qed
qed

lemma containsWord_words: "containsWord h w \<Longrightarrow> list_all isWordByte w \<Longrightarrow> w \<noteq> [] \<Longrightarrow> w \<in> set (fields_func isWordByte h)"
  using containsWord_sound [of w "CHR '' ''" h "[]"] by (simp add: containsWord_def isWordByte_def is_lower_def is_upper_def is_digit_def)

section \<open>What a sealed profile carries\<close>

text \<open>The bytes a sealed profile brings into the query: no quote, no space, nothing outside ASCII.\<close>

definition plain_byte :: "char \<Rightarrow> bool" where
  "plain_byte c \<longleftrightarrow> is_lower c \<or> is_upper c \<or> is_digit c \<or> c \<in> set ''_.:/+-''"

lemma plain_no_quote: "list_all plain_byte s \<Longrightarrow> CHR 0x22 \<notin> set s \<and> CHR 0x27 \<notin> set s"
  by (auto simp: list_all_iff plain_byte_def is_lower_def is_upper_def is_digit_def)

lemma identifier_plain: "safeIdentifier s \<Longrightarrow> list_all plain_byte s \<and> s \<noteq> []"
  by (auto simp: safeIdentifier_def mc_identifier_def list_all_iff word_byte_def plain_byte_def)

lemma literal_plain: "safeLiteral s \<Longrightarrow> list_all plain_byte s \<and> s \<noteq> []"
  by (auto simp: safeLiteral_def mc_literal_def list_all_iff plain_byte_def split: if_splits)

lemma quoteLiteral_plain: "list_all plain_byte s \<Longrightarrow> quoteLiteral s = sq s"
proof -
  assume "list_all plain_byte s"
  then have "CHR 0x27 \<notin> set s" using plain_no_quote by blast
  then have "concat (map (\<lambda>c. if c = CHR 0x27 then [CHR 0x27, CHR 0x27] else [c]) s) = s"
    by (induction s) auto
  then show ?thesis by (simp add: quoteLiteral_def)
qed

definition sealed :: "metric_env \<Rightarrow> profile \<Rightarrow> bool" where
  "sealed e p \<longleftrightarrow> (\<exists>spec. NewProfile e spec = Some p)"

text \<open>What the SQL takes from a profile.\<close>

definition query_safe :: "profile_spec \<Rightarrow> bool" where
  "query_safe s \<longleftrightarrow> safeIdentifier (mp_Schema s) \<and> safeIdentifier (mp_View s) \<and> safeIdentifier (mp_SubjectColumn s)
     \<and> safeIdentifier (mp_SnapshotColumn s) \<and> safeIdentifier (mp_MeasureColumn s) \<and> safeLiteral (mp_Timezone s)
     \<and> list_all (\<lambda>f. safeIdentifier (ff_Column f) \<and> safeLiteral (ff_Value f)) (mp_Filters s)"

lemma filters_loop_safe: "filters_loop spec seen fs \<Longrightarrow> list_all (\<lambda>f. safeIdentifier (ff_Column f) \<and> safeLiteral (ff_Value f)) fs"
  by (induction fs arbitrary: seen) (auto split: if_splits)

lemma sealed_safe: "sealed e p \<Longrightarrow> query_safe (pf_spec p)"
proof -
  assume "sealed e p"
  then obtain spec where s: "NewProfile e spec = Some p" by (auto simp: sealed_def)
  then have f: "filters_loop spec [] (mp_Filters spec)" and p: "pf_spec p = spec\<lparr>mp_Filters := sort_key ff_Column (mp_Filters spec)\<rparr>"
    by (auto simp: NewProfile_def Let_def split: if_splits)
  from s have "safeIdentifier (mp_Schema spec) \<and> safeIdentifier (mp_View spec) \<and> safeIdentifier (mp_SubjectColumn spec)
     \<and> safeIdentifier (mp_SnapshotColumn spec) \<and> safeIdentifier (mp_MeasureColumn spec) \<and> safeLiteral (mp_Timezone spec)"
    by (auto simp: NewProfile_def split: if_splits)
  with filters_loop_safe [OF f] show ?thesis by (simp add: p query_safe_def list_all_iff)
qed

section \<open>Tokens\<close>

text \<open>SQL's quoting: a name in double quotes, a string in single quotes, a doubled quote standing for
  itself, everything else byte by byte.\<close>

datatype sql_token = Name gostring | Text gostring | Byte char

text \<open>The content up to the closing quote \<open>q\<close>, and what follows.\<close>

fun read_quoted :: "char \<Rightarrow> gostring \<Rightarrow> gostring \<times> gostring" where
  "read_quoted q [] = ([], [])"
| "read_quoted q (c # s) =
    (if c \<noteq> q then (case read_quoted q s of (v, rest) \<Rightarrow> (c # v, rest))
     else case s of
            d # t \<Rightarrow> if d = q then (case read_quoted q t of (v, rest) \<Rightarrow> (q # v, rest)) else ([], s)
          | [] \<Rightarrow> ([], []))"

lemma read_quoted_length: "length (snd (read_quoted q s)) \<le> length s"
proof (induction s rule: length_induct)
  case (1 s)
  show ?case
  proof (cases s)
    case (Cons c t)
    from Cons 1 have t: "length (snd (read_quoted q t)) \<le> length t" by simp
    from Cons 1 have u: "length (snd (read_quoted q u)) \<le> length u" if "t = d # u" for d u using that by simp
    show ?thesis
    proof (cases "c = q")
      case False
      with t Cons show ?thesis by (simp add: case_prod_beta)
    next
      case True
      with u Cons show ?thesis by (cases t) (force simp: case_prod_beta)+
    qed
  qed simp
qed

function sql_tokens :: "gostring \<Rightarrow> sql_token list" where
  "sql_tokens [] = []"
| "sql_tokens (c # s) =
    (if c = CHR 0x22 then Name (fst (read_quoted c s)) # sql_tokens (snd (read_quoted c s))
     else if c = CHR 0x27 then Text (fst (read_quoted c s)) # sql_tokens (snd (read_quoted c s))
     else Byte c # sql_tokens s)"
  by pat_completeness auto
termination by (relation "measure length") (auto simp: le_imp_less_Suc read_quoted_length)

lemma read_quoted_plain:
  "q \<notin> set v \<Longrightarrow> rest = [] \<or> hd rest \<noteq> q \<Longrightarrow> read_quoted q (v @ q # rest) = (v, rest)"
  by (induction v) (auto split: list.splits)

lemma tokens_name: "CHR 0x22 \<notin> set v \<Longrightarrow> rest = [] \<or> hd rest \<noteq> CHR 0x22 \<Longrightarrow> sql_tokens (dq v @ rest) = Name v # sql_tokens rest"
  by (simp add: read_quoted_plain)

lemma tokens_text: "CHR 0x27 \<notin> set v \<Longrightarrow> rest = [] \<or> hd rest \<noteq> CHR 0x27 \<Longrightarrow> sql_tokens (sq v @ rest) = Text v # sql_tokens rest"
  by (simp add: read_quoted_plain)

lemma tokens_bytes: "CHR 0x22 \<notin> set w \<Longrightarrow> CHR 0x27 \<notin> set w \<Longrightarrow> sql_tokens (w @ rest) = map Byte w @ sql_tokens rest"
  by (induction w) auto

section \<open>The query in pieces\<close>

text \<open>The template cut at its places: fixed text, a quoted name, a quoted string.\<close>

datatype piece = Fixed gostring | NameAt gostring | TextAt gostring

fun render :: "piece \<Rightarrow> gostring" where
  "render (Fixed w) = w"
| "render (NameAt v) = dq v"
| "render (TextAt v) = sq v"

fun piece_tokens :: "piece \<Rightarrow> sql_token list" where
  "piece_tokens (Fixed w) = map Byte w"
| "piece_tokens (NameAt v) = [Name v]"
| "piece_tokens (TextAt v) = [Text v]"

definition filter_pieces :: "fixed_filter list \<Rightarrow> piece list" where
  "filter_pieces fs = concat (map (\<lambda>f. [Fixed '' AND src.'', NameAt (ff_Column f), Fixed '' = '', TextAt (ff_Value f)]) fs)"

definition query_pieces :: "profile_spec \<Rightarrow> gostring \<Rightarrow> gostring \<Rightarrow> piece list" where
  "query_pieces s first second =
    [Fixed (''WITH requested(local_date) AS ('' @ nl @ ''  VALUES (DATE ''), TextAt first,
       Fixed (''), (DATE ''), TextAt second,
       Fixed ('')'' @ nl @ ''), latest AS ('' @ nl @ ''  SELECT r.local_date, MAX(src.''),
       NameAt (mp_SnapshotColumn s),
       Fixed ('') AS snapshot_at'' @ nl @ ''  FROM requested AS r'' @ nl @ ''  LEFT JOIN ''), NameAt (mp_Schema s),
       Fixed (''.''), NameAt (mp_View s), Fixed ('' AS src ON src.''), NameAt (mp_SnapshotColumn s),
       Fixed ('' >= (r.local_date::timestamp AT TIME ZONE ''), TextAt (mp_Timezone s),
       Fixed ('')'' @ nl @ ''    AND src.''), NameAt (mp_SnapshotColumn s),
       Fixed ('' < ((r.local_date + 1)::timestamp AT TIME ZONE ''), TextAt (mp_Timezone s), Fixed ('')'')]
     @ filter_pieces (mp_Filters s) @ [
       Fixed (nl @ ''  GROUP BY r.local_date'' @ nl @ ''), totals AS ('' @ nl @ ''  SELECT l.local_date, l.snapshot_at,'' @ nl @ ''    COUNT(src.''),
       NameAt (mp_SnapshotColumn s), Fixed ('')::bigint AS contributing_rows,'' @ nl @ ''    COUNT(DISTINCT src.''),
       NameAt (mp_SubjectColumn s), Fixed ('')::bigint AS distinct_subjects,'' @ nl @ ''    COUNT(src.''),
       NameAt (mp_MeasureColumn s), Fixed ('')::bigint AS nonnull_count,'' @ nl @ ''    CASE WHEN COUNT(src.''),
       NameAt (mp_SnapshotColumn s), Fixed ('') > 0'' @ nl @ ''      AND COUNT(src.''),
       NameAt (mp_SnapshotColumn s), Fixed ('') = COUNT(DISTINCT src.''), NameAt (mp_SubjectColumn s),
       Fixed ('')'' @ nl @ ''      AND COUNT(src.''), NameAt (mp_SnapshotColumn s), Fixed ('') = COUNT(src.''),
       NameAt (mp_MeasureColumn s), Fixed ('')'' @ nl @ ''      AND COUNT(src.''),
       NameAt (mp_SnapshotColumn s), Fixed ('') = COUNT(src.''), NameAt (mp_MeasureColumn s),
       Fixed ('') FILTER (WHERE src.''), NameAt (mp_MeasureColumn s), Fixed (''::text NOT IN (''),
       TextAt ''NaN'', Fixed ('', ''), TextAt ''Infinity'', Fixed ('', ''),
       TextAt ''-Infinity'', Fixed (''))'' @ nl @ ''      THEN SUM(src.''), NameAt (mp_MeasureColumn s),
       Fixed (''::numeric) FILTER (WHERE src.''), NameAt (mp_MeasureColumn s), Fixed (''::text NOT IN (''),
       TextAt ''NaN'', Fixed ('', ''), TextAt ''Infinity'', Fixed ('', ''),
       TextAt ''-Infinity'',
       Fixed (''))'' @ nl @ ''      ELSE NULL END AS value'' @ nl @ ''  FROM latest AS l'' @ nl @ ''  LEFT JOIN ''),
       NameAt (mp_Schema s), Fixed (''.''), NameAt (mp_View s), Fixed ('' AS src ON src.''),
       NameAt (mp_SnapshotColumn s), Fixed ('' = l.snapshot_at'')]
     @ filter_pieces (mp_Filters s) @ [
       Fixed (nl @ ''  GROUP BY l.local_date, l.snapshot_at'' @ nl @ '')'' @ nl @ ''SELECT local_date, snapshot_at, contributing_rows, distinct_subjects, nonnull_count, value'' @ nl @ ''FROM totals ORDER BY local_date DESC'')]
    "

abbreviation assemble :: "piece list \<Rightarrow> gostring" where
  "assemble ps \<equiv> concat (map render ps)"

lemma filters_assemble:
  "list_all (\<lambda>f. safeLiteral (ff_Value f)) fs \<Longrightarrow> assemble (filter_pieces fs) = compile_filters fs"
  by (induction fs) (auto simp: filter_pieces_def compile_filters_def quoteLiteral_plain dest: literal_plain)

lemma compile_assemble:
  assumes "query_safe s" "dateLiteral a = sq first" "dateLiteral b = sq second"
  shows "compile_sql s a b = assemble (query_pieces s first second)"
proof -
  have "list_all (\<lambda>f. safeLiteral (ff_Value f)) (mp_Filters s)" using assms(1) by (auto simp: query_safe_def list_all_iff)
  note f = filters_assemble [OF this]
  have z: "quoteLiteral (mp_Timezone s) = sq (mp_Timezone s)"
    using assms(1) by (intro quoteLiteral_plain) (simp add: query_safe_def literal_plain)
  show ?thesis
    unfolding compile_sql_def query_pieces_def Let_def
    by (simp only: f [symmetric] z assms map_append concat_append list.map concat.simps render.simps append_Cons append_Nil append_assoc append_Nil2)
qed

end
