(* ===== verification/Compiled_Query.thy ===== *)
theory Compiled_Query
  imports Metric_Query
begin

text \<open>
  What holds of every query that \<open>metriccompare.Compile\<close> makes from a sealed profile: its token sequence is
  the template's, whatever the profile and the dates (\<open>compiled_sql_structure\<close>), and the governed executor's
  static check accepts it (\<open>compiled_sql_accepted\<close>).
\<close>

section \<open>Dates\<close>

lemma digits_val_inj:
  "length s = length t \<Longrightarrow> list_all is_digit s \<Longrightarrow> list_all is_digit t \<Longrightarrow> digits_val s = digits_val t \<Longrightarrow> s = t"
proof (induction s arbitrary: t rule: rev_induct)
  case (snoc c s)
  then obtain u d where t: "t = u @ [d]" by (cases t rule: rev_cases) auto
  have lt: "digit_val c < 10" "digit_val d < 10" using snoc.prems t by (auto simp: is_digit_def digit_val_def)
  have eq: "digits_val s * 10 + digit_val c = digits_val u * 10 + digit_val d" using snoc.prems t by (simp add: digits_val_snoc)
  with lt have v: "digits_val s = digits_val u" "digit_val c = digit_val d" by presburger+
  have "s = u" using snoc.IH [of u] snoc.prems t v by simp
  moreover have "c = d" using v(2) snoc.prems t by (auto simp: is_digit_def digit_val_def) (metis char_of_char diff_diff_cancel le_add_diff_inverse2)
  ultimately show ?case using t by simp
qed simp

lemma digits_val_bound: "list_all is_digit s \<Longrightarrow> digits_val s < 10 ^ length s"
proof (induction s rule: rev_induct)
  case (snoc c s)
  then have "digit_val c < 10" "digits_val s < 10 ^ length s" by (auto simp: is_digit_def digit_val_def)
  then show ?case by (simp add: digits_val_snoc)
qed simp

lemma pad_digits_of_digits: "list_all is_digit s \<Longrightarrow> s \<noteq> [] \<Longrightarrow> pad_digits (length s) (digits_val s) = s"
  by (rule digits_val_inj) (simp_all add: pad_digits_length digits_val_bound pad_digits_digits)

text \<open>The literal of a valid date is the date as it was given.\<close>

lemma dateLiteral_of: "validDate s \<Longrightarrow> dateLiteral (date_of s) = sq s"
proof -
  assume "validDate s"
  then have p: "datePattern s" by (simp add: validDate_def split: if_splits)
  let ?y = "take 4 s" and ?m = "take 2 (drop 5 s)" and ?d = "drop 8 s"
  from p have len: "length s = 10" by (simp add: datePattern_def)
  have y: "pad_digits 4 (digits_val ?y) = ?y" using pad_digits_of_digits [of ?y] p len by (force simp: datePattern_def)
  have m: "pad_digits 2 (digits_val ?m) = ?m" using pad_digits_of_digits [of ?m] p len by (force simp: datePattern_def)
  have d: "pad_digits 2 (digits_val ?d) = ?d" using pad_digits_of_digits [of ?d] p len by (force simp: datePattern_def)
  have "s = ?y @ [s ! 4] @ ?m @ [s ! 7] @ ?d"
    using len by (simp add: list_eq_iff_nth_eq nth_append nth_Cons split: nat.splits) (auto simp: less_Suc_eq numeral_eq_Suc)
  then have "?y @ ''-'' @ ?m @ ''-'' @ ?d = s" using p by (simp add: datePattern_def)
  then show ?thesis by (simp add: dateLiteral_def date_of_def y m d)
qed

lemma date_plain: "validDate s \<Longrightarrow> list_all plain_byte s \<and> length s = 10"
proof -
  assume "validDate s"
  then have p: "datePattern s" by (simp add: validDate_def split: if_splits)
  have "plain_byte (s ! i)" if "i < 10" for i
  proof -
    have dig: "is_digit (s ! i)" if "i \<noteq> 4" "i \<noteq> 7"
      using p that \<open>i < 10\<close> unfolding datePattern_def list_all_length
      by (cases "i < 4"; cases "i < 7") (force dest: spec [of _ i] spec [of _ "i - 5"] spec [of _ "i - 8"])+
    then show ?thesis using p by (cases "i = 4 \<or> i = 7") (auto simp: plain_byte_def datePattern_def)
  qed
  with p show ?thesis by (simp add: datePattern_def list_all_length)
qed

section \<open>Joints\<close>

text \<open>What a piece may contain, and where two pieces may meet: no quote opens twice, no comment begins and no
  word runs across the joint.\<close>

definition quiet :: "gostring \<Rightarrow> bool" where
  "quiet v \<longleftrightarrow> \<not> contains_str ''--'' v \<and> \<not> contains_str ''/*'' v \<and> CHR '';'' \<notin> set v \<and> CHR 0x00 \<notin> set v
     \<and> list_all (\<lambda>c. \<not> high_bit c) v \<and> list_all (\<lambda>w. w \<notin> set rejectedWords) (fields_func isWordByte (map ascii_lower v))"

definition apart :: "gostring \<Rightarrow> gostring \<Rightarrow> bool" where
  "apart u v \<longleftrightarrow> u = [] \<or> v = [] \<or> (\<not> isWordByte (last u) \<or> \<not> isWordByte (hd v)) \<and> last u \<noteq> CHR ''-'' \<and> last u \<noteq> CHR ''/''"

fun piece_ok :: "piece \<Rightarrow> bool" where
  "piece_ok (Fixed w) \<longleftrightarrow> w \<noteq> [] \<and> CHR 0x22 \<notin> set w \<and> CHR 0x27 \<notin> set w \<and> quiet w"
| "piece_ok (NameAt v) \<longleftrightarrow> list_all plain_byte v \<and> v \<noteq> [] \<and> quiet v"
| "piece_ok (TextAt v) \<longleftrightarrow> list_all plain_byte v \<and> v \<noteq> [] \<and> quiet v"

fun open_end :: "piece \<Rightarrow> bool" where
  "open_end (Fixed w) = False"
| "open_end _ = True"

definition joint :: "piece \<Rightarrow> piece \<Rightarrow> bool" where
  "joint p q \<longleftrightarrow> apart (render p) (render q) \<and> (open_end p \<longrightarrow> hd (render q) \<noteq> CHR 0x22 \<and> hd (render q) \<noteq> CHR 0x27)"

lemma render_nonempty: "piece_ok p \<Longrightarrow> render p \<noteq> []"
  by (cases p) auto

lemma assemble_hd: "piece_ok p \<Longrightarrow> assemble (p # ps) \<noteq> [] \<and> hd (assemble (p # ps)) = hd (render p)"
  using render_nonempty by simp

text \<open>The tokens of an assembled text are the tokens of its pieces.\<close>

lemma assemble_tokens:
  "successively joint ps \<Longrightarrow> list_all piece_ok ps \<Longrightarrow> sql_tokens (assemble ps) = concat (map piece_tokens ps)"
proof (induction ps)
  case (Cons p ps)
  have ih: "sql_tokens (assemble ps) = concat (map piece_tokens ps)"
    using Cons by (cases ps) simp_all
  have next_byte: "assemble ps = [] \<or> hd (assemble ps) \<noteq> CHR 0x22 \<and> hd (assemble ps) \<noteq> CHR 0x27" if "open_end p"
  proof (cases ps)
    case (Cons q qs)
    with Cons.prems that have "hd (render q) \<noteq> CHR 0x22 \<and> hd (render q) \<noteq> CHR 0x27" "piece_ok q" by (auto simp: joint_def)
    with Cons assemble_hd show ?thesis by metis
  qed simp
  have "sql_tokens (render p @ assemble ps) = piece_tokens p @ sql_tokens (assemble ps)"
  proof (cases p)
    case (Fixed w)
    with Cons.prems show ?thesis by (simp add: tokens_bytes)
  next
    case (NameAt v)
    with Cons.prems next_byte plain_no_quote [of v] show ?thesis using tokens_name [of v "assemble ps"] by auto
  next
    case (TextAt v)
    with Cons.prems next_byte plain_no_quote [of v] show ?thesis using tokens_text [of v "assemble ps"] by auto
  qed
  with ih show ?case by simp
qed simp

section \<open>Quiet texts\<close>

lemma contains_pair_append:
  "contains_str [a, b] (u @ v) \<longleftrightarrow> contains_str [a, b] u \<or> contains_str [a, b] v \<or> (u \<noteq> [] \<and> v \<noteq> [] \<and> last u = a \<and> hd v = b)"
proof (induction u)
  case (Cons c u)
  show ?case
  proof (cases u)
    case Nil
    then show ?thesis by (cases v) auto
  next
    case (Cons d t)
    with Cons.IH show ?thesis by auto
  qed
qed simp

lemma contains_one [simp]: "contains_str [a] s \<longleftrightarrow> a \<in> set s"
  by (induction s) auto

lemma word_lower [simp]: "isWordByte (ascii_lower c) = isWordByte c"
  by (auto simp: isWordByte_def ascii_lower_def is_upper_def is_lower_def is_digit_def of_char_of)

lemma quiet_append: "quiet u \<Longrightarrow> quiet v \<Longrightarrow> apart u v \<Longrightarrow> quiet (u @ v)"
proof -
  assume q: "quiet u" "quiet v" and a: "apart u v"
  have "fields_func isWordByte (map ascii_lower u @ map ascii_lower v)
     = fields_func isWordByte (map ascii_lower u) @ fields_func isWordByte (map ascii_lower v)"
    by (rule fields_append) (use a in \<open>auto simp: apart_def last_map hd_map\<close>)
  moreover have "\<not> contains_str ''--'' (u @ v)" "\<not> contains_str ''/*'' (u @ v)"
    using q a unfolding contains_pair_append quiet_def apart_def by auto
  ultimately show ?thesis using q by (simp add: quiet_def)
qed

lemma quiet_quoted: "quiet v \<Longrightarrow> v \<noteq> [] \<Longrightarrow> list_all plain_byte v \<Longrightarrow> q \<in> {CHR 0x22, CHR 0x27} \<Longrightarrow> quiet (q # v @ [q])"
proof -
  assume v: "quiet v" "v \<noteq> []" "list_all plain_byte v" and q: "q \<in> {CHR 0x22, CHR 0x27}"
  have words: "fields_func isWordByte (map ascii_lower (q # v @ [q])) = fields_func isWordByte (map ascii_lower v)"
  proof -
    have nq: "\<not> isWordByte (ascii_lower q)" using q unfolding word_lower by (auto simp: isWordByte_def is_lower_def is_upper_def is_digit_def)
    have "fields_func isWordByte (map ascii_lower v @ [ascii_lower q]) = fields_func isWordByte (map ascii_lower v) @ fields_func isWordByte [ascii_lower q]"
      by (rule fields_append) (use nq in simp)
    with nq show ?thesis by simp
  qed
  have pairs: "\<not> contains_str ''--'' ([q] @ v @ [q])" "\<not> contains_str ''/*'' ([q] @ v @ [q])"
    using v q unfolding contains_pair_append quiet_def by auto
  moreover have "high_bit q = False" using q by (auto simp: high_bit_def)
  ultimately show ?thesis using v q words by (auto simp: quiet_def)
qed

lemma render_quiet: "piece_ok p \<Longrightarrow> quiet (render p)"
  by (cases p) (auto intro: quiet_quoted)

lemma assemble_quiet: "successively joint ps \<Longrightarrow> list_all piece_ok ps \<Longrightarrow> quiet (assemble ps)"
proof (induction ps)
  case Nil
  show ?case by (simp add: quiet_def)
next
  case (Cons p ps)
  have "quiet (assemble ps)" using Cons by (cases ps) simp_all
  moreover have "apart (render p) (assemble ps)"
  proof (cases ps)
    case (Cons q qs)
    with Cons.prems have "apart (render p) (render q)" "piece_ok q" by (auto simp: joint_def)
    with render_nonempty show ?thesis by (auto simp: Cons apart_def)
  qed (simp add: apart_def)
  ultimately show ?case using Cons.prems by (simp add: quiet_append render_quiet)
qed

section \<open>The contents are quiet\<close>

lemma contains_subset: "contains_str p s \<Longrightarrow> set p \<subseteq> set s"
proof (induction p s rule: contains_str.induct)
  case (2 p c s)
  have "set p \<subseteq> set (c # s)" if "has_prefix p (c # s)" using that has_prefix_iff set_append by (metis Un_upper1)
  with 2 show ?case by auto
qed simp

lemma fields_cong: "(\<And>c. c \<in> set s \<Longrightarrow> P c = Q c) \<Longrightarrow> fields_func P s = fields_func Q s"
proof (induction P s rule: fields_func.induct)
  case (2 P c s)
  have while: "takeWhile P (c # s) = takeWhile Q (c # s)" "dropWhile P (c # s) = dropWhile Q (c # s)"
    by (rule takeWhile_cong dropWhile_cong; use "2.prems" in simp)+
  show ?case
  proof (cases "P c")
    case True
    have "fields_func P (dropWhile P (c # s)) = fields_func Q (dropWhile P (c # s))"
      by (rule "2.IH"(1)) (use True "2.prems" set_dropWhileD in \<open>metis\<close>)+
    with True "2.prems" while show ?thesis by simp
  next
    case False
    with "2.IH"(2) "2.prems" show ?thesis by simp
  qed
qed simp

lemma fields_subset: "w \<in> set (fields_func P s) \<Longrightarrow> set w \<subseteq> set s"
proof (induction P s rule: fields_func.induct)
  case (2 P c s)
  then show ?case by (cases "P c") (auto dest: set_takeWhileD set_dropWhileD)
qed simp

lemma plain_not_high: "list_all plain_byte v \<Longrightarrow> list_all (\<lambda>c. \<not> high_bit c) v \<and> CHR '';'' \<notin> set v \<and> CHR 0x00 \<notin> set v \<and> CHR ''*'' \<notin> set v"
  by (auto simp: list_all_iff plain_byte_def is_lower_def is_upper_def is_digit_def high_bit_iff)

lemma lower_fixed: "list_all word_byte v \<Longrightarrow> map ascii_lower v = v"
proof (induction v)
  case (Cons c v)
  then have "\<not> is_upper c" by (auto simp: word_byte_def is_upper_def is_lower_def is_digit_def)
  with Cons show ?case by (simp add: ascii_lower_def)
qed simp

lemma no_dashes: "CHR ''-'' \<notin> set u \<Longrightarrow> \<not> contains_str ''--'' u"
  using contains_subset [of "''--''" u] by auto

lemma no_comment: "list_all plain_byte u \<Longrightarrow> \<not> contains_str ''/*'' u"
  using contains_subset [of "''/*''" u] plain_not_high [of u] by auto

lemma identifier_quiet: "safeIdentifier v \<Longrightarrow> quiet v"
proof -
  assume v: "safeIdentifier v"
  then have w: "list_all word_byte v" "v \<noteq> []" "v \<notin> set rejectedWords" by (auto simp: safeIdentifier_def mc_identifier_def)
  have "\<not> word_byte CHR ''-''" by code_simp
  with w(1) have "CHR ''-'' \<notin> set v" by (auto simp only: list_all_iff)
  then have c: "\<not> contains_str ''--'' v" "\<not> contains_str ''/*'' v"
    using no_dashes no_comment identifier_plain [OF v] by blast+
  have "list_all isWordByte v" using w(1) by (auto simp: list_all_iff word_byte_def isWordByte_def)
  then have "fields_func isWordByte v = [v]" using w(2) fields_all by (cases v) blast+
  with c w plain_not_high identifier_plain [OF v] show ?thesis by (simp add: quiet_def lower_fixed)
qed

lemma literal_quiet: "safeLiteral v \<Longrightarrow> quiet v"
proof -
  assume v: "safeLiteral v"
  have "fields_func isWordByte (map ascii_lower v) = fields_func word_byte (map ascii_lower v)"
    by (rule fields_cong) (auto simp: isWordByte_def word_byte_def ascii_lower_def is_upper_def of_char_of)
  with v plain_not_high literal_plain [OF v] show ?thesis by (simp add: quiet_def safeLiteral_def split: if_splits)
qed

lemma date_quiet: "validDate s \<Longrightarrow> quiet s"
proof -
  assume v: "validDate s"
  then have p: "datePattern s" by (simp add: validDate_def split: if_splits)
  have len: "length s = 10" using p by (simp add: datePattern_def)
  let ?y = "take 4 s" and ?m = "take 2 (drop 5 s)" and ?d = "drop 8 s"
  have split: "s = ?y @ ''-'' @ ?m @ ''-'' @ ?d"
    using p len by (simp add: datePattern_def list_eq_iff_nth_eq nth_append nth_Cons split: nat.splits)
      (auto simp: less_Suc_eq numeral_eq_Suc)
  have dig: "list_all is_digit ?y" "list_all is_digit ?m" "list_all is_digit ?d" using p by (simp_all add: datePattern_def)
  then have nd: "CHR ''-'' \<notin> set ?y" "CHR ''-'' \<notin> set ?m" "CHR ''-'' \<notin> set ?d" by (auto simp: list_all_iff is_digit_def)
  have ne: "?y \<noteq> []" "?m \<noteq> []" "?d \<noteq> []" using len by auto
  have edge: "hd ?m \<noteq> CHR ''-''" "hd ?d \<noteq> CHR ''-''" "last ?y \<noteq> CHR ''-''" "last ?m \<noteq> CHR ''-''"
    using nd ne hd_in_set last_in_set by metis+
  have single: "\<not> contains_str ''--'' ''-''" by simp
  have "\<not> contains_str ''--'' (?m @ ''-'' @ ?d)"
    unfolding contains_pair_append using no_dashes nd edge ne single by simp
  then have "\<not> contains_str ''--'' (''-'' @ ?m @ ''-'' @ ?d)"
    unfolding contains_pair_append [of _ _ "''-''"] using single edge ne by (simp add: hd_append)
  then have "\<not> contains_str ''--'' (?y @ ''-'' @ ?m @ ''-'' @ ?d)"
    unfolding contains_pair_append [of _ _ ?y] using no_dashes nd edge by simp
  then have "\<not> contains_str ''--'' s" using split by metis
  moreover have "\<not> contains_str ''/*'' s" using no_comment date_plain [OF v] by blast
  moreover have "w \<notin> set rejectedWords" if "w \<in> set (fields_func isWordByte (map ascii_lower s))" for w
  proof -
    have "c = CHR ''-'' \<or> is_digit c" if "c \<in> set s" for c using that dig by (subst (asm) split) (auto simp: list_all_iff)
    moreover have "ascii_lower c = c" if "c = CHR ''-'' \<or> is_digit c" for c
      using that unfolding ascii_lower_def is_upper_def is_digit_def by auto
    ultimately have low: "\<forall>c \<in> set (map ascii_lower s). c = CHR ''-'' \<or> is_digit c" by (simp only: set_map ball_simps) metis
    have "list_all (\<lambda>c. c = CHR ''-'' \<or> is_digit c) w"
      unfolding list_all_iff using fields_subset [OF that] low by (intro ballI) (drule (1) subsetD, rule bspec)
    moreover have "list_all (\<lambda>v. \<not> list_all (\<lambda>c. c = CHR ''-'' \<or> is_digit c) v) rejectedWords" by code_simp
    ultimately show ?thesis by (auto simp: list_all_iff [of _ rejectedWords])
  qed
  ultimately show ?thesis using plain_not_high date_plain [OF v] by (auto simp: quiet_def list_all_iff)
qed

section \<open>The template\<close>

lemma texts_ok:
  "list_all (\<lambda>w. piece_ok (Fixed w))
      ['' < ((r.local_date + 1)::timestamp AT TIME ZONE '',
       '' = l.snapshot_at'',
       '' >= (r.local_date::timestamp AT TIME ZONE '',
       '' AS src ON src.'',
       '') = COUNT(DISTINCT src.'',
       '') = COUNT(src.'',
       '') > 0'' @ nl @ ''      AND COUNT(src.'',
       '') AS snapshot_at'' @ nl @ ''  FROM requested AS r'' @ nl @ ''  LEFT JOIN '',
       '') FILTER (WHERE src.'',
       '')'',
       '')'' @ nl @ ''      AND COUNT(src.'',
       '')'' @ nl @ ''    AND src.'',
       '')'' @ nl @ ''), latest AS ('' @ nl @ ''  SELECT r.local_date, MAX(src.'',
       ''))'' @ nl @ ''      ELSE NULL END AS value'' @ nl @ ''  FROM latest AS l'' @ nl @ ''  LEFT JOIN '',
       ''))'' @ nl @ ''      THEN SUM(src.'',
       ''), (DATE '',
       '')::bigint AS contributing_rows,'' @ nl @ ''    COUNT(DISTINCT src.'',
       '')::bigint AS distinct_subjects,'' @ nl @ ''    COUNT(src.'',
       '')::bigint AS nonnull_count,'' @ nl @ ''    CASE WHEN COUNT(src.'',
       '', '',
       ''.'',
       ''::numeric) FILTER (WHERE src.'',
       ''::text NOT IN ('',
       ''WITH requested(local_date) AS ('' @ nl @ ''  VALUES (DATE '',
       nl @ ''  GROUP BY l.local_date, l.snapshot_at'' @ nl @ '')'' @ nl @ ''SELECT local_date, snapshot_at, contributing_rows, distinct_subjects, nonnull_count, value'' @ nl @ ''FROM totals ORDER BY local_date DESC'',
       nl @ ''  GROUP BY r.local_date'' @ nl @ ''), totals AS ('' @ nl @ ''  SELECT l.local_date, l.snapshot_at,'' @ nl @ ''    COUNT(src.'',
       '' AND src.'',
       '' = '']"
  by code_simp

lemmas fixed_ok = texts_ok [unfolded list.pred_inject]

lemma filter_pieces_ok:
  "list_all (\<lambda>f. safeIdentifier (ff_Column f) \<and> safeLiteral (ff_Value f)) fs \<Longrightarrow> list_all piece_ok (filter_pieces fs)"
  using fixed_ok by (induction fs) (auto simp: filter_pieces_def identifier_plain literal_plain identifier_quiet literal_quiet simp del: piece_ok.simps(1))

text \<open>The strings the template itself carries.\<close>

lemma constants_ok: "list_all (\<lambda>w. piece_ok (TextAt w)) [''NaN'', ''Infinity'', ''-Infinity'']"
  by code_simp

lemma query_pieces_ok:
  assumes "query_safe s" "validDate a" "validDate b"
  shows "list_all piece_ok (query_pieces s a b)"
proof -
  have names: "piece_ok (NameAt v)" if "safeIdentifier v" for v using that identifier_plain identifier_quiet by simp
  have texts: "piece_ok (TextAt v)" if "safeLiteral v" for v using that literal_plain literal_quiet by simp
  have dates: "piece_ok (TextAt v)" if "validDate v" for v using that date_plain [OF that] date_quiet by auto
  have filters: "list_all piece_ok (filter_pieces (mp_Filters s))" using assms(1) by (intro filter_pieces_ok) (simp add: query_safe_def)
  note safe = assms(1) [unfolded query_safe_def]
  show ?thesis unfolding query_pieces_def
    by (simp only: list_all_append list.pred_inject fixed_ok constants_ok [unfolded list.pred_inject] filters names safe texts dates assms simp_thms)
qed

text \<open>Two pieces with a quote between them meet well.\<close>

lemma quote_apart [simp]: "apart (dq v) w" "apart (sq v) w" "apart w (dq v) \<longleftrightarrow> w = [] \<or> last w \<noteq> CHR ''-'' \<and> last w \<noteq> CHR ''/''"
  "apart w (sq v) \<longleftrightarrow> w = [] \<or> last w \<noteq> CHR ''-'' \<and> last w \<noteq> CHR ''/''"
  by (auto simp: apart_def isWordByte_def is_lower_def is_upper_def is_digit_def)

lemma filter_joints:
  "successively joint (filter_pieces fs)
   \<and> (fs \<noteq> [] \<longrightarrow> filter_pieces fs \<noteq> [] \<and> hd (filter_pieces fs) = Fixed '' AND src.'' \<and> (\<exists>v. last (filter_pieces fs) = TextAt v))"
proof (induction fs)
  case (Cons f fs)
  have split: "filter_pieces (f # fs) = [Fixed '' AND src.'', NameAt (ff_Column f), Fixed '' = '', TextAt (ff_Value f)] @ filter_pieces fs"
    by (simp add: filter_pieces_def)
  have joints: "joint (Fixed '' AND src.'') (NameAt u)" "joint (NameAt u) (Fixed '' = '')" "joint (Fixed '' = '') (TextAt u)"
    "joint (TextAt u) (Fixed '' AND src.'')" for u
    by (simp_all add: joint_def)
  with Cons show ?case unfolding split
    by (cases "fs = []") (auto simp: successively_Cons filter_pieces_def [of "[]"] simp del: render.simps)
qed (simp add: filter_pieces_def)

lemma query_joints: "successively joint (query_pieces s a b)"
proof -
  have j: "joint (Fixed w) (NameAt v) \<longleftrightarrow> last w \<noteq> CHR ''-'' \<and> last w \<noteq> CHR ''/''"
    "joint (Fixed w) (TextAt v) \<longleftrightarrow> last w \<noteq> CHR ''-'' \<and> last w \<noteq> CHR ''/''"
    "joint (NameAt v) (Fixed w) \<longleftrightarrow> hd w \<noteq> CHR 0x22 \<and> hd w \<noteq> CHR 0x27"
    "joint (TextAt v) (Fixed w) \<longleftrightarrow> hd w \<noteq> CHR 0x22 \<and> hd w \<noteq> CHR 0x27"
    "joint (Fixed w) (Fixed w') \<longleftrightarrow> apart w w'" if "w \<noteq> []" for w w' v
    using that by (simp_all add: joint_def)
  note f = filter_joints [of "mp_Filters s"]
  obtain u where last_filter: "mp_Filters s \<noteq> [] \<Longrightarrow> last (filter_pieces (mp_Filters s)) = TextAt u" using f by blast
  show ?thesis
  proof (cases "mp_Filters s = []")
    case True
    then have "filter_pieces (mp_Filters s) = []" by (simp add: filter_pieces_def)
    then show ?thesis unfolding query_pieces_def
      by (simp add: j nl_def apart_def isWordByte_def is_lower_def is_upper_def is_digit_def)
  next
    case False
    with f last_filter have "filter_pieces (mp_Filters s) \<noteq> []" "hd (filter_pieces (mp_Filters s)) = Fixed '' AND src.''"
      "last (filter_pieces (mp_Filters s)) = TextAt u" "successively joint (filter_pieces (mp_Filters s))" by auto
    then show ?thesis unfolding query_pieces_def
      by (simp add: successively_append_iff successively_Cons j nl_def apart_def isWordByte_def is_lower_def is_upper_def is_digit_def)
  qed
qed

lemma mc_Compile_sealed:
  assumes "sealed e p" "mc_Compile p a b = Some q"
  shows "query_safe (pf_spec p)" "validDate a" "validDate b" "cq_SQL q = assemble (query_pieces (pf_spec p) a b)"
proof -
  show "query_safe (pf_spec p)" by (rule sealed_safe) (fact assms(1))
  moreover show "validDate a" "validDate b" using assms(2) by (auto simp: mc_Compile_def split: if_splits)
  ultimately show "cq_SQL q = assemble (query_pieces (pf_spec p) a b)"
    using assms(2) compile_assemble dateLiteral_of by (auto simp: mc_Compile_def split: if_splits)
qed

lemma compiled_quiet: "sealed e p \<Longrightarrow> mc_Compile p a b = Some q \<Longrightarrow> quiet (cq_SQL q)"
  using assemble_quiet query_joints query_pieces_ok mc_Compile_sealed by metis

lemma filter_pieces_length:
  "list_all (\<lambda>f. safeIdentifier (ff_Column f) \<and> safeLiteral (ff_Value f)) fs \<Longrightarrow> length (assemble (filter_pieces fs)) \<le> 208 * length fs"
  by (induction fs) (auto simp: filter_pieces_def safeIdentifier_def safeLiteral_def split: if_splits)

lemma sealed_filters: "sealed e p \<Longrightarrow> length (mp_Filters (pf_spec p)) \<le> 4"
  by (auto simp: sealed_def NewProfile_def Let_def split: if_splits)

lemma compiled_length:
  assumes "sealed e p" "mc_Compile p a b = Some q"
  shows "length (cq_SQL q) \<le> 8192"
proof -
  note c = mc_Compile_sealed [OF assms]
  let ?s = "pf_spec p"
  have filters: "length (assemble (filter_pieces (mp_Filters ?s))) \<le> 832"
    using filter_pieces_length [of "mp_Filters ?s"] c(1) sealed_filters [OF assms(1)] by (simp add: query_safe_def)
  have names: "length (mp_Schema ?s) \<le> 63" "length (mp_View ?s) \<le> 63" "length (mp_SubjectColumn ?s) \<le> 63"
    "length (mp_SnapshotColumn ?s) \<le> 63" "length (mp_MeasureColumn ?s) \<le> 63" "length (mp_Timezone ?s) \<le> 128"
    using c(1) by (auto simp: query_safe_def safeIdentifier_def safeLiteral_def split: if_splits)
  have dates: "length a = 10" "length b = 10" using date_plain c by auto
  show ?thesis unfolding c(4) query_pieces_def using filters names dates by (simp add: nl_def)
qed

lemma compiled_ends:
  assumes "sealed e p" "mc_Compile p a b = Some q"
  shows "\<exists>t u. cq_SQL q = ''WITH '' @ t \<and> cq_SQL q = u @ ''DESC''"
proof -
  have "\<exists>t. assemble (query_pieces (pf_spec p) a b) = ''WITH '' @ t" by (simp add: query_pieces_def)
  moreover
  have "\<exists>ps w. query_pieces (pf_spec p) a b = ps @ [Fixed (w @ ''DESC'')]"
  proof -
    have "query_pieces (pf_spec p) a b = butlast (query_pieces (pf_spec p) a b) @ [last (query_pieces (pf_spec p) a b)]"
      by (rule append_butlast_last_id [symmetric]) (simp add: query_pieces_def)
    moreover have "last (query_pieces (pf_spec p) a b) = Fixed ((nl @ ''  GROUP BY l.local_date, l.snapshot_at'' @ nl @ '')'' @ nl
        @ ''SELECT local_date, snapshot_at, contributing_rows, distinct_subjects, nonnull_count, value'' @ nl
        @ ''FROM totals ORDER BY local_date '') @ ''DESC'')"
      by (simp add: query_pieces_def)
    ultimately show ?thesis by metis
  qed
  then obtain ps w where "query_pieces (pf_spec p) a b = ps @ [Fixed (w @ ''DESC'')]" by blast
  then have "assemble (query_pieces (pf_spec p) a b) = (assemble ps @ w) @ ''DESC''" by simp
  ultimately show ?thesis using mc_Compile_sealed(4) [OF assms] by metis
qed

section \<open>The static check\<close>

lemma trim_space_ascii:
  assumes "list_all (\<lambda>c. \<not> high_bit c) s" "s \<noteq> []" "\<not> space_chunk [hd s]" "\<not> space_chunk [last s]"
  shows "trim_space s = s"
proof -
  have "chunks s = map (\<lambda>c. [c]) s" using utf8_all_ascii assms(1) by blast
  moreover have "dropWhile space_chunk (map (\<lambda>c. [c]) s) = map (\<lambda>c. [c]) s" using assms(2,3) by (cases s) auto
  moreover have "dropWhile space_chunk (rev (map (\<lambda>c. [c]) s)) = rev (map (\<lambda>c. [c]) s)"
    using assms(2,4) by (cases s rule: rev_cases) auto
  moreover have "concat (map (\<lambda>c. [c]) s) = s" by (induction s) simp_all
  ultimately show ?thesis by (simp add: trim_space_def)
qed

lemma forbidden_trimmed: "map trim_space forbidden_words = rejectedWords"
  by code_simp

lemma rejected_are_words: "list_all (\<lambda>w. w \<noteq> [] \<and> list_all isWordByte w) rejectedWords"
  by code_simp

text \<open>\<open>strings.ToLower\<close> on ASCII text.\<close>

definition lowers_ascii :: "gq_env \<Rightarrow> bool" where
  "lowers_ascii g \<longleftrightarrow> (\<forall>s. list_all (\<lambda>c. \<not> high_bit c) s \<longrightarrow> gq_lower g s = map ascii_lower s)"

lemma quiet_accepted:
  assumes q: "quiet s" and g: "lowers_ascii g" and ends: "s = ''WITH '' @ t" "s = u @ ''DESC''"
  shows "staticPrecheck g s"
proof -
  have ascii: "list_all (\<lambda>c. \<not> high_bit c) s" using q by (simp add: quiet_def)
  have edge: "hd s = CHR ''W''" "s \<noteq> []" by (simp_all add: ends(1))
  have last: "last s = CHR ''C''" by (simp add: ends(2))
  have "\<not> space_chunk [CHR ''W'']" "\<not> space_chunk [CHR ''C'']" by code_simp+
  then have trim: "trim_space s = s" by (intro trim_space_ascii ascii) (simp_all add: edge last)
  have suffix: "\<not> has_suffix '';'' s" using last by (auto simp: has_suffix_iff)
  have low: "gq_lower g s = map ascii_lower s" using g ascii by (simp add: lowers_ascii_def)
  have "map ascii_lower ''WITH '' = ''with ''" by code_simp
  then have "map ascii_lower s = ''with'' @ '' '' @ map ascii_lower t" unfolding ends(1) map_append by simp
  then have prefix: "has_prefix ''with'' (map ascii_lower s)" by (metis has_prefix_append)
  have "\<not> containsWord (map ascii_lower s) w" if "w \<in> set rejectedWords" for w
  proof
    assume "containsWord (map ascii_lower s) w"
    moreover have "w \<noteq> []" "list_all isWordByte w" using rejected_are_words that by (auto simp: list_all_iff)
    ultimately have "w \<in> set (fields_func isWordByte (map ascii_lower s))" using containsWord_words by blast
    with q that show False by (auto simp: quiet_def list_all_iff)
  qed
  then have words: "list_all (\<lambda>w. \<not> containsWord (map ascii_lower s) (trim_space w)) forbidden_words"
    unfolding forbidden_trimmed [symmetric] by (simp add: list_all_iff)
  show ?thesis
    using q edge(2) suffix prefix words
    by (simp add: staticPrecheck_def trim low quiet_def Let_def)
qed

fun erase :: "sql_token \<Rightarrow> sql_token" where
  "erase (Name v) = Name []"
| "erase (Text v) = Text []"
| "erase (Byte c) = Byte c"

lemma erase_map_Byte: "map erase (map Byte w) = map Byte w"
  by (induction w) simp_all

lemma filter_shape:
  "length fs = length gs \<Longrightarrow> map erase (concat (map piece_tokens (filter_pieces fs))) = map erase (concat (map piece_tokens (filter_pieces gs)))"
  by (induction fs gs rule: list_induct2) (simp_all add: filter_pieces_def)

lemma query_shape:
  assumes "length (mp_Filters s) = length (mp_Filters s')"
  shows "map erase (concat (map piece_tokens (query_pieces s a b))) = map erase (concat (map piece_tokens (query_pieces s' a' b')))"
  unfolding query_pieces_def map_append concat_append list.map concat.simps piece_tokens.simps erase_map_Byte filter_shape [OF assms]
  by (simp only: erase.simps)

section \<open>Properties\<close>

definition sample_metric_env :: metric_env where
  "sample_metric_env = \<lparr>me_sha256 = (\<lambda>s. replicate 32 CHR ''k''), me_print = (\<lambda>r. True), me_zone = (\<lambda>n. n = ''Europe/Moscow''),
     me_time_parse = (\<lambda>layout v. if v = ''2026-09-09T06:00:00Z'' then Some \<lparr>tm_nanoseconds = 1, tm_offset = 0\<rparr>
       else if v = ''2026-09-10T06:00:00Z'' then Some \<lparr>tm_nanoseconds = 2, tm_offset = 0\<rparr> else None),
     me_date_in = (\<lambda>zone t. if tm_nanoseconds t = 1 then ''2026-09-09'' else ''2026-09-10''),
     me_rfc3339 = (\<lambda>t. if tm_nanoseconds t = 1 then ''2026-09-09T06:00:00Z'' else ''2026-09-10T06:00:00Z'')\<rparr>"

definition sample_spec :: profile_spec where
  "sample_spec = \<lparr>mp_ExposedSchemaRevision = 7, mp_MetricID = ''work.assignments'', mp_Description = [], mp_Unit = ''unknown'',
     mp_Schema = ''reporting'', mp_View = ''v_metric'', mp_SubjectColumn = ''team_id'', mp_SnapshotColumn = ''observed_at'',
     mp_MeasureColumn = ''amount'', mp_Timezone = ''Europe/Moscow'',
     mp_Filters = [\<lparr>ff_Column = ''range_kind'', ff_Value = ''METER''\<rparr>, \<lparr>ff_Column = ''metric_code'', ff_Value = ''work.assignments''\<rparr>]\<rparr>"

definition other_spec :: profile_spec where
  "other_spec = sample_spec\<lparr>mp_Schema := ''fleet'', mp_View := ''v_trips'', mp_Timezone := ''UTC'',
     mp_Filters := [\<lparr>ff_Column = ''depot'', ff_Value = ''north-7''\<rparr>, \<lparr>ff_Column = ''kind'', ff_Value = ''2024-01:a''\<rparr>]\<rparr>"

definition spec_ok :: "metric_env \<Rightarrow> profile_spec \<Rightarrow> bool" where
  "spec_ok e spec \<longleftrightarrow> \<not> (mp_ExposedSchemaRevision spec < 1 \<or> length (mp_MetricID spec) > 128 \<or> \<not> mc_metricID (mp_MetricID spec)
        \<or> \<not> safeDescription e (mp_Description spec) \<or> \<not> safeUnit (mp_Unit spec) \<or> \<not> safeIdentifier (mp_Schema spec)
        \<or> \<not> safeIdentifier (mp_View spec) \<or> \<not> safeIdentifier (mp_SubjectColumn spec)
        \<or> \<not> safeIdentifier (mp_SnapshotColumn spec) \<or> \<not> safeIdentifier (mp_MeasureColumn spec)
        \<or> mp_SubjectColumn spec = mp_SnapshotColumn spec \<or> mp_SubjectColumn spec = mp_MeasureColumn spec
        \<or> mp_SnapshotColumn spec = mp_MeasureColumn spec \<or> \<not> safeLiteral (mp_Timezone spec)
        \<or> (mp_Timezone spec \<noteq> ''UTC'' \<and> \<not> contains_str ''/'' (mp_Timezone spec)) \<or> length (mp_Filters spec) > 4)
     \<and> tz_Load e (mp_Timezone spec) \<and> filters_loop spec [] (mp_Filters spec)"

lemma NewProfile_ok: "NewProfile e spec \<noteq> None \<longleftrightarrow> spec_ok e spec"
  by (simp add: NewProfile_def spec_ok_def Let_def)

abbreviation sample_profile :: profile where
  "sample_profile \<equiv> the (NewProfile sample_metric_env sample_spec)"

abbreviation other_profile :: profile where
  "other_profile \<equiv> the (NewProfile sample_metric_env other_spec)"

lemma sample_sealed: "sealed sample_metric_env sample_profile" "sealed sample_metric_env other_profile"
proof -
  have "spec_ok sample_metric_env sample_spec \<and> spec_ok sample_metric_env other_spec" by code_simp
  then show "sealed sample_metric_env sample_profile" "sealed sample_metric_env other_profile"
    unfolding sealed_def NewProfile_ok [symmetric] by (metis option.collapse)+
qed

lemma Compile_some: "sealed e p \<Longrightarrow> validDate a \<Longrightarrow> validDate b \<Longrightarrow> a \<noteq> b \<Longrightarrow> mc_Compile p a b = Some (the (mc_Compile p a b))"
  by (auto simp: sealed_def NewProfile_def mc_Compile_def Let_def split: if_splits)

lemma sealed_filter_count: "NewProfile e spec \<noteq> None \<Longrightarrow> length (mp_Filters (pf_spec (the (NewProfile e spec)))) = length (mp_Filters spec)"
  by (auto simp: NewProfile_def Let_def split: if_splits)

lemma sample_filter_counts: "length (mp_Filters (pf_spec sample_profile)) = length (mp_Filters (pf_spec other_profile))"
proof -
  have "spec_ok sample_metric_env sample_spec \<and> spec_ok sample_metric_env other_spec" by code_simp
  then show ?thesis unfolding NewProfile_ok [symmetric] by (simp add: sealed_filter_count sample_spec_def other_spec_def)
qed

lemma sample_dates: "validDate ''2026-09-10''" "validDate ''2026-09-09''" "validDate ''2024-02-29''" "validDate ''2023-12-31''"
  by code_simp+

lemma sample_compiled:
  "mc_Compile sample_profile ''2026-09-10'' ''2026-09-09'' = Some (the (mc_Compile sample_profile ''2026-09-10'' ''2026-09-09''))"
  "mc_Compile other_profile ''2024-02-29'' ''2023-12-31'' = Some (the (mc_Compile other_profile ''2024-02-29'' ''2023-12-31''))"
  by (rule Compile_some [OF sample_sealed(1) sample_dates(1,2)] Compile_some [OF sample_sealed(2) sample_dates(3,4)], simp)+

definition sample_config :: gq_config where
  "sample_config = \<lparr>cf_ConnectionID = ''demo-ops-govquery'', cf_DatabaseIdentity = ''demo_ops'', cf_WorkspaceID = ''tko-operations'',
     cf_DSNValid = True, cf_TrustRoots = True,
     cf_Limits = \<lparr>lm_StatementTimeout = 10 * second_ns, lm_MaxRows = 500, lm_MaxResultBytes = 4194304, lm_MaxCostEstimate = 50000\<rparr>,
     cf_Presets = []\<rparr>"

definition sample_gq_env :: gq_env where
  "sample_gq_env = \<lparr>gq_sha256 = (\<lambda>s. s), gq_lower = map ascii_lower\<rparr>"

lemma sample_config_valid: "config_valid sample_gq_env sample_config"
proof -
  have "limits_valid (cf_Limits sample_config)"
    by (simp add: limits_valid_def sample_config_def second_ns_def)
  moreover have "gq_validOpaque (cf_ConnectionID sample_config) \<and> gq_validOpaque (cf_DatabaseIdentity sample_config)
     \<and> gq_validOpaque (cf_WorkspaceID sample_config)" by code_simp
  moreover have "cf_TrustRoots sample_config \<and> cf_DSNValid sample_config \<and> validatePresets sample_gq_env (cf_Presets sample_config)"
    by (simp add: sample_config_def validatePresets_def)
  ultimately show ?thesis unfolding config_valid_def by blast
qed

text \<open>C25. The SQL compiled from a sealed profile is the fixed template with one quoted name or one string
  literal in each place: its tokens are those of \<open>query_pieces\<close>, with the profile's names, zone and filter
  values and the two dates as they were given, and two sealed profiles with as many filters give the same
  token sequence up to the contents of the quotes. No content of a profile can open a quote, end one or add
  a token.\<close>

theorem compiled_sql_structure:
  assumes "sealed e p" "mc_Compile p a b = Some q" "sealed e' p'" "mc_Compile p' a' b' = Some q'"
    and "length (mp_Filters (pf_spec p)) = length (mp_Filters (pf_spec p'))"
  shows "sql_tokens (cq_SQL q) = concat (map piece_tokens (query_pieces (pf_spec p) a b))
     \<and> map erase (sql_tokens (cq_SQL q)) = map erase (sql_tokens (cq_SQL q'))"
proof -
  have tokens: "sql_tokens (cq_SQL r) = concat (map piece_tokens (query_pieces (pf_spec u) c d))"
    if "sealed f u" "mc_Compile u c d = Some r" for f u c d r
    unfolding mc_Compile_sealed(4) [OF that]
    by (intro assemble_tokens query_joints query_pieces_ok mc_Compile_sealed(1-3) [OF that])
  show ?thesis unfolding tokens [OF assms(1,2)] tokens [OF assms(3,4)] using query_shape [OF assms(5)] by blast
qed

theorem compiled_sql_structure_witness:
  "map erase (sql_tokens (cq_SQL (the (mc_Compile sample_profile ''2026-09-10'' ''2026-09-09''))))
   = map erase (sql_tokens (cq_SQL (the (mc_Compile other_profile ''2024-02-29'' ''2023-12-31''))))"
  by (rule conjunct2 [OF compiled_sql_structure [OF sample_sealed(1) sample_compiled(1) sample_sealed(2) sample_compiled(2) sample_filter_counts]])

text \<open>C26. Everything \<open>Compile\<close> produces from a sealed profile is accepted by the executor: it fits the bound on
  a SQL text and passes the static check, in particular no name, zone, filter value or date can form a
  forbidden word, a comment or a second statement; with a valid configuration \<open>Execute\<close> does not reject it
  statically and, when the connection is made, opens the read-only transaction.\<close>

theorem compiled_sql_accepted:
  assumes "sealed e p" "mc_Compile p a b = Some q" "lowers_ascii g" "config_valid g c" "revision \<ge> 1"
  shows "length (cq_SQL q) \<le> 8192 \<and> staticPrecheck g (cq_SQL q)
     \<and> (case Execute g c revision (cq_SQL q) db of (r, att, sent) \<Rightarrow>
          at_SQLHash att = sha256Hex g (cq_SQL q) \<and> at_Outcome att \<noteq> Some OutcomeRejectedStatic
          \<and> (if db_dial db then hd sent = ''BEGIN READ ONLY'' else sent = []))"
proof -
  obtain t u where ends: "cq_SQL q = ''WITH '' @ t" "cq_SQL q = u @ ''DESC''" using compiled_ends [OF assms(1,2)] by blast
  have check: "staticPrecheck g (cq_SQL q)" by (rule quiet_accepted [OF compiled_quiet [OF assms(1,2)] assms(3) ends])
  have len: "length (cq_SQL q) \<le> 8192" "length (cq_SQL q) \<noteq> 0" using compiled_length [OF assms(1,2)] ends(1) by simp_all
  show ?thesis
    using check len assms(4,5)
    by (auto simp: Execute_def execute_session_def run_outcome_def Let_def split: option.splits sum.splits prod.splits)
qed

theorem compiled_sql_accepted_witness:
  "staticPrecheck sample_gq_env (cq_SQL (the (mc_Compile sample_profile ''2026-09-10'' ''2026-09-09'')))"
proof -
  have "lowers_ascii sample_gq_env" by (simp add: lowers_ascii_def sample_gq_env_def)
  with compiled_sql_accepted [OF sample_sealed(1) sample_compiled(1) _ sample_config_valid, where revision = 1] show ?thesis by simp
qed

end
