(* ===== verification/Metric_Evidence.thy ===== *)
theory Metric_Evidence
  imports Metric_Result Compiled_Query
begin

text \<open>
  The comparison is exact: the two values and their difference denote the numbers of the table, the percentage
  is within half a hundredth, the order of the rows does not matter (\<open>comparison_exact\<close>). The evidence digest
  exists for a comparison that was read from a table exactly if its three decimals are within the bound that
  was checked on the table's decimals only (\<open>evidence_of_parsed\<close>).
\<close>

section \<open>Values of a comparison\<close>

lemma scaled_up: "x * 10 ^ m \<in> \<int> \<Longrightarrow> m \<le> n \<Longrightarrow> x * 10 ^ n \<in> \<int>" for x :: rat
proof -
  assume x: "x * 10 ^ m \<in> \<int>" and mn: "m \<le> n"
  have "x * 10 ^ n = (x * 10 ^ m) * 10 ^ (n - m)" using mn by (simp add: power_add [symmetric])
  also have "\<dots> \<in> \<int>" by (intro Ints_mult x Ints_power Ints_numeral)
  finally show ?thesis .
qed

lemma day_value: "row_day e zone row = Some (d, r, scale) \<Longrightarrow> text_value (dv_Value d) = r \<and> decimalText (dv_Value d) \<and> dv_Value d \<noteq> []"
proof -
  assume "row_day e zone row = Some (d, r, scale)"
  from row_day_spec [OF this] obtain amount where "r = text_value amount" "scale = text_scale amount" "dv_Value d = compactDecimal r scale" by blast
  with compact_exact [OF text_value_scaled [of amount]] compact_spec show ?thesis by simp
qed

lemma compare_values:
  assumes "row_day e zone u = Some (d1, r1, s1)" "row_day e zone v = Some (d2, r2, s2)" "c = compare_days p (d1, r1, s1) (d2, r2, s2)"
  shows "text_value (dv_Value (co_First c)) = r1" "text_value (dv_Value (co_Second c)) = r2" "text_value (co_Delta c) = r1 - r2"
    "decimalText (co_Delta c)" "co_Delta c \<noteq> []" "co_PercentChange c = fst (percent r1 r2)"
proof -
  let ?s = "if s2 > s1 then s2 else s1"
  have c: "co_First c = d1" "co_Second c = d2" "co_Delta c = compactDecimal (r1 - r2) ?s" "co_PercentChange c = fst (percent r1 r2)"
    using assms(3) by (simp_all add: compare_days_def)
  have i: "r1 * 10 ^ s1 \<in> \<int>" "r2 * 10 ^ s2 \<in> \<int>"
    using row_day_spec [OF assms(1)] row_day_spec [OF assms(2)] text_value_scaled by auto
  have "r1 * 10 ^ ?s \<in> \<int>" "r2 * 10 ^ ?s \<in> \<int>" using scaled_up [OF i(1)] scaled_up [OF i(2)] by (simp_all del: if_split add: if_splits)
  then have "(r1 - r2) * 10 ^ ?s \<in> \<int>" by (simp add: left_diff_distrib)
  then show "text_value (co_Delta c) = r1 - r2" unfolding c(3) by (rule compact_exact)
  show "text_value (dv_Value (co_First c)) = r1" "text_value (dv_Value (co_Second c)) = r2"
    using day_value assms(1,2) by (simp_all add: c)
  show "decimalText (co_Delta c)" "co_Delta c \<noteq> []" "co_PercentChange c = fst (percent r1 r2)"
    by (simp_all add: c compact_spec)
qed

text \<open>C29. A comparison that \<open>ParseResult\<close> accepts is exact and does not depend on the order of the rows: each of
  the two rows belongs to one of the requested dates, the printed values denote the numbers of those rows, the
  printed difference denotes exactly their difference, and the printed percentage is within half of its last
  place of the true one and empty when the second value is zero.\<close>

theorem comparison_exact:
  assumes "ParseResult e result a b p = Some c"
  shows "ParseResult e (result\<lparr>tr_Rows := rev (tr_Rows result)\<rparr>) a b p = Some c
    \<and> (\<exists>u v x y. tr_Rows result \<in> {[u, v], [v, u]} \<and> u ! 0 = Some a \<and> v ! 0 = Some b \<and> u ! 5 = Some x \<and> v ! 5 = Some y
      \<and> text_value (dv_Value (co_First c)) = text_value x \<and> text_value (dv_Value (co_Second c)) = text_value y
      \<and> text_value (co_Delta c) = text_value x - text_value y
      \<and> (if text_value y = 0 then co_PercentChange c = []
         else \<bar>text_value (co_PercentChange c) - (text_value x - text_value y) / text_value y * 100\<bar> \<le> 1 / 200))"
proof (intro conjI)
  show "ParseResult e (result\<lparr>tr_Rows := rev (tr_Rows result)\<rparr>) a b p = Some c" by (rule ParseResult_rev [OF assms])
  from ParseResult_days [OF assms] obtain u v d1 r1 s1 d2 r2 s2 where
    rows: "tr_Rows result \<in> {[u, v], [v, u]}" and days: "row_day e (mp_Timezone (pf_spec p)) u = Some (d1, r1, s1)"
      "row_day e (mp_Timezone (pf_spec p)) v = Some (d2, r2, s2)" "dv_Date d1 = a" "dv_Date d2 = b"
    and c: "c = compare_days p (d1, r1, s1) (d2, r2, s2)" by blast
  from row_day_spec [OF days(1)] days(3) obtain x where x: "u ! 0 = Some a" "u ! 5 = Some x" "r1 = text_value x" by auto
  from row_day_spec [OF days(2)] days(4) obtain y where y: "v ! 0 = Some b" "v ! 5 = Some y" "r2 = text_value y" by auto
  have change: "if r2 = 0 then co_PercentChange c = [] else \<bar>text_value (co_PercentChange c) - (r1 - r2) / r2 * 100\<bar> \<le> 1 / 200"
    unfolding compare_values(6) [OF days(1,2) c] using percent_spec(2) [of r2 r1] percent_spec(3) [of r2 r1] by simp
  show "\<exists>u v x y. tr_Rows result \<in> {[u, v], [v, u]} \<and> u ! 0 = Some a \<and> v ! 0 = Some b \<and> u ! 5 = Some x \<and> v ! 5 = Some y
      \<and> text_value (dv_Value (co_First c)) = text_value x \<and> text_value (dv_Value (co_Second c)) = text_value y
      \<and> text_value (co_Delta c) = text_value x - text_value y
      \<and> (if text_value y = 0 then co_PercentChange c = []
         else \<bar>text_value (co_PercentChange c) - (text_value x - text_value y) / text_value y * 100\<bar> \<le> 1 / 200)"
    using rows x y change [unfolded x(3) y(3)] compare_values(1-3) [OF days(1,2) c] by (rule_tac x = u in exI, rule_tac x = v in exI, rule_tac x = x in exI, rule_tac x = y in exI) simp
qed

section \<open>Samples\<close>

definition sample_row :: "gostring \<Rightarrow> gostring \<Rightarrow> gostring option list" where
  "sample_row date amount = [Some date, Some (date @ ''T06:00:00Z''), Some ''3'', Some ''3'', Some ''3'', Some amount]"

definition sample_table :: "gostring \<Rightarrow> gostring \<Rightarrow> table_result" where
  "sample_table x y = \<lparr>tr_Columns = expected_columns, tr_Rows = [sample_row ''2026-09-09'' y, sample_row ''2026-09-10'' x], tr_RowCount = 2\<rparr>"

definition sample_day :: "gostring \<Rightarrow> gostring \<Rightarrow> daily_value \<times> rat \<times> nat" where
  "sample_day date amount = (\<lparr>dv_Date = date, dv_SnapshotAt = date @ ''T06:00:00Z'', dv_ContributingRows = 3, dv_DistinctSubjects = 3,
     dv_NonNullCount = 3, dv_Value = compactDecimal (text_value amount) (text_scale amount)\<rparr>, text_value amount, text_scale amount)"

lemma sealed_zone: "sealed e p \<Longrightarrow> tz_Load e (mp_Timezone (pf_spec p))"
  by (auto simp: sealed_def NewProfile_def Let_def split: if_splits)

lemma sample_snapshot:
  assumes "date = ''2026-09-09'' \<or> date = ''2026-09-10''" "tz_Load sample_metric_env zone"
  shows "parseSnapshot sample_metric_env (date @ ''T06:00:00Z'') date zone = Some (date @ ''T06:00:00Z'')"
  using assms by (auto simp: parseSnapshot_def snapshot_layouts_def) (simp_all add: sample_metric_env_def)

lemma sample_row_day:
  assumes "date = ''2026-09-09'' \<or> date = ''2026-09-10''" "tz_Load sample_metric_env zone"
    and a: "decimalText amount" "length amount \<le> 128" "amount \<noteq> []"
  shows "row_day sample_metric_env zone (sample_row date amount) = Some (sample_day date amount)"
proof -
  have "parse_count ''3'' = Some 3" by code_simp
  with a sample_snapshot [OF assms(1,2)] show ?thesis by (simp add: row_day_def sample_row_def sample_day_def parseDecimal_def)
qed

lemma sample_parsed:
  assumes "decimalText x" "length x \<le> 128" "x \<noteq> []" "decimalText y" "length y \<le> 128" "y \<noteq> []"
  shows "ParseResult sample_metric_env (sample_table x y) ''2026-09-10'' ''2026-09-09'' sample_profile
    = Some (compare_days sample_profile (sample_day ''2026-09-10'' x) (sample_day ''2026-09-09'' y))"
proof -
  have hash: "pf_hash sample_profile \<noteq> []"
    using sample_compiled(1) by (auto simp: mc_Compile_def split: if_splits)
  have dates: "(''2026-09-09'' :: gostring) \<noteq> ''2026-09-10''" by simp
  let ?zone = "mp_Timezone (pf_spec sample_profile)"
  note zone = sealed_zone [OF sample_sealed(1)]
  have "days_loop sample_metric_env ?zone ''2026-09-10'' ''2026-09-09'' Map.empty [sample_row ''2026-09-09'' y, sample_row ''2026-09-10'' x]
    = Some [''2026-09-09'' \<mapsto> sample_day ''2026-09-09'' y, ''2026-09-10'' \<mapsto> sample_day ''2026-09-10'' x]"
    unfolding days_two using assms dates by (auto simp: sample_row_day zone sample_day_def)
  then show ?thesis using hash sample_dates dates
    by (simp add: ParseResult_def sample_table_def expected_columns_def del: days_loop.simps)
qed

theorem comparison_exact_witness:
  "ParseResult sample_metric_env (sample_table ''12.50'' ''-0.4'') ''2026-09-10'' ''2026-09-09'' sample_profile
   = ParseResult sample_metric_env (sample_table ''12.50'' ''-0.4''\<lparr>tr_Rows := rev (tr_Rows (sample_table ''12.50'' ''-0.4''))\<rparr>)
       ''2026-09-10'' ''2026-09-09'' sample_profile"
proof -
  have "decimalText ''12.50'' \<and> decimalText ''-0.4''" by code_simp
  then have c: "ParseResult sample_metric_env (sample_table ''12.50'' ''-0.4'') ''2026-09-10'' ''2026-09-09'' sample_profile
    = Some (compare_days sample_profile (sample_day ''2026-09-10'' ''12.50'') (sample_day ''2026-09-09'' ''-0.4''))"
    by (intro sample_parsed) simp_all
  from comparison_exact [OF c] c show ?thesis by simp
qed

section \<open>Evidence\<close>

text \<open>What the surroundings promise: a digest of 32 bytes, a printed moment that is not empty and is UTF-8.\<close>

definition good_env :: "metric_env \<Rightarrow> bool" where
  "good_env e \<longleftrightarrow> (\<forall>s. length (me_sha256 e s) = 32) \<and> (\<forall>t. me_rfc3339 e t \<noteq> [] \<and> valid_utf8 (me_rfc3339 e t))"

lemma snapshot_printed: "parseSnapshot e x d z = Some m \<Longrightarrow> \<exists>t. m = me_rfc3339 e t"
proof -
  have "snapshot_loop e x d z ls = Some m \<Longrightarrow> \<exists>t. m = me_rfc3339 e t" for ls
    by (induction ls) (auto split: option.splits if_splits)
  then show "parseSnapshot e x d z = Some m \<Longrightarrow> \<exists>t. m = me_rfc3339 e t" by (simp add: parseSnapshot_def)
qed

lemma digestPattern_hash: "length h = 32 \<Longrightarrow> digestPattern (''sha256:'' @ hex_encode h)"
  by (simp add: digestPattern_def hex_encode_is_hex)

lemma sealed_fields:
  assumes "sealed e p" "good_env e"
  shows "digestPattern (pf_hash p)" "mp_MetricID (pf_spec p) \<noteq> []" "valid_utf8 (mp_MetricID (pf_spec p))"
    "mp_Unit (pf_spec p) \<noteq> []" "valid_utf8 (mp_Unit (pf_spec p))"
proof -
  from assms(1) obtain spec where n: "NewProfile e spec = Some p" by (auto simp: sealed_def)
  then have id: "mc_metricID (mp_MetricID spec)" and u: "safeUnit (mp_Unit spec)"
    and p: "pf_spec p = spec\<lparr>mp_Filters := sort_key ff_Column (mp_Filters spec)\<rparr>"
    and h: "pf_hash p = ''sha256:'' @ hex_encode (me_sha256 e (marshal_spec (pf_spec p)))"
    by (auto simp: NewProfile_def Let_def split: if_splits)
  show "digestPattern (pf_hash p)" unfolding h using assms(2) by (intro digestPattern_hash) (simp add: good_env_def)
  show "mp_MetricID (pf_spec p) \<noteq> []" "mp_Unit (pf_spec p) \<noteq> []" "valid_utf8 (mp_Unit (pf_spec p))"
    using id u by (simp_all add: p mc_metricID_def safeUnit_def)
  have "\<not> high_bit c" if "is_lower c \<or> is_upper c \<or> is_digit c \<or> c \<in> set ''_.-''" for c
    using that by (auto simp: high_bit_iff is_lower_def is_upper_def is_digit_def)
  then have "list_all (\<lambda>c. \<not> high_bit c) (mp_MetricID spec)"
    using id by (cases "mp_MetricID spec") (auto simp: mc_metricID_def list_all_iff)
  then show "valid_utf8 (mp_MetricID (pf_spec p))" using utf8_all_ascii by (simp add: p)
qed

lemma parseDecimal_some: "decimalText s \<Longrightarrow> s \<noteq> [] \<Longrightarrow> parseDecimal s = (if length s \<le> 128 then Some (text_value s, text_scale s) else None)"
  by (simp add: parseDecimal_def)

text \<open>The bound of 128 bytes on a decimal is checked on the table's decimals, and again on the decimals that
  have been derived from them. So a comparison that \<open>ParseResult\<close> has accepted is refused an evidence digest
  exactly when a compact value or the difference is longer, and then it cannot be recorded at all.\<close>

theorem evidence_of_parsed:
  assumes "sealed e p" "good_env e" "ParseResult e result a b p = Some c" "revision \<ge> 1" "digestPattern raw"
  shows "EvidenceDigest e c revision raw \<noteq> None \<longleftrightarrow>
    length (dv_Value (co_First c)) \<le> 128 \<and> length (dv_Value (co_Second c)) \<le> 128 \<and> length (co_Delta c) \<le> 128"
proof -
  note f = sealed_fields [OF assms(1,2)]
  from assms(3) have dates: "validDate a" "validDate b" "a \<noteq> b" by (auto simp: ParseResult_def split: if_splits)
  from ParseResult_days [OF assms(3)] obtain u v d1 r1 s1 d2 r2 s2 where
    days: "row_day e (mp_Timezone (pf_spec p)) u = Some (d1, r1, s1)" "row_day e (mp_Timezone (pf_spec p)) v = Some (d2, r2, s2)"
    and d: "dv_Date d1 = a" "dv_Date d2 = b" and c: "c = compare_days p (d1, r1, s1) (d2, r2, s2)" by blast
  have co: "co_First c = d1" "co_Second c = d2" "co_MetricID c = mp_MetricID (pf_spec p)" "co_Unit c = mp_Unit (pf_spec p)"
    "co_Coverage c = ObservedSnapshot" "co_ProfileHash c = pf_hash p" by (simp_all add: c compare_days_def)
  note val = compare_values [OF days c]
  have counts: "counts_agree d1" "counts_agree d2" using row_day_spec [OF days(1)] row_day_spec [OF days(2)] by blast+
  have snaps: "dv_SnapshotAt d1 \<noteq> []" "valid_utf8 (dv_SnapshotAt d1)" "dv_SnapshotAt d2 \<noteq> []" "valid_utf8 (dv_SnapshotAt d2)"
    using row_day_spec [OF days(1)] row_day_spec [OF days(2)] snapshot_printed assms(2) unfolding good_env_def by metis+
  have v1: "parseDecimal (dv_Value d1) = (if length (dv_Value d1) \<le> 128 then Some (r1, text_scale (dv_Value d1)) else None)"
    and v2: "parseDecimal (dv_Value d2) = (if length (dv_Value d2) \<le> 128 then Some (r2, text_scale (dv_Value d2)) else None)"
    using parseDecimal_some day_value [OF days(1)] day_value [OF days(2)] by metis+
  have vd: "parseDecimal (co_Delta c) = (if length (co_Delta c) \<le> 128 then Some (r1 - r2, text_scale (co_Delta c)) else None)"
    using parseDecimal_some val(3-5) by metis
  obtain change has where ch: "percent r1 r2 = (change, has)" by (cases "percent r1 r2")
  then have pc: "co_PercentChange c = change" "\<not> has \<longrightarrow> change = []" using val(6) percent_spec(1,2) [of r1 r2] percent_spec(2) [of r2 r1] by auto
  show ?thesis unfolding EvidenceDigest_def co d v1 v2 vd ch
    using f dates counts snaps assms(4,5) pc by (cases has) (simp_all add: ch)
qed

lemma sample_good: "good_env sample_metric_env"
proof -
  have "valid_utf8 ''2026-09-09T06:00:00Z''" "valid_utf8 ''2026-09-10T06:00:00Z''" by code_simp+
  then show ?thesis by (simp add: good_env_def sample_metric_env_def)
qed

lemma digits_val_nines: "digits_val (replicate n CHR ''9'') + 1 = 10 ^ n"
proof (induction n)
  case (Suc n)
  have "replicate (Suc n) CHR ''9'' = replicate n CHR ''9'' @ [CHR ''9'']" by (simp add: replicate_append_same)
  then have "digits_val (replicate (Suc n) CHR ''9'') = digits_val (replicate n CHR ''9'') * 10 + 9"
    by (simp add: digits_val_snoc digit_val_def)
  with Suc show ?case by simp
qed simp

lemma compact_integer: "compactDecimal (of_nat n) 0 = nat_digits n"
proof -
  have "quotient_of (of_int (int n)) = (int n, 1)"
    by (simp add: Fract_of_int_eq [symmetric] quotient_of_Fract Rat.normalize_def)
  then have f: "FloatString (of_nat n) 0 = nat_digits n" by (simp add: FloatString_def itoa_def)
  obtain c t where "nat_digits n = c # t" "is_digit c" using nat_digits_hd by blast
  then have "nat_digits n \<noteq> ''-0''" using is_digit_not_sign by auto
  then show ?thesis using digits_no_dot [OF nat_digits_all_digits, of n] by (simp add: compactDecimal_def f Let_def)
qed

text \<open>The largest value of 128 digits, less minus one.\<close>

theorem evidence_of_parsed_witness:
  "\<exists>c. ParseResult sample_metric_env (sample_table (replicate 128 CHR ''9'') ''-1'') ''2026-09-10'' ''2026-09-09'' sample_profile = Some c
     \<and> EvidenceDigest sample_metric_env c 7 (''sha256:'' @ replicate 64 CHR ''0'') = None"
proof -
  let ?x = "replicate 128 CHR ''9''" and ?c = "compare_days sample_profile (sample_day ''2026-09-10'' (replicate 128 CHR ''9'')) (sample_day ''2026-09-09'' ''-1'')"
  have nodot: "CHR ''.'' \<notin> set ?x" "CHR ''.'' \<notin> set ''-1''" by simp_all
  have ux: "unsigned_text ?x = ?x" "unsigned_text ''-1'' = ''1''" "\<not> has_prefix ''-'' ?x" by (simp_all add: unsigned_text_def numeral_eq_Suc)
  have x: "decimalText ?x" "text_value ?x = of_nat (digits_val ?x)" "text_scale ?x = 0"
    unfolding decimalText_def text_value_def text_scale_def ux(1) cut_on_none [OF nodot(1)] using ux(3)
    by (simp_all add: list_all_iff is_digit_def)
  have y: "decimalText ''-1''" "text_value ''-1'' = -1" "text_scale ''-1'' = 0"
    unfolding decimalText_def text_value_def text_scale_def ux(2) cut_on_none [OF nodot(2)] cut_on_none [of "CHR ''.''" "''1''", simplified]
    by (simp_all add: is_digit_def digits_val_def digit_val_def)
  have c: "ParseResult sample_metric_env (sample_table ?x ''-1'') ''2026-09-10'' ''2026-09-09'' sample_profile = Some ?c"
    by (rule sample_parsed) (simp_all add: x y)
  have "text_value ?x - text_value ''-1'' = of_nat (digits_val ?x + 1)" unfolding x(2) y(2) by simp
  then have "co_Delta ?c = nat_digits (10 ^ 128)"
    unfolding compare_days_def sample_day_def x(3) y(3) using compact_integer [of "digits_val ?x + 1"] digits_val_nines [of 128] by simp
  moreover have "length (nat_digits (10 ^ 128)) > 128"
    using digits_val_bound [OF nat_digits_all_digits, of "10 ^ 128"] by (metis digits_val_nat_digits not_less power_increasing one_le_numeral le_less_trans less_irrefl)
  ultimately have long: "\<not> length (co_Delta ?c) \<le> 128" by simp
  have raw: "digestPattern (''sha256:'' @ replicate 64 CHR ''0'')" by (simp add: digestPattern_def list_all_iff is_hex_def)
  from evidence_of_parsed [OF sample_sealed(1) sample_good c _ raw, of 7] long
  have "EvidenceDigest sample_metric_env ?c 7 (''sha256:'' @ replicate 64 CHR ''0'') = None" by auto
  with c show ?thesis by blast
qed

end
