(* ===== verification/Dataset_Profile.thy ===== *)
theory Dataset_Profile
  imports Metric_Profile Canon_Text
begin

text \<open>
  The sealed dataset profile of \<open>internal/analytic\<close>: the files \<open>dataset_profile*.go\<close> up to the profile itself. A profile says
  which approved projection a question may read, with which fields, filters and measures; its hash is the name by which
  catalogs and intents pin it. Every error is the one code \<open>ANALYTIC_INVALID_REQUEST\<close>, so a constructor returns an option. A
  value and its read DTO have the same members and are one record; a bounded array with its count is the list of its filled
  part. SHA-256, NFC, \<open>strings.EqualFold\<close> and the zones of the embedded archive are arguments.
\<close>

record dataset_env =
  de_base :: metric_env
  de_nfc :: "gostring \<Rightarrow> gostring"
  de_fold :: "gostring \<Rightarrow> gostring \<Rightarrow> bool"

text \<open>\<open>canon.Hash\<close>\<close>

definition canon_Hash :: "dataset_env \<Rightarrow> gostring \<Rightarrow> gostring" where
  "canon_Hash e raw = ''sha256:'' @ hex_encode (me_sha256 (de_base e) raw)"

text \<open>\<open>canon.CanonicalJSON\<close>: \<open>jsonv2.Marshal\<close> refuses a text that is not UTF-8.\<close>

fun json_utf8 :: "json \<Rightarrow> bool" where
  "json_utf8 (JString s) = valid_utf8 s"
| "json_utf8 (JArray xs) = list_all json_utf8 xs"
| "json_utf8 (JObject ms) = list_all (\<lambda>m. json_utf8 (snd m)) ms"
| "json_utf8 v = True"

definition CanonicalJSON :: "json \<Rightarrow> gostring option" where
  "CanonicalJSON v = (if json_utf8 v then Some (jcs v) else None)"

section \<open>Identity\<close>

definition ExecutionMode_Valid :: "gostring \<Rightarrow> bool" where
  "ExecutionMode_Valid v \<longleftrightarrow> v = ''LIVE''"

definition RelationKind_Valid :: "gostring \<Rightarrow> bool" where
  "RelationKind_Valid v \<longleftrightarrow> v = ''VIEW'' \<or> v = ''MATERIALIZED_VIEW''"

definition validProfileIdentity :: "gostring \<Rightarrow> bool" where
  "validProfileIdentity v =
    (if \<not> valid_utf8 v \<or> length v = 0 \<or> length v > 256 \<or> trim_space v \<noteq> v then False
     else \<not> list_ex is_control (runes v))"

definition validProfileHash :: "gostring \<Rightarrow> bool" where
  "validProfileHash v =
    (if length v \<noteq> 71 \<or> \<not> has_prefix ''sha256:'' v then False else list_all is_hex (drop 7 v))"

text \<open>\<open>^[A-Za-z_][A-Za-z0-9_$]{0,62}$\<close> and \<open>^[A-Za-z_][A-Za-z0-9_]{0,127}$\<close>\<close>

definition name_byte :: "char \<Rightarrow> bool" where
  "name_byte c \<longleftrightarrow> is_upper c \<or> is_lower c \<or> c = CHR ''_''"

definition projectionIdentifierPattern :: "gostring \<Rightarrow> bool" where
  "projectionIdentifierPattern v \<longleftrightarrow> v \<noteq> [] \<and> length v \<le> 63 \<and> name_byte (hd v)
     \<and> list_all (\<lambda>c. name_byte c \<or> is_digit c \<or> c = CHR ''$'') (tl v)"

definition fieldTokenPattern :: "gostring \<Rightarrow> bool" where
  "fieldTokenPattern v \<longleftrightarrow> v \<noteq> [] \<and> length v \<le> 128 \<and> name_byte (hd v) \<and> list_all (\<lambda>c. name_byte c \<or> is_digit c) (tl v)"

datatype profile_key = ProfileKey (pk_datasetID: gostring) (pk_version: int)

definition ProfileKey_Valid :: "profile_key \<Rightarrow> bool" where
  "ProfileKey_Valid k \<longleftrightarrow> validProfileIdentity (pk_datasetID k) \<and> pk_version k > 0"

definition NewProfileKey :: "gostring \<Rightarrow> int \<Rightarrow> profile_key option" where
  "NewProfileKey datasetID version =
    (let k = ProfileKey datasetID version in if \<not> ProfileKey_Valid k then None else Some k)"

text \<open>\<open>profileKeyLess\<close> is the order of keys.\<close>

definition profileKeyLess :: "profile_key \<Rightarrow> profile_key \<Rightarrow> bool" where
  "profileKeyLess l r \<longleftrightarrow> pk_datasetID l < pk_datasetID r \<or> pk_datasetID l = pk_datasetID r \<and> pk_version l < pk_version r"

instantiation profile_key :: linorder
begin

definition less_profile_key :: "profile_key \<Rightarrow> profile_key \<Rightarrow> bool" where
  "less_profile_key l r \<longleftrightarrow> profileKeyLess l r"

definition less_eq_profile_key :: "profile_key \<Rightarrow> profile_key \<Rightarrow> bool" where
  "less_eq_profile_key l r \<longleftrightarrow> profileKeyLess l r \<or> l = r"

instance
proof
  fix x y z :: profile_key
  show "x < y \<longleftrightarrow> x \<le> y \<and> \<not> y \<le> x"
    by (auto simp: less_profile_key_def less_eq_profile_key_def profileKeyLess_def)
  show "x \<le> x" by (simp add: less_eq_profile_key_def)
  show "x \<le> z" if "x \<le> y" "y \<le> z"
    using that by (auto simp: less_eq_profile_key_def profileKeyLess_def)
  show "x = y" if "x \<le> y" "y \<le> x"
    using that by (auto simp: less_eq_profile_key_def profileKeyLess_def)
  show "x \<le> y \<or> y \<le> x"
    by (cases x; cases y) (auto simp: less_eq_profile_key_def profileKeyLess_def)
qed

end

record source_projection =
  sp_SourceScopeID :: gostring
  sp_ConnectionID :: gostring
  sp_DatabaseIdentity :: gostring
  sp_ProjectionLineageID :: gostring
  sp_ProjectionRevision :: int
  sp_ProjectionContractHash :: gostring
  sp_ExposedSchemaRevision :: int
  sp_ExposedSchemaHash :: gostring
  sp_SchemaName :: gostring
  sp_RelationName :: gostring
  sp_RelationKind :: gostring

definition SourceProjection_Valid :: "source_projection \<Rightarrow> bool" where
  "SourceProjection_Valid v \<longleftrightarrow> validProfileIdentity (sp_SourceScopeID v) \<and> validProfileIdentity (sp_ConnectionID v)
     \<and> validProfileIdentity (sp_DatabaseIdentity v) \<and> validProfileIdentity (sp_ProjectionLineageID v)
     \<and> sp_ProjectionRevision v > 0 \<and> validProfileHash (sp_ProjectionContractHash v)
     \<and> sp_ExposedSchemaRevision v > 0 \<and> validProfileHash (sp_ExposedSchemaHash v)
     \<and> projectionIdentifierPattern (sp_SchemaName v) \<and> projectionIdentifierPattern (sp_RelationName v)
     \<and> RelationKind_Valid (sp_RelationKind v)"

definition NewSourceProjectionSpec :: "source_projection \<Rightarrow> source_projection option" where
  "NewSourceProjectionSpec v = (if \<not> SourceProjection_Valid v then None else Some v)"

section \<open>Fields\<close>

definition ScalarType_Valid :: "gostring \<Rightarrow> bool" where
  "ScalarType_Valid v \<longleftrightarrow> v \<in> set [''BOOL'', ''INT'', ''NUMERIC'', ''TEXT'', ''DATE'', ''TIMESTAMP'', ''TIMESTAMPTZ'']"

definition PhysicalType_Valid :: "gostring \<Rightarrow> bool" where
  "PhysicalType_Valid v \<longleftrightarrow> v \<in> set [''PG_BOOL'', ''PG_INT8'', ''PG_NUMERIC'', ''PG_TEXT'', ''PG_VARCHAR'', ''PG_DATE'',
     ''PG_TIMESTAMP'', ''PG_TIMESTAMPTZ'']"

definition canonicalPredicateOperators :: "gostring list" where
  "canonicalPredicateOperators = [''EQ'', ''IN'', ''GTE'', ''LTE'', ''IS_NULL'']"

definition PredicateOperator_Valid :: "gostring \<Rightarrow> bool" where
  "PredicateOperator_Valid v \<longleftrightarrow> v \<in> set canonicalPredicateOperators"

definition predicateOperatorRank :: "gostring \<Rightarrow> nat" where
  "predicateOperatorRank v = length (takeWhile (\<lambda>c. v \<noteq> c) canonicalPredicateOperators)"

record field_spec =
  fs_Token :: gostring
  fs_SourceOrdinal :: int
  fs_PhysicalName :: gostring
  fs_LogicalType :: gostring
  fs_PhysicalType :: gostring
  fs_Nullable :: bool
  fs_Filterable :: bool
  fs_Groupable :: bool
  fs_Sortable :: bool
  fs_OutputAllowed :: bool
  fs_AllowedOps :: "gostring list"
  fs_AllowedValues :: "gostring list"

definition maxFieldAllowedValues :: nat where "maxFieldAllowedValues = 16"

definition compatibleFieldTypes :: "gostring \<Rightarrow> gostring \<Rightarrow> bool" where
  "compatibleFieldTypes logical physical =
    (if logical = ''TEXT'' then physical = ''PG_TEXT'' \<or> physical = ''PG_VARCHAR''
     else (case map_of [(''BOOL'', ''PG_BOOL''), (''INT'', ''PG_INT8''), (''NUMERIC'', ''PG_NUMERIC''), (''DATE'', ''PG_DATE''),
             (''TIMESTAMP'', ''PG_TIMESTAMP''), (''TIMESTAMPTZ'', ''PG_TIMESTAMPTZ'')] logical of
             None \<Rightarrow> physical = [] | Some p \<Rightarrow> p = physical))"

definition fieldOperatorAllowed :: "gostring \<Rightarrow> bool \<Rightarrow> gostring \<Rightarrow> bool" where
  "fieldOperatorAllowed kind nullable operator =
    (if operator = ''EQ'' \<or> operator = ''IN'' then True
     else if operator = ''IS_NULL'' then nullable
     else (operator = ''GTE'' \<or> operator = ''LTE'') \<and> kind \<noteq> ''BOOL'' \<and> kind \<noteq> ''TEXT'')"

definition validFieldAllowedValue :: "dataset_env \<Rightarrow> gostring \<Rightarrow> bool" where
  "validFieldAllowedValue e v =
    (if v = [] \<or> length v > 256 \<or> \<not> valid_utf8 v \<or> trim_space v \<noteq> v \<or> contains_any v [CHR 0x0D, CHR 0x0A, CHR 0x00] then False
     else Canonicalize (de_nfc e) v = Inr v)"

definition grants :: "field_spec \<Rightarrow> gostring \<Rightarrow> bool" where
  "grants v operator \<longleftrightarrow> operator \<in> set (fs_AllowedOps v)"

definition FieldSpec_Valid :: "dataset_env \<Rightarrow> field_spec \<Rightarrow> bool" where
  "FieldSpec_Valid e v =
    (if \<not> fieldTokenPattern (fs_Token v) \<or> fs_SourceOrdinal v \<le> 0 \<or> \<not> projectionIdentifierPattern (fs_PhysicalName v)
        \<or> \<not> ScalarType_Valid (fs_LogicalType v) \<or> \<not> PhysicalType_Valid (fs_PhysicalType v)
        \<or> \<not> compatibleFieldTypes (fs_LogicalType v) (fs_PhysicalType v)
        \<or> length (fs_AllowedOps v) > length canonicalPredicateOperators \<or> fs_Filterable v \<noteq> (length (fs_AllowedOps v) > 0)
        \<or> length (fs_AllowedValues v) > maxFieldAllowedValues then False
     else if \<not> list_all (\<lambda>op. PredicateOperator_Valid op \<and> fieldOperatorAllowed (fs_LogicalType v) (fs_Nullable v) op) (fs_AllowedOps v)
        \<or> \<not> sorted_wrt (<) (map predicateOperatorRank (fs_AllowedOps v)) then False
     else if length (fs_AllowedValues v) > 0 \<and> (\<not> fs_Filterable v \<or> fs_LogicalType v \<noteq> ''TEXT'' \<or> \<not> grants v ''EQ'') then False
     else list_all (validFieldAllowedValue e) (fs_AllowedValues v) \<and> sorted_wrt (<) (fs_AllowedValues v))"

text \<open>The loop over the sorted values: a value that is not valid or repeats the one before it ends the construction.\<close>

fun allowed_values_loop :: "dataset_env \<Rightarrow> gostring option \<Rightarrow> gostring list \<Rightarrow> bool" where
  "allowed_values_loop e before [] = True"
| "allowed_values_loop e before (v # vs) =
    (if \<not> validFieldAllowedValue e v \<or> before = Some v then False else allowed_values_loop e (Some v) vs)"

definition NewFieldSpec :: "dataset_env \<Rightarrow> field_spec \<Rightarrow> field_spec option" where
  "NewFieldSpec e input =
    (if length (fs_AllowedOps input) > length canonicalPredicateOperators
        \<or> length (fs_AllowedValues input) > maxFieldAllowedValues then None
     else (let granted = concat (map (\<lambda>c. filter (\<lambda>r. r = c) (fs_AllowedOps input)) canonicalPredicateOperators);
               allowedValues = sort (fs_AllowedValues input) in
       if \<not> allowed_values_loop e None allowedValues then None
       else (let v = input\<lparr>fs_AllowedOps := granted, fs_AllowedValues := allowedValues\<rparr> in
             if length (fs_AllowedOps input) \<noteq> length granted \<or> \<not> FieldSpec_Valid e v then None else Some v)))"

section \<open>Measures\<close>

record measure_spec =
  ms_ID :: gostring
  ms_Reducer :: gostring
  ms_DistinctField :: gostring
  ms_NumeratorField :: gostring
  ms_DenominatorField :: gostring
  ms_Unit :: gostring
  ms_NullPolicy :: gostring
  ms_Eligibility :: gostring

definition Reducer_Valid :: "gostring \<Rightarrow> bool" where
  "Reducer_Valid v \<longleftrightarrow> v \<in> set [''COUNT_ROWS'', ''COUNT_DISTINCT'', ''SUM'', ''RATIO_OF_SUMS'']"

definition NullPolicy_Valid :: "gostring \<Rightarrow> bool" where
  "NullPolicy_Valid v \<longleftrightarrow> v \<in> set [''NOT_APPLICABLE'', ''EXCLUDE_AND_REPORT'', ''REQUIRE_COMPLETE'']"

definition Eligibility_Valid :: "gostring \<Rightarrow> bool" where
  "Eligibility_Valid v \<longleftrightarrow> v = ''ALL_ROWS''"

definition validOptionalMeasureField :: "gostring \<Rightarrow> bool" where
  "validOptionalMeasureField v \<longleftrightarrow> v = [] \<or> fieldTokenPattern v"

definition measureOperandNullPolicy :: "gostring \<Rightarrow> bool" where
  "measureOperandNullPolicy v \<longleftrightarrow> v = ''EXCLUDE_AND_REPORT'' \<or> v = ''REQUIRE_COMPLETE''"

definition validMeasureUnit :: "gostring \<Rightarrow> bool" where
  "validMeasureUnit v =
    (if \<not> valid_utf8 v \<or> length v = 0 \<or> length v > 64 \<or> trim_space v \<noteq> v then False else \<not> list_ex is_control (runes v))"

definition MeasureSpec_Valid :: "measure_spec \<Rightarrow> bool" where
  "MeasureSpec_Valid v =
    (if \<not> validProfileIdentity (ms_ID v) \<or> \<not> validMeasureUnit (ms_Unit v) \<or> \<not> Reducer_Valid (ms_Reducer v)
        \<or> \<not> NullPolicy_Valid (ms_NullPolicy v) \<or> \<not> Eligibility_Valid (ms_Eligibility v) then False
     else if \<not> validOptionalMeasureField (ms_DistinctField v) \<or> \<not> validOptionalMeasureField (ms_NumeratorField v)
        \<or> \<not> validOptionalMeasureField (ms_DenominatorField v) then False
     else if ms_Reducer v = ''COUNT_ROWS''
     then ms_DistinctField v = [] \<and> ms_NumeratorField v = [] \<and> ms_DenominatorField v = [] \<and> ms_NullPolicy v = ''NOT_APPLICABLE''
     else if ms_Reducer v = ''COUNT_DISTINCT''
     then ms_DistinctField v \<noteq> [] \<and> ms_NumeratorField v = [] \<and> ms_DenominatorField v = [] \<and> measureOperandNullPolicy (ms_NullPolicy v)
     else if ms_Reducer v = ''SUM''
     then ms_DistinctField v = [] \<and> ms_NumeratorField v \<noteq> [] \<and> ms_DenominatorField v = [] \<and> measureOperandNullPolicy (ms_NullPolicy v)
     else if ms_Reducer v = ''RATIO_OF_SUMS''
     then ms_DistinctField v = [] \<and> ms_NumeratorField v \<noteq> [] \<and> ms_DenominatorField v \<noteq> [] \<and> measureOperandNullPolicy (ms_NullPolicy v)
     else False)"

definition NewMeasureSpec :: "measure_spec \<Rightarrow> measure_spec option" where
  "NewMeasureSpec v = (if \<not> MeasureSpec_Valid v then None else Some v)"

section \<open>Semantics\<close>

definition validSemanticsString :: "gostring \<Rightarrow> nat \<Rightarrow> bool" where
  "validSemanticsString v limit =
    (if length v = 0 \<or> length v > limit then False
     else if \<not> valid_utf8 v then False
     else if trim_space v \<noteq> v then False
     else \<not> list_ex is_control (runes v))"

definition validSemanticsToken :: "gostring \<Rightarrow> bool" where
  "validSemanticsToken v \<longleftrightarrow> length v \<le> 256 \<and> fieldTokenPattern v"

fun aliases_loop :: "dataset_env \<Rightarrow> gostring \<Rightarrow> gostring list \<Rightarrow> gostring list \<Rightarrow> bool" where
  "aliases_loop e label seen [] = True"
| "aliases_loop e label seen (a # as) =
    (if \<not> validSemanticsString a 160 then False
     else if de_fold e a label then False
     else if list_ex (\<lambda>b. de_fold e b a) seen then False
     else aliases_loop e label (seen @ [a]) as)"

definition validSemanticsAliases :: "dataset_env \<Rightarrow> gostring list \<Rightarrow> gostring \<Rightarrow> bool" where
  "validSemanticsAliases e aliases label = (if length aliases > 8 then False else aliases_loop e label [] aliases)"

record field_semantics =
  fm_Token :: gostring
  fm_Label :: gostring
  fm_Description :: gostring
  fm_NullMeaning :: gostring
  fm_Aliases :: "gostring list"

record measure_semantics =
  mm_ID :: gostring
  mm_Label :: gostring
  mm_Description :: gostring
  mm_Aliases :: "gostring list"

record profile_semantics =
  sm_DatasetLabel :: gostring
  sm_DatasetDescription :: gostring
  sm_Fields :: "field_semantics list"
  sm_Measures :: "measure_semantics list"

definition storedSemanticsField :: "dataset_env \<Rightarrow> field_semantics \<Rightarrow> bool" where
  "storedSemanticsField e f \<longleftrightarrow> validSemanticsToken (fm_Token f) \<and> validSemanticsString (fm_Label f) 160
     \<and> validSemanticsString (fm_Description f) 1024 \<and> validSemanticsString (fm_NullMeaning f) 1024
     \<and> validSemanticsAliases e (fm_Aliases f) (fm_Label f)"

definition storedSemanticsMeasure :: "dataset_env \<Rightarrow> measure_semantics \<Rightarrow> bool" where
  "storedSemanticsMeasure e m \<longleftrightarrow> validProfileIdentity (mm_ID m) \<and> validSemanticsString (mm_Label m) 160
     \<and> validSemanticsString (mm_Description m) 1024 \<and> validSemanticsAliases e (mm_Aliases m) (mm_Label m)"

definition semantics_bounds :: "profile_semantics \<Rightarrow> bool" where
  "semantics_bounds v \<longleftrightarrow> \<not> (length (sm_Fields v) < 1 \<or> length (sm_Fields v) > 256) \<and> \<not> (length (sm_Measures v) < 1 \<or> length (sm_Measures v) > 128)
     \<and> validSemanticsString (sm_DatasetLabel v) 160 \<and> validSemanticsString (sm_DatasetDescription v) 1024"

definition NewProfileSemantics :: "dataset_env \<Rightarrow> profile_semantics \<Rightarrow> profile_semantics option" where
  "NewProfileSemantics e input =
    (if \<not> semantics_bounds input then None
     else if \<not> list_all (storedSemanticsField e) (sm_Fields input) then None
     else (let fields = sort_key fm_Token (sm_Fields input) in
       if \<not> distinct_adj (map fm_Token fields) then None
       else if \<not> list_all (storedSemanticsMeasure e) (sm_Measures input) then None
       else (let measures = sort_key mm_ID (sm_Measures input) in
         if \<not> distinct_adj (map mm_ID measures) then None
         else Some (input\<lparr>sm_Fields := fields, sm_Measures := measures\<rparr>))))"

definition ProfileSemantics_Valid :: "dataset_env \<Rightarrow> profile_semantics \<Rightarrow> bool" where
  "ProfileSemantics_Valid e v \<longleftrightarrow> semantics_bounds v
     \<and> list_all (storedSemanticsField e) (sm_Fields v) \<and> sorted_wrt (<) (map fm_Token (sm_Fields v))
     \<and> list_all (storedSemanticsMeasure e) (sm_Measures v) \<and> sorted_wrt (<) (map mm_ID (sm_Measures v))"

section \<open>Grain, time and limits\<close>

record dataset_grain =
  gr_Description :: gostring
  gr_KeyFields :: "gostring list"
  gr_DuplicatePolicy :: gostring

definition DuplicatePolicy_Valid :: "gostring \<Rightarrow> bool" where
  "DuplicatePolicy_Valid v \<longleftrightarrow> v = ''REJECT''"

definition validGrainFieldToken :: "gostring \<Rightarrow> bool" where
  "validGrainFieldToken v \<longleftrightarrow> length v \<le> 128 \<and> fieldTokenPattern v"

definition DatasetGrain_Valid :: "dataset_grain \<Rightarrow> bool" where
  "DatasetGrain_Valid v =
    (if \<not> validSemanticsString (gr_Description v) 1024 \<or> \<not> DuplicatePolicy_Valid (gr_DuplicatePolicy v) then False
     else if length (gr_KeyFields v) < 1 \<or> length (gr_KeyFields v) > 8 then False
     else list_all validGrainFieldToken (gr_KeyFields v) \<and> sorted_wrt (<) (gr_KeyFields v))"

definition NewDatasetGrain :: "dataset_grain \<Rightarrow> dataset_grain option" where
  "NewDatasetGrain input =
    (let v = input\<lparr>gr_KeyFields := sort (gr_KeyFields input)\<rparr> in if \<not> DatasetGrain_Valid v then None else Some v)"

definition CoveragePolicy_Valid :: "gostring \<Rightarrow> bool" where
  "CoveragePolicy_Valid v \<longleftrightarrow> v = ''UNKNOWN'' \<or> v = ''SOURCE_GUARANTEED''"

definition TimeKind_Valid :: "gostring \<Rightarrow> bool" where
  "TimeKind_Valid v \<longleftrightarrow> v \<in> set [''NONE'', ''BUSINESS_DATE'', ''LOCAL_TIMESTAMP'', ''ZONED_TIMESTAMP'']"

definition Calendar_Valid :: "gostring \<Rightarrow> bool" where
  "Calendar_Valid v \<longleftrightarrow> v = ''GREGORIAN''"

record time_policy =
  tp_Kind :: gostring
  tp_FieldToken :: gostring
  tp_ReportingTimezone :: gostring
  tp_SourceTimezone :: gostring
  tp_Calendar :: gostring
  tp_constructed :: bool

definition validProfileTimezone :: "dataset_env \<Rightarrow> gostring \<Rightarrow> bool" where
  "validProfileTimezone e v =
    (if v = [] \<or> length v > 64 \<or> \<not> valid_utf8 v \<or> trim_space v \<noteq> v \<or> list_ex is_control (runes v) then False
     else tz_Load (de_base e) v)"

definition TimePolicy_Valid :: "dataset_env \<Rightarrow> time_policy \<Rightarrow> bool" where
  "TimePolicy_Valid e v =
    (if \<not> tp_constructed v \<or> \<not> TimeKind_Valid (tp_Kind v) then False
     else if tp_Kind v = ''NONE''
     then tp_FieldToken v = [] \<and> tp_ReportingTimezone v = [] \<and> tp_SourceTimezone v = [] \<and> tp_Calendar v = []
     else if \<not> fieldTokenPattern (tp_FieldToken v) \<or> \<not> validProfileTimezone e (tp_ReportingTimezone v)
        \<or> \<not> Calendar_Valid (tp_Calendar v) then False
     else if tp_Kind v = ''BUSINESS_DATE'' \<or> tp_Kind v = ''ZONED_TIMESTAMP'' then tp_SourceTimezone v = []
     else if tp_Kind v = ''LOCAL_TIMESTAMP'' then validProfileTimezone e (tp_SourceTimezone v)
     else False)"

definition NewTimePolicy :: "dataset_env \<Rightarrow> time_policy \<Rightarrow> time_policy option" where
  "NewTimePolicy e input =
    (let v = input\<lparr>tp_constructed := True\<rparr> in if \<not> TimePolicy_Valid e v then None else Some v)"

record profile_limits =
  pl_MaxInputRows :: int
  pl_MaxOutputGroups :: int
  pl_MaxPeriodDays :: int
  pl_MaxResultBytes :: int
  pl_StatementTimeoutMS :: int

definition ProfileLimits_Valid :: "profile_limits \<Rightarrow> bool" where
  "ProfileLimits_Valid v \<longleftrightarrow> pl_MaxInputRows v \<ge> 1 \<and> pl_MaxInputRows v \<le> 100000
     \<and> pl_MaxOutputGroups v \<ge> 1 \<and> pl_MaxOutputGroups v \<le> 100 \<and> pl_MaxPeriodDays v \<ge> 1 \<and> pl_MaxPeriodDays v \<le> 31
     \<and> pl_MaxResultBytes v \<ge> 1 \<and> pl_MaxResultBytes v \<le> 67108864
     \<and> pl_StatementTimeoutMS v \<ge> 1000 \<and> pl_StatementTimeoutMS v \<le> 300000"

definition NewProfileLimits :: "profile_limits \<Rightarrow> profile_limits option" where
  "NewProfileLimits v = (if \<not> ProfileLimits_Valid v then None else Some v)"

section \<open>The specification\<close>

record dataset_spec =
  ds_Key :: profile_key
  ds_Mode :: gostring
  ds_Source :: source_projection
  ds_Fields :: "field_spec list"
  ds_Measures :: "measure_spec list"
  ds_Semantics :: profile_semantics
  ds_Grain :: dataset_grain
  ds_Time :: time_policy
  ds_Coverage :: gostring
  ds_Limits :: profile_limits

definition numericOperand :: "(gostring \<rightharpoonup> gostring) \<Rightarrow> gostring \<Rightarrow> bool" where
  "numericOperand kinds token = (case kinds token of None \<Rightarrow> False | Some kind \<Rightarrow> kind = ''INT'' \<or> kind = ''NUMERIC'')"

definition measureOperandsValid :: "measure_spec \<Rightarrow> (gostring \<rightharpoonup> gostring) \<Rightarrow> bool" where
  "measureOperandsValid m kinds =
    (if ms_Reducer m = ''COUNT_ROWS'' then True
     else if ms_Reducer m = ''COUNT_DISTINCT'' then kinds (ms_DistinctField m) \<noteq> None
     else if ms_Reducer m = ''SUM'' then numericOperand kinds (ms_NumeratorField m)
     else if ms_Reducer m = ''RATIO_OF_SUMS''
     then numericOperand kinds (ms_NumeratorField m) \<and> numericOperand kinds (ms_DenominatorField m)
     else False)"

definition timeFieldValid :: "time_policy \<Rightarrow> (gostring \<rightharpoonup> gostring) \<Rightarrow> bool" where
  "timeFieldValid policy kinds =
    (if tp_Kind policy = ''NONE'' then True
     else case kinds (tp_FieldToken policy) of None \<Rightarrow> False
     | Some kind \<Rightarrow>
       if tp_Kind policy = ''BUSINESS_DATE'' then kind = ''DATE''
       else if tp_Kind policy = ''LOCAL_TIMESTAMP'' then kind = ''TIMESTAMP''
       else if tp_Kind policy = ''ZONED_TIMESTAMP'' then kind = ''TIMESTAMPTZ''
       else False)"

text \<open>The loop over the sorted fields: the maps \<open>fieldByToken\<close> and \<open>fieldNullability\<close>, the physical names and
  \<open>hasOutput\<close>; \<open>n\<close> is the ordinal the next field must have.\<close>

fun fields_pass :: "dataset_env \<Rightarrow> int \<Rightarrow> (gostring \<times> gostring) list \<Rightarrow> (gostring \<times> bool) list \<Rightarrow> gostring list \<Rightarrow> bool \<Rightarrow> field_spec list
    \<Rightarrow> ((gostring \<times> gostring) list \<times> (gostring \<times> bool) list \<times> bool) option" where
  "fields_pass e n types nulls names hasOutput [] = Some (types, nulls, hasOutput)"
| "fields_pass e n types nulls names hasOutput (f # fs) =
    (if \<not> FieldSpec_Valid e f then None
     else if fs_SourceOrdinal f \<noteq> n then None
     else if map_of types (fs_Token f) \<noteq> None then None
     else if fs_PhysicalName f \<in> set names then None
     else fields_pass e (n + 1) ((fs_Token f, fs_LogicalType f) # types) ((fs_Token f, fs_Nullable f) # nulls)
            (fs_PhysicalName f # names) (hasOutput \<or> fs_OutputAllowed f) fs)"

fun measures_pass :: "(gostring \<rightharpoonup> gostring) \<Rightarrow> gostring option \<Rightarrow> measure_spec list \<Rightarrow> bool" where
  "measures_pass kinds before [] = True"
| "measures_pass kinds before (m # ms) =
    (if \<not> MeasureSpec_Valid m then False
     else if before = Some (ms_ID m) then False
     else if \<not> measureOperandsValid m kinds then False
     else measures_pass kinds (Some (ms_ID m)) ms)"

definition normalizeDatasetProfileSpec :: "dataset_env \<Rightarrow> dataset_spec \<Rightarrow> dataset_spec option" where
  "normalizeDatasetProfileSpec e s =
    (if \<not> ProfileKey_Valid (ds_Key s) \<or> \<not> ExecutionMode_Valid (ds_Mode s) \<or> \<not> SourceProjection_Valid (ds_Source s)
        \<or> \<not> ProfileSemantics_Valid e (ds_Semantics s) \<or> \<not> DatasetGrain_Valid (ds_Grain s) \<or> \<not> TimePolicy_Valid e (ds_Time s)
        \<or> \<not> CoveragePolicy_Valid (ds_Coverage s) \<or> \<not> ProfileLimits_Valid (ds_Limits s)
        \<or> length (ds_Fields s) = 0 \<or> length (ds_Measures s) = 0 then None
     else (let sorted_fields = sort_key fs_SourceOrdinal (ds_Fields s); measures = sort_key ms_ID (ds_Measures s);
               semanticTokens = map fm_Token (sm_Fields (ds_Semantics s)); semanticIDs = map mm_ID (sm_Measures (ds_Semantics s)) in
       case fields_pass e 1 [] [] [] False sorted_fields of None \<Rightarrow> None
       | Some (types, nulls, hasOutput) \<Rightarrow>
         if \<not> hasOutput then None
         else if \<not> measures_pass (map_of types) None measures then None
         else if length (remdups semanticTokens) \<noteq> length types \<or> \<not> list_all (\<lambda>t. fst t \<in> set semanticTokens) types then None
         else if length (remdups semanticIDs) \<noteq> length measures \<or> \<not> list_all (\<lambda>m. ms_ID m \<in> set semanticIDs) measures then None
         else if \<not> list_all (\<lambda>k. map_of nulls k = Some False) (gr_KeyFields (ds_Grain s)) then None
         else if \<not> timeFieldValid (ds_Time s) (map_of types) then None
         else Some (s\<lparr>ds_Fields := sorted_fields, ds_Measures := measures\<rparr>)))"

section \<open>The canonical projection\<close>

definition tz_BundleSHA256 :: gostring where
  "tz_BundleSHA256 = ''sha256:8f55634d05f8bca1f7bc7c69c5933428c69357e0bdf565e5ba224e3f88ff12e8''"

abbreviation (input) json_texts :: "gostring list \<Rightarrow> json" where
  "json_texts vs \<equiv> JArray (map JString vs)"

text \<open>The members in the order of RFC 8785; \<open>omitempty\<close> drops an empty list of allowed values.\<close>

definition canonical_field :: "field_spec \<Rightarrow> json" where
  "canonical_field f = JObject ([(''allowed_ops'', json_texts (fs_AllowedOps f))]
     @ (if fs_AllowedValues f = [] then [] else [(''allowed_values'', json_texts (fs_AllowedValues f))])
     @ [(''filterable'', JBool (fs_Filterable f)), (''groupable'', JBool (fs_Groupable f)), (''logical_type'', JString (fs_LogicalType f)),
        (''nullable'', JBool (fs_Nullable f)), (''output_allowed'', JBool (fs_OutputAllowed f)),
        (''physical_name'', JString (fs_PhysicalName f)), (''physical_type'', JString (fs_PhysicalType f)),
        (''sortable'', JBool (fs_Sortable f)), (''source_ordinal'', JInt (fs_SourceOrdinal f)), (''token'', JString (fs_Token f))])"

definition canonical_measure :: "measure_spec \<Rightarrow> json" where
  "canonical_measure m = JObject
     [(''denominator_field'', JString (ms_DenominatorField m)), (''distinct_field'', JString (ms_DistinctField m)),
      (''eligibility'', JString (ms_Eligibility m)), (''id'', JString (ms_ID m)), (''null_policy'', JString (ms_NullPolicy m)),
      (''numerator_field'', JString (ms_NumeratorField m)), (''reducer'', JString (ms_Reducer m)), (''unit'', JString (ms_Unit m))]"

definition canonical_field_semantics :: "field_semantics \<Rightarrow> json" where
  "canonical_field_semantics f = JObject
     [(''aliases'', json_texts (fm_Aliases f)), (''description'', JString (fm_Description f)), (''label'', JString (fm_Label f)),
      (''null_meaning'', JString (fm_NullMeaning f)), (''token'', JString (fm_Token f))]"

definition canonical_measure_semantics :: "measure_semantics \<Rightarrow> json" where
  "canonical_measure_semantics m = JObject
     [(''aliases'', json_texts (mm_Aliases m)), (''description'', JString (mm_Description m)), (''id'', JString (mm_ID m)),
      (''label'', JString (mm_Label m))]"

definition canonicalProfileSemanticsValue :: "profile_semantics \<Rightarrow> json" where
  "canonicalProfileSemanticsValue v = JObject
     [(''dataset_description'', JString (sm_DatasetDescription v)), (''dataset_label'', JString (sm_DatasetLabel v)),
      (''fields'', JArray (map canonical_field_semantics (sm_Fields v))),
      (''measures'', JArray (map canonical_measure_semantics (sm_Measures v)))]"

definition canonicalProfileGrainValue :: "dataset_grain \<Rightarrow> json" where
  "canonicalProfileGrainValue v = JObject
     [(''description'', JString (gr_Description v)), (''duplicate_policy'', JString (gr_DuplicatePolicy v)),
      (''key_fields'', json_texts (gr_KeyFields v))]"

definition canonical_key :: "profile_key \<Rightarrow> json" where
  "canonical_key k = JObject [(''dataset_id'', JString (pk_datasetID k)), (''version'', JInt (pk_version k))]"

definition canonical_limits :: "profile_limits \<Rightarrow> json" where
  "canonical_limits v = JObject
     [(''max_input_rows'', JInt (pl_MaxInputRows v)), (''max_output_groups'', JInt (pl_MaxOutputGroups v)),
      (''max_period_days'', JInt (pl_MaxPeriodDays v)), (''max_result_bytes'', JInt (pl_MaxResultBytes v)),
      (''statement_timeout_ms'', JInt (pl_StatementTimeoutMS v))]"

definition canonical_source :: "source_projection \<Rightarrow> json" where
  "canonical_source v = JObject
     [(''connection_id'', JString (sp_ConnectionID v)), (''database_identity'', JString (sp_DatabaseIdentity v)),
      (''exposed_schema_hash'', JString (sp_ExposedSchemaHash v)), (''exposed_schema_revision'', JInt (sp_ExposedSchemaRevision v)),
      (''projection_contract_hash'', JString (sp_ProjectionContractHash v)), (''projection_lineage_id'', JString (sp_ProjectionLineageID v)),
      (''projection_revision'', JInt (sp_ProjectionRevision v)), (''relation_kind'', JString (sp_RelationKind v)),
      (''relation_name'', JString (sp_RelationName v)), (''schema_name'', JString (sp_SchemaName v)),
      (''source_scope_id'', JString (sp_SourceScopeID v))]"

definition canonical_time :: "time_policy \<Rightarrow> json" where
  "canonical_time v = JObject
     [(''calendar'', JString (tp_Calendar v)), (''field_token'', JString (tp_FieldToken v)), (''kind'', JString (tp_Kind v)),
      (''reporting_timezone'', JString (tp_ReportingTimezone v)), (''source_timezone'', JString (tp_SourceTimezone v)),
      (''timezone_rules_bundle_sha256'', JString tz_BundleSHA256)]"

definition datasetProfileSchemaVersion :: gostring where
  "datasetProfileSchemaVersion = ''knowvault-dataset-profile-v2''"

definition profile_json :: "dataset_spec \<Rightarrow> json" where
  "profile_json s = JObject
     [(''coverage'', JString (ds_Coverage s)), (''fields'', JArray (map canonical_field (ds_Fields s))),
      (''grain'', canonicalProfileGrainValue (ds_Grain s)), (''key'', canonical_key (ds_Key s)),
      (''limits'', canonical_limits (ds_Limits s)), (''measures'', JArray (map canonical_measure (ds_Measures s))),
      (''mode'', JString (ds_Mode s)), (''schema_version'', JString datasetProfileSchemaVersion),
      (''semantics'', canonicalProfileSemanticsValue (ds_Semantics s)), (''source'', canonical_source (ds_Source s)),
      (''time'', canonical_time (ds_Time s))]"

definition canonicalDatasetProfile :: "dataset_env \<Rightarrow> dataset_spec \<Rightarrow> (gostring \<times> gostring) option" where
  "canonicalDatasetProfile e s =
    (case CanonicalJSON (profile_json s) of None \<Rightarrow> None | Some raw \<Rightarrow> Some (raw, canon_Hash e raw))"

section \<open>The sealed profile\<close>

text \<open>\<open>DatasetProfile\<close>: the members of a specification and the hash; \<open>Spec\<close> forgets the hash.\<close>

record dataset_profile =
  dp_Spec :: dataset_spec
  dp_Hash :: gostring

definition NewDatasetProfile :: "dataset_env \<Rightarrow> dataset_spec \<Rightarrow> dataset_profile option" where
  "NewDatasetProfile e s =
    (case normalizeDatasetProfileSpec e s of None \<Rightarrow> None
     | Some n \<Rightarrow> (case canonicalDatasetProfile e n of None \<Rightarrow> None
       | Some (_, hash) \<Rightarrow> Some \<lparr>dp_Spec = n, dp_Hash = hash\<rparr>))"

definition dp_matches :: "dataset_env \<Rightarrow> dataset_spec \<Rightarrow> dataset_spec \<Rightarrow> bool" where
  "dp_matches e v n \<longleftrightarrow> \<not> (ds_Key v \<noteq> ds_Key n \<or> ds_Mode v \<noteq> ds_Mode n \<or> ds_Source v \<noteq> ds_Source n \<or> ds_Time v \<noteq> ds_Time n
       \<or> ds_Coverage v \<noteq> ds_Coverage n \<or> ds_Limits v \<noteq> ds_Limits n
       \<or> \<not> ProfileSemantics_Valid e (ds_Semantics v) \<or> \<not> ProfileSemantics_Valid e (ds_Semantics n)
       \<or> \<not> DatasetGrain_Valid (ds_Grain v) \<or> \<not> DatasetGrain_Valid (ds_Grain n)
       \<or> length (ds_Fields v) \<noteq> length (ds_Fields n) \<or> length (ds_Measures v) \<noteq> length (ds_Measures n))
     \<and> list_all2 (=) (ds_Fields v) (ds_Fields n) \<and> list_all2 (=) (ds_Measures v) (ds_Measures n)"

definition DatasetProfile_Valid :: "dataset_env \<Rightarrow> dataset_profile \<Rightarrow> bool" where
  "DatasetProfile_Valid e v =
    (if \<not> validProfileHash (dp_Hash v) then False
     else case normalizeDatasetProfileSpec e (dp_Spec v) of None \<Rightarrow> False
     | Some n \<Rightarrow>
       if \<not> dp_matches e (dp_Spec v) n then False
       else (case canonicalDatasetProfile e n of None \<Rightarrow> False | Some (_, hash) \<Rightarrow> hash = dp_Hash v))"

abbreviation (input) dp_Key :: "dataset_profile \<Rightarrow> profile_key" where
  "dp_Key p \<equiv> ds_Key (dp_Spec p)"

definition dp_Field :: "dataset_profile \<Rightarrow> gostring \<Rightarrow> field_spec option" where
  "dp_Field p token = List.find (\<lambda>f. fs_Token f = token) (ds_Fields (dp_Spec p))"

definition dp_Measure :: "dataset_profile \<Rightarrow> gostring \<Rightarrow> measure_spec option" where
  "dp_Measure p k = List.find (\<lambda>m. ms_ID m = k) (ds_Measures (dp_Spec p))"

section \<open>The registry\<close>

text \<open>\<open>sort.Search\<close>\<close>

function search_loop :: "(nat \<Rightarrow> bool) \<Rightarrow> nat \<Rightarrow> nat \<Rightarrow> nat" where
  "search_loop f i j =
    (if i < j then (let h = (i + j) div 2 in if \<not> f h then search_loop f (h + 1) j else search_loop f i h) else i)"
  by pat_completeness auto
termination
  by (relation "measure (\<lambda>(f, i, j). j - i)") auto

declare search_loop.simps [simp del]

definition sort_Search :: "nat \<Rightarrow> (nat \<Rightarrow> bool) \<Rightarrow> nat" where
  "sort_Search n f = search_loop f 0 n"

definition NewDatasetProfileRegistry :: "dataset_env \<Rightarrow> dataset_profile list \<Rightarrow> dataset_profile list option" where
  "NewDatasetProfileRegistry e profiles =
    (if length profiles = 0 \<or> \<not> list_all (DatasetProfile_Valid e) profiles then None
     else (let values = sort_key dp_Key profiles in if \<not> distinct_adj (map dp_Key values) then None else Some values))"

definition registry_Valid :: "dataset_env \<Rightarrow> dataset_profile list \<Rightarrow> bool" where
  "registry_Valid e r \<longleftrightarrow> length r \<noteq> 0 \<and> list_all (DatasetProfile_Valid e) r \<and> sorted_wrt profileKeyLess (map dp_Key r)"

definition registry_Lookup :: "dataset_env \<Rightarrow> dataset_profile list \<Rightarrow> profile_key \<Rightarrow> dataset_profile option" where
  "registry_Lookup e r k =
    (if \<not> ProfileKey_Valid k \<or> \<not> registry_Valid e r then None
     else (let index = sort_Search (length r) (\<lambda>i. \<not> profileKeyLess (dp_Key (r ! i)) k) in
           if index = length r then None
           else if dp_Key (r ! index) \<noteq> k then None
           else Some (r ! index)))"

definition registry_LookupVersion :: "dataset_env \<Rightarrow> dataset_profile list \<Rightarrow> gostring \<Rightarrow> int \<Rightarrow> dataset_profile option" where
  "registry_LookupVersion e r datasetID version =
    (case NewProfileKey datasetID version of None \<Rightarrow> None | Some k \<Rightarrow> registry_Lookup e r k)"

end
