(* ===== verification/Dataset_Catalog.thy ===== *)
theory Dataset_Catalog
  imports Dataset_Profile "HOL-Library.Monad_Syntax"
begin

text \<open>
  The catalog of dataset profiles, \<open>internal/analytic/dataset_profile_catalog*.go\<close>: an immutable snapshot that says which
  sealed profiles are active, the check of a transition between adjacent snapshots, and the strict readers of the mounted
  documents. The JSON decoder is an argument: a wire record has an option for every pointer of the decoded struct.
\<close>

section \<open>The snapshot\<close>

definition ProfileState_Valid :: "gostring \<Rightarrow> bool" where
  "ProfileState_Valid v \<longleftrightarrow> v = ''ACTIVE'' \<or> v = ''RETIRED''"

record catalog_entry =
  ce_Profile :: dataset_profile
  ce_State :: gostring

abbreviation (input) ce_Key :: "catalog_entry \<Rightarrow> profile_key" where
  "ce_Key x \<equiv> dp_Key (ce_Profile x)"

record catalog_body =
  cb_id :: gostring
  cb_revision :: int
  cb_entries :: "catalog_entry list"

record dataset_catalog =
  dc_body :: catalog_body
  dc_hash :: gostring

definition datasetProfileCatalogMaxEntries :: nat where "datasetProfileCatalogMaxEntries = 64"

definition normalizeDatasetProfileCatalog :: "dataset_env \<Rightarrow> catalog_body \<Rightarrow> catalog_body option" where
  "normalizeDatasetProfileCatalog e b =
    (if \<not> validProfileIdentity (cb_id b) \<or> cb_revision b \<le> 0 \<or> length (cb_entries b) < 1
        \<or> length (cb_entries b) > datasetProfileCatalogMaxEntries then None
     else if \<not> list_all (\<lambda>x. DatasetProfile_Valid e (ce_Profile x) \<and> ProfileState_Valid (ce_State x)) (cb_entries b) then None
     else (let values = sort_key ce_Key (cb_entries b) in
           if \<not> distinct_adj (map ce_Key values) then None else Some (b\<lparr>cb_entries := values\<rparr>)))"

definition datasetProfileCatalogSchemaVersion :: gostring where
  "datasetProfileCatalogSchemaVersion = ''knowvault-dataset-profile-catalog-v1''"

definition canonical_entry :: "catalog_entry \<Rightarrow> json" where
  "canonical_entry x = JObject
     [(''key'', canonical_key (ce_Key x)), (''profile_hash'', JString (dp_Hash (ce_Profile x))), (''state'', JString (ce_State x))]"

definition catalog_json :: "catalog_body \<Rightarrow> json" where
  "catalog_json b = JObject
     [(''catalog_id'', JString (cb_id b)), (''entries'', JArray (map canonical_entry (cb_entries b))),
      (''revision'', JInt (cb_revision b)), (''schema_version'', JString datasetProfileCatalogSchemaVersion)]"

definition canonicalDatasetProfileCatalog :: "dataset_env \<Rightarrow> catalog_body \<Rightarrow> (gostring \<times> gostring) option" where
  "canonicalDatasetProfileCatalog e b =
    (case CanonicalJSON (catalog_json b) of None \<Rightarrow> None | Some raw \<Rightarrow> Some (raw, canon_Hash e raw))"

definition NewDatasetProfileCatalog :: "dataset_env \<Rightarrow> gostring \<Rightarrow> int \<Rightarrow> catalog_entry list \<Rightarrow> dataset_catalog option" where
  "NewDatasetProfileCatalog e catalogID revision entries =
    (case normalizeDatasetProfileCatalog e \<lparr>cb_id = catalogID, cb_revision = revision, cb_entries = entries\<rparr> of None \<Rightarrow> None
     | Some n \<Rightarrow> (case canonicalDatasetProfileCatalog e n of None \<Rightarrow> None
       | Some (_, hash) \<Rightarrow> Some \<lparr>dc_body = n, dc_hash = hash\<rparr>))"

definition catalogEntriesEqual :: "catalog_entry list \<Rightarrow> catalog_entry list \<Rightarrow> bool" where
  "catalogEntriesEqual left right \<longleftrightarrow> length left = length right
     \<and> list_all2 (\<lambda>l r. \<not> (ce_State l \<noteq> ce_State r \<or> ce_Key l \<noteq> ce_Key r \<or> dp_Hash (ce_Profile l) \<noteq> dp_Hash (ce_Profile r))) left right"

definition DatasetProfileCatalog_Valid :: "dataset_env \<Rightarrow> dataset_catalog \<Rightarrow> bool" where
  "DatasetProfileCatalog_Valid e c =
    (if \<not> validProfileHash (dc_hash c) then False
     else case normalizeDatasetProfileCatalog e (dc_body c) of None \<Rightarrow> False
     | Some n \<Rightarrow>
       if \<not> catalogEntriesEqual (cb_entries (dc_body c)) (cb_entries n) then False
       else (case canonicalDatasetProfileCatalog e n of None \<Rightarrow> False | Some (_, hash) \<Rightarrow> hash = dc_hash c))"

definition dc_Entries :: "dataset_env \<Rightarrow> dataset_catalog \<Rightarrow> catalog_entry list" where
  "dc_Entries e c = (if \<not> DatasetProfileCatalog_Valid e c then [] else cb_entries (dc_body c))"

definition dc_Inspect :: "dataset_env \<Rightarrow> dataset_catalog \<Rightarrow> profile_key \<Rightarrow> catalog_entry option" where
  "dc_Inspect e c k =
    (if \<not> ProfileKey_Valid k \<or> \<not> DatasetProfileCatalog_Valid e c then None
     else (let entries = cb_entries (dc_body c);
               index = sort_Search (length entries) (\<lambda>i. \<not> profileKeyLess (ce_Key (entries ! i)) k) in
           if index = length entries then None
           else if ce_Key (entries ! index) \<noteq> k then None
           else Some (entries ! index)))"

definition ResolveActive :: "dataset_env \<Rightarrow> dataset_catalog \<Rightarrow> profile_key \<Rightarrow> gostring \<Rightarrow> dataset_profile option" where
  "ResolveActive e c k expected =
    (if \<not> ProfileKey_Valid k \<or> \<not> validProfileHash expected \<or> \<not> DatasetProfileCatalog_Valid e c then None
     else case dc_Inspect e c k of None \<Rightarrow> None
     | Some x \<Rightarrow>
       if ce_State x \<noteq> ''ACTIVE'' \<or> dp_Hash (ce_Profile x) \<noteq> expected \<or> \<not> DatasetProfile_Valid e (ce_Profile x) then None
       else Some (ce_Profile x))"

section \<open>Transitions\<close>

text \<open>The highest version of each dataset in the previous snapshot, \<open>previousMaxByDataset\<close>.\<close>

definition previous_max :: "catalog_entry list \<Rightarrow> gostring \<rightharpoonup> int" where
  "previous_max entries =
    foldl (\<lambda>m x. case m (pk_datasetID (ce_Key x)) of
         None \<Rightarrow> m(pk_datasetID (ce_Key x) \<mapsto> pk_version (ce_Key x))
       | Some v \<Rightarrow> if pk_version (ce_Key x) > v then m(pk_datasetID (ce_Key x) \<mapsto> pk_version (ce_Key x)) else m) Map.empty entries"

definition entries_by_key :: "catalog_entry list \<Rightarrow> profile_key \<rightharpoonup> catalog_entry" where
  "entries_by_key entries = foldl (\<lambda>m x. m(ce_Key x \<mapsto> x)) Map.empty entries"

text \<open>The two loops: what happens to the entries of the previous snapshot and which entries are new; each returns
  whether something changed, or refuses.\<close>

fun kept_loop :: "(profile_key \<rightharpoonup> catalog_entry) \<Rightarrow> bool \<Rightarrow> catalog_entry list \<Rightarrow> bool option" where
  "kept_loop later changed [] = Some changed"
| "kept_loop later changed (x # xs) =
    (case later (ce_Key x) of None \<Rightarrow> None
     | Some y \<Rightarrow>
       if dp_Hash (ce_Profile y) \<noteq> dp_Hash (ce_Profile x) then None
       else if ce_State x = ''RETIRED'' \<and> ce_State y = ''ACTIVE'' then None
       else kept_loop later (changed \<or> ce_State x = ''ACTIVE'' \<and> ce_State y = ''RETIRED'') xs)"

fun new_loop :: "(profile_key \<rightharpoonup> catalog_entry) \<Rightarrow> (gostring \<rightharpoonup> int) \<Rightarrow> bool \<Rightarrow> catalog_entry list \<Rightarrow> bool option" where
  "new_loop earlier highest changed [] = Some changed"
| "new_loop earlier highest changed (y # ys) =
    (if earlier (ce_Key y) \<noteq> None then new_loop earlier highest changed ys
     else if ce_State y \<noteq> ''ACTIVE'' then None
     else if (case highest (pk_datasetID (ce_Key y)) of None \<Rightarrow> False | Some v \<Rightarrow> pk_version (ce_Key y) \<le> v) then None
     else new_loop earlier highest True ys)"

definition transition_ok :: "dataset_env \<Rightarrow> dataset_catalog \<Rightarrow> dataset_catalog \<Rightarrow> bool" where
  "transition_ok e previous later =
    (if \<not> DatasetProfileCatalog_Valid e previous \<or> \<not> DatasetProfileCatalog_Valid e later
        \<or> cb_id (dc_body previous) \<noteq> cb_id (dc_body later) \<or> cb_revision (dc_body previous) = 9223372036854775807
        \<or> cb_revision (dc_body later) \<noteq> cb_revision (dc_body previous) + 1 then False
     else (let old = dc_Entries e previous; new = dc_Entries e later in
       case kept_loop (entries_by_key new) False old of None \<Rightarrow> False
       | Some changed \<Rightarrow>
         (case new_loop (entries_by_key old) (previous_max old) changed new of None \<Rightarrow> False | Some changed' \<Rightarrow> changed')))"

section \<open>The mounted documents\<close>

text \<open>A struct of pointers is a record of options; \<open>value\<close> needs every pointer and hands the members to the constructor.
  The members have one error, so the order of the checks does not show.\<close>

record wire_key =
  wk_DatasetID :: "gostring option"
  wk_Version :: "int option"

definition wire_key_value :: "wire_key \<Rightarrow> profile_key option" where
  "wire_key_value w = do { d \<leftarrow> wk_DatasetID w; v \<leftarrow> wk_Version w; NewProfileKey d v }"

record wire_source =
  ws_SourceScopeID :: "gostring option"
  ws_ConnectionID :: "gostring option"
  ws_DatabaseIdentity :: "gostring option"
  ws_ProjectionLineageID :: "gostring option"
  ws_ProjectionRevision :: "int option"
  ws_ProjectionContractHash :: "gostring option"
  ws_ExposedSchemaRevision :: "int option"
  ws_ExposedSchemaHash :: "gostring option"
  ws_SchemaName :: "gostring option"
  ws_RelationName :: "gostring option"
  ws_RelationKind :: "gostring option"

definition wire_source_value :: "wire_source \<Rightarrow> source_projection option" where
  "wire_source_value w = do {
     scope \<leftarrow> ws_SourceScopeID w; connection \<leftarrow> ws_ConnectionID w; database \<leftarrow> ws_DatabaseIdentity w;
     lineage \<leftarrow> ws_ProjectionLineageID w; revision \<leftarrow> ws_ProjectionRevision w; contract \<leftarrow> ws_ProjectionContractHash w;
     schemaRevision \<leftarrow> ws_ExposedSchemaRevision w; schemaHash \<leftarrow> ws_ExposedSchemaHash w; schema \<leftarrow> ws_SchemaName w;
     relation \<leftarrow> ws_RelationName w; kind \<leftarrow> ws_RelationKind w;
     if \<not> RelationKind_Valid kind then None
     else NewSourceProjectionSpec \<lparr>sp_SourceScopeID = scope, sp_ConnectionID = connection, sp_DatabaseIdentity = database,
       sp_ProjectionLineageID = lineage, sp_ProjectionRevision = revision, sp_ProjectionContractHash = contract,
       sp_ExposedSchemaRevision = schemaRevision, sp_ExposedSchemaHash = schemaHash, sp_SchemaName = schema,
       sp_RelationName = relation, sp_RelationKind = kind\<rparr> }"

record wire_field =
  wf_Token :: "gostring option"
  wf_SourceOrdinal :: "int option"
  wf_PhysicalName :: "gostring option"
  wf_LogicalType :: "gostring option"
  wf_PhysicalType :: "gostring option"
  wf_Nullable :: "bool option"
  wf_Filterable :: "bool option"
  wf_Groupable :: "bool option"
  wf_Sortable :: "bool option"
  wf_OutputAllowed :: "bool option"
  wf_AllowedOps :: "gostring list option"
  wf_AllowedValues :: "gostring list option"

definition cloneOptionalStrings :: "gostring list option \<Rightarrow> gostring list" where
  "cloneOptionalStrings v = (case v of None \<Rightarrow> [] | Some vs \<Rightarrow> vs)"

definition wire_field_value :: "dataset_env \<Rightarrow> wire_field \<Rightarrow> field_spec option" where
  "wire_field_value e w = do {
     token \<leftarrow> wf_Token w; ordinal \<leftarrow> wf_SourceOrdinal w; physical \<leftarrow> wf_PhysicalName w; logicalType \<leftarrow> wf_LogicalType w;
     physicalType \<leftarrow> wf_PhysicalType w; nullable \<leftarrow> wf_Nullable w; filterable \<leftarrow> wf_Filterable w; groupable \<leftarrow> wf_Groupable w;
     sortable \<leftarrow> wf_Sortable w; outputAllowed \<leftarrow> wf_OutputAllowed w; ops \<leftarrow> wf_AllowedOps w;
     if \<not> ScalarType_Valid logicalType \<or> \<not> PhysicalType_Valid physicalType then None
     else NewFieldSpec e \<lparr>fs_Token = token, fs_SourceOrdinal = ordinal, fs_PhysicalName = physical, fs_LogicalType = logicalType,
       fs_PhysicalType = physicalType, fs_Nullable = nullable, fs_Filterable = filterable, fs_Groupable = groupable,
       fs_Sortable = sortable, fs_OutputAllowed = outputAllowed, fs_AllowedOps = ops,
       fs_AllowedValues = cloneOptionalStrings (wf_AllowedValues w)\<rparr> }"

record wire_measure =
  wm_ID :: "gostring option"
  wm_Reducer :: "gostring option"
  wm_DistinctField :: "gostring option"
  wm_NumeratorField :: "gostring option"
  wm_DenominatorField :: "gostring option"
  wm_Unit :: "gostring option"
  wm_NullPolicy :: "gostring option"
  wm_Eligibility :: "gostring option"

definition wire_measure_value :: "wire_measure \<Rightarrow> measure_spec option" where
  "wire_measure_value w = do {
     mid \<leftarrow> wm_ID w; reducer \<leftarrow> wm_Reducer w; distinctField \<leftarrow> wm_DistinctField w; numerator \<leftarrow> wm_NumeratorField w;
     denominator \<leftarrow> wm_DenominatorField w; unit \<leftarrow> wm_Unit w; nullPolicy \<leftarrow> wm_NullPolicy w; eligibility \<leftarrow> wm_Eligibility w;
     if \<not> Reducer_Valid reducer \<or> \<not> NullPolicy_Valid nullPolicy \<or> \<not> Eligibility_Valid eligibility then None
     else NewMeasureSpec \<lparr>ms_ID = mid, ms_Reducer = reducer, ms_DistinctField = distinctField, ms_NumeratorField = numerator,
       ms_DenominatorField = denominator, ms_Unit = unit, ms_NullPolicy = nullPolicy, ms_Eligibility = eligibility\<rparr> }"

record wire_field_semantics =
  wx_Token :: "gostring option"
  wx_Label :: "gostring option"
  wx_Description :: "gostring option"
  wx_NullMeaning :: "gostring option"
  wx_Aliases :: "gostring list option"

record wire_measure_semantics =
  wy_ID :: "gostring option"
  wy_Label :: "gostring option"
  wy_Description :: "gostring option"
  wy_Aliases :: "gostring list option"

record wire_semantics =
  wz_DatasetLabel :: "gostring option"
  wz_DatasetDescription :: "gostring option"
  wz_Fields :: "wire_field_semantics list option"
  wz_Measures :: "wire_measure_semantics list option"

definition wire_semantics_value :: "dataset_env \<Rightarrow> wire_semantics \<Rightarrow> profile_semantics option" where
  "wire_semantics_value e w = do {
     label \<leftarrow> wz_DatasetLabel w; description \<leftarrow> wz_DatasetDescription w; fieldWires \<leftarrow> wz_Fields w; measureWires \<leftarrow> wz_Measures w;
     fieldInputs \<leftarrow> those (map (\<lambda>x. do {
        t \<leftarrow> wx_Token x; l \<leftarrow> wx_Label x; d \<leftarrow> wx_Description x; n \<leftarrow> wx_NullMeaning x; a \<leftarrow> wx_Aliases x;
        Some \<lparr>fm_Token = t, fm_Label = l, fm_Description = d, fm_NullMeaning = n, fm_Aliases = a\<rparr> }) fieldWires);
     measureInputs \<leftarrow> those (map (\<lambda>x. do {
        i \<leftarrow> wy_ID x; l \<leftarrow> wy_Label x; d \<leftarrow> wy_Description x; a \<leftarrow> wy_Aliases x;
        Some \<lparr>mm_ID = i, mm_Label = l, mm_Description = d, mm_Aliases = a\<rparr> }) measureWires);
     NewProfileSemantics e \<lparr>sm_DatasetLabel = label, sm_DatasetDescription = description, sm_Fields = fieldInputs, sm_Measures = measureInputs\<rparr> }"

record wire_grain =
  wg_Description :: "gostring option"
  wg_KeyFields :: "gostring list option"
  wg_DuplicatePolicy :: "gostring option"

definition wire_grain_value :: "wire_grain \<Rightarrow> dataset_grain option" where
  "wire_grain_value w = do {
     description \<leftarrow> wg_Description w; keyFields \<leftarrow> wg_KeyFields w; policy \<leftarrow> wg_DuplicatePolicy w;
     if \<not> DuplicatePolicy_Valid policy then None
     else NewDatasetGrain \<lparr>gr_Description = description, gr_KeyFields = keyFields, gr_DuplicatePolicy = policy\<rparr> }"

record wire_time =
  wt_Kind :: "gostring option"
  wt_FieldToken :: "gostring option"
  wt_ReportingTimezone :: "gostring option"
  wt_SourceTimezone :: "gostring option"
  wt_Calendar :: "gostring option"
  wt_TimezoneRulesBundleSHA256 :: "gostring option"

definition wire_time_value :: "dataset_env \<Rightarrow> wire_time \<Rightarrow> time_policy option" where
  "wire_time_value e w = do {
     kind \<leftarrow> wt_Kind w; token \<leftarrow> wt_FieldToken w; reporting \<leftarrow> wt_ReportingTimezone w; source \<leftarrow> wt_SourceTimezone w;
     calendar \<leftarrow> wt_Calendar w; bundle \<leftarrow> wt_TimezoneRulesBundleSHA256 w;
     if \<not> TimeKind_Valid kind \<or> bundle \<noteq> tz_BundleSHA256 then None
     else NewTimePolicy e \<lparr>tp_Kind = kind, tp_FieldToken = token, tp_ReportingTimezone = reporting, tp_SourceTimezone = source,
       tp_Calendar = calendar, tp_constructed = False\<rparr> }"

record wire_limits =
  wl_MaxInputRows :: "int option"
  wl_MaxOutputGroups :: "int option"
  wl_MaxPeriodDays :: "int option"
  wl_MaxResultBytes :: "int option"
  wl_StatementTimeoutMS :: "int option"

definition wire_limits_value :: "wire_limits \<Rightarrow> profile_limits option" where
  "wire_limits_value w = do {
     rows \<leftarrow> wl_MaxInputRows w; groups \<leftarrow> wl_MaxOutputGroups w; days \<leftarrow> wl_MaxPeriodDays w; bytes \<leftarrow> wl_MaxResultBytes w;
     timeout \<leftarrow> wl_StatementTimeoutMS w;
     NewProfileLimits \<lparr>pl_MaxInputRows = rows, pl_MaxOutputGroups = groups, pl_MaxPeriodDays = days, pl_MaxResultBytes = bytes,
       pl_StatementTimeoutMS = timeout\<rparr> }"

record wire_profile =
  wp_SchemaVersion :: "gostring option"
  wp_Key :: "wire_key option"
  wp_Mode :: "gostring option"
  wp_Source :: "wire_source option"
  wp_Fields :: "wire_field list option"
  wp_Measures :: "wire_measure list option"
  wp_Semantics :: "wire_semantics option"
  wp_Grain :: "wire_grain option"
  wp_Time :: "wire_time option"
  wp_Coverage :: "gostring option"
  wp_Limits :: "wire_limits option"

definition wire_profile_value :: "dataset_env \<Rightarrow> wire_profile \<Rightarrow> dataset_profile option" where
  "wire_profile_value e w = do {
     version \<leftarrow> wp_SchemaVersion w; keyWire \<leftarrow> wp_Key w; mode \<leftarrow> wp_Mode w; sourceWire \<leftarrow> wp_Source w; fieldWires \<leftarrow> wp_Fields w;
     measureWires \<leftarrow> wp_Measures w; semanticsWire \<leftarrow> wp_Semantics w; grainWire \<leftarrow> wp_Grain w; timeWire \<leftarrow> wp_Time w;
     coverage \<leftarrow> wp_Coverage w; limitsWire \<leftarrow> wp_Limits w;
     if version \<noteq> datasetProfileSchemaVersion \<or> \<not> ExecutionMode_Valid mode \<or> \<not> CoveragePolicy_Valid coverage then None
     else do {
       key \<leftarrow> wire_key_value keyWire; source \<leftarrow> wire_source_value sourceWire; specs \<leftarrow> those (map (wire_field_value e) fieldWires);
       measures \<leftarrow> those (map wire_measure_value measureWires); semantics \<leftarrow> wire_semantics_value e semanticsWire;
       grain \<leftarrow> wire_grain_value grainWire; time \<leftarrow> wire_time_value e timeWire; limits \<leftarrow> wire_limits_value limitsWire;
       NewDatasetProfile e \<lparr>ds_Key = key, ds_Mode = mode, ds_Source = source, ds_Fields = specs, ds_Measures = measures,
         ds_Semantics = semantics, ds_Grain = grain, ds_Time = time, ds_Coverage = coverage, ds_Limits = limits\<rparr> } }"

text \<open>\<open>DecodeDatasetProfileJSON\<close> and \<open>DecodeDatasetProfileCatalogJSON\<close>; \<open>decode\<close> is \<open>jsonv2.Unmarshal\<close> into the wire
  struct, which refuses unknown and repeated members.\<close>

definition DecodeDatasetProfileJSON :: "dataset_env \<Rightarrow> (gostring \<Rightarrow> wire_profile option) \<Rightarrow> gostring \<Rightarrow> dataset_profile option" where
  "DecodeDatasetProfileJSON e decode raw =
    (if length raw = 0 \<or> length raw > 262144 then None else decode raw \<bind> wire_profile_value e)"

record wire_entry =
  we_State :: "gostring option"
  we_Profile :: "wire_profile option"

record wire_catalog =
  wc_SchemaVersion :: "gostring option"
  wc_CatalogID :: "gostring option"
  wc_Revision :: "int option"
  wc_Entries :: "wire_entry list option"

definition wire_entry_value :: "dataset_env \<Rightarrow> wire_entry \<Rightarrow> catalog_entry option" where
  "wire_entry_value e w = do {
     state \<leftarrow> we_State w; profileWire \<leftarrow> we_Profile w;
     if \<not> ProfileState_Valid state then None
     else do { p \<leftarrow> wire_profile_value e profileWire; Some \<lparr>ce_Profile = p, ce_State = state\<rparr> } }"

definition wire_catalog_value :: "dataset_env \<Rightarrow> wire_catalog \<Rightarrow> dataset_catalog option" where
  "wire_catalog_value e w = do {
     version \<leftarrow> wc_SchemaVersion w; catalogID \<leftarrow> wc_CatalogID w; revision \<leftarrow> wc_Revision w; entryWires \<leftarrow> wc_Entries w;
     if version \<noteq> ''knowvault-dataset-profile-catalog-mount-v1'' then None
     else do { entries \<leftarrow> those (map (wire_entry_value e) entryWires); NewDatasetProfileCatalog e catalogID revision entries } }"

definition DecodeDatasetProfileCatalogJSON :: "dataset_env \<Rightarrow> (gostring \<Rightarrow> wire_catalog option) \<Rightarrow> gostring \<Rightarrow> dataset_catalog option" where
  "DecodeDatasetProfileCatalogJSON e decode raw =
    (if length raw = 0 \<or> length raw > 1048576 then None else decode raw \<bind> wire_catalog_value e)"

end
