(* ===== verification/Dataset_Seal.thy ===== *)
theory Dataset_Seal
  imports Dataset_Catalog
begin

text \<open>
  What the seal of a dataset profile is worth: a profile is valid exactly if sealing its specification gives it back, the
  order of the specification does not matter, and the hash determines the profile up to the rounding of integers beyond $2^{53}$.
\<close>

section \<open>Searching a sorted slice\<close>

lemma search_loop_spec:
  assumes "i \<le> j" "\<forall>a b. a \<le> b \<longrightarrow> b < j \<longrightarrow> f a \<longrightarrow> f b"
  shows "i \<le> search_loop f i j \<and> search_loop f i j \<le> j \<and> (\<forall>a. i \<le> a \<and> a < search_loop f i j \<longrightarrow> \<not> f a)
    \<and> (search_loop f i j < j \<longrightarrow> f (search_loop f i j))"
  using assms
proof (induction f i j rule: search_loop.induct)
  case (1 f i j)
  show ?case
  proof (cases "i < j")
    case False
    then have "search_loop f i j = i" by (simp add: search_loop.simps [of f i j])
    with False 1(3) show ?thesis by auto
  next
    case True
    let ?h = "(i + j) div 2"
    have h: "i \<le> ?h" "?h < j" using True by auto
    show ?thesis
    proof (cases "f ?h")
      case False
      then have none: "\<not> f a" if "a \<le> ?h" for a using that 1(4) h by blast
      let ?r = "search_loop f (?h + 1) j"
      from False True have eq: "search_loop f i j = ?r" by (simp add: search_loop.simps [of f i j] Let_def)
      have r: "?h + 1 \<le> ?r \<and> ?r \<le> j \<and> (\<forall>a. ?h + 1 \<le> a \<and> a < ?r \<longrightarrow> \<not> f a) \<and> (?r < j \<longrightarrow> f ?r)"
        by (rule 1(1) [OF True refl False]) (use h 1(4) in auto)
      have "\<not> f a" if "a < ?r" for a using r none [of a] that by (cases "a \<le> ?h") auto
      then show ?thesis unfolding eq using r h by auto
    next
      case f: True
      from f True have eq: "search_loop f i j = search_loop f i ?h" by (simp add: search_loop.simps [of f i j] Let_def)
      let ?r = "search_loop f i ?h"
      have nf: "\<not> \<not> f ?h" using f by simp
      have r: "i \<le> ?r \<and> ?r \<le> ?h \<and> (\<forall>a. i \<le> a \<and> a < ?r \<longrightarrow> \<not> f a) \<and> (?r < ?h \<longrightarrow> f ?r)"
        by (rule 1(2) [OF True refl nf]) (use h 1(4) less_trans in blast)+
      then have "f ?r" using f by (cases "?r = ?h") auto
      then show ?thesis unfolding eq using r h by auto
    qed
  qed
qed

lemma sort_Search_spec:
  assumes "\<And>a b. a \<le> b \<Longrightarrow> b < n \<Longrightarrow> f a \<Longrightarrow> f b"
  shows "sort_Search n f \<le> n" "a < sort_Search n f \<Longrightarrow> \<not> f a" "sort_Search n f < n \<Longrightarrow> f (sort_Search n f)"
  using search_loop_spec [of 0 n f] assms unfolding sort_Search_def by blast+

text \<open>The search for a key in a slice that is strictly sorted by it.\<close>

lemma search_key:
  fixes key :: "'a \<Rightarrow> 'k::linorder" and k :: 'k
  assumes sorted: "sorted_wrt (<) (map key xs)"
  defines "i \<equiv> sort_Search (length xs) (\<lambda>i. \<not> key (xs ! i) < k)"
  shows "(if i = length xs then None else if key (xs ! i) \<noteq> k then None else Some (xs ! i)) = List.find (\<lambda>x. key x = k) xs"
proof -
  have less: "key (xs ! a) < key (xs ! b)" if "a < b" "b < length xs" for a b
    using sorted_wrt_nth_less [OF sorted, of a b] that by simp
  have mono: "\<not> key (xs ! b) < k" if "a \<le> b" "b < length xs" "\<not> key (xs ! a) < k" for a b
    using that less [of a b] by (cases "a = b") auto
  have spec: "i \<le> length xs" "\<And>a. a < i \<Longrightarrow> key (xs ! a) < k" "i < length xs \<Longrightarrow> \<not> key (xs ! i) < k"
    using sort_Search_spec [where n = "length xs" and f = "\<lambda>i. \<not> key (xs ! i) < k"] mono unfolding i_def by blast+
  note before = spec(2)
  show ?thesis
  proof (cases "i < length xs \<and> key (xs ! i) = k")
    case True
    then have "List.find (\<lambda>x. key x = k) xs = Some (xs ! i)"
      using before by (auto simp: find_Some_iff intro!: exI [of _ i] dest: less_imp_neq)
    then show ?thesis using True by simp
  next
    case False
    have "key (xs ! a) \<noteq> k" if a: "a < length xs" for a
    proof (cases "a < i")
      case True
      with before show ?thesis by (auto dest: less_imp_neq)
    next
      case False': False
      then have "i < length xs" using a by simp
      then have "k \<le> key (xs ! i)" "key (xs ! i) \<noteq> k" using spec(3) False by auto
      moreover have "key (xs ! i) \<le> key (xs ! a)" using less [of i a] a False' by (cases "i = a") auto
      ultimately show ?thesis by simp
    qed
    then have "List.find (\<lambda>x. key x = k) xs = None" by (auto simp: find_None_iff in_set_conv_nth)
    then show ?thesis using False spec(1) by auto
  qed
qed

section \<open>Sealing\<close>

lemma adjacent_sorted:
  fixes xs :: "'a::linorder list"
  shows "sorted xs \<Longrightarrow> distinct_adj xs \<longleftrightarrow> sorted_wrt (<) xs"
proof (induction xs rule: induct_list012)
  case (3 x y zs)
  then show ?case by (auto simp: distinct_adj_Cons_Cons)
qed simp_all

lemma normalize_Some:
  assumes "normalizeDatasetProfileSpec e s = Some n"
  shows "n = s\<lparr>ds_Fields := sort_key fs_SourceOrdinal (ds_Fields s), ds_Measures := sort_key ms_ID (ds_Measures s)\<rparr>"
  using assms by (auto simp: normalizeDatasetProfileSpec_def Let_def split: if_splits option.splits prod.splits)

lemma normalize_sorted: "normalizeDatasetProfileSpec e (s\<lparr>ds_Fields := sort_key fs_SourceOrdinal (ds_Fields s), ds_Measures := sort_key ms_ID (ds_Measures s)\<rparr>)
    = normalizeDatasetProfileSpec e s"
  by (cases "fields_pass e 1 [] [] [] False (sort_key fs_SourceOrdinal (ds_Fields s))")
    (simp_all add: normalizeDatasetProfileSpec_def Let_def split_beta)

lemma normalize_idem: "normalizeDatasetProfileSpec e s = Some n \<Longrightarrow> normalizeDatasetProfileSpec e n = Some n"
  using normalize_sorted normalize_Some by metis

lemma normalize_checked:
  assumes "normalizeDatasetProfileSpec e s = Some n"
  shows "ProfileKey_Valid (ds_Key n)" "ProfileSemantics_Valid e (ds_Semantics n)" "DatasetGrain_Valid (ds_Grain n)" "SourceProjection_Valid (ds_Source n)"
    "TimePolicy_Valid e (ds_Time n)" "ProfileLimits_Valid (ds_Limits n)" "ExecutionMode_Valid (ds_Mode n)" "CoveragePolicy_Valid (ds_Coverage n)"
proof -
  have "ProfileKey_Valid (ds_Key s) \<and> ProfileSemantics_Valid e (ds_Semantics s) \<and> DatasetGrain_Valid (ds_Grain s) \<and> SourceProjection_Valid (ds_Source s)
    \<and> TimePolicy_Valid e (ds_Time s) \<and> ProfileLimits_Valid (ds_Limits s) \<and> ExecutionMode_Valid (ds_Mode s) \<and> CoveragePolicy_Valid (ds_Coverage s)"
    by (rule ccontr) (use assms in \<open>auto simp: normalizeDatasetProfileSpec_def\<close>)
  then show "ProfileKey_Valid (ds_Key n)" "ProfileSemantics_Valid e (ds_Semantics n)" "DatasetGrain_Valid (ds_Grain n)" "SourceProjection_Valid (ds_Source n)"
    "TimePolicy_Valid e (ds_Time n)" "ProfileLimits_Valid (ds_Limits n)" "ExecutionMode_Valid (ds_Mode n)" "CoveragePolicy_Valid (ds_Coverage n)"
    unfolding normalize_Some [OF assms] by simp_all
qed

definition digest_32 :: "dataset_env \<Rightarrow> bool" where
  "digest_32 e \<longleftrightarrow> (\<forall>v. length (me_sha256 (de_base e) v) = 32)"

lemma canon_Hash_valid: "digest_32 e \<Longrightarrow> validProfileHash (canon_Hash e raw)"
  using hex_encode_is_hex [of "me_sha256 (de_base e) raw"]
  by (auto simp: digest_32_def validProfileHash_def canon_Hash_def list_all_iff)

lemma canonical_hash: "canonicalDatasetProfile e s = Some (raw, hash) \<Longrightarrow> hash = canon_Hash e raw \<and> CanonicalJSON (profile_json s) = Some raw"
  by (auto simp: canonicalDatasetProfile_def split: option.splits)

theorem profile_valid_iff_sealed:
  assumes "digest_32 e"
  shows "DatasetProfile_Valid e p \<longleftrightarrow> NewDatasetProfile e (dp_Spec p) = Some p"
proof
  assume "DatasetProfile_Valid e p"
  then obtain n raw where n: "normalizeDatasetProfileSpec e (dp_Spec p) = Some n" "dp_matches e (dp_Spec p) n"
    "canonicalDatasetProfile e n = Some (raw, dp_Hash p)"
    by (auto simp: DatasetProfile_Valid_def split: if_splits option.splits)
  have "n = dp_Spec p" using normalize_Some [OF n(1)] n(2) by (auto simp: dp_matches_def list.rel_eq)
  then show "NewDatasetProfile e (dp_Spec p) = Some p" using n by (simp add: NewDatasetProfile_def)
next
  assume "NewDatasetProfile e (dp_Spec p) = Some p"
  then obtain n raw where n: "normalizeDatasetProfileSpec e (dp_Spec p) = Some n" "canonicalDatasetProfile e n = Some (raw, dp_Hash p)" "dp_Spec p = n"
    by (cases p) (auto simp: NewDatasetProfile_def split: option.splits)
  have "dp_matches e n n" using normalize_checked [OF n(1)] by (simp add: dp_matches_def list.rel_refl)
  then show "DatasetProfile_Valid e p" using n canon_Hash_valid [OF assms] canonical_hash [OF n(2)]
    by (simp add: DatasetProfile_Valid_def)
qed

section \<open>The order of the specification\<close>

lemma fields_pass_facts:
  "fields_pass e n types nulls names h fs = Some (ts, us, h') \<Longrightarrow>
     map fs_SourceOrdinal fs = [n..n + int (length fs) - 1] \<and> list_all (FieldSpec_Valid e) fs \<and> length ts = length types + length fs"
proof (induction fs arbitrary: n types nulls names h)
  case (Cons f fs)
  then show ?case by (auto simp: upto_rec1 algebra_simps split: if_splits)
qed simp

lemma measures_pass_facts:
  "measures_pass kinds before ms \<Longrightarrow> list_all MeasureSpec_Valid ms \<and> distinct_adj (map ms_ID ms)
     \<and> (ms \<noteq> [] \<longrightarrow> before \<noteq> Some (ms_ID (hd ms)))"
proof (induction kinds before ms rule: measures_pass.induct)
  case (2 kinds before m ms)
  then show ?case by (cases ms) (auto split: if_splits)
qed simp

lemma normalize_passes:
  assumes "normalizeDatasetProfileSpec e s = Some n"
  obtains types nulls where "fields_pass e 1 [] [] [] False (ds_Fields n) = Some (types, nulls, True)"
    "measures_pass (map_of types) None (ds_Measures n)" "timeFieldValid (ds_Time n) (map_of types)"
    "list_all (\<lambda>k. map_of nulls k = Some False) (gr_KeyFields (ds_Grain n))"
proof -
  from normalize_idem [OF assms] have i: "normalizeDatasetProfileSpec e n = Some n" .
  have sorted: "ds_Fields n = sort_key fs_SourceOrdinal (ds_Fields n)" "ds_Measures n = sort_key ms_ID (ds_Measures n)"
    using normalize_Some [OF i] by (cases n; simp)+
  show ?thesis
  proof (cases "fields_pass e 1 [] [] [] False (ds_Fields n)")
    case None
    then show ?thesis using i unfolding normalizeDatasetProfileSpec_def Let_def sorted [symmetric] by (simp split: if_splits)
  next
    case (Some r)
    then obtain types nulls h where r: "fields_pass e 1 [] [] [] False (ds_Fields n) = Some (types, nulls, h)" by (cases r) auto
    from i have "h \<and> measures_pass (map_of types) None (ds_Measures n) \<and> timeFieldValid (ds_Time n) (map_of types)
        \<and> list_all (\<lambda>k. map_of nulls k = Some False) (gr_KeyFields (ds_Grain n))"
      unfolding normalizeDatasetProfileSpec_def Let_def sorted [symmetric] r by (simp split: if_split_asm)
    then show ?thesis using r that by simp
  qed
qed

lemma normalize_ordered:
  assumes "normalizeDatasetProfileSpec e s = Some n"
  shows "map fs_SourceOrdinal (ds_Fields n) = [1..int (length (ds_Fields n))]" "sorted_wrt (<) (map ms_ID (ds_Measures n))"
    "list_all (FieldSpec_Valid e) (ds_Fields n)" "list_all MeasureSpec_Valid (ds_Measures n)"
proof -
  from normalize_passes [OF assms] obtain types nulls where
    p: "fields_pass e 1 [] [] [] False (ds_Fields n) = Some (types, nulls, True)" "measures_pass (map_of types) None (ds_Measures n)" by blast
  show "map fs_SourceOrdinal (ds_Fields n) = [1..int (length (ds_Fields n))]" "list_all (FieldSpec_Valid e) (ds_Fields n)"
    using fields_pass_facts [OF p(1)] by simp_all
  have "sorted (map ms_ID (ds_Measures n))" unfolding normalize_Some [OF assms] by simp
  then show "sorted_wrt (<) (map ms_ID (ds_Measures n))" "list_all MeasureSpec_Valid (ds_Measures n)"
    using measures_pass_facts [OF p(2)] adjacent_sorted by blast+
qed

lemma normalize_perm:
  assumes n: "normalizeDatasetProfileSpec e s = Some n" and "mset fs = mset (ds_Fields s)" "mset ms = mset (ds_Measures s)"
  shows "normalizeDatasetProfileSpec e (s\<lparr>ds_Fields := fs, ds_Measures := ms\<rparr>) = Some n"
proof -
  have fields: "sort_key fs_SourceOrdinal fs = ds_Fields n"
  proof (rule sort_key_unique)
    show "mset fs = mset (ds_Fields n)" using assms(2) unfolding normalize_Some [OF n] by simp
    show "sorted_wrt (<) (map fs_SourceOrdinal (ds_Fields n))" unfolding normalize_ordered(1) [OF n] by simp
  qed
  have measures: "sort_key ms_ID ms = ds_Measures n"
  proof (rule sort_key_unique)
    show "mset ms = mset (ds_Measures n)" using assms(3) unfolding normalize_Some [OF n] by simp
  qed (rule normalize_ordered(2) [OF n])
  let ?t = "s\<lparr>ds_Fields := fs, ds_Measures := ms\<rparr>"
  have "n = ?t\<lparr>ds_Fields := sort_key fs_SourceOrdinal (ds_Fields ?t), ds_Measures := sort_key ms_ID (ds_Measures ?t)\<rparr>"
    using normalize_Some [OF n] fields measures by simp
  then show ?thesis using normalize_sorted [of e ?t] normalize_idem [OF n] by metis
qed

lemma profile_order_irrelevant:
  assumes "mset fs = mset (ds_Fields s)" "mset ms = mset (ds_Measures s)"
  shows "NewDatasetProfile e (s\<lparr>ds_Fields := fs, ds_Measures := ms\<rparr>) = NewDatasetProfile e s"
proof -
  let ?t = "s\<lparr>ds_Fields := fs, ds_Measures := ms\<rparr>"
  have "normalizeDatasetProfileSpec e ?t = normalizeDatasetProfileSpec e s"
  proof (cases "normalizeDatasetProfileSpec e s")
    case None
    have "normalizeDatasetProfileSpec e s = Some n" if "normalizeDatasetProfileSpec e ?t = Some n" for n
      using normalize_perm [OF that, of "ds_Fields s" "ds_Measures s"] assms by simp
    with None show ?thesis by (cases "normalizeDatasetProfileSpec e ?t") auto
  next
    case (Some n)
    with normalize_perm [OF Some assms] show ?thesis by simp
  qed
  then show ?thesis by (simp add: NewDatasetProfile_def)
qed

section \<open>What the hash binds\<close>

text \<open>The specification with its three unbounded integers as the canonical JSON prints them.\<close>

definition rounded_spec :: "dataset_spec \<Rightarrow> dataset_spec" where
  "rounded_spec s = s\<lparr>ds_Key := ProfileKey (pk_datasetID (ds_Key s)) (json_number (pk_version (ds_Key s))),
     ds_Source := (ds_Source s)\<lparr>sp_ProjectionRevision := json_number (sp_ProjectionRevision (ds_Source s)),
       sp_ExposedSchemaRevision := json_number (sp_ExposedSchemaRevision (ds_Source s))\<rparr>\<rparr>"

lemma texts_json: "json_numbers (json_texts vs) = json_texts vs" "json_texts vs = json_texts ws \<longleftrightarrow> vs = ws"
  by (simp_all add: comp_def inj_map_eq_map inj_def)

lemma canonical_field_inj:
  assumes "json_numbers (canonical_field f) = json_numbers (canonical_field g)" "fs_SourceOrdinal f = fs_SourceOrdinal g"
  shows "f = g"
  using assms by (cases f; cases g) (simp add: canonical_field_def texts_json inj_map_eq_map inj_def comp_def split: if_splits)

lemma canonical_fields_inj:
  assumes "map (\<lambda>f. json_numbers (canonical_field f)) fs = map (\<lambda>f. json_numbers (canonical_field f)) gs"
    "map fs_SourceOrdinal fs = map fs_SourceOrdinal gs"
  shows "fs = gs"
  using assms
proof (induction fs arbitrary: gs)
  case (Cons f fs)
  then obtain g gs' where g: "gs = g # gs'" by (cases gs) auto
  with Cons have "f = g" using canonical_field_inj by simp
  with g Cons show ?case by simp
qed simp

lemma canonical_members_inj:
  "json_numbers (canonical_measure m) = json_numbers (canonical_measure m') \<longleftrightarrow> m = m'"
  "json_numbers (canonical_field_semantics f) = json_numbers (canonical_field_semantics f') \<longleftrightarrow> f = f'"
  "json_numbers (canonical_measure_semantics x) = json_numbers (canonical_measure_semantics x') \<longleftrightarrow> x = x'"
  "json_numbers (canonicalProfileGrainValue g) = json_numbers (canonicalProfileGrainValue g') \<longleftrightarrow> g = g'"
proof -
  show "json_numbers (canonical_measure m) = json_numbers (canonical_measure m') \<longleftrightarrow> m = m'"
    by (cases m; cases m') (auto simp: canonical_measure_def)
  show "json_numbers (canonical_field_semantics f) = json_numbers (canonical_field_semantics f') \<longleftrightarrow> f = f'"
    by (cases f; cases f') (auto simp: canonical_field_semantics_def comp_def inj_map_eq_map inj_def)
  show "json_numbers (canonical_measure_semantics x) = json_numbers (canonical_measure_semantics x') \<longleftrightarrow> x = x'"
    by (cases x; cases x') (auto simp: canonical_measure_semantics_def comp_def inj_map_eq_map inj_def)
  show "json_numbers (canonicalProfileGrainValue g) = json_numbers (canonicalProfileGrainValue g') \<longleftrightarrow> g = g'"
    by (cases g; cases g') (auto simp: canonicalProfileGrainValue_def comp_def inj_map_eq_map inj_def)
qed

lemma map_eq_inj: "map f xs = map f ys \<Longrightarrow> (\<And>x y. f x = f y \<Longrightarrow> x = y) \<Longrightarrow> xs = ys"
  by (metis inj_map_eq_map injI)

lemma canonical_semantics_inj:
  assumes "json_numbers (canonicalProfileSemanticsValue v) = json_numbers (canonicalProfileSemanticsValue w)"
  shows "v = w"
proof -
  from assms have e: "sm_DatasetDescription v = sm_DatasetDescription w" "sm_DatasetLabel v = sm_DatasetLabel w"
    "map (\<lambda>f. json_numbers (canonical_field_semantics f)) (sm_Fields v) = map (\<lambda>f. json_numbers (canonical_field_semantics f)) (sm_Fields w)"
    "map (\<lambda>f. json_numbers (canonical_measure_semantics f)) (sm_Measures v) = map (\<lambda>f. json_numbers (canonical_measure_semantics f)) (sm_Measures w)"
    by (simp_all add: canonicalProfileSemanticsValue_def comp_def)
  have "sm_Fields v = sm_Fields w" by (rule map_eq_inj [OF e(3)]) (simp add: canonical_members_inj)
  moreover have "sm_Measures v = sm_Measures w" by (rule map_eq_inj [OF e(4)]) (simp add: canonical_members_inj)
  ultimately show ?thesis using e(1,2) by (cases v; cases w) simp
qed

lemma canonical_rest_inj:
  "json_numbers (canonical_key k) = json_numbers (canonical_key k') \<longleftrightarrow>
     pk_datasetID k = pk_datasetID k' \<and> json_number (pk_version k) = json_number (pk_version k')"
  "json_numbers (canonical_source v) = json_numbers (canonical_source v') \<longleftrightarrow>
     v\<lparr>sp_ProjectionRevision := json_number (sp_ProjectionRevision v), sp_ExposedSchemaRevision := json_number (sp_ExposedSchemaRevision v)\<rparr>
     = v'\<lparr>sp_ProjectionRevision := json_number (sp_ProjectionRevision v'), sp_ExposedSchemaRevision := json_number (sp_ExposedSchemaRevision v')\<rparr>"
  "tp_constructed t \<Longrightarrow> tp_constructed t' \<Longrightarrow> json_numbers (canonical_time t) = json_numbers (canonical_time t') \<Longrightarrow> t = t'"
proof -
  show "json_numbers (canonical_key k) = json_numbers (canonical_key k') \<longleftrightarrow>
     pk_datasetID k = pk_datasetID k' \<and> json_number (pk_version k) = json_number (pk_version k')"
    by (simp add: canonical_key_def)
  show "json_numbers (canonical_source v) = json_numbers (canonical_source v') \<longleftrightarrow>
     v\<lparr>sp_ProjectionRevision := json_number (sp_ProjectionRevision v), sp_ExposedSchemaRevision := json_number (sp_ExposedSchemaRevision v)\<rparr>
     = v'\<lparr>sp_ProjectionRevision := json_number (sp_ProjectionRevision v'), sp_ExposedSchemaRevision := json_number (sp_ExposedSchemaRevision v')\<rparr>"
    by (cases v; cases v') (auto simp: canonical_source_def)
  show "t = t'" if "tp_constructed t" "tp_constructed t'" "json_numbers (canonical_time t) = json_numbers (canonical_time t')"
    using that by (cases t; cases t') (simp add: canonical_time_def)
qed

lemma canonical_limits_inj:
  assumes "ProfileLimits_Valid l" "ProfileLimits_Valid l'" "json_numbers (canonical_limits l) = json_numbers (canonical_limits l')"
  shows "l = l'"
  using assms by (cases l; cases l') (simp add: canonical_limits_def ProfileLimits_Valid_def)

lemma profile_json_binds:
  assumes n: "normalizeDatasetProfileSpec e s = Some n" and n': "normalizeDatasetProfileSpec e' s' = Some n'"
    and raw: "jcs (profile_json n) = jcs (profile_json n')"
  shows "rounded_spec n = rounded_spec n'"
proof -
  from raw have e: "json_numbers (profile_json n) = json_numbers (profile_json n')" by (simp add: jcs_injective)
  then have j: "ds_Coverage n = ds_Coverage n'" "ds_Mode n = ds_Mode n'"
    "map (\<lambda>f. json_numbers (canonical_field f)) (ds_Fields n) = map (\<lambda>f. json_numbers (canonical_field f)) (ds_Fields n')"
    "map (\<lambda>m. json_numbers (canonical_measure m)) (ds_Measures n) = map (\<lambda>m. json_numbers (canonical_measure m)) (ds_Measures n')"
    "json_numbers (canonicalProfileGrainValue (ds_Grain n)) = json_numbers (canonicalProfileGrainValue (ds_Grain n'))"
    "json_numbers (canonical_key (ds_Key n)) = json_numbers (canonical_key (ds_Key n'))"
    "json_numbers (canonical_limits (ds_Limits n)) = json_numbers (canonical_limits (ds_Limits n'))"
    "json_numbers (canonicalProfileSemanticsValue (ds_Semantics n)) = json_numbers (canonicalProfileSemanticsValue (ds_Semantics n'))"
    "json_numbers (canonical_source (ds_Source n)) = json_numbers (canonical_source (ds_Source n'))"
    "json_numbers (canonical_time (ds_Time n)) = json_numbers (canonical_time (ds_Time n'))"
    unfolding profile_json_def by (simp_all add: comp_def)
  from j(3) have "length (ds_Fields n) = length (ds_Fields n')" by (rule map_eq_imp_length_eq)
  then have "map fs_SourceOrdinal (ds_Fields n) = map fs_SourceOrdinal (ds_Fields n')"
    using normalize_ordered(1) [OF n] normalize_ordered(1) [OF n'] by simp
  with j(3) have fields: "ds_Fields n = ds_Fields n'" by (rule canonical_fields_inj)
  have measures: "ds_Measures n = ds_Measures n'" by (rule map_eq_inj [OF j(4)]) (simp add: canonical_members_inj)
  have "tp_constructed (ds_Time n)" "tp_constructed (ds_Time n')"
    using normalize_checked(5) [OF n] normalize_checked(5) [OF n'] by (auto simp: TimePolicy_Valid_def split: if_splits)
  with j(10) have time: "ds_Time n = ds_Time n'" using canonical_rest_inj(3) by blast
  have limits: "ds_Limits n = ds_Limits n'"
    using canonical_limits_inj normalize_checked(6) [OF n] normalize_checked(6) [OF n'] j(7) by blast
  show ?thesis
    using j(1,2,5,6,9) fields measures time limits canonical_semantics_inj [OF j(8)]
    by (cases n; cases n') (simp add: rounded_spec_def canonical_members_inj canonical_rest_inj)
qed

definition sealed_bytes :: "dataset_profile \<Rightarrow> gostring" where
  "sealed_bytes p = jcs (profile_json (dp_Spec p))"

lemma sealed_hash:
  assumes "NewDatasetProfile e s = Some p"
  shows "normalizeDatasetProfileSpec e s = Some (dp_Spec p)" "dp_Hash p = canon_Hash e (sealed_bytes p)"
  using assms by (auto simp: NewDatasetProfile_def canonicalDatasetProfile_def CanonicalJSON_def sealed_bytes_def split: option.splits if_splits)

lemma hash_binds:
  assumes p: "NewDatasetProfile e s = Some p" and q: "NewDatasetProfile e t = Some q" and "dp_Hash p = dp_Hash q"
    and "inj_on (me_sha256 (de_base e)) {sealed_bytes p, sealed_bytes q}"
  shows "rounded_spec (dp_Spec p) = rounded_spec (dp_Spec q)"
proof -
  from assms(3) have "hex_encode (me_sha256 (de_base e) (sealed_bytes p)) = hex_encode (me_sha256 (de_base e) (sealed_bytes q))"
    unfolding sealed_hash(2) [OF p] sealed_hash(2) [OF q] canon_Hash_def by (rule same_append_eq [THEN iffD1])
  then have "me_sha256 (de_base e) (sealed_bytes p) = me_sha256 (de_base e) (sealed_bytes q)" by (rule hex_encode_inj)
  then have "sealed_bytes p = sealed_bytes q" using assms(4) by (metis inj_onD insertI1 insertI2)
  then show ?thesis using profile_json_binds [OF sealed_hash(1) [OF p] sealed_hash(1) [OF q]] by (simp add: sealed_bytes_def)
qed

end
