(* ===== verification/Dataset_History.thy ===== *)
theory Dataset_History
  imports Dataset_Seal
begin

text \<open>
  The life of a catalog: what a snapshot resolves, and what a chain of accepted transitions keeps of it. A profile that was
  published stays under its key with its hash, a retired one never becomes active again, versions only grow, and a catalog
  admits at most 127 transitions.
\<close>

section \<open>A snapshot\<close>

lemma normalize_catalog_Some:
  assumes "normalizeDatasetProfileCatalog e b = Some n"
  shows "n = b\<lparr>cb_entries := sort_key ce_Key (cb_entries b)\<rparr>" "sorted_wrt (<) (map ce_Key (cb_entries n))"
    "1 \<le> length (cb_entries n)" "length (cb_entries n) \<le> datasetProfileCatalogMaxEntries" "cb_revision n > 0"
    "\<And>x. x \<in> set (cb_entries n) \<Longrightarrow> DatasetProfile_Valid e (ce_Profile x) \<and> ProfileState_Valid (ce_State x)"
proof -
  from assms show n: "n = b\<lparr>cb_entries := sort_key ce_Key (cb_entries b)\<rparr>"
    by (auto simp: normalizeDatasetProfileCatalog_def Let_def split: if_splits)
  from assms have "distinct_adj (map ce_Key (cb_entries n))"
    by (auto simp: normalizeDatasetProfileCatalog_def Let_def n split: if_splits)
  moreover have "sorted (map ce_Key (cb_entries n))" by (simp add: n)
  ultimately show "sorted_wrt (<) (map ce_Key (cb_entries n))" using adjacent_sorted by blast
  from assms show "1 \<le> length (cb_entries n)" "length (cb_entries n) \<le> datasetProfileCatalogMaxEntries" "cb_revision n > 0"
    "\<And>x. x \<in> set (cb_entries n) \<Longrightarrow> DatasetProfile_Valid e (ce_Profile x) \<and> ProfileState_Valid (ce_State x)"
    unfolding n by (auto simp: normalizeDatasetProfileCatalog_def list_all_iff Let_def Suc_le_eq split: if_splits)
qed

lemma normalize_catalog_idem:
  assumes "normalizeDatasetProfileCatalog e b = Some n"
  shows "normalizeDatasetProfileCatalog e n = Some n"
  using assms unfolding normalize_catalog_Some(1) [OF assms]
  by (auto simp: normalizeDatasetProfileCatalog_def Let_def list_all_iff split: if_splits)

lemma catalog_valid_iff_sealed:
  assumes "digest_32 e"
  shows "DatasetProfileCatalog_Valid e c
    \<longleftrightarrow> NewDatasetProfileCatalog e (cb_id (dc_body c)) (cb_revision (dc_body c)) (cb_entries (dc_body c)) = Some c"
proof
  assume "DatasetProfileCatalog_Valid e c"
  then obtain n raw where n: "normalizeDatasetProfileCatalog e (dc_body c) = Some n" "canonicalDatasetProfileCatalog e n = Some (raw, dc_hash c)"
    and same: "catalogEntriesEqual (cb_entries (dc_body c)) (cb_entries n)"
    by (auto simp: DatasetProfileCatalog_Valid_def split: if_splits option.splits)
  from same have "map ce_Key (cb_entries (dc_body c)) = map ce_Key (cb_entries n)"
    unfolding catalogEntriesEqual_def by (auto simp: list_eq_iff_nth_eq list_all2_conv_all_nth)
  then have "sorted (map ce_Key (cb_entries (dc_body c)))"
    using normalize_catalog_Some(2) [OF n(1)] by (simp add: strict_sorted_iff)
  then have "sort_key ce_Key (cb_entries (dc_body c)) = cb_entries (dc_body c)" by (rule sort_key_sorted)
  then have "n = dc_body c" using normalize_catalog_Some(1) [OF n(1)] by simp
  moreover have "\<lparr>cb_id = cb_id (dc_body c), cb_revision = cb_revision (dc_body c), cb_entries = cb_entries (dc_body c)\<rparr> = dc_body c" by simp
  ultimately show "NewDatasetProfileCatalog e (cb_id (dc_body c)) (cb_revision (dc_body c)) (cb_entries (dc_body c)) = Some c"
    using n by (simp only: NewDatasetProfileCatalog_def option.case prod.case) simp
next
  assume "NewDatasetProfileCatalog e (cb_id (dc_body c)) (cb_revision (dc_body c)) (cb_entries (dc_body c)) = Some c"
  then obtain n raw where n: "normalizeDatasetProfileCatalog e (dc_body c) = Some n" "canonicalDatasetProfileCatalog e n = Some (raw, dc_hash c)"
    "dc_body c = n"
    by (cases c; cases "dc_body c") (auto simp: NewDatasetProfileCatalog_def split: option.splits)
  have "validProfileHash (dc_hash c)"
    using n(2) canon_Hash_valid [OF assms] by (simp add: canonicalDatasetProfileCatalog_def split: option.splits) metis
  then show "DatasetProfileCatalog_Valid e c" using n
    by (simp add: DatasetProfileCatalog_Valid_def catalogEntriesEqual_def list_all2_same)
qed

abbreviation (input) entries_of :: "dataset_catalog \<Rightarrow> catalog_entry list" where
  "entries_of c \<equiv> cb_entries (dc_body c)"

lemma catalog_facts:
  assumes "DatasetProfileCatalog_Valid e c"
  shows "sorted_wrt (<) (map ce_Key (entries_of c))" "1 \<le> length (entries_of c)" "length (entries_of c) \<le> datasetProfileCatalogMaxEntries"
    "cb_revision (dc_body c) > 0" "distinct (map ce_Key (entries_of c))"
    "x \<in> set (entries_of c) \<Longrightarrow> DatasetProfile_Valid e (ce_Profile x) \<and> ProfileState_Valid (ce_State x)"
proof -
  from assms obtain n where n: "normalizeDatasetProfileCatalog e (dc_body c) = Some n"
    and same: "catalogEntriesEqual (entries_of c) (cb_entries n)"
    by (auto simp: DatasetProfileCatalog_Valid_def split: if_splits option.splits)
  from same have "map ce_Key (entries_of c) = map ce_Key (cb_entries n)"
    unfolding catalogEntriesEqual_def by (auto simp: list_eq_iff_nth_eq list_all2_conv_all_nth)
  then show s: "sorted_wrt (<) (map ce_Key (entries_of c))" using normalize_catalog_Some(2) [OF n] by simp
  then show "distinct (map ce_Key (entries_of c))" by (simp add: strict_sorted_iff)
  show "1 \<le> length (entries_of c)" "length (entries_of c) \<le> datasetProfileCatalogMaxEntries" "cb_revision (dc_body c) > 0"
    "x \<in> set (entries_of c) \<Longrightarrow> DatasetProfile_Valid e (ce_Profile x) \<and> ProfileState_Valid (ce_State x)"
    using normalize_catalog_Some(3-6) [OF n] unfolding normalize_catalog_Some(1) [OF n] by simp_all
qed

lemma valid_profile_fields:
  assumes "DatasetProfile_Valid e p"
  shows "ProfileKey_Valid (dp_Key p)" "validProfileHash (dp_Hash p)"
proof -
  from assms obtain n where n: "normalizeDatasetProfileSpec e (dp_Spec p) = Some n"
    by (auto simp: DatasetProfile_Valid_def split: if_splits option.splits)
  show "ProfileKey_Valid (dp_Key p)" using normalize_checked(1) [OF n] unfolding normalize_Some [OF n] by simp
  show "validProfileHash (dp_Hash p)" using assms by (simp add: DatasetProfile_Valid_def split: if_splits)
qed

text \<open>Both lookups are exact: the binary search finds the profile of a key exactly if there is one.\<close>

lemma inspect_iff:
  "dc_Inspect e c k = Some x \<longleftrightarrow> DatasetProfileCatalog_Valid e c \<and> x \<in> set (entries_of c) \<and> ce_Key x = k"
proof (cases "DatasetProfileCatalog_Valid e c")
  case True
  note f = catalog_facts [OF True]
  have found: "List.find (\<lambda>x. ce_Key x = k) (entries_of c) = Some x \<longleftrightarrow> x \<in> set (entries_of c) \<and> ce_Key x = k"
  proof
    assume "List.find (\<lambda>x. ce_Key x = k) (entries_of c) = Some x"
    then show "x \<in> set (entries_of c) \<and> ce_Key x = k" by (auto simp: find_Some_iff)
  next
    assume x: "x \<in> set (entries_of c) \<and> ce_Key x = k"
    then obtain y where y: "List.find (\<lambda>x. ce_Key x = k) (entries_of c) = Some y"
      by (cases "List.find (\<lambda>x. ce_Key x = k) (entries_of c)") (auto simp: find_None_iff)
    then have "y \<in> set (entries_of c)" "ce_Key y = k" by (auto simp: find_Some_iff)
    then have "y = x" using distinct_map_unique [OF f(5)] x by blast
    with y show "List.find (\<lambda>x. ce_Key x = k) (entries_of c) = Some x" by simp
  qed
  have "dc_Inspect e c k = (if \<not> ProfileKey_Valid k then None else List.find (\<lambda>x. ce_Key x = k) (entries_of c))"
    using True search_key [OF f(1), of k, unfolded less_profile_key_def] by (simp only: dc_Inspect_def Let_def) simp
  moreover have "ProfileKey_Valid k" if "x \<in> set (entries_of c)" "ce_Key x = k"
    using f(6) [OF that(1)] that(2) valid_profile_fields(1) by blast
  ultimately show ?thesis using found True by auto
qed (simp add: dc_Inspect_def)

lemma resolve_active_iff:
  "ResolveActive e c k h = Some p \<longleftrightarrow> DatasetProfileCatalog_Valid e c
     \<and> (\<exists>x \<in> set (entries_of c). ce_Key x = k \<and> ce_State x = ''ACTIVE'' \<and> ce_Profile x = p \<and> dp_Hash p = h)"
proof
  assume "ResolveActive e c k h = Some p"
  then obtain x where "dc_Inspect e c k = Some x" "ce_State x = ''ACTIVE''" "dp_Hash (ce_Profile x) = h" "ce_Profile x = p"
    by (auto simp: ResolveActive_def split: if_splits option.splits)
  then show "DatasetProfileCatalog_Valid e c
     \<and> (\<exists>x \<in> set (entries_of c). ce_Key x = k \<and> ce_State x = ''ACTIVE'' \<and> ce_Profile x = p \<and> dp_Hash p = h)"
    by (auto simp: inspect_iff)
next
  assume r: "DatasetProfileCatalog_Valid e c
     \<and> (\<exists>x \<in> set (entries_of c). ce_Key x = k \<and> ce_State x = ''ACTIVE'' \<and> ce_Profile x = p \<and> dp_Hash p = h)"
  then obtain x where x: "x \<in> set (entries_of c)" "ce_Key x = k" "ce_State x = ''ACTIVE''" "ce_Profile x = p" "dp_Hash p = h" by blast
  have valid: "DatasetProfile_Valid e (ce_Profile x)" using catalog_facts(6) x(1) r by blast
  have "dc_Inspect e c k = Some x" using x r by (simp add: inspect_iff)
  then show "ResolveActive e c k h = Some p" using r x valid valid_profile_fields [OF valid] by (auto simp: ResolveActive_def)
qed

section \<open>A transition\<close>

lemma entries_by_key_iff:
  assumes "distinct (map ce_Key xs)"
  shows "entries_by_key xs k = Some x \<longleftrightarrow> x \<in> set xs \<and> ce_Key x = k"
proof -
  have "foldl (\<lambda>m x. m(ce_Key x \<mapsto> x)) m xs k = Some x \<longleftrightarrow> x \<in> set xs \<and> ce_Key x = k \<or> (\<forall>y \<in> set xs. ce_Key y \<noteq> k) \<and> m k = Some x" for m
    using assms
  proof (induction xs arbitrary: m)
    case (Cons y ys)
    then show ?case by (auto simp: image_iff)
  qed simp
  from this [of Map.empty] show ?thesis unfolding entries_by_key_def by simp
qed

lemma previous_max_iff:
  "(case previous_max xs d of None \<Rightarrow> False | Some v \<Rightarrow> w \<le> v) \<longleftrightarrow> (\<exists>x \<in> set xs. pk_datasetID (ce_Key x) = d \<and> w \<le> pk_version (ce_Key x))"
proof -
  have "(case foldl (\<lambda>m x. case m (pk_datasetID (ce_Key x)) of
         None \<Rightarrow> m(pk_datasetID (ce_Key x) \<mapsto> pk_version (ce_Key x))
       | Some v \<Rightarrow> if pk_version (ce_Key x) > v then m(pk_datasetID (ce_Key x) \<mapsto> pk_version (ce_Key x)) else m) m xs d of
       None \<Rightarrow> False | Some v \<Rightarrow> w \<le> v)
    \<longleftrightarrow> (case m d of None \<Rightarrow> False | Some v \<Rightarrow> w \<le> v) \<or> (\<exists>x \<in> set xs. pk_datasetID (ce_Key x) = d \<and> w \<le> pk_version (ce_Key x))" for m
  proof (induction xs arbitrary: m)
    case (Cons x xs)
    show ?case
      by (simp only: foldl_Cons Cons.IH) (auto split: option.splits if_splits)
  qed simp
  from this [of Map.empty] show ?thesis unfolding previous_max_def by simp
qed

lemma kept_loop_iff:
  "kept_loop m changed xs = Some r \<longleftrightarrow>
     (\<forall>x \<in> set xs. \<exists>y. m (ce_Key x) = Some y \<and> dp_Hash (ce_Profile y) = dp_Hash (ce_Profile x)
         \<and> \<not> (ce_State x = ''RETIRED'' \<and> ce_State y = ''ACTIVE''))
     \<and> r = (changed \<or> (\<exists>x \<in> set xs. \<exists>y. m (ce_Key x) = Some y \<and> ce_State x = ''ACTIVE'' \<and> ce_State y = ''RETIRED''))"
proof (induction m changed xs rule: kept_loop.induct)
  case (2 m changed x xs)
  show ?case
  proof (cases "m (ce_Key x)")
    case (Some y)
    with 2 [OF Some] show ?thesis by auto
  qed auto
qed auto

lemma new_loop_iff:
  "new_loop m highest changed ys = Some r \<longleftrightarrow>
     (\<forall>y \<in> set ys. m (ce_Key y) = None \<longrightarrow> ce_State y = ''ACTIVE''
         \<and> \<not> (case highest (pk_datasetID (ce_Key y)) of None \<Rightarrow> False | Some v \<Rightarrow> pk_version (ce_Key y) \<le> v))
     \<and> r = (changed \<or> (\<exists>y \<in> set ys. m (ce_Key y) = None))"
  by (induction m highest changed ys rule: new_loop.induct) (auto split: if_splits)

definition published :: "dataset_catalog \<Rightarrow> profile_key set" where
  "published c = ce_Key ` set (entries_of c)"

definition retired_keys :: "dataset_catalog \<Rightarrow> profile_key set" where
  "retired_keys c = ce_Key ` {x \<in> set (entries_of c). ce_State x = ''RETIRED''}"

text \<open>What a later catalog keeps: every key with its hash, retirement, and versions above the old ones.\<close>

definition catalog_later :: "dataset_catalog \<Rightarrow> dataset_catalog \<Rightarrow> bool" where
  "catalog_later c d \<longleftrightarrow> cb_id (dc_body d) = cb_id (dc_body c)
     \<and> (\<forall>x \<in> set (entries_of c). \<exists>y \<in> set (entries_of d). ce_Key y = ce_Key x \<and> dp_Hash (ce_Profile y) = dp_Hash (ce_Profile x)
          \<and> (ce_State x = ''RETIRED'' \<longrightarrow> ce_State y = ''RETIRED''))
     \<and> (\<forall>y \<in> set (entries_of d). ce_Key y \<in> published c \<or> (\<forall>x \<in> set (entries_of c).
          pk_datasetID (ce_Key x) = pk_datasetID (ce_Key y) \<longrightarrow> pk_version (ce_Key x) < pk_version (ce_Key y)))"

lemma state_cases: "DatasetProfileCatalog_Valid e c \<Longrightarrow> x \<in> set (entries_of c) \<Longrightarrow> ce_State x = ''ACTIVE'' \<or> ce_State x = ''RETIRED''"
  using catalog_facts(6) by (auto simp: ProfileState_Valid_def)

lemma catalog_transition_iff:
  "transition_ok e c d \<longleftrightarrow> DatasetProfileCatalog_Valid e c \<and> DatasetProfileCatalog_Valid e d
     \<and> cb_revision (dc_body c) \<noteq> 9223372036854775807 \<and> cb_revision (dc_body d) = cb_revision (dc_body c) + 1
     \<and> catalog_later c d
     \<and> (\<forall>y \<in> set (entries_of d). ce_Key y \<notin> published c \<longrightarrow> ce_State y = ''ACTIVE'')
     \<and> (\<not> published d \<subseteq> published c \<or> \<not> retired_keys d \<subseteq> retired_keys c)"
proof (cases "DatasetProfileCatalog_Valid e c \<and> DatasetProfileCatalog_Valid e d \<and> cb_id (dc_body d) = cb_id (dc_body c)
    \<and> cb_revision (dc_body c) \<noteq> 9223372036854775807 \<and> cb_revision (dc_body d) = cb_revision (dc_body c) + 1")
  case False
  then show ?thesis unfolding transition_ok_def catalog_later_def by auto
next
  case True
  then have valid: "DatasetProfileCatalog_Valid e c" "DatasetProfileCatalog_Valid e d" by blast+
  note dc = catalog_facts(5) [OF valid(1)] and dd = catalog_facts(5) [OF valid(2)]
  have at: "entries_by_key (entries_of d) (ce_Key x) = Some y \<longleftrightarrow> y \<in> set (entries_of d) \<and> ce_Key y = ce_Key x" for x y
    by (rule entries_by_key_iff [OF dd])
  have new: "entries_by_key (entries_of c) k = None \<longleftrightarrow> k \<notin> published c" for k
  proof (cases "entries_by_key (entries_of c) k")
    case None
    then show ?thesis using entries_by_key_iff [OF dc, of k] unfolding published_def by auto
  next
    case (Some x)
    then have "x \<in> set (entries_of c)" "k = ce_Key x" using entries_by_key_iff [OF dc, of k x] by auto
    with Some show ?thesis unfolding published_def by auto
  qed
  have states: "\<not> (ce_State x = ''RETIRED'' \<and> ce_State y = ''ACTIVE'') \<longleftrightarrow> (ce_State x = ''RETIRED'' \<longrightarrow> ce_State y = ''RETIRED'')"
    if "y \<in> set (entries_of d)" for x y using state_cases [OF valid(2) that] by auto
  have entries: "dc_Entries e c = entries_of c" "dc_Entries e d = entries_of d" using valid by (simp_all add: dc_Entries_def)
  let ?kept = "\<forall>x \<in> set (entries_of c). \<exists>y \<in> set (entries_of d). ce_Key y = ce_Key x \<and> dp_Hash (ce_Profile y) = dp_Hash (ce_Profile x)
          \<and> (ce_State x = ''RETIRED'' \<longrightarrow> ce_State y = ''RETIRED'')"
  let ?fresh = "\<forall>y \<in> set (entries_of d). ce_Key y \<notin> published c \<longrightarrow> ce_State y = ''ACTIVE''
      \<and> (\<forall>x \<in> set (entries_of c). pk_datasetID (ce_Key x) = pk_datasetID (ce_Key y) \<longrightarrow> pk_version (ce_Key x) < pk_version (ce_Key y))"
  let ?closed = "\<exists>x \<in> set (entries_of c). \<exists>y \<in> set (entries_of d). ce_Key y = ce_Key x \<and> ce_State x = ''ACTIVE'' \<and> ce_State y = ''RETIRED''"
  have k: "kept_loop (entries_by_key (entries_of d)) False (entries_of c) = Some r \<longleftrightarrow> ?kept \<and> r = ?closed" for r
    unfolding kept_loop_iff at using states by (simp add: Bex_def) blast
  have n: "new_loop (entries_by_key (entries_of c)) (previous_max (entries_of c)) b (entries_of d) = Some r
      \<longleftrightarrow> ?fresh \<and> r = (b \<or> \<not> published d \<subseteq> published c)" for b r
  proof -
    have "(\<exists>y \<in> set (entries_of d). ce_Key y \<notin> published c) \<longleftrightarrow> \<not> published d \<subseteq> published c" unfolding published_def by auto
    then show ?thesis unfolding new_loop_iff new previous_max_iff by (auto simp: not_le)
  qed
  have t: "transition_ok e c d \<longleftrightarrow> ?kept \<and> ?fresh \<and> (?closed \<or> \<not> published d \<subseteq> published c)"
  proof (cases "kept_loop (entries_by_key (entries_of d)) False (entries_of c)")
    case None
    then have "\<not> ?kept" using k [of ?closed] by auto
    moreover have "\<not> transition_ok e c d" using None by (simp add: transition_ok_def entries Let_def)
    ultimately show ?thesis by blast
  next
    case (Some b)
    then have b: "?kept" "b = ?closed" using k by blast+
    have "transition_ok e c d \<longleftrightarrow> (\<exists>r. new_loop (entries_by_key (entries_of c)) (previous_max (entries_of c)) b (entries_of d) = Some r \<and> r)"
      using True Some by (auto simp: transition_ok_def entries Let_def split: option.splits)
    then show ?thesis unfolding n using b by blast
  qed
  have closed: "?closed \<longleftrightarrow> \<not> retired_keys d \<subseteq> retired_keys c" if ?kept ?fresh
  proof
    assume ?closed
    then obtain x y where x: "x \<in> set (entries_of c)" "ce_State x = ''ACTIVE''" and y: "y \<in> set (entries_of d)" "ce_Key y = ce_Key x" "ce_State y = ''RETIRED''"
      by blast
    have "ce_Key x \<notin> retired_keys c"
    proof
      assume "ce_Key x \<in> retired_keys c"
      then obtain z where "z \<in> set (entries_of c)" "ce_Key z = ce_Key x" "ce_State z = ''RETIRED''" by (auto simp: retired_keys_def)
      with distinct_map_unique [OF dc _ x(1)] x(2) show False by fastforce
    qed
    moreover have "ce_Key x \<in> retired_keys d" using y by (auto simp: retired_keys_def intro!: image_eqI [of _ _ y])
    ultimately show "\<not> retired_keys d \<subseteq> retired_keys c" by blast
  next
    assume "\<not> retired_keys d \<subseteq> retired_keys c"
    then obtain y where y: "y \<in> set (entries_of d)" "ce_State y = ''RETIRED''" "ce_Key y \<notin> retired_keys c" by (auto simp: retired_keys_def)
    with that(2) have "ce_Key y \<in> published c" by auto
    then obtain x where x: "x \<in> set (entries_of c)" "ce_Key y = ce_Key x" unfolding published_def by auto
    with y(3) state_cases [OF valid(1) x(1)] have "ce_State x = ''ACTIVE''" by (auto simp: retired_keys_def)
    with x y show ?closed by blast
  qed
  show ?thesis
  proof (cases "?kept \<and> ?fresh")
    case False
    then show ?thesis using True unfolding t catalog_later_def by blast
  next
    case kf: True
    then show ?thesis using True unfolding t closed [OF conjunct1 [OF kf] conjunct2 [OF kf]] catalog_later_def by blast
  qed
qed

lemma catalog_later_refl: "catalog_later c c"
  unfolding catalog_later_def published_def by blast

lemma catalog_later_trans:
  assumes cd: "catalog_later c d" and de: "catalog_later d f"
  shows "catalog_later c f"
  unfolding catalog_later_def
proof (intro conjI ballI)
  show "cb_id (dc_body f) = cb_id (dc_body c)" using assms by (simp add: catalog_later_def)
  fix x assume "x \<in> set (entries_of c)"
  with cd obtain y where y: "y \<in> set (entries_of d)" "ce_Key y = ce_Key x" "dp_Hash (ce_Profile y) = dp_Hash (ce_Profile x)"
    "ce_State x = ''RETIRED'' \<longrightarrow> ce_State y = ''RETIRED''" unfolding catalog_later_def by blast
  with de obtain z where "z \<in> set (entries_of f)" "ce_Key z = ce_Key y" "dp_Hash (ce_Profile z) = dp_Hash (ce_Profile y)"
    "ce_State y = ''RETIRED'' \<longrightarrow> ce_State z = ''RETIRED''" unfolding catalog_later_def by blast
  with y show "\<exists>y \<in> set (entries_of f). ce_Key y = ce_Key x \<and> dp_Hash (ce_Profile y) = dp_Hash (ce_Profile x)
      \<and> (ce_State x = ''RETIRED'' \<longrightarrow> ce_State y = ''RETIRED'')" by auto
next
  fix z assume z: "z \<in> set (entries_of f)"
  have above: "\<forall>x \<in> set (entries_of c). pk_datasetID (ce_Key x) = pk_datasetID k \<longrightarrow> pk_version (ce_Key x) < pk_version k"
    if "\<forall>y \<in> set (entries_of d). pk_datasetID (ce_Key y) = pk_datasetID k \<longrightarrow> pk_version (ce_Key y) < pk_version k" for k
    using that cd unfolding catalog_later_def by metis
  from de z have "ce_Key z \<in> published d \<or> (\<forall>x \<in> set (entries_of d).
      pk_datasetID (ce_Key x) = pk_datasetID (ce_Key z) \<longrightarrow> pk_version (ce_Key x) < pk_version (ce_Key z))" unfolding catalog_later_def by blast
  then show "ce_Key z \<in> published c \<or> (\<forall>x \<in> set (entries_of c).
      pk_datasetID (ce_Key x) = pk_datasetID (ce_Key z) \<longrightarrow> pk_version (ce_Key x) < pk_version (ce_Key z))"
  proof
    assume "ce_Key z \<in> published d"
    then obtain y where "y \<in> set (entries_of d)" "ce_Key z = ce_Key y" unfolding published_def by auto
    with cd show ?thesis unfolding catalog_later_def by metis
  qed (use above in blast)
qed

interpretation catalog_chain: revision_chain "transition_ok e" "DatasetProfileCatalog_Valid e" "\<lambda>c. cb_revision (dc_body c)" catalog_later for e
  by unfold_locales (auto simp: catalog_later_refl catalog_transition_iff intro: catalog_later_trans)

section \<open>How far a catalog can go\<close>

definition catalog_rank :: "dataset_catalog \<Rightarrow> nat" where
  "catalog_rank c = card (published c) + card (retired_keys c)"

lemma rank_bounds:
  assumes "DatasetProfileCatalog_Valid e c"
  shows "1 \<le> catalog_rank c" "catalog_rank c \<le> 128"
proof -
  have p: "card (published c) = length (entries_of c)"
    using catalog_facts(5) [OF assms] unfolding published_def by (metis distinct_card length_map list.set_map)
  have "retired_keys c \<subseteq> published c" by (auto simp: retired_keys_def published_def)
  then have "card (retired_keys c) \<le> card (published c)" by (intro card_mono) (simp_all add: published_def)
  with p catalog_facts(2,3) [OF assms] show "1 \<le> catalog_rank c" "catalog_rank c \<le> 128"
    by (auto simp: catalog_rank_def datasetProfileCatalogMaxEntries_def)
qed

lemma transition_rank:
  assumes "transition_ok e c d"
  shows "catalog_rank c < catalog_rank d"
proof -
  from assms have l: "catalog_later c d" and new: "\<not> published d \<subseteq> published c \<or> \<not> retired_keys d \<subseteq> retired_keys c"
    by (simp_all add: catalog_transition_iff)
  from l have p: "published c \<subseteq> published d" unfolding catalog_later_def published_def by (metis (no_types, lifting) image_subset_iff image_eqI)
  have r: "retired_keys c \<subseteq> retired_keys d"
  proof
    fix k assume "k \<in> retired_keys c"
    then obtain x where "x \<in> set (entries_of c)" "ce_State x = ''RETIRED''" "k = ce_Key x" by (auto simp: retired_keys_def)
    with l obtain y where "y \<in> set (entries_of d)" "ce_Key y = k" "ce_State y = ''RETIRED''" unfolding catalog_later_def by blast
    then show "k \<in> retired_keys d" by (auto simp: retired_keys_def)
  qed
  have fin: "finite (published d)" "finite (retired_keys d)" by (simp_all add: published_def retired_keys_def)
  have "card (published c) \<le> card (published d)" "card (retired_keys c) \<le> card (retired_keys d)" using p r fin by (simp_all add: card_mono)
  moreover have "card (published c) < card (published d) \<or> card (retired_keys c) < card (retired_keys d)"
    using new p r fin by (metis psubsetI psubset_card_mono subset_refl)
  ultimately show ?thesis unfolding catalog_rank_def by linarith
qed

lemma chain_rank: "(transition_ok e ^^ n) c d \<Longrightarrow> catalog_rank c + n \<le> catalog_rank d"
proof (induction n arbitrary: d)
  case (Suc n)
  then obtain f where "(transition_ok e ^^ n) c f" "transition_ok e f d" by auto
  with Suc.IH transition_rank show ?case by fastforce
qed simp

end
