(* ===== verification/Dataset_Guarantees.thy ===== *)
theory Dataset_Guarantees
  imports Dataset_History
begin

text \<open>
  The properties of dataset profiles and their catalogs: what the hash of a profile determines and where it does not, what a
  lookup resolves, what a chain of catalog transitions keeps, and that a mounted document reads back as the profile it states.
\<close>

section \<open>A sample\<close>

definition sample_dataset_env :: dataset_env where
  "sample_dataset_env = \<lparr>de_base = \<lparr>me_sha256 = (\<lambda>v. take 32 (rev v @ replicate 32 CHR 0x00)), me_print = (\<lambda>_. True), me_zone = (\<lambda>_. True),
     me_time_parse = (\<lambda>_ _. None), me_date_in = (\<lambda>_ _. []), me_rfc3339 = (\<lambda>_. [])\<rparr>, de_nfc = id, de_fold = (=)\<rparr>"

definition sample_zero_hash :: gostring where
  "sample_zero_hash = ''sha256:'' @ replicate 64 CHR ''0''"

definition sample_field :: "gostring \<Rightarrow> int \<Rightarrow> gostring \<Rightarrow> gostring \<Rightarrow> field_spec" where
  "sample_field token ordinal logical physical = \<lparr>fs_Token = token, fs_SourceOrdinal = ordinal, fs_PhysicalName = token, fs_LogicalType = logical,
     fs_PhysicalType = physical, fs_Nullable = False, fs_Filterable = True, fs_Groupable = True, fs_Sortable = True, fs_OutputAllowed = True,
     fs_AllowedOps = [''EQ'', ''IN''], fs_AllowedValues = []\<rparr>"

definition sample_dataset :: "int \<Rightarrow> int \<Rightarrow> dataset_spec" where
  "sample_dataset version revision = \<lparr>ds_Key = ProfileKey ''sales'' version, ds_Mode = ''LIVE'',
     ds_Source = \<lparr>sp_SourceScopeID = ''scope'', sp_ConnectionID = ''conn'', sp_DatabaseIdentity = ''db'', sp_ProjectionLineageID = ''line'',
       sp_ProjectionRevision = revision, sp_ProjectionContractHash = sample_zero_hash, sp_ExposedSchemaRevision = 1,
       sp_ExposedSchemaHash = sample_zero_hash, sp_SchemaName = ''public'', sp_RelationName = ''sales_v'', sp_RelationKind = ''VIEW''\<rparr>,
     ds_Fields = [sample_field ''id'' 1 ''INT'' ''PG_INT8'', sample_field ''city'' 2 ''TEXT'' ''PG_TEXT''],
     ds_Measures = [\<lparr>ms_ID = ''total'', ms_Reducer = ''SUM'', ms_DistinctField = [], ms_NumeratorField = ''id'', ms_DenominatorField = [],
       ms_Unit = ''RUB'', ms_NullPolicy = ''REQUIRE_COMPLETE'', ms_Eligibility = ''ALL_ROWS''\<rparr>],
     ds_Semantics = \<lparr>sm_DatasetLabel = ''Sales'', sm_DatasetDescription = ''Sales of a day'',
       sm_Fields = [\<lparr>fm_Token = ''city'', fm_Label = ''City'', fm_Description = ''Where'', fm_NullMeaning = ''unknown'', fm_Aliases = [''town'']\<rparr>,
         \<lparr>fm_Token = ''id'', fm_Label = ''Id'', fm_Description = ''Which'', fm_NullMeaning = ''unknown'', fm_Aliases = []\<rparr>],
       sm_Measures = [\<lparr>mm_ID = ''total'', mm_Label = ''Total'', mm_Description = ''Sum'', mm_Aliases = []\<rparr>]\<rparr>,
     ds_Grain = \<lparr>gr_Description = ''One row a sale'', gr_KeyFields = [''id''], gr_DuplicatePolicy = ''REJECT''\<rparr>,
     ds_Time = \<lparr>tp_Kind = ''NONE'', tp_FieldToken = [], tp_ReportingTimezone = [], tp_SourceTimezone = [], tp_Calendar = [], tp_constructed = True\<rparr>,
     ds_Coverage = ''UNKNOWN'',
     ds_Limits = \<lparr>pl_MaxInputRows = 1000, pl_MaxOutputGroups = 10, pl_MaxPeriodDays = 31, pl_MaxResultBytes = 65536, pl_StatementTimeoutMS = 30000\<rparr>\<rparr>"

lemma sample_normalizes_1: "normalizeDatasetProfileSpec sample_dataset_env (sample_dataset 1 1) = Some (sample_dataset 1 1)"
  by code_simp

lemma sample_digest_32: "digest_32 sample_dataset_env"
  by (auto simp: digest_32_def sample_dataset_env_def min_def)

lemma sample_utf8: "json_utf8 (profile_json (sample_dataset 1 1))"
  by code_simp

section \<open>An integer JSON cannot carry\<close>

lemma shortest_from_numeral:
  "shortest_from v (numeral k) =
    (let p = 10 ^ numeral k; low = v div p * p; high = low + p;
         found = filter (\<lambda>c. nearest_double c = v) (if v - low \<le> high - v then [low, high] else [high, low]) in
     case found of [] \<Rightarrow> shortest_from v (pred_numeral k) | c # _ \<Rightarrow> c)"
  by (simp only: numeral_eq_Suc shortest_from.simps)

lemma bit_len_numeral:
  "bit_len 0 = 0" "bit_len 1 = 1" "bit_len (Suc 0) = 1" "bit_len (numeral k) = bit_len (numeral k div 2) + 1"
  by (simp_all add: bit_len.simps [of 0] bit_len.simps [of 1] bit_len.simps [of "Suc 0"] bit_len.simps [of "numeral k"])

lemma nearest_double_numeral: "nearest_double 0 = 0" "nearest_double (numeral k) =
    (let e = bit_len (numeral k) - 53; q = (numeral k :: nat) div 2 ^ e; r = (numeral k :: nat) mod 2 ^ e in
     if e = 0 then numeral k
     else (if 2 * r > 2 ^ e \<or> (2 * r = 2 ^ e \<and> odd q) then q + 1 else q) * 2 ^ e)"
  by (simp_all add: nearest_double_def bit_len_numeral(1))

lemma json_number_rounds: "json_number 9007199254740993 = 9007199254740992"
proof -
  have d: "length (nat_digits 9007199254740992) = 16" by (simp add: nat_digits.simps)
  have r: "nearest_double 9007199254740993 = 9007199254740992" by (simp add: nearest_double_numeral bit_len_numeral)
  have "shortest_from 9007199254740992 16 = 9007199254740992"
    by (simp add: shortest_from_numeral Let_def nearest_double_numeral bit_len_numeral)
  then show ?thesis by (simp add: json_number_def Let_def d r)
qed
section \<open>What the hash determines\<close>

lemma normalize_pinned:
  assumes "normalizeDatasetProfileSpec e s = Some n" "ProfileKey_Valid k" "SourceProjection_Valid v"
  shows "normalizeDatasetProfileSpec e (s\<lparr>ds_Key := k, ds_Source := v\<rparr>) = Some (n\<lparr>ds_Key := k, ds_Source := v\<rparr>)"
  using assms unfolding normalizeDatasetProfileSpec_def
  by (cases "fields_pass e 1 [] [] [] False (sort_key fs_SourceOrdinal (ds_Fields s))") (auto simp: Let_def split: if_splits)

lemma normalize_revision:
  assumes "normalizeDatasetProfileSpec e s = Some n" "r > 0"
  shows "normalizeDatasetProfileSpec e (s\<lparr>ds_Source := (ds_Source s)\<lparr>sp_ProjectionRevision := r\<rparr>\<rparr>)
    = Some (n\<lparr>ds_Source := (ds_Source n)\<lparr>sp_ProjectionRevision := r\<rparr>\<rparr>)"
proof -
  note c = normalize_checked [OF assms(1), unfolded normalize_Some [OF assms(1)], simplified]
  have v: "SourceProjection_Valid ((ds_Source s)\<lparr>sp_ProjectionRevision := r\<rparr>)"
    using c(4) assms(2) by (simp add: SourceProjection_Valid_def)
  show ?thesis using normalize_pinned [OF assms(1) c(1) v] unfolding normalize_Some [OF assms(1)] by simp
qed

lemma revision_json:
  assumes "json_number r = json_number (sp_ProjectionRevision (ds_Source n))"
  shows "json_utf8 (profile_json (n\<lparr>ds_Source := (ds_Source n)\<lparr>sp_ProjectionRevision := r\<rparr>\<rparr>)) = json_utf8 (profile_json n)"
    "jcs (profile_json (n\<lparr>ds_Source := (ds_Source n)\<lparr>sp_ProjectionRevision := r\<rparr>\<rparr>)) = jcs (profile_json n)"
  using assms by (simp_all add: profile_json_def canonical_source_def jcs_injective)

text \<open>C36. A profile whose projection revision is replaced by another one that JSON prints alike seals to the same hash.\<close>

theorem revision_hash_collision:
  assumes p: "NewDatasetProfile e s = Some p" and r: "r > 0" "json_number r = json_number (sp_ProjectionRevision (ds_Source s))"
  shows "\<exists>q. NewDatasetProfile e (s\<lparr>ds_Source := (ds_Source s)\<lparr>sp_ProjectionRevision := r\<rparr>\<rparr>) = Some q \<and> dp_Hash q = dp_Hash p
    \<and> sp_ProjectionRevision (ds_Source (dp_Spec q)) = r \<and> (q = p \<longleftrightarrow> r = sp_ProjectionRevision (ds_Source s))"
proof -
  let ?n = "dp_Spec p"
  let ?m = "?n\<lparr>ds_Source := (ds_Source ?n)\<lparr>sp_ProjectionRevision := r\<rparr>\<rparr>"
  note n = sealed_hash(1) [OF p]
  have src: "ds_Source ?n = ds_Source s" unfolding normalize_Some [OF n] by simp
  have utf8: "json_utf8 (profile_json ?n)"
    using p n by (auto simp: NewDatasetProfile_def canonicalDatasetProfile_def CanonicalJSON_def split: option.splits if_splits)
  note j = revision_json [of r ?n, unfolded src, OF r(2)]
  have "NewDatasetProfile e (s\<lparr>ds_Source := (ds_Source s)\<lparr>sp_ProjectionRevision := r\<rparr>\<rparr>)
      = Some \<lparr>dp_Spec = ?m, dp_Hash = dp_Hash p\<rparr>"
    using normalize_revision [OF n r(1)] j utf8 sealed_hash(2) [OF p]
    by (simp add: NewDatasetProfile_def canonicalDatasetProfile_def CanonicalJSON_def sealed_bytes_def src)
  moreover have "\<lparr>dp_Spec = ?m, dp_Hash = dp_Hash p\<rparr> = p \<longleftrightarrow> r = sp_ProjectionRevision (ds_Source s)"
    unfolding src [symmetric] by (cases p; cases "dp_Spec p"; cases "ds_Source (dp_Spec p)") auto
  ultimately show ?thesis by simp
qed

definition sealed_sample :: "int \<Rightarrow> int \<Rightarrow> dataset_profile" where
  "sealed_sample v r = \<lparr>dp_Spec = sample_dataset v r,
     dp_Hash = canon_Hash sample_dataset_env (jcs (profile_json (sample_dataset v r)))\<rparr>"

lemma sample_dataset_seals:
  assumes "v > 0" "r > 0"
  shows "NewDatasetProfile sample_dataset_env (sample_dataset v r) = Some (sealed_sample v r)"
proof -
  have utf8: "json_utf8 (profile_json (sample_dataset v r))"
    using sample_utf8 by (simp add: sample_dataset_def profile_json_def canonical_source_def canonical_key_def)
  let ?s = "sample_dataset 1 1"
  have "sample_dataset v r = ?s\<lparr>ds_Key := ProfileKey ''sales'' v, ds_Source := (ds_Source ?s)\<lparr>sp_ProjectionRevision := r\<rparr>\<rparr>"
    by (simp add: sample_dataset_def)
  moreover have "ProfileKey_Valid (ProfileKey ''sales'' v)"
    using assms(1) normalize_checked(1) [OF sample_normalizes_1] by (simp add: ProfileKey_Valid_def sample_dataset_def)
  moreover have "SourceProjection_Valid ((ds_Source ?s)\<lparr>sp_ProjectionRevision := r\<rparr>)"
    using assms(2) normalize_checked(4) [OF sample_normalizes_1] by (simp add: SourceProjection_Valid_def)
  ultimately have "normalizeDatasetProfileSpec sample_dataset_env (sample_dataset v r) = Some (sample_dataset v r)"
    using normalize_pinned [OF sample_normalizes_1] by metis
  with utf8 show ?thesis
    by (simp add: NewDatasetProfile_def canonicalDatasetProfile_def CanonicalJSON_def sealed_sample_def)
qed

theorem revision_hash_collision_witness:
  "\<exists>q. NewDatasetProfile sample_dataset_env (sample_dataset 1 9007199254740993) = Some q
     \<and> dp_Hash q = dp_Hash (sealed_sample 1 9007199254740992) \<and> q \<noteq> sealed_sample 1 9007199254740992"
proof -
  have s: "ds_Source (sample_dataset 1 9007199254740992)\<lparr>sp_ProjectionRevision := r\<rparr> = ds_Source (sample_dataset 1 r)"
    "(sample_dataset 1 9007199254740992)\<lparr>ds_Source := ds_Source (sample_dataset 1 r)\<rparr> = sample_dataset 1 r"
    "sp_ProjectionRevision (ds_Source (sample_dataset 1 r)) = r" for r
    by (simp_all add: sample_dataset_def)
  have "json_number 9007199254740993 = json_number 9007199254740992" using json_number_rounds by simp
  then show ?thesis
    using revision_hash_collision [OF sample_dataset_seals [of 1 9007199254740992], of 9007199254740993] by (simp add: s) blast
qed

text \<open>C19. Two sealed profiles with one hash have the same specification, up to the digits JSON keeps of the version and the two
  revisions, unless SHA-256 collides on their documents.\<close>

theorem profile_hash_binds:
  assumes p: "NewDatasetProfile e s = Some p" and q: "NewDatasetProfile e t = Some q" and h: "dp_Hash p = dp_Hash q"
    and "inj_on (me_sha256 (de_base e)) {sealed_bytes p, sealed_bytes q}"
  shows "rounded_spec (dp_Spec p) = rounded_spec (dp_Spec q)"
  by (rule hash_binds [OF assms])

theorem profile_hash_binds_witness:
  "rounded_spec (dp_Spec (sealed_sample 1 9007199254740992)) = rounded_spec (dp_Spec (sealed_sample 1 9007199254740993))"
proof -
  have "sealed_bytes (sealed_sample 1 9007199254740993) = sealed_bytes (sealed_sample 1 9007199254740992)"
    by (simp add: sealed_bytes_def sealed_sample_def sample_dataset_def profile_json_def canonical_source_def json_number_rounds jcs_injective)
  then show ?thesis
    using profile_hash_binds [OF sample_dataset_seals [of 1 9007199254740992] sample_dataset_seals [of 1 9007199254740993]]
    by (simp add: sealed_bytes_def sealed_sample_def)
qed

section \<open>Catalogs\<close>

text \<open>The document of a normalized catalog is UTF-8: sealing a catalog fails only where normalizing fails.\<close>

lemma hash_utf8: "validProfileHash h \<Longrightarrow> valid_utf8 h"
proof -
  assume h: "validProfileHash h"
  then have p: "h = ''sha256:'' @ drop 7 h" "list_all is_hex (drop 7 h)"
    by (auto simp: validProfileHash_def has_prefix_iff split: if_splits)
  have "list_all (\<lambda>c. \<not> high_bit c) (drop 7 h)"
    using p(2) by (rule list.pred_mono_strong) (auto simp: is_hex_def is_digit_def high_bit_iff)
  then have "list_all (\<lambda>c. \<not> high_bit c) h" by (subst p(1)) (simp add: high_bit_iff)
  then show "valid_utf8 h" using utf8_all_ascii by blast
qed

lemma state_utf8: "ProfileState_Valid s \<Longrightarrow> valid_utf8 s"
proof -
  have "valid_utf8 ''ACTIVE''" "valid_utf8 ''RETIRED''" by code_simp+
  then show "ProfileState_Valid s \<Longrightarrow> valid_utf8 s" by (auto simp: ProfileState_Valid_def)
qed

lemma catalog_utf8:
  assumes "normalizeDatasetProfileCatalog e b = Some n"
  shows "json_utf8 (catalog_json n)"
proof -
  have "validProfileIdentity (cb_id b)" using assms by (simp add: normalizeDatasetProfileCatalog_def split: if_splits)
  then have i: "valid_utf8 (cb_id n)" unfolding normalize_catalog_Some(1) [OF assms] by (simp add: validProfileIdentity_def split: if_splits)
  have "json_utf8 (canonical_entry x)" if "x \<in> set (cb_entries n)" for x
  proof -
    note v = normalize_catalog_Some(6) [OF assms that]
    have "valid_utf8 (dp_Hash (ce_Profile x))" using valid_profile_fields(2) v hash_utf8 by blast
    moreover have "valid_utf8 (pk_datasetID (ce_Key x))"
      using valid_profile_fields(1) [of e "ce_Profile x"] v by (auto simp: ProfileKey_Valid_def validProfileIdentity_def split: if_splits)
    moreover have "valid_utf8 (ce_State x)" using v state_utf8 by blast
    ultimately show ?thesis by (simp add: canonical_entry_def canonical_key_def)
  qed
  moreover have "valid_utf8 datasetProfileCatalogSchemaVersion" by code_simp
  ultimately show ?thesis using i by (simp add: catalog_json_def list_all_iff)
qed

definition sample_catalog :: "int \<Rightarrow> (int \<times> gostring) list \<Rightarrow> dataset_catalog" where
  "sample_catalog revision versions =
    (let b = \<lparr>cb_id = ''main'', cb_revision = revision,
               cb_entries = map (\<lambda>(v, state). \<lparr>ce_Profile = sealed_sample v 1, ce_State = state\<rparr>) versions\<rparr>
     in \<lparr>dc_body = b, dc_hash = canon_Hash sample_dataset_env (jcs (catalog_json b))\<rparr>)"

lemma sample_profile_valid: "v > 0 \<Longrightarrow> DatasetProfile_Valid sample_dataset_env (sealed_sample v 1)"
  using sample_dataset_seals [of v 1] profile_valid_iff_sealed [OF sample_digest_32, of "sealed_sample v 1"]
  by (simp add: sealed_sample_def)

lemma sample_catalog_valid:
  assumes "revision > 0" "list_all (\<lambda>(v, state). v > 0 \<and> ProfileState_Valid state) vs" "1 \<le> length vs" "length vs \<le> 64"
    "sorted_wrt (<) (map fst vs)"
  shows "DatasetProfileCatalog_Valid sample_dataset_env (sample_catalog revision vs)"
proof -
  let ?b = "dc_body (sample_catalog revision vs)"
  have keys: "map ce_Key (cb_entries ?b) = map (\<lambda>v. ProfileKey ''sales'' (fst v)) vs"
    by (simp add: sample_catalog_def Let_def split_beta sealed_sample_def sample_dataset_def)
  have "sorted_wrt (<) (map ce_Key (cb_entries ?b))"
    using assms(5) unfolding keys by (simp add: sorted_wrt_map less_profile_key_def profileKeyLess_def)
  then have s: "sort_key ce_Key (cb_entries ?b) = cb_entries ?b" "distinct_adj (map ce_Key (cb_entries ?b))"
    by (simp_all add: sort_key_sorted strict_sorted_iff adjacent_sorted)
  have "list_all (\<lambda>x. DatasetProfile_Valid sample_dataset_env (ce_Profile x) \<and> ProfileState_Valid (ce_State x)) (cb_entries ?b)"
    using assms(2) sample_profile_valid by (auto simp: sample_catalog_def Let_def list_all_iff)
  moreover have "validProfileIdentity ''main''" by code_simp
  ultimately have n: "normalizeDatasetProfileCatalog sample_dataset_env ?b = Some ?b"
    using assms(1,3,4) s by (simp add: normalizeDatasetProfileCatalog_def datasetProfileCatalogMaxEntries_def Let_def)
      (auto simp: sample_catalog_def Let_def)
  then have "NewDatasetProfileCatalog sample_dataset_env (cb_id ?b) (cb_revision ?b) (cb_entries ?b) = Some (sample_catalog revision vs)"
    using catalog_utf8 [OF n] by (simp add: NewDatasetProfileCatalog_def canonicalDatasetProfileCatalog_def CanonicalJSON_def sample_catalog_def Let_def)
  then show ?thesis by (simp add: catalog_valid_iff_sealed [OF sample_digest_32])
qed

lemma single_set: "set xs = {y} \<Longrightarrow> distinct xs \<Longrightarrow> xs = [y]"
  by (cases xs; cases "tl xs") auto

text \<open>A key and a hash resolve to a profile exactly if the snapshot is valid and holds that profile as active; the
  profile is sealed, and it is the only one of its key.\<close>

theorem resolve_active_exact:
  "ResolveActive e c k h = Some p \<longleftrightarrow> DatasetProfileCatalog_Valid e c
     \<and> filter (\<lambda>x. ce_Key x = k) (entries_of c) = [\<lparr>ce_Profile = p, ce_State = ''ACTIVE''\<rparr>] \<and> dp_Hash p = h"
proof (cases "DatasetProfileCatalog_Valid e c")
  case True
  have "filter (\<lambda>x. ce_Key x = k) (entries_of c) = [y] \<longleftrightarrow> y \<in> set (entries_of c) \<and> ce_Key y = k" for y
  proof
    assume "filter (\<lambda>x. ce_Key x = k) (entries_of c) = [y]"
    then have "y \<in> set (filter (\<lambda>x. ce_Key x = k) (entries_of c))" by simp
    then show "y \<in> set (entries_of c) \<and> ce_Key y = k" by simp
  next
    assume y: "y \<in> set (entries_of c) \<and> ce_Key y = k"
    then have "set (filter (\<lambda>x. ce_Key x = k) (entries_of c)) = {y}"
      using distinct_map_unique [OF catalog_facts(5) [OF True]] by auto
    moreover have "distinct (filter (\<lambda>x. ce_Key x = k) (entries_of c))"
      using catalog_facts(5) [OF True] by (simp add: distinct_map)
    ultimately show "filter (\<lambda>x. ce_Key x = k) (entries_of c) = [y]" by (rule single_set)
  qed
  moreover have "(\<exists>x \<in> set (entries_of c). ce_Key x = k \<and> ce_State x = ''ACTIVE'' \<and> ce_Profile x = p \<and> dp_Hash p = h)
      \<longleftrightarrow> \<lparr>ce_Profile = p, ce_State = ''ACTIVE''\<rparr> \<in> set (entries_of c) \<and> dp_Key p = k \<and> dp_Hash p = h"
  proof
    assume "\<exists>x \<in> set (entries_of c). ce_Key x = k \<and> ce_State x = ''ACTIVE'' \<and> ce_Profile x = p \<and> dp_Hash p = h"
    then obtain x where x: "x \<in> set (entries_of c)" "ce_Key x = k" "ce_State x = ''ACTIVE''" "ce_Profile x = p" "dp_Hash p = h" by blast
    have "x = \<lparr>ce_Profile = p, ce_State = ''ACTIVE''\<rparr>" using x(3,4) by (cases x) simp
    with x show "\<lparr>ce_Profile = p, ce_State = ''ACTIVE''\<rparr> \<in> set (entries_of c) \<and> dp_Key p = k \<and> dp_Hash p = h" by auto
  next
    assume "\<lparr>ce_Profile = p, ce_State = ''ACTIVE''\<rparr> \<in> set (entries_of c) \<and> dp_Key p = k \<and> dp_Hash p = h"
    then show "\<exists>x \<in> set (entries_of c). ce_Key x = k \<and> ce_State x = ''ACTIVE'' \<and> ce_Profile x = p \<and> dp_Hash p = h"
      by (intro bexI [of _ "\<lparr>ce_Profile = p, ce_State = ''ACTIVE''\<rparr>"]) simp_all
  qed
  ultimately show ?thesis using True unfolding resolve_active_iff by simp
qed (simp add: resolve_active_iff)

lemma inspect_none:
  assumes "DatasetProfileCatalog_Valid e c"
  shows "dc_Inspect e c k = None \<longleftrightarrow> k \<notin> published c"
proof
  assume "dc_Inspect e c k = None"
  then show "k \<notin> published c" using inspect_iff [of e c k] assms by (auto simp: published_def)
next
  assume k: "k \<notin> published c"
  have "dc_Inspect e c k \<noteq> Some x" for x using k by (auto simp: inspect_iff published_def)
  then show "dc_Inspect e c k = None" by (cases "dc_Inspect e c k") auto
qed

text \<open>C18. Along any chain of accepted transitions the revision counts the steps, of which there are at most 127; a published
  key keeps the hash of its profile; a retired one never resolves again; what resolves was active under that hash before,
  or is a new key with a version above all earlier ones of its dataset.\<close>

theorem catalog_history:
  assumes "DatasetProfileCatalog_Valid e c" "(transition_ok e ^^ n) c d"
  shows "DatasetProfileCatalog_Valid e d \<and> cb_id (dc_body d) = cb_id (dc_body c)
    \<and> cb_revision (dc_body d) = cb_revision (dc_body c) + int n \<and> n \<le> 127
    \<and> (\<forall>k x. dc_Inspect e c k = Some x \<longrightarrow>
         (\<exists>y. dc_Inspect e d k = Some y \<and> dp_Hash (ce_Profile y) = dp_Hash (ce_Profile x)
            \<and> (ce_State x = ''RETIRED'' \<longrightarrow> (\<forall>h. ResolveActive e d k h = None))))
    \<and> (\<forall>k h p. ResolveActive e d k h = Some p \<longrightarrow>
         (\<exists>q. ResolveActive e c k h = Some q)
         \<or> (\<forall>x \<in> set (dc_Entries e c). pk_datasetID (ce_Key x) = pk_datasetID k \<longrightarrow> pk_version (ce_Key x) < pk_version k))"
proof -
  have r: "DatasetProfileCatalog_Valid e d" "cb_revision (dc_body d) = cb_revision (dc_body c) + int n" "catalog_later c d"
    using catalog_chain.chain_revises [OF assms(2,1)] by blast+
  have n: "n \<le> 127" using chain_rank [OF assms(2)] rank_bounds(1) [OF assms(1)] rank_bounds(2) [OF r(1)] by linarith
  have kept: "\<exists>y. dc_Inspect e d k = Some y \<and> dp_Hash (ce_Profile y) = dp_Hash (ce_Profile x)
      \<and> (ce_State x = ''RETIRED'' \<longrightarrow> (\<forall>h. ResolveActive e d k h = None))" if x: "dc_Inspect e c k = Some x" for k x
  proof -
    from x r(3) obtain y where y: "y \<in> set (entries_of d)" "ce_Key y = k" "dp_Hash (ce_Profile y) = dp_Hash (ce_Profile x)"
      "ce_State x = ''RETIRED'' \<longrightarrow> ce_State y = ''RETIRED''" unfolding inspect_iff catalog_later_def by blast
    then have i: "dc_Inspect e d k = Some y" using r(1) by (simp add: inspect_iff)
    moreover have "ResolveActive e d k h = None" if "ce_State x = ''RETIRED''" for h
      using i y(4) that by (simp add: ResolveActive_def)
    ultimately show ?thesis using y(3) by blast
  qed
  have new: "(\<exists>q. ResolveActive e c k h = Some q)
      \<or> (\<forall>x \<in> set (dc_Entries e c). pk_datasetID (ce_Key x) = pk_datasetID k \<longrightarrow> pk_version (ce_Key x) < pk_version k)"
    if p: "ResolveActive e d k h = Some p" for k h p
  proof (cases "k \<in> published c")
    case True
    then obtain x where x: "dc_Inspect e c k = Some x" using inspect_none [OF assms(1)] by blast
    from p obtain y where y: "dc_Inspect e d k = Some y" "dp_Hash (ce_Profile y) = h" using r(1)
      by (auto simp: resolve_active_iff inspect_iff)
    with kept [OF x] p have h: "dp_Hash (ce_Profile x) = h" "ce_State x \<noteq> ''RETIRED''" by auto
    have "ce_State x = ''ACTIVE''" using h(2) state_cases [OF assms(1)] x by (auto simp: inspect_iff)
    with x h(1) show ?thesis by (auto simp: resolve_active_iff inspect_iff)
  next
    case False
    from p have "k \<in> published d" using r(1) by (auto simp: resolve_active_iff published_def)
    then show ?thesis using False r(3) assms(1) unfolding catalog_later_def published_def by (auto simp: dc_Entries_def)
  qed
  from r(3) have "cb_id (dc_body d) = cb_id (dc_body c)" by (simp add: catalog_later_def)
  with r n kept new show ?thesis by blast
qed

theorem catalog_history_witness:
  "\<forall>h. ResolveActive sample_dataset_env (sample_catalog 3 [(1, ''RETIRED''), (2, ''ACTIVE'')]) (ProfileKey ''sales'' 1) h = None"
proof -
  let ?c = "sample_catalog 2 [(1, ''RETIRED'')]"
  let ?d = "sample_catalog 3 [(1, ''RETIRED''), (2, ''ACTIVE'')]"
  have v: "DatasetProfileCatalog_Valid sample_dataset_env ?c" "DatasetProfileCatalog_Valid sample_dataset_env ?d"
    by (rule sample_catalog_valid; simp add: ProfileState_Valid_def)+
  have k: "dp_Key (sealed_sample v 1) = ProfileKey ''sales'' v" for v by (simp add: sealed_sample_def sample_dataset_def)
  have "transition_ok sample_dataset_env ?c ?d"
    using v by (simp add: catalog_transition_iff catalog_later_def published_def retired_keys_def sample_catalog_def Let_def k)
  then have "(transition_ok sample_dataset_env ^^ 1) ?c ?d" by (simp only: relpowp_1)
  note h = catalog_history [OF v(1) this]
  have "dc_Inspect sample_dataset_env ?c (ProfileKey ''sales'' 1) = Some \<lparr>ce_Profile = sealed_sample 1 1, ce_State = ''RETIRED''\<rparr>"
    using v(1) by (simp add: inspect_iff) (simp add: sample_catalog_def Let_def k)
  with h show ?thesis by fastforce
qed

section \<open>Mounted documents\<close>

text \<open>The document of a specification: every member present.\<close>

definition wire_of_field :: "field_spec \<Rightarrow> wire_field" where
  "wire_of_field f = \<lparr>wf_Token = Some (fs_Token f), wf_SourceOrdinal = Some (fs_SourceOrdinal f), wf_PhysicalName = Some (fs_PhysicalName f),
     wf_LogicalType = Some (fs_LogicalType f), wf_PhysicalType = Some (fs_PhysicalType f), wf_Nullable = Some (fs_Nullable f),
     wf_Filterable = Some (fs_Filterable f), wf_Groupable = Some (fs_Groupable f), wf_Sortable = Some (fs_Sortable f),
     wf_OutputAllowed = Some (fs_OutputAllowed f), wf_AllowedOps = Some (fs_AllowedOps f), wf_AllowedValues = Some (fs_AllowedValues f)\<rparr>"

definition wire_of_measure :: "measure_spec \<Rightarrow> wire_measure" where
  "wire_of_measure m = \<lparr>wm_ID = Some (ms_ID m), wm_Reducer = Some (ms_Reducer m), wm_DistinctField = Some (ms_DistinctField m),
     wm_NumeratorField = Some (ms_NumeratorField m), wm_DenominatorField = Some (ms_DenominatorField m), wm_Unit = Some (ms_Unit m),
     wm_NullPolicy = Some (ms_NullPolicy m), wm_Eligibility = Some (ms_Eligibility m)\<rparr>"

definition wire_of_source :: "source_projection \<Rightarrow> wire_source" where
  "wire_of_source v = \<lparr>ws_SourceScopeID = Some (sp_SourceScopeID v), ws_ConnectionID = Some (sp_ConnectionID v),
     ws_DatabaseIdentity = Some (sp_DatabaseIdentity v), ws_ProjectionLineageID = Some (sp_ProjectionLineageID v),
     ws_ProjectionRevision = Some (sp_ProjectionRevision v), ws_ProjectionContractHash = Some (sp_ProjectionContractHash v),
     ws_ExposedSchemaRevision = Some (sp_ExposedSchemaRevision v), ws_ExposedSchemaHash = Some (sp_ExposedSchemaHash v),
     ws_SchemaName = Some (sp_SchemaName v), ws_RelationName = Some (sp_RelationName v), ws_RelationKind = Some (sp_RelationKind v)\<rparr>"

definition wire_of_semantics :: "profile_semantics \<Rightarrow> wire_semantics" where
  "wire_of_semantics v = \<lparr>wz_DatasetLabel = Some (sm_DatasetLabel v), wz_DatasetDescription = Some (sm_DatasetDescription v),
     wz_Fields = Some (map (\<lambda>f. \<lparr>wx_Token = Some (fm_Token f), wx_Label = Some (fm_Label f), wx_Description = Some (fm_Description f),
       wx_NullMeaning = Some (fm_NullMeaning f), wx_Aliases = Some (fm_Aliases f)\<rparr>) (sm_Fields v)),
     wz_Measures = Some (map (\<lambda>m. \<lparr>wy_ID = Some (mm_ID m), wy_Label = Some (mm_Label m), wy_Description = Some (mm_Description m),
       wy_Aliases = Some (mm_Aliases m)\<rparr>) (sm_Measures v))\<rparr>"

definition wire_of_spec :: "dataset_spec \<Rightarrow> wire_profile" where
  "wire_of_spec s = \<lparr>wp_SchemaVersion = Some datasetProfileSchemaVersion,
     wp_Key = Some \<lparr>wk_DatasetID = Some (pk_datasetID (ds_Key s)), wk_Version = Some (pk_version (ds_Key s))\<rparr>, wp_Mode = Some (ds_Mode s),
     wp_Source = Some (wire_of_source (ds_Source s)), wp_Fields = Some (map wire_of_field (ds_Fields s)),
     wp_Measures = Some (map wire_of_measure (ds_Measures s)), wp_Semantics = Some (wire_of_semantics (ds_Semantics s)),
     wp_Grain = Some \<lparr>wg_Description = Some (gr_Description (ds_Grain s)), wg_KeyFields = Some (gr_KeyFields (ds_Grain s)),
       wg_DuplicatePolicy = Some (gr_DuplicatePolicy (ds_Grain s))\<rparr>,
     wp_Time = Some \<lparr>wt_Kind = Some (tp_Kind (ds_Time s)), wt_FieldToken = Some (tp_FieldToken (ds_Time s)),
       wt_ReportingTimezone = Some (tp_ReportingTimezone (ds_Time s)), wt_SourceTimezone = Some (tp_SourceTimezone (ds_Time s)),
       wt_Calendar = Some (tp_Calendar (ds_Time s)), wt_TimezoneRulesBundleSHA256 = Some tz_BundleSHA256\<rparr>,
     wp_Coverage = Some (ds_Coverage s),
     wp_Limits = Some \<lparr>wl_MaxInputRows = Some (pl_MaxInputRows (ds_Limits s)), wl_MaxOutputGroups = Some (pl_MaxOutputGroups (ds_Limits s)),
       wl_MaxPeriodDays = Some (pl_MaxPeriodDays (ds_Limits s)), wl_MaxResultBytes = Some (pl_MaxResultBytes (ds_Limits s)),
       wl_StatementTimeoutMS = Some (pl_StatementTimeoutMS (ds_Limits s))\<rparr>\<rparr>"

definition wire_of_catalog :: "catalog_body \<Rightarrow> wire_catalog" where
  "wire_of_catalog b = \<lparr>wc_SchemaVersion = Some ''knowvault-dataset-profile-catalog-mount-v1'', wc_CatalogID = Some (cb_id b),
     wc_Revision = Some (cb_revision b),
     wc_Entries = Some (map (\<lambda>x. \<lparr>we_State = Some (ce_State x), we_Profile = Some (wire_of_spec (dp_Spec (ce_Profile x)))\<rparr>) (cb_entries b))\<rparr>"

lemma those_inverse: "(\<And>x. x \<in> set xs \<Longrightarrow> f (g x) = Some x) \<Longrightarrow> those (map f (map g xs)) = Some xs"
  by (induction xs) simp_all

lemma granted_same:
  assumes "list_all PredicateOperator_Valid xs" "sorted_wrt (<) (map predicateOperatorRank xs)"
  shows "concat (map (\<lambda>c. filter (\<lambda>r. r = c) xs) canonicalPredicateOperators) = xs"
proof -
  have d: "distinct xs" using assms(2) by (simp add: strict_sorted_iff distinct_map)
  have inj: "inj_on predicateOperatorRank (set canonicalPredicateOperators)"
    by (auto simp: inj_on_def canonicalPredicateOperators_def predicateOperatorRank_def)
  have ranks: "sorted_wrt (<) (map predicateOperatorRank canonicalPredicateOperators)" by code_simp
  have "filter (\<lambda>r. r = c) xs = (if c \<in> set xs then [c] else [])" for c
    using d by (induction xs) auto
  then have f: "concat (map (\<lambda>c. filter (\<lambda>r. r = c) xs) cs) = filter (\<lambda>c. c \<in> set xs) cs" for cs
    by (induction cs) auto
  let ?ys = "filter (\<lambda>c. c \<in> set xs) canonicalPredicateOperators"
  have sub: "set xs \<subseteq> set canonicalPredicateOperators" using assms(1) by (auto simp: list_all_iff PredicateOperator_Valid_def)
  have "sorted_wrt (<) (map predicateOperatorRank ?ys)"
    using ranks by (simp add: sorted_wrt_map sorted_wrt_filter)
  moreover have "set (map predicateOperatorRank ?ys) = set (map predicateOperatorRank xs)" using sub by auto
  ultimately have "map predicateOperatorRank ?ys = map predicateOperatorRank xs"
    using assms(2) by (intro sorted_distinct_set_unique) (simp_all add: strict_sorted_iff)
  moreover have "inj_on predicateOperatorRank (set ?ys \<union> set xs)" using inj sub by (auto intro: inj_on_subset)
  ultimately have "?ys = xs" by (simp add: inj_on_map_eq_map)
  then show ?thesis by (simp add: f)
qed

lemma NewFieldSpec_same: "FieldSpec_Valid e f \<Longrightarrow> NewFieldSpec e f = Some f"
proof -
  assume v: "FieldSpec_Valid e f"
  then have ops: "length (fs_AllowedOps f) \<le> length canonicalPredicateOperators" "length (fs_AllowedValues f) \<le> maxFieldAllowedValues"
    "list_all PredicateOperator_Valid (fs_AllowedOps f)" "sorted_wrt (<) (map predicateOperatorRank (fs_AllowedOps f))"
    "list_all (validFieldAllowedValue e) (fs_AllowedValues f)" "sorted_wrt (<) (fs_AllowedValues f)"
    by (auto simp: FieldSpec_Valid_def list_all_iff split: if_splits)
  have "allowed_values_loop e before vs" if "list_all (validFieldAllowedValue e) vs" "sorted_wrt (<) vs" "\<forall>b. before = Some b \<longrightarrow> b \<notin> set vs" for before vs
    using that by (induction e before vs rule: allowed_values_loop.induct) auto
  then have "allowed_values_loop e None (fs_AllowedValues f)" using ops by simp
  moreover have "sort (fs_AllowedValues f) = fs_AllowedValues f" using ops(6) by (simp add: sort_key_id_if_sorted strict_sorted_iff)
  ultimately show ?thesis using v ops granted_same [OF ops(3,4)] by (simp add: NewFieldSpec_def Let_def)
qed

lemma NewProfileSemantics_same: "ProfileSemantics_Valid e v \<Longrightarrow> NewProfileSemantics e v = Some v"
proof -
  assume v: "ProfileSemantics_Valid e v"
  then have s: "sorted_wrt (<) (map fm_Token (sm_Fields v))" "sorted_wrt (<) (map mm_ID (sm_Measures v))" by (simp_all add: ProfileSemantics_Valid_def)
  then have k: "sort_key fm_Token (sm_Fields v) = sm_Fields v" "sort_key mm_ID (sm_Measures v) = sm_Measures v"
    by (simp_all add: sort_key_sorted strict_sorted_iff)
  have "distinct_adj (map fm_Token (sm_Fields v))" "distinct_adj (map mm_ID (sm_Measures v))"
    using s adjacent_sorted strict_sorted_imp_sorted by blast+
  then show ?thesis using v by (simp add: NewProfileSemantics_def ProfileSemantics_Valid_def k Let_def)
qed

lemma NewDatasetGrain_same: "DatasetGrain_Valid v \<Longrightarrow> NewDatasetGrain v = Some v"
proof -
  assume v: "DatasetGrain_Valid v"
  then have "sorted (gr_KeyFields v)" by (auto simp: DatasetGrain_Valid_def strict_sorted_iff split: if_splits)
  then have "v\<lparr>gr_KeyFields := sort (gr_KeyFields v)\<rparr> = v" by (simp add: sort_key_id_if_sorted)
  then show ?thesis using v by (simp add: NewDatasetGrain_def Let_def)
qed

lemma wire_parts:
  assumes n: "normalizeDatasetProfileSpec e s = Some s"
  shows "wire_key_value \<lparr>wk_DatasetID = Some (pk_datasetID (ds_Key s)), wk_Version = Some (pk_version (ds_Key s))\<rparr> = Some (ds_Key s)"
    "wire_source_value (wire_of_source (ds_Source s)) = Some (ds_Source s)"
    "those (map (wire_field_value e) (map wire_of_field (ds_Fields s))) = Some (ds_Fields s)"
    "those (map wire_measure_value (map wire_of_measure (ds_Measures s))) = Some (ds_Measures s)"
    "wire_semantics_value e (wire_of_semantics (ds_Semantics s)) = Some (ds_Semantics s)"
    "wire_grain_value \<lparr>wg_Description = Some (gr_Description (ds_Grain s)), wg_KeyFields = Some (gr_KeyFields (ds_Grain s)),
       wg_DuplicatePolicy = Some (gr_DuplicatePolicy (ds_Grain s))\<rparr> = Some (ds_Grain s)"
    "wire_time_value e \<lparr>wt_Kind = Some (tp_Kind (ds_Time s)), wt_FieldToken = Some (tp_FieldToken (ds_Time s)),
       wt_ReportingTimezone = Some (tp_ReportingTimezone (ds_Time s)), wt_SourceTimezone = Some (tp_SourceTimezone (ds_Time s)),
       wt_Calendar = Some (tp_Calendar (ds_Time s)), wt_TimezoneRulesBundleSHA256 = Some tz_BundleSHA256\<rparr> = Some (ds_Time s)"
    "wire_limits_value \<lparr>wl_MaxInputRows = Some (pl_MaxInputRows (ds_Limits s)), wl_MaxOutputGroups = Some (pl_MaxOutputGroups (ds_Limits s)),
       wl_MaxPeriodDays = Some (pl_MaxPeriodDays (ds_Limits s)), wl_MaxResultBytes = Some (pl_MaxResultBytes (ds_Limits s)),
       wl_StatementTimeoutMS = Some (pl_StatementTimeoutMS (ds_Limits s))\<rparr> = Some (ds_Limits s)"
proof -
  note c = normalize_checked [OF n] and o = normalize_ordered [OF n]
  show "wire_key_value \<lparr>wk_DatasetID = Some (pk_datasetID (ds_Key s)), wk_Version = Some (pk_version (ds_Key s))\<rparr> = Some (ds_Key s)"
    using c(1) by (simp add: wire_key_value_def NewProfileKey_def Let_def)
  show "wire_source_value (wire_of_source (ds_Source s)) = Some (ds_Source s)"
    using c(4) by (simp add: wire_source_value_def wire_of_source_def NewSourceProjectionSpec_def SourceProjection_Valid_def)
  show "those (map (wire_field_value e) (map wire_of_field (ds_Fields s))) = Some (ds_Fields s)"
  proof (rule those_inverse)
    fix f assume "f \<in> set (ds_Fields s)"
    then have v: "FieldSpec_Valid e f" using o(3) by (simp add: list_all_iff)
    then have types: "ScalarType_Valid (fs_LogicalType f)" "PhysicalType_Valid (fs_PhysicalType f)" by (auto simp: FieldSpec_Valid_def split: if_splits)
    have eta: "\<lparr>fs_Token = fs_Token f, fs_SourceOrdinal = fs_SourceOrdinal f, fs_PhysicalName = fs_PhysicalName f, fs_LogicalType = fs_LogicalType f,
       fs_PhysicalType = fs_PhysicalType f, fs_Nullable = fs_Nullable f, fs_Filterable = fs_Filterable f, fs_Groupable = fs_Groupable f,
       fs_Sortable = fs_Sortable f, fs_OutputAllowed = fs_OutputAllowed f, fs_AllowedOps = fs_AllowedOps f,
       fs_AllowedValues = fs_AllowedValues f\<rparr> = f" by simp
    show "wire_field_value e (wire_of_field f) = Some f"
      using types NewFieldSpec_same [OF v] by (simp add: wire_field_value_def wire_of_field_def cloneOptionalStrings_def eta)
  qed
  show "those (map wire_measure_value (map wire_of_measure (ds_Measures s))) = Some (ds_Measures s)"
  proof (rule those_inverse)
    fix m assume "m \<in> set (ds_Measures s)"
    then have v: "MeasureSpec_Valid m" using o(4) by (simp add: list_all_iff)
    then have "Reducer_Valid (ms_Reducer m)" "NullPolicy_Valid (ms_NullPolicy m)" "Eligibility_Valid (ms_Eligibility m)"
      by (auto simp: MeasureSpec_Valid_def split: if_splits)
    then show "wire_measure_value (wire_of_measure m) = Some m"
      using v by (cases m) (simp add: wire_measure_value_def wire_of_measure_def NewMeasureSpec_def)
  qed
  show "wire_semantics_value e (wire_of_semantics (ds_Semantics s)) = Some (ds_Semantics s)"
  proof -
    have "those (map (\<lambda>x. do { t \<leftarrow> wx_Token x; l \<leftarrow> wx_Label x; d \<leftarrow> wx_Description x; n \<leftarrow> wx_NullMeaning x; a \<leftarrow> wx_Aliases x;
        Some \<lparr>fm_Token = t, fm_Label = l, fm_Description = d, fm_NullMeaning = n, fm_Aliases = a\<rparr> })
        (map (\<lambda>f. \<lparr>wx_Token = Some (fm_Token f), wx_Label = Some (fm_Label f), wx_Description = Some (fm_Description f),
          wx_NullMeaning = Some (fm_NullMeaning f), wx_Aliases = Some (fm_Aliases f)\<rparr>) fs)) = Some fs" for fs
      by (rule those_inverse) simp
    moreover have "those (map (\<lambda>x. do { i \<leftarrow> wy_ID x; l \<leftarrow> wy_Label x; d \<leftarrow> wy_Description x; a \<leftarrow> wy_Aliases x;
        Some \<lparr>mm_ID = i, mm_Label = l, mm_Description = d, mm_Aliases = a\<rparr> })
        (map (\<lambda>m. \<lparr>wy_ID = Some (mm_ID m), wy_Label = Some (mm_Label m), wy_Description = Some (mm_Description m),
          wy_Aliases = Some (mm_Aliases m)\<rparr>) ms)) = Some ms" for ms
      by (rule those_inverse) simp
    ultimately show ?thesis using NewProfileSemantics_same [OF c(2)]
      by (cases "ds_Semantics s") (simp add: wire_semantics_value_def wire_of_semantics_def del: map_map)
  qed
  show "wire_grain_value \<lparr>wg_Description = Some (gr_Description (ds_Grain s)), wg_KeyFields = Some (gr_KeyFields (ds_Grain s)),
       wg_DuplicatePolicy = Some (gr_DuplicatePolicy (ds_Grain s))\<rparr> = Some (ds_Grain s)"
    using NewDatasetGrain_same [OF c(3)] c(3) by (cases "ds_Grain s") (auto simp: wire_grain_value_def DatasetGrain_Valid_def split: if_splits)
  have t: "(ds_Time s)\<lparr>tp_constructed := True\<rparr> = ds_Time s" "TimeKind_Valid (tp_Kind (ds_Time s))"
    using c(5) by (cases "ds_Time s"; auto simp: TimePolicy_Valid_def split: if_splits)+
  then show "wire_time_value e \<lparr>wt_Kind = Some (tp_Kind (ds_Time s)), wt_FieldToken = Some (tp_FieldToken (ds_Time s)),
       wt_ReportingTimezone = Some (tp_ReportingTimezone (ds_Time s)), wt_SourceTimezone = Some (tp_SourceTimezone (ds_Time s)),
       wt_Calendar = Some (tp_Calendar (ds_Time s)), wt_TimezoneRulesBundleSHA256 = Some tz_BundleSHA256\<rparr> = Some (ds_Time s)"
    using c(5) by (cases "ds_Time s") (simp add: wire_time_value_def NewTimePolicy_def Let_def)
  show "wire_limits_value \<lparr>wl_MaxInputRows = Some (pl_MaxInputRows (ds_Limits s)), wl_MaxOutputGroups = Some (pl_MaxOutputGroups (ds_Limits s)),
       wl_MaxPeriodDays = Some (pl_MaxPeriodDays (ds_Limits s)), wl_MaxResultBytes = Some (pl_MaxResultBytes (ds_Limits s)),
       wl_StatementTimeoutMS = Some (pl_StatementTimeoutMS (ds_Limits s))\<rparr> = Some (ds_Limits s)"
    using c(6) by (cases "ds_Limits s") (simp add: wire_limits_value_def NewProfileLimits_def)
qed

lemma wire_profile_same:
  assumes d: "digest_32 e" and v: "DatasetProfile_Valid e p"
  shows "wire_profile_value e (wire_of_spec (dp_Spec p)) = Some p"
proof -
  have sealed: "NewDatasetProfile e (dp_Spec p) = Some p" using v profile_valid_iff_sealed [OF d] by blast
  note n = sealed_hash(1) [OF sealed]
  have "\<lparr>ds_Key = ds_Key s, ds_Mode = ds_Mode s, ds_Source = ds_Source s, ds_Fields = ds_Fields s, ds_Measures = ds_Measures s,
         ds_Semantics = ds_Semantics s, ds_Grain = ds_Grain s, ds_Time = ds_Time s, ds_Coverage = ds_Coverage s, ds_Limits = ds_Limits s\<rparr> = s"
    for s :: dataset_spec by simp
  note eta = this [of "dp_Spec p"]
  show ?thesis
    using wire_parts [OF n] normalize_checked(7,8) [OF n] sealed
    by (simp add: wire_profile_value_def wire_of_spec_def eta del: map_map)
qed

lemma wire_catalog_same:
  assumes d: "digest_32 e" and v: "DatasetProfileCatalog_Valid e c"
  shows "wire_catalog_value e (wire_of_catalog (dc_body c)) = Some c"
proof -
  have "those (map (wire_entry_value e) (map (\<lambda>x. \<lparr>we_State = Some (ce_State x), we_Profile = Some (wire_of_spec (dp_Spec (ce_Profile x)))\<rparr>) (entries_of c)))
      = Some (entries_of c)"
    by (rule those_inverse) (use catalog_facts(6) [OF v] wire_profile_same [OF d] in \<open>auto simp: wire_entry_value_def\<close>)
  then show ?thesis using v catalog_valid_iff_sealed [OF d, of c]
    by (simp add: wire_catalog_value_def wire_of_catalog_def del: map_map)
qed

lemma sealed_catalog_valid:
  assumes "digest_32 e" "NewDatasetProfileCatalog e i r xs = Some c"
  shows "DatasetProfileCatalog_Valid e c"
proof -
  from assms(2) obtain n raw where n: "normalizeDatasetProfileCatalog e \<lparr>cb_id = i, cb_revision = r, cb_entries = xs\<rparr> = Some n"
    "canonicalDatasetProfileCatalog e n = Some (raw, dc_hash c)" "dc_body c = n"
    by (auto simp: NewDatasetProfileCatalog_def split: option.splits)
  have "NewDatasetProfileCatalog e (cb_id n) (cb_revision n) (cb_entries n) = Some c"
    using normalize_catalog_idem [OF n(1)] n(2,3) by (cases c; cases n) (simp add: NewDatasetProfileCatalog_def)
  then show ?thesis unfolding catalog_valid_iff_sealed [OF assms(1)] n(3) .
qed

text \<open>C35. The mounted document of a catalog reads back as exactly that catalog if the catalog is valid, and is refused or read as
  another one if it is not, whatever the bytes that decode to it.\<close>

theorem catalog_wire_roundtrip:
  assumes "digest_32 e" "raw \<noteq> []" "length raw \<le> 1048576" "decode raw = Some (wire_of_catalog (dc_body c))"
  shows "DecodeDatasetProfileCatalogJSON e decode raw = Some c \<longleftrightarrow> DatasetProfileCatalog_Valid e c"
proof
  assume "DatasetProfileCatalog_Valid e c"
  then show "DecodeDatasetProfileCatalogJSON e decode raw = Some c"
    using assms wire_catalog_same [OF assms(1)] by (simp add: DecodeDatasetProfileCatalogJSON_def)
next
  assume "DecodeDatasetProfileCatalogJSON e decode raw = Some c"
  then obtain entries where "NewDatasetProfileCatalog e (cb_id (dc_body c)) (cb_revision (dc_body c)) entries = Some c"
    using assms(2-4) by (auto simp: DecodeDatasetProfileCatalogJSON_def wire_catalog_value_def wire_of_catalog_def split: if_splits bind_splits)
  then show "DatasetProfileCatalog_Valid e c" by (rule sealed_catalog_valid [OF assms(1)])
qed

theorem catalog_wire_roundtrip_witness:
  "DecodeDatasetProfileCatalogJSON sample_dataset_env (\<lambda>raw. Some (wire_of_catalog (dc_body (sample_catalog 1 [(1, ''ACTIVE'')])))) ''doc''
     = Some (sample_catalog 1 [(1, ''ACTIVE'')])"
proof -
  have "DatasetProfileCatalog_Valid sample_dataset_env (sample_catalog 1 [(1, ''ACTIVE'')])"
    by (rule sample_catalog_valid) (simp_all add: ProfileState_Valid_def)
  then show ?thesis
    using catalog_wire_roundtrip [OF sample_digest_32, of "''doc''" "\<lambda>raw. Some (wire_of_catalog (dc_body (sample_catalog 1 [(1, ''ACTIVE'')])))"
        "sample_catalog 1 [(1, ''ACTIVE'')]"] by simp
qed

end
