(* ===== verification/Audit_Event.thy ===== *)
theory Audit_Event
  imports Go_Json Go_Sort
begin

text \<open>
  \<open>internal/audit\<close>: the events of the security log. An event is built from a trusted intent and the head of the
  organization's chain; it is accepted only if its fields and its metadata have the closed shape of its action,
  and its canonical bytes and hash are derived here. Actions, resource types, actor types and outcomes are
  strings checked against closed lists, as in the code; an instant is the number of nanoseconds since the zero
  time. SHA-256 and the RFC 3339 text of an instant are arguments. The lemmas show which vocabulary an
  accepted event may carry and that the canonical bytes determine the event.
\<close>

section \<open>The closed vocabularies\<close>

abbreviation (input) ActorHuman :: gostring where "ActorHuman \<equiv> ''HUMAN''"
abbreviation (input) ActorService :: gostring where "ActorService \<equiv> ''SERVICE''"
abbreviation (input) ActorConnector :: gostring where "ActorConnector \<equiv> ''CONNECTOR''"
abbreviation (input) ActorSystem :: gostring where "ActorSystem \<equiv> ''SYSTEM''"
abbreviation (input) OutcomeSuccess :: gostring where "OutcomeSuccess \<equiv> ''SUCCESS''"
abbreviation (input) OutcomeDenied :: gostring where "OutcomeDenied \<equiv> ''DENIED''"
abbreviation (input) OutcomeFailed :: gostring where "OutcomeFailed \<equiv> ''FAILED''"
abbreviation (input) ResourceOrganization :: gostring where "ResourceOrganization \<equiv> ''ORGANIZATION''"
abbreviation (input) ResourceIdentity :: gostring where "ResourceIdentity \<equiv> ''IDENTITY''"
abbreviation (input) ResourceWorkspace :: gostring where "ResourceWorkspace \<equiv> ''WORKSPACE''"
abbreviation (input) ResourceWorkspaceMember :: gostring where "ResourceWorkspaceMember \<equiv> ''WORKSPACE_MEMBER''"
abbreviation (input) ResourceWorkspaceSource :: gostring where "ResourceWorkspaceSource \<equiv> ''WORKSPACE_SOURCE''"
abbreviation (input) ResourceSourceConnection :: gostring where "ResourceSourceConnection \<equiv> ''SOURCE_CONNECTION''"
abbreviation (input) ResourceSourceScope :: gostring where "ResourceSourceScope \<equiv> ''SOURCE_SCOPE''"
abbreviation (input) ResourceSourceObject :: gostring where "ResourceSourceObject \<equiv> ''SOURCE_OBJECT''"
abbreviation (input) ResourceConversation :: gostring where "ResourceConversation \<equiv> ''CONVERSATION''"
abbreviation (input) ResourceQuestionRun :: gostring where "ResourceQuestionRun \<equiv> ''QUESTION_RUN''"
abbreviation (input) ResourceAnswerDocument :: gostring where "ResourceAnswerDocument \<equiv> ''ANSWER_DOCUMENT''"
abbreviation (input) ResourceCitation :: gostring where "ResourceCitation \<equiv> ''CITATION''"
abbreviation (input) ResourceModelRun :: gostring where "ResourceModelRun \<equiv> ''MODEL_RUN''"
abbreviation (input) ResourcePolicy :: gostring where "ResourcePolicy \<equiv> ''POLICY''"
abbreviation (input) ResourceSigningKey :: gostring where "ResourceSigningKey \<equiv> ''SIGNING_KEY''"
abbreviation (input) ResourceAuditCheckpoint :: gostring where "ResourceAuditCheckpoint \<equiv> ''AUDIT_CHECKPOINT''"
abbreviation (input) ResourceWorkspaceAuthorityCommand :: gostring where "ResourceWorkspaceAuthorityCommand \<equiv> ''WORKSPACE_AUTHORITY_COMMAND''"
abbreviation (input) ResourceCryptoKey :: gostring where "ResourceCryptoKey \<equiv> ''CRYPTO_KEY''"
abbreviation (input) ResourceGovernedQueryAttempt :: gostring where "ResourceGovernedQueryAttempt \<equiv> ''GOVERNED_QUERY_ATTEMPT''"
abbreviation (input) ResourceSearchProfile :: gostring where "ResourceSearchProfile \<equiv> ''SEARCH_PROFILE''"
abbreviation (input) ActionIdentityLogin :: gostring where "ActionIdentityLogin \<equiv> ''identity.login''"
abbreviation (input) ActionIdentityLoginFailed :: gostring where "ActionIdentityLoginFailed \<equiv> ''identity.login_failed''"
abbreviation (input) ActionIdentityDeprovisioned :: gostring where "ActionIdentityDeprovisioned \<equiv> ''identity.deprovisioned''"
abbreviation (input) ActionSessionTerminated :: gostring where "ActionSessionTerminated \<equiv> ''session.terminated''"
abbreviation (input) ActionAnswerDocumentAmended :: gostring where "ActionAnswerDocumentAmended \<equiv> ''answer.document.amended''"
abbreviation (input) ActionWorkspaceCreated :: gostring where "ActionWorkspaceCreated \<equiv> ''workspace.created''"
abbreviation (input) ActionWorkspaceUpdated :: gostring where "ActionWorkspaceUpdated \<equiv> ''workspace.updated''"
abbreviation (input) ActionWorkspaceArchived :: gostring where "ActionWorkspaceArchived \<equiv> ''workspace.archived''"
abbreviation (input) ActionWorkspaceMemberAdded :: gostring where "ActionWorkspaceMemberAdded \<equiv> ''workspace.member_added''"
abbreviation (input) ActionWorkspaceMemberRemoved :: gostring where "ActionWorkspaceMemberRemoved \<equiv> ''workspace.member_removed''"
abbreviation (input) ActionWorkspaceRoleChanged :: gostring where "ActionWorkspaceRoleChanged \<equiv> ''workspace.role_changed''"
abbreviation (input) ActionWorkspaceSourceAdded :: gostring where "ActionWorkspaceSourceAdded \<equiv> ''workspace.source_added''"
abbreviation (input) ActionWorkspaceSourceRemoved :: gostring where "ActionWorkspaceSourceRemoved \<equiv> ''workspace.source_removed''"
abbreviation (input) ActionPolicyDecision :: gostring where "ActionPolicyDecision \<equiv> ''policy.decision''"
abbreviation (input) ActionAuditViewed :: gostring where "ActionAuditViewed \<equiv> ''audit.viewed''"
abbreviation (input) ActionAuditExported :: gostring where "ActionAuditExported \<equiv> ''audit.exported''"
abbreviation (input) ActionSourceScopeChanged :: gostring where "ActionSourceScopeChanged \<equiv> ''source.scope_changed''"
abbreviation (input) ActionSourceScopeActivated :: gostring where "ActionSourceScopeActivated \<equiv> ''source.scope_activated''"
abbreviation (input) ActionSourceRegistrationCreated :: gostring where "ActionSourceRegistrationCreated \<equiv> ''source.registration_created''"
abbreviation (input) ActionSourceActivationRequested :: gostring where "ActionSourceActivationRequested \<equiv> ''source.activation_requested''"
abbreviation (input) ActionSourceObjectIngested :: gostring where "ActionSourceObjectIngested \<equiv> ''source.object_ingested''"
abbreviation (input) ActionSourceObjectDeleted :: gostring where "ActionSourceObjectDeleted \<equiv> ''source.object_deleted''"
abbreviation (input) ActionSourceObjectMissing :: gostring where "ActionSourceObjectMissing \<equiv> ''source.object_missing''"
abbreviation (input) ActionSourceObjectRestored :: gostring where "ActionSourceObjectRestored \<equiv> ''source.object_restored''"
abbreviation (input) ActionSourceVersionCreated :: gostring where "ActionSourceVersionCreated \<equiv> ''source.version_created''"
abbreviation (input) ActionSourceVersionPurging :: gostring where "ActionSourceVersionPurging \<equiv> ''source.version_purging''"
abbreviation (input) ActionSourceVersionPurged :: gostring where "ActionSourceVersionPurged \<equiv> ''source.version_purged''"
abbreviation (input) ActionSourceExtractionActive :: gostring where "ActionSourceExtractionActive \<equiv> ''source.extraction_activated''"
abbreviation (input) ActionQuestionCreated :: gostring where "ActionQuestionCreated \<equiv> ''question.created''"
abbreviation (input) ActionQuestionCompleted :: gostring where "ActionQuestionCompleted \<equiv> ''question.completed''"
abbreviation (input) ActionQuestionFailed :: gostring where "ActionQuestionFailed \<equiv> ''question.failed''"
abbreviation (input) ActionModelGatewayAttempt :: gostring where "ActionModelGatewayAttempt \<equiv> ''model_run.gateway_attempt''"
abbreviation (input) ActionConversationArchived :: gostring where "ActionConversationArchived \<equiv> ''conversation.archived''"
abbreviation (input) ActionConversationPurging :: gostring where "ActionConversationPurging \<equiv> ''conversation.purging''"
abbreviation (input) ActionConversationPurged :: gostring where "ActionConversationPurged \<equiv> ''conversation.purged''"
abbreviation (input) ActionCitationOpened :: gostring where "ActionCitationOpened \<equiv> ''citation.opened''"
abbreviation (input) ActionEvidenceReadAdmitted :: gostring where "ActionEvidenceReadAdmitted \<equiv> ''evidence.read.admitted''"
abbreviation (input) ActionEvidenceReadFailed :: gostring where "ActionEvidenceReadFailed \<equiv> ''evidence.read.failed''"
abbreviation (input) ActionSourceMetadataReadAdmitted :: gostring where "ActionSourceMetadataReadAdmitted \<equiv> ''source.metadata.read.admitted''"
abbreviation (input) ActionSourceMetadataReadCompleted :: gostring where "ActionSourceMetadataReadCompleted \<equiv> ''source.metadata.read.completed''"
abbreviation (input) ActionSourceMetadataReadFailed :: gostring where "ActionSourceMetadataReadFailed \<equiv> ''source.metadata.read.failed''"
abbreviation (input) ActionQuestionRunAdmitted :: gostring where "ActionQuestionRunAdmitted \<equiv> ''question.run.admitted''"
abbreviation (input) ActionGovernedQueryAdmitted :: gostring where "ActionGovernedQueryAdmitted \<equiv> ''source.governed_query_admitted''"
abbreviation (input) ActionSourceConnectionTrustVerified :: gostring where "ActionSourceConnectionTrustVerified \<equiv> ''source.connection_trust_verified''"
abbreviation (input) ActionWorkspaceSourceConfirmationGrantIssued :: gostring where "ActionWorkspaceSourceConfirmationGrantIssued \<equiv> ''workspace.source_confirmation_grant_issued''"
abbreviation (input) ActionWorkspaceSourceConfirmationGrantRevoked :: gostring where "ActionWorkspaceSourceConfirmationGrantRevoked \<equiv> ''workspace.source_confirmation_grant_revoked''"
abbreviation (input) ActionWorkspaceSourceConfirmed :: gostring where "ActionWorkspaceSourceConfirmed \<equiv> ''workspace.source_confirmed''"
abbreviation (input) ActionWorkspaceSourceConfirmationRevoked :: gostring where "ActionWorkspaceSourceConfirmationRevoked \<equiv> ''workspace.source_confirmation_revoked''"
abbreviation (input) ActionKeyRotationBegin :: gostring where "ActionKeyRotationBegin \<equiv> ''key.rotation.begin''"
abbreviation (input) ActionKeyRotationComplete :: gostring where "ActionKeyRotationComplete \<equiv> ''key.rotation.complete''"
abbreviation (input) ActionGovernedQueryAttempted :: gostring where "ActionGovernedQueryAttempted \<equiv> ''source.governed_query_attempted''"
abbreviation (input) ActionSearchProfileRevisionRequested :: gostring where "ActionSearchProfileRevisionRequested \<equiv> ''search.profile_revision_requested''"
abbreviation (input) ActionSearchProfileCallLexical :: gostring where "ActionSearchProfileCallLexical \<equiv> ''search.profile_call_lexical''"
abbreviation (input) ActionSearchProfileCallVector :: gostring where "ActionSearchProfileCallVector \<equiv> ''search.profile_call_vector''"
abbreviation (input) ActionSearchProfileCallHybrid :: gostring where "ActionSearchProfileCallHybrid \<equiv> ''search.profile_call_hybrid''"
abbreviation (input) ErrorAuthorityDenied :: gostring where "ErrorAuthorityDenied \<equiv> ''WORKSPACE_AUTHORITY_DENIED''"
abbreviation (input) ErrorAuthorityNotFound :: gostring where "ErrorAuthorityNotFound \<equiv> ''WORKSPACE_AUTHORITY_NOT_FOUND''"
abbreviation (input) ErrorAuthorityPreconditionFailed :: gostring where "ErrorAuthorityPreconditionFailed \<equiv> ''WORKSPACE_AUTHORITY_PRECONDITION_FAILED''"
abbreviation (input) authorityOperationGrantIssue :: gostring where "authorityOperationGrantIssue \<equiv> ''WORKSPACE_CONFIRMATION_GRANT_ISSUE''"
abbreviation (input) authorityOperationGrantRevoke :: gostring where "authorityOperationGrantRevoke \<equiv> ''WORKSPACE_CONFIRMATION_GRANT_REVOKE''"
abbreviation (input) authorityOperationConfirm :: gostring where "authorityOperationConfirm \<equiv> ''WORKSPACE_MANAGED_CONFIRM''"
abbreviation (input) authorityOperationConfirmRevoke :: gostring where "authorityOperationConfirmRevoke \<equiv> ''WORKSPACE_MANAGED_CONFIRM_REVOKE''"
abbreviation (input) authorityReasonGrantRevoked :: gostring where "authorityReasonGrantRevoked \<equiv> ''AUTHORITY_REVOKED''"
abbreviation (input) authorityReasonAccessRevoked :: gostring where "authorityReasonAccessRevoked \<equiv> ''ACCESS_REVOKED''"
abbreviation (input) authorityAccessMode :: gostring where "authorityAccessMode \<equiv> ''WORKSPACE_MANAGED''"
abbreviation (input) authorityWarningVersion :: gostring where "authorityWarningVersion \<equiv> ''workspace-managed-risk-v1''"
abbreviation (input) authorityAcknowledgementCode :: gostring where "authorityAcknowledgementCode \<equiv> ''WORKSPACE_MEMBERS_MAY_READ_WITHOUT_SOURCE_NATIVE_ACL''"
abbreviation (input) ErrorRotationDenied :: gostring where "ErrorRotationDenied \<equiv> ''ROTATION_DENIED''"
abbreviation (input) ErrorRotationFailed :: gostring where "ErrorRotationFailed \<equiv> ''ROTATION_FAILED''"
abbreviation (input) rotationDomainKEK :: gostring where "rotationDomainKEK \<equiv> ''KEK''"
abbreviation (input) rotationDomainDigest :: gostring where "rotationDomainDigest \<equiv> ''DIGEST''"
abbreviation (input) GovernedQueryOutcomeSucceeded :: gostring where "GovernedQueryOutcomeSucceeded \<equiv> ''SUCCEEDED''"
abbreviation (input) GovernedQueryOutcomeRejectedStatic :: gostring where "GovernedQueryOutcomeRejectedStatic \<equiv> ''REJECTED_STATIC''"
abbreviation (input) GovernedQueryOutcomeRejectedDatabase :: gostring where "GovernedQueryOutcomeRejectedDatabase \<equiv> ''REJECTED_DATABASE''"
abbreviation (input) GovernedQueryOutcomeTimeout :: gostring where "GovernedQueryOutcomeTimeout \<equiv> ''TIMEOUT''"
abbreviation (input) GovernedQueryOutcomeRowLimitExceeded :: gostring where "GovernedQueryOutcomeRowLimitExceeded \<equiv> ''ROW_LIMIT_EXCEEDED''"
abbreviation (input) GovernedQueryOutcomeCostLimitExceeded :: gostring where "GovernedQueryOutcomeCostLimitExceeded \<equiv> ''COST_LIMIT_EXCEEDED''"

definition validAction :: "gostring \<Rightarrow> bool" where
  "validAction a \<longleftrightarrow> a \<in> set [ActionSourceObjectMissing, ActionSourceObjectRestored, ActionSourceMetadataReadAdmitted,
     ActionSourceMetadataReadCompleted, ActionSourceMetadataReadFailed, ActionIdentityLogin,
     ActionIdentityLoginFailed, ActionIdentityDeprovisioned, ActionSessionTerminated, ActionWorkspaceCreated,
     ActionWorkspaceUpdated, ActionWorkspaceArchived, ActionWorkspaceMemberAdded, ActionWorkspaceMemberRemoved,
     ActionWorkspaceRoleChanged, ActionWorkspaceSourceAdded, ActionWorkspaceSourceRemoved,
     ActionWorkspaceSourceConfirmationGrantIssued, ActionWorkspaceSourceConfirmationGrantRevoked,
     ActionWorkspaceSourceConfirmed, ActionWorkspaceSourceConfirmationRevoked, ActionPolicyDecision,
     ActionAuditViewed, ActionAuditExported, ActionSourceScopeChanged, ActionSourceScopeActivated,
     ActionSourceRegistrationCreated, ActionSourceActivationRequested, ActionSourceObjectIngested,
     ActionSourceObjectDeleted, ActionSourceVersionCreated, ActionSourceVersionPurging,
     ActionSourceVersionPurged, ActionSourceExtractionActive, ActionQuestionCreated, ActionQuestionCompleted,
     ActionQuestionFailed, ActionModelGatewayAttempt, ActionConversationArchived, ActionConversationPurging,
     ActionConversationPurged, ActionCitationOpened, ActionEvidenceReadAdmitted, ActionEvidenceReadFailed,
     ActionQuestionRunAdmitted, ActionGovernedQueryAdmitted, ActionAnswerDocumentAmended,
     ActionKeyRotationBegin, ActionKeyRotationComplete, ActionSourceConnectionTrustVerified,
     ActionGovernedQueryAttempted, ActionSearchProfileRevisionRequested, ActionSearchProfileCallLexical,
     ActionSearchProfileCallVector, ActionSearchProfileCallHybrid]"

definition validResource :: "gostring \<Rightarrow> bool" where
  "validResource r \<longleftrightarrow> r \<in> set [ResourceOrganization, ResourceIdentity, ResourceWorkspace, ResourceWorkspaceMember,
     ResourceWorkspaceSource, ResourceWorkspaceAuthorityCommand, ResourceSourceConnection, ResourceSourceScope,
     ResourceSourceObject, ResourceConversation, ResourceQuestionRun, ResourceAnswerDocument, ResourceCitation,
     ResourceModelRun, ResourcePolicy, ResourceSigningKey, ResourceAuditCheckpoint, ResourceCryptoKey,
     ResourceGovernedQueryAttempt, ResourceSearchProfile]"

definition validActor :: "gostring \<Rightarrow> bool" where
  "validActor a \<longleftrightarrow> a = ActorHuman \<or> a = ActorService \<or> a = ActorConnector \<or> a = ActorSystem"

definition validOutcome :: "gostring \<Rightarrow> bool" where
  "validOutcome x \<longleftrightarrow> x = OutcomeSuccess \<or> x = OutcomeDenied \<or> x = OutcomeFailed"

definition au_schemaVersion :: gostring where
  "au_schemaVersion = ''audit-event-v1''"

definition zeroHash :: gostring where
  "zeroHash = ''sha256:0000000000000000000000000000000000000000000000000000000000000000''"

definition maxSafeInt64 :: int where
  "maxSafeInt64 = 9007199254740991"

section \<open>Metadata\<close>

text \<open>A nil pointer is \<open>None\<close>. \<open>metadata_members\<close> lists the members by name in the canonical order, each with its
  value or \<open>None\<close> when \<open>omitempty\<close> leaves it out.\<close>

record metadata =
  md_WorkspaceRevision :: "int option"
  md_WorkspaceSourceID :: "gostring option"
  md_SourceScopeID :: "gostring option"
  md_SourceScopeRevision :: "int option"
  md_ScopeConfigHash :: "gostring option"
  md_AccessMode :: "gostring option"
  md_Enabled :: "bool option"
  md_SourceConnectionID :: "gostring option"
  md_ConnectorJobID :: "gostring option"
  md_SyncRunID :: "gostring option"
  md_QuestionRunID :: "gostring option"
  md_ModelRunID :: "gostring option"
  md_CitationNumber :: "int option"
  md_ManifestHash :: "gostring option"
  md_PolicyRevision :: "gostring option"
  md_ReasonCodes :: "gostring list"
  md_RemoteAddressDigest :: "gostring option"
  md_UserAgentFamily :: "gostring option"
  md_AnswerDocumentVersion :: "int option"
  md_AmendmentClass :: "gostring option"
  md_AuthorityOperation :: "gostring option"
  md_AuthorityResultID :: "gostring option"
  md_AuthorityResultHash :: "gostring option"
  md_AuthorityParentID :: "gostring option"
  md_AuthorityParentHash :: "gostring option"
  md_AuthorityRevocationID :: "gostring option"
  md_AuthorityRevocationHash :: "gostring option"
  md_AuthorityReasonCode :: "gostring option"
  md_TargetPrincipalID :: "gostring option"
  md_WorkspaceConfigurationHash :: "gostring option"
  md_ConfirmationActorGrantID :: "gostring option"
  md_ConfirmationActorGrantRevision :: "int option"
  md_ConfirmationActorGrantHash :: "gostring option"
  md_WarningVersion :: "gostring option"
  md_WarningContractHash :: "gostring option"
  md_AcknowledgementCode :: "gostring option"
  md_RotationDomain :: "gostring option"
  md_KeyReference :: "gostring option"
  md_KeyVersion :: "int option"
  md_TrustVerificationID :: "gostring option"
  md_TrustVerificationHash :: "gostring option"
  md_GovernedQueryConnectionID :: "gostring option"
  md_GovernedQueryExposedSchemaRevision :: "int option"
  md_GovernedQuerySQLHash :: "gostring option"
  md_GovernedQueryCostEstimate :: "int option"
  md_GovernedQueryRowCount :: "int option"
  md_GovernedQueryResultDigest :: "gostring option"
  md_GovernedQueryOutcome :: "gostring option"

definition metadata_members :: "metadata \<Rightarrow> (gostring \<times> json option) list" where
  "metadata_members m =
    [(''access_mode'', map_option go_json_text (md_AccessMode m)),
     (''acknowledgement_code'', map_option go_json_text (md_AcknowledgementCode m)),
     (''amendment_class'', map_option go_json_text (md_AmendmentClass m)),
     (''answer_document_version'', map_option JInt (md_AnswerDocumentVersion m)),
     (''authority_operation'', map_option go_json_text (md_AuthorityOperation m)),
     (''authority_parent_hash'', map_option go_json_text (md_AuthorityParentHash m)),
     (''authority_parent_id'', map_option go_json_text (md_AuthorityParentID m)),
     (''authority_reason_code'', map_option go_json_text (md_AuthorityReasonCode m)),
     (''authority_result_hash'', map_option go_json_text (md_AuthorityResultHash m)),
     (''authority_result_id'', map_option go_json_text (md_AuthorityResultID m)),
     (''authority_revocation_hash'', map_option go_json_text (md_AuthorityRevocationHash m)),
     (''authority_revocation_id'', map_option go_json_text (md_AuthorityRevocationID m)),
     (''citation_number'', map_option JInt (md_CitationNumber m)),
     (''confirmation_actor_grant_hash'', map_option go_json_text (md_ConfirmationActorGrantHash m)),
     (''confirmation_actor_grant_id'', map_option go_json_text (md_ConfirmationActorGrantID m)),
     (''confirmation_actor_grant_revision'', map_option JInt (md_ConfirmationActorGrantRevision m)),
     (''connector_job_id'', map_option go_json_text (md_ConnectorJobID m)),
     (''enabled'', map_option JBool (md_Enabled m)),
     (''governed_query_connection_id'', map_option go_json_text (md_GovernedQueryConnectionID m)),
     (''governed_query_cost_estimate'', map_option JInt (md_GovernedQueryCostEstimate m)),
     (''governed_query_exposed_schema_revision'', map_option JInt (md_GovernedQueryExposedSchemaRevision m)),
     (''governed_query_outcome'', map_option go_json_text (md_GovernedQueryOutcome m)),
     (''governed_query_result_digest'', map_option go_json_text (md_GovernedQueryResultDigest m)),
     (''governed_query_row_count'', map_option JInt (md_GovernedQueryRowCount m)),
     (''governed_query_sql_hash'', map_option go_json_text (md_GovernedQuerySQLHash m)),
     (''key_reference'', map_option go_json_text (md_KeyReference m)),
     (''key_version'', map_option JInt (md_KeyVersion m)),
     (''manifest_hash'', map_option go_json_text (md_ManifestHash m)),
     (''model_run_id'', map_option go_json_text (md_ModelRunID m)),
     (''policy_revision'', map_option go_json_text (md_PolicyRevision m)),
     (''question_run_id'', map_option go_json_text (md_QuestionRunID m)),
     (''reason_codes'', (if md_ReasonCodes m = [] then None else Some (JArray (map go_json_text (md_ReasonCodes m))))),
     (''remote_address_digest'', map_option go_json_text (md_RemoteAddressDigest m)),
     (''rotation_domain'', map_option go_json_text (md_RotationDomain m)),
     (''scope_config_hash'', map_option go_json_text (md_ScopeConfigHash m)),
     (''source_connection_id'', map_option go_json_text (md_SourceConnectionID m)),
     (''source_scope_id'', map_option go_json_text (md_SourceScopeID m)),
     (''source_scope_revision'', map_option JInt (md_SourceScopeRevision m)),
     (''sync_run_id'', map_option go_json_text (md_SyncRunID m)),
     (''target_principal_id'', map_option go_json_text (md_TargetPrincipalID m)),
     (''trust_verification_hash'', map_option go_json_text (md_TrustVerificationHash m)),
     (''trust_verification_id'', map_option go_json_text (md_TrustVerificationID m)),
     (''user_agent_family'', map_option go_json_text (md_UserAgentFamily m)),
     (''warning_contract_hash'', map_option go_json_text (md_WarningContractHash m)),
     (''warning_version'', map_option go_json_text (md_WarningVersion m)),
     (''workspace_configuration_hash'', map_option go_json_text (md_WorkspaceConfigurationHash m)),
     (''workspace_revision'', map_option JInt (md_WorkspaceRevision m)),
     (''workspace_source_id'', map_option go_json_text (md_WorkspaceSourceID m))]"

definition no_metadata :: metadata where
  "no_metadata = \<lparr>md_WorkspaceRevision = None, md_WorkspaceSourceID = None, md_SourceScopeID = None, md_SourceScopeRevision = None, md_ScopeConfigHash = None, md_AccessMode = None, md_Enabled = None, md_SourceConnectionID = None, md_ConnectorJobID = None, md_SyncRunID = None, md_QuestionRunID = None, md_ModelRunID = None, md_CitationNumber = None, md_ManifestHash = None, md_PolicyRevision = None, md_ReasonCodes = [], md_RemoteAddressDigest = None, md_UserAgentFamily = None, md_AnswerDocumentVersion = None, md_AmendmentClass = None, md_AuthorityOperation = None, md_AuthorityResultID = None, md_AuthorityResultHash = None, md_AuthorityParentID = None, md_AuthorityParentHash = None, md_AuthorityRevocationID = None, md_AuthorityRevocationHash = None, md_AuthorityReasonCode = None, md_TargetPrincipalID = None, md_WorkspaceConfigurationHash = None, md_ConfirmationActorGrantID = None, md_ConfirmationActorGrantRevision = None, md_ConfirmationActorGrantHash = None, md_WarningVersion = None, md_WarningContractHash = None, md_AcknowledgementCode = None, md_RotationDomain = None, md_KeyReference = None, md_KeyVersion = None, md_TrustVerificationID = None, md_TrustVerificationHash = None, md_GovernedQueryConnectionID = None, md_GovernedQueryExposedSchemaRevision = None, md_GovernedQuerySQLHash = None, md_GovernedQueryCostEstimate = None, md_GovernedQueryRowCount = None, md_GovernedQueryResultDigest = None, md_GovernedQueryOutcome = None\<rparr>"

definition metadata_json :: "metadata \<Rightarrow> json" where
  "metadata_json m = JObject (map (\<lambda>(k, v). (k, the v)) (filter (\<lambda>(k, v). v \<noteq> None) (metadata_members m)))"

record event_input =
  in_EventID :: gostring
  in_WorkspaceID :: "gostring option"
  in_ActorType :: gostring
  in_ActorPrincipalID :: "gostring option"
  in_OnBehalfOfPrincipalID :: "gostring option"
  in_Action :: gostring
  in_ResourceType :: gostring
  in_ResourceID :: gostring
  in_RequestID :: gostring
  in_PolicyDecisionID :: "gostring option"
  in_Outcome :: gostring
  in_ErrorCode :: "gostring option"
  in_ReferencedEvidenceIDs :: "gostring list"
  in_Metadata :: metadata
  in_OccurredAt :: int

record event =
  ev_SchemaVersion :: gostring
  ev_EventID :: gostring
  ev_OrganizationID :: gostring
  ev_Sequence :: int
  ev_WorkspaceID :: "gostring option"
  ev_ActorType :: gostring
  ev_ActorPrincipalID :: "gostring option"
  ev_OnBehalfOfPrincipalID :: "gostring option"
  ev_Action :: gostring
  ev_ResourceType :: gostring
  ev_ResourceID :: gostring
  ev_RequestID :: gostring
  ev_PolicyDecisionID :: "gostring option"
  ev_Outcome :: gostring
  ev_ErrorCode :: "gostring option"
  ev_ReferencedEvidenceIDs :: "gostring list"
  ev_Metadata :: metadata
  ev_PreviousEventHash :: gostring
  ev_EventHash :: gostring
  ev_OccurredAt :: int
  ev_CanonicalBytes :: gostring

record audit_env =
  au_sha256 :: "gostring \<Rightarrow> gostring"
  au_format :: "int \<Rightarrow> gostring"

datatype audit_error = AuditInvalidEvent | AuditAppendFailed gostring | AuditAppendContended

section \<open>Field checks\<close>

definition au_validID :: "gostring \<Rightarrow> bool" where
  "au_validID v \<longleftrightarrow> v \<noteq> [] \<and> length v \<le> 256 \<and> valid_utf8 v \<and> trim_space v = v \<and> list_all (\<lambda>r. \<not> is_control r) (runes v)"

definition au_validHash :: "gostring \<Rightarrow> bool" where
  "au_validHash v =
    (if length v \<noteq> length ''sha256:'' + 64 \<or> \<not> has_prefix ''sha256:'' v then False
     else list_all (\<lambda>r. (48 \<le> r \<and> r \<le> 57) \<or> (97 \<le> r \<and> r \<le> 102)) (runes (drop (length ''sha256:'') v)))"

definition validErrorCode :: "gostring \<Rightarrow> bool" where
  "validErrorCode v =
    (if length v < 2 \<or> length v > 128 then False
     else if \<not> list_all (\<lambda>r. (65 \<le> r \<and> r \<le> 90) \<or> (48 \<le> r \<and> r \<le> 57) \<or> r = 95) (runes v) then False
     else 65 \<le> byte (hd v) \<and> byte (hd v) \<le> 90)"

definition opt_all :: "('a \<Rightarrow> bool) \<Rightarrow> 'a option \<Rightarrow> bool" where
  "opt_all P v = (case v of None \<Rightarrow> True | Some x \<Rightarrow> P x)"

definition int_from :: "int \<Rightarrow> int \<Rightarrow> bool" where
  "int_from low i \<longleftrightarrow> \<not> (i < low \<or> i > maxSafeInt64)"

text \<open>Each member passes the check and is greater than the one before; an empty predecessor is not compared.\<close>

fun ascending :: "(gostring \<Rightarrow> bool) \<Rightarrow> gostring \<Rightarrow> gostring list \<Rightarrow> bool" where
  "ascending P previous [] = True"
| "ascending P previous (x # xs) =
    (if \<not> P x \<or> (previous \<noteq> [] \<and> x \<le> previous) then False else ascending P x xs)"

definition canonicalEvidence :: "gostring list \<Rightarrow> bool" where
  "canonicalEvidence ids = (if length ids > 128 then False else ascending au_validID [] ids)"

definition validAmendmentClass :: "gostring \<Rightarrow> bool" where
  "validAmendmentClass c \<longleftrightarrow> c = ''SUPERSEDE'' \<or> c = ''RETRACT'' \<or> c = ''REDACT''"

definition validGovernedQueryOutcome :: "gostring \<Rightarrow> bool" where
  "validGovernedQueryOutcome v \<longleftrightarrow> v \<in> set [GovernedQueryOutcomeSucceeded, GovernedQueryOutcomeRejectedStatic,
     GovernedQueryOutcomeRejectedDatabase, GovernedQueryOutcomeTimeout, GovernedQueryOutcomeRowLimitExceeded,
     GovernedQueryOutcomeCostLimitExceeded]"

definition validAuthorityMetadataFields :: "metadata \<Rightarrow> bool" where
  "validAuthorityMetadataFields m \<longleftrightarrow>
     list_all (opt_all au_validID) [md_AuthorityResultID m, md_AuthorityParentID m, md_AuthorityRevocationID m,
       md_TargetPrincipalID m, md_ConfirmationActorGrantID m]
     \<and> list_all (opt_all au_validHash) [md_AuthorityResultHash m, md_AuthorityParentHash m, md_AuthorityRevocationHash m,
       md_WorkspaceConfigurationHash m, md_ConfirmationActorGrantHash m, md_WarningContractHash m]
     \<and> opt_all (int_from 1) (md_ConfirmationActorGrantRevision m)
     \<and> opt_all (\<lambda>v. v \<in> set [authorityOperationGrantIssue, authorityOperationGrantRevoke, authorityOperationConfirm,
         authorityOperationConfirmRevoke]) (md_AuthorityOperation m)
     \<and> opt_all (\<lambda>v. v \<in> set [authorityReasonGrantRevoked, authorityReasonAccessRevoked]) (md_AuthorityReasonCode m)
     \<and> opt_all (\<lambda>v. v = authorityWarningVersion) (md_WarningVersion m)
     \<and> opt_all (\<lambda>v. v = authorityAcknowledgementCode) (md_AcknowledgementCode m)"

definition validRotationMetadataFields :: "metadata \<Rightarrow> bool" where
  "validRotationMetadataFields m \<longleftrightarrow>
     opt_all (\<lambda>v. v = rotationDomainKEK \<or> v = rotationDomainDigest) (md_RotationDomain m)
     \<and> opt_all au_validID (md_KeyReference m) \<and> opt_all (int_from 1) (md_KeyVersion m)"

definition validGovernedQueryMetadataFields :: "metadata \<Rightarrow> bool" where
  "validGovernedQueryMetadataFields m \<longleftrightarrow>
     opt_all au_validID (md_GovernedQueryConnectionID m) \<and> opt_all (int_from 1) (md_GovernedQueryExposedSchemaRevision m)
     \<and> opt_all au_validHash (md_GovernedQuerySQLHash m) \<and> opt_all (int_from 0) (md_GovernedQueryCostEstimate m)
     \<and> opt_all (int_from 0) (md_GovernedQueryRowCount m) \<and> opt_all au_validHash (md_GovernedQueryResultDigest m)
     \<and> opt_all validGovernedQueryOutcome (md_GovernedQueryOutcome m)"

definition validMetadata :: "metadata \<Rightarrow> bool" where
  "validMetadata m \<longleftrightarrow>
     list_all (opt_all au_validID) [md_WorkspaceSourceID m, md_SourceScopeID m, md_SourceConnectionID m, md_ConnectorJobID m,
       md_SyncRunID m, md_QuestionRunID m, md_ModelRunID m, md_ManifestHash m, md_PolicyRevision m, md_RemoteAddressDigest m,
       md_UserAgentFamily m, md_TrustVerificationID m]
     \<and> opt_all (int_from 1) (md_WorkspaceRevision m) \<and> opt_all (int_from 1) (md_SourceScopeRevision m)
     \<and> opt_all (int_from 1) (md_CitationNumber m) \<and> opt_all (int_from 1) (md_AnswerDocumentVersion m)
     \<and> length (md_ReasonCodes m) \<le> 32 \<and> opt_all validAmendmentClass (md_AmendmentClass m)
     \<and> ascending validErrorCode [] (md_ReasonCodes m)
     \<and> opt_all au_validHash (md_ScopeConfigHash m) \<and> opt_all au_validHash (md_ManifestHash m) \<and> opt_all au_validHash (md_RemoteAddressDigest m)
     \<and> opt_all au_validHash (md_TrustVerificationHash m)
     \<and> opt_all (\<lambda>v. v = ''WORKSPACE_MANAGED'' \<or> v = ''SOURCE_ENFORCED'') (md_AccessMode m)
     \<and> validAuthorityMetadataFields m \<and> validRotationMetadataFields m \<and> validGovernedQueryMetadataFields m"

section \<open>Reserved vocabularies\<close>

definition hasAuthorityMetadata :: "metadata \<Rightarrow> bool" where
  "hasAuthorityMetadata m \<longleftrightarrow> md_AuthorityOperation m \<noteq> None \<or> md_AuthorityResultID m \<noteq> None
     \<or> md_AuthorityResultHash m \<noteq> None \<or> md_AuthorityParentID m \<noteq> None \<or> md_AuthorityParentHash m \<noteq> None
     \<or> md_AuthorityRevocationID m \<noteq> None \<or> md_AuthorityRevocationHash m \<noteq> None \<or> md_AuthorityReasonCode m \<noteq> None
     \<or> md_TargetPrincipalID m \<noteq> None \<or> md_WorkspaceConfigurationHash m \<noteq> None \<or> md_ConfirmationActorGrantID m \<noteq> None
     \<or> md_ConfirmationActorGrantRevision m \<noteq> None \<or> md_ConfirmationActorGrantHash m \<noteq> None \<or> md_WarningVersion m \<noteq> None
     \<or> md_WarningContractHash m \<noteq> None \<or> md_AcknowledgementCode m \<noteq> None"

definition hasRotationMetadata :: "metadata \<Rightarrow> bool" where
  "hasRotationMetadata m \<longleftrightarrow> md_RotationDomain m \<noteq> None \<or> md_KeyReference m \<noteq> None \<or> md_KeyVersion m \<noteq> None"

definition hasAnswerMetadata :: "metadata \<Rightarrow> bool" where
  "hasAnswerMetadata m \<longleftrightarrow> md_AnswerDocumentVersion m \<noteq> None \<or> md_AmendmentClass m \<noteq> None"

definition hasTrustVerificationMetadata :: "metadata \<Rightarrow> bool" where
  "hasTrustVerificationMetadata m \<longleftrightarrow> md_TrustVerificationID m \<noteq> None \<or> md_TrustVerificationHash m \<noteq> None"

definition hasGovernedQueryMetadata :: "metadata \<Rightarrow> bool" where
  "hasGovernedQueryMetadata m \<longleftrightarrow> md_GovernedQueryConnectionID m \<noteq> None \<or> md_GovernedQueryExposedSchemaRevision m \<noteq> None
     \<or> md_GovernedQuerySQLHash m \<noteq> None \<or> md_GovernedQueryCostEstimate m \<noteq> None \<or> md_GovernedQueryRowCount m \<noteq> None
     \<or> md_GovernedQueryResultDigest m \<noteq> None \<or> md_GovernedQueryOutcome m \<noteq> None"

definition metadataKeySet :: "metadata \<Rightarrow> gostring list" where
  "metadataKeySet m = sort (map fst (filter (\<lambda>(k, v). v \<noteq> None) (metadata_members m)))"

definition metadataKeySetIsExact :: "metadata \<Rightarrow> gostring list \<Rightarrow> bool" where
  "metadataKeySetIsExact m expected \<longleftrightarrow> metadataKeySet m = sort expected"

definition answerAmendmentMetadataOnly :: "metadata \<Rightarrow> bool" where
  "answerAmendmentMetadataOnly m \<longleftrightarrow> md_WorkspaceRevision m = None \<and> md_WorkspaceSourceID m = None \<and> md_SourceScopeID m = None
     \<and> md_SourceScopeRevision m = None \<and> md_ScopeConfigHash m = None \<and> md_AccessMode m = None \<and> md_Enabled m = None
     \<and> md_SourceConnectionID m = None \<and> md_ConnectorJobID m = None \<and> md_SyncRunID m = None \<and> md_QuestionRunID m = None
     \<and> md_ModelRunID m = None \<and> md_CitationNumber m = None \<and> md_ManifestHash m = None \<and> md_PolicyRevision m = None
     \<and> length (md_ReasonCodes m) = 0 \<and> md_RemoteAddressDigest m = None \<and> md_UserAgentFamily m = None
     \<and> \<not> hasAuthorityMetadata m \<and> \<not> hasRotationMetadata m \<and> \<not> hasTrustVerificationMetadata m \<and> \<not> hasGovernedQueryMetadata m"

definition sourceMutationMetadataOnly :: "metadata \<Rightarrow> bool" where
  "sourceMutationMetadataOnly m \<longleftrightarrow> md_SourceConnectionID m = None \<and> md_ConnectorJobID m = None \<and> md_SyncRunID m = None
     \<and> md_QuestionRunID m = None \<and> md_ModelRunID m = None \<and> md_CitationNumber m = None \<and> md_ManifestHash m = None
     \<and> length (md_ReasonCodes m) = 0 \<and> md_RemoteAddressDigest m = None \<and> md_UserAgentFamily m = None
     \<and> md_AnswerDocumentVersion m = None \<and> md_AmendmentClass m = None
     \<and> \<not> hasAuthorityMetadata m \<and> \<not> hasRotationMetadata m \<and> \<not> hasTrustVerificationMetadata m \<and> \<not> hasGovernedQueryMetadata m"

definition searchProfileMetadataEmpty :: "metadata \<Rightarrow> bool" where
  "searchProfileMetadataEmpty m \<longleftrightarrow> md_WorkspaceRevision m = None \<and> md_WorkspaceSourceID m = None \<and> md_SourceScopeID m = None
     \<and> md_SourceScopeRevision m = None \<and> md_ScopeConfigHash m = None \<and> md_AccessMode m = None \<and> md_Enabled m = None
     \<and> md_SourceConnectionID m = None \<and> md_ConnectorJobID m = None \<and> md_SyncRunID m = None \<and> md_QuestionRunID m = None
     \<and> md_ModelRunID m = None \<and> md_CitationNumber m = None \<and> md_ManifestHash m = None \<and> md_PolicyRevision m = None
     \<and> length (md_ReasonCodes m) = 0 \<and> md_RemoteAddressDigest m = None \<and> md_UserAgentFamily m = None
     \<and> \<not> hasAuthorityMetadata m \<and> \<not> hasRotationMetadata m \<and> \<not> hasAnswerMetadata m
     \<and> \<not> hasTrustVerificationMetadata m \<and> \<not> hasGovernedQueryMetadata m"

end
