(* ===== verification/Audit_Build.thy ===== *)
theory Audit_Build
  imports Audit_Event
begin

text \<open>
  Which shape an event of each action has, and how it is built: the projections of \<open>internal/audit\<close>,
  \<open>validateInput\<close>, \<open>canonicalEvent\<close> and \<open>Build\<close>.
\<close>

section \<open>Authority commands\<close>

definition authorityOperationForAction :: "gostring \<Rightarrow> gostring option" where
  "authorityOperationForAction a =
    (if a = ActionWorkspaceSourceConfirmationGrantIssued then Some authorityOperationGrantIssue
     else if a = ActionWorkspaceSourceConfirmationGrantRevoked then Some authorityOperationGrantRevoke
     else if a = ActionWorkspaceSourceConfirmed then Some authorityOperationConfirm
     else if a = ActionWorkspaceSourceConfirmationRevoked then Some authorityOperationConfirmRevoke
     else None)"

definition isAuthorityAction :: "gostring \<Rightarrow> bool" where
  "isAuthorityAction a \<longleftrightarrow> authorityOperationForAction a \<noteq> None"

definition authoritySuccessMetadata :: "gostring \<Rightarrow> gostring list" where
  "authoritySuccessMetadata a =
    (if a = ActionWorkspaceSourceConfirmationGrantIssued
     then [''authority_operation'', ''authority_result_id'', ''authority_result_hash'', ''target_principal_id'', ''policy_revision'']
     else if a = ActionWorkspaceSourceConfirmationGrantRevoked \<or> a = ActionWorkspaceSourceConfirmationRevoked
     then [''authority_operation'', ''authority_parent_id'', ''authority_parent_hash'', ''authority_revocation_id'',
           ''authority_revocation_hash'', ''authority_reason_code'', ''policy_revision'']
     else if a = ActionWorkspaceSourceConfirmed
     then [''authority_operation'', ''authority_result_id'', ''authority_result_hash'', ''workspace_revision'',
           ''workspace_configuration_hash'', ''workspace_source_id'', ''source_scope_id'', ''source_scope_revision'',
           ''scope_config_hash'', ''access_mode'', ''confirmation_actor_grant_id'', ''confirmation_actor_grant_revision'',
           ''confirmation_actor_grant_hash'', ''warning_version'', ''warning_contract_hash'', ''acknowledgement_code'',
           ''policy_revision'']
     else [])"

definition authorityFailureMetadata :: "gostring list" where
  "authorityFailureMetadata = [''authority_operation'']"

definition authorityReasonCodes :: "gostring \<Rightarrow> gostring option" where
  "authorityReasonCodes a =
    (if a = ActionWorkspaceSourceConfirmationGrantRevoked then Some authorityReasonGrantRevoked
     else if a = ActionWorkspaceSourceConfirmationRevoked then Some authorityReasonAccessRevoked
     else None)"

definition authority_outcome_ok :: "event_input \<Rightarrow> bool" where
  "authority_outcome_ok i =
    (if in_Outcome i = OutcomeSuccess then in_ErrorCode i = None
     else if in_Outcome i = OutcomeDenied
     then in_ErrorCode i = Some ErrorAuthorityDenied \<or> in_ErrorCode i = Some ErrorAuthorityNotFound
     else if in_Outcome i = OutcomeFailed then in_ErrorCode i = Some ErrorAuthorityPreconditionFailed
     else False)"

definition authority_workspace_ok :: "event_input \<Rightarrow> bool" where
  "authority_workspace_ok i =
    (if in_ErrorCode i = Some ErrorAuthorityNotFound \<and> in_WorkspaceID i \<noteq> None then False
     else if in_ErrorCode i = Some ErrorAuthorityPreconditionFailed \<and> in_WorkspaceID i = None then False
     else \<not> (in_Outcome i = OutcomeSuccess \<and> in_WorkspaceID i = None))"

definition validAuthorityProjection :: "event_input \<Rightarrow> bool" where
  "validAuthorityProjection i =
    (let m = in_Metadata i in
     if isAuthorityAction (in_Action i) \<noteq> (in_ResourceType i = ResourceWorkspaceAuthorityCommand) then False
     else if \<not> isAuthorityAction (in_Action i) then True
     else if in_ActorType i \<noteq> ActorHuman \<or> in_ActorPrincipalID i = None \<or> in_OnBehalfOfPrincipalID i \<noteq> None
        \<or> in_PolicyDecisionID i \<noteq> None \<or> length (in_ReferencedEvidenceIDs i) \<noteq> 0 then False
     else if \<not> authority_outcome_ok i then False
     else if \<not> authority_workspace_ok i then False
     else if md_AuthorityOperation m \<noteq> authorityOperationForAction (in_Action i) then False
     else if in_Outcome i \<noteq> OutcomeSuccess then metadataKeySetIsExact m authorityFailureMetadata
     else if \<not> metadataKeySetIsExact m (authoritySuccessMetadata (in_Action i)) then False
     else if authorityReasonCodes (in_Action i) \<noteq> None \<and> md_AuthorityReasonCode m \<noteq> authorityReasonCodes (in_Action i) then False
     else \<not> (in_Action i = ActionWorkspaceSourceConfirmed \<and> md_AccessMode m \<noteq> Some authorityAccessMode))"

section \<open>Key rotation\<close>

definition isRotationAction :: "gostring \<Rightarrow> bool" where
  "isRotationAction a \<longleftrightarrow> a = ActionKeyRotationBegin \<or> a = ActionKeyRotationComplete"

definition validRotationProjection :: "event_input \<Rightarrow> bool" where
  "validRotationProjection i =
    (let m = in_Metadata i in
     if isRotationAction (in_Action i) \<noteq> (in_ResourceType i = ResourceCryptoKey) then False
     else if \<not> isRotationAction (in_Action i) then True
     else if in_ActorType i \<noteq> ActorSystem \<or> in_ActorPrincipalID i \<noteq> None \<or> in_OnBehalfOfPrincipalID i \<noteq> None
        \<or> in_WorkspaceID i \<noteq> None \<or> in_PolicyDecisionID i \<noteq> None \<or> length (in_ReferencedEvidenceIDs i) \<noteq> 0 then False
     else if \<not> (if in_Outcome i = OutcomeSuccess then in_ErrorCode i = None
        else if in_Outcome i = OutcomeDenied then in_ErrorCode i = Some ErrorRotationDenied
        else if in_Outcome i = OutcomeFailed then in_ErrorCode i = Some ErrorRotationFailed
        else False) then False
     else if md_RotationDomain m \<noteq> Some rotationDomainKEK \<and> md_RotationDomain m \<noteq> Some rotationDomainDigest then False
     else if in_Outcome i \<noteq> OutcomeSuccess then metadataKeySetIsExact m [''rotation_domain'']
     else \<not> (\<not> metadataKeySetIsExact m [''rotation_domain'', ''key_reference'', ''key_version'']
        \<or> md_KeyReference m = None \<or> md_KeyVersion m = None \<or> Some (in_ResourceID i) \<noteq> md_KeyReference m))"

section \<open>The other vocabularies\<close>

definition validSourceMetadataReadProjection :: "event_input \<Rightarrow> bool" where
  "validSourceMetadataReadProjection i =
    (let m = in_Metadata i in
     if in_ResourceType i \<noteq> ResourceWorkspace \<or> in_PolicyDecisionID i \<noteq> None \<or> in_OnBehalfOfPrincipalID i \<noteq> None
        \<or> (in_ActorType i \<noteq> ActorHuman \<and> in_ActorType i \<noteq> ActorService) \<or> length (in_ReferencedEvidenceIDs i) \<noteq> 0
        \<or> length (md_ReasonCodes m) \<noteq> 1 then False
     else if hd (md_ReasonCodes m) \<noteq> ''SOURCE_STATUS_LIST'' \<and> hd (md_ReasonCodes m) \<noteq> ''SOURCE_CONFIRMATION_CONTEXT'' then False
     else if m \<noteq> no_metadata\<lparr>md_ReasonCodes := md_ReasonCodes m\<rparr> then False
     else if in_WorkspaceID i \<noteq> None \<and> in_WorkspaceID i \<noteq> Some (in_ResourceID i) then False
     else if in_Outcome i = OutcomeDenied \<and> in_ErrorCode i \<noteq> Some ''SOURCE_METADATA_READ_DENIED''
        \<or> in_Outcome i = OutcomeFailed \<and> in_ErrorCode i \<noteq> Some ''SOURCE_METADATA_READ_FAILED'' then False
     else if in_Action i = ActionSourceMetadataReadAdmitted
     then in_Outcome i = OutcomeSuccess \<and> in_WorkspaceID i \<noteq> None \<or> in_Outcome i = OutcomeDenied
     else if in_Action i = ActionSourceMetadataReadCompleted then in_Outcome i = OutcomeSuccess \<and> in_WorkspaceID i \<noteq> None
     else if in_Action i = ActionSourceMetadataReadFailed then in_Outcome i = OutcomeDenied \<or> in_Outcome i = OutcomeFailed
     else False)"

definition validAnswerAmendmentProjection :: "event_input \<Rightarrow> bool" where
  "validAnswerAmendmentProjection i =
    (if in_ResourceType i \<noteq> ResourceAnswerDocument \<or> \<not> answerAmendmentMetadataOnly (in_Metadata i)
        \<or> md_AnswerDocumentVersion (in_Metadata i) = None then False
     else in_Outcome i \<noteq> OutcomeSuccess \<or> in_WorkspaceID i \<noteq> None)"

definition isGovernedQueryAction :: "gostring \<Rightarrow> bool" where
  "isGovernedQueryAction a \<longleftrightarrow> a = ActionGovernedQueryAttempted"

definition validGovernedQueryProjection :: "event_input \<Rightarrow> bool" where
  "validGovernedQueryProjection i =
    (let m = in_Metadata i in
     if isGovernedQueryAction (in_Action i) \<noteq> (in_ResourceType i = ResourceGovernedQueryAttempt) then False
     else if \<not> isGovernedQueryAction (in_Action i) then True
     else if in_WorkspaceID i = None \<or> (in_ActorType i \<noteq> ActorHuman \<and> in_ActorType i \<noteq> ActorService) then False
     else if md_GovernedQueryConnectionID m = None \<or> md_GovernedQueryExposedSchemaRevision m = None
        \<or> md_GovernedQuerySQLHash m = None \<or> md_GovernedQueryOutcome m = None
        \<or> Some (in_ResourceID i) \<noteq> md_GovernedQuerySQLHash m then False
     else \<not> (md_GovernedQueryOutcome m = Some GovernedQueryOutcomeSucceeded
        \<and> (md_GovernedQueryCostEstimate m = None \<or> md_GovernedQueryRowCount m = None \<or> md_GovernedQueryResultDigest m = None)))"

definition isSearchProfileCallAction :: "gostring \<Rightarrow> bool" where
  "isSearchProfileCallAction a \<longleftrightarrow> a = ActionSearchProfileCallLexical \<or> a = ActionSearchProfileCallVector
     \<or> a = ActionSearchProfileCallHybrid"

definition isSearchProfileAction :: "gostring \<Rightarrow> bool" where
  "isSearchProfileAction a \<longleftrightarrow> a = ActionSearchProfileRevisionRequested \<or> isSearchProfileCallAction a"

definition validSearchProfileProjection :: "event_input \<Rightarrow> bool" where
  "validSearchProfileProjection i =
    (if isSearchProfileAction (in_Action i) \<noteq> (in_ResourceType i = ResourceSearchProfile) then False
     else if \<not> isSearchProfileAction (in_Action i) then True
     else if in_WorkspaceID i = None \<or> \<not> au_validHash (in_ResourceID i) then False
     else if (if isSearchProfileCallAction (in_Action i) then in_ActorType i \<noteq> ActorHuman \<and> in_ActorType i \<noteq> ActorService
        else in_ActorType i \<noteq> ActorHuman) then False
     else if length (in_ReferencedEvidenceIDs i) \<noteq> 0 \<or> in_PolicyDecisionID i \<noteq> None then False
     else searchProfileMetadataEmpty (in_Metadata i))"

section \<open>The shape of an action\<close>

definition source_mutation_projection :: "event_input \<Rightarrow> bool" where
  "source_mutation_projection i =
    (let m = in_Metadata i in
     if in_ResourceType i \<noteq> ResourceWorkspaceSource \<or> (in_Outcome i = OutcomeSuccess \<and> in_WorkspaceID i = None)
        \<or> length (in_ReferencedEvidenceIDs i) \<noteq> 0 \<or> in_PolicyDecisionID i \<noteq> None \<or> md_WorkspaceRevision m = None
        \<or> md_WorkspaceSourceID m = None \<or> md_SourceScopeID m = None \<or> md_SourceScopeRevision m = None
        \<or> md_ScopeConfigHash m = None \<or> md_AccessMode m = None \<or> md_Enabled m = None \<or> md_PolicyRevision m \<noteq> None
        \<or> Some (in_ResourceID i) \<noteq> md_WorkspaceSourceID m then False
     else md_Enabled m = Some (in_Action i = ActionWorkspaceSourceAdded) \<and> sourceMutationMetadataOnly m)"

definition validActionProjection :: "event_input \<Rightarrow> bool" where
  "validActionProjection i =
    (let a = in_Action i; r = in_ResourceType i; m = in_Metadata i in
     if a = ActionSourceMetadataReadAdmitted \<or> a = ActionSourceMetadataReadCompleted \<or> a = ActionSourceMetadataReadFailed
     then validSourceMetadataReadProjection i
     else if isAuthorityAction a \<or> r = ResourceWorkspaceAuthorityCommand then validAuthorityProjection i
     else if isRotationAction a \<or> r = ResourceCryptoKey then validRotationProjection i
     else if a = ActionAnswerDocumentAmended then validAnswerAmendmentProjection i
     else if isGovernedQueryAction a \<or> r = ResourceGovernedQueryAttempt then validGovernedQueryProjection i
     else if isSearchProfileAction a \<or> r = ResourceSearchProfile then validSearchProfileProjection i
     else if a \<noteq> ActionWorkspaceSourceAdded \<and> a \<noteq> ActionWorkspaceSourceRemoved
     then r \<noteq> ResourceWorkspaceSource \<and> \<not> hasAuthorityMetadata m \<and> \<not> hasRotationMetadata m \<and> \<not> hasAnswerMetadata m
        \<and> \<not> hasGovernedQueryMetadata m
     else source_mutation_projection i)"

definition validateInput :: "event_input \<Rightarrow> bool" where
  "validateInput i =
    (if \<not> au_validID (in_EventID i) \<or> \<not> au_validID (in_ResourceID i) \<or> \<not> au_validID (in_RequestID i)
        \<or> \<not> validActor (in_ActorType i) \<or> \<not> validAction (in_Action i) \<or> \<not> validResource (in_ResourceType i)
        \<or> \<not> validOutcome (in_Outcome i) \<or> in_OccurredAt i = 0 then False
     else if (in_ActorType i = ActorSystem) \<noteq> (in_ActorPrincipalID i = None)
        \<or> (in_Outcome i = OutcomeSuccess) \<noteq> (in_ErrorCode i = None) then False
     else if \<not> list_all (opt_all au_validID) [in_WorkspaceID i, in_ActorPrincipalID i, in_OnBehalfOfPrincipalID i,
        in_PolicyDecisionID i, in_ErrorCode i] then False
     else if \<not> opt_all validErrorCode (in_ErrorCode i) then False
     else canonicalEvidence (in_ReferencedEvidenceIDs i) \<and> validMetadata (in_Metadata i) \<and> validActionProjection i)"

section \<open>Building an event\<close>

definition opt_json :: "gostring option \<Rightarrow> json" where
  "opt_json v = (case v of None \<Rightarrow> JNull | Some s \<Rightarrow> go_json_text s)"

definition event_json :: "audit_env \<Rightarrow> event \<Rightarrow> bool \<Rightarrow> json" where
  "event_json e x includeHash = JObject (
     [(''action'', go_json_text (ev_Action x)), (''actor_principal_id'', opt_json (ev_ActorPrincipalID x)),
      (''actor_type'', go_json_text (ev_ActorType x)), (''error_code'', opt_json (ev_ErrorCode x))]
     @ (if includeHash then [(''event_hash'', go_json_text (ev_EventHash x))] else [])
     @ [(''event_id'', go_json_text (ev_EventID x)), (''metadata'', metadata_json (ev_Metadata x)),
      (''occurred_at'', go_json_text (au_format e (ev_OccurredAt x))),
      (''on_behalf_of_principal_id'', opt_json (ev_OnBehalfOfPrincipalID x)),
      (''organization_id'', go_json_text (ev_OrganizationID x)), (''outcome'', go_json_text (ev_Outcome x)),
      (''policy_decision_id'', opt_json (ev_PolicyDecisionID x)), (''previous_event_hash'', go_json_text (ev_PreviousEventHash x)),
      (''referenced_evidence_ids'', JArray (map go_json_text (ev_ReferencedEvidenceIDs x))),
      (''request_id'', go_json_text (ev_RequestID x)), (''resource_id'', go_json_text (ev_ResourceID x)),
      (''resource_type'', go_json_text (ev_ResourceType x)), (''schema_version'', go_json_text (ev_SchemaVersion x)),
      (''sequence'', JInt (ev_Sequence x)), (''workspace_id'', opt_json (ev_WorkspaceID x))])"

definition canonicalEvent :: "audit_env \<Rightarrow> event \<Rightarrow> bool \<Rightarrow> gostring" where
  "canonicalEvent e x includeHash = jcs (event_json e x includeHash)"

definition au_hash :: "audit_env \<Rightarrow> gostring \<Rightarrow> gostring" where
  "au_hash e s = ''sha256:'' @ hex_encode (au_sha256 e s)"

definition Build :: "audit_env \<Rightarrow> gostring \<Rightarrow> event_input \<Rightarrow> int \<Rightarrow> gostring \<Rightarrow> audit_error + event" where
  "Build e organizationID i headSequence headHash =
    (if \<not> au_validID organizationID \<or> headSequence < 0 \<or> (headSequence > 0 \<and> \<not> au_validHash headHash)
        \<or> (headSequence = 0 \<and> headHash \<noteq> [] \<and> headHash \<noteq> zeroHash) then Inl AuditInvalidEvent
     else if \<not> validateInput i then Inl AuditInvalidEvent
     else (let x = \<lparr>ev_SchemaVersion = au_schemaVersion, ev_EventID = in_EventID i, ev_OrganizationID = organizationID,
                    ev_Sequence = wrap64 (headSequence + 1), ev_WorkspaceID = in_WorkspaceID i, ev_ActorType = in_ActorType i,
                    ev_ActorPrincipalID = in_ActorPrincipalID i, ev_OnBehalfOfPrincipalID = in_OnBehalfOfPrincipalID i,
                    ev_Action = in_Action i, ev_ResourceType = in_ResourceType i, ev_ResourceID = in_ResourceID i,
                    ev_RequestID = in_RequestID i, ev_PolicyDecisionID = in_PolicyDecisionID i, ev_Outcome = in_Outcome i,
                    ev_ErrorCode = in_ErrorCode i, ev_ReferencedEvidenceIDs = in_ReferencedEvidenceIDs i,
                    ev_Metadata = in_Metadata i, ev_PreviousEventHash = (if headSequence = 0 then zeroHash else headHash),
                    ev_EventHash = [], ev_OccurredAt = in_OccurredAt i, ev_CanonicalBytes = []\<rparr>;
               canonical = canonicalEvent e x False in
           Inr (x\<lparr>ev_CanonicalBytes := canonical, ev_EventHash := au_hash e canonical\<rparr>)))"

end
