(* ===== verification/Audit_Store.thy ===== *)
theory Audit_Store
  imports Audit_Build
begin

text \<open>
  The store of the audit chain: the tables \<open>audit_chain_head\<close> and \<open>audit_event\<close> with the append
  trigger of \<open>db/migrations/000002_stage1_audit.sql\<close>, the access context of
  \<open>internal/platform/database\<close> and the append operations of \<open>internal/audit/audit.go\<close>. What the
  database does by itself is a parameter: the checks of a row that read its metadata or other tables (\<open>st_checks\<close>), the
  SQLSTATE a statement or a commit fails with, and the appends that other transactions commit in between.
\<close>

section \<open>Access\<close>

record access =
  ac_OrganizationID :: gostring
  ac_PrincipalID :: gostring
  ac_RequestID :: gostring
  ac_ActorKind :: gostring

definition db_safeIdentifier :: "gostring \<Rightarrow> bool" where
  "db_safeIdentifier v =
    (if v = [] \<or> length v > 128 \<or> \<not> valid_utf8 v \<or> trim_space v \<noteq> v then False
     else list_all (\<lambda>r. (97 \<le> r \<and> r \<le> 122) \<or> (65 \<le> r \<and> r \<le> 90) \<or> (48 \<le> r \<and> r \<le> 57) \<or> r \<in> set (runes ''_-.:'')) (runes v))"

definition access_Validate :: "access \<Rightarrow> bool" where
  "access_Validate a =
    (if \<not> list_all db_safeIdentifier [ac_OrganizationID a, ac_PrincipalID a, ac_RequestID a] then False
     else \<not> (ac_ActorKind a \<noteq> [] \<and> ac_ActorKind a \<noteq> ''HUMAN'' \<and> ac_ActorKind a \<noteq> ''SERVICE''))"

section \<open>The tables\<close>

record audit_db =
  db_heads :: "gostring \<rightharpoonup> int \<times> gostring"
  db_events :: "event list"

record store_env = audit_env +
  st_checks :: "event \<Rightarrow> gostring option"

definition sqlSerialization :: gostring where "sqlSerialization = ''40001''"
definition sqlCheck :: gostring where "sqlCheck = ''23514''"
definition sqlUnique :: gostring where "sqlUnique = ''23505''"

definition chain_head :: "audit_db \<Rightarrow> gostring \<Rightarrow> int \<times> gostring" where
  "chain_head db g = (case db_heads db g of None \<Rightarrow> (0, zeroHash) | Some h \<Rightarrow> h)"

subsection \<open>The constraints of a row\<close>

text \<open>The CHECK constraints of \<open>audit_event\<close> that read only the row: \<open>app.audit_opaque_id_is_valid\<close>, the patterns
  \<open>^[a-z][a-z0-9_]*(\.[a-z][a-z0-9_]*)+$\<close>, \<open>^[A-Z][A-Z0-9_]{1,127}$\<close> and \<open>^sha256:[0-9a-f]{64}$\<close>, and the closed lists,
  the resource types as migration 000072 leaves them.\<close>

definition audit_opaque_id_is_valid :: "gostring \<Rightarrow> bool" where
  "audit_opaque_id_is_valid v \<longleftrightarrow> 1 \<le> length (runes v) \<and> length (runes v) \<le> 256 \<and> hd v \<noteq> CHR '' '' \<and> last v \<noteq> CHR '' ''
     \<and> \<not> list_ex is_control (runes v)"

definition sql_action :: "gostring \<Rightarrow> bool" where
  "sql_action v \<longleftrightarrow>
    (let parts = split_on CHR ''.'' v in length parts \<ge> 2
       \<and> list_all (\<lambda>p. p \<noteq> [] \<and> 97 \<le> byte (hd p) \<and> byte (hd p) \<le> 122
           \<and> list_all (\<lambda>c. 97 \<le> byte c \<and> byte c \<le> 122 \<or> 48 \<le> byte c \<and> byte c \<le> 57 \<or> c = CHR ''_'') p) parts)"

definition sql_error_code :: "gostring \<Rightarrow> bool" where
  "sql_error_code v \<longleftrightarrow> 2 \<le> length v \<and> length v \<le> 128 \<and> 65 \<le> byte (hd v) \<and> byte (hd v) \<le> 90
     \<and> list_all (\<lambda>c. 65 \<le> byte c \<and> byte c \<le> 90 \<or> 48 \<le> byte c \<and> byte c \<le> 57 \<or> c = CHR ''_'') v"

definition sql_sha256 :: "gostring \<Rightarrow> bool" where
  "sql_sha256 v \<longleftrightarrow> length v = 71 \<and> has_prefix ''sha256:'' v \<and> list_all is_hex (drop 7 v)"

definition event_row_checks :: "event \<Rightarrow> bool" where
  "event_row_checks x \<longleftrightarrow>
     list_all audit_opaque_id_is_valid [ev_EventID x, ev_ResourceID x, ev_RequestID x]
     \<and> list_all (opt_all audit_opaque_id_is_valid)
         [ev_WorkspaceID x, ev_ActorPrincipalID x, ev_OnBehalfOfPrincipalID x, ev_PolicyDecisionID x]
     \<and> ev_SchemaVersion x = ''audit-event-v1'' \<and> 1 \<le> ev_Sequence x \<and> ev_Sequence x \<le> 9007199254740991
     \<and> ev_ActorType x \<in> set [''HUMAN'', ''SERVICE'', ''CONNECTOR'', ''SYSTEM''] \<and> sql_action (ev_Action x)
     \<and> ev_ResourceType x \<in> set [''ORGANIZATION'', ''IDENTITY'', ''WORKSPACE'', ''WORKSPACE_MEMBER'', ''WORKSPACE_SOURCE'',
         ''WORKSPACE_AUTHORITY_COMMAND'', ''SOURCE_CONNECTION'', ''SOURCE_SCOPE'', ''SOURCE_OBJECT'', ''CONVERSATION'',
         ''QUESTION_RUN'', ''CITATION'', ''MODEL_RUN'', ''POLICY'', ''SIGNING_KEY'', ''AUDIT_CHECKPOINT'', ''CRYPTO_KEY'',
         ''ANSWER_DOCUMENT'', ''GOVERNED_QUERY_ATTEMPT'', ''SEARCH_PROFILE'']
     \<and> ev_Outcome x \<in> set [''SUCCESS'', ''DENIED'', ''FAILED''] \<and> length (ev_ReferencedEvidenceIDs x) \<le> 128
     \<and> length (ev_CanonicalBytes x) > 0 \<and> sql_sha256 (ev_PreviousEventHash x) \<and> sql_sha256 (ev_EventHash x)
     \<and> (ev_ActorType x = ''SYSTEM'' \<and> ev_ActorPrincipalID x = None \<or> ev_ActorType x \<noteq> ''SYSTEM'' \<and> ev_ActorPrincipalID x \<noteq> None)
     \<and> (ev_Outcome x = ''SUCCESS'' \<and> ev_ErrorCode x = None
        \<or> ev_Outcome x \<noteq> ''SUCCESS'' \<and> (case ev_ErrorCode x of None \<Rightarrow> False | Some v \<Rightarrow> sql_error_code v))"

text \<open>\<open>app.audit_event_append_chain\<close>, the constraints of the row and its unique keys; a failed insert changes nothing.
  \<open>st_checks\<close> stands for what reads more than the scalar columns: the metadata validators and the projection triggers of
  migrations 000009, 000011, 000069 and 000072, and the foreign keys into the tables of organizations, workspaces, principals
  and command receipts.\<close>

definition insert_event :: "'a store_env_scheme \<Rightarrow> event \<Rightarrow> audit_db \<Rightarrow> gostring + audit_db" where
  "insert_event e x db =
    (let head = chain_head db (ev_OrganizationID x) in
     if ev_Sequence x \<noteq> fst head + 1 then Inl sqlSerialization
     else if ev_PreviousEventHash x \<noteq> snd head then Inl sqlSerialization
     else if \<not> event_row_checks x then Inl sqlCheck
     else case st_checks e x of Some code \<Rightarrow> Inl code
     | None \<Rightarrow>
       if list_ex (\<lambda>y. ev_EventID y = ev_EventID x
            \<or> ev_OrganizationID y = ev_OrganizationID x \<and> ev_EventHash y = ev_EventHash x) (db_events db) then Inl sqlUnique
       else Inr (db\<lparr>db_heads := (db_heads db)(ev_OrganizationID x \<mapsto> (ev_Sequence x, ev_EventHash x)),
                   db_events := db_events db @ [x]\<rparr>))"

subsection \<open>A built event passes the constraints of its row\<close>

lemma chunks_append: "valid_utf8 a \<Longrightarrow> chunks (a @ b) = chunks a @ chunks b"
proof (induction a rule: valid_utf8.induct)
  case (1 a)
  show ?case
  proof (cases "a = []")
    case False
    let ?n = "snd (decode_rune a)"
    have v: "decode_rune a \<noteq> (rune_error, 1)" "valid_utf8 (drop ?n a)"
      using 1(2) False by (simp_all add: valid_utf8_step)
    have "decode_rune (a @ b) = decode_rune a"
      using decode_rune_take [OF False v(1), of "drop ?n a @ b"] by (metis append.assoc append_take_drop_id)
    moreover have "?n \<le> length a" by (rule decode_rune_le_length)
    moreover have "chunks (drop ?n a @ b) = chunks (drop ?n a) @ chunks b" using 1 False v by simp
    ultimately show ?thesis using False by (simp add: chunks.simps [of "a @ b"] chunks.simps [of a])
  qed simp
qed

lemma dropWhile_shorter: "length (concat (dropWhile P xs)) \<le> length (concat xs)"
  by (induction xs) auto

lemma trim_right_shorter: "length (concat (dropWhile P (rev xs))) \<le> length (concat xs)"
  using dropWhile_shorter [of P "rev xs"] by simp

lemma space_chunk_space: "space_chunk '' ''"
  by code_simp

lemma trimmed_ends:
  assumes "valid_utf8 v" "trim_space v = v" "v \<noteq> []"
  shows "hd v \<noteq> CHR '' ''" "last v \<noteq> CHR '' ''"
proof -
  show "hd v \<noteq> CHR '' ''"
  proof
    assume "hd v = CHR '' ''"
    then obtain w where v: "v = CHR '' '' # w" using assms(3) by (cases v) auto
    then have "chunks v = '' '' # chunks w" by (simp add: chunks_Cons decode_rune_unfold)
    then have "length (trim_space v) \<le> length (concat (dropWhile space_chunk (chunks w)))"
      unfolding trim_space_def using space_chunk_space by (simp add: trim_right_shorter)
    also have "\<dots> \<le> length w" using dropWhile_shorter [of space_chunk "chunks w"] by (simp add: concat_chunks)
    finally show False using assms(2) v by simp
  qed
  show "last v \<noteq> CHR '' ''"
  proof
    assume "last v = CHR '' ''"
    then obtain w where v: "v = w @ '' ''" using assms(3) by (metis append_butlast_last_id)
    then have "valid_utf8 w" using valid_utf8_split [of w "'' ''"] assms(1) by (simp add: ascii_rune_start)
    then have c: "chunks v = chunks w @ ['' '']" using v by (simp add: chunks_append chunks_Cons decode_rune_unfold)
    show False
    proof (cases "dropWhile space_chunk (chunks w) = []")
      case True
      then have d: "dropWhile space_chunk (chunks v) = []" unfolding c using space_chunk_space by (simp add: dropWhile_append)
      have "trim_space v = []" unfolding trim_space_def d by simp
      then show False using assms(2,3) by simp
    next
      case False
      then have "dropWhile space_chunk (chunks v) = dropWhile space_chunk (chunks w) @ ['' '']" unfolding c by (auto simp: dropWhile_append)
      then have "length (trim_space v) \<le> length (concat (dropWhile space_chunk (chunks w)))"
        unfolding trim_space_def using space_chunk_space by (simp add: trim_right_shorter)
      also have "\<dots> \<le> length w" using dropWhile_shorter [of space_chunk "chunks w"] by (simp add: concat_chunks)
      finally show False using assms(2) v by simp
    qed
  qed
qed

lemma runes_shorter: "length (runes v) \<le> length v"
proof -
  have "length xs \<le> length (concat xs)" if "\<forall>x \<in> set xs. x \<noteq> []" for xs :: "'b list list"
    using that by (induction xs) (auto simp: Suc_le_eq neq_Nil_conv)
  from this [of "chunks v"] show ?thesis using chunks_nonempty [of _ v] rune_count_chunks [of v] by (simp add: concat_chunks rune_count_def)
qed

lemma validID_opaque: "au_validID v \<Longrightarrow> audit_opaque_id_is_valid v"
proof -
  assume v: "au_validID v"
  then have "runes v \<noteq> []" by (cases v) (auto simp: au_validID_def runes_Cons)
  then have "1 \<le> length (runes v)" by (cases "runes v") auto
  moreover have "length (runes v) \<le> 256" using v runes_shorter [of v] by (simp add: au_validID_def)
  ultimately show ?thesis using v trimmed_ends [of v]
    by (auto simp: audit_opaque_id_is_valid_def au_validID_def list_all_iff list_ex_iff)
qed

lemma validHash_sha256: "au_validHash v \<Longrightarrow> sql_sha256 v"
proof -
  assume v: "au_validHash v"
  have seven: "length ''sha256:'' = 7" by simp
  let ?P = "\<lambda>r. (48 \<le> r \<and> r \<le> 57) \<or> (97 \<le> r \<and> r \<le> (102 :: nat))"
  from v have l: "length v = 71" "has_prefix ''sha256:'' v" "list_all ?P (runes (drop 7 v))"
    by (simp_all only: au_validHash_def seven split: if_splits) simp_all
  from l(3) have "list_all (\<lambda>r. ?P r \<and> r < 0x80) (runes (drop 7 v))" by (rule list.pred_mono_strong) auto
  then have "list_all (\<lambda>c. ?P (byte c) \<and> byte c < 0x80) (drop 7 v)" by (simp only: runes_all_ascii)
  then have "list_all is_hex (drop 7 v)" by (rule list.pred_mono_strong) (auto simp: is_hex_def)
  with l show ?thesis by (simp add: sql_sha256_def)
qed

lemma validErrorCode_sql: "validErrorCode v \<Longrightarrow> sql_error_code v"
proof -
  assume v: "validErrorCode v"
  have underscore: "c = CHR ''_''" if "byte c = 95" for c
  proof -
    have "(char_of (byte c) :: char) = CHR ''_''" using that by (simp add: char_of_def bit_Suc_0_iff)
    then show ?thesis by simp
  qed
  let ?P = "\<lambda>r. (65 \<le> r \<and> r \<le> 90) \<or> (48 \<le> r \<and> r \<le> 57) \<or> r = (95 :: nat)"
  from v have l: "2 \<le> length v" "length v \<le> 128" "65 \<le> byte (hd v)" "byte (hd v) \<le> 90" "list_all ?P (runes v)"
    by (auto simp: validErrorCode_def split: if_splits)
  from l(5) have "list_all (\<lambda>r. ?P r \<and> r < 0x80) (runes v)" by (rule list.pred_mono_strong) auto
  then have "list_all (\<lambda>c. ?P (byte c) \<and> byte c < 0x80) v" by (simp only: runes_all_ascii)
  then have "list_all (\<lambda>c. 65 \<le> byte c \<and> byte c \<le> 90 \<or> 48 \<le> byte c \<and> byte c \<le> 57 \<or> c = CHR ''_'') v"
    by (rule list.pred_mono_strong) (use underscore in auto)
  with l show ?thesis by (simp add: sql_error_code_def)
qed

lemma validAction_sql: "validAction a \<Longrightarrow> sql_action a"
proof -
  have "list_all sql_action [ActionSourceObjectMissing, ActionSourceObjectRestored, ActionSourceMetadataReadAdmitted,
     ActionSourceMetadataReadCompleted, ActionSourceMetadataReadFailed, ActionIdentityLogin,
     ActionIdentityLoginFailed, ActionIdentityDeprovisioned, ActionSessionTerminated, ActionWorkspaceCreated,
     ActionWorkspaceUpdated, ActionWorkspaceArchived, ActionWorkspaceMemberAdded, ActionWorkspaceMemberRemoved,
     ActionWorkspaceRoleChanged, ActionWorkspaceSourceAdded, ActionWorkspaceSourceRemoved,
     ActionWorkspaceSourceConfirmationGrantIssued, ActionWorkspaceSourceConfirmationGrantRevoked,
     ActionWorkspaceSourceConfirmed, ActionWorkspaceSourceConfirmationRevoked, ActionPolicyDecision,
     ActionAuditViewed, ActionAuditExported, ActionSourceScopeChanged, ActionSourceScopeActivated,
     ActionSourceRegistrationCreated, ActionSourceActivationRequested, ActionSourceObjectIngested,
     ActionSourceObjectDeleted, ActionSourceVersionCreated, ActionSourceVersionPurging,
     ActionSourceVersionPurged, ActionSourceExtractionActive, ActionQuestionCreated, ActionQuestionCompleted,
     ActionQuestionFailed, ActionModelGatewayAttempt, ActionConversationArchived, ActionConversationPurging,
     ActionConversationPurged, ActionCitationOpened, ActionEvidenceReadAdmitted, ActionEvidenceReadFailed,
     ActionQuestionRunAdmitted, ActionGovernedQueryAdmitted, ActionAnswerDocumentAmended,
     ActionKeyRotationBegin, ActionKeyRotationComplete, ActionSourceConnectionTrustVerified,
     ActionGovernedQueryAttempted, ActionSearchProfileRevisionRequested, ActionSearchProfileCallLexical,
     ActionSearchProfileCallVector, ActionSearchProfileCallHybrid]"
    by (simp add: sql_action_def Let_def)
  then show "validAction a \<Longrightarrow> sql_action a" by (simp only: validAction_def list_all_iff)
qed

lemma Build_row_checks:
  assumes B: "Build e g i n h = Inr x" and n: "0 \<le> n" "n < maxSafeInt64" and h: "au_validHash h"
    and d: "au_validHash (ev_EventHash x)"
  shows "event_row_checks x"
proof -
  have w: "wrap64 (n + 1) = n + 1" using n by (intro wrap64_id) (simp_all add: maxSafeInt64_def min_int64_def max_int64_def)
  have i: "validateInput i" using B by (auto simp: Build_def split: if_splits)
  have zero: "au_validHash zeroHash" by code_simp
  have ids: "list_all audit_opaque_id_is_valid [in_EventID i, in_ResourceID i, in_RequestID i]"
    using i validID_opaque by (auto simp: validateInput_def split: if_splits)
  have opts: "list_all (opt_all audit_opaque_id_is_valid) [in_WorkspaceID i, in_ActorPrincipalID i, in_OnBehalfOfPrincipalID i, in_PolicyDecisionID i]"
    using i validID_opaque by (auto simp: validateInput_def opt_all_def split: if_splits option.splits)
  have vocabulary: "validActor (in_ActorType i)" "sql_action (in_Action i)" "validResource (in_ResourceType i)" "validOutcome (in_Outcome i)"
    using i validAction_sql by (auto simp: validateInput_def split: if_splits)
  have pairs: "in_ActorType i = ActorSystem \<longleftrightarrow> in_ActorPrincipalID i = None" "in_Outcome i = OutcomeSuccess \<longleftrightarrow> in_ErrorCode i = None"
    "opt_all validErrorCode (in_ErrorCode i)" "length (in_ReferencedEvidenceIDs i) \<le> 128"
    using i by (auto simp: validateInput_def canonicalEvidence_def split: if_splits)
  have bytes: "ev_CanonicalBytes x \<noteq> []"
    using B by (auto simp: Build_def Let_def canonicalEvent_def event_json_def jcs_def split: if_splits)
  have x: "ev_EventID x = in_EventID i" "ev_ResourceID x = in_ResourceID i" "ev_RequestID x = in_RequestID i" "ev_WorkspaceID x = in_WorkspaceID i"
    "ev_ActorPrincipalID x = in_ActorPrincipalID i" "ev_OnBehalfOfPrincipalID x = in_OnBehalfOfPrincipalID i"
    "ev_PolicyDecisionID x = in_PolicyDecisionID i" "ev_SchemaVersion x = au_schemaVersion" "ev_Sequence x = n + 1"
    "ev_ActorType x = in_ActorType i" "ev_Action x = in_Action i" "ev_ResourceType x = in_ResourceType i" "ev_Outcome x = in_Outcome i"
    "ev_ReferencedEvidenceIDs x = in_ReferencedEvidenceIDs i" "ev_PreviousEventHash x = (if n = 0 then zeroHash else h)"
    "ev_ErrorCode x = in_ErrorCode i"
    using B w by (auto simp: Build_def Let_def split: if_splits)
  have "sql_sha256 (ev_PreviousEventHash x)" "sql_sha256 (ev_EventHash x)"
    using h zero d validHash_sha256 by (simp_all add: x)
  moreover have "case in_ErrorCode i of None \<Rightarrow> in_Outcome i = ''SUCCESS'' | Some v \<Rightarrow> in_Outcome i \<noteq> ''SUCCESS'' \<and> sql_error_code v"
    using pairs(2,3) validErrorCode_sql by (cases "in_ErrorCode i") (auto simp: opt_all_def)
  ultimately show ?thesis
    unfolding event_row_checks_def x using ids opts vocabulary pairs bytes n
    by (auto simp: validActor_def validResource_def validOutcome_def au_schemaVersion_def maxSafeInt64_def split: option.splits)
qed

section \<open>Appending\<close>

definition validateAppend :: "access \<Rightarrow> event_input \<Rightarrow> audit_error option" where
  "validateAppend a i =
    (if \<not> access_Validate a \<or> ac_OrganizationID a = [] \<or> ac_PrincipalID a = [] then Some (AuditAppendFailed [])
     else if in_RequestID i \<noteq> ac_RequestID a
        \<or> (in_ActorType i \<noteq> ActorSystem \<and> in_ActorPrincipalID i \<noteq> Some (ac_PrincipalID a)) then Some AuditInvalidEvent
     else None)"

text \<open>The errors of \<open>appendInTransaction\<close>: the package's own, or a database error by its SQLSTATE. \<open>fault\<close> gives
  the SQLSTATE the first, second or third statement (lock, head, insert) fails with, if it fails by itself.\<close>

datatype append_error = OwnError audit_error | SqlError gostring

definition appendInTransaction ::
  "'a store_env_scheme \<Rightarrow> (nat \<Rightarrow> gostring option) \<Rightarrow> access \<Rightarrow> event_input \<Rightarrow> audit_db \<Rightarrow> append_error + event \<times> audit_db" where
  "appendInTransaction e fault a i db =
    (case fault 0 of Some code \<Rightarrow> Inl (SqlError code)
     | None \<Rightarrow> (case fault 1 of Some code \<Rightarrow> Inl (SqlError code)
     | None \<Rightarrow>
       (let head = chain_head db (ac_OrganizationID a) in
        case Build (audit_env.truncate e) (ac_OrganizationID a) i (fst head) (snd head) of
          Inl err \<Rightarrow> Inl (OwnError err)
        | Inr x \<Rightarrow>
          (case fault 2 of Some code \<Rightarrow> Inl (SqlError code)
           | None \<Rightarrow> (case insert_event e x db of Inl code \<Rightarrow> Inl (SqlError code) | Inr db' \<Rightarrow> Inr (x, db'))))))"

definition AppendInTransaction ::
  "'a store_env_scheme \<Rightarrow> (nat \<Rightarrow> gostring option) \<Rightarrow> access \<Rightarrow> event_input \<Rightarrow> audit_db \<Rightarrow> audit_error + event \<times> audit_db" where
  "AppendInTransaction e fault a i db =
    (case validateAppend a i of Some err \<Rightarrow> Inl err
     | None \<Rightarrow> (case appendInTransaction e fault a i db of
         Inr r \<Rightarrow> Inr r
       | Inl (OwnError AuditInvalidEvent) \<Rightarrow> Inl AuditInvalidEvent
       | Inl (OwnError err) \<Rightarrow> Inl (AuditAppendFailed [])
       | Inl (SqlError code) \<Rightarrow> Inl (AuditAppendFailed code)))"

section \<open>Transactions\<close>

text \<open>How a commit ends: it is confirmed, it is refused with a SQLSTATE and undone, or it is done and the confirmation is lost.\<close>

datatype commit = Confirmed | Refused gostring | Lost

record au_attempt =
  at_others :: "(access \<times> event_input) list"
  at_begin :: "gostring option"
  at_fault :: "nat \<Rightarrow> gostring option"
  at_commit :: commit

datatype write_error = WorkError audit_error | ContextInvalid | TransactionFailed gostring

definition other_append :: "'a store_env_scheme \<Rightarrow> audit_db \<Rightarrow> access \<times> event_input \<Rightarrow> audit_db" where
  "other_append e db ai =
    (case AppendInTransaction e (\<lambda>_. None) (fst ai) (snd ai) db of Inl _ \<Rightarrow> db | Inr r \<Rightarrow> snd r)"

definition withTransaction ::
  "au_attempt \<Rightarrow> access \<Rightarrow> (audit_db \<Rightarrow> audit_error + event \<times> audit_db) \<Rightarrow> audit_db \<Rightarrow> (write_error + event) \<times> audit_db" where
  "withTransaction t a work db =
    (if \<not> access_Validate a then (Inl ContextInvalid, db)
     else case at_begin t of Some code \<Rightarrow> (Inl (TransactionFailed code), db)
     | None \<Rightarrow> (case work db of Inl err \<Rightarrow> (Inl (WorkError err), db)
       | Inr r \<Rightarrow> (case at_commit t of
            Confirmed \<Rightarrow> (Inr (fst r), snd r)
          | Refused code \<Rightarrow> (Inl (TransactionFailed code), db)
          | Lost \<Rightarrow> (Inl (TransactionFailed []), snd r))))"

definition au_CodeOf_invalid :: "write_error \<Rightarrow> bool" where
  "au_CodeOf_invalid err \<longleftrightarrow> err = WorkError AuditInvalidEvent"

definition IsSerializationFailure :: "write_error \<Rightarrow> bool" where
  "IsSerializationFailure err =
    (case err of WorkError (AuditAppendFailed code) \<Rightarrow> code = sqlSerialization
     | TransactionFailed code \<Rightarrow> code = sqlSerialization
     | _ \<Rightarrow> False)"

definition au_maxAttempts :: nat where "au_maxAttempts = 3"

fun append_loop :: "'a store_env_scheme \<Rightarrow> au_attempt list \<Rightarrow> access \<Rightarrow> event_input \<Rightarrow> audit_db \<Rightarrow> (audit_error + event) \<times> audit_db" where
  "append_loop e [] a i db = (Inl AuditAppendContended, db)"
| "append_loop e (t # ts) a i db =
    (let before = foldl (other_append e) db (at_others t) in
     case withTransaction t a (AppendInTransaction e (at_fault t) a i) before of
       (Inr x, db') \<Rightarrow> (Inr x, db')
     | (Inl err, db') \<Rightarrow>
         if au_CodeOf_invalid err then (Inl AuditInvalidEvent, db')
         else if \<not> IsSerializationFailure err then (Inl (AuditAppendFailed []), db')
         else append_loop e ts a i db')"

text \<open>\<open>Append\<close> with what happens around its (at most three) transactions.\<close>

definition au_Append :: "'a store_env_scheme \<Rightarrow> (nat \<Rightarrow> au_attempt) \<Rightarrow> access \<Rightarrow> event_input \<Rightarrow> audit_db \<Rightarrow> (audit_error + event) \<times> audit_db" where
  "au_Append e ts a i db =
    (case validateAppend a i of Some err \<Rightarrow> (Inl err, db)
     | None \<Rightarrow> append_loop e (map ts [0..<au_maxAttempts]) a i db)"

end
