(* ===== verification/Audit_Chain.thy ===== *)
theory Audit_Chain
  imports Audit_Store
begin

text \<open>
  The audit chain: the canonical bytes of an event determine it, so that a chain whose links were built by
  \<open>Build\<close> is pinned by its head, and every append extends the log of one organization by one input.
\<close>

section \<open>Valid text\<close>

lemma wide_rune: "decode_rune (c # t) \<noteq> (rune_error, 1) \<Longrightarrow> \<not> byte c < 0x80 \<Longrightarrow> 2 \<le> snd (decode_rune (c # t))"
  by (auto simp: decode_rune_unfold decode2_def decode3_def decode4_def split: list.splits if_splits)

lemma coerce_valid: "valid_utf8 s \<Longrightarrow> coerce_utf8 s = s"
proof (induction s rule: length_induct)
  case (1 s)
  show ?case
  proof (cases s)
    case Nil
    then show ?thesis by (simp add: coerce_utf8_def)
  next
    case (Cons c t)
    let ?w = "snd (decode_rune (c # t))"
    have d: "decode_rune (c # t) \<noteq> (rune_error, 1)" and v: "valid_utf8 (drop ?w (c # t))"
      using 1(2) unfolding Cons valid_utf8_Cons by auto
    have 0: "0 < ?w" by simp
    have "coerce_utf8 (drop ?w (c # t)) = drop ?w (c # t)"
      by (rule 1(1) [rule_format, OF _ v]) (use Cons 0 in auto)
    moreover have "(case take ?w (c # t) of [b] \<Rightarrow> if 0x80 \<le> byte b then [CHR 0xEF, CHR 0xBF, CHR 0xBD] else take ?w (c # t)
       | _ \<Rightarrow> take ?w (c # t)) = take ?w (c # t)"
    proof (cases "byte c < 0x80")
      case True
      then show ?thesis by (simp add: decode_rune_unfold)
    next
      case False
      from wide_rune [OF d False] have "2 \<le> length (take ?w (c # t))" using decode_rune_le_length [of "c # t"] by simp
      then obtain x y r where "take ?w (c # t) = x # y # r"
        by (metis Suc_le_length_iff numeral_2_eq_2)
      then show ?thesis by simp
    qed
    ultimately show ?thesis unfolding Cons coerce_utf8_def chunks_Cons by simp
  qed
qed

lemma ascii_valid: "list_all (\<lambda>c. byte c < 0x80) s \<Longrightarrow> valid_utf8 s"
  using utf8_all_ascii [of s] by (simp add: high_bit_iff not_le)

lemma class_valid: "list_all (\<lambda>r. P r) (runes s) \<Longrightarrow> (\<And>r. P r \<Longrightarrow> r < 0x80) \<Longrightarrow> valid_utf8 s"
  using runes_all_ascii [of P s] ascii_valid [of s] by (auto simp: list_all_iff)

lemma validHash_valid: "au_validHash v \<Longrightarrow> valid_utf8 v"
proof -
  assume "au_validHash v"
  then have p: "has_prefix ''sha256:'' v" and h: "list_all (\<lambda>r. (48 \<le> r \<and> r \<le> 57) \<or> (97 \<le> r \<and> r \<le> 102)) (runes (drop 7 v))"
    by (auto simp: au_validHash_def numeral_eq_Suc split: if_splits)
  from p obtain t where t: "v = ''sha256:'' @ t" by (auto simp: has_prefix_iff)
  have "valid_utf8 (drop 7 v)" by (rule class_valid [OF h]) auto
  then have "valid_utf8 t" by (simp add: t)
  then show ?thesis unfolding t by (intro valid_utf8_append) (code_simp, assumption)
qed

lemma validErrorCode_valid: "validErrorCode v \<Longrightarrow> valid_utf8 v"
  by (rule class_valid [where P = "\<lambda>r. (65 \<le> r \<and> r \<le> 90) \<or> (48 \<le> r \<and> r \<le> 57) \<or> r = 95"])
    (auto simp: validErrorCode_def split: if_splits)

lemma validID_valid: "au_validID v \<Longrightarrow> valid_utf8 v"
  by (simp add: au_validID_def)

lemma ascending_valid: "ascending P p xs \<Longrightarrow> (\<And>x. P x \<Longrightarrow> valid_utf8 x) \<Longrightarrow> list_all valid_utf8 xs"
  by (induction P p xs rule: ascending.induct) (auto split: if_splits)

lemma go_json_text_inj: "valid_utf8 s \<Longrightarrow> valid_utf8 t \<Longrightarrow> go_json_text s = go_json_text t \<Longrightarrow> s = t"
  by (simp add: go_json_text_def coerce_valid)

lemma opt_json_inj: "opt_all valid_utf8 s \<Longrightarrow> opt_all valid_utf8 t \<Longrightarrow> opt_json s = opt_json t \<Longrightarrow> s = t"
  by (cases s; cases t) (simp_all add: opt_json_def go_json_text_def opt_all_def coerce_valid)

lemma map_text: "list_all valid_utf8 xs \<Longrightarrow> map go_json_text xs = map JString xs"
  by (simp add: list_all_iff go_json_text_def coerce_valid)

lemma map_text_inj:
  "list_all valid_utf8 xs \<Longrightarrow> list_all valid_utf8 ys \<Longrightarrow> map go_json_text xs = map go_json_text ys \<Longrightarrow> xs = ys"
  by (simp add: map_text) (metis injI inj_map_eq_map json.inject(1))

lemma opt_text_inj:
  "opt_all valid_utf8 s \<Longrightarrow> opt_all valid_utf8 t \<Longrightarrow> map_option go_json_text s = map_option go_json_text t \<Longrightarrow> s = t"
  by (cases s; cases t) (auto simp: opt_all_def go_json_text_inj)

section \<open>The metadata\<close>

text \<open>The text members of a metadata value.\<close>

definition metadata_texts :: "metadata \<Rightarrow> gostring option list" where
  "metadata_texts m = [md_AccessMode m, md_AcknowledgementCode m, md_AmendmentClass m, md_AuthorityOperation m,
     md_AuthorityParentHash m, md_AuthorityParentID m, md_AuthorityReasonCode m, md_AuthorityResultHash m,
     md_AuthorityResultID m, md_AuthorityRevocationHash m, md_AuthorityRevocationID m,
     md_ConfirmationActorGrantHash m, md_ConfirmationActorGrantID m, md_ConnectorJobID m,
     md_GovernedQueryConnectionID m, md_GovernedQueryOutcome m, md_GovernedQueryResultDigest m,
     md_GovernedQuerySQLHash m, md_KeyReference m, md_ManifestHash m, md_ModelRunID m, md_PolicyRevision m,
     md_QuestionRunID m, md_RemoteAddressDigest m, md_RotationDomain m, md_ScopeConfigHash m,
     md_SourceConnectionID m, md_SourceScopeID m, md_SyncRunID m, md_TargetPrincipalID m,
     md_TrustVerificationHash m, md_TrustVerificationID m, md_UserAgentFamily m, md_WarningContractHash m,
     md_WarningVersion m, md_WorkspaceConfigurationHash m, md_WorkspaceSourceID m]"

lemma opt_all_mono: "opt_all P v \<Longrightarrow> (\<And>x. P x \<Longrightarrow> Q x) \<Longrightarrow> opt_all Q v"
  by (auto simp: opt_all_def split: option.splits)

lemma fixed_texts_valid:
  "validAmendmentClass v \<Longrightarrow> valid_utf8 v" "validGovernedQueryOutcome v \<Longrightarrow> valid_utf8 v"
  "v = ''WORKSPACE_MANAGED'' \<or> v = ''SOURCE_ENFORCED'' \<Longrightarrow> valid_utf8 v"
  "v = rotationDomainKEK \<or> v = rotationDomainDigest \<Longrightarrow> valid_utf8 v"
  "v = authorityWarningVersion \<Longrightarrow> valid_utf8 v" "v = authorityAcknowledgementCode \<Longrightarrow> valid_utf8 v"
  "v \<in> set [authorityReasonGrantRevoked, authorityReasonAccessRevoked] \<Longrightarrow> valid_utf8 v"
  "v \<in> set [authorityOperationGrantIssue, authorityOperationGrantRevoke, authorityOperationConfirm,
      authorityOperationConfirmRevoke] \<Longrightarrow> valid_utf8 v"
proof -
  have all: "list_all valid_utf8 [''SUPERSEDE'', ''RETRACT'', ''REDACT'', GovernedQueryOutcomeSucceeded,
     GovernedQueryOutcomeRejectedStatic, GovernedQueryOutcomeRejectedDatabase, GovernedQueryOutcomeTimeout,
     GovernedQueryOutcomeRowLimitExceeded, GovernedQueryOutcomeCostLimitExceeded, ''WORKSPACE_MANAGED'', ''SOURCE_ENFORCED'',
     rotationDomainKEK, rotationDomainDigest, authorityWarningVersion, authorityAcknowledgementCode,
     authorityReasonGrantRevoked, authorityReasonAccessRevoked, authorityOperationGrantIssue, authorityOperationGrantRevoke,
     authorityOperationConfirm, authorityOperationConfirmRevoke]"
    by code_simp
  note all' = all [unfolded list.pred_inject]
  show "validAmendmentClass v \<Longrightarrow> valid_utf8 v" using all' unfolding validAmendmentClass_def by blast
  show "validGovernedQueryOutcome v \<Longrightarrow> valid_utf8 v"
    using all' unfolding validGovernedQueryOutcome_def list.set insert_iff empty_iff by blast
  show "v = ''WORKSPACE_MANAGED'' \<or> v = ''SOURCE_ENFORCED'' \<Longrightarrow> valid_utf8 v" using all' by blast
  show "v = rotationDomainKEK \<or> v = rotationDomainDigest \<Longrightarrow> valid_utf8 v" using all' by blast
  show "v = authorityWarningVersion \<Longrightarrow> valid_utf8 v" using all' by blast
  show "v = authorityAcknowledgementCode \<Longrightarrow> valid_utf8 v" using all' by blast
  show "v \<in> set [authorityReasonGrantRevoked, authorityReasonAccessRevoked] \<Longrightarrow> valid_utf8 v"
    using all' unfolding list.set insert_iff empty_iff by blast
  show "v \<in> set [authorityOperationGrantIssue, authorityOperationGrantRevoke, authorityOperationConfirm,
      authorityOperationConfirmRevoke] \<Longrightarrow> valid_utf8 v"
    using all' unfolding list.set insert_iff empty_iff by blast
qed

lemma opt_valid:
  "opt_all au_validID o1 \<Longrightarrow> opt_all valid_utf8 o1" "opt_all au_validHash o1 \<Longrightarrow> opt_all valid_utf8 o1"
  "opt_all validAmendmentClass o1 \<Longrightarrow> opt_all valid_utf8 o1" "opt_all validGovernedQueryOutcome o1 \<Longrightarrow> opt_all valid_utf8 o1"
  "opt_all (\<lambda>v. v = ''WORKSPACE_MANAGED'' \<or> v = ''SOURCE_ENFORCED'') o1 \<Longrightarrow> opt_all valid_utf8 o1"
  "opt_all (\<lambda>v. v = rotationDomainKEK \<or> v = rotationDomainDigest) o1 \<Longrightarrow> opt_all valid_utf8 o1"
  "opt_all (\<lambda>v. v = authorityWarningVersion) o1 \<Longrightarrow> opt_all valid_utf8 o1"
  "opt_all (\<lambda>v. v = authorityAcknowledgementCode) o1 \<Longrightarrow> opt_all valid_utf8 o1"
  "opt_all (\<lambda>v. v \<in> set [authorityReasonGrantRevoked, authorityReasonAccessRevoked]) o1 \<Longrightarrow> opt_all valid_utf8 o1"
  "opt_all (\<lambda>v. v \<in> set [authorityOperationGrantIssue, authorityOperationGrantRevoke, authorityOperationConfirm,
      authorityOperationConfirmRevoke]) o1 \<Longrightarrow> opt_all valid_utf8 o1"
  by (erule opt_all_mono, erule validID_valid validHash_valid fixed_texts_valid)+

lemma metadata_texts_valid:
  assumes "validMetadata m"
  shows "list_all (opt_all valid_utf8) (metadata_texts m)"
  using assms unfolding validMetadata_def validAuthorityMetadataFields_def validRotationMetadataFields_def
    validGovernedQueryMetadataFields_def metadata_texts_def list.pred_inject
  by (elim conjE, intro conjI TrueI) ((erule opt_valid)+, simp)

lemma metadata_codes_valid: "validMetadata m \<Longrightarrow> list_all valid_utf8 (md_ReasonCodes m)"
  by (auto intro: ascending_valid [where P = validErrorCode] validErrorCode_valid simp: validMetadata_def)

lemma present_members_inj:
  "map fst A = map fst B \<Longrightarrow> distinct (map fst A) \<Longrightarrow>
   map (\<lambda>(k, v). (k, the v)) (filter (\<lambda>(k, v). v \<noteq> None) A) = map (\<lambda>(k, v). (k, the v)) (filter (\<lambda>(k, v). v \<noteq> None) B) \<Longrightarrow> A = B"
proof (induction A arbitrary: B)
  case (Cons x A)
  obtain k v where x: "x = (k, v)" by (cases x)
  from Cons.prems(1) x obtain w B' where B: "B = (k, w) # B'" and keys: "map fst A = map fst B'" by (cases B) auto
  have absent: "(k, u) \<notin> set (map (\<lambda>(k, v). (k, the v)) (filter (\<lambda>(k, v). v \<noteq> None) C))" if "map fst C = map fst A" for u C
  proof
    assume "(k, u) \<in> set (map (\<lambda>(k, v). (k, the v)) (filter (\<lambda>(k, v). v \<noteq> None) C))"
    then have "k \<in> fst ` set C" by force
    then have "k \<in> set (map fst C)" by simp
    with that Cons.prems(2) x show False by simp
  qed
  show ?case
  proof (cases v)
    case None
    with absent [of A "the w"] Cons.prems(3) x B have w: "w = None" by (cases w) (auto dest: arg_cong [where f = set])
    with Cons.IH [of B'] Cons.prems x B keys None show ?thesis by simp
  next
    case (Some u)
    with absent [of B' u] keys Cons.prems(3) x B obtain u' where w: "w = Some u'"
      by (cases w) (auto dest: arg_cong [where f = set])
    with Cons.IH [of B'] Cons.prems x B keys Some show ?thesis by simp
  qed
qed simp

lemma metadata_keys_distinct: "distinct (map fst (metadata_members m))"
proof -
  have "map fst (metadata_members m) = map fst (metadata_members no_metadata)" by (simp add: metadata_members_def)
  moreover have "distinct (map fst (metadata_members no_metadata))" by code_simp
  ultimately show ?thesis by simp
qed

lemma metadata_json_members: "metadata_json m = metadata_json n \<Longrightarrow> metadata_members m = metadata_members n"
  by (rule present_members_inj) (simp_all only: metadata_keys_distinct metadata_json_def json.inject, simp add: metadata_members_def)

definition metadata_ints :: "metadata \<Rightarrow> int option list" where
  "metadata_ints m = [md_AnswerDocumentVersion m, md_CitationNumber m, md_ConfirmationActorGrantRevision m,
     md_GovernedQueryCostEstimate m, md_GovernedQueryExposedSchemaRevision m, md_GovernedQueryRowCount m, md_KeyVersion m,
     md_SourceScopeRevision m, md_WorkspaceRevision m]"

lemma metadata_parts:
  assumes "metadata_texts m = metadata_texts n" "metadata_ints m = metadata_ints n"
    "md_Enabled m = md_Enabled n" "md_ReasonCodes m = md_ReasonCodes n"
  shows "m = n"
  using assms by (cases m; cases n) (simp add: metadata_texts_def metadata_ints_def)

lemma opt_texts_inj:
  "list_all (opt_all valid_utf8) xs \<Longrightarrow> list_all (opt_all valid_utf8) ys \<Longrightarrow>
   map (map_option go_json_text) xs = map (map_option go_json_text) ys \<Longrightarrow> xs = ys"
proof (induction xs arbitrary: ys)
  case (Cons x xs)
  from Cons.prems(3) obtain y zs where ys: "ys = y # zs" by (cases ys) auto
  with Cons.prems opt_text_inj [of x y] Cons.IH [of zs] show ?case by simp
qed simp

lemma metadata_members_texts:
  assumes "metadata_members m = metadata_members n"
  shows "map (map_option go_json_text) (metadata_texts m) = map (map_option go_json_text) (metadata_texts n)"
    "map (map_option JInt) (metadata_ints m) = map (map_option JInt) (metadata_ints n)"
    "map_option JBool (md_Enabled m) = map_option JBool (md_Enabled n)"
    "md_ReasonCodes m = [] \<longleftrightarrow> md_ReasonCodes n = []" "map go_json_text (md_ReasonCodes m) = map go_json_text (md_ReasonCodes n)"
proof -
  note e = assms [unfolded metadata_members_def list.inject prod.inject]
  show "map (map_option go_json_text) (metadata_texts m) = map (map_option go_json_text) (metadata_texts n)"
    unfolding metadata_texts_def list.map by (simp only: e)
  show "map (map_option JInt) (metadata_ints m) = map (map_option JInt) (metadata_ints n)"
    unfolding metadata_ints_def list.map by (simp only: e)
  show "map_option JBool (md_Enabled m) = map_option JBool (md_Enabled n)" by (simp only: e)
  have c: "(if md_ReasonCodes m = [] then None else Some (JArray (map go_json_text (md_ReasonCodes m))))
     = (if md_ReasonCodes n = [] then None else Some (JArray (map go_json_text (md_ReasonCodes n))))"
    by (simp only: e)
  from c show "md_ReasonCodes m = [] \<longleftrightarrow> md_ReasonCodes n = []" by (auto split: if_splits)
  from c show "map go_json_text (md_ReasonCodes m) = map go_json_text (md_ReasonCodes n)" by (auto split: if_splits)
qed

lemma metadata_injective:
  assumes "validMetadata m" "validMetadata n" "metadata_json m = metadata_json n"
  shows "m = n"
proof (rule metadata_parts)
  note e = metadata_members_texts [OF metadata_json_members [OF assms(3)]]
  show "metadata_texts m = metadata_texts n"
    by (rule opt_texts_inj [OF metadata_texts_valid [OF assms(1)] metadata_texts_valid [OF assms(2)] e(1)])
  have "inj JInt" "inj JBool" by (simp_all add: inj_def)
  then have "inj (map (map_option JInt))" "inj (map_option JBool)" by (simp_all add: option.inj_map)
  with e(2,3) show "metadata_ints m = metadata_ints n" "md_Enabled m = md_Enabled n" by (simp_all add: inj_eq)
  show "md_ReasonCodes m = md_ReasonCodes n"
    by (rule map_text_inj [OF metadata_codes_valid [OF assms(1)] metadata_codes_valid [OF assms(2)] e(5)])
qed

lemma metadata_json_ijson:
  assumes "validMetadata m"
  shows "ijson (metadata_json m)"
proof -
  have small: "opt_all (int_from k) v \<Longrightarrow> k = 0 \<or> k = 1 \<Longrightarrow> opt_all (\<lambda>i. \<bar>i\<bar> \<le> 9007199254740992) v" for k v
    by (erule opt_all_mono) (auto simp: int_from_def maxSafeInt64_def)
  have ints: "list_all (opt_all (\<lambda>i. \<bar>i\<bar> \<le> 9007199254740992)) (metadata_ints m)"
    using assms unfolding validMetadata_def validAuthorityMetadataFields_def validRotationMetadataFields_def
      validGovernedQueryMetadataFields_def metadata_ints_def list.pred_inject
    by (elim conjE, intro conjI TrueI) ((erule small, simp)+, simp)
  have texts: "opt_all ijson (map_option go_json_text v)" for v by (cases v) (simp_all add: opt_all_def go_json_text_def)
  have int: "opt_all ijson (map_option JInt v) \<longleftrightarrow> opt_all (\<lambda>i. \<bar>i\<bar> \<le> 9007199254740992) v" for v
    by (cases v) (simp_all add: opt_all_def)
  have bool: "opt_all ijson (map_option JBool v)" for v by (cases v) (simp_all add: opt_all_def)
  have codes: "opt_all ijson (if xs = [] then None else Some (JArray (map go_json_text xs)))" for xs
    by (simp add: opt_all_def list_all_iff go_json_text_def)
  have "list_all (\<lambda>kv. opt_all ijson (snd kv)) (metadata_members m)"
    using ints unfolding metadata_members_def metadata_ints_def list.pred_inject by (simp only: snd_conv texts int bool codes simp_thms list.pred_inject(1))
  then show ?thesis by (auto simp: metadata_json_def list_all_iff opt_all_def split: option.splits)
qed

section \<open>The canonical bytes determine the event\<close>

definition input_of :: "event \<Rightarrow> event_input" where
  "input_of x = \<lparr>in_EventID = ev_EventID x, in_WorkspaceID = ev_WorkspaceID x, in_ActorType = ev_ActorType x,
     in_ActorPrincipalID = ev_ActorPrincipalID x, in_OnBehalfOfPrincipalID = ev_OnBehalfOfPrincipalID x,
     in_Action = ev_Action x, in_ResourceType = ev_ResourceType x, in_ResourceID = ev_ResourceID x,
     in_RequestID = ev_RequestID x, in_PolicyDecisionID = ev_PolicyDecisionID x, in_Outcome = ev_Outcome x,
     in_ErrorCode = ev_ErrorCode x, in_ReferencedEvidenceIDs = ev_ReferencedEvidenceIDs x,
     in_Metadata = ev_Metadata x, in_OccurredAt = ev_OccurredAt x\<rparr>"

text \<open>An event as a reader of the chain checks it: its fields are admissible, its canonical bytes are those of the
  fields and its hash is that of the bytes.\<close>

definition sealed_event :: "'a audit_env_scheme \<Rightarrow> event \<Rightarrow> bool" where
  "sealed_event e x \<longleftrightarrow> ev_SchemaVersion x = au_schemaVersion \<and> au_validID (ev_OrganizationID x)
     \<and> 1 \<le> ev_Sequence x \<and> ev_Sequence x \<le> maxSafeInt64 \<and> au_validHash (ev_PreviousEventHash x)
     \<and> validateInput (input_of x) \<and> ev_CanonicalBytes x = canonicalEvent (audit_env.truncate e) x False
     \<and> ev_EventHash x = au_hash (audit_env.truncate e) (ev_CanonicalBytes x)"

definition stamps_distinct :: "'a audit_env_scheme \<Rightarrow> bool" where
  "stamps_distinct e \<longleftrightarrow> inj (au_format e) \<and> (\<forall>t. valid_utf8 (au_format e t))"

lemma member_valid: "v \<in> set xs \<Longrightarrow> list_all valid_utf8 xs \<Longrightarrow> valid_utf8 v"
  by (simp add: list_all_iff)

lemma enumerations_valid:
  "validResource v \<Longrightarrow> valid_utf8 v" "validAction v \<Longrightarrow> valid_utf8 v" "validActor v \<Longrightarrow> valid_utf8 v" "validOutcome v \<Longrightarrow> valid_utf8 v"
proof -
  show "validResource v \<Longrightarrow> valid_utf8 v" unfolding validResource_def by (erule member_valid, code_simp)
  show "validAction v \<Longrightarrow> valid_utf8 v" unfolding validAction_def by (erule member_valid, code_simp)
  show "validActor v \<Longrightarrow> valid_utf8 v"
    by (rule member_valid [of v "[ActorHuman, ActorService, ActorConnector, ActorSystem]"], simp add: validActor_def, code_simp)
  show "validOutcome v \<Longrightarrow> valid_utf8 v"
    by (rule member_valid [of v "[OutcomeSuccess, OutcomeDenied, OutcomeFailed]"], simp add: validOutcome_def, code_simp)
qed

text \<open>What the readers of an admissible input may rely on.\<close>

lemma validateInput_texts:
  assumes "validateInput (input_of x)"
  shows "valid_utf8 (ev_EventID x)" "valid_utf8 (ev_ResourceID x)" "valid_utf8 (ev_RequestID x)" "valid_utf8 (ev_ActorType x)"
    "valid_utf8 (ev_Action x)" "valid_utf8 (ev_ResourceType x)" "valid_utf8 (ev_Outcome x)"
    "opt_all valid_utf8 (ev_WorkspaceID x)" "opt_all valid_utf8 (ev_ActorPrincipalID x)"
    "opt_all valid_utf8 (ev_OnBehalfOfPrincipalID x)" "opt_all valid_utf8 (ev_PolicyDecisionID x)"
    "opt_all valid_utf8 (ev_ErrorCode x)" "list_all valid_utf8 (ev_ReferencedEvidenceIDs x)" "validMetadata (ev_Metadata x)"
  using assms enumerations_valid validID_valid opt_valid(1) ascending_valid [of au_validID "[]"]
  by (simp_all add: validateInput_def input_of_def canonicalEvidence_def split: if_splits)

lemma event_json_fields:
  assumes "event_json e x False = event_json e y False"
  shows "go_json_text (ev_Action x) = go_json_text (ev_Action y)" "opt_json (ev_ActorPrincipalID x) = opt_json (ev_ActorPrincipalID y)"
    "go_json_text (ev_ActorType x) = go_json_text (ev_ActorType y)" "opt_json (ev_ErrorCode x) = opt_json (ev_ErrorCode y)"
    "go_json_text (ev_EventID x) = go_json_text (ev_EventID y)" "metadata_json (ev_Metadata x) = metadata_json (ev_Metadata y)"
    "go_json_text (au_format e (ev_OccurredAt x)) = go_json_text (au_format e (ev_OccurredAt y))"
    "opt_json (ev_OnBehalfOfPrincipalID x) = opt_json (ev_OnBehalfOfPrincipalID y)"
    "go_json_text (ev_OrganizationID x) = go_json_text (ev_OrganizationID y)" "go_json_text (ev_Outcome x) = go_json_text (ev_Outcome y)"
    "opt_json (ev_PolicyDecisionID x) = opt_json (ev_PolicyDecisionID y)"
    "go_json_text (ev_PreviousEventHash x) = go_json_text (ev_PreviousEventHash y)"
    "map go_json_text (ev_ReferencedEvidenceIDs x) = map go_json_text (ev_ReferencedEvidenceIDs y)"
    "go_json_text (ev_RequestID x) = go_json_text (ev_RequestID y)" "go_json_text (ev_ResourceID x) = go_json_text (ev_ResourceID y)"
    "go_json_text (ev_ResourceType x) = go_json_text (ev_ResourceType y)"
    "ev_Sequence x = ev_Sequence y" "opt_json (ev_WorkspaceID x) = opt_json (ev_WorkspaceID y)"
  using assms unfolding event_json_def if_False append_Nil append_Cons append_assoc json.inject list.inject prod.inject
  by (simp_all only: json.inject)

lemma event_json_ijson:
  assumes "sealed_event e x"
  shows "ijson (event_json a x False)"
proof -
  have t: "ijson (go_json_text s)" "ijson (opt_json v)" for s v by (simp_all add: go_json_text_def opt_json_def split: option.split)
  moreover have "ijson (metadata_json (ev_Metadata x))"
    using assms validateInput_texts(14) by (auto intro: metadata_json_ijson simp: sealed_event_def)
  moreover have "\<bar>ev_Sequence x\<bar> \<le> 9007199254740992" using assms by (simp add: sealed_event_def maxSafeInt64_def)
  ultimately show ?thesis by (simp add: event_json_def list_all_iff)
qed

lemma event_injective:
  assumes x: "sealed_event e x" and y: "sealed_event e y" and f: "stamps_distinct e" and b: "ev_CanonicalBytes x = ev_CanonicalBytes y"
  shows "x = y"
proof -
  let ?e = "audit_env.truncate e"
  from b x y have "jcs (event_json ?e x False) = jcs (event_json ?e y False)" by (simp add: sealed_event_def canonicalEvent_def)
  then have "event_json ?e x False = event_json ?e y False"
    by (simp add: jcs_injective ijson_numbers event_json_ijson [OF x] event_json_ijson [OF y])
  note e = event_json_fields [OF this]
  have v: "validateInput (input_of x)" "validateInput (input_of y)" using x y by (simp_all add: sealed_event_def)
  note vx = validateInput_texts [OF v(1)] and vy = validateInput_texts [OF v(2)]
  have vo: "valid_utf8 (ev_OrganizationID x)" "valid_utf8 (ev_OrganizationID y)"
    "valid_utf8 (ev_PreviousEventHash x)" "valid_utf8 (ev_PreviousEventHash y)"
    using x y by (simp_all add: sealed_event_def validID_valid validHash_valid)
  have "au_format ?e (ev_OccurredAt x) = au_format ?e (ev_OccurredAt y)"
    using f e(7) by (intro go_json_text_inj) (simp_all add: stamps_distinct_def audit_env.truncate_def)
  then have "ev_OccurredAt x = ev_OccurredAt y" using f by (simp add: stamps_distinct_def audit_env.truncate_def inj_eq)
  moreover have "ev_EventHash x = ev_EventHash y" "ev_SchemaVersion x = ev_SchemaVersion y" using x y b by (simp_all add: sealed_event_def)
  moreover note b
  moreover have "ev_Action x = ev_Action y" "ev_ActorType x = ev_ActorType y" "ev_EventID x = ev_EventID y"
    "ev_OrganizationID x = ev_OrganizationID y" "ev_Outcome x = ev_Outcome y" "ev_PreviousEventHash x = ev_PreviousEventHash y"
    "ev_RequestID x = ev_RequestID y" "ev_ResourceID x = ev_ResourceID y" "ev_ResourceType x = ev_ResourceType y"
    by (rule go_json_text_inj; fact vx vy vo e)+
  moreover have "ev_ActorPrincipalID x = ev_ActorPrincipalID y" "ev_ErrorCode x = ev_ErrorCode y"
    "ev_OnBehalfOfPrincipalID x = ev_OnBehalfOfPrincipalID y" "ev_PolicyDecisionID x = ev_PolicyDecisionID y"
    "ev_WorkspaceID x = ev_WorkspaceID y"
    by (rule opt_json_inj; fact vx vy e)+
  moreover have "ev_ReferencedEvidenceIDs x = ev_ReferencedEvidenceIDs y" by (rule map_text_inj; fact vx vy e)
  moreover have "ev_Metadata x = ev_Metadata y" by (rule metadata_injective; fact vx vy e)
  moreover note e(17)
  ultimately show ?thesis by (cases x; cases y) simp
qed

end
