(* ===== verification/Audit_Log.thy ===== *)
theory Audit_Log
  imports Audit_Chain
begin

text \<open>
  The audit log as an abstract append-only log of inputs per organization, which the tables and \<open>Append\<close>
  implement: the chain invariant, the refinement of one transactional append, what the head pins, and what the retry loop
  of \<open>Append\<close> leaves behind.
\<close>

section \<open>Chains\<close>

fun linked :: "'a audit_env_scheme \<Rightarrow> int \<times> gostring \<Rightarrow> event list \<Rightarrow> bool" where
  "linked e h [] = True"
| "linked e h (x # xs) =
    (sealed_event e x \<and> ev_Sequence x = fst h + 1 \<and> ev_PreviousEventHash x = snd h
     \<and> linked e (ev_Sequence x, ev_EventHash x) xs)"

definition chain_end :: "int \<times> gostring \<Rightarrow> event list \<Rightarrow> int \<times> gostring" where
  "chain_end h xs = (if xs = [] then h else (ev_Sequence (last xs), ev_EventHash (last xs)))"

lemma chain_end_simps [simp]:
  "chain_end h [] = h" "chain_end h (xs @ [x]) = (ev_Sequence x, ev_EventHash x)"
  by (simp_all add: chain_end_def)

lemma chain_end_Cons: "chain_end h (x # xs) = chain_end (ev_Sequence x, ev_EventHash x) xs"
  by (cases xs rule: rev_cases) (simp_all add: chain_end_def)

lemma linked_snoc:
  "linked e h (xs @ [x]) \<longleftrightarrow> linked e h xs \<and> sealed_event e x \<and> ev_Sequence x = fst (chain_end h xs) + 1
     \<and> ev_PreviousEventHash x = snd (chain_end h xs)"
  by (induction xs arbitrary: h) (auto simp: chain_end_Cons)

lemma linked_length: "linked e h xs \<Longrightarrow> fst (chain_end h xs) = fst h + int (length xs)"
  by (induction xs arbitrary: h) (auto simp: chain_end_Cons)

definition genesis :: "int \<times> gostring" where
  "genesis = (0, zeroHash)"

definition digests_distinct :: "'a audit_env_scheme \<Rightarrow> event list \<Rightarrow> event list \<Rightarrow> bool" where
  "digests_distinct e xs ys \<longleftrightarrow> list_all (\<lambda>x. list_all (\<lambda>y.
     au_sha256 e (ev_CanonicalBytes x) = au_sha256 e (ev_CanonicalBytes y) \<longrightarrow> ev_CanonicalBytes x = ev_CanonicalBytes y) ys) xs"

lemma au_hash_inj: "au_hash e s = au_hash e t \<Longrightarrow> au_sha256 e s = au_sha256 e t"
  by (simp add: au_hash_def hex_encode_inj)

lemma chain_pinned:
  assumes "linked e genesis xs" "linked e genesis ys" "chain_end genesis xs = chain_end genesis ys"
    "stamps_distinct e" "digests_distinct e xs ys"
  shows "xs = ys"
  using assms
proof (induction xs arbitrary: ys rule: rev_induct)
  case Nil
  from linked_length [OF Nil(2)] Nil(3) have "int (length ys) = 0" by (simp add: genesis_def)
  then show ?case by simp
next
  case (snoc x xs)
  have "ys \<noteq> []" using linked_length [OF snoc(2)] snoc(4) by (auto simp: genesis_def)
  then obtain zs y where ys: "ys = zs @ [y]" by (cases ys rule: rev_cases) auto
  have x: "linked e genesis xs" "sealed_event e x" "ev_Sequence x = fst (chain_end genesis xs) + 1"
    "ev_PreviousEventHash x = snd (chain_end genesis xs)" using snoc(2) by (simp_all add: linked_snoc)
  have y: "linked e genesis zs" "sealed_event e y" "ev_Sequence y = fst (chain_end genesis zs) + 1"
    "ev_PreviousEventHash y = snd (chain_end genesis zs)" using snoc(3) by (simp_all add: ys linked_snoc)
  have "ev_EventHash x = ev_EventHash y" using snoc(4) by (simp add: ys)
  then have "au_sha256 (audit_env.truncate e) (ev_CanonicalBytes x) = au_sha256 (audit_env.truncate e) (ev_CanonicalBytes y)"
    using x(2) y(2) by (intro au_hash_inj) (simp add: sealed_event_def)
  then have "ev_CanonicalBytes x = ev_CanonicalBytes y"
    using snoc(6) by (simp add: ys digests_distinct_def list_all_iff audit_env.truncate_def)
  with x(2) y(2) snoc(5) have xy: "x = y" by (intro event_injective)
  with x y have "chain_end genesis xs = chain_end genesis zs" by (simp add: prod_eq_iff)
  moreover have "digests_distinct e xs zs" using snoc(6) by (simp add: ys digests_distinct_def list_all_iff)
  ultimately have "xs = zs" using x y snoc(5) by (intro snoc.IH) simp_all
  with xy ys show ?case by simp
qed

section \<open>The store invariant\<close>

definition org_events :: "audit_db \<Rightarrow> gostring \<Rightarrow> event list" where
  "org_events db g = filter (\<lambda>x. ev_OrganizationID x = g) (db_events db)"

definition audit_inv :: "'a audit_env_scheme \<Rightarrow> audit_db \<Rightarrow> bool" where
  "audit_inv e db \<longleftrightarrow> (\<forall>g. linked e genesis (org_events db g) \<and> chain_head db g = chain_end genesis (org_events db g))
     \<and> distinct (map ev_EventID (db_events db))"

definition digest_length :: "'a audit_env_scheme \<Rightarrow> bool" where
  "digest_length e \<longleftrightarrow> (\<forall>s. length (au_sha256 e s) = 32)"

text \<open>The log an organization's rows stand for.\<close>

definition audit_log :: "audit_db \<Rightarrow> gostring \<Rightarrow> event_input list" where
  "audit_log db g = map input_of (org_events db g)"

lemma validHash_au_hash:
  assumes "length (au_sha256 e s) = 32"
  shows "au_validHash (au_hash e s)"
proof -
  let ?h = "hex_encode (au_sha256 e s)"
  let ?P = "\<lambda>r. (48 \<le> r \<and> r \<le> 57) \<or> (97 \<le> r \<and> r \<le> (102 :: nat))"
  have "list_all (\<lambda>c. ?P (byte c) \<and> byte c < 0x80) ?h"
    using hex_encode_is_hex by (rule list.pred_mono_strong) (auto simp: is_hex_def)
  then have "list_all (\<lambda>r. ?P r \<and> r < 0x80) (runes ?h)" by (simp only: runes_all_ascii)
  then have "list_all ?P (runes ?h)" by (rule list.pred_mono_strong) simp
  moreover have "has_prefix ''sha256:'' (''sha256:'' @ ?h)" by (rule has_prefix_append)
  moreover have "drop (length ''sha256:'') (''sha256:'' @ ?h) = ?h" by simp
  ultimately show ?thesis unfolding au_validHash_def au_hash_def using assms by simp
qed

lemma validHash_zero: "au_validHash zeroHash"
  by code_simp

lemma linked_head:
  assumes "linked e genesis xs" "digest_length e"
  shows "0 \<le> fst (chain_end genesis xs)" "fst (chain_end genesis xs) \<le> maxSafeInt64" "au_validHash (snd (chain_end genesis xs))"
    "fst (chain_end genesis xs) = 0 \<Longrightarrow> snd (chain_end genesis xs) = zeroHash"
  using assms validHash_zero
  by (cases xs rule: rev_cases;
      auto simp: genesis_def linked_snoc sealed_event_def digest_length_def audit_env.truncate_def maxSafeInt64_def validHash_au_hash)+

lemma Build_Inr:
  assumes "Build (audit_env.truncate e) g i n h = Inr x" "0 \<le> n" "n \<le> maxSafeInt64" "au_validHash h" "n = 0 \<Longrightarrow> h = zeroHash"
  shows "input_of x = i" "ev_OrganizationID x = g" "ev_Sequence x = n + 1" "ev_PreviousEventHash x = h"
    "n < maxSafeInt64 \<Longrightarrow> sealed_event e x" "validateInput i"
proof -
  have w: "wrap64 (n + 1) = n + 1" using assms(2,3) by (intro wrap64_id) (simp_all add: maxSafeInt64_def min_int64_def max_int64_def)
  show fields: "input_of x = i" "ev_OrganizationID x = g" "ev_Sequence x = n + 1" "ev_PreviousEventHash x = h" "validateInput i"
    using assms(1,5) w by (auto simp: Build_def Let_def input_of_def split: if_splits)
  have bytes: "ev_CanonicalBytes x = canonicalEvent (audit_env.truncate e) x False"
    "ev_EventHash x = au_hash (audit_env.truncate e) (ev_CanonicalBytes x)" "ev_SchemaVersion x = au_schemaVersion" "au_validID g"
    using assms(1) by (auto simp: Build_def Let_def canonicalEvent_def event_json_def split: if_splits)
  show "n < maxSafeInt64 \<Longrightarrow> sealed_event e x"
    using assms(2,4) bytes fields by (simp add: sealed_event_def)
qed

lemma Build_total:
  assumes "0 \<le> n" "au_validHash h" "n = 0 \<Longrightarrow> h = zeroHash"
  shows "(\<exists>x. Build a g i n h = Inr x) \<longleftrightarrow> au_validID g \<and> validateInput i"
    "\<not> (au_validID g \<and> validateInput i) \<Longrightarrow> Build a g i n h = Inl AuditInvalidEvent"
  using assms by (auto simp: Build_def Let_def)

lemma insert_event_Inr:
  assumes "insert_event e x db = Inr db'" "sealed_event e x" "audit_inv e db"
  shows "audit_inv e db'" "org_events db' = (org_events db)(ev_OrganizationID x := org_events db (ev_OrganizationID x) @ [x])"
proof -
  let ?g = "ev_OrganizationID x"
  from assms(1) have seq: "ev_Sequence x = fst (chain_head db ?g) + 1" "ev_PreviousEventHash x = snd (chain_head db ?g)"
    and ids: "ev_EventID x \<notin> ev_EventID ` set (db_events db)"
    and db': "db' = db\<lparr>db_heads := (db_heads db)(?g \<mapsto> (ev_Sequence x, ev_EventHash x)), db_events := db_events db @ [x]\<rparr>"
    by (auto simp: insert_event_def Let_def list_ex_iff split: if_splits option.splits)
  show o: "org_events db' = (org_events db)(?g := org_events db ?g @ [x])" by (auto simp: org_events_def db' fun_eq_iff)
  have heads: "chain_head db' g = (if g = ?g then (ev_Sequence x, ev_EventHash x) else chain_head db g)" for g
    by (simp add: chain_head_def db')
  have "linked e genesis (org_events db' g) \<and> chain_head db' g = chain_end genesis (org_events db' g)" for g
    using assms(2,3) seq by (cases "g = ?g") (auto simp: o heads audit_inv_def linked_snoc)
  moreover have "distinct (map ev_EventID (db_events db'))" using assms(3) ids by (simp add: audit_inv_def db')
  ultimately show "audit_inv e db'" by (simp add: audit_inv_def)
qed

section \<open>One append\<close>

lemma AppendInTransaction_Inr:
  assumes "AppendInTransaction e fault a i db = Inr (x, db')" "audit_inv e db" "digest_length e"
  shows "audit_inv e db'" "org_events db' = (org_events db)(ac_OrganizationID a := org_events db (ac_OrganizationID a) @ [x])"
    "input_of x = i" "ev_OrganizationID x = ac_OrganizationID a"
    "ev_Sequence x = int (length (org_events db (ac_OrganizationID a))) + 1" "sealed_event e x"
proof -
  let ?g = "ac_OrganizationID a" and ?h = "chain_head db (ac_OrganizationID a)"
  from assms(1) have B: "Build (audit_env.truncate e) ?g i (fst ?h) (snd ?h) = Inr x" and I: "insert_event e x db = Inr db'"
    by (auto simp: AppendInTransaction_def appendInTransaction_def Let_def split: option.splits sum.splits append_error.splits audit_error.splits)
  have l: "linked e genesis (org_events db ?g)" and h: "?h = chain_end genesis (org_events db ?g)"
    using assms(2) by (simp_all add: audit_inv_def)
  note lh = linked_head [OF l assms(3), folded h]
  note b = Build_Inr [OF B lh(1,2,3)]
  show o: "ev_OrganizationID x = ?g" "input_of x = i" using b lh(4) by simp_all
  have "ev_Sequence x \<le> maxSafeInt64" using I by (auto simp: insert_event_def Let_def event_row_checks_def maxSafeInt64_def split: if_splits)
  then have s: "sealed_event e x" using b lh(4) by simp
  then show "sealed_event e x" .
  show "audit_inv e db'" "org_events db' = (org_events db)(?g := org_events db ?g @ [x])"
    using insert_event_Inr [OF I s assms(2)] o by simp_all
  show "ev_Sequence x = int (length (org_events db ?g)) + 1"
    using b lh(4) linked_length [OF l] h by (simp add: genesis_def)
qed

text \<open>The abstract log: per organization a list of inputs that only grows, one admissible input with a new id at a time.\<close>

definition log_append :: "access \<Rightarrow> event_input \<Rightarrow> (gostring \<Rightarrow> event_input list) \<Rightarrow> (gostring \<Rightarrow> event_input list) option" where
  "log_append a i log =
    (if validateAppend a i \<noteq> None \<or> \<not> validateInput i \<or> maxSafeInt64 \<le> int (length (log (ac_OrganizationID a)))
        \<or> (\<exists>g. in_EventID i \<in> in_EventID ` set (log g)) then None
     else Some (log(ac_OrganizationID a := log (ac_OrganizationID a) @ [i])))"

definition committed_log :: "audit_error + event \<times> audit_db \<Rightarrow> (gostring \<Rightarrow> event_input list) option" where
  "committed_log r = (case r of Inl _ \<Rightarrow> None | Inr (x, db) \<Rightarrow> Some (audit_log db))"

text \<open>The digest of the next event is not that of another event of the organization.\<close>

definition next_digest_new :: "'a audit_env_scheme \<Rightarrow> access \<Rightarrow> event_input \<Rightarrow> audit_db \<Rightarrow> bool" where
  "next_digest_new e a i db \<longleftrightarrow>
    (let head = chain_head db (ac_OrganizationID a) in
     case Build (audit_env.truncate e) (ac_OrganizationID a) i (fst head) (snd head) of
       Inl _ \<Rightarrow> True | Inr x \<Rightarrow> digests_distinct e (org_events db (ac_OrganizationID a)) [x])"

lemma safeIdentifier_validID: "db_safeIdentifier v \<Longrightarrow> au_validID v"
proof -
  have "runes ''_-.:'' = [95, 45, 46, 58]" by code_simp
  then show "db_safeIdentifier v \<Longrightarrow> au_validID v"
    by (fastforce simp: db_safeIdentifier_def au_validID_def is_control_def list_all_iff split: if_splits)
qed

lemma access_validID: "validateAppend a i = None \<Longrightarrow> au_validID (ac_OrganizationID a)"
  by (auto simp: validateAppend_def access_Validate_def safeIdentifier_validID split: if_splits)

lemma log_ids: "(\<exists>g. k \<in> in_EventID ` set (audit_log db g)) \<longleftrightarrow> (\<exists>y\<in>set (db_events db). ev_EventID y = k)"
  by (force simp: audit_log_def org_events_def image_iff input_of_def)

lemma linked_member: "linked e h xs \<Longrightarrow> y \<in> set xs \<Longrightarrow> sealed_event e y \<and> ev_Sequence y \<le> fst (chain_end h xs)"
proof (induction xs rule: rev_induct)
  case (snoc z zs)
  then show ?case by (auto simp: linked_snoc)
qed simp

lemma next_hash_new:
  assumes inv: "audit_inv e db" and y: "y \<in> set (org_events db (ac_OrganizationID a))"
    and B: "Build (audit_env.truncate e) (ac_OrganizationID a) i (fst (chain_head db (ac_OrganizationID a)))
       (snd (chain_head db (ac_OrganizationID a))) = Inr x"
    and x: "sealed_event e x" and s: "ev_Sequence x = fst (chain_head db (ac_OrganizationID a)) + 1"
    and stamps: "stamps_distinct e" and new: "next_digest_new e a i db"
  shows "ev_EventHash y \<noteq> ev_EventHash x"
proof
  assume e: "ev_EventHash y = ev_EventHash x"
  have y': "sealed_event e y" "ev_Sequence y \<le> fst (chain_head db (ac_OrganizationID a))"
    using linked_member [OF _ y, of e genesis] inv by (simp_all add: audit_inv_def)
  have "au_sha256 (audit_env.truncate e) (ev_CanonicalBytes y) = au_sha256 (audit_env.truncate e) (ev_CanonicalBytes x)"
    using x y' e by (intro au_hash_inj) (simp add: sealed_event_def)
  then have "ev_CanonicalBytes y = ev_CanonicalBytes x"
    using new B y by (simp add: next_digest_new_def digests_distinct_def list_all_iff audit_env.truncate_def)
  then have "y = x" using event_injective x y' stamps by blast
  with y' s show False by simp
qed

lemma append_refines:
  assumes inv: "audit_inv e db" and len: "digest_length e" and stamps: "stamps_distinct e" and new: "next_digest_new e a i db"
    and checks: "\<forall>x. st_checks e x = None"
  shows "committed_log (AppendInTransaction e (\<lambda>_. None) a i db) = log_append a i (audit_log db)"
proof -
  let ?g = "ac_OrganizationID a" and ?h = "chain_head db (ac_OrganizationID a)" and ?B = "Build (audit_env.truncate e) (ac_OrganizationID a) i"
  have l: "linked e genesis (org_events db ?g)" and h: "?h = chain_end genesis (org_events db ?g)"
    using inv by (simp_all add: audit_inv_def)
  note lh = linked_head [OF l len, folded h]
  have n: "fst ?h = int (length (audit_log db ?g))" using linked_length [OF l] h by (simp add: genesis_def audit_log_def)
  show ?thesis
  proof (cases "validateAppend a i = None \<and> validateInput i")
    case False
    then show ?thesis using Build_total [where n = "fst ?h" and h = "snd ?h" and a = "audit_env.truncate e" and g = ?g and i = i] lh
      by (cases "validateAppend a i") (auto simp: AppendInTransaction_def appendInTransaction_def Let_def committed_log_def log_append_def)
  next
    case True
    with Build_total(1) [where n = "fst ?h" and h = "snd ?h" and a = "audit_env.truncate e" and g = ?g and i = i] lh access_validID [of a i]
    obtain x where B: "?B (fst ?h) (snd ?h) = Inr x" by auto
    note b = Build_Inr [OF B lh(1,2,3)]
    have fields: "input_of x = i" "ev_OrganizationID x = ?g" "ev_Sequence x = fst ?h + 1" "ev_PreviousEventHash x = snd ?h"
      using b lh(4) by simp_all
    have id: "ev_EventID x = in_EventID i" using fields(1) by (auto simp: input_of_def)
    have hashes: "ev_EventHash y \<noteq> ev_EventHash x" if "y \<in> set (org_events db ?g)" "fst ?h < maxSafeInt64" for y
      using next_hash_new [OF inv that(1) B _ fields(3) stamps new] b(5) lh(4) that(2) by simp
    let ?full = "maxSafeInt64 \<le> int (length (audit_log db ?g))" and ?used = "\<exists>y\<in>set (db_events db). ev_EventID y = in_EventID i"
    have rows: "event_row_checks x \<longleftrightarrow> \<not> ?full"
    proof
      assume "event_row_checks x"
      then show "\<not> ?full" using fields(3) n by (simp add: event_row_checks_def maxSafeInt64_def)
    next
      assume "\<not> ?full"
      then have s: "fst ?h < maxSafeInt64" using n by simp
      have "sealed_event e x" using b(5) lh(4) s by simp
      then have "au_validHash (ev_EventHash x)" using len validHash_au_hash
        by (simp add: sealed_event_def digest_length_def audit_env.truncate_def)
      then show "event_row_checks x" by (rule Build_row_checks [OF B lh(1) s lh(3)])
    qed
    have I: "(\<exists>db'. insert_event e x db = Inr db') \<longleftrightarrow> \<not> ?full \<and> \<not> ?used"
      using checks fields lh(1) hashes n rows by (auto simp: insert_event_def Let_def list_ex_iff id org_events_def)
    have A: "AppendInTransaction e (\<lambda>_. None) a i db
        = (case insert_event e x db of Inl code \<Rightarrow> Inl (AuditAppendFailed code) | Inr db' \<Rightarrow> Inr (x, db'))"
      using True B by (auto simp: AppendInTransaction_def appendInTransaction_def Let_def split: sum.split)
    show ?thesis
    proof (cases "insert_event e x db")
      case (Inl code)
      with I A True show ?thesis by (auto simp: committed_log_def log_append_def log_ids)
    next
      case (Inr db')
      with A have r: "AppendInTransaction e (\<lambda>_. None) a i db = Inr (x, db')" by simp
      note s = AppendInTransaction_Inr [OF r inv len]
      have "audit_log db' = (audit_log db)(?g := audit_log db ?g @ [i])" using s by (simp add: audit_log_def fun_eq_iff)
      moreover have "\<not> ?full \<and> \<not> ?used" using I Inr by auto
      ultimately show ?thesis using r True by (auto simp: committed_log_def log_append_def log_ids)
    qed
  qed
qed

section \<open>Append and its retries\<close>

text \<open>The store before the work of attempt \<open>j\<close>, when no earlier attempt left anything behind.\<close>

definition others_until :: "'a store_env_scheme \<Rightarrow> (nat \<Rightarrow> au_attempt) \<Rightarrow> audit_db \<Rightarrow> nat \<Rightarrow> audit_db" where
  "others_until e ts db k = foldl (other_append e) db (concat (map (\<lambda>j. at_others (ts j)) [0..<k]))"

lemma others_until_step:
  "others_until e ts db 0 = db"
  "foldl (other_append e) (others_until e ts db k) (at_others (ts k)) = others_until e ts db (Suc k)"
  by (simp_all add: others_until_def)

lemma other_append_inv: "audit_inv e db \<Longrightarrow> digest_length e \<Longrightarrow> audit_inv e (other_append e db ai)"
  using AppendInTransaction_Inr(1) [of e _ "fst ai" "snd ai" db]
  by (auto simp: other_append_def split: sum.splits)

lemma others_inv: "audit_inv e db \<Longrightarrow> digest_length e \<Longrightarrow> audit_inv e (foldl (other_append e) db ais)"
  by (induction ais arbitrary: db) (simp_all add: other_append_inv)

lemma others_until_inv: "audit_inv e db \<Longrightarrow> digest_length e \<Longrightarrow> audit_inv e (others_until e ts db k)"
  by (simp add: others_until_def others_inv)

text \<open>What an append leaves: one more event of the caller's organization, or only what the others appended.\<close>

definition appended :: "'a store_env_scheme \<Rightarrow> access \<Rightarrow> event_input \<Rightarrow> audit_db \<Rightarrow> event \<Rightarrow> audit_db \<Rightarrow> bool" where
  "appended e a i before x after \<longleftrightarrow> audit_inv e after \<and> input_of x = i
     \<and> after = before\<lparr>db_heads := (db_heads before)(ac_OrganizationID a \<mapsto> (ev_Sequence x, ev_EventHash x)),
                      db_events := db_events before @ [x]\<rparr>
     \<and> ev_Sequence x = int (length (org_events before (ac_OrganizationID a))) + 1"

lemma AppendInTransaction_appended:
  assumes "AppendInTransaction e fault a i db = Inr (x, db')" "audit_inv e db" "digest_length e"
  shows "appended e a i db x db'"
proof -
  from assms(1) have I: "insert_event e x db = Inr db'"
    by (auto simp: AppendInTransaction_def appendInTransaction_def Let_def split: option.splits sum.splits append_error.splits audit_error.splits)
  then have "db' = db\<lparr>db_heads := (db_heads db)(ev_OrganizationID x \<mapsto> (ev_Sequence x, ev_EventHash x)), db_events := db_events db @ [x]\<rparr>"
    by (auto simp: insert_event_def Let_def split: if_splits option.splits)
  with AppendInTransaction_Inr [OF assms] show ?thesis by (simp add: appended_def)
qed

definition append_outcome :: "'a store_env_scheme \<Rightarrow> (nat \<Rightarrow> au_attempt) \<Rightarrow> access \<Rightarrow> event_input \<Rightarrow> audit_db
    \<Rightarrow> (audit_error + event) \<times> audit_db \<Rightarrow> bool" where
  "append_outcome e ts a i db r \<longleftrightarrow>
    (case fst r of
       Inr x \<Rightarrow> (\<exists>k<3. appended e a i (others_until e ts db (Suc k)) x (snd r) \<and> at_commit (ts k) = Confirmed)
     | Inl err \<Rightarrow> (\<exists>k\<le>3. snd r = others_until e ts db k)
         \<or> (\<exists>k<3. \<exists>x. appended e a i (others_until e ts db (Suc k)) x (snd r) \<and> at_commit (ts k) = Lost \<and> err = AuditAppendFailed []))"

lemma append_loop_outcome:
  assumes "audit_inv e db" "digest_length e" "k + n = 3"
  shows "append_outcome e ts a i db (append_loop e (map ts [k..<3]) a i (others_until e ts db k))"
  using assms(3)
proof (induction n arbitrary: k)
  case 0
  then show ?case by (auto simp: append_outcome_def)
next
  case (Suc n)
  let ?b = "others_until e ts db (Suc k)" and ?t = "ts k"
  have k: "k < 3" using Suc.prems by simp
  have split: "map ts [k..<3] = ?t # map ts [Suc k..<3]" using k by (simp add: upt_rec)
  have inv: "audit_inv e ?b" by (rule others_until_inv [OF assms(1,2)])
  have same: "append_outcome e ts a i db (Inl err, ?b)" for err using k by (auto simp: append_outcome_def intro!: exI [of _ "Suc k"])
  have next_attempt: "append_outcome e ts a i db (append_loop e (map ts [Suc k..<3]) a i ?b)" using Suc by simp
  have w: "append_loop e (map ts [k..<3]) a i (others_until e ts db k) =
     (case withTransaction ?t a (AppendInTransaction e (at_fault ?t) a i) ?b of
       (Inr x, db') \<Rightarrow> (Inr x, db')
     | (Inl err, db') \<Rightarrow>
         if au_CodeOf_invalid err then (Inl AuditInvalidEvent, db')
         else if \<not> IsSerializationFailure err then (Inl (AuditAppendFailed []), db')
         else append_loop e (map ts [Suc k..<3]) a i db')"
    unfolding split by (simp add: others_until_step Let_def)
  show ?case
  proof (cases "AppendInTransaction e (at_fault ?t) a i ?b")
    case (Inl err)
    then show ?thesis unfolding w withTransaction_def
      using same next_attempt by (auto split: option.split)
  next
    case (Inr r)
    obtain x db' where r: "r = (x, db')" by (cases r)
    with Inr inv assms(2) have A: "appended e a i ?b x db'" by (intro AppendInTransaction_appended) simp_all
    have lost: "append_outcome e ts a i db (Inl (AuditAppendFailed []), db')" if "at_commit ?t = Lost"
      using A k that by (auto simp: append_outcome_def)
    have confirmed: "append_outcome e ts a i db (Inr x, db')" if "at_commit ?t = Confirmed"
      using A k that by (auto simp: append_outcome_def)
    show ?thesis unfolding w withTransaction_def using Inr r same next_attempt lost confirmed
      by (auto simp: au_CodeOf_invalid_def IsSerializationFailure_def sqlSerialization_def split: option.split commit.split)
  qed
qed

section \<open>When Append succeeds\<close>

definition first_fault :: "(nat \<Rightarrow> gostring option) \<Rightarrow> gostring option" where
  "first_fault f = (case f 0 of Some c \<Rightarrow> Some c | None \<Rightarrow> (case f 1 of Some c \<Rightarrow> Some c | None \<Rightarrow> f 2))"

text \<open>A transaction that fails by a serialization failure, and one in which nothing fails.\<close>

definition transient :: "au_attempt \<Rightarrow> bool" where
  "transient t \<longleftrightarrow> at_begin t = Some sqlSerialization
     \<or> at_begin t = None \<and> (case first_fault (at_fault t) of Some c \<Rightarrow> c = sqlSerialization | None \<Rightarrow> at_commit t = Refused sqlSerialization)"

definition clean :: "au_attempt \<Rightarrow> bool" where
  "clean t \<longleftrightarrow> at_begin t = None \<and> first_fault (at_fault t) = None \<and> at_commit t = Confirmed"

definition ready :: "'a store_env_scheme \<Rightarrow> access \<Rightarrow> event_input \<Rightarrow> audit_db \<Rightarrow> bool" where
  "ready e a i db \<longleftrightarrow> log_append a i (audit_log db) \<noteq> None \<and> next_digest_new e a i db"

lemma validateAppend_access: "validateAppend a i = None \<Longrightarrow> access_Validate a"
  by (auto simp: validateAppend_def split: if_splits)

lemma work_ready:
  assumes "audit_inv e db" "digest_length e" "stamps_distinct e" "\<forall>x. st_checks e x = None" "ready e a i db"
  shows "case first_fault f of
      Some c \<Rightarrow> AppendInTransaction e f a i db = Inl (AuditAppendFailed c)
    | None \<Rightarrow> \<exists>x db'. AppendInTransaction e f a i db = Inr (x, db') \<and> audit_log db' = the (log_append a i (audit_log db))"
proof -
  from assms(5) obtain log where l: "log_append a i (audit_log db) = Some log" and new: "next_digest_new e a i db"
    by (auto simp: ready_def)
  with append_refines [OF assms(1-3) new assms(4)] obtain x db'
    where r: "AppendInTransaction e (\<lambda>_. None) a i db = Inr (x, db')" "audit_log db' = log"
    by (auto simp: committed_log_def split: sum.splits)
  from r(1) have v: "validateAppend a i = None"
    and B: "Build (audit_env.truncate e) (ac_OrganizationID a) i (fst (chain_head db (ac_OrganizationID a))) (snd (chain_head db (ac_OrganizationID a))) = Inr x"
    and I: "insert_event e x db = Inr db'"
    by (auto simp: AppendInTransaction_def appendInTransaction_def Let_def split: option.splits sum.splits append_error.splits audit_error.splits)
  show ?thesis using v B I l r(2)
    by (auto simp: first_fault_def AppendInTransaction_def appendInTransaction_def Let_def split: option.split)
qed

lemma loop_transient:
  assumes "audit_inv e db" "digest_length e" "stamps_distinct e" "\<forall>x. st_checks e x = None"
    "transient t" "ready e a i (foldl (other_append e) db (at_others t))"
  shows "append_loop e (t # ts) a i db = append_loop e ts a i (foldl (other_append e) db (at_others t))"
proof -
  let ?b = "foldl (other_append e) db (at_others t)"
  have v: "access_Validate a" using assms(6) by (auto simp: ready_def log_append_def intro: validateAppend_access split: if_splits)
  have w: "case first_fault (at_fault t) of Some c \<Rightarrow> AppendInTransaction e (at_fault t) a i ?b = Inl (AuditAppendFailed c)
    | None \<Rightarrow> \<exists>x db'. AppendInTransaction e (at_fault t) a i ?b = Inr (x, db') \<and> audit_log db' = the (log_append a i (audit_log ?b))"
    by (rule work_ready) (use assms others_inv in auto)
  have "\<exists>err. withTransaction t a (AppendInTransaction e (at_fault t) a i) ?b = (Inl err, ?b) \<and> \<not> au_CodeOf_invalid err \<and> IsSerializationFailure err"
    using assms(5) w v
    by (auto simp: transient_def withTransaction_def au_CodeOf_invalid_def IsSerializationFailure_def split: option.splits)
  then show ?thesis by (auto simp: Let_def)
qed

lemma loop_clean:
  assumes "audit_inv e db" "digest_length e" "stamps_distinct e" "\<forall>x. st_checks e x = None"
    "clean t" "ready e a i (foldl (other_append e) db (at_others t))"
  shows "\<exists>x db'. append_loop e (t # ts) a i db = (Inr x, db')
     \<and> audit_log db' = the (log_append a i (audit_log (foldl (other_append e) db (at_others t))))"
proof -
  let ?b = "foldl (other_append e) db (at_others t)"
  have v: "access_Validate a" using assms(6) by (auto simp: ready_def log_append_def intro: validateAppend_access split: if_splits)
  have w: "case first_fault (at_fault t) of Some c \<Rightarrow> AppendInTransaction e (at_fault t) a i ?b = Inl (AuditAppendFailed c)
    | None \<Rightarrow> \<exists>x db'. AppendInTransaction e (at_fault t) a i ?b = Inr (x, db') \<and> audit_log db' = the (log_append a i (audit_log ?b))"
    by (rule work_ready) (use assms others_inv in auto)
  with assms(5) v show ?thesis by (auto simp: clean_def withTransaction_def Let_def)
qed

lemma loop_succeeds:
  assumes "audit_inv e db" "digest_length e" "stamps_distinct e" "\<forall>x. st_checks e x = None"
    "j \<le> k" "\<forall>m\<in>{j..k}. ready e a i (others_until e ts db (Suc m))" "\<forall>m\<in>{j..<k}. transient (ts m)" "clean (ts k)"
  shows "\<exists>x db'. append_loop e (map ts [j..<Suc k] @ us) a i (others_until e ts db j) = (Inr x, db')
     \<and> audit_log db' = the (log_append a i (audit_log (others_until e ts db (Suc k))))"
  using assms(5-7)
proof (induction "k - j" arbitrary: j)
  case 0
  then have j: "j = k" by simp
  have i: "audit_inv e (others_until e ts db k)" by (rule others_until_inv [OF assms(1,2)])
  show ?case using loop_clean [OF i assms(2-4,8), of a i us] 0(3) by (simp add: j others_until_step)
next
  case (Suc n)
  then have j: "j < k" by simp
  have i: "audit_inv e (others_until e ts db j)" by (rule others_until_inv [OF assms(1,2)])
  have "map ts [j..<Suc k] @ us = ts j # (map ts [Suc j..<Suc k] @ us)" using j by (simp add: upt_rec)
  then have "append_loop e (map ts [j..<Suc k] @ us) a i (others_until e ts db j)
      = append_loop e (map ts [Suc j..<Suc k] @ us) a i (others_until e ts db (Suc j))"
    using loop_transient [OF i assms(2-4), of "ts j" a i] Suc(4,5) j by (simp add: others_until_step del: append_loop.simps)
  moreover have "\<exists>x db'. append_loop e (map ts [Suc j..<Suc k] @ us) a i (others_until e ts db (Suc j)) = (Inr x, db')
     \<and> audit_log db' = the (log_append a i (audit_log (others_until e ts db (Suc k))))"
    by (rule Suc(1)) (use Suc j in auto)
  ultimately show ?case by simp
qed

end
