(* ===== verification/Audit_Guarantees.thy ===== *)
theory Audit_Guarantees
  imports Audit_Log
begin

text \<open>
  The guarantees of the audit log, stated over \<open>Append\<close>, \<open>AppendInTransaction\<close> and \<open>validateInput\<close>, with
  a concrete organization to which they apply.
\<close>

section \<open>Reserved vocabularies\<close>

lemma key_present:
  "(k, v) \<in> set (metadata_members m) \<Longrightarrow> v \<noteq> None \<Longrightarrow> metadataKeySetIsExact m expected \<Longrightarrow> k \<in> set expected"
proof -
  assume "(k, v) \<in> set (metadata_members m)" "v \<noteq> None"
  then have "k \<in> set (metadataKeySet m)" by (force simp: metadataKeySet_def)
  moreover assume "metadataKeySetIsExact m expected"
  ultimately show "k \<in> set expected" by (simp add: metadataKeySetIsExact_def)
qed

text \<open>The member names of the four reserved vocabularies.\<close>

definition rotation_keys :: "gostring list" where
  "rotation_keys = [''rotation_domain'', ''key_reference'', ''key_version'']"

definition answer_keys :: "gostring list" where
  "answer_keys = [''answer_document_version'', ''amendment_class'']"

definition governed_keys :: "gostring list" where
  "governed_keys = [''governed_query_connection_id'', ''governed_query_exposed_schema_revision'', ''governed_query_sql_hash'', ''governed_query_cost_estimate'',
     ''governed_query_row_count'', ''governed_query_result_digest'', ''governed_query_outcome'']"

definition authority_keys :: "gostring list" where
  "authority_keys = [''authority_operation'', ''authority_result_id'', ''authority_result_hash'', ''authority_parent_id'',
     ''authority_parent_hash'', ''authority_revocation_id'', ''authority_revocation_hash'', ''authority_reason_code'',
     ''target_principal_id'', ''workspace_configuration_hash'', ''confirmation_actor_grant_id'', ''confirmation_actor_grant_revision'',
     ''confirmation_actor_grant_hash'', ''warning_version'', ''warning_contract_hash'', ''acknowledgement_code'']"

lemma keys_absent:
  assumes "metadataKeySetIsExact m expected" "list_all (\<lambda>k. k \<notin> set expected) keys"
  shows "list_all (\<lambda>w. w \<noteq> None \<longrightarrow> w = Some None) (map (map_of (metadata_members m)) keys)"
proof -
  have "map_of (metadata_members m) k = Some v \<Longrightarrow> k \<in> set keys \<Longrightarrow> v = None" for k v
    using key_present [OF map_of_SomeD [of "metadata_members m" k v] _ assms(1)] assms(2) unfolding list_all_iff by blast
  then show ?thesis by (auto simp: list_all_iff)
qed

lemma key_lookups:
  "map (map_of (metadata_members m)) rotation_keys = map Some [map_option go_json_text (md_RotationDomain m), map_option go_json_text (md_KeyReference m),
     map_option JInt (md_KeyVersion m)]"
  "map (map_of (metadata_members m)) answer_keys = map Some [map_option JInt (md_AnswerDocumentVersion m), map_option go_json_text (md_AmendmentClass m)]"
  "map (map_of (metadata_members m)) governed_keys = map Some [map_option go_json_text (md_GovernedQueryConnectionID m), map_option JInt (md_GovernedQueryExposedSchemaRevision m),
     map_option go_json_text (md_GovernedQuerySQLHash m), map_option JInt (md_GovernedQueryCostEstimate m),
     map_option JInt (md_GovernedQueryRowCount m), map_option go_json_text (md_GovernedQueryResultDigest m),
     map_option go_json_text (md_GovernedQueryOutcome m)]"
  "map (map_of (metadata_members m)) authority_keys = map Some [map_option go_json_text (md_AuthorityOperation m), map_option go_json_text (md_AuthorityResultID m),
     map_option go_json_text (md_AuthorityResultHash m), map_option go_json_text (md_AuthorityParentID m),
     map_option go_json_text (md_AuthorityParentHash m), map_option go_json_text (md_AuthorityRevocationID m),
     map_option go_json_text (md_AuthorityRevocationHash m), map_option go_json_text (md_AuthorityReasonCode m),
     map_option go_json_text (md_TargetPrincipalID m), map_option go_json_text (md_WorkspaceConfigurationHash m),
     map_option go_json_text (md_ConfirmationActorGrantID m), map_option JInt (md_ConfirmationActorGrantRevision m),
     map_option go_json_text (md_ConfirmationActorGrantHash m), map_option go_json_text (md_WarningVersion m),
     map_option go_json_text (md_WarningContractHash m), map_option go_json_text (md_AcknowledgementCode m)]"
  unfolding metadata_members_def rotation_keys_def answer_keys_def governed_keys_def authority_keys_def list.map
  by (simp_all only: map_of.simps fun_upd_apply fst_conv snd_conv list.inject char.inject simp_thms if_False if_True list.distinct)

text \<open>A value whose members are exactly \<open>expected\<close> carries no vocabulary whose names are not expected.\<close>

lemma vocabulary_absent:
  assumes "metadataKeySetIsExact m expected"
  shows
    "list_all (\<lambda>k. k \<notin> set expected) rotation_keys \<Longrightarrow> \<not> hasRotationMetadata m"
    "list_all (\<lambda>k. k \<notin> set expected) answer_keys \<Longrightarrow> \<not> hasAnswerMetadata m"
    "list_all (\<lambda>k. k \<notin> set expected) governed_keys \<Longrightarrow> \<not> hasGovernedQueryMetadata m"
    "list_all (\<lambda>k. k \<notin> set expected) authority_keys \<Longrightarrow> \<not> hasAuthorityMetadata m"
  using keys_absent [OF assms, of rotation_keys] keys_absent [OF assms, of answer_keys]
    keys_absent [OF assms, of governed_keys] keys_absent [OF assms, of authority_keys]
  unfolding key_lookups by (simp_all add: hasRotationMetadata_def hasAnswerMetadata_def hasGovernedQueryMetadata_def hasAuthorityMetadata_def)

lemma authority_sets_exclude:
  "list_all (\<lambda>k. k \<notin> set (authoritySuccessMetadata a)) (rotation_keys @ answer_keys @ governed_keys)"
  "list_all (\<lambda>k. k \<notin> set authorityFailureMetadata) (rotation_keys @ answer_keys @ governed_keys)"
proof -
  have all: "list_all (\<lambda>a. list_all (\<lambda>k. k \<notin> set (authoritySuccessMetadata a)) (rotation_keys @ answer_keys @ governed_keys))
     [ActionWorkspaceSourceConfirmationGrantIssued, ActionWorkspaceSourceConfirmationGrantRevoked,
      ActionWorkspaceSourceConfirmationRevoked, ActionWorkspaceSourceConfirmed]" by code_simp
  show "list_all (\<lambda>k. k \<notin> set (authoritySuccessMetadata a)) (rotation_keys @ answer_keys @ governed_keys)"
    using all [unfolded list.pred_inject] by (cases "authoritySuccessMetadata a = []") (auto simp: authoritySuccessMetadata_def list_all_iff)
  show "list_all (\<lambda>k. k \<notin> set authorityFailureMetadata) (rotation_keys @ answer_keys @ governed_keys)" by code_simp
qed

lemma authority_projection:
  assumes "validAuthorityProjection i" "isAuthorityAction (in_Action i)"
  shows "\<not> hasRotationMetadata (in_Metadata i) \<and> \<not> hasAnswerMetadata (in_Metadata i) \<and> \<not> hasGovernedQueryMetadata (in_Metadata i)"
proof -
  have "metadataKeySetIsExact (in_Metadata i) authorityFailureMetadata \<or> metadataKeySetIsExact (in_Metadata i) (authoritySuccessMetadata (in_Action i))"
    using assms by (auto simp: validAuthorityProjection_def Let_def split: if_splits)
  then show ?thesis using authority_sets_exclude(1) [of "in_Action i"] authority_sets_exclude(2) vocabulary_absent by (elim disjE) (auto simp: list_all_append)
qed

lemma rotation_projection:
  assumes "validRotationProjection i" "isRotationAction (in_Action i)"
  shows "\<not> hasAuthorityMetadata (in_Metadata i) \<and> \<not> hasAnswerMetadata (in_Metadata i) \<and> \<not> hasGovernedQueryMetadata (in_Metadata i)"
proof -
  let ?ks = "authority_keys @ answer_keys @ governed_keys"
  have "list_all (\<lambda>k. k \<notin> set [''rotation_domain'']) ?ks" "list_all (\<lambda>k. k \<notin> set [''rotation_domain'', ''key_reference'', ''key_version'']) ?ks"
    by code_simp+
  moreover have "metadataKeySetIsExact (in_Metadata i) [''rotation_domain'']
      \<or> metadataKeySetIsExact (in_Metadata i) [''rotation_domain'', ''key_reference'', ''key_version'']"
    using assms by (auto simp: validRotationProjection_def Let_def split: if_splits)
  ultimately show ?thesis using vocabulary_absent by (elim disjE) (auto simp: list_all_append)
qed

lemma no_vocabulary:
  "\<not> hasAuthorityMetadata (no_metadata\<lparr>md_ReasonCodes := c\<rparr>)" "\<not> hasRotationMetadata (no_metadata\<lparr>md_ReasonCodes := c\<rparr>)"
  "\<not> hasAnswerMetadata (no_metadata\<lparr>md_ReasonCodes := c\<rparr>)" "\<not> hasGovernedQueryMetadata (no_metadata\<lparr>md_ReasonCodes := c\<rparr>)"
  by (simp_all add: hasAuthorityMetadata_def hasRotationMetadata_def hasAnswerMetadata_def hasGovernedQueryMetadata_def no_metadata_def)

lemma if_elim: "(if c then A else B) \<Longrightarrow> (c \<Longrightarrow> A \<Longrightarrow> T) \<Longrightarrow> (\<not> c \<Longrightarrow> B \<Longrightarrow> T) \<Longrightarrow> T"
  by (simp split: if_splits)

lemma projection_known:
  "validAuthorityProjection i \<Longrightarrow> isAuthorityAction (in_Action i) \<or> in_ResourceType i = ResourceWorkspaceAuthorityCommand \<Longrightarrow> isAuthorityAction (in_Action i)"
  "validRotationProjection i \<Longrightarrow> isRotationAction (in_Action i) \<or> in_ResourceType i = ResourceCryptoKey \<Longrightarrow> isRotationAction (in_Action i)"
  "validGovernedQueryProjection i \<Longrightarrow> isGovernedQueryAction (in_Action i) \<or> in_ResourceType i = ResourceGovernedQueryAttempt
     \<Longrightarrow> isGovernedQueryAction (in_Action i)"
  "validSearchProfileProjection i \<Longrightarrow> isSearchProfileAction (in_Action i) \<or> in_ResourceType i = ResourceSearchProfile
     \<Longrightarrow> searchProfileMetadataEmpty (in_Metadata i)"
  "source_mutation_projection i \<Longrightarrow> sourceMutationMetadataOnly (in_Metadata i)"
  unfolding validAuthorityProjection_def validRotationProjection_def validGovernedQueryProjection_def
    validSearchProfileProjection_def source_mutation_projection_def Let_def
  by (elim if_elim; metis)+

lemma projection_vocabularies:
  assumes "validActionProjection i"
  shows "hasAuthorityMetadata (in_Metadata i) \<longrightarrow> isAuthorityAction (in_Action i) \<or> isGovernedQueryAction (in_Action i)"
    "hasRotationMetadata (in_Metadata i) \<longrightarrow> isRotationAction (in_Action i) \<or> isGovernedQueryAction (in_Action i)"
    "hasAnswerMetadata (in_Metadata i) \<longrightarrow> in_Action i = ActionAnswerDocumentAmended \<or> isGovernedQueryAction (in_Action i)"
    "hasGovernedQueryMetadata (in_Metadata i) \<longrightarrow> isGovernedQueryAction (in_Action i)"
proof -
  let ?a = "in_Action i" and ?m = "in_Metadata i"
  consider (read) "validSourceMetadataReadProjection i" | (authority) "validAuthorityProjection i" "isAuthorityAction ?a"
    | (rotation) "validRotationProjection i" "isRotationAction ?a" | (answer) "?a = ActionAnswerDocumentAmended" "validAnswerAmendmentProjection i"
    | (query) "isGovernedQueryAction ?a" | (search) "searchProfileMetadataEmpty ?m" | (source) "sourceMutationMetadataOnly ?m"
    | (rest) "\<not> hasAuthorityMetadata ?m \<and> \<not> hasRotationMetadata ?m \<and> \<not> hasAnswerMetadata ?m \<and> \<not> hasGovernedQueryMetadata ?m"
    using assms projection_known [of i] unfolding validActionProjection_def Let_def by (elim if_elim) blast+
  then have "(hasAuthorityMetadata ?m \<longrightarrow> isAuthorityAction ?a \<or> isGovernedQueryAction ?a)
    \<and> (hasRotationMetadata ?m \<longrightarrow> isRotationAction ?a \<or> isGovernedQueryAction ?a)
    \<and> (hasAnswerMetadata ?m \<longrightarrow> ?a = ActionAnswerDocumentAmended \<or> isGovernedQueryAction ?a)
    \<and> (hasGovernedQueryMetadata ?m \<longrightarrow> isGovernedQueryAction ?a)"
  proof cases
    case read
    then have "?m = no_metadata\<lparr>md_ReasonCodes := md_ReasonCodes ?m\<rparr>"
      unfolding validSourceMetadataReadProjection_def Let_def by (auto split: if_splits)
    with no_vocabulary [of "md_ReasonCodes ?m"] show ?thesis by metis
  next
    case answer
    then show ?thesis by (auto simp: validAnswerAmendmentProjection_def answerAmendmentMetadataOnly_def split: if_splits)
  qed (use authority_projection rotation_projection in
    \<open>auto simp: searchProfileMetadataEmpty_def sourceMutationMetadataOnly_def hasAnswerMetadata_def\<close>)
  then show "hasAuthorityMetadata ?m \<longrightarrow> isAuthorityAction ?a \<or> isGovernedQueryAction ?a"
    "hasRotationMetadata ?m \<longrightarrow> isRotationAction ?a \<or> isGovernedQueryAction ?a"
    "hasAnswerMetadata ?m \<longrightarrow> ?a = ActionAnswerDocumentAmended \<or> isGovernedQueryAction ?a"
    "hasGovernedQueryMetadata ?m \<longrightarrow> isGovernedQueryAction ?a" by blast+
qed

section \<open>A concrete organization\<close>

definition sample_store_env :: store_env where
  "sample_store_env = \<lparr>au_sha256 = (\<lambda>s. take 32 (s @ replicate 32 CHR ''0'')), au_format = itoa, st_checks = (\<lambda>_. None)\<rparr>"

definition empty_db :: audit_db where
  "empty_db = \<lparr>db_heads = Map.empty, db_events = []\<rparr>"

definition sample_access :: access where
  "sample_access = \<lparr>ac_OrganizationID = ''org-1'', ac_PrincipalID = ''alice'', ac_RequestID = ''req-1'', ac_ActorKind = []\<rparr>"

definition sample_input :: event_input where
  "sample_input = \<lparr>in_EventID = ''event-1'', in_WorkspaceID = None, in_ActorType = ActorHuman, in_ActorPrincipalID = Some ''alice'',
     in_OnBehalfOfPrincipalID = None, in_Action = ActionSessionTerminated, in_ResourceType = ResourceIdentity,
     in_ResourceID = ''alice'', in_RequestID = ''req-1'', in_PolicyDecisionID = None, in_Outcome = OutcomeSuccess,
     in_ErrorCode = None, in_ReferencedEvidenceIDs = [], in_Metadata = no_metadata, in_OccurredAt = 1\<rparr>"

lemma sample_env_ok: "digest_length sample_store_env" "stamps_distinct sample_store_env" "\<forall>x. st_checks sample_store_env x = None"
proof -
  have digits: "list_all (\<lambda>c. byte c < 0x80) (nat_digits n)" for n
    using nat_digits_all_digits [of n] by (rule list.pred_mono_strong) (simp add: is_digit_def)
  have "valid_utf8 (itoa t)" for t by (rule ascii_valid) (simp add: itoa_def digits)
  then show "stamps_distinct sample_store_env" by (auto simp: stamps_distinct_def sample_store_env_def intro: injI itoa_inj)
qed (auto simp: digest_length_def sample_store_env_def min_def)

lemma empty_inv: "audit_inv e empty_db" "audit_log empty_db g = []" "org_events empty_db g = []"
  by (simp_all add: audit_inv_def org_events_def empty_db_def chain_head_def audit_log_def genesis_def)

lemma sample_valid: "validateAppend sample_access sample_input = None" "validateInput sample_input"
  "validateAppend (sample_access\<lparr>ac_OrganizationID := ''org-2''\<rparr>) (sample_input\<lparr>in_EventID := ''event-2''\<rparr>) = None"
  "validateInput (sample_input\<lparr>in_EventID := ''event-2''\<rparr>)"
  by code_simp+

lemma sample_appends:
  "\<exists>x db. AppendInTransaction sample_store_env (\<lambda>_. None) sample_access sample_input empty_db = Inr (x, db)"
  "AppendInTransaction sample_store_env (\<lambda>_. None) sample_access sample_input empty_db = Inr (x, db) \<Longrightarrow>
   \<exists>y db'. AppendInTransaction sample_store_env (\<lambda>_. None) (sample_access\<lparr>ac_OrganizationID := ''org-2''\<rparr>)
     (sample_input\<lparr>in_EventID := ''event-2''\<rparr>) db = Inr (y, db')"
proof -
  have new: "next_digest_new e a i db" if "org_events db (ac_OrganizationID a) = []" for e :: store_env and a i db
    using that by (simp add: next_digest_new_def digests_distinct_def Let_def split: sum.split)
  have small: "\<not> maxSafeInt64 \<le> 0" by (simp add: maxSafeInt64_def)
  have "committed_log (AppendInTransaction sample_store_env (\<lambda>_. None) sample_access sample_input empty_db) \<noteq> None"
    unfolding append_refines [OF empty_inv(1) sample_env_ok(1,2) new [OF empty_inv(3)] sample_env_ok(3)]
    using sample_valid small by (simp add: log_append_def empty_inv)
  then show "\<exists>x db. AppendInTransaction sample_store_env (\<lambda>_. None) sample_access sample_input empty_db = Inr (x, db)"
    by (auto simp: committed_log_def split: sum.splits)
  assume r: "AppendInTransaction sample_store_env (\<lambda>_. None) sample_access sample_input empty_db = Inr (x, db)"
  let ?a = "sample_access\<lparr>ac_OrganizationID := ''org-2''\<rparr>" and ?i = "sample_input\<lparr>in_EventID := ''event-2''\<rparr>"
  note s = AppendInTransaction_Inr [OF r empty_inv(1) sample_env_ok(1)]
  have o2: "org_events db ''org-2'' = []" using s(2) by (simp add: empty_inv sample_access_def)
  have ids: "in_EventID ?i \<notin> in_EventID ` set (audit_log db g)" for g
    using s(2,3) by (simp add: audit_log_def empty_inv) (simp add: sample_input_def)
  have "committed_log (AppendInTransaction sample_store_env (\<lambda>_. None) ?a ?i db) \<noteq> None"
    unfolding append_refines [OF s(1) sample_env_ok(1,2) new [of db ?a, simplified, OF o2] sample_env_ok(3)]
    using sample_valid small o2 ids by (simp add: log_append_def audit_log_def)
  then show "\<exists>y db'. AppendInTransaction sample_store_env (\<lambda>_. None) ?a ?i db = Inr (y, db')"
    by (auto simp: committed_log_def split: sum.splits)
qed

definition foreign_query_input :: event_input where
  "foreign_query_input = (let h = ''sha256:'' @ replicate 64 CHR ''a'' in
     sample_input\<lparr>in_WorkspaceID := Some ''ws-1'', in_Action := ActionGovernedQueryAttempted,
       in_ResourceType := ResourceGovernedQueryAttempt, in_ResourceID := h, in_Outcome := OutcomeDenied,
       in_ErrorCode := Some ''QUERY_REJECTED'',
       in_Metadata := no_metadata\<lparr>md_AuthorityOperation := Some authorityOperationConfirm, md_RotationDomain := Some rotationDomainKEK,
         md_AnswerDocumentVersion := Some 1, md_TrustVerificationID := Some ''verification-1'', md_GovernedQueryConnectionID := Some ''connection-1'',
         md_GovernedQueryExposedSchemaRevision := Some 1, md_GovernedQuerySQLHash := Some h,
         md_GovernedQueryOutcome := Some GovernedQueryOutcomeRejectedStatic\<rparr>\<rparr>)"

section \<open>Properties\<close>



text \<open>C8. The head of an organization's chain pins its history: a store filled by any sequence of appends, and any
  other set of rows that still verifies link by link and shows the same head, hold exactly the same events of that
  organization - unless two different canonical texts among them have the same SHA-256 digest.\<close>

theorem head_pins_history:
  assumes "digest_length e" "stamps_distinct e" "db = foldl (other_append e) empty_db appends" "audit_inv e other"
    "chain_head db g = chain_head other g" "digests_distinct e (org_events db g) (org_events other g)"
  shows "org_events db g = org_events other g \<and> audit_log db g = audit_log other g"
proof -
  have "audit_inv e db" unfolding assms(3) by (rule others_inv [OF empty_inv(1) assms(1)])
  then have "org_events db g = org_events other g"
    using assms by (intro chain_pinned) (simp_all add: audit_inv_def)
  then show ?thesis by (simp add: audit_log_def)
qed

lemma head_pins_history_witness:
  "\<exists>db other. db \<noteq> other \<and> org_events db ''org-1'' \<noteq> [] \<and> org_events db ''org-1'' = org_events other ''org-1''
     \<and> audit_log db ''org-1'' = audit_log other ''org-1''"
proof -
  let ?e = sample_store_env and ?other = "(sample_access\<lparr>ac_OrganizationID := ''org-2''\<rparr>, sample_input\<lparr>in_EventID := ''event-2''\<rparr>)"
  let ?db = "foldl (other_append ?e) empty_db [(sample_access, sample_input)]" and ?db' = "foldl (other_append ?e) empty_db [(sample_access, sample_input), ?other]"
  obtain x db where r: "AppendInTransaction ?e (\<lambda>_. None) sample_access sample_input empty_db = Inr (x, db)"
    using sample_appends(1) by blast
  note s = AppendInTransaction_Inr [OF r empty_inv(1) sample_env_ok(1)]
  have db: "?db = db" using r by (simp add: other_append_def)
  have org: "ac_OrganizationID sample_access = ''org-1''" by (simp add: sample_access_def)
  obtain y db' where r': "AppendInTransaction ?e (\<lambda>_. None) (fst ?other) (snd ?other) db = Inr (y, db')"
    using sample_appends(2) [OF r] by auto
  note s' = AppendInTransaction_Inr [OF r' s(1) sample_env_ok(1)]
  have db': "?db' = db'" using r r' by (simp add: other_append_def)
  have one: "org_events db ''org-1'' = [x]" using s(2) org by (simp add: empty_inv)
  have two: "org_events db' ''org-1'' = [x]" using s'(2) one by simp
  have "org_events db' ''org-2'' \<noteq> []" using s'(2) by simp
  moreover have "org_events db ''org-2'' = []" using s(2) org by (simp add: empty_inv)
  ultimately have "db \<noteq> db'" by auto
  moreover have "org_events db ''org-1'' = org_events db' ''org-1'' \<and> audit_log db ''org-1'' = audit_log db' ''org-1''"
  proof (rule head_pins_history [OF sample_env_ok(1,2) db [symmetric] s'(1)])
    have "chain_head db ''org-1'' = chain_end genesis [x]" using s(1) one unfolding audit_inv_def by metis
    moreover have "chain_head db' ''org-1'' = chain_end genesis [x]" using s'(1) two unfolding audit_inv_def by metis
    ultimately show "chain_head db ''org-1'' = chain_head db' ''org-1''" by simp
    show "digests_distinct ?e (org_events db ''org-1'') (org_events db' ''org-1'')" by (simp add: one two digests_distinct_def)
  qed
  ultimately have "db \<noteq> db' \<and> org_events db ''org-1'' \<noteq> [] \<and> org_events db ''org-1'' = org_events db' ''org-1''
     \<and> audit_log db ''org-1'' = audit_log db' ''org-1''" by (simp add: two)
  then show ?thesis by (intro exI)
qed

text \<open>C9. \<open>Append\<close> writes at most once. If it returns an event, that event alone was added, after what the other
  transactions had appended, at the next position of the organization, in an attempt whose commit was confirmed. If it
  returns an error, it left nothing - or the confirmation of a commit was lost, and then it reports
  \<open>AUDIT_APPEND_FAILED\<close> although the event is in the log.\<close>

theorem append_at_most_once:
  assumes "audit_inv e db" "digest_length e"
  shows "case au_Append e ts a i db of
      (Inr x, after) \<Rightarrow> \<exists>k<3. appended e a i (others_until e ts db (Suc k)) x after \<and> at_commit (ts k) = Confirmed
    | (Inl err, after) \<Rightarrow> (\<exists>k\<le>3. after = others_until e ts db k)
        \<or> (\<exists>k<3. \<exists>x. appended e a i (others_until e ts db (Suc k)) x after \<and> at_commit (ts k) = Lost \<and> err = AuditAppendFailed [])"
proof -
  have "append_outcome e ts a i db (au_Append e ts a i db)"
  proof (cases "validateAppend a i")
    case None
    then show ?thesis using append_loop_outcome [OF assms, of 0 3 ts a i] by (simp add: au_Append_def au_maxAttempts_def others_until_step)
  next
    case (Some err)
    then show ?thesis by (auto simp: au_Append_def append_outcome_def others_until_step intro!: exI [of _ 0])
  qed
  then show ?thesis by (auto simp: append_outcome_def split: prod.split sum.split)
qed

text \<open>C7. \<open>Append\<close> gets through: if one of the first three attempts meets no failure and the attempts before it
  failed only by serialization failures - at the begin, in a statement or at the commit - then it returns, whatever other
  transactions appended in between, and the log grew by the input; in particular the trigger never refuses an event
  that was built on the head read under the lock.\<close>

theorem append_completes:
  assumes "audit_inv e db" "digest_length e" "stamps_distinct e" "\<forall>x. st_checks e x = None" "k < 3"
    "\<forall>m\<in>{0..k}. ready e a i (others_until e ts db (Suc m))" "\<forall>m\<in>{0..<k}. transient (ts m)" "clean (ts k)"
  shows "\<exists>x after. au_Append e ts a i db = (Inr x, after)
     \<and> log_append a i (audit_log (others_until e ts db (Suc k))) = Some (audit_log after)"
proof -
  have r: "ready e a i (others_until e ts db (Suc k))" using assms(6) by simp
  then have v: "validateAppend a i = None" by (auto simp: ready_def log_append_def split: if_splits)
  have "[0..<3] = [0..<Suc k] @ [Suc k..<3]" using assms(5) upt_add_eq_append [of 0 "Suc k" "3 - Suc k"] by (simp del: upt_Suc)
  then have "map ts [0..<3] = map ts [0..<Suc k] @ map ts [Suc k..<3]" by (metis map_append)
  with loop_succeeds [OF assms(1-4), of 0 k a i ts "map ts [Suc k..<3]"] assms(6-8) v r show ?thesis
    by (auto simp: au_Append_def au_maxAttempts_def others_until_step ready_def)
qed

definition calm :: au_attempt where
  "calm = \<lparr>at_others = [], at_begin = None, at_fault = (\<lambda>_. None), at_commit = Confirmed\<rparr>"

lemma append_completes_witness:
  "\<exists>x after. au_Append sample_store_env (\<lambda>k. if k = 0 then calm\<lparr>at_commit := Refused sqlSerialization\<rparr> else calm)
     sample_access sample_input empty_db = (Inr x, after) \<and> audit_log after ''org-1'' = [sample_input]"
proof -
  let ?ts = "\<lambda>k :: nat. if k = 0 then calm\<lparr>at_commit := Refused sqlSerialization\<rparr> else calm"
  have o: "others_until sample_store_env ?ts empty_db m = empty_db" for m
    by (induction m) (simp_all add: others_until_def calm_def)
  have l: "log_append sample_access sample_input (audit_log empty_db) = Some ((\<lambda>_. [])(''org-1'' := [sample_input]))"
    using sample_valid(1,2) by (simp add: log_append_def empty_inv maxSafeInt64_def fun_eq_iff) (simp add: sample_access_def)
  have r: "ready sample_store_env sample_access sample_input empty_db"
    using l by (simp add: ready_def next_digest_new_def empty_inv digests_distinct_def Let_def split: sum.split)
  have "\<forall>m\<in>{0..<1}. transient (?ts m)" by (auto simp: transient_def first_fault_def calm_def)
  moreover have "clean (?ts 1)" by (simp add: clean_def first_fault_def calm_def)
  ultimately show ?thesis
    using append_completes [OF empty_inv(1) sample_env_ok, of 1 sample_access sample_input ?ts] r l
    by (auto simp: o) (metis fun_upd_same)
qed

lemma append_at_most_once_witness:
  "case au_Append sample_store_env (\<lambda>_. calm\<lparr>at_commit := Lost\<rparr>) sample_access sample_input empty_db of
      (Inr x, after) \<Rightarrow> \<exists>k<3. appended sample_store_env sample_access sample_input
          (others_until sample_store_env (\<lambda>_. calm\<lparr>at_commit := Lost\<rparr>) empty_db (Suc k)) x after \<and> at_commit (calm\<lparr>at_commit := Lost\<rparr>) = Confirmed
    | (Inl err, after) \<Rightarrow> (\<exists>k\<le>3. after = others_until sample_store_env (\<lambda>_. calm\<lparr>at_commit := Lost\<rparr>) empty_db k)
        \<or> (\<exists>k<3. \<exists>x. appended sample_store_env sample_access sample_input
             (others_until sample_store_env (\<lambda>_. calm\<lparr>at_commit := Lost\<rparr>) empty_db (Suc k)) x after
           \<and> at_commit (calm\<lparr>at_commit := Lost\<rparr>) = Lost \<and> err = AuditAppendFailed [])"
  by (rule append_at_most_once [OF empty_inv(1) sample_env_ok(1)])

text \<open>C10. The four reserved vocabularies of the metadata - authority, rotation, answer, governed query - appear in no
  admissible event of another action, except in a governed-query attempt: its projection looks at its own fields only, so that an
  attempt may carry members of all the others, and of a trust verification.\<close>

theorem vocabularies_reserved:
  assumes "validateInput i"
  shows "(hasAuthorityMetadata (in_Metadata i) \<longrightarrow> isAuthorityAction (in_Action i) \<or> isGovernedQueryAction (in_Action i))
    \<and> (hasRotationMetadata (in_Metadata i) \<longrightarrow> isRotationAction (in_Action i) \<or> isGovernedQueryAction (in_Action i))
    \<and> (hasAnswerMetadata (in_Metadata i) \<longrightarrow> in_Action i = ActionAnswerDocumentAmended \<or> isGovernedQueryAction (in_Action i))
    \<and> (hasGovernedQueryMetadata (in_Metadata i) \<longrightarrow> isGovernedQueryAction (in_Action i))
    \<and> validateInput foreign_query_input \<and> isGovernedQueryAction (in_Action foreign_query_input)
    \<and> hasAuthorityMetadata (in_Metadata foreign_query_input) \<and> hasRotationMetadata (in_Metadata foreign_query_input)
    \<and> hasAnswerMetadata (in_Metadata foreign_query_input) \<and> hasTrustVerificationMetadata (in_Metadata foreign_query_input)"
proof -
  have v: "validActionProjection i" using assms by (auto simp: validateInput_def split: if_splits)
  have "validateInput foreign_query_input \<and> isGovernedQueryAction (in_Action foreign_query_input)
    \<and> hasAuthorityMetadata (in_Metadata foreign_query_input) \<and> hasRotationMetadata (in_Metadata foreign_query_input)
    \<and> hasAnswerMetadata (in_Metadata foreign_query_input) \<and> hasTrustVerificationMetadata (in_Metadata foreign_query_input)"
    by code_simp
  with projection_vocabularies [OF v] show ?thesis by blast
qed

lemma vocabularies_reserved_witness:
  "hasRotationMetadata (in_Metadata foreign_query_input)
    \<and> (isRotationAction (in_Action foreign_query_input) \<or> isGovernedQueryAction (in_Action foreign_query_input))"
proof -
  have "validateInput foreign_query_input" by code_simp
  from vocabularies_reserved [OF this] show ?thesis by blast
qed

end
