(* ===== verification/Job_Queue.thy ===== *)
theory Job_Queue
  imports Audit_Store "HOL-Library.Product_Lexorder"
begin

text \<open>
  The durable job queue: the typed surface of \<open>internal/jobs/jobs.go\<close> over the database functions of
  \<open>db/migrations/000013\<close>, \<open>000070\<close> and \<open>000100\<close>, for the tables of one tenant. A function of the database
  runs under the locks of its rows, so each is one step from tables to tables or the SQLSTATE it raises; the instant it
  reads the clock at and the rows another transaction has locked are arguments. The session is one of the roles the
  functions admit, in the tenant context that \<open>Store.Write\<close> sets.
\<close>

section \<open>Validation\<close>

definition job_types :: "gostring list" where
  "job_types = [''SOURCE_SCOPE_SYNC'', ''POSTGRESQL_QUERY_SYNC'', ''SOURCE_OBJECT_EXTRACTION'', ''OUTBOX_DELIVERY'',
     ''SOURCE_VERSION_PURGE'', ''KEK_REWRAP'', ''DIGEST_RECOMPUTE'']"

abbreviation (input) TypeKEKRewrap :: gostring where "TypeKEKRewrap \<equiv> ''KEK_REWRAP''"
abbreviation (input) TypeDigestRecompute :: gostring where "TypeDigestRecompute \<equiv> ''DIGEST_RECOMPUTE''"

definition type_valid :: "gostring \<Rightarrow> bool" where
  "type_valid t \<longleftrightarrow> t \<in> set job_types"

definition lower_letter :: "char \<Rightarrow> bool" where
  "lower_letter c \<longleftrightarrow> c \<in> set ''abcdefghijklmnopqrstuvwxyz''"

definition ulid_char :: "char \<Rightarrow> bool" where
  "ulid_char c \<longleftrightarrow> c \<in> set ''0123456789ABCDEFGHJKMNPQRSTVWXYZ''"

text \<open>\<open>^[a-z]{2,16}_[0-7][0-9A-HJKMNP-TV-Z]{25}$\<close>\<close>

definition referenceIDPattern :: "gostring \<Rightarrow> bool" where
  "referenceIDPattern v =
    (case cut_on CHR ''_'' v of (prefix, rest, found) \<Rightarrow>
       found \<and> 2 \<le> length prefix \<and> length prefix \<le> 16 \<and> list_all lower_letter prefix
       \<and> length rest = 26 \<and> hd rest \<in> set ''01234567'' \<and> list_all ulid_char (tl rest))"

text \<open>\<open>^[^\x00-\x1f]{1,256}$\<close>, counted in runes\<close>

definition opaqueIDPattern :: "gostring \<Rightarrow> bool" where
  "opaqueIDPattern v \<longleftrightarrow> 1 \<le> length (runes v) \<and> length (runes v) \<le> 256 \<and> list_all (\<lambda>r. 0x1F < r) (runes v)"

text \<open>\<open>^[A-Z][A-Z0-9_]{2,63}$\<close>\<close>

definition upper_letter :: "char \<Rightarrow> bool" where
  "upper_letter c \<longleftrightarrow> c \<in> set ''ABCDEFGHIJKLMNOPQRSTUVWXYZ''"

definition errorCodePattern :: "gostring \<Rightarrow> bool" where
  "errorCodePattern v \<longleftrightarrow> 3 \<le> length v \<and> length v \<le> 64 \<and> upper_letter (hd v)
     \<and> list_all (\<lambda>c. upper_letter c \<or> is_digit c \<or> c = CHR ''_'') (tl v)"

text \<open>\<open>^sha256:[0-9a-f]{64}$\<close>\<close>

definition sha256Pattern :: "gostring \<Rightarrow> bool" where
  "sha256Pattern v \<longleftrightarrow> has_prefix ''sha256:'' v \<and> length v = 71 \<and> list_all is_hex (drop 7 v)"

datatype payload_value = PText gostring | PInt64 int | POther

type_synonym payload = "(gostring \<times> payload_value) list"

definition referencePayloadKeys :: "gostring list" where
  "referencePayloadKeys = [''source_scope_id'', ''source_object_id'', ''source_version_id'', ''extraction_id'',
     ''index_generation_id'', ''workspace_id'', ''artifact_id'']"

definition payload_member_valid :: "gostring \<Rightarrow> payload_value \<Rightarrow> bool" where
  "payload_member_valid k v =
    (if k \<in> set referencePayloadKeys then (case v of PText t \<Rightarrow> referenceIDPattern t | _ \<Rightarrow> False)
     else if k \<in> set [''content_hash'', ''text_hash''] then (case v of PText t \<Rightarrow> sha256Pattern t | _ \<Rightarrow> False)
     else if k \<in> set [''retention_fence'', ''generation_fence''] then (case v of PInt64 i \<Rightarrow> \<not> i < 0 | _ \<Rightarrow> False)
     else if k = ''operation''
     then (case v of PText t \<Rightarrow> t \<in> set [''UPSERT'', ''DELETE'', ''PURGE'', ''ACTIVATE''] | _ \<Rightarrow> False)
     else False)"

definition payload_Validate :: "payload \<Rightarrow> bool" where
  "payload_Validate p \<longleftrightarrow> list_all (\<lambda>(k, v). payload_member_valid k v) p"

definition payload_value_json :: "payload_value \<Rightarrow> json" where
  "payload_value_json v = (case v of PText t \<Rightarrow> go_json_text t | PInt64 i \<Rightarrow> JInt i | POther \<Rightarrow> JNull)"

text \<open>\<open>Payload.marshal\<close>: the text of a payload, of at most 16384 bytes; a nil map is the empty object.\<close>

definition payload_marshal :: "payload \<Rightarrow> gostring option" where
  "payload_marshal p =
    (if \<not> payload_Validate p then None
     else (let encoded = jcs_exact (JObject (map (\<lambda>(k, v). (k, payload_value_json v)) (sort_key fst p))) in
           if length encoded > 16384 then None else Some encoded))"

record job_spec =
  js_JobID :: gostring
  js_Type :: gostring
  js_Payload :: payload
  js_IdempotencyKey :: gostring
  js_Priority :: int
  js_MaxAttempts :: int
  js_AvailableAfter :: int

definition spec_validate :: "job_spec \<Rightarrow> bool" where
  "spec_validate s =
    (\<not> (\<not> referenceIDPattern (js_JobID s) \<or> \<not> type_valid (js_Type s) \<or> \<not> opaqueIDPattern (js_IdempotencyKey s)
      \<or> js_Priority s < 0 \<or> js_Priority s > 1000 \<or> js_MaxAttempts s < 1 \<or> js_MaxAttempts s > 100
      \<or> js_AvailableAfter s < 0 \<or> js_AvailableAfter s > 2592000))"

section \<open>The tables\<close>

datatype job_status = JobPending | JobRunning | JobSucceeded | JobDead

record queue_job =
  jb_ID :: gostring
  jb_Type :: gostring
  jb_Payload :: gostring
  jb_Key :: gostring
  jb_Status :: job_status
  jb_Priority :: int
  jb_MaxAttempts :: int
  jb_Attempts :: int
  jb_Available :: int
  jb_Epoch :: int
  jb_Owner :: "gostring option"
  jb_Deadline :: "int option"
  jb_LastError :: "gostring option"
  jb_Completed :: "int option"

datatype attempt_outcome = AttemptSucceeded | AttemptFailed gostring | AttemptLeaseExpired

record lease_attempt =
  la_Job :: gostring
  la_Number :: int
  la_Owner :: gostring
  la_Epoch :: int
  la_Started :: int
  la_Closed :: "(int \<times> attempt_outcome) option"

record job_tables =
  jt_Jobs :: "queue_job list"
  jt_Attempts :: "lease_attempt list"

definition sqlLeaseLost :: gostring where "sqlLeaseLost = ''55000''"
definition sqlParameter :: gostring where "sqlParameter = ''22023''"

definition job_by_id :: "gostring \<Rightarrow> job_tables \<Rightarrow> queue_job option" where
  "job_by_id k t = List.find (\<lambda>j. jb_ID j = k) (jt_Jobs t)"

definition set_job :: "gostring \<Rightarrow> (queue_job \<Rightarrow> queue_job) \<Rightarrow> job_tables \<Rightarrow> job_tables" where
  "set_job k f t = t\<lparr>jt_Jobs := map (\<lambda>j. if jb_ID j = k then f j else j) (jt_Jobs t)\<rparr>"

definition close_attempt :: "gostring \<Rightarrow> int \<Rightarrow> int \<Rightarrow> attempt_outcome \<Rightarrow> job_tables \<Rightarrow> job_tables" where
  "close_attempt k n now outcome t =
    t\<lparr>jt_Attempts := map (\<lambda>r. if la_Job r = k \<and> la_Number r = n \<and> la_Closed r = None
        then r\<lparr>la_Closed := Some (now, outcome)\<rparr> else r) (jt_Attempts t)\<rparr>"

section \<open>The database functions\<close>

text \<open>\<open>app.enqueue_job\<close>. \<open>active\<close>: the tenant is active; \<open>check\<close>: the constraints on the columns of the row.\<close>

definition enqueue_job :: "bool \<Rightarrow> (queue_job \<Rightarrow> gostring option) \<Rightarrow> int \<Rightarrow> job_spec \<Rightarrow> gostring \<Rightarrow> job_tables
    \<Rightarrow> gostring + gostring \<times> job_tables" where
  "enqueue_job active check now s payload t =
    (if js_AvailableAfter s < 0 \<or> js_AvailableAfter s > 2592000 then Inl sqlParameter
     else if \<not> active then Inl sqlLeaseLost
     else case job_by_id (js_JobID s) t of Some j \<Rightarrow> Inr (jb_ID j, t)
     | None \<Rightarrow>
       (let j = \<lparr>jb_ID = js_JobID s, jb_Type = js_Type s, jb_Payload = payload, jb_Key = js_IdempotencyKey s,
                 jb_Status = JobPending, jb_Priority = js_Priority s, jb_MaxAttempts = js_MaxAttempts s, jb_Attempts = 0,
                 jb_Available = now + js_AvailableAfter s, jb_Epoch = 0, jb_Owner = None, jb_Deadline = None,
                 jb_LastError = None, jb_Completed = None\<rparr> in
        case check j of Some code \<Rightarrow> Inl code
        | None \<Rightarrow>
          if js_MaxAttempts s < 1 \<or> js_MaxAttempts s > 100 then Inl sqlCheck
          else case List.find (\<lambda>i. jb_Key i = js_IdempotencyKey s) (jt_Jobs t) of
            Some i \<Rightarrow> Inr (jb_ID i, t)
          | None \<Rightarrow> Inr (jb_ID j, t\<lparr>jt_Jobs := jt_Jobs t @ [j]\<rparr>)))"

record claimed_job =
  cj_ID :: gostring
  cj_Type :: gostring
  cj_Payload :: gostring
  cj_LeaseEpoch :: int
  cj_AttemptNumber :: int
  cj_MaxAttempts :: int

definition runnable :: "int \<Rightarrow> queue_job \<Rightarrow> bool" where
  "runnable now j \<longleftrightarrow> jb_Status j = JobPending \<and> jb_Available j \<le> now"

definition claim_order :: "queue_job \<Rightarrow> int \<times> int \<times> gostring" where
  "claim_order j = (jb_Priority j, jb_Available j, jb_ID j)"

text \<open>\<open>app.claim_next_job\<close>; a locked row is skipped. \<open>opaque\<close>: the check of a worker id, \<open>app.stage2_opaque_id_is_valid\<close>.\<close>

definition claim_next_job :: "(gostring \<Rightarrow> bool) \<Rightarrow> bool \<Rightarrow> (gostring \<Rightarrow> bool) \<Rightarrow> int \<Rightarrow> gostring \<Rightarrow> int \<Rightarrow> job_tables
    \<Rightarrow> gostring + claimed_job option \<times> job_tables" where
  "claim_next_job opaque active locked now worker lease_seconds t =
    (if \<not> opaque worker then Inl sqlParameter
     else if lease_seconds < 1 \<or> lease_seconds > 3600 then Inl sqlParameter
     else if \<not> active then Inr (None, t)
     else case sort_key claim_order (filter (\<lambda>j. runnable now j \<and> \<not> locked (jb_ID j)) (jt_Jobs t)) of
       [] \<Rightarrow> Inr (None, t)
     | j # _ \<Rightarrow>
       (let t' = set_job (jb_ID j) (\<lambda>i. i\<lparr>jb_Status := JobRunning, jb_Owner := Some worker, jb_Epoch := jb_Epoch j + 1,
                   jb_Deadline := Some (now + lease_seconds), jb_Attempts := jb_Attempts j + 1\<rparr>) t;
            r = \<lparr>la_Job = jb_ID j, la_Number = jb_Attempts j + 1, la_Owner = worker, la_Epoch = jb_Epoch j + 1,
                 la_Started = now, la_Closed = None\<rparr>
        in Inr (Some \<lparr>cj_ID = jb_ID j, cj_Type = jb_Type j, cj_Payload = jb_Payload j, cj_LeaseEpoch = jb_Epoch j + 1,
                      cj_AttemptNumber = jb_Attempts j + 1, cj_MaxAttempts = jb_MaxAttempts j\<rparr>,
                t'\<lparr>jt_Attempts := jt_Attempts t' @ [r]\<rparr>)))"

text \<open>The fence of \<open>heartbeat_job\<close>, \<open>complete_job\<close> and \<open>fail_job\<close>: the row is read under its lock, the clock after it.\<close>

definition lease_held :: "int \<Rightarrow> gostring \<Rightarrow> int \<Rightarrow> queue_job \<Rightarrow> bool" where
  "lease_held now worker epoch j \<longleftrightarrow>
     \<not> (jb_Status j \<noteq> JobRunning \<or> jb_Owner j \<noteq> Some worker \<or> jb_Epoch j \<noteq> epoch
        \<or> (case jb_Deadline j of None \<Rightarrow> True | Some d \<Rightarrow> d \<le> now))"

definition heartbeat_job :: "int \<Rightarrow> gostring \<Rightarrow> gostring \<Rightarrow> int \<Rightarrow> int \<Rightarrow> job_tables \<Rightarrow> gostring + job_tables" where
  "heartbeat_job now k worker epoch extend_seconds t =
    (if extend_seconds < 1 \<or> extend_seconds > 3600 then Inl sqlParameter
     else case job_by_id k t of None \<Rightarrow> Inl sqlLeaseLost
     | Some j \<Rightarrow> if \<not> lease_held now worker epoch j then Inl sqlLeaseLost
                 else Inr (set_job k (\<lambda>i. i\<lparr>jb_Deadline := Some (now + extend_seconds)\<rparr>) t))"

definition complete_job :: "int \<Rightarrow> gostring \<Rightarrow> gostring \<Rightarrow> int \<Rightarrow> job_tables \<Rightarrow> gostring + job_tables" where
  "complete_job now k worker epoch t =
    (case job_by_id k t of None \<Rightarrow> Inl sqlLeaseLost
     | Some j \<Rightarrow> if \<not> lease_held now worker epoch j then Inl sqlLeaseLost
                 else Inr (close_attempt k (jb_Attempts j) now AttemptSucceeded
                   (set_job k (\<lambda>i. i\<lparr>jb_Status := JobSucceeded, jb_Owner := None, jb_Deadline := None,
                      jb_Completed := Some now, jb_LastError := None\<rparr>) t)))"

text \<open>What ends a lease that was not completed: the job waits again while its budget lasts, and dies after.\<close>

definition release_job :: "int \<Rightarrow> int \<Rightarrow> gostring \<Rightarrow> queue_job \<Rightarrow> queue_job" where
  "release_job now delay code j =
    (if jb_Attempts j < jb_MaxAttempts j
     then j\<lparr>jb_Status := JobPending, jb_Owner := None, jb_Deadline := None, jb_Available := now + delay, jb_LastError := Some code\<rparr>
     else j\<lparr>jb_Status := JobDead, jb_Owner := None, jb_Deadline := None, jb_Completed := Some now, jb_LastError := Some code\<rparr>)"

definition fail_job :: "int \<Rightarrow> gostring \<Rightarrow> gostring \<Rightarrow> int \<Rightarrow> gostring \<Rightarrow> int \<Rightarrow> job_tables \<Rightarrow> gostring + job_status \<times> job_tables" where
  "fail_job now k worker epoch code retry_after t =
    (if \<not> errorCodePattern code then Inl sqlParameter
     else if retry_after < 0 \<or> retry_after > 2592000 then Inl sqlParameter
     else case job_by_id k t of None \<Rightarrow> Inl sqlLeaseLost
     | Some j \<Rightarrow> if \<not> lease_held now worker epoch j then Inl sqlLeaseLost
                 else Inr (if jb_Attempts j < jb_MaxAttempts j then JobPending else JobDead,
                   set_job k (release_job now retry_after code) (close_attempt k (jb_Attempts j) now (AttemptFailed code) t)))"

definition expired :: "int \<Rightarrow> queue_job \<Rightarrow> bool" where
  "expired now j \<longleftrightarrow> jb_Status j = JobRunning \<and> (case jb_Deadline j of None \<Rightarrow> False | Some d \<Rightarrow> d < now)"

definition reclaim_one :: "int \<Rightarrow> job_tables \<Rightarrow> queue_job \<Rightarrow> job_tables" where
  "reclaim_one now t j =
    set_job (jb_ID j) (release_job now 0 ''LEASE_EXPIRED'') (close_attempt (jb_ID j) (jb_Attempts j) now AttemptLeaseExpired t)"

definition reclaim_batch :: "(gostring \<Rightarrow> bool) \<Rightarrow> int \<Rightarrow> int \<Rightarrow> job_tables \<Rightarrow> queue_job list" where
  "reclaim_batch locked now limit t =
    take (nat limit) (sort_key (\<lambda>j. the (jb_Deadline j)) (filter (\<lambda>j. expired now j \<and> \<not> locked (jb_ID j)) (jt_Jobs t)))"

definition reclaim_expired_jobs :: "(gostring \<Rightarrow> bool) \<Rightarrow> int \<Rightarrow> int \<Rightarrow> job_tables \<Rightarrow> gostring + int \<times> job_tables" where
  "reclaim_expired_jobs locked now limit t =
    (if limit < 1 \<or> limit > 1000 then Inl sqlParameter
     else (let batch = reclaim_batch locked now limit t in
           Inr (int (length batch), foldl (reclaim_one now) t batch)))"

section \<open>The typed surface\<close>

text \<open>\<open>database.Store.Write\<close> around a piece of work: the begin fails, the commit is confirmed or refused, or it
  happened and its confirmation is lost. An error of the transaction itself is known by its SQLSTATE.\<close>

datatype tx_fate = TxNoBegin gostring | TxConfirmed | TxRefused gostring | TxLost

definition job_write :: "tx_fate \<Rightarrow> access \<Rightarrow> (gostring \<Rightarrow> 'e) \<Rightarrow> ('s \<Rightarrow> 'e + 'a \<times> 's) \<Rightarrow> 's \<Rightarrow> ('e + 'a) \<times> 's" where
  "job_write fate a sql work s =
    (if \<not> access_Validate a then (Inl (sql []), s)
     else case fate of TxNoBegin code \<Rightarrow> (Inl (sql code), s)
     | _ \<Rightarrow> (case work s of Inl err \<Rightarrow> (Inl err, s)
       | Inr (x, s') \<Rightarrow> (case fate of TxRefused code \<Rightarrow> (Inl (sql code), s) | TxLost \<Rightarrow> (Inl (sql []), s') | _ \<Rightarrow> (Inr x, s'))))"

datatype job_error = JobInvalid | JobLeaseLost | JobPersistence

definition EnqueueInTransaction :: "bool \<Rightarrow> (queue_job \<Rightarrow> gostring option) \<Rightarrow> int \<Rightarrow> job_spec \<Rightarrow> job_tables
    \<Rightarrow> (job_error \<times> gostring) + gostring \<times> job_tables" where
  "EnqueueInTransaction active check now s t =
    (if \<not> spec_validate s then Inl (JobInvalid, [])
     else case payload_marshal (js_Payload s) of None \<Rightarrow> Inl (JobInvalid, [])
     | Some payload \<Rightarrow> (case enqueue_job active check now s payload t of
         Inl code \<Rightarrow> Inl (JobPersistence, code) | Inr r \<Rightarrow> Inr r))"

text \<open>\<open>Enqueue\<close> wraps every error of the transaction, an invalid specification too, as a persistence failure.\<close>

definition Enqueue :: "tx_fate \<Rightarrow> bool \<Rightarrow> (queue_job \<Rightarrow> gostring option) \<Rightarrow> int \<Rightarrow> access \<Rightarrow> job_spec \<Rightarrow> job_tables
    \<Rightarrow> (job_error + gostring) \<times> job_tables" where
  "Enqueue fate active check now a s t =
    (case job_write fate a (\<lambda>code. (JobPersistence, code)) (EnqueueInTransaction active check now s) t of
       (Inl _, t') \<Rightarrow> (Inl JobPersistence, t') | (Inr k, t') \<Rightarrow> (Inr k, t'))"

definition Claim :: "tx_fate \<Rightarrow> (gostring \<Rightarrow> bool) \<Rightarrow> bool \<Rightarrow> (gostring \<Rightarrow> bool) \<Rightarrow> int \<Rightarrow> access \<Rightarrow> gostring \<Rightarrow> int \<Rightarrow> job_tables
    \<Rightarrow> (job_error + claimed_job option) \<times> job_tables" where
  "Claim fate opaque active locked now a worker lease_seconds t =
    (if \<not> opaqueIDPattern worker \<or> lease_seconds < 1 \<or> lease_seconds > 3600 then (Inl JobInvalid, t)
     else case job_write fate a id (claim_next_job opaque active locked now worker lease_seconds) t of
       (Inl _, t') \<Rightarrow> (Inl JobPersistence, t') | (Inr c, t') \<Rightarrow> (Inr c, t'))"

definition mapLeaseError :: "gostring \<Rightarrow> job_error" where
  "mapLeaseError code = (if code = sqlLeaseLost then JobLeaseLost else JobPersistence)"

definition leaseCall :: "tx_fate \<Rightarrow> access \<Rightarrow> (job_tables \<Rightarrow> gostring + job_tables) \<Rightarrow> job_tables \<Rightarrow> job_error option \<times> job_tables" where
  "leaseCall fate a call t =
    (case job_write fate a id (\<lambda>t. map_sum id (Pair ()) (call t)) t of
       (Inl code, t') \<Rightarrow> (Some (mapLeaseError code), t') | (Inr _, t') \<Rightarrow> (None, t'))"

definition Heartbeat :: "tx_fate \<Rightarrow> int \<Rightarrow> access \<Rightarrow> gostring \<Rightarrow> gostring \<Rightarrow> int \<Rightarrow> int \<Rightarrow> job_tables \<Rightarrow> job_error option \<times> job_tables" where
  "Heartbeat fate now a k worker epoch extend_seconds t =
    (if \<not> referenceIDPattern k \<or> \<not> opaqueIDPattern worker \<or> extend_seconds < 1 \<or> extend_seconds > 3600 then (Some JobInvalid, t)
     else leaseCall fate a (heartbeat_job now k worker epoch extend_seconds) t)"

definition Complete :: "tx_fate \<Rightarrow> int \<Rightarrow> access \<Rightarrow> gostring \<Rightarrow> gostring \<Rightarrow> int \<Rightarrow> job_tables \<Rightarrow> job_error option \<times> job_tables" where
  "Complete fate now a k worker epoch t =
    (if \<not> referenceIDPattern k \<or> \<not> opaqueIDPattern worker then (Some JobInvalid, t)
     else leaseCall fate a (complete_job now k worker epoch) t)"

definition Fail :: "tx_fate \<Rightarrow> int \<Rightarrow> access \<Rightarrow> gostring \<Rightarrow> gostring \<Rightarrow> int \<Rightarrow> gostring \<Rightarrow> int \<Rightarrow> job_tables \<Rightarrow> job_error option \<times> job_tables" where
  "Fail fate now a k worker epoch code retry_after t =
    (if \<not> referenceIDPattern k \<or> \<not> opaqueIDPattern worker \<or> \<not> errorCodePattern code \<or> retry_after < 0 \<or> retry_after > 2592000
     then (Some JobInvalid, t)
     else case job_write fate a id (fail_job now k worker epoch code retry_after) t of
       (Inl code', t') \<Rightarrow> (Some (mapLeaseError code'), t') | (Inr _, t') \<Rightarrow> (None, t'))"

definition Reclaim :: "tx_fate \<Rightarrow> (gostring \<Rightarrow> bool) \<Rightarrow> int \<Rightarrow> access \<Rightarrow> int \<Rightarrow> job_tables \<Rightarrow> (job_error + int) \<times> job_tables" where
  "Reclaim fate locked now a limit t =
    (if limit < 1 \<or> limit > 1000 then (Inl JobInvalid, t)
     else case job_write fate a id (reclaim_expired_jobs locked now limit) t of
       (Inl _, t') \<Rightarrow> (Inl JobPersistence, t') | (Inr n, t') \<Rightarrow> (Inr n, t'))"

end
