(* ===== verification/Artifact_Crypto.thy ===== *)
theory Artifact_Crypto
  imports Go_Json
begin

text \<open>
  Package \<open>internal/platform/artifactcrypto\<close>: the closed registry of artifact owners, the two kinds of
  authenticated data, the mounted key-wrapping provider with the optional previous pair of a rotation, and the codec that
  seals and opens artifacts. AES-256-GCM and SHA-256 are parameters; what \<open>io.ReadFull\<close> delivers from the entropy
  source is an argument, \<open>None\<close> when it fails.
\<close>

record crypto_env =
  ce_Seal :: "gostring \<Rightarrow> gostring \<Rightarrow> gostring \<Rightarrow> gostring \<Rightarrow> gostring"
  ce_Open :: "gostring \<Rightarrow> gostring \<Rightarrow> gostring \<Rightarrow> gostring \<Rightarrow> gostring option"
  ce_sha256 :: "gostring \<Rightarrow> gostring"

datatype crypto_error = CodeUnknownOwner | CodeInvalidOwner | CodeSealFailed | CodeOpenRejected | CodeProviderUnavailable
  | CodeWrapFailed | CodeUnwrapRejected

section \<open>Owners\<close>

datatype owner_selector =
  OwnerFieldInvalid | ExternalIdentitySubject | SourceConnectionTrustConfig | SourceDiscoveryResultMetadata |
  SourceScopeIdentity | SourceScopeDisplayMetadata | SourceScopeConfig | SourceObjectExternalID |
  SourceObjectCanonicalLocator | SourceObjectTitle | ACLPrincipalTokens | EvidenceNormalizedText | EvidenceAnchor |
  EvidenceMetadata | SearchChunkText | QuestionText | AnswerMarkdown | AnswerStructured | QuestionManifestContent |
  AuthorizedCandidateSet | ModelExecutionPlan | ClaimText | DeterministicValidationOutput | CitationCitedExcerpt |
  CitationAnchor | CitationDeepLink | ModelRunInput | ModelRunOutput | OwnerFieldSentinel

record owner_definition =
  od_field :: owner_selector
  od_ownerTable :: gostring
  od_ownerColumn :: gostring
  od_resourceType :: gostring
  od_aadField :: gostring

abbreviation (input) owner_row :: "owner_selector \<Rightarrow> gostring \<Rightarrow> gostring \<Rightarrow> gostring \<Rightarrow> gostring \<Rightarrow> owner_definition" where
  "owner_row s t c r f \<equiv> \<lparr>od_field = s, od_ownerTable = t, od_ownerColumn = c, od_resourceType = r, od_aadField = f\<rparr>"

definition ownerInventory :: "owner_definition list" where
  "ownerInventory =
    [owner_row ExternalIdentitySubject ''external_identity'' ''external_subject_artifact_id'' ''EXTERNAL_IDENTITY'' ''SUBJECT'',
     owner_row SourceConnectionTrustConfig ''source_connection_revision'' ''trust_profile_artifact_id'' ''SOURCE_TRUST_CONFIG'' ''TRUST_CONFIG'',
     owner_row SourceDiscoveryResultMetadata ''source_discovery_result'' ''metadata_artifact_id'' ''SOURCE_DISCOVERY_RESULT'' ''DISCOVERY_METADATA'',
     owner_row SourceScopeIdentity ''source_discovered_scope'' ''identity_artifact_id'' ''SOURCE_SCOPE_IDENTITY'' ''EXTERNAL_SCOPE_IDENTITY'',
     owner_row SourceScopeDisplayMetadata ''source_discovered_scope'' ''display_metadata_artifact_id'' ''SOURCE_SCOPE_METADATA'' ''DISPLAY_METADATA'',
     owner_row SourceScopeConfig ''source_scope_revision'' ''scope_config_artifact_id'' ''SOURCE_SCOPE_CONFIG'' ''SCOPE_CONFIG'',
     owner_row SourceObjectExternalID ''source_object'' ''external_object_id_artifact_id'' ''SOURCE_OBJECT_ID'' ''EXTERNAL_OBJECT_ID'',
     owner_row SourceObjectCanonicalLocator ''source_object'' ''canonical_locator_artifact_id'' ''SOURCE_LOCATOR'' ''CANONICAL_LOCATOR'',
     owner_row SourceObjectTitle ''source_object'' ''title_artifact_id'' ''SOURCE_TITLE'' ''DISPLAY_TITLE'',
     owner_row ACLPrincipalTokens ''acl_snapshot'' ''principal_tokens_artifact_id'' ''ACL_PRINCIPAL_SET'' ''PRINCIPAL_TOKENS'',
     owner_row EvidenceNormalizedText ''evidence_fragment'' ''normalized_text_artifact_id'' ''EVIDENCE_TEXT'' ''NORMALIZED_TEXT'',
     owner_row EvidenceAnchor ''evidence_fragment'' ''anchor_artifact_id'' ''EVIDENCE_ANCHOR'' ''CANONICAL_ANCHOR'',
     owner_row EvidenceMetadata ''evidence_fragment'' ''metadata_artifact_id'' ''EVIDENCE_METADATA'' ''METADATA'',
     owner_row SearchChunkText ''search_chunk'' ''search_text_artifact_id'' ''SEARCH_CHUNK_TEXT'' ''NORMALIZED_TEXT'',
     owner_row QuestionText ''question_run'' ''question_text_artifact_id'' ''QUESTION_RUN'' ''QUESTION_TEXT'',
     owner_row AnswerMarkdown ''question_run'' ''answer_markdown_artifact_id'' ''QUESTION_RUN'' ''ANSWER_MARKDOWN'',
     owner_row AnswerStructured ''question_run'' ''answer_structured_artifact_id'' ''QUESTION_RUN'' ''ANSWER_STRUCTURED'',
     owner_row QuestionManifestContent ''question_run'' ''manifest_content_artifact_id'' ''MANIFEST_CONTENT'' ''CANONICAL_BYTES'',
     owner_row AuthorizedCandidateSet ''question_authorized_candidate_set'' ''canonical_artifact_id'' ''AUTHORIZED_CANDIDATE_SET'' ''CANONICAL_BYTES'',
     owner_row ModelExecutionPlan ''question_model_execution_plan'' ''canonical_artifact_id'' ''MODEL_EXECUTION_PLAN'' ''CANONICAL_BYTES'',
     owner_row ClaimText ''question_claim'' ''text_artifact_id'' ''CLAIM_TEXT'' ''CLAIM_TEXT'',
     owner_row DeterministicValidationOutput ''claim_deterministic_validation_artifact'' ''output_artifact_id'' ''DETERMINISTIC_VALIDATION'' ''VALIDATION_OUTPUT'',
     owner_row CitationCitedExcerpt ''question_citation'' ''cited_excerpt_artifact_id'' ''CITED_EXCERPT'' ''EXACT_TEXT'',
     owner_row CitationAnchor ''question_citation'' ''anchor_artifact_id'' ''CITATION_ANCHOR'' ''CANONICAL_ANCHOR'',
     owner_row CitationDeepLink ''question_citation'' ''deep_link_artifact_id'' ''SOURCE_DEEPLINK'' ''DEEPLINK'',
     owner_row ModelRunInput ''model_run_artifact'' ''input_artifact_id'' ''MODEL_ARTIFACT'' ''CANONICAL_INPUT'',
     owner_row ModelRunOutput ''model_run_artifact'' ''output_artifact_id'' ''MODEL_ARTIFACT'' ''CANONICAL_OUTPUT'']"

definition owner_tuple :: "owner_definition \<Rightarrow> gostring \<times> gostring \<times> gostring \<times> gostring" where
  "owner_tuple d = (od_ownerTable d, od_ownerColumn d, od_resourceType d, od_aadField d)"

definition registryByTuple :: "gostring \<times> gostring \<times> gostring \<times> gostring \<Rightarrow> owner_definition option" where
  "registryByTuple t = List.find (\<lambda>d. owner_tuple d = t) ownerInventory"

definition ownerByField :: "owner_selector \<Rightarrow> owner_definition option" where
  "ownerByField s = List.find (\<lambda>d. od_field d = s) ownerInventory"

record owner_identity =
  ow_organizationID :: gostring
  ow_ownerTable :: gostring
  ow_ownerColumn :: gostring
  ow_resourceType :: gostring
  ow_resourceID :: gostring
  ow_field :: gostring

definition ac_validIdentifier :: "gostring \<Rightarrow> nat \<Rightarrow> bool" where
  "ac_validIdentifier v maxLength =
    (if v = [] \<or> length v > maxLength \<or> \<not> valid_utf8 v \<or> trim_space v \<noteq> v then False
     else list_all (\<lambda>r. \<not> (r < 0x20 \<or> (0x7F \<le> r \<and> r \<le> 0x9F))) (runes v))"

definition owner_of :: "owner_definition \<Rightarrow> gostring \<Rightarrow> gostring \<Rightarrow> owner_identity" where
  "owner_of d organizationID resourceID = \<lparr>ow_organizationID = organizationID, ow_ownerTable = od_ownerTable d,
     ow_ownerColumn = od_ownerColumn d, ow_resourceType = od_resourceType d, ow_resourceID = resourceID, ow_field = od_aadField d\<rparr>"

definition NewOwnerIdentity :: "owner_selector \<Rightarrow> gostring \<Rightarrow> gostring \<Rightarrow> crypto_error + owner_identity" where
  "NewOwnerIdentity s organizationID resourceID =
    (case ownerByField s of None \<Rightarrow> Inl CodeUnknownOwner
     | Some d \<Rightarrow> if \<not> ac_validIdentifier organizationID 128 \<or> \<not> ac_validIdentifier resourceID 256 then Inl CodeInvalidOwner
                 else Inr (owner_of d organizationID resourceID))"

definition NewOwnerIdentityFromTuple ::
  "gostring \<Rightarrow> gostring \<Rightarrow> gostring \<Rightarrow> gostring \<Rightarrow> gostring \<Rightarrow> gostring \<Rightarrow> crypto_error + owner_identity" where
  "NewOwnerIdentityFromTuple ownerTable ownerColumn resourceType field organizationID resourceID =
    (case registryByTuple (ownerTable, ownerColumn, resourceType, field) of None \<Rightarrow> Inl CodeUnknownOwner
     | Some d \<Rightarrow> if \<not> ac_validIdentifier organizationID 128 \<or> \<not> ac_validIdentifier resourceID 256 then Inl CodeInvalidOwner
                 else Inr (owner_of d organizationID resourceID))"

definition owner_valid :: "owner_identity \<Rightarrow> bool" where
  "owner_valid w =
    (if \<not> ac_validIdentifier (ow_organizationID w) 128 \<or> \<not> ac_validIdentifier (ow_resourceID w) 256
        \<or> ow_ownerTable w = [] \<or> ow_ownerColumn w = [] \<or> ow_resourceType w = [] \<or> ow_field w = [] then False
     else case registryByTuple (ow_ownerTable w, ow_ownerColumn w, ow_resourceType w, ow_field w) of
       None \<Rightarrow> False | Some d \<Rightarrow> od_field d \<noteq> OwnerFieldInvalid)"

section \<open>Authenticated data\<close>

abbreviation (input) AADSchemaVersion :: gostring where "AADSchemaVersion \<equiv> ''encrypted-artifact-aad-v1''"
abbreviation (input) wrappedDEKSchemaVersion :: gostring where "wrappedDEKSchemaVersion \<equiv> ''encrypted-artifact-wrapped-dek-v1''"

definition artifactAAD :: "owner_identity \<Rightarrow> gostring option" where
  "artifactAAD w =
    (if \<not> owner_valid w then None
     else Some (jcs (JObject
       [(''field'', JString (ow_field w)), (''organization_id'', JString (ow_organizationID w)),
        (''owner_column'', JString (ow_ownerColumn w)), (''owner_table'', JString (ow_ownerTable w)),
        (''resource_id'', JString (ow_resourceID w)), (''resource_type'', JString (ow_resourceType w)),
        (''schema_version'', JString AADSchemaVersion)])))"

text \<open>\<open>json.Marshal\<close> refuses a reference that is not UTF-8; the other texts of a valid owner are.\<close>

definition wrapAAD :: "owner_identity \<Rightarrow> gostring \<Rightarrow> int \<Rightarrow> gostring option" where
  "wrapAAD w kekReference kekVersion =
    (if \<not> owner_valid w \<or> kekReference = [] \<or> kekVersion < 1 then None
     else if \<not> valid_utf8 kekReference then None
     else Some (jcs (JObject
       [(''field'', JString (ow_field w)), (''kek_reference'', JString kekReference), (''kek_version'', JInt kekVersion),
        (''organization_id'', JString (ow_organizationID w)), (''owner_column'', JString (ow_ownerColumn w)),
        (''owner_table'', JString (ow_ownerTable w)), (''resource_id'', JString (ow_resourceID w)),
        (''resource_type'', JString (ow_resourceType w)), (''schema_version'', JString wrappedDEKSchemaVersion)])))"

definition hashDigest :: "'a crypto_env_scheme \<Rightarrow> gostring \<Rightarrow> gostring" where
  "hashDigest e v = ''sha256:'' @ hex_encode (ce_sha256 e v)"

section \<open>The mounted provider\<close>

definition dekBytes :: nat where "dekBytes = 32"
definition wrapNonceBytes :: nat where "wrapNonceBytes = 12"
definition kekBytes :: nat where "kekBytes = 32"
definition wrappedDEKMinLen :: nat where "wrappedDEKMinLen = 2 + wrapNonceBytes + dekBytes + 16"
definition wrappedHeader :: gostring where "wrappedHeader = [CHR 0x01, CHR 0x01]"

record wrapped_dek =
  wd_keyReference :: gostring
  wd_keyVersion :: int
  wd_bytes :: gostring

record mounted_state =
  ms_closed :: bool
  ms_organizationID :: gostring
  ms_keyReference :: gostring
  ms_keyVersion :: int
  ms_key :: gostring
  ms_prevKeyReference :: gostring
  ms_prevKeyVersion :: int
  ms_prevKey :: gostring

definition hasNonZeroByte :: "gostring \<Rightarrow> bool" where
  "hasNonZeroByte v \<longleftrightarrow> list_ex (\<lambda>c. byte c \<noteq> 0) v"

definition validKEKReference :: "gostring \<Rightarrow> bool" where
  "validKEKReference v \<longleftrightarrow> v \<noteq> [] \<and> length v \<le> 1024 \<and> ac_validIdentifier v 1024"

text \<open>\<open>aes.NewCipher\<close> accepts keys of 16, 24 and 32 bytes.\<close>

definition newAEAD_ok :: "gostring \<Rightarrow> bool" where
  "newAEAD_ok key \<longleftrightarrow> length key = 16 \<or> length key = 24 \<or> length key = 32"

definition newRotatingMountedProvider ::
  "gostring \<Rightarrow> gostring \<Rightarrow> int \<Rightarrow> gostring \<Rightarrow> gostring \<Rightarrow> int \<Rightarrow> gostring option \<Rightarrow> crypto_error + mounted_state" where
  "newRotatingMountedProvider organizationID activeReference activeVersion activeKey previousReference previousVersion previousKey =
    (if \<not> ac_validIdentifier organizationID 128 \<or> \<not> validKEKReference activeReference \<or> activeVersion < 1
        \<or> activeVersion > 9007199254740991 \<or> length activeKey \<noteq> kekBytes \<or> \<not> hasNonZeroByte activeKey then Inl CodeProviderUnavailable
     else (let state = \<lparr>ms_closed = False, ms_organizationID = organizationID, ms_keyReference = activeReference,
                        ms_keyVersion = activeVersion, ms_key = activeKey, ms_prevKeyReference = [], ms_prevKeyVersion = 0,
                        ms_prevKey = replicate kekBytes (CHR 0x00)\<rparr> in
       case previousKey of None \<Rightarrow> Inr state
       | Some key \<Rightarrow>
         if length key \<noteq> kekBytes \<or> \<not> hasNonZeroByte key \<or> \<not> validKEKReference previousReference \<or> previousVersion < 1
            \<or> previousVersion > 9007199254740991 \<or> previousVersion = activeVersion then Inl CodeProviderUnavailable
         else Inr (state\<lparr>ms_prevKeyReference := previousReference, ms_prevKeyVersion := previousVersion, ms_prevKey := key\<rparr>)))"

definition mounted_OrganizationID :: "mounted_state \<Rightarrow> gostring" where
  "mounted_OrganizationID s = (if ms_closed s then [] else ms_organizationID s)"

definition WrapDEK :: "'a crypto_env_scheme \<Rightarrow> mounted_state \<Rightarrow> gostring option \<Rightarrow> gostring \<Rightarrow> owner_identity \<Rightarrow> crypto_error + wrapped_dek" where
  "WrapDEK e s entropy dek w =
    (if length dek \<noteq> dekBytes \<or> \<not> hasNonZeroByte dek \<or> \<not> owner_valid w then Inl CodeWrapFailed
     else if ms_closed s \<or> ow_organizationID w \<noteq> ms_organizationID s then Inl CodeWrapFailed
     else case wrapAAD w (ms_keyReference s) (ms_keyVersion s) of None \<Rightarrow> Inl CodeWrapFailed
     | Some aad \<Rightarrow>
       if \<not> newAEAD_ok (ms_key s) then Inl CodeWrapFailed
       else case entropy of None \<Rightarrow> Inl CodeWrapFailed
       | Some nonce \<Rightarrow>
         Inr \<lparr>wd_keyReference = ms_keyReference s, wd_keyVersion = ms_keyVersion s,
              wd_bytes = wrappedHeader @ nonce @ ce_Seal e (ms_key s) nonce dek aad\<rparr>)"

text \<open>The pair an unwrap uses: the active one, or the previous one while it is mounted.\<close>

definition mounted_pair :: "mounted_state \<Rightarrow> wrapped_dek \<Rightarrow> (gostring \<times> int \<times> gostring) option" where
  "mounted_pair s x =
    (if wd_keyReference x \<noteq> ms_keyReference s \<or> wd_keyVersion x \<noteq> ms_keyVersion s then
       (if ms_prevKeyVersion s = 0 \<or> wd_keyReference x \<noteq> ms_prevKeyReference s \<or> wd_keyVersion x \<noteq> ms_prevKeyVersion s then None
        else Some (ms_prevKeyReference s, ms_prevKeyVersion s, ms_prevKey s))
     else Some (ms_keyReference s, ms_keyVersion s, ms_key s))"

definition UnwrapDEK :: "'a crypto_env_scheme \<Rightarrow> mounted_state \<Rightarrow> wrapped_dek \<Rightarrow> owner_identity \<Rightarrow> crypto_error + gostring" where
  "UnwrapDEK e s x w =
    (if \<not> owner_valid w \<or> length (wd_bytes x) < wrappedDEKMinLen then Inl CodeUnwrapRejected
     else if take 2 (wd_bytes x) \<noteq> wrappedHeader then Inl CodeUnwrapRejected
     else if ms_closed s \<or> ow_organizationID w \<noteq> ms_organizationID s then Inl CodeUnwrapRejected
     else case mounted_pair s x of None \<Rightarrow> Inl CodeUnwrapRejected
     | Some (reference, version, key) \<Rightarrow>
       (case wrapAAD w reference version of None \<Rightarrow> Inl CodeUnwrapRejected
        | Some aad \<Rightarrow>
          if \<not> newAEAD_ok key then Inl CodeUnwrapRejected
          else (case ce_Open e key (take wrapNonceBytes (drop 2 (wd_bytes x))) (drop (2 + wrapNonceBytes) (wd_bytes x)) aad of
              None \<Rightarrow> Inl CodeUnwrapRejected
            | Some dek \<Rightarrow> if length dek \<noteq> dekBytes then Inl CodeUnwrapRejected else Inr dek)))"

definition mounted_Close :: "mounted_state \<Rightarrow> mounted_state" where
  "mounted_Close s =
    (if ms_closed s then s
     else \<lparr>ms_closed = True, ms_organizationID = [], ms_keyReference = [], ms_keyVersion = 0, ms_key = replicate kekBytes (CHR 0x00),
           ms_prevKeyReference = [], ms_prevKeyVersion = 0, ms_prevKey = replicate kekBytes (CHR 0x00)\<rparr>)"

section \<open>The codec\<close>

text \<open>The interface \<open>KeyWrappingProvider\<close>, with the mounted provider as its implementation.\<close>

record key_provider =
  kp_OrganizationID :: gostring
  kp_WrapDEK :: "gostring option \<Rightarrow> gostring \<Rightarrow> owner_identity \<Rightarrow> crypto_error + wrapped_dek"
  kp_UnwrapDEK :: "wrapped_dek \<Rightarrow> owner_identity \<Rightarrow> crypto_error + gostring"

definition mounted :: "'a crypto_env_scheme \<Rightarrow> mounted_state \<Rightarrow> key_provider" where
  "mounted e s = \<lparr>kp_OrganizationID = mounted_OrganizationID s, kp_WrapDEK = WrapDEK e s, kp_UnwrapDEK = UnwrapDEK e s\<rparr>"

definition maxPlaintextBytes :: nat where "maxPlaintextBytes = 8388608"
definition artifactNonceLen :: nat where "artifactNonceLen = 12"
definition gcmTagLen :: nat where "gcmTagLen = 16"
abbreviation (input) CipherAES256GCM :: gostring where "CipherAES256GCM \<equiv> ''AES_256_GCM''"

record artifact_envelope =
  en_owner :: owner_identity
  en_aadSchemaVersion :: gostring
  en_cipher :: gostring
  en_ciphertext :: gostring
  en_sizeBytes :: int
  en_nonce :: gostring
  en_wrappedDEK :: gostring
  en_wrappedDEKHash :: gostring
  en_kekReference :: gostring
  en_kekVersion :: int
  en_aadHash :: gostring
  en_plaintextHash :: gostring

definition NewEnvelopeFromStorage :: "owner_identity \<Rightarrow> gostring \<Rightarrow> gostring \<Rightarrow> int \<Rightarrow> gostring \<Rightarrow> gostring \<Rightarrow> gostring \<Rightarrow> gostring
    \<Rightarrow> int \<Rightarrow> gostring \<Rightarrow> gostring \<Rightarrow> artifact_envelope" where
  "NewEnvelopeFromStorage w cipher ciphertext sizeBytes nonce wrappedDEK wrappedDEKHash kekReference kekVersion aadHash plaintextHash =
    \<lparr>en_owner = w, en_aadSchemaVersion = AADSchemaVersion, en_cipher = cipher, en_ciphertext = ciphertext, en_sizeBytes = sizeBytes,
     en_nonce = nonce, en_wrappedDEK = wrappedDEK, en_wrappedDEKHash = wrappedDEKHash, en_kekReference = kekReference,
     en_kekVersion = kekVersion, en_aadHash = aadHash, en_plaintextHash = plaintextHash\<rparr>"

definition validShape :: "artifact_envelope \<Rightarrow> bool" where
  "validShape v \<longleftrightarrow> owner_valid (en_owner v) \<and> en_aadSchemaVersion v = AADSchemaVersion \<and> en_cipher v = CipherAES256GCM
     \<and> 1 \<le> en_sizeBytes v \<and> en_sizeBytes v \<le> int maxPlaintextBytes
     \<and> int (length (en_ciphertext v)) = en_sizeBytes v + int gcmTagLen \<and> length (en_nonce v) = artifactNonceLen
     \<and> wrappedDEKMinLen \<le> length (en_wrappedDEK v) \<and> en_kekReference v \<noteq> [] \<and> 1 \<le> en_kekVersion v"

text \<open>\<open>Codec.Seal\<close> with the DEK, the nonce and the wrap nonce its three reads of entropy deliver.\<close>

definition Seal :: "'a crypto_env_scheme \<Rightarrow> key_provider \<Rightarrow> gostring option \<Rightarrow> gostring option \<Rightarrow> gostring option
    \<Rightarrow> owner_identity \<Rightarrow> gostring \<Rightarrow> crypto_error + artifact_envelope" where
  "Seal e p dekRead nonceRead wrapRead w plaintext =
    (if \<not> owner_valid w then Inl CodeSealFailed
     else if kp_OrganizationID p \<noteq> ow_organizationID w then Inl CodeSealFailed
     else if length plaintext < 1 \<or> length plaintext > maxPlaintextBytes then Inl CodeSealFailed
     else case artifactAAD w of None \<Rightarrow> Inl CodeSealFailed
     | Some aad \<Rightarrow> (case dekRead of None \<Rightarrow> Inl CodeSealFailed
     | Some dek \<Rightarrow> if \<not> hasNonZeroByte dek then Inl CodeSealFailed
       else (case nonceRead of None \<Rightarrow> Inl CodeSealFailed
       | Some nonce \<Rightarrow> if \<not> newAEAD_ok dek then Inl CodeSealFailed
         else (let ciphertext = ce_Seal e dek nonce plaintext aad in
           if length ciphertext \<noteq> length plaintext + gcmTagLen then Inl CodeSealFailed
           else (case kp_WrapDEK p wrapRead dek w of Inl _ \<Rightarrow> Inl CodeSealFailed
           | Inr x \<Rightarrow>
             if length (wd_bytes x) < wrappedDEKMinLen \<or> wd_keyReference x = [] \<or> wd_keyVersion x < 1 then Inl CodeSealFailed
             else (let v = NewEnvelopeFromStorage w CipherAES256GCM ciphertext (int (length plaintext)) nonce (wd_bytes x)
                       (hashDigest e (wd_bytes x)) (wd_keyReference x) (wd_keyVersion x) (hashDigest e aad) (hashDigest e plaintext) in
                   if \<not> validShape v then Inl CodeSealFailed else Inr v))))))"

definition Open :: "'a crypto_env_scheme \<Rightarrow> key_provider \<Rightarrow> owner_identity \<Rightarrow> artifact_envelope \<Rightarrow> crypto_error + gostring" where
  "Open e p w v =
    (if \<not> owner_valid w \<or> \<not> validShape v then Inl CodeOpenRejected
     else if kp_OrganizationID p \<noteq> ow_organizationID w \<or> w \<noteq> en_owner v then Inl CodeOpenRejected
     else case artifactAAD w of None \<Rightarrow> Inl CodeOpenRejected
     | Some aad \<Rightarrow>
       if hashDigest e aad \<noteq> en_aadHash v then Inl CodeOpenRejected
       else (case kp_UnwrapDEK p \<lparr>wd_keyReference = en_kekReference v, wd_keyVersion = en_kekVersion v, wd_bytes = en_wrappedDEK v\<rparr> w of
           Inl _ \<Rightarrow> Inl CodeOpenRejected
         | Inr dek \<Rightarrow>
           if length dek \<noteq> dekBytes then Inl CodeOpenRejected
           else if \<not> newAEAD_ok dek then Inl CodeOpenRejected
           else (case ce_Open e dek (en_nonce v) (en_ciphertext v) aad of None \<Rightarrow> Inl CodeOpenRejected
             | Some plaintext \<Rightarrow>
               if int (length plaintext) \<noteq> en_sizeBytes v \<or> hashDigest e plaintext \<noteq> en_plaintextHash v then Inl CodeOpenRejected
               else Inr plaintext)))"

end
