(* ===== verification/Rotation.thy ===== *)
theory Rotation
  imports Job_Queue Artifact_Crypto
begin

text \<open>
  Key rotation: the coordinator of \<open>internal/rotation/rotation.go\<close>, the re-wrap pass of \<open>handler.go\<close> and the database
  functions of \<open>db/migrations/000019\<close> and \<open>000020\<close> they call, over the rotation row of each domain, the job
  tables, the artifacts and the audit chain of one tenant. A transaction is one step from tables to tables. An error is its
  SQLSTATE, empty when it has none.
\<close>

section \<open>The tables\<close>

datatype rotation_phase = PhaseRewrapping | PhaseComplete

record rotation_state =
  rs_phase :: rotation_phase
  rs_previousRef :: gostring
  rs_previousVersion :: int
  rs_activeRef :: gostring
  rs_activeVersion :: int
  rs_watermark :: int

record artifact_row =
  af_id :: gostring
  af_ownerTable :: gostring
  af_ownerColumn :: gostring
  af_resourceType :: gostring
  af_resourceID :: gostring
  af_fieldName :: gostring
  af_ciphertext :: gostring
  af_sizeBytes :: int
  af_nonce :: gostring
  af_wrappedDEK :: gostring
  af_wrappedDEKHash :: gostring
  af_kekReference :: gostring
  af_kekVersion :: int
  af_aadHash :: gostring
  af_plaintextHash :: gostring
  af_created :: int
  af_purged :: bool

record rotation_db =
  rd_rotations :: "gostring \<rightharpoonup> rotation_state"
  rd_jobs :: job_tables
  rd_artifacts :: "artifact_row list"
  rd_audit :: audit_db

text \<open>What surrounds one transaction: whether the session is the worker role and the tenant active, the constraints on job
  and artifact rows, the instants it reads, the faults of the audit statements, the rows a digest rotation has left, and how
  the transaction ends.\<close>

record rotation_env =
  ro_store :: store_env
  ro_worker :: bool
  ro_active :: bool
  ro_jobCheck :: "queue_job \<Rightarrow> gostring option"
  ro_artifactCheck :: "artifact_row \<Rightarrow> gostring option"
  ro_clock :: int
  ro_now :: int
  ro_fault :: "nat \<Rightarrow> gostring option"
  ro_digestRemaining :: int
  ro_fate :: tx_fate

datatype rotation_error = RotationInvalid | RotationDenied | RotationFailed | RotationPersistence | RotationPass gostring

abbreviation (input) DomainKEK :: gostring where "DomainKEK \<equiv> ''KEK''"
abbreviation (input) DomainDigest :: gostring where "DomainDigest \<equiv> ''DIGEST''"

definition sqlDenied :: gostring where "sqlDenied = ''42501''"
definition sqlEncoding :: gostring where "sqlEncoding = ''22021''"

definition validDomain :: "gostring \<Rightarrow> bool" where
  "validDomain d \<longleftrightarrow> d = DomainKEK \<or> d = DomainDigest"

definition validReference :: "gostring \<Rightarrow> bool" where
  "validReference v \<longleftrightarrow> v \<noteq> [] \<and> length v \<le> 1024 \<and> trim_space v = v"

definition validVersion :: "int \<Rightarrow> bool" where
  "validVersion v \<longleftrightarrow> v \<ge> 1 \<and> v \<le> maxSafeInt64"

definition refusalSQLState :: "gostring \<Rightarrow> bool" where
  "refusalSQLState code \<longleftrightarrow> code = sqlDenied \<or> code = sqlParameter"

definition refusalCode :: "gostring \<Rightarrow> rotation_error" where
  "refusalCode code = (if refusalSQLState code then RotationDenied else RotationFailed)"

section \<open>The database functions\<close>

text \<open>PostgreSQL refuses a text parameter that is not UTF-8 or has a zero byte; \<open>btrim\<close> strips spaces.\<close>

definition sql_text :: "gostring \<Rightarrow> bool" where
  "sql_text v \<longleftrightarrow> valid_utf8 v \<and> CHR 0x00 \<notin> set v"

definition reference_ok :: "gostring \<Rightarrow> bool" where
  "reference_ok v \<longleftrightarrow> v \<noteq> [] \<and> length (runes v) \<le> 1024 \<and> hd v \<noteq> CHR '' '' \<and> last v \<noteq> CHR '' ''"

definition rotation_begin :: "rotation_env \<Rightarrow> gostring \<Rightarrow> gostring \<Rightarrow> int \<Rightarrow> gostring \<Rightarrow> int
    \<Rightarrow> (gostring \<rightharpoonup> rotation_state) \<Rightarrow> gostring + (gostring \<rightharpoonup> rotation_state)" where
  "rotation_begin r domain pref pver aref aver rows =
    (if \<not> sql_text pref \<or> \<not> sql_text aref then Inl sqlEncoding
     else if \<not> ro_worker r then Inl sqlDenied
     else if domain \<noteq> DomainKEK \<and> domain \<noteq> DomainDigest then Inl sqlParameter
     else if \<not> reference_ok pref \<or> \<not> reference_ok aref \<or> pver < 1 \<or> pver > maxSafeInt64 \<or> aver < 1 \<or> aver > maxSafeInt64 then Inl sqlParameter
     else if pref = aref \<and> pver = aver then Inl sqlParameter
     else (let new = \<lparr>rs_phase = PhaseRewrapping, rs_previousRef = pref, rs_previousVersion = pver, rs_activeRef = aref,
                      rs_activeVersion = aver, rs_watermark = 0\<rparr> in
       case rows domain of None \<Rightarrow> Inr (rows(domain \<mapsto> new))
       | Some x \<Rightarrow>
         (case rs_phase x of
            PhaseRewrapping \<Rightarrow>
              if rs_previousRef x = pref \<and> rs_previousVersion x = pver \<and> rs_activeRef x = aref \<and> rs_activeVersion x = aver
              then Inr rows else Inl sqlLeaseLost
          | PhaseComplete \<Rightarrow> Inr (rows(domain \<mapsto> new)))))"

definition wrapped_under :: "gostring \<Rightarrow> int \<Rightarrow> rotation_db \<Rightarrow> artifact_row list" where
  "wrapped_under ref ver db = filter (\<lambda>f. \<not> af_purged f \<and> af_kekReference f = ref \<and> af_kekVersion f = ver) (rd_artifacts db)"

definition close_rotation :: "gostring \<Rightarrow> rotation_state \<Rightarrow> rotation_db \<Rightarrow> rotation_db" where
  "close_rotation domain x db = db\<lparr>rd_rotations := (rd_rotations db)(domain \<mapsto> x\<lparr>rs_phase := PhaseComplete\<rparr>)\<rparr>"

definition kek_rotation_complete :: "rotation_env \<Rightarrow> gostring \<Rightarrow> int \<Rightarrow> rotation_db \<Rightarrow> gostring + rotation_db" where
  "kek_rotation_complete r ref ver db =
    (if \<not> ro_worker r then Inl sqlDenied
     else case rd_rotations db DomainKEK of None \<Rightarrow> Inl sqlLeaseLost
     | Some x \<Rightarrow>
       if rs_phase x = PhaseComplete then (if rs_activeRef x = ref \<and> rs_activeVersion x = ver then Inr db else Inl sqlLeaseLost)
       else if rs_activeRef x \<noteq> ref \<or> rs_activeVersion x \<noteq> ver then Inl sqlLeaseLost
       else if length (wrapped_under (rs_previousRef x) (rs_previousVersion x) db) > 0 then Inl sqlLeaseLost
       else Inr (close_rotation DomainKEK x db))"

definition digest_rotation_complete :: "rotation_env \<Rightarrow> int \<Rightarrow> rotation_db \<Rightarrow> gostring + rotation_db" where
  "digest_rotation_complete r ver db =
    (if \<not> ro_worker r then Inl sqlDenied
     else case rd_rotations db DomainDigest of None \<Rightarrow> Inl sqlLeaseLost
     | Some x \<Rightarrow>
       if rs_phase x = PhaseComplete then (if rs_previousVersion x = ver then Inr db else Inl sqlLeaseLost)
       else if rs_previousVersion x \<noteq> ver then Inl sqlLeaseLost
       else if ro_digestRemaining r > 0 then Inl sqlLeaseLost
       else Inr (close_rotation DomainDigest x db))"

section \<open>The coordinator\<close>

definition rotation_success :: "access \<Rightarrow> gostring \<Rightarrow> gostring \<Rightarrow> gostring \<Rightarrow> gostring \<Rightarrow> int \<Rightarrow> int \<Rightarrow> event_input" where
  "rotation_success a action eventID domain aref aver now =
    \<lparr>in_EventID = eventID, in_WorkspaceID = None, in_ActorType = ActorSystem, in_ActorPrincipalID = None, in_OnBehalfOfPrincipalID = None,
     in_Action = action, in_ResourceType = ResourceCryptoKey, in_ResourceID = aref, in_RequestID = ac_RequestID a,
     in_PolicyDecisionID = None, in_Outcome = OutcomeSuccess, in_ErrorCode = None, in_ReferencedEvidenceIDs = [],
     in_Metadata = no_metadata\<lparr>md_RotationDomain := Some domain, md_KeyReference := Some aref, md_KeyVersion := Some aver\<rparr>,
     in_OccurredAt = now\<rparr>"

definition rotation_refusal :: "access \<Rightarrow> gostring \<Rightarrow> gostring \<Rightarrow> gostring \<Rightarrow> gostring \<Rightarrow> int \<Rightarrow> event_input" where
  "rotation_refusal a action eventID domain code now =
    \<lparr>in_EventID = eventID, in_WorkspaceID = None, in_ActorType = ActorSystem, in_ActorPrincipalID = None, in_OnBehalfOfPrincipalID = None,
     in_Action = action, in_ResourceType = ResourceCryptoKey, in_ResourceID = ''crypto-key-rotation'', in_RequestID = ac_RequestID a,
     in_PolicyDecisionID = None, in_Outcome = (if refusalSQLState code then OutcomeDenied else OutcomeFailed),
     in_ErrorCode = Some (if refusalSQLState code then ErrorRotationDenied else ErrorRotationFailed), in_ReferencedEvidenceIDs = [],
     in_Metadata = no_metadata\<lparr>md_RotationDomain := Some domain\<rparr>, in_OccurredAt = now\<rparr>"

definition audit_sqlState :: "audit_error \<Rightarrow> gostring" where
  "audit_sqlState err = (case err of AuditAppendFailed code \<Rightarrow> code | _ \<Rightarrow> [])"

definition append_event :: "rotation_env \<Rightarrow> access \<Rightarrow> event_input \<Rightarrow> rotation_db \<Rightarrow> gostring + unit \<times> rotation_db" where
  "append_event r a i db =
    (case AppendInTransaction (ro_store r) (ro_fault r) a i (rd_audit db) of
       Inl err \<Rightarrow> Inl (audit_sqlState err) | Inr (_, au) \<Rightarrow> Inr ((), db\<lparr>rd_audit := au\<rparr>))"

definition appendRotationSuccessAudit ::
  "rotation_env \<Rightarrow> access \<Rightarrow> gostring \<Rightarrow> gostring \<Rightarrow> gostring \<Rightarrow> gostring \<Rightarrow> int \<Rightarrow> rotation_db \<Rightarrow> gostring + unit \<times> rotation_db" where
  "appendRotationSuccessAudit r a action eventID domain aref aver db =
    append_event r a (rotation_success a action eventID domain aref aver (ro_now r)) db"

definition appendRefusalAudit :: "rotation_env \<Rightarrow> access \<Rightarrow> gostring option \<Rightarrow> gostring \<Rightarrow> gostring \<Rightarrow> gostring \<Rightarrow> rotation_db \<Rightarrow> rotation_db" where
  "appendRefusalAudit r a newID action domain code db =
    (case newID of None \<Rightarrow> db
     | Some eventID \<Rightarrow>
       snd (job_write (ro_fate r) a id (append_event r a (rotation_refusal a action eventID domain code (ro_now r))) db))"

definition rotation_job :: "gostring \<Rightarrow> gostring \<Rightarrow> gostring \<Rightarrow> job_spec" where
  "rotation_job jobID jobType key = \<lparr>js_JobID = jobID, js_Type = jobType, js_Payload = [], js_IdempotencyKey = key,
     js_Priority = 0, js_MaxAttempts = 5, js_AvailableAfter = 0\<rparr>"

definition enqueue_rotation :: "rotation_env \<Rightarrow> job_spec \<Rightarrow> rotation_db \<Rightarrow> gostring + rotation_db" where
  "enqueue_rotation r s db =
    (case EnqueueInTransaction (ro_active r) (ro_jobCheck r) (ro_clock r) s (rd_jobs db) of
       Inl (_, code) \<Rightarrow> Inl code | Inr (_, jobs) \<Rightarrow> Inr (db\<lparr>rd_jobs := jobs\<rparr>))"

definition domain_job :: "gostring \<Rightarrow> gostring" where
  "domain_job domain = (if domain = DomainDigest then TypeDigestRecompute else TypeKEKRewrap)"

definition begin_key :: "gostring \<Rightarrow> gostring" where
  "begin_key domain = ''rotation:begin:'' @ domain"

definition begin_work :: "rotation_env \<Rightarrow> access \<Rightarrow> gostring \<Rightarrow> gostring \<Rightarrow> gostring \<Rightarrow> gostring \<Rightarrow> int \<Rightarrow> gostring \<Rightarrow> int
    \<Rightarrow> rotation_db \<Rightarrow> gostring + unit \<times> rotation_db" where
  "begin_work r a eventID jobID domain pref pver aref aver db =
    (case rotation_begin r domain pref pver aref aver (rd_rotations db) of Inl code \<Rightarrow> Inl code
     | Inr rows \<Rightarrow>
       (case enqueue_rotation r (rotation_job jobID (domain_job domain) (begin_key domain)) (db\<lparr>rd_rotations := rows\<rparr>) of Inl code \<Rightarrow> Inl code
        | Inr db' \<Rightarrow> appendRotationSuccessAudit r a ActionKeyRotationBegin eventID domain aref aver db'))"

text \<open>\<open>Coordinator.Begin\<close>: \<open>r\<close> surrounds its transaction, \<open>r'\<close> the one that records a refusal; the identifiers
  are what \<open>newID\<close> returns.\<close>

definition rotation_Begin :: "rotation_env \<Rightarrow> rotation_env \<Rightarrow> access \<Rightarrow> gostring option \<Rightarrow> gostring option \<Rightarrow> gostring option
    \<Rightarrow> gostring \<Rightarrow> gostring \<Rightarrow> int \<Rightarrow> gostring \<Rightarrow> int \<Rightarrow> rotation_db \<Rightarrow> rotation_error option \<times> rotation_db" where
  "rotation_Begin r r' a auditID jobID refusalID domain pref pver aref aver db =
    (if \<not> access_Validate a then (Some RotationInvalid, db)
     else if \<not> validDomain domain \<or> \<not> validReference pref \<or> \<not> validReference aref \<or> \<not> validVersion pver \<or> \<not> validVersion aver
        \<or> (pref = aref \<and> pver = aver) then (Some RotationInvalid, db)
     else case auditID of None \<Rightarrow> (Some RotationPersistence, db)
     | Some eventID \<Rightarrow> (case jobID of None \<Rightarrow> (Some RotationPersistence, db)
     | Some job \<Rightarrow>
       (case job_write (ro_fate r) a id (begin_work r a eventID job domain pref pver aref aver) db of
          (Inl code, db') \<Rightarrow> (Some (refusalCode code), appendRefusalAudit r' a refusalID ActionKeyRotationBegin domain code db')
        | (Inr _, db') \<Rightarrow> (None, db'))))"

definition complete_work :: "rotation_env \<Rightarrow> access \<Rightarrow> gostring \<Rightarrow> gostring \<Rightarrow> rotation_db \<Rightarrow> gostring + unit \<times> rotation_db" where
  "complete_work r a eventID domain db =
    (case rd_rotations db domain of None \<Rightarrow> Inl []
     | Some x \<Rightarrow>
       if rs_phase x = PhaseComplete then Inr ((), db)
       else (case (if domain = DomainKEK then kek_rotation_complete r (rs_activeRef x) (rs_activeVersion x) db
                   else digest_rotation_complete r (rs_previousVersion x) db) of Inl code \<Rightarrow> Inl code
         | Inr db' \<Rightarrow> appendRotationSuccessAudit r a ActionKeyRotationComplete eventID domain (rs_activeRef x) (rs_activeVersion x) db'))"

definition rotation_Complete :: "rotation_env \<Rightarrow> rotation_env \<Rightarrow> access \<Rightarrow> gostring option \<Rightarrow> gostring option \<Rightarrow> gostring
    \<Rightarrow> rotation_db \<Rightarrow> rotation_error option \<times> rotation_db" where
  "rotation_Complete r r' a auditID refusalID domain db =
    (if \<not> access_Validate a \<or> \<not> validDomain domain then (Some RotationInvalid, db)
     else case auditID of None \<Rightarrow> (Some RotationPersistence, db)
     | Some eventID \<Rightarrow>
       (case job_write (ro_fate r) a id (complete_work r a eventID domain) db of
          (Inl code, db') \<Rightarrow> (Some (refusalCode code), appendRefusalAudit r' a refusalID ActionKeyRotationComplete domain code db')
        | (Inr _, db') \<Rightarrow> (None, db')))"

section \<open>The re-wrap pass\<close>

definition rotationBatchSize :: nat where "rotationBatchSize = 1000"

definition rewrapCandidates :: "gostring \<Rightarrow> int \<Rightarrow> rotation_db \<Rightarrow> artifact_row list" where
  "rewrapCandidates ref ver db = take rotationBatchSize (sort_key (\<lambda>f. (af_created f, af_id f)) (wrapped_under ref ver db))"

definition candidate_valid :: "artifact_row \<Rightarrow> bool" where
  "candidate_valid c \<longleftrightarrow> af_id c \<noteq> [] \<and> af_ownerTable c \<noteq> [] \<and> af_ownerColumn c \<noteq> [] \<and> af_resourceType c \<noteq> []
     \<and> af_resourceID c \<noteq> [] \<and> af_fieldName c \<noteq> [] \<and> length (af_ciphertext c) > 0 \<and> af_sizeBytes c > 0
     \<and> length (af_nonce c) = 12 \<and> length (af_wrappedDEK c) \<ge> 62 \<and> af_kekReference c \<noteq> [] \<and> af_kekVersion c \<ge> 1"

definition lock_job_lease :: "int \<Rightarrow> gostring \<Rightarrow> gostring \<Rightarrow> int \<Rightarrow> job_tables \<Rightarrow> gostring option" where
  "lock_job_lease now k worker epoch t =
    (case job_by_id k t of None \<Rightarrow> Some sqlLeaseLost
     | Some j \<Rightarrow> if \<not> lease_held now worker epoch j then Some sqlLeaseLost else None)"

definition sql_digest :: "gostring \<Rightarrow> bool" where
  "sql_digest v \<longleftrightarrow> sha256Pattern v"

definition artifact_rewrap :: "rotation_env \<Rightarrow> gostring \<Rightarrow> gostring \<Rightarrow> int \<Rightarrow> gostring \<Rightarrow> int \<Rightarrow> gostring \<Rightarrow> gostring \<Rightarrow> gostring \<Rightarrow> gostring
    \<Rightarrow> gostring \<Rightarrow> gostring \<Rightarrow> int \<Rightarrow> rotation_db \<Rightarrow> gostring + rotation_db" where
  "artifact_rewrap r k pref pver nref nver nonce wrapped wrappedHash aadHash jobID worker epoch db =
    (if \<not> ro_worker r then Inl sqlDenied
     else if pref = [] \<or> pver < 1 \<or> nref = [] \<or> nver < 1 then Inl sqlParameter
     else if length nonce \<noteq> 12 then Inl sqlParameter
     else if length wrapped < 62 \<or> length wrapped > 65536 then Inl sqlParameter
     else if \<not> sql_digest wrappedHash then Inl sqlParameter
     else if \<not> sql_digest aadHash then Inl sqlParameter
     else case lock_job_lease (ro_clock r) jobID worker epoch (rd_jobs db) of Some code \<Rightarrow> Inl code
     | None \<Rightarrow>
       if map_option jb_Type (job_by_id jobID (rd_jobs db)) \<noteq> Some TypeKEKRewrap then Inl sqlLeaseLost
       else (case rd_rotations db DomainKEK of None \<Rightarrow> Inl sqlLeaseLost
       | Some x \<Rightarrow>
         if rs_previousRef x \<noteq> pref \<or> rs_previousVersion x \<noteq> pver \<or> rs_activeRef x \<noteq> nref \<or> rs_activeVersion x \<noteq> nver then Inl sqlLeaseLost
         else (let hit = (\<lambda>f. af_id f = k \<and> \<not> af_purged f \<and> af_kekReference f = pref \<and> af_kekVersion f = pver);
                   new = (\<lambda>f. f\<lparr>af_nonce := nonce, af_wrappedDEK := wrapped, af_wrappedDEKHash := wrappedHash, af_kekReference := nref,
                                af_kekVersion := nver, af_aadHash := aadHash\<rparr>) in
           case filter hit (rd_artifacts db) of [] \<Rightarrow> Inl sqlLeaseLost
           | f # _ \<Rightarrow> (case ro_artifactCheck r (new f) of Some code \<Rightarrow> Inl code
             | None \<Rightarrow> Inr (db\<lparr>rd_artifacts := map (\<lambda>f. if hit f then new f else f) (rd_artifacts db),
                              rd_rotations := (rd_rotations db)(DomainKEK \<mapsto> x\<lparr>rs_watermark := rs_watermark x + 1\<rparr>)\<rparr>)))))"

text \<open>\<open>rewrapOne\<close>; \<open>entropy\<close> is the nonce the provider reads for the new wrapping.\<close>

definition rewrapOne :: "crypto_env \<Rightarrow> mounted_state \<Rightarrow> rotation_env \<Rightarrow> access \<Rightarrow> gostring \<Rightarrow> claimed_job \<Rightarrow> rotation_state
    \<Rightarrow> gostring option \<Rightarrow> artifact_row \<Rightarrow> rotation_db \<Rightarrow> gostring + rotation_db" where
  "rewrapOne e s r a worker claimed state entropy c db =
    (if \<not> candidate_valid c then Inl []
     else case NewOwnerIdentityFromTuple (af_ownerTable c) (af_ownerColumn c) (af_resourceType c) (af_fieldName c)
         (ac_OrganizationID a) (af_resourceID c) of Inl _ \<Rightarrow> Inl []
     | Inr w \<Rightarrow>
       (case UnwrapDEK e s \<lparr>wd_keyReference = af_kekReference c, wd_keyVersion = af_kekVersion c, wd_bytes = af_wrappedDEK c\<rparr> w of Inl _ \<Rightarrow> Inl []
        | Inr dek \<Rightarrow> (case WrapDEK e s entropy dek w of Inl _ \<Rightarrow> Inl []
          | Inr x \<Rightarrow>
            artifact_rewrap r (af_id c) (rs_previousRef state) (rs_previousVersion state) (rs_activeRef state) (rs_activeVersion state)
              (af_nonce c) (wd_bytes x) (hashDigest e (wd_bytes x)) (af_aadHash c) (cj_ID claimed) worker (cj_LeaseEpoch claimed) db)))"

fun rewrap_loop :: "crypto_env \<Rightarrow> mounted_state \<Rightarrow> rotation_env \<Rightarrow> access \<Rightarrow> gostring \<Rightarrow> claimed_job \<Rightarrow> rotation_state
    \<Rightarrow> (nat \<Rightarrow> gostring option) \<Rightarrow> nat \<Rightarrow> artifact_row list \<Rightarrow> rotation_db \<Rightarrow> gostring + rotation_db" where
  "rewrap_loop e s r a worker claimed state entropy n [] db = Inr db"
| "rewrap_loop e s r a worker claimed state entropy n (c # cs) db =
    (case rewrapOne e s r a worker claimed state (entropy n) c db of Inl code \<Rightarrow> Inl code
     | Inr db' \<Rightarrow> rewrap_loop e s r a worker claimed state entropy (Suc n) cs db')"

definition enqueueNext :: "rotation_env \<Rightarrow> gostring option \<Rightarrow> gostring \<Rightarrow> gostring \<Rightarrow> rotation_db \<Rightarrow> gostring + unit \<times> rotation_db" where
  "enqueueNext r newID jobType previousJobID db =
    (case newID of None \<Rightarrow> Inl []
     | Some jobID \<Rightarrow> map_sum id (Pair ()) (enqueue_rotation r (rotation_job jobID jobType (''rotation:continue:'' @ previousJobID)) db))"

definition pass_work :: "crypto_env \<Rightarrow> mounted_state \<Rightarrow> rotation_env \<Rightarrow> access \<Rightarrow> gostring \<Rightarrow> claimed_job \<Rightarrow> (nat \<Rightarrow> gostring option)
    \<Rightarrow> gostring option \<Rightarrow> gostring option \<Rightarrow> rotation_db \<Rightarrow> gostring + unit \<times> rotation_db" where
  "pass_work e s r a worker claimed entropy nextID auditID db =
    (case rd_rotations db DomainKEK of None \<Rightarrow> Inl []
     | Some x \<Rightarrow>
       if rs_phase x = PhaseComplete then Inr ((), db)
       else if rs_previousRef x = [] \<or> rs_previousVersion x < 1 then Inl []
       else (let batch = rewrapCandidates (rs_previousRef x) (rs_previousVersion x) db in
         case rewrap_loop e s r a worker claimed x entropy 0 batch db of Inl code \<Rightarrow> Inl code
         | Inr db' \<Rightarrow>
           if length batch = rotationBatchSize then enqueueNext r nextID TypeKEKRewrap (cj_ID claimed) db'
           else (case kek_rotation_complete r (rs_activeRef x) (rs_activeVersion x) db' of Inl code \<Rightarrow> Inl code
             | Inr db'' \<Rightarrow> (case auditID of None \<Rightarrow> Inl []
               | Some eventID \<Rightarrow> appendRotationSuccessAudit r a ActionKeyRotationComplete eventID DomainKEK (rs_activeRef x) (rs_activeVersion x) db''))))"

definition pass_fail :: "rotation_env \<Rightarrow> access \<Rightarrow> gostring \<Rightarrow> claimed_job \<Rightarrow> gostring \<Rightarrow> rotation_db \<Rightarrow> rotation_error option \<times> rotation_db" where
  "pass_fail r a worker claimed code db =
    (Some (RotationPass code), db\<lparr>rd_jobs := snd (Fail (ro_fate r) (ro_clock r) a (cj_ID claimed) worker (cj_LeaseEpoch claimed) code 60 (rd_jobs db))\<rparr>)"

definition pass_complete :: "rotation_env \<Rightarrow> access \<Rightarrow> gostring \<Rightarrow> claimed_job \<Rightarrow> rotation_db \<Rightarrow> rotation_error option \<times> rotation_db" where
  "pass_complete r a worker claimed db =
    (case Complete (ro_fate r) (ro_clock r) a (cj_ID claimed) worker (cj_LeaseEpoch claimed) (rd_jobs db) of
       (err, jobs) \<Rightarrow> (if err = None \<or> err = Some JobLeaseLost then None else Some (RotationPass ''ROTATION_COMPLETE''), db\<lparr>rd_jobs := jobs\<rparr>))"

text \<open>\<open>HandleKEKRewrap\<close>: \<open>r\<close> surrounds the pass, \<open>r'\<close> the transaction that closes the lease.\<close>

definition HandleKEKRewrap :: "crypto_env \<Rightarrow> mounted_state \<Rightarrow> rotation_env \<Rightarrow> rotation_env \<Rightarrow> access \<Rightarrow> gostring \<Rightarrow> claimed_job
    \<Rightarrow> (nat \<Rightarrow> gostring option) \<Rightarrow> gostring option \<Rightarrow> gostring option \<Rightarrow> rotation_db \<Rightarrow> rotation_error option \<times> rotation_db" where
  "HandleKEKRewrap e s r r' a worker claimed entropy nextID auditID db =
    (if cj_Type claimed \<noteq> TypeKEKRewrap then pass_fail r' a worker claimed ''ROTATION_WRONG_JOB_TYPE'' db
     else case job_write (ro_fate r) a id (pass_work e s r a worker claimed entropy nextID auditID) db of
       (Inl _, db') \<Rightarrow> pass_fail r' a worker claimed ''ROTATION_KEK_REWRAP'' db'
     | (Inr _, db') \<Rightarrow> pass_complete r' a worker claimed db')"

end
