(* ===== verification/Job_Safety.thy ===== *)
theory Job_Safety
  imports Job_Queue
begin

text \<open>
  What the job tables keep under every interleaving of the database functions: the shape of a job and of its attempts,
  the fence of a lease, the retry budget, and that an expired lease does not strand its job.
\<close>

section \<open>One job at a time\<close>

definition attempts_of :: "gostring \<Rightarrow> job_tables \<Rightarrow> lease_attempt list" where
  "attempts_of k t = filter (\<lambda>r. la_Job r = k) (jt_Attempts t)"

lemma find_map:
  "(\<And>j. jb_ID (f j) = jb_ID j) \<Longrightarrow> List.find (\<lambda>j. jb_ID j = k') (map (\<lambda>j. if jb_ID j = k then f j else j) js)
     = (if k' = k then map_option f (List.find (\<lambda>j. jb_ID j = k) js) else List.find (\<lambda>j. jb_ID j = k') js)"
  by (induction js) auto

lemma job_set_job:
  "(\<And>j. jb_ID (f j) = jb_ID j) \<Longrightarrow> job_by_id k' (set_job k f t) = (if k' = k then map_option f (job_by_id k t) else job_by_id k' t)"
  by (simp add: job_by_id_def set_job_def find_map)

lemma job_by_id_Some: "job_by_id k t = Some j \<Longrightarrow> jb_ID j = k \<and> j \<in> set (jt_Jobs t)"
  by (auto simp: job_by_id_def find_Some_iff)

lemma job_by_id_in: "distinct (map jb_ID (jt_Jobs t)) \<Longrightarrow> j \<in> set (jt_Jobs t) \<Longrightarrow> job_by_id (jb_ID j) t = Some j"
proof -
  have "distinct (map jb_ID js) \<Longrightarrow> j \<in> set js \<Longrightarrow> List.find (\<lambda>i. jb_ID i = jb_ID j) js = Some j" for js
    by (induction js) (auto simp: image_iff)
  then show "distinct (map jb_ID (jt_Jobs t)) \<Longrightarrow> j \<in> set (jt_Jobs t) \<Longrightarrow> job_by_id (jb_ID j) t = Some j"
    by (simp add: job_by_id_def)
qed

lemma job_close [simp]: "job_by_id k (close_attempt k' n now x t) = job_by_id k t" "jt_Jobs (close_attempt k' n now x t) = jt_Jobs t"
  by (simp_all add: job_by_id_def close_attempt_def)

lemma attempts_set_job [simp]: "attempts_of k (set_job k' f t) = attempts_of k t" "jt_Attempts (set_job k' f t) = jt_Attempts t"
  by (simp_all add: attempts_of_def set_job_def)

definition close_row :: "int \<Rightarrow> int \<Rightarrow> attempt_outcome \<Rightarrow> lease_attempt \<Rightarrow> lease_attempt" where
  "close_row n now x r = (if la_Number r = n \<and> la_Closed r = None then r\<lparr>la_Closed := Some (now, x)\<rparr> else r)"

lemma attempts_close:
  "attempts_of k (close_attempt k' n now x t) = (if k = k' then map (close_row n now x) (attempts_of k t) else attempts_of k t)"
proof -
  have "filter (\<lambda>r. la_Job r = k) (map (\<lambda>r. if la_Job r = k' \<and> la_Number r = n \<and> la_Closed r = None then r\<lparr>la_Closed := Some (now, x)\<rparr> else r) rs)
     = (if k = k' then map (close_row n now x) (filter (\<lambda>r. la_Job r = k) rs) else filter (\<lambda>r. la_Job r = k) rs)" for rs
    by (induction rs) (auto simp: close_row_def)
  then show ?thesis by (simp add: attempts_of_def close_attempt_def)
qed

lemma ids_set_job: "(\<And>j. jb_ID (f j) = jb_ID j \<and> jb_Key (f j) = jb_Key j) \<Longrightarrow>
  map jb_ID (jt_Jobs (set_job k f t)) = map jb_ID (jt_Jobs t) \<and> map jb_Key (jt_Jobs (set_job k f t)) = map jb_Key (jt_Jobs t)"
  by (simp add: set_job_def comp_def if_distrib cong: if_cong)

section \<open>The invariant\<close>

text \<open>A job and its attempts: they are numbered from 1 and carry their number as epoch; the last one is open exactly while
  the job is running, and then names the owner of the lease.\<close>

definition job_ok :: "queue_job \<Rightarrow> lease_attempt list \<Rightarrow> bool" where
  "job_ok j rs \<longleftrightarrow> 0 \<le> jb_Attempts j \<and> jb_Attempts j \<le> jb_MaxAttempts j \<and> jb_MaxAttempts j \<le> 100 \<and> jb_Epoch j = jb_Attempts j
     \<and> map la_Number rs = [1..jb_Attempts j] \<and> list_all (\<lambda>r. la_Epoch r = la_Number r) rs
     \<and> (case jb_Status j of
          JobPending \<Rightarrow> jb_Owner j = None \<and> jb_Deadline j = None \<and> jb_Completed j = None \<and> jb_Attempts j < jb_MaxAttempts j
             \<and> list_all (\<lambda>r. la_Closed r \<noteq> None) rs
        | JobRunning \<Rightarrow> (\<exists>w d. jb_Owner j = Some w \<and> jb_Deadline j = Some d \<and> jb_Completed j = None \<and> rs \<noteq> []
             \<and> la_Owner (last rs) = w \<and> la_Closed (last rs) = None \<and> list_all (\<lambda>r. la_Closed r \<noteq> None) (butlast rs))
        | _ \<Rightarrow> jb_Owner j = None \<and> jb_Deadline j = None \<and> jb_Completed j \<noteq> None \<and> list_all (\<lambda>r. la_Closed r \<noteq> None) rs)"

definition jobs_inv :: "job_tables \<Rightarrow> bool" where
  "jobs_inv t \<longleftrightarrow> distinct (map jb_ID (jt_Jobs t)) \<and> distinct (map jb_Key (jt_Jobs t))
     \<and> (\<forall>k. case job_by_id k t of None \<Rightarrow> attempts_of k t = [] | Some j \<Rightarrow> job_ok j (attempts_of k t))"

lemma jobs_inv_job: "jobs_inv t \<Longrightarrow> job_by_id k t = Some j \<Longrightarrow> job_ok j (attempts_of k t)"
  unfolding jobs_inv_def by (metis option.simps(5))

lemma jobs_inv_update:
  assumes "jobs_inv t" "map jb_ID (jt_Jobs t') = map jb_ID (jt_Jobs t)" "map jb_Key (jt_Jobs t') = map jb_Key (jt_Jobs t)"
    "\<And>k'. k' \<noteq> k \<Longrightarrow> job_by_id k' t' = job_by_id k' t \<and> attempts_of k' t' = attempts_of k' t"
    "job_by_id k t' = Some j" "job_ok j (attempts_of k t')"
  shows "jobs_inv t'"
proof -
  have "case job_by_id k' t' of None \<Rightarrow> attempts_of k' t' = [] | Some j \<Rightarrow> job_ok j (attempts_of k' t')" for k'
  proof (cases "k' = k")
    case True
    then show ?thesis using assms(5,6) by simp
  next
    case False
    from assms(1) have "case job_by_id k' t of None \<Rightarrow> attempts_of k' t = [] | Some j \<Rightarrow> job_ok j (attempts_of k' t)"
      unfolding jobs_inv_def by blast
    then show ?thesis using assms(4) [OF False] by (simp split: option.splits)
  qed
  then show ?thesis using assms(1-3) by (simp add: jobs_inv_def)
qed

text \<open>The steps of the database.\<close>

inductive job_step :: "job_tables \<Rightarrow> job_tables \<Rightarrow> bool" where
  "enqueue_job active check now s payload t = Inr (k, t') \<Longrightarrow> job_step t t'"
| "claim_next_job opaque active locked now worker lease_seconds t = Inr (c, t') \<Longrightarrow> job_step t t'"
| "heartbeat_job now k worker epoch extend_seconds t = Inr t' \<Longrightarrow> job_step t t'"
| "complete_job now k worker epoch t = Inr t' \<Longrightarrow> job_step t t'"
| "fail_job now k worker epoch code retry_after t = Inr (status, t') \<Longrightarrow> job_step t t'"
| "reclaim_expired_jobs locked now limit t = Inr (n, t') \<Longrightarrow> job_step t t'"

lemma running_last:
  assumes "job_ok j rs" "jb_Status j = JobRunning"
  obtains rs' r where "rs = rs' @ [r]" "la_Number r = jb_Attempts j" "la_Closed r = None" "Some (la_Owner r) = jb_Owner j"
    "list_all (\<lambda>r. la_Closed r \<noteq> None) rs'" "map la_Number rs' = [1..jb_Attempts j - 1]" "1 \<le> jb_Attempts j"
proof -
  from assms have ne: "rs \<noteq> []" and numbers: "map la_Number rs = [1..jb_Attempts j]"
    and c: "la_Closed (last rs) = None" "list_all (\<lambda>r. la_Closed r \<noteq> None) (butlast rs)" "jb_Owner j = Some (la_Owner (last rs))"
    by (auto simp: job_ok_def)
  from ne numbers have one: "1 \<le> jb_Attempts j" by (cases "1 \<le> jb_Attempts j") auto
  then have up: "[1..jb_Attempts j] = [1..jb_Attempts j - 1] @ [jb_Attempts j]" by (rule upto_rec2)
  from ne obtain rs' r where rs: "rs = rs' @ [r]" by (metis append_butlast_last_id)
  show ?thesis by (rule that [of rs' r]) (use rs c numbers one up in auto)
qed

lemma close_last:
  assumes "map la_Number rs' = [1..n - 1]" "la_Number r = n" "la_Closed r = None"
  shows "map (close_row n now x) (rs' @ [r]) = rs' @ [r\<lparr>la_Closed := Some (now, x)\<rparr>]"
proof -
  have "la_Number s \<noteq> n" if "s \<in> set rs'" for s
  proof -
    from that have "la_Number s \<in> set (map la_Number rs')" by simp
    then show ?thesis unfolding assms(1) by simp
  qed
  then show ?thesis using assms(2,3) by (simp add: close_row_def map_idI)
qed

section \<open>Every operation keeps the invariant\<close>

lemma ids_same:
  assumes "\<And>j. jb_ID (f j) = jb_ID j" "\<And>j. jb_Key (f j) = jb_Key j"
  shows "map jb_ID (jt_Jobs (set_job k f t)) = map jb_ID (jt_Jobs t)" "map jb_Key (jt_Jobs (set_job k f t)) = map jb_Key (jt_Jobs t)"
  using ids_set_job [of f] assms by auto

lemma find_snoc:
  "List.find P (xs @ [x]) = (case List.find P xs of Some y \<Rightarrow> Some y | None \<Rightarrow> if P x then Some x else None)"
  by (induction xs) auto

lemma find_unique_job:
  assumes "x \<in> set xs" "P x" "\<And>y. y \<in> set xs \<Longrightarrow> P y \<Longrightarrow> y = x"
  shows "List.find P xs = Some x"
proof (cases "List.find P xs")
  case None
  with assms(1,2) show ?thesis by (simp add: find_None_iff)
next
  case (Some y)
  then have "y \<in> set xs" "P y" by (auto simp: find_Some_iff)
  from assms(3) [OF this] Some show ?thesis by simp
qed

lemma enqueue_inv:
  assumes inv: "jobs_inv t" and e: "enqueue_job active check now s payload t = Inr (k, t')"
  shows "jobs_inv t'"
proof (cases "t' = t")
  case False
  then obtain j where t': "t' = t\<lparr>jt_Jobs := jt_Jobs t @ [j]\<rparr>" and new: "job_by_id (jb_ID j) t = None"
    "List.find (\<lambda>i. jb_Key i = jb_Key j) (jt_Jobs t) = None"
    and j: "jb_Attempts j = 0" "jb_Epoch j = 0" "jb_Status j = JobPending" "jb_Owner j = None" "jb_Deadline j = None"
      "jb_Completed j = None" "1 \<le> jb_MaxAttempts j" "jb_MaxAttempts j \<le> 100"
    using e by (auto simp: enqueue_job_def Let_def split: if_splits option.splits)
  have find: "job_by_id k' t' = (case job_by_id k' t of Some i \<Rightarrow> Some i | None \<Rightarrow> if jb_ID j = k' then Some j else None)" for k'
    unfolding t' job_by_id_def by (simp add: find_snoc)
  have att: "attempts_of k' t' = attempts_of k' t" for k' by (simp add: t' attempts_of_def)
  have "case job_by_id k' t' of None \<Rightarrow> attempts_of k' t' = [] | Some j \<Rightarrow> job_ok j (attempts_of k' t')" for k'
  proof -
    from inv have "case job_by_id k' t of None \<Rightarrow> attempts_of k' t = [] | Some j \<Rightarrow> job_ok j (attempts_of k' t)"
      unfolding jobs_inv_def by blast
    then show ?thesis using j by (auto simp: find att job_ok_def split: option.splits)
  qed
  moreover have "distinct (map jb_ID (jt_Jobs t')) \<and> distinct (map jb_Key (jt_Jobs t'))"
    using inv new by (auto simp: t' jobs_inv_def job_by_id_def find_None_iff)
  ultimately show ?thesis by (simp add: jobs_inv_def)
qed (simp add: inv)

lemma claim_next_cases:
  assumes "claim_next_job opaque active locked now worker lease_seconds t = Inr (c, t')"
  obtains "c = None" "t' = t"
  | j where "j \<in> set (jt_Jobs t)" "runnable now j" "\<not> locked (jb_ID j)"
      "\<And>i. i \<in> set (jt_Jobs t) \<Longrightarrow> runnable now i \<Longrightarrow> \<not> locked (jb_ID i) \<Longrightarrow> claim_order j \<le> claim_order i"
      "1 \<le> lease_seconds"
      "c = Some \<lparr>cj_ID = jb_ID j, cj_Type = jb_Type j, cj_Payload = jb_Payload j, cj_LeaseEpoch = jb_Epoch j + 1,
                 cj_AttemptNumber = jb_Attempts j + 1, cj_MaxAttempts = jb_MaxAttempts j\<rparr>"
      "t' = (set_job (jb_ID j) (\<lambda>i. i\<lparr>jb_Status := JobRunning, jb_Owner := Some worker, jb_Epoch := jb_Epoch j + 1,
                jb_Deadline := Some (now + lease_seconds), jb_Attempts := jb_Attempts j + 1\<rparr>) t)
              \<lparr>jt_Attempts := jt_Attempts t @ [\<lparr>la_Job = jb_ID j, la_Number = jb_Attempts j + 1, la_Owner = worker,
                la_Epoch = jb_Epoch j + 1, la_Started = now, la_Closed = None\<rparr>]\<rparr>"
proof (cases "sort_key claim_order (filter (\<lambda>j. runnable now j \<and> \<not> locked (jb_ID j)) (jt_Jobs t))")
  case Nil
  with assms show ?thesis by (intro that(1)) (auto simp: claim_next_job_def split: if_splits)
next
  case (Cons j js)
  have set: "set (j # js) = {i \<in> set (jt_Jobs t). runnable now i \<and> \<not> locked (jb_ID i)}"
    using arg_cong [OF Cons, of set] by auto
  have sorted: "sorted (map claim_order (j # js))" using sorted_sort_key unfolding Cons [symmetric] .
  show ?thesis
  proof (cases "active")
    case True
    from set have j: "j \<in> set (jt_Jobs t)" "runnable now j" "\<not> locked (jb_ID j)" by auto
    have least: "claim_order j \<le> claim_order i" if "i \<in> set (jt_Jobs t)" "runnable now i" "\<not> locked (jb_ID i)" for i
    proof -
      from that set have "i \<in> set (j # js)" by blast
      then show ?thesis using sorted by auto
    qed
    from assms Cons True show ?thesis
      by (intro that(2) [OF j least]) (auto simp: claim_next_job_def Let_def split: if_splits)
  next
    case False
    with assms show ?thesis by (intro that(1)) (auto simp: claim_next_job_def split: if_splits)
  qed
qed

lemma job_ok_claim:
  assumes "job_ok j rs" "jb_Status j = JobPending"
    "r = \<lparr>la_Job = k, la_Number = jb_Attempts j + 1, la_Owner = w, la_Epoch = jb_Epoch j + 1, la_Started = now, la_Closed = None\<rparr>"
  shows "job_ok (j\<lparr>jb_Status := JobRunning, jb_Owner := Some w, jb_Epoch := jb_Epoch j + 1, jb_Deadline := Some d,
    jb_Attempts := jb_Attempts j + 1\<rparr>) (rs @ [r])"
proof -
  have "[1..jb_Attempts j + 1] = [1..jb_Attempts j] @ [jb_Attempts j + 1]" if "0 \<le> jb_Attempts j"
    using that upto_rec2 [of 1 "jb_Attempts j + 1"] by simp
  then show ?thesis using assms by (auto simp: job_ok_def)
qed

lemma claim_inv:
  assumes inv: "jobs_inv t" and c: "claim_next_job opaque active locked now worker lease_seconds t = Inr (c, t')"
  shows "jobs_inv t'"
  using c
proof (cases rule: claim_next_cases)
  case (2 j)
  from inv have "distinct (map jb_ID (jt_Jobs t))" by (simp add: jobs_inv_def)
  then have at: "job_by_id (jb_ID j) t = Some j" using 2(1) by (rule job_by_id_in)
  from 2(2) have "jb_Status j = JobPending" by (simp add: runnable_def)
  note ok = job_ok_claim [OF jobs_inv_job [OF inv at] this refl, where k = "jb_ID j" and w = worker and now = now
    and d = "now + lease_seconds"]
  have more: "job_by_id k (t\<lparr>jt_Attempts := rs\<rparr>) = job_by_id k t" for k rs and t :: job_tables
    by (simp add: job_by_id_def)
  show ?thesis
    by (rule jobs_inv_update [OF inv, where k = "jb_ID j"])
      (use at ok in \<open>simp_all add: 2(7) ids_same more job_set_job attempts_of_def\<close>)
qed (use inv in simp)

text \<open>An update of one job that closes or keeps its attempts.\<close>

lemma jobs_inv_close:
  assumes inv: "jobs_inv t" and at: "job_by_id k t = Some j" and keeps: "\<And>i. jb_ID (f i) = jb_ID i" "\<And>i. jb_Key (f i) = jb_Key i"
    and ok: "job_ok (f j) (map (close_row n now x) (attempts_of k t))"
  shows "jobs_inv (set_job k f (close_attempt k n now x t))" "jobs_inv (close_attempt k n now x (set_job k f t))"
proof -
  show "jobs_inv (set_job k f (close_attempt k n now x t))"
    by (rule jobs_inv_update [OF inv, where k = k])
      (use at ok in \<open>simp_all add: ids_same keeps job_set_job attempts_close\<close>)
  show "jobs_inv (close_attempt k n now x (set_job k f t))"
    by (rule jobs_inv_update [OF inv, where k = k])
      (use at ok in \<open>simp_all add: ids_same keeps job_set_job attempts_close\<close>)
qed

lemma job_ok_release:
  assumes "job_ok j rs" "jb_Status j = JobRunning"
  shows "job_ok (release_job now delay code j) (map (close_row (jb_Attempts j) now' x) rs)"
  using assms(1,2)
proof (rule running_last)
  fix rs' r
  assume r: "rs = rs' @ [r]" "la_Number r = jb_Attempts j" "la_Closed r = None" "list_all (\<lambda>r. la_Closed r \<noteq> None) rs'"
    "map la_Number rs' = [1..jb_Attempts j - 1]"
  from close_last [OF r(5,2,3)] have "map (close_row (jb_Attempts j) now' x) rs = rs' @ [r\<lparr>la_Closed := Some (now', x)\<rparr>]"
    by (simp add: r(1))
  then show ?thesis using assms r by (auto simp: job_ok_def release_job_def)
qed

lemma job_ok_complete:
  assumes "job_ok j rs" "jb_Status j = JobRunning"
  shows "job_ok (j\<lparr>jb_Status := JobSucceeded, jb_Owner := None, jb_Deadline := None, jb_Completed := Some now, jb_LastError := None\<rparr>)
    (map (close_row (jb_Attempts j) now' x) rs)"
  using assms(1,2)
proof (rule running_last)
  fix rs' r
  assume r: "rs = rs' @ [r]" "la_Number r = jb_Attempts j" "la_Closed r = None" "list_all (\<lambda>r. la_Closed r \<noteq> None) rs'"
    "map la_Number rs' = [1..jb_Attempts j - 1]"
  from close_last [OF r(5,2,3)] have "map (close_row (jb_Attempts j) now' x) rs = rs' @ [r\<lparr>la_Closed := Some (now', x)\<rparr>]"
    by (simp add: r(1))
  then show ?thesis using assms r by (auto simp: job_ok_def)
qed

lemma release_keeps [simp]: "jb_ID (release_job now delay code j) = jb_ID j" "jb_Key (release_job now delay code j) = jb_Key j"
  by (simp_all add: release_job_def)

lemma heartbeat_cases:
  assumes "heartbeat_job now k worker epoch e t = Inr t'"
  obtains j where "job_by_id k t = Some j" "lease_held now worker epoch j" "t' = set_job k (\<lambda>i. i\<lparr>jb_Deadline := Some (now + e)\<rparr>) t" "1 \<le> e"
  using assms by (auto simp: heartbeat_job_def split: if_splits option.splits)

lemma complete_cases:
  assumes "complete_job now k worker epoch t = Inr t'"
  obtains j where "job_by_id k t = Some j" "lease_held now worker epoch j"
    "t' = close_attempt k (jb_Attempts j) now AttemptSucceeded (set_job k (\<lambda>i. i\<lparr>jb_Status := JobSucceeded, jb_Owner := None,
       jb_Deadline := None, jb_Completed := Some now, jb_LastError := None\<rparr>) t)"
  using assms by (auto simp: complete_job_def split: if_splits option.splits)

lemma fail_cases:
  assumes "fail_job now k worker epoch code retry_after t = Inr (status, t')"
  obtains j where "job_by_id k t = Some j" "lease_held now worker epoch j" "status = (if jb_Attempts j < jb_MaxAttempts j then JobPending else JobDead)"
    "t' = set_job k (release_job now retry_after code) (close_attempt k (jb_Attempts j) now (AttemptFailed code) t)"
  using assms by (auto simp: fail_job_def split: if_splits option.splits)

lemma heartbeat_inv:
  assumes inv: "jobs_inv t" and h: "heartbeat_job now k worker epoch e t = Inr t'"
  shows "jobs_inv t'"
  using h
proof (cases rule: heartbeat_cases)
  case (1 j)
  then have "job_ok (j\<lparr>jb_Deadline := Some (now + e)\<rparr>) (attempts_of k t)"
    using jobs_inv_job [OF inv 1(1)] by (auto simp: job_ok_def lease_held_def)
  then show ?thesis
    by (intro jobs_inv_update [OF inv, where k = k]) (use 1(1) in \<open>simp_all add: 1(3) ids_same job_set_job\<close>)
qed

lemma complete_inv:
  assumes inv: "jobs_inv t" and c: "complete_job now k worker epoch t = Inr t'"
  shows "jobs_inv t'"
  using c
proof (cases rule: complete_cases)
  case (1 j)
  from 1(2) have "jb_Status j = JobRunning" by (simp add: lease_held_def)
  from job_ok_complete [OF jobs_inv_job [OF inv 1(1)] this] show ?thesis
    unfolding 1(3) by (intro jobs_inv_close(2) [OF inv 1(1)]) simp_all
qed

lemma fail_inv:
  assumes inv: "jobs_inv t" and f: "fail_job now k worker epoch code retry_after t = Inr (status, t')"
  shows "jobs_inv t'"
  using f
proof (cases rule: fail_cases)
  case (1 j)
  from 1(2) have "jb_Status j = JobRunning" by (simp add: lease_held_def)
  from job_ok_release [OF jobs_inv_job [OF inv 1(1)] this] show ?thesis
    unfolding 1(4) by (intro jobs_inv_close(1) [OF inv 1(1)]) simp_all
qed

text \<open>A reclaim releases every job of its batch and leaves the others alone.\<close>

lemma reclaim_fold:
  assumes "jobs_inv t" "distinct (map jb_ID bs)"
    "\<And>b. b \<in> set bs \<Longrightarrow> job_by_id (jb_ID b) t = Some b \<and> jb_Status b = JobRunning"
  shows "jobs_inv (foldl (reclaim_one now) t bs) \<and> (\<forall>k. job_by_id k (foldl (reclaim_one now) t bs)
    = (case List.find (\<lambda>b. jb_ID b = k) bs of Some b \<Rightarrow> Some (release_job now 0 ''LEASE_EXPIRED'' b) | None \<Rightarrow> job_by_id k t))"
  using assms
proof (induction bs arbitrary: t)
  case (Cons b bs)
  let ?t = "reclaim_one now t b"
  from Cons.prems(3) have b: "job_by_id (jb_ID b) t = Some b" "jb_Status b = JobRunning" by auto
  have inv: "jobs_inv ?t" unfolding reclaim_one_def
    by (rule jobs_inv_close(1) [OF Cons.prems(1) b(1)])
      (use job_ok_release [OF jobs_inv_job [OF Cons.prems(1) b(1)] b(2)] in simp_all)
  have at: "job_by_id k ?t = (if k = jb_ID b then Some (release_job now 0 ''LEASE_EXPIRED'' b) else job_by_id k t)" for k
    using b(1) by (simp add: reclaim_one_def job_set_job)
  have other: "jb_ID i \<noteq> jb_ID b" if "i \<in> set bs" for i using Cons.prems(2) that by (auto simp: image_iff)
  have "jobs_inv (foldl (reclaim_one now) ?t bs) \<and> (\<forall>k. job_by_id k (foldl (reclaim_one now) ?t bs)
    = (case List.find (\<lambda>b. jb_ID b = k) bs of Some b \<Rightarrow> Some (release_job now 0 ''LEASE_EXPIRED'' b) | None \<Rightarrow> job_by_id k ?t))"
    by (rule Cons.IH [OF inv]) (use Cons.prems(2,3) other in \<open>auto simp: at\<close>)
  moreover have "List.find (\<lambda>i. jb_ID i = jb_ID b) bs = None" using other by (auto simp: find_None_iff)
  ultimately show ?case by (auto simp: at split: option.splits)
qed simp

lemma reclaim_batch_jobs:
  assumes "jobs_inv t"
  shows "distinct (map jb_ID (reclaim_batch locked now limit t))"
    "b \<in> set (reclaim_batch locked now limit t) \<Longrightarrow> job_by_id (jb_ID b) t = Some b \<and> expired now b \<and> \<not> locked (jb_ID b)"
proof -
  let ?all = "sort_key (\<lambda>j. the (jb_Deadline j)) (filter (\<lambda>j. expired now j \<and> \<not> locked (jb_ID j)) (jt_Jobs t))"
  from assms have ids: "distinct (map jb_ID (jt_Jobs t))" by (simp add: jobs_inv_def)
  then have "distinct (jt_Jobs t)" "inj_on jb_ID (set (jt_Jobs t))" by (simp_all add: distinct_map)
  then have "distinct (map jb_ID ?all)" by (auto simp: distinct_map inj_on_def)
  then have "distinct (map jb_ID (take (nat limit) ?all))" by (metis distinct_take take_map)
  then show "distinct (map jb_ID (reclaim_batch locked now limit t))" by (simp only: reclaim_batch_def)
  assume "b \<in> set (reclaim_batch locked now limit t)"
  then have "b \<in> set ?all" unfolding reclaim_batch_def by (rule in_set_takeD)
  then show "job_by_id (jb_ID b) t = Some b \<and> expired now b \<and> \<not> locked (jb_ID b)"
    using job_by_id_in [OF ids] by auto
qed

lemma reclaim_result:
  assumes inv: "jobs_inv t" and r: "reclaim_expired_jobs locked now limit t = Inr (n, t')"
  shows "jobs_inv t'" "job_by_id k t' = (case List.find (\<lambda>b. jb_ID b = k) (reclaim_batch locked now limit t) of
    Some b \<Rightarrow> Some (release_job now 0 ''LEASE_EXPIRED'' b) | None \<Rightarrow> job_by_id k t)"
proof -
  have running: "expired now b \<Longrightarrow> jb_Status b = JobRunning" for b by (simp add: expired_def)
  from r have t': "t' = foldl (reclaim_one now) t (reclaim_batch locked now limit t)"
    by (auto simp: reclaim_expired_jobs_def Let_def split: if_splits)
  show "jobs_inv t'" "job_by_id k t' = (case List.find (\<lambda>b. jb_ID b = k) (reclaim_batch locked now limit t) of
    Some b \<Rightarrow> Some (release_job now 0 ''LEASE_EXPIRED'' b) | None \<Rightarrow> job_by_id k t)"
    unfolding t' using reclaim_fold [OF inv reclaim_batch_jobs(1) [OF inv]] reclaim_batch_jobs(2) [OF inv] running by blast+
qed

lemma job_step_inv: "job_step t t' \<Longrightarrow> jobs_inv t \<Longrightarrow> jobs_inv t'"
  by (induction rule: job_step.induct)
    (rule enqueue_inv claim_inv heartbeat_inv complete_inv fail_inv reclaim_result(1); assumption)+

section \<open>What a later table keeps of a job\<close>

definition closed_status :: "queue_job \<Rightarrow> bool" where
  "closed_status j \<longleftrightarrow> jb_Status j = JobSucceeded \<or> jb_Status j = JobDead"

text \<open>The epoch never falls, a lease never returns under an epoch it has left, and a finished job is final.\<close>

definition job_later :: "queue_job \<Rightarrow> queue_job \<Rightarrow> bool" where
  "job_later j j' \<longleftrightarrow> jb_ID j' = jb_ID j \<and> jb_Type j' = jb_Type j \<and> jb_Payload j' = jb_Payload j \<and> jb_Key j' = jb_Key j
     \<and> jb_Priority j' = jb_Priority j \<and> jb_MaxAttempts j' = jb_MaxAttempts j \<and> jb_Epoch j \<le> jb_Epoch j'
     \<and> (jb_Epoch j' = jb_Epoch j \<and> jb_Status j' = JobRunning \<longrightarrow> jb_Status j = JobRunning \<and> jb_Owner j' = jb_Owner j)
     \<and> (closed_status j \<longrightarrow> j' = j)"

definition tables_later :: "job_tables \<Rightarrow> job_tables \<Rightarrow> bool" where
  "tables_later t t' \<longleftrightarrow> (\<forall>k j. job_by_id k t = Some j \<longrightarrow> (\<exists>j'. job_by_id k t' = Some j' \<and> job_later j j'))"

lemma job_later_refl [simp]: "job_later j j"
  by (simp add: job_later_def)

lemma job_later_trans: "job_later i j \<Longrightarrow> job_later j k \<Longrightarrow> job_later i k"
  by (auto simp: job_later_def)

lemma tables_later_refl: "tables_later t t"
  by (simp add: tables_later_def)

lemma tables_later_trans: "tables_later t t' \<Longrightarrow> tables_later t' t'' \<Longrightarrow> tables_later t t''"
  unfolding tables_later_def by (meson job_later_trans)

lemma later_release: "jb_Status j = JobRunning \<Longrightarrow> job_later j (release_job now delay code j)"
  by (simp add: job_later_def release_job_def closed_status_def)

text \<open>A step that touches one job is a step forward when it is one for that job.\<close>

lemma tables_later_one:
  assumes "job_by_id k t = Some j" "job_later j (f j)" "\<And>k'. job_by_id k' t' = (if k' = k then map_option f (job_by_id k t) else job_by_id k' t)"
  shows "tables_later t t'"
  using assms by (auto simp: tables_later_def)

lemma enqueue_later:
  assumes "enqueue_job active check now s payload t = Inr (k, t')"
  shows "tables_later t t'"
proof (cases "t' = t")
  case False
  with assms obtain j where "t' = t\<lparr>jt_Jobs := jt_Jobs t @ [j]\<rparr>"
    by (auto simp: enqueue_job_def Let_def split: if_splits option.splits)
  then show ?thesis by (auto simp: tables_later_def job_by_id_def find_snoc)
qed (simp add: tables_later_refl)

lemma claim_later:
  assumes inv: "jobs_inv t" and c: "claim_next_job opaque active locked now worker lease_seconds t = Inr (c, t')"
  shows "tables_later t t'"
  using c
proof (cases rule: claim_next_cases)
  case (2 j)
  from inv have "distinct (map jb_ID (jt_Jobs t))" by (simp add: jobs_inv_def)
  then have at: "job_by_id (jb_ID j) t = Some j" using 2(1) by (rule job_by_id_in)
  have more: "job_by_id k (t\<lparr>jt_Attempts := rs\<rparr>) = job_by_id k t" for k rs and t :: job_tables
    by (simp add: job_by_id_def)
  show ?thesis
    by (rule tables_later_one [OF at, where f = "\<lambda>i. i\<lparr>jb_Status := JobRunning, jb_Owner := Some worker, jb_Epoch := jb_Epoch j + 1,
        jb_Deadline := Some (now + lease_seconds), jb_Attempts := jb_Attempts j + 1\<rparr>"])
      (use 2(2) in \<open>simp_all add: 2(7) more job_set_job job_later_def closed_status_def runnable_def\<close>)
qed (simp add: tables_later_refl)

lemma held_later:
  assumes "job_by_id k t = Some j" "lease_held now worker epoch j" "job_later j (f j)" "\<And>i. jb_ID (f i) = jb_ID i"
  shows "tables_later t (set_job k f (close_attempt k n now' x t))" "tables_later t (close_attempt k n now' x (set_job k f t))"
    "tables_later t (set_job k f t)"
  by (rule tables_later_one [where f = f, OF assms(1,3)]; simp add: job_set_job assms(4))+

lemma step_later:
  assumes "job_step t t'" "jobs_inv t"
  shows "tables_later t t'"
  using assms
proof (induction rule: job_step.induct)
  case (1 active check now s payload t k t')
  then show ?case by (intro enqueue_later)
next
  case (2 active locked now worker lease_seconds t c t')
  then show ?case by (intro claim_later)
next
  case (3 now k worker epoch e t t')
  from 3(1) show ?case
  proof (cases rule: heartbeat_cases)
    case (1 j)
    show ?thesis unfolding 1(3) by (rule held_later(3) [OF 1(1,2)]) (use 1(2) in \<open>auto simp: job_later_def closed_status_def lease_held_def\<close>)
  qed
next
  case (4 now k worker epoch t t')
  from 4(1) show ?case
  proof (cases rule: complete_cases)
    case (1 j)
    show ?thesis unfolding 1(3) by (rule held_later(2) [OF 1(1,2)]) (use 1(2) in \<open>auto simp: job_later_def closed_status_def lease_held_def\<close>)
  qed
next
  case (5 now k worker epoch code retry_after t status t')
  from 5(1) show ?case
  proof (cases rule: fail_cases)
    case (1 j)
    then have "jb_Status j = JobRunning" by (simp add: lease_held_def)
    show ?thesis unfolding 1(4) by (rule held_later(1) [OF 1(1,2)]) (use \<open>jb_Status j = JobRunning\<close> in \<open>simp_all add: later_release\<close>)
  qed
next
  case (6 locked now limit t n t')
  have "\<exists>j'. job_by_id k t' = Some j' \<and> job_later j j'" if j: "job_by_id k t = Some j" for k j
  proof (cases "List.find (\<lambda>b. jb_ID b = k) (reclaim_batch locked now limit t)")
    case None
    then show ?thesis using j reclaim_result(2) [OF 6(2,1), of k] by simp
  next
    case (Some b)
    then have b: "b \<in> set (reclaim_batch locked now limit t)" "jb_ID b = k" by (auto simp: find_Some_iff)
    then have "b = j" "jb_Status b = JobRunning"
      using reclaim_batch_jobs(2) [OF 6(2) b(1)] j by (simp_all add: expired_def)
    then show ?thesis using Some reclaim_result(2) [OF 6(2,1), of k] later_release by simp
  qed
  then show ?case by (simp add: tables_later_def)
qed

interpretation job_ev: evolution job_step jobs_inv tables_later
  using tables_later_refl tables_later_trans job_step_inv step_later by unfold_locales blast+

lemmas steps_later = job_ev.steps_evolve

text \<open>A lease that is gone, by its epoch or because its job does not run, is gone in every later table.\<close>

lemma lease_gone:
  assumes "tables_later t t'" "job_by_id k t = Some j" "jb_Epoch j = epoch" "jb_Status j \<noteq> JobRunning" "job_by_id k t' = Some j'"
  shows "\<not> lease_held now worker epoch j'"
proof -
  from assms(1,2,5) have "job_later j j'" by (fastforce simp: tables_later_def)
  with assms(3,4) show ?thesis by (simp add: job_later_def lease_held_def)
qed

lemma not_held_calls:
  assumes "job_by_id k t = Some j" "\<not> lease_held now worker epoch j"
  shows "complete_job now k worker epoch t = Inl sqlLeaseLost"
    "1 \<le> e \<Longrightarrow> e \<le> 3600 \<Longrightarrow> heartbeat_job now k worker epoch e t = Inl sqlLeaseLost"
    "errorCodePattern code \<Longrightarrow> 0 \<le> r \<Longrightarrow> r \<le> 2592000 \<Longrightarrow> fail_job now k worker epoch code r t = Inl sqlLeaseLost"
  using assms by (simp_all add: complete_job_def heartbeat_job_def fail_job_def)

section \<open>The typed calls\<close>

lemma job_write_ok:
  assumes "job_write fate a sql work s = (Inr x, s')"
  shows "work s = Inr (x, s') \<and> fate = TxConfirmed \<and> access_Validate a"
  using assms by (cases fate) (auto simp: job_write_def split: if_splits sum.splits)

lemma job_write_same: "work s = Inl err \<Longrightarrow> snd (job_write fate a sql work s) = s \<and> fst (job_write fate a sql work s) \<noteq> Inr x"
  by (cases fate) (simp_all add: job_write_def)

lemma map_sum_Pair: "map_sum id (Pair ()) r = Inr (x, t') \<longleftrightarrow> r = Inr t'"
  by (cases r) auto

lemma Complete_ok: "Complete fate now a k worker epoch t = (None, t') \<Longrightarrow> complete_job now k worker epoch t = Inr t'"
  by (auto simp: Complete_def leaseCall_def map_sum_Pair split: if_splits prod.splits sum.splits dest!: job_write_ok)

lemma Heartbeat_ok: "Heartbeat fate now a k worker epoch e t = (None, t') \<Longrightarrow> heartbeat_job now k worker epoch e t = Inr t'"
  by (auto simp: Heartbeat_def leaseCall_def map_sum_Pair split: if_splits prod.splits sum.splits dest!: job_write_ok)

lemma Fail_ok: "Fail fate now a k worker epoch code r t = (None, t') \<Longrightarrow> \<exists>status. fail_job now k worker epoch code r t = Inr (status, t')"
  by (auto simp: Fail_def split: if_splits prod.splits sum.splits dest!: job_write_ok)

lemma Claim_ok: "Claim fate opaque active locked now a worker s t = (Inr c, t') \<Longrightarrow> claim_next_job opaque active locked now worker s t = Inr (c, t')"
  by (auto simp: Claim_def split: if_splits prod.splits sum.splits dest!: job_write_ok)

text \<open>A call that succeeds held the lease when it read the row.\<close>

definition lease_call_ok :: "gostring \<Rightarrow> gostring \<Rightarrow> int \<Rightarrow> job_tables \<Rightarrow> bool" where
  "lease_call_ok k worker epoch t \<longleftrightarrow> (\<exists>fate now a e code r.
     fst (Complete fate now a k worker epoch t) = None \<or> fst (Heartbeat fate now a k worker epoch e t) = None
     \<or> fst (Fail fate now a k worker epoch code r t) = None)"

lemma lease_call_held: "lease_call_ok k worker epoch t \<Longrightarrow> \<exists>j now. job_by_id k t = Some j \<and> lease_held now worker epoch j"
  unfolding lease_call_ok_def
  by (metis Complete_ok Fail_ok Heartbeat_ok complete_cases fail_cases heartbeat_cases prod.collapse)

lemma open_attempts:
  assumes "job_ok j rs"
  shows "length (filter (\<lambda>r. la_Closed r = None) rs) = (if jb_Status j = JobRunning then 1 else 0)"
proof (cases "jb_Status j = JobRunning")
  case True
  from assms True show ?thesis
  proof (rule running_last)
    fix rs' r
    assume "rs = rs' @ [r]" "la_Closed r = None" "list_all (\<lambda>r. la_Closed r \<noteq> None) rs'"
    then show ?thesis using True by (simp add: list_all_iff)
  qed
next
  case False
  then have "list_all (\<lambda>r. la_Closed r \<noteq> None) rs" using assms by (cases "jb_Status j") (auto simp: job_ok_def)
  then show ?thesis using False by (simp add: list_all_iff)
qed

definition no_jobs :: job_tables where
  "no_jobs = \<lparr>jt_Jobs = [], jt_Attempts = []\<rparr>"

lemma no_jobs_inv [simp]: "jobs_inv no_jobs"
  by (simp add: jobs_inv_def no_jobs_def job_by_id_def attempts_of_def)

lemma reachable_jobs_inv: "job_step\<^sup>*\<^sup>* no_jobs t \<Longrightarrow> jobs_inv t"
  using steps_later no_jobs_inv by blast

lemma steps_later_reachable: "job_step\<^sup>*\<^sup>* no_jobs t \<Longrightarrow> job_step\<^sup>*\<^sup>* t t' \<Longrightarrow> tables_later t t'"
  using steps_later reachable_jobs_inv by blast

text \<open>C30. A lease is fenced: whatever happened to the tables since a claim, a heartbeat, completion or failure under the epoch
  of that claim succeeds only for the worker that made it, while the job is still running and on that attempt.\<close>

theorem lease_fenced:
  assumes t: "job_step\<^sup>*\<^sup>* no_jobs t" and claim: "Claim fate opaque active locked now a worker s t = (Inr (Some c), t1)"
    and later: "job_step\<^sup>*\<^sup>* t1 t2" and call: "lease_call_ok (cj_ID c) worker' (cj_LeaseEpoch c) t2"
  shows "worker' = worker \<and> (\<exists>j. job_by_id (cj_ID c) t2 = Some j \<and> jb_Status j = JobRunning \<and> jb_Attempts j = cj_AttemptNumber c)"
proof -
  from Claim_ok [OF claim] have step: "job_step t t1" and c: "claim_next_job opaque active locked now worker s t = Inr (Some c, t1)"
    by (auto intro: job_step.intros)
  from t step have t1: "job_step\<^sup>*\<^sup>* no_jobs t1" by (rule rtranclp.rtrancl_into_rtrancl)
  from c obtain i where i: "job_by_id (cj_ID c) t1 = Some i" "jb_Epoch i = cj_LeaseEpoch c" "jb_Owner i = Some worker"
      "jb_Attempts i = cj_AttemptNumber c"
  proof (cases rule: claim_next_cases)
    case (2 j)
    from reachable_jobs_inv [OF t] have "distinct (map jb_ID (jt_Jobs t))" by (simp add: jobs_inv_def)
    then have at: "job_by_id (jb_ID j) t = Some j" using 2(1) by (rule job_by_id_in)
    have more: "job_by_id k (t\<lparr>jt_Attempts := rs\<rparr>) = job_by_id k t" for k rs and t :: job_tables
      by (simp add: job_by_id_def)
    have "job_by_id (cj_ID c) t1 = Some (j\<lparr>jb_Status := JobRunning, jb_Owner := Some worker, jb_Epoch := jb_Epoch j + 1,
        jb_Deadline := Some (now + s), jb_Attempts := jb_Attempts j + 1\<rparr>)"
      using at 2(6) by (simp add: 2(7) more job_set_job)
    then show ?thesis by (rule that) (use 2(6) in simp_all)
  qed simp
  from lease_call_held [OF call] obtain j now' where j: "job_by_id (cj_ID c) t2 = Some j" "lease_held now' worker' (cj_LeaseEpoch c) j"
    by blast
  from steps_later_reachable [OF t1 later] i(1) j(1) have "job_later i j" by (fastforce simp: tables_later_def)
  with i j have held: "jb_Owner j = jb_Owner i" "jb_Status j = JobRunning" "jb_Epoch j = jb_Epoch i"
    by (auto simp: job_later_def lease_held_def)
  from reachable_jobs_inv t1 later have "jobs_inv t2" using steps_later by blast
  then have "jb_Epoch j = jb_Attempts j" using jobs_inv_job j(1) by (fastforce simp: job_ok_def)
  moreover have "jb_Epoch i = jb_Attempts i" using jobs_inv_job [OF reachable_jobs_inv [OF t1] i(1)] by (simp add: job_ok_def)
  ultimately show ?thesis using held i j by (auto simp: lease_held_def)
qed

text \<open>A lease is closed at most once: after a completion or failure that succeeded, no call under that epoch succeeds in any
  later table, for any worker.\<close>

theorem lease_closed_once:
  assumes t: "job_step\<^sup>*\<^sup>* no_jobs t"
    and close: "Complete fate now a k worker epoch t = (None, t1) \<or> Fail fate now a k worker epoch code r t = (None, t1)"
    and later: "job_step\<^sup>*\<^sup>* t1 t2"
  shows "\<not> lease_call_ok k worker' epoch t2"
proof
  assume "lease_call_ok k worker' epoch t2"
  then obtain j now' where j: "job_by_id k t2 = Some j" "lease_held now' worker' epoch j" using lease_call_held by blast
  from close obtain i where i: "job_by_id k t1 = Some i" "jb_Status i \<noteq> JobRunning" "jb_Epoch i = epoch" and step: "job_step t t1"
  proof
    assume "Complete fate now a k worker epoch t = (None, t1)"
    then have c: "complete_job now k worker epoch t = Inr t1" by (rule Complete_ok)
    then obtain i where "job_by_id k t1 = Some i" "jb_Status i \<noteq> JobRunning" "jb_Epoch i = epoch"
      by (cases rule: complete_cases) (auto simp: job_set_job lease_held_def)
    then show ?thesis using c by (intro that) (auto intro: job_step.intros)
  next
    assume "Fail fate now a k worker epoch code r t = (None, t1)"
    then obtain status where f: "fail_job now k worker epoch code r t = Inr (status, t1)" using Fail_ok by blast
    then obtain i where "job_by_id k t1 = Some i" "jb_Status i \<noteq> JobRunning" "jb_Epoch i = epoch"
      by (cases rule: fail_cases) (auto simp: job_set_job lease_held_def release_job_def split: if_splits)
    then show ?thesis using f by (intro that) (auto intro: job_step.intros)
  qed
  from t step have t1: "job_step\<^sup>*\<^sup>* no_jobs t1" by (rule rtranclp.rtrancl_into_rtrancl)
  from lease_gone [OF steps_later_reachable [OF t1 later] i(1,3,2) j(1)] j(2) show False by blast
qed

text \<open>C31. The tables stay consistent under every interleaving of the database functions: jobs have distinct ids and idempotency
  keys; a job was attempted as often as its epoch says and at most as often as allowed; its attempts are numbered from one, all
  closed except that of a running job, which names the owner of the lease.\<close>

theorem jobs_consistent:
  assumes "job_step\<^sup>*\<^sup>* no_jobs t"
  shows "jobs_inv t \<and> (\<forall>k j. job_by_id k t = Some j \<longrightarrow> int (length (attempts_of k t)) = jb_Epoch j
     \<and> length (filter (\<lambda>r. la_Closed r = None) (attempts_of k t)) = (if jb_Status j = JobRunning then 1 else 0))"
proof -
  from assms have inv: "jobs_inv t" by (rule reachable_jobs_inv)
  have "int (length (attempts_of k t)) = jb_Epoch j
     \<and> length (filter (\<lambda>r. la_Closed r = None) (attempts_of k t)) = (if jb_Status j = JobRunning then 1 else 0)"
    if "job_by_id k t = Some j" for k j
  proof -
    from jobs_inv_job [OF inv that] have ok: "job_ok j (attempts_of k t)" .
    then have "length (map la_Number (attempts_of k t)) = length [1..jb_Attempts j]" by (simp add: job_ok_def)
    then have "int (length (attempts_of k t)) = jb_Epoch j" using ok by (simp add: job_ok_def)
    then show ?thesis using open_attempts [OF ok] by simp
  qed
  with inv show ?thesis by blast
qed

text \<open>A claim hands out the first runnable job by priority, availability and id among those no other transaction has
  locked, on an attempt within its budget; it hands out nothing only if there is none.\<close>

theorem claim_serves_first:
  assumes "job_step\<^sup>*\<^sup>* no_jobs t" "Claim fate opaque True locked now a worker s t = (Inr c, t')"
  shows "(case c of
       None \<Rightarrow> t' = t \<and> (\<forall>j \<in> set (jt_Jobs t). runnable now j \<longrightarrow> locked (jb_ID j))
     | Some x \<Rightarrow> (\<exists>j \<in> set (jt_Jobs t). cj_ID x = jb_ID j \<and> runnable now j \<and> \<not> locked (jb_ID j)
          \<and> (\<forall>i \<in> set (jt_Jobs t). runnable now i \<and> \<not> locked (jb_ID i) \<longrightarrow> claim_order j \<le> claim_order i)
          \<and> cj_AttemptNumber x \<le> cj_MaxAttempts x))"
proof (cases c)
  case None
  show ?thesis
  proof (cases "sort_key claim_order (filter (\<lambda>j. runnable now j \<and> \<not> locked (jb_ID j)) (jt_Jobs t))")
    case Nil
    then have "set (filter (\<lambda>j. runnable now j \<and> \<not> locked (jb_ID j)) (jt_Jobs t)) = {}" by (metis set_sort set_empty)
    then have "\<forall>j \<in> set (jt_Jobs t). runnable now j \<longrightarrow> locked (jb_ID j)" by auto
    moreover have "t' = t" using Claim_ok [OF assms(2)] None Nil by (auto simp: claim_next_job_def split: if_splits)
    ultimately show ?thesis using None by simp
  next
    case (Cons j js)
    then show ?thesis using Claim_ok [OF assms(2)] None by (simp add: claim_next_job_def Let_def split: if_splits)
  qed
next
  case (Some x)
  from Claim_ok [OF assms(2)] show ?thesis
  proof (cases rule: claim_next_cases)
    case (2 j)
    from reachable_jobs_inv [OF assms(1)] have inv: "jobs_inv t" .
    then have "distinct (map jb_ID (jt_Jobs t))" by (simp add: jobs_inv_def)
    then have "job_by_id (jb_ID j) t = Some j" using 2(1) by (rule job_by_id_in)
    from jobs_inv_job [OF inv this] 2(2) have "jb_Attempts j + 1 \<le> jb_MaxAttempts j" by (auto simp: job_ok_def runnable_def)
    then show ?thesis using 2 by (auto simp: Some intro!: bexI [of _ j])
  qed (use Some in simp)
qed

text \<open>C32. An expired lease does not strand its job: a reclaim whose batch is large enough makes the job runnable at once, or
  dead when its attempts are used up.\<close>

theorem expired_lease_returns:
  assumes "job_step\<^sup>*\<^sup>* no_jobs t" "job_by_id k t = Some j" "expired now j" "\<not> locked k" "access_Validate a"
    "1 \<le> limit" "limit \<le> 1000" "int (length (filter (\<lambda>i. expired now i \<and> \<not> locked (jb_ID i)) (jt_Jobs t))) \<le> limit"
  shows "\<exists>n t' j'. Reclaim TxConfirmed locked now a limit t = (Inr n, t') \<and> job_by_id k t' = Some j'
    \<and> (if jb_Attempts j < jb_MaxAttempts j then runnable now j' else jb_Status j' = JobDead)"
proof -
  from assms(1) have inv: "jobs_inv t" by (rule reachable_jobs_inv)
  obtain n t' where r: "reclaim_expired_jobs locked now limit t = Inr (n, t')"
    using assms(6,7) by (auto simp: reclaim_expired_jobs_def Let_def)
  have "set (reclaim_batch locked now limit t) = set (filter (\<lambda>i. expired now i \<and> \<not> locked (jb_ID i)) (jt_Jobs t))"
    using assms(8) by (simp add: reclaim_batch_def nat_le_iff [symmetric] le_nat_iff)
  then have "j \<in> set (reclaim_batch locked now limit t)" using assms(2-4) job_by_id_Some by auto
  moreover have "b = j" if "b \<in> set (reclaim_batch locked now limit t)" "jb_ID b = k" for b
    using reclaim_batch_jobs(2) [OF inv that(1)] that(2) assms(2) by simp
  ultimately have "List.find (\<lambda>b. jb_ID b = k) (reclaim_batch locked now limit t) = Some j"
    using job_by_id_Some [OF assms(2)] by (intro find_unique_job) blast+
  then have "job_by_id k t' = Some (release_job now 0 ''LEASE_EXPIRED'' j)" using reclaim_result(2) [OF inv r, of k] by simp
  moreover have "Reclaim TxConfirmed locked now a limit t = (Inr n, t')"
    using assms(5-7) r by (simp add: Reclaim_def job_write_def)
  ultimately show ?thesis by (auto simp: release_job_def runnable_def)
qed

section \<open>A run\<close>

text \<open>One job, queued at instant 0 and leased at instant 10 for a minute.\<close>

definition job_access :: access where
  "job_access = \<lparr>ac_OrganizationID = ''org-1'', ac_PrincipalID = ''usr-1'', ac_RequestID = ''req-1'', ac_ActorKind = []\<rparr>"

definition sample_job_id :: gostring where
  "sample_job_id = ''job_01ARZ3NDEKTSV4RRFFQ69G5FAV''"

definition sample_job_spec :: job_spec where
  "sample_job_spec = \<lparr>js_JobID = sample_job_id, js_Type = TypeKEKRewrap, js_Payload = [], js_IdempotencyKey = ''rotation:begin:KEK'',
     js_Priority = 0, js_MaxAttempts = 5, js_AvailableAfter = 0\<rparr>"

definition sample_job :: queue_job where
  "sample_job = \<lparr>jb_ID = sample_job_id, jb_Type = TypeKEKRewrap, jb_Payload = ''{}'', jb_Key = ''rotation:begin:KEK'',
     jb_Status = JobPending, jb_Priority = 0, jb_MaxAttempts = 5, jb_Attempts = 0, jb_Available = 0, jb_Epoch = 0,
     jb_Owner = None, jb_Deadline = None, jb_LastError = None, jb_Completed = None\<rparr>"

definition queued :: job_tables where
  "queued = \<lparr>jt_Jobs = [sample_job], jt_Attempts = []\<rparr>"

definition sample_claim :: claimed_job where
  "sample_claim = \<lparr>cj_ID = sample_job_id, cj_Type = TypeKEKRewrap, cj_Payload = ''{}'', cj_LeaseEpoch = 1, cj_AttemptNumber = 1, cj_MaxAttempts = 5\<rparr>"

definition leased :: job_tables where
  "leased = \<lparr>jt_Jobs = [sample_job\<lparr>jb_Status := JobRunning, jb_Owner := Some ''w1'', jb_Epoch := 1, jb_Deadline := Some 70, jb_Attempts := 1\<rparr>],
     jt_Attempts = [\<lparr>la_Job = sample_job_id, la_Number = 1, la_Owner = ''w1'', la_Epoch = 1, la_Started = 10, la_Closed = None\<rparr>]\<rparr>"

lemma sample_job_checks: "access_Validate job_access" "referenceIDPattern sample_job_id" "opaqueIDPattern ''w1''"
    "spec_validate sample_job_spec" "payload_marshal (js_Payload sample_job_spec) = Some ''{}''"
  by code_simp+

lemma sample_enqueued: "enqueue_job True (\<lambda>_. None) 0 sample_job_spec ''{}'' no_jobs = Inr (sample_job_id, queued)"
  by (simp add: enqueue_job_def sample_job_spec_def no_jobs_def queued_def sample_job_def job_by_id_def)

lemma queued_reached: "job_step\<^sup>*\<^sup>* no_jobs queued"
  using sample_enqueued by (auto intro: job_step.intros)

lemma sample_claimed: "Claim TxConfirmed (\<lambda>_. True) True (\<lambda>_. False) 10 job_access ''w1'' 60 queued = (Inr (Some sample_claim), leased)"
  using sample_job_checks(1,3)
  by (simp add: Claim_def job_write_def claim_next_job_def runnable_def queued_def leased_def sample_job_def sample_claim_def set_job_def)

lemma leased_reached: "job_step\<^sup>*\<^sup>* no_jobs leased"
  using queued_reached Claim_ok [OF sample_claimed] by (meson job_step.intros(2) rtranclp.rtrancl_into_rtrancl)

lemma sample_completed: "\<exists>t. Complete TxConfirmed 20 job_access sample_job_id ''w1'' 1 leased = (None, t)"
  using sample_job_checks(1-3)
  by (simp add: Complete_def leaseCall_def job_write_def complete_job_def job_by_id_def lease_held_def leased_def sample_job_def)

lemma lease_fenced_witness:
  "lease_call_ok (cj_ID sample_claim) ''w1'' (cj_LeaseEpoch sample_claim) leased
   \<and> (\<exists>j. job_by_id (cj_ID sample_claim) leased = Some j \<and> jb_Status j = JobRunning \<and> jb_Attempts j = cj_AttemptNumber sample_claim)
   \<and> \<not> lease_call_ok (cj_ID sample_claim) ''w2'' (cj_LeaseEpoch sample_claim) leased"
proof -
  have ids: "cj_ID sample_claim = sample_job_id" "cj_LeaseEpoch sample_claim = 1" by (simp_all add: sample_claim_def)
  have ok: "lease_call_ok (cj_ID sample_claim) ''w1'' (cj_LeaseEpoch sample_claim) leased"
    unfolding lease_call_ok_def ids using sample_completed by (metis fst_conv)
  note fenced = lease_fenced [OF queued_reached sample_claimed rtranclp.rtrancl_refl]
  from fenced [OF ok] fenced [where worker' = "''w2''"] ok show ?thesis by auto
qed

lemma lease_closed_once_witness:
  "\<exists>t. Complete TxConfirmed 20 job_access sample_job_id ''w1'' 1 leased = (None, t) \<and> \<not> lease_call_ok sample_job_id ''w1'' 1 t"
  using sample_completed lease_closed_once [OF leased_reached disjI1 rtranclp.rtrancl_refl] by blast

lemma jobs_consistent_witness:
  "\<exists>j. job_by_id sample_job_id leased = Some j \<and> jb_Status j = JobRunning \<and> int (length (attempts_of sample_job_id leased)) = jb_Epoch j
     \<and> length (filter (\<lambda>r. la_Closed r = None) (attempts_of sample_job_id leased)) = 1"
proof -
  have "job_by_id sample_job_id leased = Some (hd (jt_Jobs leased))" "jb_Status (hd (jt_Jobs leased)) = JobRunning"
    by (simp_all add: leased_def job_by_id_def sample_job_def)
  with jobs_consistent [OF leased_reached] show ?thesis by fastforce
qed

lemma claim_serves_first_witness:
  "\<exists>j \<in> set (jt_Jobs queued). cj_ID sample_claim = jb_ID j \<and> runnable 10 j \<and> cj_AttemptNumber sample_claim \<le> cj_MaxAttempts sample_claim"
  using claim_serves_first [OF queued_reached sample_claimed] by auto

lemma expired_lease_returns_witness:
  "\<exists>n t' j'. Reclaim TxConfirmed (\<lambda>_. False) 100 job_access 1 leased = (Inr n, t') \<and> job_by_id sample_job_id t' = Some j' \<and> runnable 100 j'"
proof -
  let ?j = "hd (jt_Jobs leased)"
  have "job_by_id sample_job_id leased = Some ?j" "expired 100 ?j" "jb_Attempts ?j < jb_MaxAttempts ?j"
    "int (length (filter (\<lambda>i. expired 100 i \<and> \<not> (\<lambda>_. False) (jb_ID i)) (jt_Jobs leased))) \<le> 1"
    by (simp_all add: leased_def job_by_id_def sample_job_def expired_def)
  with expired_lease_returns [OF leased_reached, of sample_job_id ?j 100 "\<lambda>_. False" job_access 1] sample_job_checks(1)
  show ?thesis by auto
qed

end
