(* ===== verification/Artifact_Seal.thy ===== *)
theory Artifact_Seal
  imports Artifact_Crypto
begin

text \<open>
  What the artifact codec guarantees: the registry is closed and unambiguous, the authenticated data determine the owner and
  the key pair, a sealed artifact opens to its plaintext under every provider that mounts its pair, and under no other owner.
\<close>

section \<open>The registry\<close>

text \<open>What \<open>buildOwnerRegistry\<close> and \<open>buildTupleRegistry\<close> check at package load.\<close>

lemma registry_checks:
  "length ownerInventory = 27" "distinct (map od_field ownerInventory)" "distinct (map owner_tuple ownerInventory)"
  "list_all (\<lambda>d. od_field d \<noteq> OwnerFieldInvalid \<and> od_field d \<noteq> OwnerFieldSentinel \<and> od_ownerTable d \<noteq> [] \<and> od_ownerColumn d \<noteq> []
     \<and> od_resourceType d \<noteq> [] \<and> od_aadField d \<noteq> []) ownerInventory"
  by code_simp+

lemma find_distinct: "distinct (map f xs) \<Longrightarrow> x \<in> set xs \<Longrightarrow> List.find (\<lambda>y. f y = f x) xs = Some x"
  by (induction xs) (auto simp: image_iff)

lemma registry_lookup: "d \<in> set ownerInventory \<Longrightarrow> registryByTuple (owner_tuple d) = Some d \<and> ownerByField (od_field d) = Some d"
  using find_distinct [OF registry_checks(3)] find_distinct [OF registry_checks(2)] by (simp add: registryByTuple_def ownerByField_def)

lemma registry_in: "registryByTuple t = Some d \<Longrightarrow> d \<in> set ownerInventory \<and> owner_tuple d = t"
  "ownerByField s = Some d \<Longrightarrow> d \<in> set ownerInventory \<and> od_field d = s"
  by (auto simp: registryByTuple_def ownerByField_def find_Some_iff)

lemma owner_of_valid:
  assumes "d \<in> set ownerInventory" "ac_validIdentifier g 128" "ac_validIdentifier k 256"
  shows "owner_valid (owner_of d g k)"
proof -
  have "od_field d \<noteq> OwnerFieldInvalid \<and> od_ownerTable d \<noteq> [] \<and> od_ownerColumn d \<noteq> [] \<and> od_resourceType d \<noteq> [] \<and> od_aadField d \<noteq> []"
    using registry_checks(4) assms(1) unfolding list_all_iff by blast
  then show ?thesis using assms registry_lookup [OF assms(1)] by (simp add: owner_valid_def owner_of_def owner_tuple_def)
qed

section \<open>Authenticated data\<close>

lemma owner_valid_utf8: "owner_valid w \<Longrightarrow> valid_utf8 (ow_organizationID w) \<and> valid_utf8 (ow_resourceID w)"
  by (auto simp: owner_valid_def ac_validIdentifier_def split: if_splits)

lemma artifactAAD_inj: "artifactAAD v = Some a \<Longrightarrow> artifactAAD w = Some a \<Longrightarrow> v = w"
  by (auto simp: artifactAAD_def jcs_injective split: if_splits)

lemma wrapAAD_inj:
  assumes "wrapAAD v r n = Some a" "wrapAAD w s m = Some a" "n \<le> 9007199254740991" "m \<le> 9007199254740991"
  shows "v = w \<and> r = s \<and> n = m"
  using assms by (auto simp: wrapAAD_def jcs_injective split: if_splits)

lemma AADs_apart: "artifactAAD v = Some a \<Longrightarrow> wrapAAD w s m \<noteq> Some a"
  by (auto simp: wrapAAD_def artifactAAD_def jcs_injective split: if_splits)

lemma artifactAAD_owner: "artifactAAD w \<noteq> None \<longleftrightarrow> owner_valid w"
  by (simp add: artifactAAD_def)

section \<open>The provider\<close>

text \<open>What the codec relies on. Authenticated encryption undoes itself; \<open>sound\<close> says that it does.\<close>

definition aead_correct :: "'a crypto_env_scheme \<Rightarrow> bool" where
  "aead_correct e \<longleftrightarrow> (\<forall>k n p a. ce_Open e k n (ce_Seal e k n p a) a = Some p)"

locale key_wrapping =
  fixes wraps :: key_provider
    and unwraps :: key_provider
    and sound :: bool
  assumes wrap_unwrap: "sound \<Longrightarrow> length nonce = wrapNonceBytes \<Longrightarrow> wrappedDEKMinLen \<le> length (wd_bytes x)
      \<Longrightarrow> kp_WrapDEK wraps (Some nonce) dek w = Inr x \<Longrightarrow> kp_UnwrapDEK unwraps x w = Inr dek"
    and wrap_dek: "kp_WrapDEK wraps entropy dek w = Inr x \<Longrightarrow> length dek = dekBytes"
    and same_tenant: "sound \<Longrightarrow> kp_WrapDEK wraps entropy dek w = Inr x \<Longrightarrow> kp_OrganizationID unwraps = ow_organizationID w"
begin

lemma seal_open:
  assumes "sound" "aead_correct e" "length wrapNonce = wrapNonceBytes"
    and seal: "Seal e wraps dekRead nonceRead (Some wrapNonce) w plaintext = Inr v"
  shows "Open e unwraps w v = Inr plaintext"
proof -
  from seal obtain aad dek nonce x where s: "owner_valid w" "artifactAAD w = Some aad" "newAEAD_ok dek"
      "kp_WrapDEK wraps (Some wrapNonce) dek w = Inr x" "wrappedDEKMinLen \<le> length (wd_bytes x)" "validShape v"
    and v: "v = NewEnvelopeFromStorage w CipherAES256GCM (ce_Seal e dek nonce plaintext aad) (int (length plaintext)) nonce (wd_bytes x)
       (hashDigest e (wd_bytes x)) (wd_keyReference x) (wd_keyVersion x) (hashDigest e aad) (hashDigest e plaintext)"
    by (auto simp: Seal_def Let_def not_less split: if_splits option.splits sum.splits)
  have "kp_UnwrapDEK unwraps \<lparr>wd_keyReference = wd_keyReference x, wd_keyVersion = wd_keyVersion x, wd_bytes = wd_bytes x\<rparr> w = Inr dek"
    using wrap_unwrap [OF assms(1,3) s(5,4)] by (cases x) simp
  then show ?thesis using s v assms(2) wrap_dek [OF s(4)] same_tenant [OF assms(1) s(4)]
    by (simp add: Open_def NewEnvelopeFromStorage_def aead_correct_def)
qed

end

text \<open>A provider that mounts the active pair of another one, as its active or as its previous pair.\<close>

definition mounts_pair :: "mounted_state \<Rightarrow> mounted_state \<Rightarrow> bool" where
  "mounts_pair s t \<longleftrightarrow> \<not> ms_closed t \<and> ms_organizationID t = ms_organizationID s
     \<and> (ms_keyReference t = ms_keyReference s \<and> ms_keyVersion t = ms_keyVersion s \<and> ms_key t = ms_key s
        \<or> ms_prevKeyReference t = ms_keyReference s \<and> ms_prevKeyVersion t = ms_keyVersion s \<and> ms_prevKey t = ms_key s
          \<and> ms_prevKeyVersion t \<noteq> 0 \<and> ms_keyVersion t \<noteq> ms_keyVersion s)"

lemma WrapDEK_Inr:
  assumes "WrapDEK e s entropy dek w = Inr x"
  obtains nonce aad where "entropy = Some nonce" "length dek = dekBytes" "owner_valid w" "\<not> ms_closed s" "ow_organizationID w = ms_organizationID s"
    "wrapAAD w (ms_keyReference s) (ms_keyVersion s) = Some aad" "newAEAD_ok (ms_key s)"
    "x = \<lparr>wd_keyReference = ms_keyReference s, wd_keyVersion = ms_keyVersion s, wd_bytes = wrappedHeader @ nonce @ ce_Seal e (ms_key s) nonce dek aad\<rparr>"
  using assms by (auto simp: WrapDEK_def split: if_splits option.splits)

lemma mounted_unwrap:
  assumes "aead_correct e" "mounts_pair s t" "length nonce = wrapNonceBytes" "wrappedDEKMinLen \<le> length (wd_bytes x)"
    and wrap: "WrapDEK e s (Some nonce) dek w = Inr x"
  shows "UnwrapDEK e t x w = Inr dek"
  using wrap
proof (rule WrapDEK_Inr)
  fix n aad
  assume w: "Some nonce = Some n" "length dek = dekBytes" "owner_valid w" "ow_organizationID w = ms_organizationID s"
    "wrapAAD w (ms_keyReference s) (ms_keyVersion s) = Some aad" "newAEAD_ok (ms_key s)"
    "x = \<lparr>wd_keyReference = ms_keyReference s, wd_keyVersion = ms_keyVersion s, wd_bytes = wrappedHeader @ n @ ce_Seal e (ms_key s) n dek aad\<rparr>"
  have pair: "mounted_pair t x = Some (ms_keyReference s, ms_keyVersion s, ms_key s)"
    using assms(2) by (auto simp: mounted_pair_def mounts_pair_def w(7))
  have parts: "take 2 (wd_bytes x) = wrappedHeader" "take wrapNonceBytes (drop 2 (wd_bytes x)) = n"
    "drop (2 + wrapNonceBytes) (wd_bytes x) = ce_Seal e (ms_key s) n dek aad"
    using assms(3) w(1) by (simp_all add: w(7) wrappedHeader_def)
  show ?thesis using assms(1,2,4) w pair parts by (simp add: UnwrapDEK_def aead_correct_def mounts_pair_def)
qed

interpretation mounted_kw: key_wrapping "mounted e s" "mounted e t" "aead_correct e \<and> mounts_pair s t" for e s t
proof
  show "aead_correct e \<and> mounts_pair s t \<Longrightarrow> length nonce = wrapNonceBytes \<Longrightarrow> wrappedDEKMinLen \<le> length (wd_bytes x)
      \<Longrightarrow> kp_WrapDEK (mounted e s) (Some nonce) dek w = Inr x \<Longrightarrow> kp_UnwrapDEK (mounted e t) x w = Inr dek" for nonce x dek w
    using mounted_unwrap [of e s t nonce x dek w] by (simp add: mounted_def)
  show "kp_WrapDEK (mounted e s) entropy dek w = Inr x \<Longrightarrow> length dek = dekBytes" for entropy dek w x
    by (auto simp: mounted_def elim: WrapDEK_Inr)
  show "aead_correct e \<and> mounts_pair s t \<Longrightarrow> kp_WrapDEK (mounted e s) entropy dek w = Inr x \<Longrightarrow> kp_OrganizationID (mounted e t) = ow_organizationID w"
    for entropy dek w x
    by (auto simp: mounted_def mounted_OrganizationID_def mounts_pair_def elim: WrapDEK_Inr)
qed

lemma provider_opened:
  assumes "newRotatingMountedProvider g r n k r' n' k' = Inr s"
  shows "\<not> ms_closed s \<and> ms_organizationID s = g \<and> ms_keyReference s = r \<and> ms_keyVersion s = n \<and> ms_key s = k
    \<and> 1 \<le> n \<and> n \<le> 9007199254740991 \<and> validKEKReference r \<and> length k = kekBytes
    \<and> (case k' of None \<Rightarrow> ms_prevKeyVersion s = 0
       | Some key \<Rightarrow> ms_prevKeyReference s = r' \<and> ms_prevKeyVersion s = n' \<and> ms_prevKey s = key \<and> 1 \<le> n' \<and> n' \<le> 9007199254740991 \<and> n' \<noteq> n
          \<and> validKEKReference r' \<and> length key = kekBytes)"
  using assms by (auto simp: newRotatingMountedProvider_def Let_def not_less split: if_splits option.splits)

lemma seal_pair:
  assumes "Seal e (mounted e s) dekRead nonceRead wrapRead w plaintext = Inr v"
  shows "en_kekReference v = ms_keyReference s \<and> en_kekVersion v = ms_keyVersion s \<and> en_owner v = w \<and> ow_organizationID w = ms_organizationID s"
  using assms
  by (auto simp: Seal_def Let_def NewEnvelopeFromStorage_def mounted_def split: if_splits option.splits sum.splits elim!: WrapDEK_Inr)

text \<open>A provider that mounts no pair of this reference and version refuses.\<close>

lemma open_unknown_pair:
  assumes "mounted_pair t \<lparr>wd_keyReference = en_kekReference v, wd_keyVersion = en_kekVersion v, wd_bytes = en_wrappedDEK v\<rparr> = None \<or> ms_closed t"
  shows "Open e (mounted e t) w v = Inl CodeOpenRejected"
proof -
  have "\<exists>c. UnwrapDEK e t \<lparr>wd_keyReference = en_kekReference v, wd_keyVersion = en_kekVersion v, wd_bytes = en_wrappedDEK v\<rparr> w = Inl c"
    using assms by (auto simp: UnwrapDEK_def)
  then show ?thesis by (auto simp: Open_def mounted_def split: option.splits)
qed

section \<open>Guarantees\<close>

text \<open>C33. A sealed artifact opens to its plaintext under the provider that sealed it, and under every provider of a rotation
  that mounts that pair as its previous one; a closed provider and one that mounts another pair refuse.\<close>

theorem seal_open_roundtrip:
  assumes "aead_correct e" "newRotatingMountedProvider g r n k pr pn pk = Inr s" "length wrapNonce = wrapNonceBytes"
    and "Seal e (mounted e s) dekRead nonceRead (Some wrapNonce) w plaintext = Inr v"
  shows "Open e (mounted e s) w v = Inr plaintext
    \<and> (\<forall>r' n' k' t. newRotatingMountedProvider g r' n' k' r n (Some k) = Inr t \<longrightarrow> Open e (mounted e t) w v = Inr plaintext)
    \<and> (\<forall>t. ms_closed t \<or> ((r, n) \<noteq> (ms_keyReference t, ms_keyVersion t) \<and> (r, n) \<noteq> (ms_prevKeyReference t, ms_prevKeyVersion t))
         \<longrightarrow> Open e (mounted e t) w v = Inl CodeOpenRejected)"
proof (intro conjI allI impI)
  note p = provider_opened [OF assms(2)]
  have "mounts_pair s s" using p by (simp add: mounts_pair_def)
  then show "Open e (mounted e s) w v = Inr plaintext" using mounted_kw.seal_open [OF _ assms(1,3,4)] assms(1) by blast
  show "Open e (mounted e t) w v = Inr plaintext" if "newRotatingMountedProvider g r' n' k' r n (Some k) = Inr t" for r' n' k' t
  proof -
    have "mounts_pair s t" using p provider_opened [OF that] by (auto simp: mounts_pair_def)
    then show ?thesis using mounted_kw.seal_open [OF _ assms(1,3,4)] assms(1) by blast
  qed
  show "Open e (mounted e t) w v = Inl CodeOpenRejected"
    if "ms_closed t \<or> ((r, n) \<noteq> (ms_keyReference t, ms_keyVersion t) \<and> (r, n) \<noteq> (ms_prevKeyReference t, ms_prevKeyVersion t))" for t
    by (rule open_unknown_pair) (use that p seal_pair [OF assms(4)] in \<open>auto simp: mounted_pair_def\<close>)
qed

lemma Seal_Inr:
  assumes "Seal e p dekRead nonceRead wrapRead w plaintext = Inr v"
  obtains aad where "artifactAAD w = Some aad" "en_aadHash v = hashDigest e aad" "en_owner v = w"
  using assms by (auto simp: Seal_def Let_def NewEnvelopeFromStorage_def split: if_splits option.splits sum.splits)

lemma Open_iff:
  "Open e p w v = Inr plaintext \<longleftrightarrow> owner_valid w \<and> validShape v \<and> kp_OrganizationID p = ow_organizationID w \<and> en_owner v = w
    \<and> (\<exists>aad dek. artifactAAD w = Some aad \<and> hashDigest e aad = en_aadHash v
       \<and> kp_UnwrapDEK p \<lparr>wd_keyReference = en_kekReference v, wd_keyVersion = en_kekVersion v, wd_bytes = en_wrappedDEK v\<rparr> w = Inr dek
       \<and> length dek = dekBytes \<and> newAEAD_ok dek \<and> ce_Open e dek (en_nonce v) (en_ciphertext v) aad = Some plaintext
       \<and> int (length plaintext) = en_sizeBytes v \<and> hashDigest e plaintext = en_plaintextHash v)"
proof (cases "\<not> owner_valid w \<or> \<not> validShape v \<or> kp_OrganizationID p \<noteq> ow_organizationID w \<or> w \<noteq> en_owner v")
  case True
  then show ?thesis by (auto simp: Open_def)
next
  case False
  let ?x = "\<lparr>wd_keyReference = en_kekReference v, wd_keyVersion = en_kekVersion v, wd_bytes = en_wrappedDEK v\<rparr>"
  from False have ok: "owner_valid w" "validShape v" "kp_OrganizationID p = ow_organizationID w" "w = en_owner v" by blast+
  obtain aad where aad: "artifactAAD w = Some aad" using ok(1) artifactAAD_owner by blast
  show ?thesis
  proof (cases "hashDigest e aad = en_aadHash v \<and> (\<exists>dek. kp_UnwrapDEK p ?x w = Inr dek)")
    case False
    then have "Open e p w v = Inl CodeOpenRejected" using ok(1-3) ok(4) [symmetric] aad
      by (cases "kp_UnwrapDEK p ?x w") (simp_all add: Open_def)
    moreover have "\<not> (\<exists>aad dek. artifactAAD w = Some aad \<and> hashDigest e aad = en_aadHash v \<and> kp_UnwrapDEK p ?x w = Inr dek)"
      using False aad by auto
    ultimately show ?thesis by auto
  next
    case True
    then obtain dek where d: "hashDigest e aad = en_aadHash v" "kp_UnwrapDEK p ?x w = Inr dek" by blast
    have "Open e p w v = (if length dek \<noteq> dekBytes \<or> \<not> newAEAD_ok dek then Inl CodeOpenRejected
        else case ce_Open e dek (en_nonce v) (en_ciphertext v) aad of None \<Rightarrow> Inl CodeOpenRejected
          | Some q \<Rightarrow> if int (length q) \<noteq> en_sizeBytes v \<or> hashDigest e q \<noteq> en_plaintextHash v then Inl CodeOpenRejected else Inr q)"
      using ok(1-3) ok(4) [symmetric] aad d by (simp add: Open_def)
    then show ?thesis using ok aad d by (auto split: option.splits)
  qed
qed

lemma Open_Inr:
  assumes "Open e p w v = Inr plaintext"
  obtains aad dek where "artifactAAD w = Some aad" "hashDigest e aad = en_aadHash v" "en_owner v = w"
    "ce_Open e dek (en_nonce v) (en_ciphertext v) aad = Some plaintext"
  using assms unfolding Open_iff by blast

text \<open>C34. An artifact is bound to its owner: what opens for another owner than the one it was sealed for, with its columns moved
  to the other row, is a SHA-256 collision of the two owners' authenticated data; and if other columns are replaced too, the
  cipher still has to accept the ciphertext under data it was not sealed with.\<close>

theorem artifact_owner_bound:
  assumes "Seal e p dekRead nonceRead wrapRead w plaintext = Inr v" "Open e p' w' u = Inr opened" "w' \<noteq> w"
    "en_nonce u = en_nonce v" "en_ciphertext u = en_ciphertext v"
  shows "\<exists>a b. artifactAAD w = Some a \<and> artifactAAD w' = Some b \<and> a \<noteq> b
    \<and> (en_aadHash u = en_aadHash v \<longrightarrow> ce_sha256 e a = ce_sha256 e b)
    \<and> (\<exists>k. ce_Open e k (en_nonce v) (en_ciphertext v) b = Some opened)"
proof -
  from assms(1) obtain a where a: "artifactAAD w = Some a" "en_aadHash v = hashDigest e a" by (rule Seal_Inr)
  from assms(2) obtain b dek where b: "artifactAAD w' = Some b" "hashDigest e b = en_aadHash u"
    "ce_Open e dek (en_nonce u) (en_ciphertext u) b = Some opened" by (rule Open_Inr)
  have "a \<noteq> b" using artifactAAD_inj [OF a(1), of w'] b(1) assms(3) by blast
  moreover have "ce_sha256 e a = ce_sha256 e b" if "en_aadHash u = en_aadHash v"
  proof -
    from that a(2) b(2) have "hashDigest e a = hashDigest e b" by metis
    then have "hex_encode (ce_sha256 e a) = hex_encode (ce_sha256 e b)" unfolding hashDigest_def by (rule same_append_eq [THEN iffD1])
    then show ?thesis by (rule hex_encode_inj)
  qed
  moreover have "ce_Open e dek (en_nonce v) (en_ciphertext v) b = Some opened" using b(3) assms(4,5) by simp
  ultimately show ?thesis using a(1) b(1) by blast
qed

text \<open>The registry is closed and reversible: the two constructors make exactly the valid owners, and the tuple of columns
  of an owner gives the owner back; so a selector and a row of the database name the same owner.\<close>

theorem owner_registry_closed:
  "(owner_valid w \<longleftrightarrow> (\<exists>s. NewOwnerIdentity s (ow_organizationID w) (ow_resourceID w) = Inr w))
   \<and> (owner_valid w \<longleftrightarrow> NewOwnerIdentityFromTuple (ow_ownerTable w) (ow_ownerColumn w) (ow_resourceType w) (ow_field w)
        (ow_organizationID w) (ow_resourceID w) = Inr w)
   \<and> NewOwnerIdentity OwnerFieldInvalid g k = Inl CodeUnknownOwner \<and> NewOwnerIdentity OwnerFieldSentinel g k = Inl CodeUnknownOwner"
proof (intro conjI)
  let ?t = "(ow_ownerTable w, ow_ownerColumn w, ow_resourceType w, ow_field w)"
  have valid: "owner_valid w \<Longrightarrow> \<exists>d. d \<in> set ownerInventory \<and> owner_tuple d = ?t \<and> registryByTuple ?t = Some d
      \<and> w = owner_of d (ow_organizationID w) (ow_resourceID w)
      \<and> ac_validIdentifier (ow_organizationID w) 128 \<and> ac_validIdentifier (ow_resourceID w) 256"
    by (auto simp: owner_valid_def owner_of_def owner_tuple_def dest: registry_in(1) split: if_splits option.splits)
  show "owner_valid w \<longleftrightarrow> (\<exists>s. NewOwnerIdentity s (ow_organizationID w) (ow_resourceID w) = Inr w)"
  proof
    assume "owner_valid w"
    with valid obtain d where d: "d \<in> set ownerInventory" "w = owner_of d (ow_organizationID w) (ow_resourceID w)"
      "ac_validIdentifier (ow_organizationID w) 128" "ac_validIdentifier (ow_resourceID w) 256" by blast
    then have "NewOwnerIdentity (od_field d) (ow_organizationID w) (ow_resourceID w) = Inr w"
      using registry_lookup [OF d(1)] by (simp add: NewOwnerIdentity_def)
    then show "\<exists>s. NewOwnerIdentity s (ow_organizationID w) (ow_resourceID w) = Inr w" by blast
  next
    assume "\<exists>s. NewOwnerIdentity s (ow_organizationID w) (ow_resourceID w) = Inr w"
    then obtain s d where "ownerByField s = Some d" "ac_validIdentifier (ow_organizationID w) 128" "ac_validIdentifier (ow_resourceID w) 256"
      "owner_of d (ow_organizationID w) (ow_resourceID w) = w"
      by (auto simp: NewOwnerIdentity_def split: option.splits if_splits)
    then show "owner_valid w" using owner_of_valid registry_in(2) by metis
  qed
  show "owner_valid w \<longleftrightarrow> NewOwnerIdentityFromTuple (ow_ownerTable w) (ow_ownerColumn w) (ow_resourceType w) (ow_field w)
        (ow_organizationID w) (ow_resourceID w) = Inr w"
  proof
    assume "owner_valid w"
    with valid obtain d where d: "registryByTuple ?t = Some d" "w = owner_of d (ow_organizationID w) (ow_resourceID w)"
      "ac_validIdentifier (ow_organizationID w) 128" "ac_validIdentifier (ow_resourceID w) 256" by blast
    then show "NewOwnerIdentityFromTuple (ow_ownerTable w) (ow_ownerColumn w) (ow_resourceType w) (ow_field w)
        (ow_organizationID w) (ow_resourceID w) = Inr w" by (simp add: NewOwnerIdentityFromTuple_def)
  next
    assume "NewOwnerIdentityFromTuple (ow_ownerTable w) (ow_ownerColumn w) (ow_resourceType w) (ow_field w)
        (ow_organizationID w) (ow_resourceID w) = Inr w"
    then obtain d where "registryByTuple ?t = Some d" "ac_validIdentifier (ow_organizationID w) 128" "ac_validIdentifier (ow_resourceID w) 256"
      "owner_of d (ow_organizationID w) (ow_resourceID w) = w"
      by (auto simp: NewOwnerIdentityFromTuple_def split: option.splits if_splits)
    then show "owner_valid w" using owner_of_valid registry_in(1) by metis
  qed
  show "NewOwnerIdentity OwnerFieldInvalid g k = Inl CodeUnknownOwner" "NewOwnerIdentity OwnerFieldSentinel g k = Inl CodeUnknownOwner"
    by (simp_all add: NewOwnerIdentity_def ownerByField_def ownerInventory_def)
qed

section \<open>An instance\<close>

text \<open>A cipher that opens what it sealed: the tag is made of the key and the length of the authenticated data.\<close>

definition sample_tag :: "gostring \<Rightarrow> gostring \<Rightarrow> gostring" where
  "sample_tag k a = replicate 8 (char_of (length a)) @ replicate 8 (hd k)"

definition sample_crypto :: crypto_env where
  "sample_crypto = \<lparr>ce_Seal = (\<lambda>k n p a. p @ sample_tag k a),
     ce_Open = (\<lambda>k n c a. if 16 \<le> length c \<and> drop (length c - 16) c = sample_tag k a then Some (take (length c - 16) c) else None),
     ce_sha256 = (\<lambda>_. replicate 32 (CHR ''0''))\<rparr>"

lemma sample_aead: "aead_correct sample_crypto"
  by (simp add: aead_correct_def sample_crypto_def sample_tag_def)

definition sample_owner :: "gostring \<Rightarrow> owner_identity" where
  "sample_owner k = owner_of (owner_row QuestionText ''question_run'' ''question_text_artifact_id'' ''QUESTION_RUN'' ''QUESTION_TEXT'') ''org-1'' k"

definition sample_key :: "char \<Rightarrow> gostring" where
  "sample_key c = replicate 32 c"

definition sample_mount :: mounted_state where
  "sample_mount = \<lparr>ms_closed = False, ms_organizationID = ''org-1'', ms_keyReference = ''kek-a'', ms_keyVersion = 4, ms_key = sample_key (CHR ''a''),
     ms_prevKeyReference = [], ms_prevKeyVersion = 0, ms_prevKey = replicate kekBytes (CHR 0x00)\<rparr>"

lemma sample_mounted: "newRotatingMountedProvider ''org-1'' ''kek-a'' 4 (sample_key (CHR ''a'')) [] 0 None = Inr sample_mount"
  by code_simp

definition sample_sealed :: "gostring \<Rightarrow> crypto_error + artifact_envelope" where
  "sample_sealed k = Seal sample_crypto (mounted sample_crypto sample_mount) (Some (sample_key (CHR ''d''))) (Some (replicate 12 (CHR ''n'')))
     (Some (replicate 12 (CHR ''m''))) (sample_owner k) ''What is due?''"

lemma sample_owners: "owner_valid (sample_owner ''run-1'')" "owner_valid (sample_owner ''run-2'')"
  by code_simp+

text \<open>The envelope of the sample, for any authenticated data.\<close>

definition sample_envelope :: "owner_identity \<Rightarrow> gostring \<Rightarrow> gostring \<Rightarrow> artifact_envelope" where
  "sample_envelope w aad wrap_aad =
    (let wrapped = wrappedHeader @ replicate 12 (CHR ''m'') @ sample_key (CHR ''d'') @ sample_tag (sample_key (CHR ''a'')) wrap_aad in
     NewEnvelopeFromStorage w CipherAES256GCM (''What is due?'' @ sample_tag (sample_key (CHR ''d'')) aad) 12 (replicate 12 (CHR ''n''))
       wrapped (hashDigest sample_crypto wrapped) ''kek-a'' 4 (hashDigest sample_crypto aad) (hashDigest sample_crypto ''What is due?''))"

lemma sample_aads:
  assumes "owner_valid w"
  shows "\<exists>a b. artifactAAD w = Some a \<and> wrapAAD w ''kek-a'' 4 = Some b"
proof -
  have "valid_utf8 ''kek-a''" by code_simp
  then show ?thesis using assms by (simp add: artifactAAD_def wrapAAD_def)
qed

lemmas sample_defs = mounted_def mounted_OrganizationID_def sample_mount_def newAEAD_ok_def sample_key_def sample_crypto_def
  sample_tag_def dekBytes_def wrapNonceBytes_def wrappedDEKMinLen_def wrappedHeader_def maxPlaintextBytes_def gcmTagLen_def
  artifactNonceLen_def validShape_def NewEnvelopeFromStorage_def

lemma sample_seals:
  assumes "owner_valid (sample_owner k)" "artifactAAD (sample_owner k) = Some a" "wrapAAD (sample_owner k) ''kek-a'' 4 = Some b"
  shows "sample_sealed k = Inr (sample_envelope (sample_owner k) a b)"
proof -
  have nz: "hasNonZeroByte (sample_key (CHR ''d''))" by code_simp
  have g: "ow_organizationID (sample_owner k) = ''org-1''" by (simp add: sample_owner_def owner_of_def)
  from nz g assms show ?thesis
    by (simp add: sample_sealed_def sample_envelope_def Seal_def Let_def WrapDEK_def sample_defs)
qed

text \<open>Two owners whose authenticated data have the same lengths are the same to the sample cipher and digest.\<close>

lemma sample_opens:
  assumes "owner_valid (sample_owner k')" "artifactAAD (sample_owner k') = Some a'" "wrapAAD (sample_owner k') ''kek-a'' 4 = Some b'"
    "length a = length a'" "length b = length b'"
  shows "Open sample_crypto (mounted sample_crypto sample_mount) (sample_owner k')
    ((sample_envelope w a b)\<lparr>en_owner := sample_owner k'\<rparr>) = Inr ''What is due?''"
proof -
  have g: "ow_organizationID (sample_owner k') = ''org-1''" by (simp add: sample_owner_def owner_of_def)
  from g assms show ?thesis
    by (simp add: sample_envelope_def Open_def Let_def UnwrapDEK_def mounted_pair_def hashDigest_def sample_defs)
qed

lemma sample_lengths:
  "map_option length (artifactAAD (sample_owner ''run-1'')) = map_option length (artifactAAD (sample_owner ''run-2''))"
  "map_option length (wrapAAD (sample_owner ''run-1'') ''kek-a'' 4) = map_option length (wrapAAD (sample_owner ''run-2'') ''kek-a'' 4)"
  by code_simp+

lemma seal_open_roundtrip_witness:
  "\<exists>v. sample_sealed ''run-1'' = Inr v \<and> Open sample_crypto (mounted sample_crypto sample_mount) (sample_owner ''run-1'') v = Inr ''What is due?''"
proof -
  from sample_aads [OF sample_owners(1)] sample_seals [OF sample_owners(1)] obtain v where v: "sample_sealed ''run-1'' = Inr v" by blast
  with seal_open_roundtrip [OF sample_aead sample_mounted, of "replicate 12 (CHR ''m'')"] show ?thesis
    by (auto simp: sample_sealed_def wrapNonceBytes_def)
qed

lemma artifact_owner_bound_witness:
  "\<exists>a b. artifactAAD (sample_owner ''run-1'') = Some a \<and> artifactAAD (sample_owner ''run-2'') = Some b \<and> a \<noteq> b
    \<and> ce_sha256 sample_crypto a = ce_sha256 sample_crypto b"
proof -
  from sample_aads [OF sample_owners(1)] obtain a b where a: "artifactAAD (sample_owner ''run-1'') = Some a" "wrapAAD (sample_owner ''run-1'') ''kek-a'' 4 = Some b"
    by blast
  from sample_aads [OF sample_owners(2)] obtain a' b' where b: "artifactAAD (sample_owner ''run-2'') = Some a'" "wrapAAD (sample_owner ''run-2'') ''kek-a'' 4 = Some b'"
    by blast
  from sample_lengths a b have "length a = length a'" "length b = length b'" by simp_all
  note opened = sample_opens [OF sample_owners(2) b this, of "sample_owner ''run-1''"]
  have other: "sample_owner ''run-2'' \<noteq> sample_owner ''run-1''" by (simp add: sample_owner_def owner_of_def)
  from artifact_owner_bound [OF sample_seals [OF sample_owners(1) a, unfolded sample_sealed_def] opened other] show ?thesis by auto
qed

end
