(* ===== verification/Rotation_Safety.thy ===== *)
theory Rotation_Safety
  imports Rotation Job_Safety Artifact_Seal Audit_Guarantees
begin

text \<open>
  What a key rotation guarantees, and what it does not: a window closes only when no wrapper is left under the previous pair;
  a re-wrapped artifact opens as before if the mounted active pair is the registered one, and is lost otherwise; and a
  domain's second rotation gets no job.
\<close>

section \<open>Beginning\<close>

lemma enqueue_known_key:
  assumes "i \<in> set (jt_Jobs t)" "jb_Key i = js_IdempotencyKey s" "EnqueueInTransaction active check now s t = Inr (k, t')"
  shows "t' = t"
proof -
  from assms(3) obtain payload where e: "enqueue_job active check now s payload t = Inr (k, t')"
    by (auto simp: EnqueueInTransaction_def split: if_splits option.splits sum.splits)
  have "List.find (\<lambda>i. jb_Key i = js_IdempotencyKey s) (jt_Jobs t) \<noteq> None" using assms(1,2) by (auto simp: find_None_iff)
  then show ?thesis using e by (auto simp: enqueue_job_def Let_def split: if_splits option.splits)
qed

lemma enqueue_key_known:
  assumes "EnqueueInTransaction active check now s t = Inr (k, t')" "job_by_id (js_JobID s) t = None"
  shows "\<exists>i \<in> set (jt_Jobs t'). jb_Key i = js_IdempotencyKey s"
proof -
  from assms(1) obtain payload where e: "enqueue_job active check now s payload t = Inr (k, t')"
    by (auto simp: EnqueueInTransaction_def split: if_splits option.splits sum.splits)
  then show ?thesis using assms(2)
    by (auto simp: enqueue_job_def Let_def find_Some_iff in_set_conv_nth split: if_splits option.splits) (metis nth_mem)
qed

lemma append_event_Inr:
  assumes "append_event r a i db = Inr (u, db')"
  shows "\<exists>x au. AppendInTransaction (ro_store r) (ro_fault r) a i (rd_audit db) = Inr (x, au) \<and> db' = db\<lparr>rd_audit := au\<rparr>"
  using assms by (auto simp: append_event_def split: sum.splits prod.splits)

lemma begin_work_Inr:
  assumes "begin_work r a eventID jobID domain pref pver aref aver db = Inr (u, db')"
  obtains rows k jobs x au where "rotation_begin r domain pref pver aref aver (rd_rotations db) = Inr rows"
    "EnqueueInTransaction (ro_active r) (ro_jobCheck r) (ro_clock r) (rotation_job jobID (domain_job domain) (begin_key domain)) (rd_jobs db) = Inr (k, jobs)"
    "AppendInTransaction (ro_store r) (ro_fault r) a (rotation_success a ActionKeyRotationBegin eventID domain aref aver (ro_now r)) (rd_audit db) = Inr (x, au)"
    "db' = db\<lparr>rd_rotations := rows, rd_jobs := jobs, rd_audit := au\<rparr>"
  using assms
  by (auto simp: begin_work_def enqueue_rotation_def appendRotationSuccessAudit_def split: sum.splits prod.splits dest!: append_event_Inr)

lemma refusal_keeps: "rd_jobs (appendRefusalAudit r a newID action domain code db) = rd_jobs db
  \<and> rd_rotations (appendRefusalAudit r a newID action domain code db) = rd_rotations db
  \<and> rd_artifacts (appendRefusalAudit r a newID action domain code db) = rd_artifacts db"
proof -
  have "\<exists>au. snd (job_write fate a id (append_event r a i) db) = db\<lparr>rd_audit := au\<rparr>" for fate i
  proof (cases "append_event r a i db")
    case (Inl c)
    then show ?thesis using job_write_same [of "append_event r a i" db c fate a id] by (metis rotation_db.surjective rotation_db.update_convs(4))
  next
    case (Inr p)
    then obtain u db' where p: "append_event r a i db = Inr (u, db')" by (cases p) auto
    then obtain au where "db' = db\<lparr>rd_audit := au\<rparr>" using append_event_Inr by blast
    moreover have "snd (job_write fate a id (append_event r a i) db) \<in> {db, db'}" using p by (cases fate) (auto simp: job_write_def)
    ultimately show ?thesis by (metis insertE rotation_db.surjective rotation_db.update_convs(4) singletonD)
  qed
  then show ?thesis unfolding appendRefusalAudit_def by (cases newID) (simp, (metis (no_types, lifting) option.simps(5) rotation_db.select_convs rotation_db.surjective rotation_db.update_convs(4)))
qed

text \<open>The tables after a call of \<open>Begin\<close>, whatever it answers: those of before, or those of its transaction.\<close>

lemma begin_tables:
  assumes "rotation_Begin r r' a auditID jobID refusalID domain pref pver aref aver db = (err, db')"
  shows "(rd_jobs db' = rd_jobs db \<and> rd_rotations db' = rd_rotations db \<and> err \<noteq> None)
    \<or> (\<exists>eventID job u db''. auditID = Some eventID \<and> jobID = Some job
        \<and> begin_work r a eventID job domain pref pver aref aver db = Inr (u, db'') \<and> rd_jobs db' = rd_jobs db'' \<and> rd_rotations db' = rd_rotations db'')"
proof (cases "\<exists>eventID job. auditID = Some eventID \<and> jobID = Some job \<and> access_Validate a \<and> validDomain domain \<and> validReference pref
    \<and> validReference aref \<and> validVersion pver \<and> validVersion aver \<and> \<not> (pref = aref \<and> pver = aver)")
  case False
  with assms show ?thesis by (auto simp: rotation_Begin_def split: if_splits option.splits)
next
  case True
  then obtain eventID job where ids: "auditID = Some eventID" "jobID = Some job" by blast
  from True have ok: "access_Validate a" "validDomain domain" "validReference pref" "validReference aref" "validVersion pver" "validVersion aver"
    and new: "(pref = aref \<and> pver = aver) = False" by blast+
  let ?w = "begin_work r a eventID job domain pref pver aref aver"
  have call: "(err, db') = (case job_write (ro_fate r) a id ?w db of
      (Inl code, d) \<Rightarrow> (Some (refusalCode code), appendRefusalAudit r' a refusalID ActionKeyRotationBegin domain code d) | (Inr _, d) \<Rightarrow> (None, d))"
    using assms unfolding rotation_Begin_def new ids by (simp add: ok)
  show ?thesis
  proof (cases "?w db")
    case (Inl c)
    then have "snd (job_write (ro_fate r) a id ?w db) = db" "\<And>x. fst (job_write (ro_fate r) a id ?w db) \<noteq> Inr x"
      using job_write_same by fastforce+
    then show ?thesis using call refusal_keeps by (auto split: prod.splits sum.splits)
  next
    case (Inr p)
    then obtain u db'' where p: "?w db = Inr (u, db'')" by (cases p) auto
    have "job_write (ro_fate r) a id ?w db = (Inr u, db'') \<or> (\<exists>c. job_write (ro_fate r) a id ?w db = (Inl c, db) \<or> job_write (ro_fate r) a id ?w db = (Inl c, db''))"
      using p by (cases "ro_fate r") (auto simp: job_write_def)
    then show ?thesis using call p ids refusal_keeps by (auto split: prod.splits)
  qed
qed

text \<open>C40. A domain gets a job for its first rotation only. \<open>Begin\<close> places the job of a rotation under an idempotency key
  that names the domain alone, and the queue answers a known key with the old job: whatever the job tables went through
  after a \<open>Begin\<close> that succeeded, a later one of that domain adds no job, whether it succeeds or not.\<close>

theorem second_begin_has_no_driver:
  assumes "job_step\<^sup>*\<^sup>* no_jobs (rd_jobs db)" "\<forall>k. jobID = Some k \<longrightarrow> job_by_id k (rd_jobs db) = None"
    and first: "rotation_Begin r r' a auditID jobID refusalID domain pref pver aref aver db = (None, db1)"
    and later: "job_step\<^sup>*\<^sup>* (rd_jobs db1) (rd_jobs db2)"
  shows "rd_jobs (snd (rotation_Begin q q' b auditID' jobID' refusalID' domain pref' pver' aref' aver' db2)) = rd_jobs db2"
proof -
  from begin_tables [OF first] obtain eventID job u db'' where ids: "jobID = Some job" and rd: "rd_jobs db1 = rd_jobs db''"
    and w: "begin_work r a eventID job domain pref pver aref aver db = Inr (u, db'')" by auto
  have placed: "\<exists>i \<in> set (jt_Jobs (rd_jobs db1)). jb_Key i = begin_key domain" and step: "job_step\<^sup>*\<^sup>* (rd_jobs db) (rd_jobs db1)"
  proof -
    from w obtain k jobs where e: "EnqueueInTransaction (ro_active r) (ro_jobCheck r) (ro_clock r)
        (rotation_job job (domain_job domain) (begin_key domain)) (rd_jobs db) = Inr (k, jobs)" "rd_jobs db'' = jobs"
      by (rule begin_work_Inr) auto
    from enqueue_key_known [OF e(1)] assms(2) ids show "\<exists>i \<in> set (jt_Jobs (rd_jobs db1)). jb_Key i = begin_key domain"
      by (simp add: rd e(2) rotation_job_def)
    from e(1) have "\<exists>payload. enqueue_job (ro_active r) (ro_jobCheck r) (ro_clock r)
        (rotation_job job (domain_job domain) (begin_key domain)) payload (rd_jobs db) = Inr (k, jobs)"
      by (auto simp: EnqueueInTransaction_def split: if_splits option.splits sum.splits)
    then show "job_step\<^sup>*\<^sup>* (rd_jobs db) (rd_jobs db1)" using rd e(2) by (auto intro: job_step.intros)
  qed
  have inv: "jobs_inv (rd_jobs db1)" using steps_later [OF step reachable_jobs_inv [OF assms(1)]] by blast
  from placed obtain i where i: "i \<in> set (jt_Jobs (rd_jobs db1))" "jb_Key i = begin_key domain" by blast
  with inv have "job_by_id (jb_ID i) (rd_jobs db1) = Some i" by (intro job_by_id_in) (simp_all add: jobs_inv_def)
  with steps_later [OF later inv] obtain j where j: "job_by_id (jb_ID i) (rd_jobs db2) = Some j" "jb_Key j = jb_Key i"
    unfolding tables_later_def job_later_def by blast
  then have known: "j \<in> set (jt_Jobs (rd_jobs db2))" "jb_Key j = begin_key domain" using job_by_id_Some i(2) by auto
  obtain err db3 where second: "rotation_Begin q q' b auditID' jobID' refusalID' domain pref' pver' aref' aver' db2 = (err, db3)" by fastforce
  from begin_tables [OF second] show ?thesis
  proof (elim disjE exE conjE)
    fix eventID' job' u' d
    assume d: "begin_work q b eventID' job' domain pref' pver' aref' aver' db2 = Inr (u', d)" "rd_jobs db3 = rd_jobs d"
    from d(1) have "rd_jobs d = rd_jobs db2"
      by (rule begin_work_Inr) (use known enqueue_known_key in \<open>force simp: rotation_job_def\<close>)
    then show ?thesis by (simp add: second d(2))
  qed (simp add: second)
qed

text \<open>A reference of more than 256 bytes can be mounted and passes the check of \<open>Begin\<close>, which allows 1024, but no rotation to it
  can begin: the event of the success is invalid, so every attempt is rolled back.\<close>

lemma append_valid:
  assumes "AppendInTransaction e fault a i db = Inr (x, db')"
  shows "validateInput i"
  using assms
  by (auto simp: AppendInTransaction_def appendInTransaction_def Let_def Build_def split: option.splits sum.splits if_splits append_error.splits audit_error.splits)

lemma long_reference_never_begins:
  assumes "length aref > 256" "rotation_Begin r r' a auditID jobID refusalID domain pref pver aref aver db = (err, db')"
  shows "err \<noteq> None \<and> rd_rotations db' = rd_rotations db \<and> rd_jobs db' = rd_jobs db"
proof -
  have "begin_work r a eventID job domain pref pver aref aver db \<noteq> Inr (u, d)" for eventID job u d
  proof
    assume "begin_work r a eventID job domain pref pver aref aver db = Inr (u, d)"
    then obtain x au where "AppendInTransaction (ro_store r) (ro_fault r) a
        (rotation_success a ActionKeyRotationBegin eventID domain aref aver (ro_now r)) (rd_audit db) = Inr (x, au)" by (rule begin_work_Inr)
    then have "validateInput (rotation_success a ActionKeyRotationBegin eventID domain aref aver (ro_now r))" by (rule append_valid)
    then have "au_validID aref" by (simp add: validateInput_def rotation_success_def split: if_split_asm)
    then show False using assms(1) by (simp add: au_validID_def)
  qed
  then show ?thesis using begin_tables [OF assms(2)] by blast
qed

section \<open>Re-wrapping one artifact\<close>

text \<open>What a re-wrap writes into a row.\<close>

definition rewrapped :: "rotation_state \<Rightarrow> gostring \<Rightarrow> gostring \<Rightarrow> gostring \<Rightarrow> gostring \<Rightarrow> artifact_row \<Rightarrow> artifact_row" where
  "rewrapped x nonce wrapped wrappedHash aadHash f = f\<lparr>af_nonce := nonce, af_wrappedDEK := wrapped, af_wrappedDEKHash := wrappedHash,
     af_kekReference := rs_activeRef x, af_kekVersion := rs_activeVersion x, af_aadHash := aadHash\<rparr>"

definition under_previous :: "rotation_state \<Rightarrow> artifact_row \<Rightarrow> bool" where
  "under_previous x f \<longleftrightarrow> \<not> af_purged f \<and> af_kekReference f = rs_previousRef x \<and> af_kekVersion f = rs_previousVersion x"

lemma artifact_rewrap_Inr:
  assumes "artifact_rewrap r k (rs_previousRef y) (rs_previousVersion y) (rs_activeRef y) (rs_activeVersion y) nonce wrapped wrappedHash aadHash
    jobID worker epoch db = Inr db'"
  obtains x where "rd_rotations db DomainKEK = Some x" "rs_previousRef x = rs_previousRef y" "rs_previousVersion x = rs_previousVersion y"
    "rs_activeRef x = rs_activeRef y" "rs_activeVersion x = rs_activeVersion y" "62 \<le> length wrapped"
    "\<exists>f \<in> set (rd_artifacts db). af_id f = k \<and> under_previous y f"
    "db' = db\<lparr>rd_artifacts := map (\<lambda>f. if af_id f = k \<and> under_previous y f then rewrapped y nonce wrapped wrappedHash aadHash f else f) (rd_artifacts db),
       rd_rotations := (rd_rotations db)(DomainKEK \<mapsto> x\<lparr>rs_watermark := rs_watermark x + 1\<rparr>)\<rparr>"
proof -
  let ?hit = "\<lambda>f. af_id f = k \<and> \<not> af_purged f \<and> af_kekReference f = rs_previousRef y \<and> af_kekVersion f = rs_previousVersion y"
  from assms have w: "62 \<le> length wrapped" by (simp add: artifact_rewrap_def split: if_split_asm)
  from assms obtain x where x: "rd_rotations db DomainKEK = Some x" "rs_previousRef x = rs_previousRef y" "rs_previousVersion x = rs_previousVersion y"
    "rs_activeRef x = rs_activeRef y" "rs_activeVersion x = rs_activeVersion y"
    by (auto simp: artifact_rewrap_def split: if_split_asm option.split_asm)
  from assms x obtain f fs where f: "filter ?hit (rd_artifacts db) = f # fs"
    by (cases "filter ?hit (rd_artifacts db)") (auto simp: artifact_rewrap_def Let_def split: if_split_asm option.split_asm)
  then have "f \<in> set (filter ?hit (rd_artifacts db))" by simp
  then have "\<exists>f \<in> set (rd_artifacts db). af_id f = k \<and> under_previous y f" by (auto simp: under_previous_def)
  moreover have "db' = db\<lparr>rd_artifacts := map (\<lambda>f. if af_id f = k \<and> under_previous y f then rewrapped y nonce wrapped wrappedHash aadHash f else f) (rd_artifacts db),
       rd_rotations := (rd_rotations db)(DomainKEK \<mapsto> x\<lparr>rs_watermark := rs_watermark x + 1\<rparr>)\<rparr>"
    using assms x f by (simp add: artifact_rewrap_def Let_def under_previous_def rewrapped_def cong: if_cong split: if_split_asm option.split_asm)
  ultimately show ?thesis using that x w by blast
qed

lemma rewrapOne_Inr:
  assumes "rewrapOne e s r a worker claimed y entropy c db = Inr db'"
  obtains w dek x nonce aad where
    "NewOwnerIdentityFromTuple (af_ownerTable c) (af_ownerColumn c) (af_resourceType c) (af_fieldName c) (ac_OrganizationID a) (af_resourceID c) = Inr w"
    "UnwrapDEK e s \<lparr>wd_keyReference = af_kekReference c, wd_keyVersion = af_kekVersion c, wd_bytes = af_wrappedDEK c\<rparr> w = Inr dek"
    "WrapDEK e s entropy dek w = Inr x"
    "artifact_rewrap r (af_id c) (rs_previousRef y) (rs_previousVersion y) (rs_activeRef y) (rs_activeVersion y)
       (af_nonce c) (wd_bytes x) (hashDigest e (wd_bytes x)) (af_aadHash c) (cj_ID claimed) worker (cj_LeaseEpoch claimed) db = Inr db'"
  using assms by (auto simp: rewrapOne_def split: if_split_asm sum.split_asm)

text \<open>The envelope a row is read back as.\<close>

definition row_envelope :: "owner_identity \<Rightarrow> artifact_row \<Rightarrow> artifact_envelope" where
  "row_envelope w f = NewEnvelopeFromStorage w CipherAES256GCM (af_ciphertext f) (af_sizeBytes f) (af_nonce f) (af_wrappedDEK f)
     (af_wrappedDEKHash f) (af_kekReference f) (af_kekVersion f) (af_aadHash f) (af_plaintextHash f)"

definition row_owner :: "access \<Rightarrow> artifact_row \<Rightarrow> crypto_error + owner_identity" where
  "row_owner a c = NewOwnerIdentityFromTuple (af_ownerTable c) (af_ownerColumn c) (af_resourceType c) (af_fieldName c) (ac_OrganizationID a) (af_resourceID c)"

lemma rewrap_row:
  assumes "distinct (map af_id (rd_artifacts db))" "c \<in> set (rd_artifacts db)"
    and "rewrapOne e s r a worker claimed y (Some nonce) c db = Inr db'"
  obtains w dek x where "row_owner a c = Inr w"
    "UnwrapDEK e s \<lparr>wd_keyReference = af_kekReference c, wd_keyVersion = af_kekVersion c, wd_bytes = af_wrappedDEK c\<rparr> w = Inr dek"
    "WrapDEK e s (Some nonce) dek w = Inr x" "wrappedDEKMinLen \<le> length (wd_bytes x)"
    "rewrapped y (af_nonce c) (wd_bytes x) (hashDigest e (wd_bytes x)) (af_aadHash c) c \<in> set (rd_artifacts db')"
    "set (rd_artifacts db') \<subseteq> insert (rewrapped y (af_nonce c) (wd_bytes x) (hashDigest e (wd_bytes x)) (af_aadHash c) c) (set (rd_artifacts db) - {c})"
  using assms(3)
proof (rule rewrapOne_Inr)
  fix w dek x
  assume w: "NewOwnerIdentityFromTuple (af_ownerTable c) (af_ownerColumn c) (af_resourceType c) (af_fieldName c) (ac_OrganizationID a) (af_resourceID c) = Inr w"
    "UnwrapDEK e s \<lparr>wd_keyReference = af_kekReference c, wd_keyVersion = af_kekVersion c, wd_bytes = af_wrappedDEK c\<rparr> w = Inr dek"
    "WrapDEK e s (Some nonce) dek w = Inr x"
    "artifact_rewrap r (af_id c) (rs_previousRef y) (rs_previousVersion y) (rs_activeRef y) (rs_activeVersion y)
       (af_nonce c) (wd_bytes x) (hashDigest e (wd_bytes x)) (af_aadHash c) (cj_ID claimed) worker (cj_LeaseEpoch claimed) db = Inr db'"
  let ?new = "rewrapped y (af_nonce c) (wd_bytes x) (hashDigest e (wd_bytes x)) (af_aadHash c)"
  from w(4) show ?thesis
  proof (rule artifact_rewrap_Inr)
    fix z
    assume z: "62 \<le> length (wd_bytes x)" "\<exists>f \<in> set (rd_artifacts db). af_id f = af_id c \<and> under_previous y f"
      "db' = db\<lparr>rd_artifacts := map (\<lambda>f. if af_id f = af_id c \<and> under_previous y f then ?new f else f) (rd_artifacts db),
       rd_rotations := (rd_rotations db)(DomainKEK \<mapsto> z\<lparr>rs_watermark := rs_watermark z + 1\<rparr>)\<rparr>"
    have only: "f = c" if "f \<in> set (rd_artifacts db)" "af_id f = af_id c" for f
      using assms(1,2) that by (auto simp: distinct_map inj_on_def)
    with z(2) have "under_previous y c" by blast
    then have "set (rd_artifacts db') = insert (?new c) (set (rd_artifacts db) - {c})" using only assms(2) by (auto simp: z(3))
    then show ?thesis using that [of w dek x] w(1-3) z(1)
      by (simp add: row_owner_def wrappedDEKMinLen_def wrapNonceBytes_def dekBytes_def)
  qed
qed

text \<open>C38. A re-wrapped artifact is still readable when the worker mounts the registered pair: if the provider's active pair is the
  active pair of the rotation, an artifact that opened before the re-wrap opens to the same plaintext afterwards, under every
  provider that mounts that pair, the one without the previous pair included; no other row changes.\<close>

theorem rewrap_keeps_artifact:
  assumes "aead_correct e" "distinct (map af_id (rd_artifacts db))" "c \<in> set (rd_artifacts db)" "length nonce = wrapNonceBytes"
    and pair: "rs_activeRef y = ms_keyReference s" "rs_activeVersion y = ms_keyVersion s"
    and rewrap: "rewrapOne e s r a worker claimed y (Some nonce) c db = Inr db'"
    and owner: "row_owner a c = Inr w" and before: "Open e (mounted e s) w (row_envelope w c) = Inr plaintext"
  shows "\<exists>c' \<in> set (rd_artifacts db'). af_id c' = af_id c \<and> (\<forall>t. mounts_pair s t \<longrightarrow> Open e (mounted e t) w (row_envelope w c') = Inr plaintext)
    \<and> set (rd_artifacts db') - {c'} \<subseteq> set (rd_artifacts db)"
  using assms(2,3) rewrap
proof (rule rewrap_row)
  fix w' dek x
  assume x: "row_owner a c = Inr w'"
    "UnwrapDEK e s \<lparr>wd_keyReference = af_kekReference c, wd_keyVersion = af_kekVersion c, wd_bytes = af_wrappedDEK c\<rparr> w' = Inr dek"
    "WrapDEK e s (Some nonce) dek w' = Inr x" "wrappedDEKMinLen \<le> length (wd_bytes x)"
    "rewrapped y (af_nonce c) (wd_bytes x) (hashDigest e (wd_bytes x)) (af_aadHash c) c \<in> set (rd_artifacts db')"
    "set (rd_artifacts db') \<subseteq> insert (rewrapped y (af_nonce c) (wd_bytes x) (hashDigest e (wd_bytes x)) (af_aadHash c) c) (set (rd_artifacts db) - {c})"
  let ?c = "rewrapped y (af_nonce c) (wd_bytes x) (hashDigest e (wd_bytes x)) (af_aadHash c) c"
  from owner x(1) have w': "w' = w" by simp
  have "wrapAAD w (ms_keyReference s) (ms_keyVersion s) \<noteq> None" using x(3) unfolding w' by (auto elim: WrapDEK_Inr)
  then have ref: "ms_keyReference s \<noteq> []" "1 \<le> ms_keyVersion s" by (auto simp: wrapAAD_def split: if_splits)
  have bytes: "x = \<lparr>wd_keyReference = ms_keyReference s, wd_keyVersion = ms_keyVersion s, wd_bytes = wd_bytes x\<rparr>"
    using x(3) by (auto elim: WrapDEK_Inr)
  have "Open e (mounted e t) w (row_envelope w ?c) = Inr plaintext" if t: "mounts_pair s t" for t
  proof -
    have g: "mounted_OrganizationID t = mounted_OrganizationID s"
      using t x(3) by (auto simp: mounts_pair_def mounted_OrganizationID_def elim: WrapDEK_Inr)
    have u: "UnwrapDEK e t \<lparr>wd_keyReference = ms_keyReference s, wd_keyVersion = ms_keyVersion s, wd_bytes = wd_bytes x\<rparr> w = Inr dek"
      using mounted_unwrap [OF assms(1) t assms(4) x(4)] x(3) bytes w' by metis
    show ?thesis using before x(2,4) ref g u unfolding Open_iff w'
      by (auto simp: row_envelope_def NewEnvelopeFromStorage_def rewrapped_def mounted_def validShape_def pair)
  qed
  then show ?thesis using x(5,6) by (intro bexI [of _ ?c]) (auto simp: rewrapped_def)
qed

text \<open>C39. With another pair mounted the artifact is lost. The re-wrap seals under whatever pair the provider mounts as active and
  records the active pair of the rotation, and nothing compares the two: the row then names a pair its wrapping was not made
  with, and any provider, under any owner, that opens it has a key under which the cipher accepts foreign authenticated data.\<close>

theorem rewrap_mislabels:
  assumes "distinct (map af_id (rd_artifacts db))" "c \<in> set (rd_artifacts db)" "length nonce = wrapNonceBytes"
    and "ms_keyVersion s \<le> maxSafeInt64" "rs_activeVersion y \<le> maxSafeInt64"
    and other: "(ms_keyReference s, ms_keyVersion s) \<noteq> (rs_activeRef y, rs_activeVersion y)"
    and rewrap: "rewrapOne e s r a worker claimed y (Some nonce) c db = Inr db'"
  shows "\<exists>c' \<in> set (rd_artifacts db'). \<exists>w dek aad. af_id c' = af_id c \<and> af_kekReference c' = rs_activeRef y \<and> af_kekVersion c' = rs_activeVersion y
    \<and> row_owner a c = Inr w \<and> wrapAAD w (ms_keyReference s) (ms_keyVersion s) = Some aad
    \<and> af_wrappedDEK c' = wrappedHeader @ nonce @ ce_Seal e (ms_key s) nonce dek aad
    \<and> (\<forall>t u opened. UnwrapDEK e t \<lparr>wd_keyReference = af_kekReference c', wd_keyVersion = af_kekVersion c', wd_bytes = af_wrappedDEK c'\<rparr> u = Inr opened
         \<longrightarrow> (\<exists>key b. b \<noteq> aad \<and> ce_Open e key nonce (ce_Seal e (ms_key s) nonce dek aad) b = Some opened))"
  using assms(1,2) rewrap
proof (rule rewrap_row)
  fix w dek x
  assume x: "row_owner a c = Inr w" "WrapDEK e s (Some nonce) dek w = Inr x"
    "rewrapped y (af_nonce c) (wd_bytes x) (hashDigest e (wd_bytes x)) (af_aadHash c) c \<in> set (rd_artifacts db')"
  let ?c = "rewrapped y (af_nonce c) (wd_bytes x) (hashDigest e (wd_bytes x)) (af_aadHash c) c"
  from x(2) obtain aad where aad: "wrapAAD w (ms_keyReference s) (ms_keyVersion s) = Some aad"
    and bytes: "wd_bytes x = wrappedHeader @ nonce @ ce_Seal e (ms_key s) nonce dek aad" by (auto elim: WrapDEK_Inr)
  have parts: "take wrapNonceBytes (drop 2 (wd_bytes x)) = nonce" "drop (Suc (Suc wrapNonceBytes)) (wd_bytes x) = ce_Seal e (ms_key s) nonce dek aad"
    using assms(3) by (simp_all add: bytes wrappedHeader_def)
  have "\<exists>key b. b \<noteq> aad \<and> ce_Open e key nonce (ce_Seal e (ms_key s) nonce dek aad) b = Some opened"
    if u: "UnwrapDEK e t \<lparr>wd_keyReference = rs_activeRef y, wd_keyVersion = rs_activeVersion y, wd_bytes = wd_bytes x\<rparr> u = Inr opened" for t u opened
  proof -
    from u obtain ref ver key b where p: "mounted_pair t \<lparr>wd_keyReference = rs_activeRef y, wd_keyVersion = rs_activeVersion y, wd_bytes = wd_bytes x\<rparr> = Some (ref, ver, key)"
      "wrapAAD u ref ver = Some b" "ce_Open e key nonce (ce_Seal e (ms_key s) nonce dek aad) b = Some opened"
      by (auto simp: UnwrapDEK_def parts split: if_split_asm option.split_asm prod.split_asm)
    have "ref = rs_activeRef y" "ver = rs_activeVersion y" using p(1) by (auto simp: mounted_pair_def split: if_splits)
    then have "b \<noteq> aad" using wrapAAD_inj [OF p(2), of w "ms_keyReference s" "ms_keyVersion s"] aad other assms(4,5)
      by (auto simp: maxSafeInt64_def)
    then show ?thesis using p(3) by blast
  qed
  then show ?thesis using x(1,3) aad bytes by (intro bexI [of _ ?c]) (auto simp: rewrapped_def)
qed

section \<open>The pass\<close>

abbreviation (input) left_under :: "rotation_state \<Rightarrow> rotation_db \<Rightarrow> artifact_row list" where
  "left_under y db \<equiv> filter (under_previous y) (rd_artifacts db)"

lemma wrapped_under_left: "wrapped_under (rs_previousRef y) (rs_previousVersion y) db = left_under y db"
  by (simp add: wrapped_under_def under_previous_def [abs_def])

definition same_pairs :: "rotation_state \<Rightarrow> rotation_state \<Rightarrow> bool" where
  "same_pairs x y \<longleftrightarrow> rs_phase x = rs_phase y \<and> rs_previousRef x = rs_previousRef y \<and> rs_previousVersion x = rs_previousVersion y
     \<and> rs_activeRef x = rs_activeRef y \<and> rs_activeVersion x = rs_activeVersion y"

definition pairs_differ :: "rotation_state \<Rightarrow> bool" where
  "pairs_differ y \<longleftrightarrow> (rs_previousRef y, rs_previousVersion y) \<noteq> (rs_activeRef y, rs_activeVersion y)"

text \<open>What a run of re-wraps leaves: the same jobs, events and row identifiers, the same rotation up to its watermark, and
  under the previous pair what was not re-wrapped.\<close>

definition rewrap_effect :: "rotation_state \<Rightarrow> gostring set \<Rightarrow> rotation_db \<Rightarrow> rotation_db \<Rightarrow> bool" where
  "rewrap_effect y ks db db' \<longleftrightarrow> rd_jobs db' = rd_jobs db \<and> rd_audit db' = rd_audit db
     \<and> map af_id (rd_artifacts db') = map af_id (rd_artifacts db)
     \<and> (\<exists>x'. rd_rotations db' DomainKEK = Some x' \<and> same_pairs x' y)
     \<and> left_under y db' = filter (\<lambda>f. af_id f \<notin> ks) (left_under y db)"

lemma filter_rewrapped:
  assumes "pairs_differ y"
  shows "filter (under_previous y) (map (\<lambda>f. if af_id f = k \<and> under_previous y f then rewrapped y n v h d f else f) fs)
    = filter (\<lambda>f. af_id f \<noteq> k) (filter (under_previous y) fs)"
proof -
  have "\<not> under_previous y (rewrapped y n v h d f)" for f
    using assms by (auto simp: under_previous_def rewrapped_def pairs_differ_def)
  then show ?thesis by (induction fs) auto
qed

lemma rewrapOne_effect:
  assumes "pairs_differ y" "rd_rotations db DomainKEK = Some z" "same_pairs z y" "rewrapOne e s r a worker claimed y entropy c db = Inr db'"
  shows "rewrap_effect y {af_id c} db db'"
  using assms(4)
proof (rule rewrapOne_Inr)
  fix w dek x
  assume "artifact_rewrap r (af_id c) (rs_previousRef y) (rs_previousVersion y) (rs_activeRef y) (rs_activeVersion y)
       (af_nonce c) (wd_bytes x) (hashDigest e (wd_bytes x)) (af_aadHash c) (cj_ID claimed) worker (cj_LeaseEpoch claimed) db = Inr db'"
  then show ?thesis
  proof (rule artifact_rewrap_Inr)
    let ?new = "rewrapped y (af_nonce c) (wd_bytes x) (hashDigest e (wd_bytes x)) (af_aadHash c)"
    fix x'
    assume x': "rd_rotations db DomainKEK = Some x'" "db' = db\<lparr>rd_artifacts := map (\<lambda>f. if af_id f = af_id c \<and> under_previous y f then ?new f else f)
        (rd_artifacts db), rd_rotations := (rd_rotations db)(DomainKEK \<mapsto> x'\<lparr>rs_watermark := rs_watermark x' + 1\<rparr>)\<rparr>"
    have ids: "map af_id (rd_artifacts db') = map af_id (rd_artifacts db)" by (simp add: x'(2) rewrapped_def)
    have "left_under y db' = filter (\<lambda>f. af_id f \<noteq> af_id c) (left_under y db)" using filter_rewrapped [OF assms(1)] by (simp add: x'(2))
    then show ?thesis using ids x' assms(2,3) by (simp add: rewrap_effect_def same_pairs_def)
  qed
qed

lemma rewrap_loop_effect:
  assumes "pairs_differ y" "rewrap_loop e s r a worker claimed y entropy n cs db = Inr db'" "rd_rotations db DomainKEK = Some z" "same_pairs z y"
  shows "rewrap_effect y (af_id ` set cs) db db'"
  using assms(2-4)
proof (induction cs arbitrary: n db z)
  case Nil
  then show ?case by (simp add: rewrap_effect_def)
next
  case (Cons c cs)
  from Cons.prems(1) obtain d where d: "rewrapOne e s r a worker claimed y (entropy n) c db = Inr d"
    "rewrap_loop e s r a worker claimed y entropy (Suc n) cs d = Inr db'" by (auto split: sum.splits)
  from rewrapOne_effect [OF assms(1) Cons.prems(2,3) d(1)] have one: "rewrap_effect y {af_id c} db d" .
  then obtain z' where "rd_rotations d DomainKEK = Some z'" "same_pairs z' y" by (auto simp: rewrap_effect_def)
  from Cons.IH [OF d(2) this] have rest: "rewrap_effect y (af_id ` set cs) d db'" .
  have "left_under y db' = filter (\<lambda>f. af_id f \<notin> af_id ` set cs) (filter (\<lambda>f. af_id f \<notin> {af_id c}) (left_under y db))"
    using one rest unfolding rewrap_effect_def by (simp only:)
  also have "\<dots> = filter (\<lambda>f. af_id f \<notin> af_id ` set (c # cs)) (left_under y db)"
    unfolding filter_filter by (rule filter_cong) auto
  finally show ?case using one rest by (simp add: rewrap_effect_def)
qed

lemma batch_sizes:
  assumes "distinct (map af_id (rd_artifacts db))"
  shows "length (rewrapCandidates (rs_previousRef y) (rs_previousVersion y) db) = min rotationBatchSize (length (left_under y db))"
    "length (filter (\<lambda>f. af_id f \<notin> af_id ` set (rewrapCandidates (rs_previousRef y) (rs_previousVersion y) db)) (left_under y db))
       = length (left_under y db) - rotationBatchSize"
proof -
  let ?w = "left_under y db" and ?batch = "rewrapCandidates (rs_previousRef y) (rs_previousVersion y) db"
  let ?all = "sort_key (\<lambda>f. (af_created f, af_id f)) ?w"
  have b: "?batch = take rotationBatchSize ?all" by (simp add: rewrapCandidates_def wrapped_under_left)
  then show l: "length ?batch = min rotationBatchSize (length ?w)" by (simp add: min.commute)
  have d: "distinct (map af_id ?w)" using assms by (rule distinct_map_filter)
  then have dw: "distinct ?w" "inj_on af_id (set ?w)" by (simp_all add: distinct_map)
  have sub: "set ?batch \<subseteq> set ?w" using set_take_subset [of rotationBatchSize ?all] by (simp add: b)
  have "distinct ?batch" using dw(1) by (simp add: b distinct_take)
  have "set (filter (\<lambda>f. af_id f \<notin> af_id ` set ?batch) ?w) = set ?w - set ?batch" using sub dw(2) by (auto simp: inj_on_def)
  moreover have "card (set ?w - set ?batch) = length ?w - length ?batch"
    unfolding card_Diff_subset [OF finite_set sub] distinct_card [OF dw(1)] distinct_card [OF \<open>distinct ?batch\<close>] ..
  ultimately have "length (filter (\<lambda>f. af_id f \<notin> af_id ` set ?batch) ?w) = length ?w - length ?batch"
    using dw(1) by (metis distinct_card distinct_filter)
  then show "length (filter (\<lambda>f. af_id f \<notin> af_id ` set ?batch) ?w) = length ?w - rotationBatchSize" unfolding l by (simp add: min_def)
qed

lemma keys_of_Complete: "map jb_Key (jt_Jobs (snd (Complete fate now a k worker epoch t))) = map jb_Key (jt_Jobs t)"
proof -
  have c: "complete_job now k worker epoch t = Inr t' \<Longrightarrow> map jb_Key (jt_Jobs t') = map jb_Key (jt_Jobs t)" for t'
    by (erule complete_cases) (simp add: ids_same)
  show ?thesis
  proof (cases "complete_job now k worker epoch t")
    case (Inl code)
    then show ?thesis by (cases fate) (simp_all add: Complete_def leaseCall_def job_write_def)
  next
    case (Inr t')
    with c show ?thesis by (cases fate) (simp_all add: Complete_def leaseCall_def job_write_def)
  qed
qed

text \<open>A closed window is a drained one.\<close>

lemma complete_drained:
  assumes "kek_rotation_complete r ref ver db = Inr db'" "rd_rotations db DomainKEK = Some x" "rs_phase x = PhaseRewrapping"
  shows "left_under x db = [] \<and> db' = close_rotation DomainKEK x db"
  using assms by (simp add: kek_rotation_complete_def wrapped_under_left split: if_split_asm)

lemma event_keeps:
  assumes "appendRotationSuccessAudit r a action eventID domain aref aver db = Inr (u, db')"
  shows "rd_rotations db' = rd_rotations db \<and> rd_artifacts db' = rd_artifacts db \<and> rd_jobs db' = rd_jobs db"
  using assms unfolding appendRotationSuccessAudit_def by (auto dest!: append_event_Inr)

lemma enqueue_rotation_keeps:
  assumes "enqueue_rotation r s db = Inr db'"
  shows "rd_rotations db' = rd_rotations db \<and> rd_artifacts db' = rd_artifacts db \<and> rd_audit db' = rd_audit db"
  using assms by (auto simp: enqueue_rotation_def split: sum.splits prod.splits)

lemma enqueueNext_Inr:
  assumes "enqueueNext r newID jobType k db = Inr (u, db')"
  obtains j where "newID = Some j" "enqueue_rotation r (rotation_job j jobType (''rotation:continue:'' @ k)) db = Inr db'"
proof (cases newID)
  case (Some j)
  with assms show ?thesis
    by (cases "enqueue_rotation r (rotation_job j jobType (''rotation:continue:'' @ k)) db") (auto simp: enqueueNext_def intro: that)
qed (use assms in \<open>simp add: enqueueNext_def\<close>)

text \<open>What one committed pass of an open window does.\<close>

lemma pass_work_outcome:
  assumes "distinct (map af_id (rd_artifacts db))" "rd_rotations db DomainKEK = Some y" "rs_phase y = PhaseRewrapping" "pairs_differ y"
    and "pass_work e s r a worker claimed entropy nextID auditID db = Inr (u, db')"
  shows "length (left_under y db') = length (left_under y db) - rotationBatchSize
    \<and> (\<exists>y'. rd_rotations db' DomainKEK = Some y'
        \<and> (if length (left_under y db) < rotationBatchSize then rs_phase y' = PhaseComplete \<and> rd_jobs db' = rd_jobs db
           else rs_phase y' = PhaseRewrapping \<and> (\<exists>j d. nextID = Some j \<and> rd_jobs d = rd_jobs db \<and> enqueue_rotation r
                  (rotation_job j TypeKEKRewrap (''rotation:continue:'' @ cj_ID claimed)) d = Inr db')))"
proof -
  let ?batch = "rewrapCandidates (rs_previousRef y) (rs_previousVersion y) db"
  from assms(2,3,5) obtain d where d: "rewrap_loop e s r a worker claimed y entropy 0 ?batch db = Inr d"
    by (auto simp: pass_work_def Let_def split: if_split_asm sum.split_asm)
  have eff: "rewrap_effect y (af_id ` set ?batch) db d"
    by (rule rewrap_loop_effect [OF assms(4) d assms(2)]) (simp add: same_pairs_def)
  then obtain x' where x': "rd_rotations d DomainKEK = Some x'" "same_pairs x' y" by (auto simp: rewrap_effect_def)
  have left: "length (left_under y d) = length (left_under y db) - rotationBatchSize"
    using eff batch_sizes(2) [OF assms(1)] by (simp only: rewrap_effect_def)
  have jobs: "rd_jobs d = rd_jobs db" using eff by (simp add: rewrap_effect_def)
  have full: "length ?batch = rotationBatchSize \<longleftrightarrow> \<not> length (left_under y db) < rotationBatchSize"
    unfolding batch_sizes(1) [OF assms(1)] by auto
  show ?thesis
  proof (cases "length (left_under y db) < rotationBatchSize")
    case False
    then have "enqueueNext r nextID TypeKEKRewrap (cj_ID claimed) d = Inr (u, db')"
      using assms(2,3,5) d full by (auto simp: pass_work_def Let_def split: if_split_asm)
    then show ?thesis
    proof (rule enqueueNext_Inr)
      fix j
      assume j: "nextID = Some j" "enqueue_rotation r (rotation_job j TypeKEKRewrap (''rotation:continue:'' @ cj_ID claimed)) d = Inr db'"
      from enqueue_rotation_keeps [OF j(2)] x' left jobs j False assms(3) show ?thesis by (auto simp: same_pairs_def)
    qed
  next
    case True
    then obtain d' eventID where k: "kek_rotation_complete r (rs_activeRef y) (rs_activeVersion y) d = Inr d'"
        "appendRotationSuccessAudit r a ActionKeyRotationComplete eventID DomainKEK (rs_activeRef y) (rs_activeVersion y) d' = Inr (u, db')"
      using assms(2,3,5) d full by (auto simp: pass_work_def Let_def split: if_split_asm sum.split_asm option.split_asm)
    have "rs_phase x' = PhaseRewrapping" using x'(2) assms(3) by (simp add: same_pairs_def)
    from complete_drained [OF k(1) x'(1) this] event_keeps [OF k(2)] left jobs True show ?thesis
      by (auto simp: close_rotation_def)
  qed
qed

text \<open>C37. One pass re-wraps a full batch or finishes. After a pass that reports success on an open window of distinct pairs, the
  wrappers under the previous pair are a thousand fewer, or gone; the window is closed exactly when fewer than a thousand were
  left, and otherwise a job for the next pass is in the queue. So a rotation of $n$ wrappers takes $\lfloor n/1000 \rfloor + 1$
  successful passes.\<close>

theorem rewrap_pass_exact:
  assumes "distinct (map af_id (rd_artifacts db))" "rd_rotations db DomainKEK = Some y" "rs_phase y = PhaseRewrapping" "pairs_differ y"
    and fresh: "\<forall>k. nextID = Some k \<longrightarrow> job_by_id k (rd_jobs db) = None"
    and pass: "HandleKEKRewrap e s r r' a worker claimed entropy nextID auditID db = (None, db')"
  shows "length (wrapped_under (rs_previousRef y) (rs_previousVersion y) db')
      = length (wrapped_under (rs_previousRef y) (rs_previousVersion y) db) - rotationBatchSize
    \<and> (\<exists>y'. rd_rotations db' DomainKEK = Some y'
        \<and> (if length (wrapped_under (rs_previousRef y) (rs_previousVersion y) db) < rotationBatchSize then rs_phase y' = PhaseComplete
           else rs_phase y' = PhaseRewrapping \<and> (\<exists>i \<in> set (jt_Jobs (rd_jobs db')). jb_Key i = ''rotation:continue:'' @ cj_ID claimed)))"
proof -
  from pass obtain u d where w: "job_write (ro_fate r) a id (pass_work e s r a worker claimed entropy nextID auditID) db = (Inr u, d)"
    "pass_complete r' a worker claimed d = (None, db')"
    by (auto simp: HandleKEKRewrap_def pass_fail_def split: if_split_asm prod.split_asm sum.split_asm)
  from job_write_ok [OF w(1)] have p: "pass_work e s r a worker claimed entropy nextID auditID db = Inr (u, d)" by blast
  have db': "rd_rotations db' = rd_rotations d" "rd_artifacts db' = rd_artifacts d"
    "map jb_Key (jt_Jobs (rd_jobs db')) = map jb_Key (jt_Jobs (rd_jobs d))"
    using w(2) keys_of_Complete [of "ro_fate r'" "ro_clock r'" a "cj_ID claimed" worker "cj_LeaseEpoch claimed" "rd_jobs d"]
    by (auto simp: pass_complete_def split: prod.split_asm)
  have "\<exists>i \<in> set (jt_Jobs (rd_jobs db')). jb_Key i = key" if "i \<in> set (jt_Jobs (rd_jobs d))" "jb_Key i = key" for i key
  proof -
    from that have "key \<in> set (map jb_Key (jt_Jobs (rd_jobs db')))" unfolding db'(3) by auto
    then show ?thesis by auto
  qed
  moreover have "\<exists>i \<in> set (jt_Jobs (rd_jobs d)). jb_Key i = ''rotation:continue:'' @ cj_ID claimed"
    if j: "nextID = Some j" "rd_jobs d' = rd_jobs db" "enqueue_rotation r (rotation_job j TypeKEKRewrap (''rotation:continue:'' @ cj_ID claimed)) d' = Inr d" for j d'
  proof -
    from j(3) obtain k where "EnqueueInTransaction (ro_active r) (ro_jobCheck r) (ro_clock r)
        (rotation_job j TypeKEKRewrap (''rotation:continue:'' @ cj_ID claimed)) (rd_jobs db) = Inr (k, rd_jobs d)"
      using j(2) by (auto simp: enqueue_rotation_def split: sum.splits prod.splits)
    from enqueue_key_known [OF this] fresh j(1) show ?thesis by (simp add: rotation_job_def)
  qed
  ultimately show ?thesis using pass_work_outcome [OF assms(1-4) p] unfolding wrapped_under_left db'(1,2) by (auto split: if_splits) blast+
qed

section \<open>A run\<close>

definition rotation_run :: rotation_env where
  "rotation_run = \<lparr>ro_store = sample_store_env, ro_worker = True, ro_active = True, ro_jobCheck = (\<lambda>_. None), ro_artifactCheck = (\<lambda>_. None),
     ro_clock = 0, ro_now = 1, ro_fault = (\<lambda>_. None), ro_digestRemaining = 0, ro_fate = TxConfirmed\<rparr>"

definition fresh_db :: rotation_db where
  "fresh_db = \<lparr>rd_rotations = Map.empty, rd_jobs = no_jobs, rd_artifacts = [], rd_audit = empty_db\<rparr>"

lemma first_event:
  assumes "validateAppend a i = None" "validateInput i"
  shows "\<exists>x au. AppendInTransaction sample_store_env (\<lambda>_. None) a i empty_db = Inr (x, au)"
proof -
  have new: "next_digest_new sample_store_env a i empty_db"
    by (simp add: next_digest_new_def digests_distinct_def Let_def empty_inv split: sum.split)
  have "committed_log (AppendInTransaction sample_store_env (\<lambda>_. None) a i empty_db) \<noteq> None"
    unfolding append_refines [OF empty_inv(1) sample_env_ok(1,2) new sample_env_ok(3)]
    using assms by (simp add: log_append_def empty_inv maxSafeInt64_def)
  then show ?thesis by (auto simp: committed_log_def split: sum.splits)
qed

lemma rotation_events:
  "validateAppend job_access (rotation_success job_access ActionKeyRotationBegin ''evt-1'' DomainKEK ''kek-b'' 5 1) = None"
  "validateInput (rotation_success job_access ActionKeyRotationBegin ''evt-1'' DomainKEK ''kek-b'' 5 1)"
  "validateAppend job_access (rotation_success job_access ActionKeyRotationComplete ''evt-1'' DomainKEK ''kek-b'' 5 1) = None"
  "validateInput (rotation_success job_access ActionKeyRotationComplete ''evt-1'' DomainKEK ''kek-b'' 5 1)"
  by code_simp+

lemma rotation_texts:
  "validReference ''kek-a''" "validReference ''kek-b''" "sql_text ''kek-a''" "sql_text ''kek-b''" "reference_ok ''kek-a''" "reference_ok ''kek-b''"
  "validDomain DomainKEK" "validVersion 4" "validVersion 5" "begin_key DomainKEK = ''rotation:begin:KEK''"
  by code_simp+

definition open_window :: rotation_state where
  "open_window = \<lparr>rs_phase = PhaseRewrapping, rs_previousRef = ''kek-a'', rs_previousVersion = 4, rs_activeRef = ''kek-b'', rs_activeVersion = 5, rs_watermark = 0\<rparr>"

lemma sample_begins:
  assumes "rd_rotations db DomainKEK = None \<or> rd_rotations db DomainKEK = Some (open_window\<lparr>rs_phase := PhaseComplete\<rparr>)"
    "EnqueueInTransaction True (\<lambda>_. None) 0 (rotation_job k TypeKEKRewrap ''rotation:begin:KEK'') (rd_jobs db) = Inr (j, jobs)" "rd_audit db = empty_db"
  shows "\<exists>au. rotation_Begin rotation_run rotation_run job_access (Some ''evt-1'') (Some k) (Some ''evt-2'') DomainKEK ''kek-a'' 4 ''kek-b'' 5 db
    = (None, db\<lparr>rd_rotations := (rd_rotations db)(DomainKEK \<mapsto> open_window), rd_jobs := jobs, rd_audit := au\<rparr>)"
proof -
  have "rotation_begin rotation_run DomainKEK ''kek-a'' 4 ''kek-b'' 5 (rd_rotations db) = Inr ((rd_rotations db)(DomainKEK \<mapsto> open_window))"
    using assms(1) rotation_texts by (auto simp: rotation_begin_def rotation_run_def open_window_def maxSafeInt64_def)
  moreover from first_event [OF rotation_events(1,2)] obtain x au where
    "AppendInTransaction sample_store_env (\<lambda>_. None) job_access (rotation_success job_access ActionKeyRotationBegin ''evt-1'' DomainKEK ''kek-b'' 5 1) empty_db = Inr (x, au)"
    by blast
  ultimately have "begin_work rotation_run job_access ''evt-1'' k DomainKEK ''kek-a'' 4 ''kek-b'' 5 db
      = Inr ((), db\<lparr>rd_rotations := (rd_rotations db)(DomainKEK \<mapsto> open_window), rd_jobs := jobs, rd_audit := au\<rparr>)"
    using assms(2,3) rotation_texts(10)
    by (simp add: begin_work_def enqueue_rotation_def domain_job_def appendRotationSuccessAudit_def append_event_def rotation_run_def)
  then have "rotation_Begin rotation_run rotation_run job_access (Some ''evt-1'') (Some k) (Some ''evt-2'') DomainKEK ''kek-a'' 4 ''kek-b'' 5 db
    = (None, db\<lparr>rd_rotations := (rd_rotations db)(DomainKEK \<mapsto> open_window), rd_jobs := jobs, rd_audit := au\<rparr>)"
    using rotation_texts sample_job_checks(1) by (simp add: rotation_Begin_def job_write_def) (simp add: rotation_run_def)
  then show ?thesis by blast
qed

lemma sample_enqueue_in_transaction:
  "EnqueueInTransaction True (\<lambda>_. None) 0 (rotation_job sample_job_id TypeKEKRewrap ''rotation:begin:KEK'') no_jobs = Inr (sample_job_id, queued)"
proof -
  have "rotation_job sample_job_id TypeKEKRewrap ''rotation:begin:KEK'' = sample_job_spec" by (simp add: rotation_job_def sample_job_spec_def)
  then show ?thesis using sample_job_checks(4,5) sample_enqueued by (simp add: EnqueueInTransaction_def)
qed

text \<open>The tables after the job of the first rotation is done, and the second rotation's identifiers.\<close>

definition finished_run :: job_tables where
  "finished_run = snd (Complete TxConfirmed 20 job_access sample_job_id ''w1'' 1 leased)"

definition second_job_id :: gostring where
  "second_job_id = ''job_01ARZ3NDEKTSV4RRFFQ69G5FAW''"

lemma sample_finished: "Complete TxConfirmed 20 job_access sample_job_id ''w1'' 1 leased = (None, finished_run)"
  using sample_completed by (auto simp: finished_run_def)

lemma finished_jobs: "jt_Jobs finished_run = [sample_job\<lparr>jb_Status := JobSucceeded, jb_Owner := None, jb_Epoch := 1, jb_Deadline := None,
    jb_Attempts := 1, jb_Completed := Some 20, jb_LastError := None\<rparr>]"
  using sample_job_checks(1-3)
  by (simp add: finished_run_def Complete_def leaseCall_def job_write_def complete_job_def job_by_id_def lease_held_def leased_def sample_job_def
    set_job_def close_attempt_def)

lemma second_enqueue:
  "EnqueueInTransaction True (\<lambda>_. None) 0 (rotation_job second_job_id TypeKEKRewrap ''rotation:begin:KEK'') finished_run = Inr (sample_job_id, finished_run)"
proof -
  have "spec_validate (rotation_job second_job_id TypeKEKRewrap ''rotation:begin:KEK'')" by code_simp
  moreover have "payload_marshal [] = Some ''{}''" by code_simp
  moreover have "sample_job_id \<noteq> second_job_id" by (simp add: sample_job_id_def second_job_id_def)
  ultimately show ?thesis
    by (simp add: EnqueueInTransaction_def enqueue_job_def rotation_job_def job_by_id_def finished_jobs sample_job_def)
qed

lemma second_begin_has_no_driver_witness:
  "\<exists>db1. let db2 = db1\<lparr>rd_rotations := [DomainKEK \<mapsto> open_window\<lparr>rs_phase := PhaseComplete\<rparr>], rd_jobs := finished_run, rd_audit := empty_db\<rparr>;
       second = rotation_Begin rotation_run rotation_run job_access (Some ''evt-1'') (Some second_job_id) (Some ''evt-2'') DomainKEK ''kek-a'' 4 ''kek-b'' 5 db2 in
     rotation_Begin rotation_run rotation_run job_access (Some ''evt-1'') (Some sample_job_id) (Some ''evt-2'') DomainKEK ''kek-a'' 4 ''kek-b'' 5 fresh_db = (None, db1)
     \<and> fst second = None \<and> rd_rotations (snd second) DomainKEK = Some open_window \<and> rd_jobs (snd second) = finished_run
     \<and> map jb_Status (jt_Jobs finished_run) = [JobSucceeded]"
proof -
  from sample_begins [of fresh_db sample_job_id sample_job_id queued] sample_enqueue_in_transaction
  obtain db1 where one: "rotation_Begin rotation_run rotation_run job_access (Some ''evt-1'') (Some sample_job_id) (Some ''evt-2'')
      DomainKEK ''kek-a'' 4 ''kek-b'' 5 fresh_db = (None, db1)" "rd_jobs db1 = queued"
    by (auto simp: fresh_db_def)
  let ?db2 = "db1\<lparr>rd_rotations := [DomainKEK \<mapsto> open_window\<lparr>rs_phase := PhaseComplete\<rparr>], rd_jobs := finished_run, rd_audit := empty_db\<rparr>"
  have "job_step\<^sup>*\<^sup>* queued finished_run"
    using Claim_ok [OF sample_claimed] Complete_ok [OF sample_finished]
    by (meson job_step.intros(2,4) rtranclp.rtrancl_into_rtrancl rtranclp.rtrancl_refl)
  then have later: "job_step\<^sup>*\<^sup>* (rd_jobs db1) (rd_jobs ?db2)" by (simp add: one(2))
  have fresh: "job_step\<^sup>*\<^sup>* no_jobs (rd_jobs fresh_db)" "\<forall>k. Some sample_job_id = Some k \<longrightarrow> job_by_id k (rd_jobs fresh_db) = None"
    by (simp_all add: fresh_db_def no_jobs_def job_by_id_def)
  from sample_begins [of ?db2 second_job_id sample_job_id finished_run] second_enqueue obtain au where
    two: "rotation_Begin rotation_run rotation_run job_access (Some ''evt-1'') (Some second_job_id) (Some ''evt-2'') DomainKEK ''kek-a'' 4 ''kek-b'' 5 ?db2
      = (None, ?db2\<lparr>rd_rotations := (rd_rotations ?db2)(DomainKEK \<mapsto> open_window), rd_jobs := finished_run, rd_audit := au\<rparr>)"
    by auto
  have "rd_jobs (snd (rotation_Begin rotation_run rotation_run job_access (Some ''evt-1'') (Some second_job_id) (Some ''evt-2'')
      DomainKEK ''kek-a'' 4 ''kek-b'' 5 ?db2)) = rd_jobs ?db2"
    by (rule second_begin_has_no_driver [OF fresh one(1) later])
  then show ?thesis using one(1) two finished_jobs by (intro exI [of _ db1]) (simp add: Let_def)
qed

text \<open>An artifact sealed under the previous pair, and a lease on the job that re-wraps it.\<close>

definition rotating_mount :: mounted_state where
  "rotating_mount = sample_mount\<lparr>ms_keyReference := ''kek-b'', ms_keyVersion := 5, ms_key := sample_key (CHR ''b''),
     ms_prevKeyReference := ''kek-a'', ms_prevKeyVersion := 4, ms_prevKey := sample_key (CHR ''a'')\<rparr>"

definition sample_wrapper :: "gostring \<Rightarrow> gostring \<Rightarrow> artifact_row" where
  "sample_wrapper aad wrap_aad = (let v = sample_envelope (sample_owner ''run-1'') aad wrap_aad in
     \<lparr>af_id = ''art-1'', af_ownerTable = ''question_run'', af_ownerColumn = ''question_text_artifact_id'', af_resourceType = ''QUESTION_RUN'',
      af_resourceID = ''run-1'', af_fieldName = ''QUESTION_TEXT'', af_ciphertext = en_ciphertext v, af_sizeBytes = en_sizeBytes v, af_nonce = en_nonce v,
      af_wrappedDEK = en_wrappedDEK v, af_wrappedDEKHash = en_wrappedDEKHash v, af_kekReference = en_kekReference v, af_kekVersion = en_kekVersion v,
      af_aadHash = en_aadHash v, af_plaintextHash = en_plaintextHash v, af_created = 0, af_purged = False\<rparr>)"

definition pass_db :: "artifact_row \<Rightarrow> rotation_db" where
  "pass_db c = \<lparr>rd_rotations = [DomainKEK \<mapsto> open_window], rd_jobs = leased, rd_artifacts = [c], rd_audit = empty_db\<rparr>"

lemma row_is_envelope: "row_envelope (sample_owner ''run-1'') (sample_wrapper a b) = sample_envelope (sample_owner ''run-1'') a b"
  by (simp add: row_envelope_def sample_wrapper_def sample_envelope_def NewEnvelopeFromStorage_def Let_def)

lemma sample_row_owner: "row_owner job_access (sample_wrapper a b) = Inr (sample_owner ''run-1'')"
proof -
  have "row_owner job_access (sample_wrapper a b) = NewOwnerIdentityFromTuple ''question_run'' ''question_text_artifact_id'' ''QUESTION_RUN'' ''QUESTION_TEXT'' ''org-1'' ''run-1''"
    by (simp add: row_owner_def sample_wrapper_def Let_def job_access_def)
  also have "\<dots> = Inr (sample_owner ''run-1'')" by code_simp
  finally show ?thesis .
qed

lemma sql_digest_hash: "length (ce_sha256 e v) = 32 \<Longrightarrow> sql_digest (hashDigest e v)"
  by (simp add: sql_digest_def sha256Pattern_def hashDigest_def has_prefix_iff hex_encode_is_hex)

lemma sample_digest: "sql_digest (hashDigest sample_crypto v)"
  by (rule sql_digest_hash) (simp add: sample_crypto_def)

text \<open>Either provider unwraps the row; the new wrapping carries its active pair.\<close>

lemma sample_unwraps:
  assumes "artifactAAD (sample_owner ''run-1'') = Some a" "wrapAAD (sample_owner ''run-1'') ''kek-a'' 4 = Some b" "s = sample_mount \<or> s = rotating_mount"
  shows "UnwrapDEK sample_crypto s \<lparr>wd_keyReference = af_kekReference (sample_wrapper a b), wd_keyVersion = af_kekVersion (sample_wrapper a b),
      wd_bytes = af_wrappedDEK (sample_wrapper a b)\<rparr> (sample_owner ''run-1'') = Inr (sample_key (CHR ''d''))"
proof -
  have g: "ow_organizationID (sample_owner ''run-1'') = ''org-1''" by (simp add: sample_owner_def owner_of_def)
  then show ?thesis using assms sample_owners(1)
    by (auto simp: UnwrapDEK_def mounted_pair_def rotating_mount_def sample_wrapper_def sample_envelope_def Let_def hashDigest_def sample_defs)
qed

lemma sample_wraps:
  assumes "s = sample_mount \<or> s = rotating_mount"
  shows "\<exists>x. WrapDEK sample_crypto s (Some (replicate 12 (CHR ''q''))) (sample_key (CHR ''d'')) (sample_owner ''run-1'') = Inr x \<and> length (wd_bytes x) = 62"
proof -
  have nz: "hasNonZeroByte (sample_key (CHR ''d''))" by code_simp
  have g: "ow_organizationID (sample_owner ''run-1'') = ''org-1''" by (simp add: sample_owner_def owner_of_def)
  have texts: "valid_utf8 ''kek-a''" "valid_utf8 ''kek-b''" by code_simp+
  show ?thesis using assms nz g texts sample_owners(1)
    by (auto simp: WrapDEK_def wrapAAD_def rotating_mount_def sample_defs)
qed

lemma sample_rewraps:
  assumes "artifactAAD (sample_owner ''run-1'') = Some a" "wrapAAD (sample_owner ''run-1'') ''kek-a'' 4 = Some b" "s = sample_mount \<or> s = rotating_mount"
  shows "\<exists>db'. rewrapOne sample_crypto s rotation_run job_access ''w1'' sample_claim open_window (Some (replicate 12 (CHR ''q''))) (sample_wrapper a b) (pass_db (sample_wrapper a b)) = Inr db'"
proof -
  from sample_wraps [OF assms(3)] obtain x where x: "WrapDEK sample_crypto s (Some (replicate 12 (CHR ''q''))) (sample_key (CHR ''d'')) (sample_owner ''run-1'') = Inr x"
    "length (wd_bytes x) = 62" by blast
  have valid: "candidate_valid (sample_wrapper a b)"
    by (simp add: candidate_valid_def sample_wrapper_def sample_envelope_def Let_def sample_defs)
  have h: "sql_digest (af_aadHash (sample_wrapper a b))" using sample_digest
    by (simp add: sample_wrapper_def sample_envelope_def Let_def NewEnvelopeFromStorage_def)
  have fence: "lock_job_lease 0 sample_job_id ''w1'' 1 leased = None" "map_option jb_Type (job_by_id sample_job_id leased) = Some TypeKEKRewrap"
    by (simp_all add: lock_job_lease_def job_by_id_def leased_def sample_job_def lease_held_def)
  have row: "af_id (sample_wrapper a b) = ''art-1''" "\<not> af_purged (sample_wrapper a b)" "af_kekReference (sample_wrapper a b) = ''kek-a''"
    "af_kekVersion (sample_wrapper a b) = 4" "length (af_nonce (sample_wrapper a b)) = 12"
    by (simp_all add: sample_wrapper_def sample_envelope_def Let_def NewEnvelopeFromStorage_def)
  have "\<exists>db'. artifact_rewrap rotation_run (af_id (sample_wrapper a b)) (rs_previousRef open_window) (rs_previousVersion open_window) (rs_activeRef open_window)
      (rs_activeVersion open_window) (af_nonce (sample_wrapper a b)) (wd_bytes x) (hashDigest sample_crypto (wd_bytes x)) (af_aadHash (sample_wrapper a b))
      (cj_ID sample_claim) ''w1'' (cj_LeaseEpoch sample_claim) (pass_db (sample_wrapper a b)) = Inr db'"
    using h x(2) sample_digest fence row
    by (simp add: artifact_rewrap_def Let_def rotation_run_def open_window_def pass_db_def sample_claim_def)
  then show ?thesis using valid sample_row_owner [of a b] sample_unwraps [OF assms] x(1) by (simp add: rewrapOne_def row_owner_def)
qed

lemma rewrap_keeps_artifact_witness:
  "\<exists>c db'. Open sample_crypto (mounted sample_crypto rotating_mount) (sample_owner ''run-1'') (row_envelope (sample_owner ''run-1'') c) = Inr ''What is due?''
     \<and> rewrapOne sample_crypto rotating_mount rotation_run job_access ''w1'' sample_claim open_window (Some (replicate 12 (CHR ''q''))) c (pass_db c) = Inr db'
     \<and> (\<exists>c' \<in> set (rd_artifacts db'). Open sample_crypto (mounted sample_crypto rotating_mount) (sample_owner ''run-1'') (row_envelope (sample_owner ''run-1'') c')
          = Inr ''What is due?'')"
proof -
  from sample_aads [OF sample_owners(1)] obtain a b where ab: "artifactAAD (sample_owner ''run-1'') = Some a" "wrapAAD (sample_owner ''run-1'') ''kek-a'' 4 = Some b"
    by blast
  let ?c = "sample_wrapper a b"
  from sample_rewraps [OF ab] obtain db' where r: "rewrapOne sample_crypto rotating_mount rotation_run job_access ''w1'' sample_claim open_window
      (Some (replicate 12 (CHR ''q''))) ?c (pass_db ?c) = Inr db'" by blast
  have m: "mounts_pair sample_mount rotating_mount" "mounts_pair rotating_mount rotating_mount"
    by (simp_all add: mounts_pair_def rotating_mount_def sample_mount_def)
  have before: "Open sample_crypto (mounted sample_crypto rotating_mount) (sample_owner ''run-1'') (row_envelope (sample_owner ''run-1'') ?c) = Inr ''What is due?''"
    unfolding row_is_envelope
    by (rule mounted_kw.seal_open [OF conjI [OF sample_aead m(1)] sample_aead _ sample_seals [OF sample_owners(1) ab, unfolded sample_sealed_def]])
      (simp add: wrapNonceBytes_def)
  have pre: "distinct (map af_id (rd_artifacts (pass_db ?c)))" "?c \<in> set (rd_artifacts (pass_db ?c))" "length (replicate 12 (CHR ''q'')) = wrapNonceBytes"
    "rs_activeRef open_window = ms_keyReference rotating_mount" "rs_activeVersion open_window = ms_keyVersion rotating_mount"
    by (simp_all add: pass_db_def wrapNonceBytes_def open_window_def rotating_mount_def)
  from rewrap_keeps_artifact [OF sample_aead pre r sample_row_owner before] before r m(2) show ?thesis by blast
qed

lemma rewrap_mislabels_witness:
  "\<exists>c db' c'. rewrapOne sample_crypto sample_mount rotation_run job_access ''w1'' sample_claim open_window (Some (replicate 12 (CHR ''q''))) c (pass_db c) = Inr db'
     \<and> c' \<in> set (rd_artifacts db') \<and> af_kekReference c' = ''kek-b'' \<and> af_kekVersion c' = 5
     \<and> (\<exists>dek aad. wrapAAD (sample_owner ''run-1'') ''kek-a'' 4 = Some aad
          \<and> af_wrappedDEK c' = wrappedHeader @ replicate 12 (CHR ''q'') @ ce_Seal sample_crypto (sample_key (CHR ''a'')) (replicate 12 (CHR ''q'')) dek aad)"
proof -
  from sample_aads [OF sample_owners(1)] obtain a b where ab: "artifactAAD (sample_owner ''run-1'') = Some a" "wrapAAD (sample_owner ''run-1'') ''kek-a'' 4 = Some b"
    by blast
  let ?c = "sample_wrapper a b"
  from sample_rewraps [OF ab] obtain db' where r: "rewrapOne sample_crypto sample_mount rotation_run job_access ''w1'' sample_claim open_window
      (Some (replicate 12 (CHR ''q''))) ?c (pass_db ?c) = Inr db'" by blast
  have pre: "distinct (map af_id (rd_artifacts (pass_db ?c)))" "?c \<in> set (rd_artifacts (pass_db ?c))" "length (replicate 12 (CHR ''q'')) = wrapNonceBytes"
    "ms_keyVersion sample_mount \<le> maxSafeInt64" "rs_activeVersion open_window \<le> maxSafeInt64"
    "(ms_keyReference sample_mount, ms_keyVersion sample_mount) \<noteq> (rs_activeRef open_window, rs_activeVersion open_window)"
    by (simp_all add: pass_db_def wrapNonceBytes_def open_window_def sample_mount_def maxSafeInt64_def)
  from rewrap_mislabels [OF pre r] r show ?thesis
    unfolding sample_row_owner by (simp add: open_window_def sample_mount_def) metis
qed

lemma rewrap_pass_exact_witness:
  "\<exists>c db'. HandleKEKRewrap sample_crypto rotating_mount rotation_run rotation_run job_access ''w1'' sample_claim (\<lambda>_. Some (replicate 12 (CHR ''q'')))
       (Some second_job_id) (Some ''evt-1'') (pass_db c) = (None, db')
     \<and> wrapped_under ''kek-a'' 4 (pass_db c) = [c] \<and> wrapped_under ''kek-a'' 4 db' = []
     \<and> (\<exists>y'. rd_rotations db' DomainKEK = Some y' \<and> rs_phase y' = PhaseComplete)"
proof -
  from sample_aads [OF sample_owners(1)] obtain a b where ab: "artifactAAD (sample_owner ''run-1'') = Some a" "wrapAAD (sample_owner ''run-1'') ''kek-a'' 4 = Some b"
    by blast
  let ?c = "sample_wrapper a b" and ?q = "replicate 12 (CHR ''q'')"
  have row: "af_id ?c = ''art-1''" "\<not> af_purged ?c" "af_kekReference ?c = ''kek-a''" "af_kekVersion ?c = 4"
    by (simp_all add: sample_wrapper_def sample_envelope_def Let_def NewEnvelopeFromStorage_def)
  have w: "wrapped_under ''kek-a'' 4 (pass_db ?c) = [?c]" using row by (simp add: wrapped_under_def pass_db_def)
  then have batch: "rewrapCandidates ''kek-a'' 4 (pass_db ?c) = [?c]" by (simp add: rewrapCandidates_def rotationBatchSize_def)
  from sample_rewraps [OF ab] obtain d where r: "rewrapOne sample_crypto rotating_mount rotation_run job_access ''w1'' sample_claim open_window (Some ?q) ?c (pass_db ?c) = Inr d"
    by blast
  have pre: "distinct (map af_id (rd_artifacts (pass_db ?c)))" "rd_rotations (pass_db ?c) DomainKEK = Some open_window" "rs_phase open_window = PhaseRewrapping"
    "pairs_differ open_window" "same_pairs open_window open_window" "under_previous open_window ?c"
    using row by (simp_all add: pass_db_def open_window_def pairs_differ_def same_pairs_def under_previous_def)
  from rewrapOne_effect [OF pre(4,2,5) r] have eff: "rewrap_effect open_window {af_id ?c} (pass_db ?c) d" .
  then obtain x' where x': "rd_rotations d DomainKEK = Some x'" "same_pairs x' open_window" by (auto simp: rewrap_effect_def)
  have left: "wrapped_under ''kek-a'' 4 d = []"
    using eff wrapped_under_left [of open_window d] by (simp add: rewrap_effect_def pass_db_def) (simp add: open_window_def)
  have k: "kek_rotation_complete rotation_run ''kek-b'' 5 d = Inr (close_rotation DomainKEK x' d)"
    using x' left by (simp add: kek_rotation_complete_def rotation_run_def same_pairs_def open_window_def)
  have "rd_audit d = empty_db" using eff by (simp add: rewrap_effect_def pass_db_def)
  with first_event [OF rotation_events(3,4)] obtain u d' where ev: "appendRotationSuccessAudit rotation_run job_access ActionKeyRotationComplete ''evt-1'' DomainKEK ''kek-b'' 5
      (close_rotation DomainKEK x' d) = Inr (u, d')"
    by (force simp: appendRotationSuccessAudit_def append_event_def rotation_run_def close_rotation_def)
  have "pass_work sample_crypto rotating_mount rotation_run job_access ''w1'' sample_claim (\<lambda>_. Some ?q) (Some second_job_id) (Some ''evt-1'') (pass_db ?c) = Inr (u, d')"
    using pre(2) batch r k ev by (simp add: pass_work_def Let_def rotationBatchSize_def) (simp add: open_window_def rotationBatchSize_def)
  then have "job_write (ro_fate rotation_run) job_access id (pass_work sample_crypto rotating_mount rotation_run job_access ''w1'' sample_claim
      (\<lambda>_. Some ?q) (Some second_job_id) (Some ''evt-1'')) (pass_db ?c) = (Inr u, d')"
    using sample_job_checks(1) by (simp add: job_write_def) (simp add: rotation_run_def)
  moreover have "rd_jobs d' = leased" using eff event_keeps [OF ev] by (simp add: rewrap_effect_def pass_db_def close_rotation_def)
  moreover have "fst (Complete TxConfirmed 0 job_access sample_job_id ''w1'' 1 leased) = None"
    using sample_job_checks(1-3) by (simp add: Complete_def leaseCall_def job_write_def complete_job_def job_by_id_def lease_held_def leased_def sample_job_def)
  ultimately obtain db' where pass: "HandleKEKRewrap sample_crypto rotating_mount rotation_run rotation_run job_access ''w1'' sample_claim (\<lambda>_. Some ?q)
       (Some second_job_id) (Some ''evt-1'') (pass_db ?c) = (None, db')"
    by (cases "Complete TxConfirmed 0 job_access sample_job_id ''w1'' 1 leased")
      (simp add: HandleKEKRewrap_def pass_complete_def sample_claim_def rotation_run_def)
  have fresh: "\<forall>k. Some second_job_id = Some k \<longrightarrow> job_by_id k (rd_jobs (pass_db ?c)) = None"
    by (simp add: pass_db_def job_by_id_def leased_def sample_job_def sample_job_id_def second_job_id_def)
  from rewrap_pass_exact [OF pre(1-4) fresh pass] w have "wrapped_under ''kek-a'' 4 db' = [] \<and> (\<exists>y'. rd_rotations db' DomainKEK = Some y' \<and> rs_phase y' = PhaseComplete)"
    by (simp add: open_window_def rotationBatchSize_def)
  then show ?thesis using w pass by blast
qed

end
