(* ===== verification/Spec2Isabelle.thy ===== *)
theory Spec2Isabelle
  imports Policy Whole_Text Address Sandbox_Dispatch Scope_Glob Workspace Aggregate_Meaning Governed_Safety Metric_Evidence Dataset_Guarantees Audit_Guarantees Rotation_Safety
begin

text \<open>
  A verification library of the KnowVault repository: a Go service (\<open>src/internal\<close>) with PostgreSQL functions
  (\<open>src/db/migrations\<close>) that answers questions over governed sources and keeps evidence of what it answered.
  This theory imports the others and holds no definitions of its own.

  \<^bold>\<open>How the code is modelled.\<close> A Go string or byte slice is a list of bytes (\<open>gostring\<close>); a struct is a record, an
  enumeration a datatype or, where the code compares it as text, the text; an error is the left side of a sum or
  \<open>None\<close>; a 64-bit integer is an \<open>int\<close> with its bounds or \<open>wrap64\<close> written out where it can leave them. A method that
  changes state returns the new state; operations that interleave are inductive step relations
  (\<open>Sandbox_Dispatch.step\<close>, \<open>Job_Safety.job_step\<close>, \<open>Workspace.evolves\<close>). A database transaction is one step on the
  rows of one tenant, surrounded by its fate: it does not begin, it is committed, refused, or committed without a
  confirmation. Loops are structural recursions over the data they run over, or functions with a measure; no fuel is used
  except where the code itself has a budget (the glob matcher's cell and step budgets, the append's three attempts, the
  pass's batch of a thousand).

  \<^bold>\<open>What is a parameter.\<close> Code outside the repository is an argument: NFC normalization, Unicode case folding and lowering,
  SHA-256, HMAC and AES-GCM, the JSON decoders, the entropy of nonces and keys, the iteration order of Go maps, clocks,
  the functions of package \<open>time\<close> and the zone archive, the answers and faults of the database, the rows another transaction
  has locked, and the refusals of a row that need other tables or the metadata document (the check constraints of a job row,
  the metadata validators, projection triggers and foreign keys of an audit row). What a property needs of one is a named hypothesis, such as \<open>aead_correct\<close> (opening under the key, nonce and data of the
  sealing gives the plaintext) or a digest without a collision among the stated values.

  \<^bold>\<open>Ground.\<close> \<open>Prelude\<close>: sequencing of fallible steps, slices, updates of keyed lists, and the locales
  \<open>revision_chain\<close> (a chain of steps that count and keep what they carry) and \<open>evolution\<close> (steps that keep an invariant
  and only move forward). \<open>Go_Strings\<close>, \<open>Go_Base64\<close>, \<open>Go_Json\<close>, \<open>Go_Sort\<close>, \<open>Go_Decimal\<close>: the parts of Go's
  libraries the components call: UTF-8, splitting, numbers, Base64, canonical JSON, sorting, rational decimals.

  \<^bold>\<open>Access.\<close> \<open>Policy\<close> is \<open>policy/decision.go\<close>: workspace access is exactly its role and status matrix, and the answer to
  a request from another tenant depends on nothing of the workspace.

  \<^bold>\<open>Text and evidence.\<close> \<open>Canon_Text\<close>, \<open>Canon_Segment\<close>, \<open>Canon_Layout\<close> and \<open>Canon_Structural\<close> are
  \<open>source/canon/text.go\<close>, \<open>text_layout.go\<close> and \<open>structural_layout.go\<close>: canonical text, its lines, its fragments and the
  records that place them. \<open>Whole_Text\<close> is the reader of \<open>source/evidence/viewer_layout.go\<close> and
  \<open>viewer_structural_layout.go\<close>. \<open>Address\<close> is \<open>address/address.go\<close>. Segmentation partitions the text, the reader inverts the
  layout and releases only authenticated text, addresses parse and print as inverses, and paged reading ends and
  gives the original back; for texts that are not UTF-8 it does not, and a leading blank line before an
  oversized one cannot be laid out.

  \<^bold>\<open>Scopes.\<close> \<open>Path_Canon\<close> and \<open>Scope_Glob\<close> are \<open>source/pathcanon\<close> and \<open>source/scopeglob\<close>: an accepted path only walks
  down from whatever directory it is read in, and holds nothing a file system may take for a separator or a device; the
  scope decision is include minus exclude in a declarative meaning of the patterns, whose compiled form spells their
  text, and the matcher's budgets are enough or reported.

  \<^bold>\<open>Sandbox.\<close> \<open>Sandbox_Wire\<close>, \<open>Sandbox_Lease\<close> and \<open>Sandbox_Dispatch\<close> are the first profile of \<open>sandboxdispatch\<close>:
  documents and frames, the lease machine, and the broker as a step relation whose steps are the sections under its
  mutex. A lease sends at most one result, of the right kind; the first resolution leaves the mutex held.

  \<^bold>\<open>Workspace.\<close> \<open>Workspace\<close> is \<open>workspace/workspace.go\<close>: a revision is a normalized snapshot, its canonical bytes
  determine it, and along a chain of revisions no source binding is lost or rebound.

  \<^bold>\<open>Analytics.\<close> \<open>Aggregate\<close> is the reducer of \<open>analytic/aggregate.go\<close> with the filter validation of
  \<open>planner/planner.go\<close>; \<open>Aggregate_Order\<close> shows that a result does not depend on the order of Go's maps while an error
  may, and \<open>Aggregate_Meaning\<close> what each bucket means. \<open>Metric_Profile\<close>, \<open>Metric_Query\<close>, \<open>Compiled_Query\<close>,
  \<open>Metric_Result\<close> and \<open>Metric_Evidence\<close> are \<open>metriccompare\<close>: profiles, the compiled SQL as a token sequence that no input
  changes, and the exactness of the comparison. \<open>Governed_Query\<close> and \<open>Governed_Safety\<close> are \<open>governedquery\<close>: every text
  sent to the database is behind its checks and a success is complete and within the limits.

  \<^bold>\<open>Datasets.\<close> \<open>Dataset_Profile\<close> and \<open>Dataset_Catalog\<close> are the \<open>dataset_profile\<close> files of \<open>analytic\<close>: the specification of a
  dataset and its validation, the sealed profile with the hash of its canonical form, the registry, the catalog of profiles,
  its transitions and the mounted documents. \<open>Dataset_Seal\<close> shows that normalizing is idempotent and that a valid profile
  or catalog is exactly a sealed one; \<open>Dataset_History\<close> that an accepted transition moves a catalog forward, as an instance
  of \<open>revision_chain\<close>; \<open>Dataset_Guarantees\<close> that a hash determines its profile except for integers JSON cannot carry, that a
  retired profile never resolves again, and that mounted documents read back.

  \<^bold>\<open>Audit.\<close> \<open>Audit_Event\<close>, \<open>Audit_Build\<close> and \<open>Audit_Store\<close> are \<open>internal/audit\<close> with \<open>platform/database/database.go\<close> and
  migration 000002, with the chain trigger and the constraints an event row is checked against, which every built event
  passes. \<open>Audit_Chain\<close> shows that an event's canonical bytes determine it, \<open>Audit_Log\<close> states the abstract
  append-only log of an organization, and \<open>Audit_Guarantees\<close> that an append implements it, happens at most once,
  completes, and that a chain head pins the history.

  \<^bold>\<open>Jobs and keys.\<close> \<open>Job_Queue\<close> is \<open>jobs/jobs.go\<close> over the functions of migrations 000013, 000070 and 000100;
  \<open>Job_Safety\<close> shows that a lease is fenced by its epoch, that the tables stay consistent under every interleaving and that an
  expired lease does not strand its job. \<open>Artifact_Crypto\<close> is \<open>platform/artifactcrypto\<close>; \<open>Artifact_Seal\<close> states its key
  wrapping as the locale \<open>key_wrapping\<close>, interpreted on the mounted provider, and shows that an artifact opens to its
  plaintext, and for its owner only. \<open>Rotation\<close> is \<open>rotation/rotation.go\<close> and the re-wrap pass of \<open>handler.go\<close> over
  migrations 000019 and 000020; \<open>Rotation_Safety\<close> composes the three: what a pass leaves, that a re-wrapped artifact
  still opens when the registered pair is mounted and is lost otherwise, and that a second rotation gets no job.

  \<^bold>\<open>Not modelled.\<close> The packages that orchestrate models, HTTP, SQL and the file system (\<open>question\<close>, \<open>platform/workspaceapi\<close>,
  \<open>governedask\<close>, \<open>ingestion\<close>, \<open>connector\<close>, \<open>retrieval\<close>, \<open>search\<close>, \<open>modelgateway\<close>, \<open>operator\<close> and their like): their
  decisions are calls of other components around input and output. Within the modelled packages: the second profile
  of the sandbox broker and its sockets, the authorized fetch and journal of the evidence viewer, the presentation of a
  comparison, the mount of the governed connection, the natural-language planner, the civil-time resolver and the
  embedded zone database, the re-projection of keyed digests, the redacting \<open>String\<close> methods and the clearing of buffers,
  nil receivers and cancelled contexts.
\<close>

end
